(* ===== verification/Prelude.thy ===== *)
theory Prelude
  imports Complex_Main "HOL-Library.Product_Lexorder" "HOL-Library.List_Lexorder" "HOL-Library.Char_ord"
begin

text \<open>
  Shared vocabulary of the Executor development.

  \<^item> Base types: identifiers (\<open>uuid\<close>), instants and durations in microseconds
    (\<open>datetime\<close>, \<open>timedelta\<close>), JSON values (\<open>json\<close>).
  \<^item> The Python expressions the sources use everywhere: \<open>a or b\<close> on optional strings
    and on optional values, \<open>s[:n]\<close>.
  \<^item> Tables. A database table is the list of its rows. \<open>scalar\<close> is
    \<open>session.scalar(select(T).where(P))\<close>, \<open>update_where\<close> is
    \<open>update(T).where(P).values(f)\<close> and \<open>rowcount\<close> the number of rows it hits.
    Their laws are collected in \<open>table_simps\<close>.
  \<^item> Results: a computation that may raise has the type \<open>'e + 'a\<close>, \<open>Inl\<close> for the
    raised error; \<open>bind_res\<close> sequences two of them.
\<close>

named_theorems table_simps
named_theorems frame_simps

type_synonym uuid = nat
type_synonym datetime = int
type_synonym timedelta = int

definition seconds :: "int \<Rightarrow> timedelta" where
  "seconds n = n * 1000000"

lemma seconds_mono [simp]: "seconds a \<le> seconds b \<longleftrightarrow> a \<le> b"
  by (simp add: seconds_def)

lemma seconds_pos [simp]: "0 < seconds a \<longleftrightarrow> 0 < a"
  by (simp add: seconds_def)

subsection \<open>Python expressions\<close>

text \<open>
  \<open>a or b\<close> where \<open>a\<close> is an optional string: both \<open>None\<close> and the empty string are
  false. A datetime is always true, so on optional instants only \<open>None\<close> falls through.
\<close>

fun str_truthy :: "string option \<Rightarrow> bool" where
  "str_truthy None = False"
| "str_truthy (Some s) = (s \<noteq> [])"

definition str_or :: "string option \<Rightarrow> string option \<Rightarrow> string option" where
  "str_or a b = (if str_truthy a then a else b)"

definition str_or_else :: "string option \<Rightarrow> string \<Rightarrow> string" where
  "str_or_else a b = (if str_truthy a then the a else b)"

definition opt_or :: "'a option \<Rightarrow> 'a \<Rightarrow> 'a" where
  "opt_or a b = (case a of None \<Rightarrow> b | Some x \<Rightarrow> x)"

lemma opt_or_simps [simp]: "opt_or None b = b" "opt_or (Some a) b = a"
  by (simp_all add: opt_or_def)

lemma str_or_else_nonempty: "b \<noteq> [] \<Longrightarrow> str_or_else a b \<noteq> []"
  by (cases a) (auto simp: str_or_else_def)

definition gt_now :: "datetime option \<Rightarrow> datetime \<Rightarrow> bool" where
  "gt_now t now = (case t of None \<Rightarrow> False | Some x \<Rightarrow> now < x)"

lemma gt_now_simps [simp]: "\<not> gt_now None now" "gt_now (Some x) now \<longleftrightarrow> now < x"
  by (simp_all add: gt_now_def)

subsection \<open>JSON values\<close>

text \<open>
  The dictionaries the program stores and hashes. An object keeps its keys in insertion
  order, as a Python dict does. A float is kept as the text \<open>json.dumps\<close> prints for it.
\<close>

datatype json =
    JNull
  | JBool bool
  | JInt int
  | JFloat string
  | JStr string
  | JList "json list"
  | JObj "(string \<times> json) list"

definition json_opt_str :: "string option \<Rightarrow> json" where
  "json_opt_str v = (case v of None \<Rightarrow> JNull | Some s \<Rightarrow> JStr s)"

definition json_opt_int :: "int option \<Rightarrow> json" where
  "json_opt_int v = (case v of None \<Rightarrow> JNull | Some i \<Rightarrow> JInt i)"

fun json_get :: "string \<Rightarrow> json \<Rightarrow> json option" where
  "json_get k (JObj kvs) = map_of kvs k"
| "json_get k _ = None"

subsection \<open>Tables\<close>

definition scalar :: "('r \<Rightarrow> bool) \<Rightarrow> 'r list \<Rightarrow> 'r option" where
  "scalar P t = List.find P t"

definition update_where :: "('r \<Rightarrow> bool) \<Rightarrow> ('r \<Rightarrow> 'r) \<Rightarrow> 'r list \<Rightarrow> 'r list" where
  "update_where P f t = map (\<lambda>r. if P r then f r else r) t"

definition rowcount :: "('r \<Rightarrow> bool) \<Rightarrow> 'r list \<Rightarrow> nat" where
  "rowcount P t = length (filter P t)"

lemma scalar_simps [simp, table_simps]:
  "scalar P [] = None"
  "scalar P (r # t) = (if P r then Some r else scalar P t)"
  by (simp_all add: scalar_def)

lemma update_where_simps [simp, table_simps]:
  "update_where P f [] = []"
  "update_where P f (r # t) = (if P r then f r else r) # update_where P f t"
  by (simp_all add: update_where_def)

lemma length_update_where [simp]: "length (update_where P f t) = length t"
  by (simp add: update_where_def)

lemma scalar_SomeD: "scalar P t = Some r \<Longrightarrow> P r \<and> r \<in> set t"
  by (induction t) (auto split: if_splits)

lemma scalar_None_iff: "scalar P t = None \<longleftrightarrow> (\<forall>r\<in>set t. \<not> P r)"
  by (induction t) auto

lemma scalar_append: "scalar P (t @ u) = (case scalar P t of None \<Rightarrow> scalar P u | Some r \<Rightarrow> Some r)"
  by (induction t) auto

lemma rowcount_pos_iff: "0 < rowcount P t \<longleftrightarrow> (\<exists>r\<in>set t. P r)"
  by (auto simp: rowcount_def filter_empty_conv)

lemma rowcount_0_iff: "rowcount P t = 0 \<longleftrightarrow> (\<forall>r\<in>set t. \<not> P r)"
  by (auto simp: rowcount_def filter_empty_conv)

lemma set_update_where: "set (update_where P f t) = (\<lambda>r. if P r then f r else r) ` set t"
  by (simp add: update_where_def)

lemma update_where_none: "(\<And>r. r \<in> set t \<Longrightarrow> \<not> P r) \<Longrightarrow> update_where P f t = t"
  by (induction t) auto

lemma update_where_append: "update_where P f (t @ u) = update_where P f t @ update_where P f u"
  by (simp add: update_where_def)

text \<open>
  A lookup by a key the update keeps. The key functions of the sources are primary keys, so
  the update changes at most the row that is looked up.
\<close>

lemma map_key_update_where:
  "(\<And>r. P r \<Longrightarrow> key (f r) = key r) \<Longrightarrow> map key (update_where P f t) = map key t"
  by (induction t) auto

lemma scalar_key_update_where:
  assumes "\<And>r. P r \<Longrightarrow> key (f r) = key r"
  shows "scalar (\<lambda>r. key r = k) (update_where P f t) =
    map_option (\<lambda>r. if P r then f r else r) (scalar (\<lambda>r. key r = k) t)"
  using assms by (induction t) auto

lemma scalar_key_unique:
  "distinct (map key t) \<Longrightarrow> r \<in> set t \<Longrightarrow> key r = k \<Longrightarrow> scalar (\<lambda>r. key r = k) t = Some r"
  by (induction t) (auto simp: image_iff)

lemma scalar_unique_cond:
  assumes "\<And>r s. r \<in> set t \<Longrightarrow> s \<in> set t \<Longrightarrow> P r \<Longrightarrow> P s \<Longrightarrow> r = s"
    and "r \<in> set t" and "P r"
  shows "scalar P t = Some r"
  using assms by (cases "scalar P t") (auto simp: scalar_None_iff dest: scalar_SomeD)

lemma rowcount_key_le_1: "distinct (map key t) \<Longrightarrow> rowcount (\<lambda>r. key r = k \<and> P r) t \<le> 1"
proof (induction t)
  case (Cons r t)
  show ?case
  proof (cases "key r = k \<and> P r")
    case True
    with Cons.prems have "rowcount (\<lambda>r. key r = k \<and> P r) t = 0"
      by (auto simp: rowcount_0_iff image_iff)
    then show ?thesis by (simp add: rowcount_def)
  next
    case False
    have le: "rowcount (\<lambda>r. key r = k \<and> P r) t \<le> 1"
      by (rule Cons.IH) (use Cons.prems in simp)
    from False have "rowcount (\<lambda>r. key r = k \<and> P r) (r # t) = rowcount (\<lambda>r. key r = k \<and> P r) t"
      by (simp add: rowcount_def)
    with le show ?thesis by (simp only:)
  qed
qed (simp add: rowcount_def)

lemma rowcount_key_eq_1_iff:
  assumes "distinct (map key t)"
  shows "rowcount (\<lambda>r. key r = k \<and> P r) t = 1 \<longleftrightarrow>
    (\<exists>r. scalar (\<lambda>r. key r = k) t = Some r \<and> P r)"
proof -
  have "rowcount (\<lambda>r. key r = k \<and> P r) t = 1 \<longleftrightarrow> 0 < rowcount (\<lambda>r. key r = k \<and> P r) t"
    using rowcount_key_le_1 [OF assms, of k P] by linarith
  also have "\<dots> \<longleftrightarrow> (\<exists>r. scalar (\<lambda>r. key r = k) t = Some r \<and> P r)"
    unfolding rowcount_pos_iff
    using scalar_key_unique [OF assms] by (fastforce dest: scalar_SomeD)
  finally show ?thesis .
qed

text \<open>Sorting commutes with a map.\<close>

lemma insort_key_map: "insort_key f (g x) (map g xs) = map g (insort_key (\<lambda>x. f (g x)) x xs)"
  by (induction xs) simp_all

lemma sort_key_map: "sort_key f (map g xs) = map g (sort_key (\<lambda>x. f (g x)) xs)"
  by (induction xs) (simp_all add: insort_key_map)

subsection \<open>Results\<close>

definition bind_res :: "'e + 'a \<Rightarrow> ('a \<Rightarrow> 'e + 'b) \<Rightarrow> 'e + 'b" where
  "bind_res x f = (case x of Inl e \<Rightarrow> Inl e | Inr a \<Rightarrow> f a)"

lemma bind_res_simps [simp]: "bind_res (Inl e) f = Inl e" "bind_res (Inr a) f = f a"
  by (simp_all add: bind_res_def)

lemma bind_res_eq_Inr: "bind_res x f = Inr b \<longleftrightarrow> (\<exists>a. x = Inr a \<and> f a = Inr b)"
  by (cases x) auto

lemma bind_res_eq_Inl: "bind_res x f = Inl e \<longleftrightarrow> x = Inl e \<or> (\<exists>a. x = Inr a \<and> f a = Inl e)"
  by (cases x) auto

text \<open>\<open>guard b e\<close> is \<open>if b: raise e\<close>.\<close>

definition raise_if :: "bool \<Rightarrow> 'e \<Rightarrow> 'e + unit" where
  "raise_if b e = (if b then Inl e else Inr ())"

lemma raise_if_simps [simp]:
  "raise_if b e = Inr u \<longleftrightarrow> \<not> b" "raise_if b e = Inl e' \<longleftrightarrow> b \<and> e' = e"
  by (auto simp: raise_if_def)

lemma bind_raise_if: "bind_res (raise_if b e) f = (if b then Inl e else f ())"
  by (simp add: raise_if_def)

text \<open>The first error of a loop that only checks: \<open>for x in xs: check(x)\<close>.\<close>

fun check_each :: "('a \<Rightarrow> 'e + unit) \<Rightarrow> 'a list \<Rightarrow> 'e + unit" where
  "check_each f [] = Inr ()"
| "check_each f (x # xs) = bind_res (f x) (\<lambda>_. check_each f xs)"

lemma check_each_Inr_iff: "check_each f xs = Inr () \<longleftrightarrow> (\<forall>x\<in>set xs. f x = Inr ())"
  by (induction xs) (auto simp: bind_res_eq_Inr)

lemma check_each_Inl: "check_each f xs = Inl e \<Longrightarrow> \<exists>x\<in>set xs. f x = Inl e"
  by (induction xs) (auto simp: bind_res_eq_Inl)

text \<open>A loop that threads a state and may raise.\<close>

fun foldM_res :: "('s \<Rightarrow> 'a \<Rightarrow> 'e + 's) \<Rightarrow> 's \<Rightarrow> 'a list \<Rightarrow> 'e + 's" where
  "foldM_res f s [] = Inr s"
| "foldM_res f s (x # xs) = bind_res (f s x) (\<lambda>s'. foldM_res f s' xs)"

lemma foldM_res_invariant:
  assumes "\<And>s x s'. I s \<Longrightarrow> f s x = Inr s' \<Longrightarrow> I s'"
  shows "foldM_res f s xs = Inr s' \<Longrightarrow> I s \<Longrightarrow> I s'"
  using assms by (induction xs arbitrary: s) (auto simp: bind_res_eq_Inr)

lemma image_key_iff: "k \<in> f ` A \<longleftrightarrow> (\<exists>x\<in>A. f x = k)"
  by auto

lemma if_Some_eq: "((if b then Some x else None) = Some y) = (b \<and> y = x)"
  by auto

lemma sorted_from [simp]: "sorted (map (\<lambda>i. n + int i) [0..<k])"
  by (auto simp: sorted_iff_nth_mono)

lemma not_key_imageD: "k \<notin> f ` A \<Longrightarrow> x \<in> A \<Longrightarrow> f x \<noteq> k"
  by auto

lemma scalar_key_cond:
  "distinct (map key t) \<Longrightarrow> scalar (\<lambda>r. key r = k \<and> P r) t =
     (case scalar (\<lambda>r. key r = k) t of None \<Rightarrow> None | Some r \<Rightarrow> if P r then Some r else None)"
proof (induction t)
  case (Cons x t)
  show ?case
  proof (cases "key x = k")
    case True
    then have "scalar (\<lambda>r. key r = k) t = None"
      using Cons.prems not_key_imageD [of k key "set t"] by (simp add: scalar_None_iff)
    then have "scalar (\<lambda>r. key r = k \<and> P r) t = None" by (auto simp: scalar_None_iff)
    with True show ?thesis by simp
  qed (use Cons in simp)
qed simp

end
