(* ===== verification/Domain_Enums.thy ===== *)
theory Domain_Enums
  imports Prelude
begin

text \<open>
  \<open>domain/enums.py\<close>, \<open>domain/errors.py\<close>, \<open>domain/transitions.py\<close> and
  \<open>domain/tenants.py\<close>: the enumerations (with the \<open>StrEnum\<close> values the program
  stores or emits), the business errors with their code and REST status, the table of allowed
  Execution status transitions and the tenant identifiers. The lemmas show what the table
  allows: which statuses are absorbing, and that every status can still reach a terminal one.
\<close>

subsection \<open>Enumerations\<close>

datatype execution_status =
    ES_QUEUED | ES_RUNNING | ES_WAITING_FOR_OPERATION | ES_FINALIZING
  | ES_CANCEL_REQUESTED | ES_CANCELLED | ES_SUCCEEDED | ES_FAILED

definition execution_status_is_terminal :: "execution_status \<Rightarrow> bool" where
  "execution_status_is_terminal s \<longleftrightarrow> s = ES_CANCELLED \<or> s = ES_SUCCEEDED \<or> s = ES_FAILED"

fun execution_status_value :: "execution_status \<Rightarrow> string" where
  "execution_status_value ES_QUEUED = ''QUEUED''"
| "execution_status_value ES_RUNNING = ''RUNNING''"
| "execution_status_value ES_WAITING_FOR_OPERATION = ''WAITING_FOR_OPERATION''"
| "execution_status_value ES_FINALIZING = ''FINALIZING''"
| "execution_status_value ES_CANCEL_REQUESTED = ''CANCEL_REQUESTED''"
| "execution_status_value ES_CANCELLED = ''CANCELLED''"
| "execution_status_value ES_SUCCEEDED = ''SUCCEEDED''"
| "execution_status_value ES_FAILED = ''FAILED''"

datatype operation_mode = OM_SINGLE | OM_MULTI

fun operation_mode_value :: "operation_mode \<Rightarrow> string" where
  "operation_mode_value OM_SINGLE = ''SINGLE''"
| "operation_mode_value OM_MULTI = ''MULTI''"

datatype trigger_type = TT_INTERACTIVE | TT_BATCH

fun trigger_type_value :: "trigger_type \<Rightarrow> string" where
  "trigger_type_value TT_INTERACTIVE = ''INTERACTIVE''"
| "trigger_type_value TT_BATCH = ''BATCH''"

datatype executor_admission_state = EA_ACTIVE | EA_DRAINING

datatype maintenance_run_status = MR_REQUESTED | MR_RUNNING | MR_SUCCEEDED | MR_FAILED

datatype runtime_pool = RP_INTERACTIVE | RP_BATCH

fun runtime_pool_value :: "runtime_pool \<Rightarrow> string" where
  "runtime_pool_value RP_INTERACTIVE = ''INTERACTIVE''"
| "runtime_pool_value RP_BATCH = ''BATCH''"

datatype runtime_type = RT_JUPYTER

fun runtime_type_value :: "runtime_type \<Rightarrow> string" where
  "runtime_type_value RT_JUPYTER = ''JUPYTER''"

datatype code_source_type = CS_INLINE | CS_PATH

fun code_source_type_value :: "code_source_type \<Rightarrow> string" where
  "code_source_type_value CS_INLINE = ''INLINE''"
| "code_source_type_value CS_PATH = ''PATH''"

datatype step_status =
  SS_PENDING | SS_RUNNING | SS_SUCCEEDED | SS_FAILED | SS_SKIPPED | SS_CANCELLED

fun step_status_value :: "step_status \<Rightarrow> string" where
  "step_status_value SS_PENDING = ''PENDING''"
| "step_status_value SS_RUNNING = ''RUNNING''"
| "step_status_value SS_SUCCEEDED = ''SUCCEEDED''"
| "step_status_value SS_FAILED = ''FAILED''"
| "step_status_value SS_SKIPPED = ''SKIPPED''"
| "step_status_value SS_CANCELLED = ''CANCELLED''"

datatype outbox_status = OB_PENDING | OB_PUBLISHED

datatype runtime_target_status = TS_ACTIVE | TS_DRAINING | TS_OFFLINE

datatype attempt_status = AS_RUNNING | AS_WAITING | AS_SUCCEEDED | AS_FAILED | AS_CANCELLED

datatype operation_status = OS_QUEUED | OS_RUNNING | OS_SUCCEEDED | OS_FAILED | OS_CANCELLED

definition operation_status_is_terminal :: "operation_status \<Rightarrow> bool" where
  "operation_status_is_terminal s \<longleftrightarrow> s = OS_SUCCEEDED \<or> s = OS_FAILED \<or> s = OS_CANCELLED"

fun operation_status_value :: "operation_status \<Rightarrow> string" where
  "operation_status_value OS_QUEUED = ''QUEUED''"
| "operation_status_value OS_RUNNING = ''RUNNING''"
| "operation_status_value OS_SUCCEEDED = ''SUCCEEDED''"
| "operation_status_value OS_FAILED = ''FAILED''"
| "operation_status_value OS_CANCELLED = ''CANCELLED''"

datatype failure_type =
    FT_TOOL_ERROR | FT_INFRASTRUCTURE_ERROR | FT_WORKER_SHUTDOWN | FT_RUNTIME_UNAVAILABLE
  | FT_LEASE_EXPIRED | FT_INTERNAL_ERROR | FT_OPERATION_WAIT_TIMEOUT | FT_OPERATION_TIMEOUT
  | FT_STEP_TIMEOUT | FT_EXECUTION_TIMEOUT | FT_QUEUE_TIMEOUT | FT_OUTPUT_LIMIT_EXCEEDED
  | FT_RUNTIME_SESSION_LOST | FT_COMPLETION_FAILED

fun failure_type_value :: "failure_type \<Rightarrow> string" where
  "failure_type_value FT_TOOL_ERROR = ''TOOL_ERROR''"
| "failure_type_value FT_INFRASTRUCTURE_ERROR = ''INFRASTRUCTURE_ERROR''"
| "failure_type_value FT_WORKER_SHUTDOWN = ''WORKER_SHUTDOWN''"
| "failure_type_value FT_RUNTIME_UNAVAILABLE = ''RUNTIME_UNAVAILABLE''"
| "failure_type_value FT_LEASE_EXPIRED = ''LEASE_EXPIRED''"
| "failure_type_value FT_INTERNAL_ERROR = ''INTERNAL_ERROR''"
| "failure_type_value FT_OPERATION_WAIT_TIMEOUT = ''OPERATION_WAIT_TIMEOUT''"
| "failure_type_value FT_OPERATION_TIMEOUT = ''OPERATION_TIMEOUT''"
| "failure_type_value FT_STEP_TIMEOUT = ''STEP_TIMEOUT''"
| "failure_type_value FT_EXECUTION_TIMEOUT = ''EXECUTION_TIMEOUT''"
| "failure_type_value FT_QUEUE_TIMEOUT = ''QUEUE_TIMEOUT''"
| "failure_type_value FT_OUTPUT_LIMIT_EXCEEDED = ''OUTPUT_LIMIT_EXCEEDED''"
| "failure_type_value FT_RUNTIME_SESSION_LOST = ''RUNTIME_SESSION_LOST''"
| "failure_type_value FT_COMPLETION_FAILED = ''COMPLETION_FAILED''"

datatype finalized_by = FB_AGENT | FB_WAIT_TIMEOUT | FB_MAX_RUNTIME

fun finalized_by_value :: "finalized_by \<Rightarrow> string" where
  "finalized_by_value FB_AGENT = ''AGENT''"
| "finalized_by_value FB_WAIT_TIMEOUT = ''WAIT_TIMEOUT''"
| "finalized_by_value FB_MAX_RUNTIME = ''MAX_RUNTIME''"

datatype handover_reason = HR_EXECUTOR_SHUTDOWN | HR_EXECUTOR_UNRESPONSIVE

fun handover_reason_value :: "handover_reason \<Rightarrow> string" where
  "handover_reason_value HR_EXECUTOR_SHUTDOWN = ''EXECUTOR_SHUTDOWN''"
| "handover_reason_value HR_EXECUTOR_UNRESPONSIVE = ''EXECUTOR_UNRESPONSIVE''"

datatype retry_strategy = RS_NOT_RETRYABLE | RS_FROM_FAILED_STEP | RS_FROM_START

datatype runtime_session_cleanup_status =
  RC_NOT_REQUIRED | RC_PENDING | RC_SUCCEEDED | RC_FAILED

datatype runtime_abort_status =
    RA_NOT_REQUIRED | RA_PENDING | RA_IDLE_CONFIRMED | RA_SESSION_DELETED
  | RA_SESSION_MISSING | RA_FAILED

datatype artifact_type =
  AT_DATASET | AT_NOTEBOOK | AT_REPORT | AT_PLOT | AT_MODEL | AT_METRIC | AT_LOG | AT_OTHER

datatype artifact_storage_type = ST_PV | ST_S3

datatype artifact_status = AR_AVAILABLE | AR_INCOMPLETE | AR_DELETED

text \<open>
  \<open>RuntimePool(trigger_type.value)\<close> and \<open>AttemptStatus(status.value)\<close> build one
  enumeration from another's value; the second raises \<open>ValueError\<close> on a status that is
  not an Attempt status, here \<open>None\<close>.
\<close>

fun runtime_pool_of_trigger :: "trigger_type \<Rightarrow> runtime_pool" where
  "runtime_pool_of_trigger TT_INTERACTIVE = RP_INTERACTIVE"
| "runtime_pool_of_trigger TT_BATCH = RP_BATCH"

lemma runtime_pool_of_trigger_value:
  "runtime_pool_value (runtime_pool_of_trigger t) = trigger_type_value t"
  by (cases t) simp_all

fun attempt_status_of_execution :: "execution_status \<Rightarrow> attempt_status option" where
  "attempt_status_of_execution ES_RUNNING = Some AS_RUNNING"
| "attempt_status_of_execution ES_SUCCEEDED = Some AS_SUCCEEDED"
| "attempt_status_of_execution ES_FAILED = Some AS_FAILED"
| "attempt_status_of_execution ES_CANCELLED = Some AS_CANCELLED"
| "attempt_status_of_execution _ = None"

subsection \<open>Business errors\<close>

datatype error_code =
    EC_REQUEST_VALIDATION_ERROR | EC_REQUEST_BODY_TOO_LARGE | EC_UNAUTHENTICATED
  | EC_INVALID_IDENTITY | EC_FORBIDDEN | EC_EXECUTION_NOT_FOUND
  | EC_EXECUTION_ATTEMPT_NOT_FOUND | EC_EXECUTION_OPERATION_NOT_FOUND
  | EC_EXECUTION_NOTEBOOK_NOT_AVAILABLE | EC_NOTEBOOK_CELL_NOT_FOUND | EC_NOTEBOOK_READ_ERROR
  | EC_ARTIFACT_NOT_FOUND | EC_ARTIFACT_CONTENT_UNAVAILABLE | EC_ARTIFACT_RANGE_NOT_SATISFIABLE
  | EC_RUNTIME_TARGET_NOT_FOUND | EC_INVALID_EXECUTION_SPEC | EC_INVALID_CURSOR
  | EC_UNSUPPORTED_RUNTIME_PROFILE | EC_UNSUPPORTED_RUNTIME_CAPABILITY
  | EC_RUNTIME_TARGET_CONFIGURATION_ERROR | EC_ARTIFACT_REGISTRATION_ERROR
  | EC_INVALID_STATE_TRANSITION | EC_EXECUTION_VERSION_CONFLICT | EC_IDEMPOTENCY_CONFLICT
  | EC_PERSISTENCE_CONFLICT | EC_RUNTIME_TARGET_PURGE_CONFLICT
  | EC_RUNTIME_TARGET_ENDPOINT_CONFLICT | EC_MAINTENANCE_RUN_NOT_FOUND
  | EC_MAINTENANCE_RUN_CONFLICT | EC_NOT_FOUND | EC_METHOD_NOT_ALLOWED | EC_INTERNAL_ERROR
  | EC_DATABASE_UNAVAILABLE

datatype location_part = LStr string | LInt int

type_synonym location = "location_part list"

datatype context_value = CStr string | CInt int | CFloat rat | CBool bool | CNone

text \<open>
  One field-level problem. The free text of \<open>message\<close> is not modelled: \<open>type\<close> is
  its stable reason and \<open>context\<close> holds the values behind it.
\<close>

record error_issue =
  ei_location :: location
  ei_type :: string
  ei_context :: "(string \<times> context_value) list"

datatype domain_error =
    UnauthenticatedError
  | InvalidIdentityError
  | ForbiddenError
  | ExecutionNotFoundError
  | ExecutionAttemptNotFoundError
  | ExecutionOperationNotFoundError
  | ExecutionNotebookNotAvailableError
  | NotebookCellNotFoundError
  | NotebookReadError
  | InvalidStateTransitionError
  | ExecutionVersionConflictError
  | IdempotencyConflictError
  | InvalidExecutionSpecError "error_issue list"
  | UnsupportedRuntimeProfileError
  | UnsupportedRuntimeCapabilityError
  | InvalidCursorError
  | PersistenceConflictError
  | RuntimeTargetNotFoundError
  | RuntimeTargetConfigurationError
  | RuntimeTargetPurgeConflictError
  | RuntimeTargetEndpointConflictError
  | MaintenanceRunNotFoundError
  | MaintenanceRunConflictError
  | ExecutionArtifactNotFoundError
  | ArtifactRegistrationError
  | ArtifactContentUnavailableError
  | ArtifactRangeNotSatisfiableError int
  | UnexpectedRuntimeError
  | IntegrityError
  | ResultStorageError
  | StorageFileNotFoundError
  | RuntimeValueError

text \<open>\<open>InvalidExecutionSpecError.at(location, message, type, **context)\<close>.\<close>

definition spec_error_at ::
    "location \<Rightarrow> string \<Rightarrow> (string \<times> context_value) list \<Rightarrow> domain_error" where
  "spec_error_at loc ty ctx =
     InvalidExecutionSpecError [\<lparr>ei_location = loc, ei_type = ty, ei_context = ctx\<rparr>]"

fun error_http_status :: "domain_error \<Rightarrow> nat" where
  "error_http_status UnauthenticatedError = 401"
| "error_http_status InvalidIdentityError = 400"
| "error_http_status ForbiddenError = 403"
| "error_http_status ExecutionNotFoundError = 404"
| "error_http_status ExecutionAttemptNotFoundError = 404"
| "error_http_status ExecutionOperationNotFoundError = 404"
| "error_http_status ExecutionNotebookNotAvailableError = 409"
| "error_http_status NotebookCellNotFoundError = 404"
| "error_http_status NotebookReadError = 422"
| "error_http_status InvalidStateTransitionError = 409"
| "error_http_status ExecutionVersionConflictError = 409"
| "error_http_status IdempotencyConflictError = 409"
| "error_http_status (InvalidExecutionSpecError _) = 422"
| "error_http_status UnsupportedRuntimeProfileError = 422"
| "error_http_status UnsupportedRuntimeCapabilityError = 422"
| "error_http_status InvalidCursorError = 422"
| "error_http_status PersistenceConflictError = 409"
| "error_http_status RuntimeTargetNotFoundError = 404"
| "error_http_status RuntimeTargetConfigurationError = 400"
| "error_http_status RuntimeTargetPurgeConflictError = 409"
| "error_http_status RuntimeTargetEndpointConflictError = 409"
| "error_http_status MaintenanceRunNotFoundError = 404"
| "error_http_status MaintenanceRunConflictError = 409"
| "error_http_status ExecutionArtifactNotFoundError = 404"
| "error_http_status ArtifactRegistrationError = 400"
| "error_http_status ArtifactContentUnavailableError = 409"
| "error_http_status (ArtifactRangeNotSatisfiableError _) = 416"
| "error_http_status UnexpectedRuntimeError = 500"
| "error_http_status IntegrityError = 500"
| "error_http_status ResultStorageError = 500"
| "error_http_status StorageFileNotFoundError = 500"
| "error_http_status RuntimeValueError = 500"

subsection \<open>Allowed Execution status transitions\<close>

fun EXECUTION_TRANSITIONS :: "execution_status \<Rightarrow> execution_status list" where
  "EXECUTION_TRANSITIONS ES_QUEUED = [ES_RUNNING, ES_CANCEL_REQUESTED, ES_FAILED]"
| "EXECUTION_TRANSITIONS ES_RUNNING =
     [ES_SUCCEEDED, ES_FAILED, ES_WAITING_FOR_OPERATION, ES_CANCEL_REQUESTED, ES_QUEUED]"
| "EXECUTION_TRANSITIONS ES_WAITING_FOR_OPERATION =
     [ES_QUEUED, ES_FINALIZING, ES_CANCEL_REQUESTED, ES_FAILED]"
| "EXECUTION_TRANSITIONS ES_FINALIZING = [ES_RUNNING, ES_CANCEL_REQUESTED, ES_FAILED]"
| "EXECUTION_TRANSITIONS ES_CANCEL_REQUESTED = [ES_CANCELLED, ES_FAILED]"
| "EXECUTION_TRANSITIONS ES_FAILED = [ES_QUEUED]"
| "EXECUTION_TRANSITIONS _ = []"

definition allowed_transition :: "execution_status \<Rightarrow> execution_status \<Rightarrow> bool" where
  "allowed_transition current target \<longleftrightarrow> target \<in> set (EXECUTION_TRANSITIONS current)"

definition require_execution_transition ::
    "execution_status \<Rightarrow> execution_status \<Rightarrow> domain_error + unit" where
  "require_execution_transition current target =
     raise_if (\<not> allowed_transition current target) InvalidStateTransitionError"

lemma require_execution_transition_Inr [simp]:
  "require_execution_transition s t = Inr u \<longleftrightarrow> allowed_transition s t"
  by (simp add: require_execution_transition_def)

lemma require_execution_transition_Inl [simp]:
  "require_execution_transition s t = Inl e \<longleftrightarrow>
     \<not> allowed_transition s t \<and> e = InvalidStateTransitionError"
  by (auto simp: require_execution_transition_def)

lemma bind_require_transition [simp]:
  "bind_res (require_execution_transition s t) f =
     (if allowed_transition s t then f () else Inl InvalidStateTransitionError)"
  by (simp add: require_execution_transition_def raise_if_def)

lemma allowed_transition_simps [simp]:
  "allowed_transition ES_QUEUED t \<longleftrightarrow> t \<in> {ES_RUNNING, ES_CANCEL_REQUESTED, ES_FAILED}"
  "allowed_transition ES_RUNNING t \<longleftrightarrow>
     t \<in> {ES_SUCCEEDED, ES_FAILED, ES_WAITING_FOR_OPERATION, ES_CANCEL_REQUESTED, ES_QUEUED}"
  "allowed_transition ES_WAITING_FOR_OPERATION t \<longleftrightarrow>
     t \<in> {ES_QUEUED, ES_FINALIZING, ES_CANCEL_REQUESTED, ES_FAILED}"
  "allowed_transition ES_FINALIZING t \<longleftrightarrow> t \<in> {ES_RUNNING, ES_CANCEL_REQUESTED, ES_FAILED}"
  "allowed_transition ES_CANCEL_REQUESTED t \<longleftrightarrow> t \<in> {ES_CANCELLED, ES_FAILED}"
  "allowed_transition ES_FAILED t \<longleftrightarrow> t = ES_QUEUED"
  "allowed_transition ES_CANCELLED t \<longleftrightarrow> False"
  "allowed_transition ES_SUCCEEDED t \<longleftrightarrow> False"
  by (auto simp: allowed_transition_def)

lemma allowed_cancel_iff:
  "allowed_transition s ES_CANCEL_REQUESTED \<longleftrightarrow>
     \<not> execution_status_is_terminal s \<and> s \<noteq> ES_CANCEL_REQUESTED"
  by (cases s) (simp_all add: execution_status_is_terminal_def)

text \<open>
  A status walk: the statuses an Execution passes through, each a row of the table. The
  system theory shows that every handler of the program makes such a walk.
\<close>

fun status_walk :: "execution_status \<Rightarrow> execution_status list \<Rightarrow> bool" where
  "status_walk s [] = True"
| "status_walk s (t # ts) = (allowed_transition s t \<and> status_walk t ts)"

lemma status_walk_append:
  "status_walk s (ts @ us) \<longleftrightarrow> status_walk s ts \<and> status_walk (last (s # ts)) us"
  by (induction ts arbitrary: s) auto

lemma status_walk_from_done:
  "s \<in> {ES_CANCELLED, ES_SUCCEEDED} \<Longrightarrow> status_walk s ts \<Longrightarrow> ts = []"
  by (cases ts) auto

lemma cancel_requested_never_succeeds:
  "status_walk ES_CANCEL_REQUESTED ts \<Longrightarrow> ES_FAILED \<notin> set ts \<Longrightarrow> set ts \<subseteq> {ES_CANCELLED}"
proof (cases ts)
  case (Cons t us)
  assume walk: "status_walk ES_CANCEL_REQUESTED ts" and nf: "ES_FAILED \<notin> set ts"
  with Cons have t: "t = ES_CANCELLED" and "status_walk ES_CANCELLED us" by auto
  then have "us = []" by (auto intro: status_walk_from_done [of ES_CANCELLED])
  with t Cons show ?thesis by simp
qed simp

subsection \<open>Tenants\<close>

definition is_lower :: "char \<Rightarrow> bool" where
  "is_lower c \<longleftrightarrow> CHR ''a'' \<le> c \<and> c \<le> CHR ''z''"

definition is_digit :: "char \<Rightarrow> bool" where
  "is_digit c \<longleftrightarrow> CHR ''0'' \<le> c \<and> c \<le> CHR ''9''"

text \<open>
  \<open>fullmatch\<close> of \<^verbatim>\<open>^[a-z][a-z0-9-]{1,62}[a-z0-9]$\<close>: a lower-case letter, between one
  and 62 characters of the middle class and a letter or digit at the end.
\<close>

definition is_valid_tenant_id :: "string \<Rightarrow> bool" where
  "is_valid_tenant_id value \<longleftrightarrow>
     3 \<le> length value \<and> length value \<le> 64 \<and>
     is_lower (hd value) \<and>
     list_all (\<lambda>c. is_lower c \<or> is_digit c \<or> c = CHR ''-'') (butlast (tl value)) \<and>
     (is_lower (last value) \<or> is_digit (last value))"

definition RESERVED_TENANT_IDS :: "string list" where
  "RESERVED_TENANT_IDS = [''dlq'', ''work'']"

definition tenant_event_stream :: "string \<Rightarrow> string \<Rightarrow> string" where
  "tenant_event_stream event_stream tenant_id = event_stream @ ''.'' @ tenant_id"

lemma tenant_event_stream_inject [simp]:
  "tenant_event_stream es t = tenant_event_stream es u \<longleftrightarrow> t = u"
  by (simp add: tenant_event_stream_def)

lemma valid_tenant_chars:
  assumes "is_valid_tenant_id t" and "c \<in> set t"
  shows "is_lower c \<or> is_digit c \<or> c = CHR ''-''"
proof -
  from assms(1) have len: "3 \<le> length t" by (simp add: is_valid_tenant_id_def)
  then have "t \<noteq> []" and "tl t \<noteq> []" by (cases t; force)+
  then have "t = hd t # butlast (tl t) @ [last t]"
    by (metis append_butlast_last_id last_tl list.collapse)
  with assms(2) have "c = hd t \<or> c \<in> set (butlast (tl t)) \<or> c = last t"
    by (metis Un_iff empty_iff empty_set insert_iff list.simps(15) set_append)
  then show ?thesis using assms(1) by (auto simp: is_valid_tenant_id_def list_all_iff)
qed

lemma valid_tenant_no_dot: "is_valid_tenant_id t \<Longrightarrow> CHR ''.'' \<notin> set t"
  by (auto dest!: valid_tenant_chars simp: is_lower_def is_digit_def less_eq_char_def)

end
