(* ===== verification/Json_Text.thy ===== *)
theory Json_Text
  imports Prelude "HOL-Library.Multiset"
begin

text \<open>
  \<open>domain/fingerprints.py\<close> and the part of \<open>json\<close>, \<open>uuid\<close> and \<open>str\<close> it and the
  rest of the service rely on. Characters are code points below 256; on those the UTF-8
  encoder, the ASCII escapes of \<open>json.dumps\<close> and \<open>str.strip\<close> are exact. The digest
  \<open>hashlib.sha256(b).hexdigest()\<close> is a parameter (\<open>sha256\<close>) of every definition that
  uses it.
\<close>

subsection \<open>Text\<close>

definition hex_digit :: "nat \<Rightarrow> char" where
  "hex_digit n = ''0123456789abcdef'' ! (n mod 16)"

definition hex_value :: "char \<Rightarrow> nat option" where
  "hex_value c =
     (let n = of_char c in
      if 48 \<le> n \<and> n \<le> (57::nat) then Some (n - 48)
      else if 97 \<le> n \<and> n \<le> 102 then Some (n - 87)
      else if 65 \<le> n \<and> n \<le> 70 then Some (n - 55)
      else None)"

text \<open>\<open>str(n)\<close> of a non-negative integer, and of any integer.\<close>

fun nat_str :: "nat \<Rightarrow> string" where
  "nat_str n = (if n < 10 then [hex_digit n] else nat_str (n div 10) @ [hex_digit (n mod 10)])"

declare nat_str.simps [simp del]

definition int_str :: "int \<Rightarrow> string" where
  "int_str i = (if i < 0 then ''-'' @ nat_str (nat (- i)) else nat_str (nat i))"

definition utf8_encode :: "string \<Rightarrow> string" where
  "utf8_encode s = concat (map (\<lambda>c. let n = of_char c :: nat in
     if n < 128 then [c] else [char_of (192 + n div 64), char_of (128 + n mod 64)]) s)"

text \<open>The characters below 256 for which \<open>str.isspace\<close> holds.\<close>

definition is_space :: "char \<Rightarrow> bool" where
  "is_space c \<longleftrightarrow>
     (let n = of_char c :: nat in
      (9 \<le> n \<and> n \<le> 13) \<or> (28 \<le> n \<and> n \<le> 32) \<or> n = 133 \<or> n = 160)"

definition strip :: "string \<Rightarrow> string" where
  "strip s = rev (dropWhile is_space (rev (dropWhile is_space s)))"

lemma dropWhile_Nil_iff: "dropWhile P xs = [] \<longleftrightarrow> (\<forall>x\<in>set xs. P x)"
  by (induction xs) auto

lemma strip_Nil_iff: "strip s = [] \<longleftrightarrow> (\<forall>c\<in>set s. is_space c)"
proof
  assume "strip s = []"
  then have all: "\<forall>c\<in>set (dropWhile is_space s). is_space c"
    by (simp add: strip_def dropWhile_Nil_iff)
  show "\<forall>c\<in>set s. is_space c"
  proof (cases "dropWhile is_space s")
    case Nil
    then show ?thesis by (simp add: dropWhile_Nil_iff)
  next
    case (Cons c cs)
    then have "\<not> is_space c" by (simp add: dropWhile_eq_Cons_conv)
    moreover have "is_space c" using all Cons by simp
    ultimately show ?thesis by contradiction
  qed
next
  assume "\<forall>c\<in>set s. is_space c"
  then have "dropWhile is_space s = []" by (simp only: dropWhile_Nil_iff)
  then show "strip s = []" by (simp only: strip_def rev.simps dropWhile.simps)
qed

subsection \<open>Identifiers as text\<close>

text \<open>\<open>str(uuid)\<close>: 32 hexadecimal digits in groups of 8, 4, 4, 4 and 12.\<close>

fun hex_digits :: "nat \<Rightarrow> nat \<Rightarrow> string" where
  "hex_digits 0 n = []"
| "hex_digits (Suc k) n = hex_digits k (n div 16) @ [hex_digit (n mod 16)]"

fun dash_groups :: "nat list \<Rightarrow> string \<Rightarrow> string" where
  "dash_groups [] h = h"
| "dash_groups (n # ns) h = take n h @ ''-'' @ dash_groups ns (drop n h)"

definition uuid_str :: "uuid \<Rightarrow> string" where
  "uuid_str u = dash_groups [8, 4, 4, 4] (hex_digits 32 u)"

text \<open>\<open>UUID(s)\<close> on the canonical form: drop the dashes, then 32 hexadecimal digits.\<close>

fun hex_fold :: "nat \<Rightarrow> string \<Rightarrow> nat option" where
  "hex_fold acc [] = Some acc"
| "hex_fold acc (c # cs) =
     (case hex_value c of None \<Rightarrow> None | Some d \<Rightarrow> hex_fold (16 * acc + d) cs)"

definition uuid_parse :: "string \<Rightarrow> uuid option" where
  "uuid_parse s =
     (let h = filter (\<lambda>c. c \<noteq> CHR ''-'') s in
      if length h = 32 then hex_fold 0 h else None)"

lemma length_hex_digits [simp]: "length (hex_digits k n) = k"
  by (induction k arbitrary: n) simp_all

lemma hex_fold_append:
  "hex_fold acc (xs @ ys) = (case hex_fold acc xs of None \<Rightarrow> None | Some a \<Rightarrow> hex_fold a ys)"
  by (induction xs arbitrary: acc) (auto split: option.splits)

lemma hex_value_table:
  "list_all (\<lambda>m. hex_value (''0123456789abcdef'' ! m) = Some m) [0..<16]"
  by code_simp

lemma hex_value_hex_digit [simp]: "hex_value (hex_digit n) = Some (n mod 16)"
  using hex_value_table by (simp add: hex_digit_def list_all_iff)

lemma hex_digit_not_dash [simp]: "hex_digit n \<noteq> CHR ''-''"
proof
  assume eq: "hex_digit n = CHR ''-''"
  have "hex_value (hex_digit n) = Some (n mod 16)" by simp
  with eq show False by (simp add: hex_value_def)
qed

lemma hex_digits_no_dash: "CHR ''-'' \<notin> set (hex_digits k n)"
  by (induction k arbitrary: n) (auto simp: hex_digit_not_dash [symmetric] simp del: hex_digit_not_dash)

lemma filter_dash_groups:
  "CHR ''-'' \<notin> set h \<Longrightarrow> filter (\<lambda>c. c \<noteq> CHR ''-'') (dash_groups ns h) = h"
proof (induction ns h rule: dash_groups.induct)
  case (1 h)
  then show ?case by (auto simp: filter_id_conv)
next
  case (2 n ns h)
  then have "filter (\<lambda>c. c \<noteq> CHR ''-'') (dash_groups ns (drop n h)) = drop n h"
    by (blast dest: in_set_dropD)
  moreover have "filter (\<lambda>c. c \<noteq> CHR ''-'') (take n h) = take n h"
    using "2.prems" by (auto simp: filter_id_conv dest: in_set_takeD)
  ultimately show ?case by simp
qed

lemma hex_fold_hex_digits: "hex_fold 0 (hex_digits k n) = Some (n mod 16 ^ k)"
proof (induction k arbitrary: n)
  case (Suc k)
  have "16 * ((n div 16) mod 16 ^ k) + n mod 16 = n mod 16 ^ Suc k"
    by (simp add: mod_mult2_eq)
  with Suc show ?case by (simp add: hex_fold_append)
qed simp

lemma uuid_parse_str: "u < 2 ^ 128 \<Longrightarrow> uuid_parse (uuid_str u) = Some u"
  by (simp add: uuid_parse_def uuid_str_def filter_dash_groups hex_digits_no_dash
      hex_fold_hex_digits Let_def del: dash_groups.simps)

lemma uuid_str_inject: "u < 2 ^ 128 \<Longrightarrow> v < 2 ^ 128 \<Longrightarrow> uuid_str u = uuid_str v \<Longrightarrow> u = v"
  by (metis option.inject uuid_parse_str)

subsection \<open>Canonical JSON\<close>

definition json_escape :: "char \<Rightarrow> string" where
  "json_escape c =
     (let n = of_char c :: nat in
      if n = 34 then [CHR 0x5C, CHR 0x22]
      else if n = 92 then [CHR 0x5C, CHR 0x5C]
      else if n = 10 then [CHR 0x5C, CHR ''n'']
      else if n = 13 then [CHR 0x5C, CHR ''r'']
      else if n = 9 then [CHR 0x5C, CHR ''t'']
      else if n = 8 then [CHR 0x5C, CHR ''b'']
      else if n = 12 then [CHR 0x5C, CHR ''f'']
      else if 32 \<le> n \<and> n \<le> 126 then [c]
      else [CHR 0x5C, CHR ''u'', CHR ''0'', CHR ''0'', hex_digit (n div 16), hex_digit (n mod 16)])"

definition json_quote :: "string \<Rightarrow> string" where
  "json_quote s = [CHR 0x22] @ concat (map json_escape s) @ [CHR 0x22]"

fun join :: "string \<Rightarrow> string list \<Rightarrow> string" where
  "join sep [] = []"
| "join sep [x] = x"
| "join sep (x # xs) = x @ sep @ join sep xs"

text \<open>\<open>json.dumps(value, sort_keys=True, separators=(",", ":"))\<close>.\<close>

fun json_dumps :: "json \<Rightarrow> string" where
  "json_dumps JNull = ''null''"
| "json_dumps (JBool b) = (if b then ''true'' else ''false'')"
| "json_dumps (JInt i) = int_str i"
| "json_dumps (JFloat t) = t"
| "json_dumps (JStr s) = json_quote s"
| "json_dumps (JList vs) = ''['' @ join '','' (map json_dumps vs) @ '']''"
| "json_dumps (JObj kvs) =
     ''{'' @ join '','' (map (\<lambda>(k, t). json_quote k @ '':'' @ t)
       (sort_key fst (map (\<lambda>(k, v). (k, json_dumps v)) kvs))) @ ''}''"

definition canonical_sha256 :: "(string \<Rightarrow> string) \<Rightarrow> json \<Rightarrow> string" where
  "canonical_sha256 sha256 payload = sha256 (utf8_encode (json_dumps payload))"

text \<open>
  The fingerprint does not depend on the order in which a dictionary was built: two lists of
  the same key/value pairs with distinct keys print the same text.
\<close>

lemma sort_key_fst_perm:
  assumes "mset xs = mset ys" and "distinct (map fst xs)"
  shows "sort_key fst xs = sort_key fst (ys :: ('k::linorder \<times> 'v) list)"
proof (rule properties_for_sort_key)
  show "mset (sort_key fst ys) = mset xs" using assms(1) by simp
  have dys: "distinct (map fst ys)" using assms by (metis mset_eq_imp_distinct_iff mset_map)
  show "filter (\<lambda>x. fst k = fst x) (sort_key fst ys) = filter (\<lambda>x. fst k = fst x) xs"
    if "k \<in> set (sort_key fst ys)" for k
  proof -
    have one: "filter (\<lambda>x. fst k = fst x) zs = [k]" if "k \<in> set zs" "distinct (map fst zs)" for zs
      using that by (induction zs) (auto simp: filter_empty_conv image_iff)
    have "k \<in> set ys" using that by simp
    then have "k \<in> set xs" using assms(1) by (metis mset_eq_setD)
    moreover have "filter (\<lambda>x. fst k = fst x) (sort_key fst ys) = [k]"
    proof (rule one)
      show "k \<in> set (sort_key fst ys)" by (fact that)
      show "distinct (map fst (sort_key fst ys))"
        using dys by (metis mset_eq_imp_distinct_iff mset_map mset_sort)
    qed
    ultimately show ?thesis using one assms(2) by simp
  qed
  show "sorted (map fst (sort_key fst ys))" by simp
qed

lemma json_dumps_key_order:
  assumes "mset kvs = mset kvs'" and "distinct (map fst kvs)"
  shows "json_dumps (JObj kvs) = json_dumps (JObj kvs')"
proof -
  let ?f = "\<lambda>(k, v). (k :: string, json_dumps v)"
  have "sort_key fst (map ?f kvs) = sort_key fst (map ?f kvs')"
    by (rule sort_key_fst_perm) (use assms in \<open>auto simp: comp_def case_prod_beta\<close>)
  then show ?thesis by simp
qed

end
