(* ===== verification/Json_Parser.thy ===== *)
theory Json_Parser
  imports Json_Text
begin

text \<open>
  Reading JSON back: the part of \<open>json.loads\<close> the result store relies on, for the two printers the
  service uses (\<open>json.dumps\<close> with and without \<open>ensure_ascii\<close>) and for their UTF-8 bytes.
  Characters are code points below 256, as in \<open>Json_Text\<close>; a \<open>\u\<close> escape above them is outside
  this model and is refused. A float keeps its literal.

  The recursion of the parser is bounded by fuel. Every nested value takes at least as many
  characters as it takes calls, so the length of the text is enough (\<open>parse_dumps\<close>).
\<close>

subsection \<open>Tokens\<close>

definition json_ws :: "char \<Rightarrow> bool" where
  "json_ws c \<longleftrightarrow> c \<in> {CHR '' '', CHR 0x09, CHR 0x0A, CHR 0x0D}"

abbreviation skip_ws :: "string \<Rightarrow> string" where
  "skip_ws \<equiv> dropWhile json_ws"

definition is_digit :: "char \<Rightarrow> bool" where
  "is_digit c \<longleftrightarrow> CHR ''0'' \<le> c \<and> c \<le> CHR ''9''"

text \<open>The optional fraction and exponent of \<open>NUMBER_RE\<close>, and the integer part.\<close>

definition scan_int :: "string \<Rightarrow> (string \<times> string) option" where
  "scan_int s =
     (let (sign, t) = (case s of c # cs \<Rightarrow> if c = CHR ''-'' then ([c], cs) else ([], s) | [] \<Rightarrow> ([], s)) in
      case t of
        [] \<Rightarrow> None
      | c # cs \<Rightarrow>
          if c = CHR ''0'' then Some (sign @ [c], cs)
          else if is_digit c then Some (sign @ takeWhile is_digit t, dropWhile is_digit t)
          else None)"

definition scan_frac :: "string \<Rightarrow> string \<times> string" where
  "scan_frac s =
     (case s of
        c # d # cs \<Rightarrow>
          if c = CHR ''.'' \<and> is_digit d
          then (c # takeWhile is_digit (d # cs), dropWhile is_digit (d # cs)) else ([], s)
      | _ \<Rightarrow> ([], s))"

definition scan_exp :: "string \<Rightarrow> string \<times> string" where
  "scan_exp s =
     (case s of
        c # cs \<Rightarrow>
          if c \<in> {CHR ''e'', CHR ''E''} then
            (let (sign, t) = (case cs of d # ds \<Rightarrow> if d \<in> {CHR ''+'', CHR ''-''} then ([d], ds) else ([], cs)
                              | [] \<Rightarrow> ([], cs)) in
             if takeWhile is_digit t = [] then ([], s)
             else (c # sign @ takeWhile is_digit t, dropWhile is_digit t))
          else ([], s)
      | [] \<Rightarrow> ([], s))"

definition int_parse :: "string \<Rightarrow> int" where
  "int_parse s =
     (case s of
        c # cs \<Rightarrow> if c = CHR ''-'' then - int (foldl (\<lambda>acc d. 10 * acc + the (hex_value d)) 0 cs)
                  else int (foldl (\<lambda>acc d. 10 * acc + the (hex_value d)) 0 s)
      | [] \<Rightarrow> 0)"

definition scan_number :: "string \<Rightarrow> (json \<times> string) option" where
  "scan_number s =
     (case scan_int s of
        None \<Rightarrow> None
      | Some (i, r) \<Rightarrow>
          (let (f, r1) = scan_frac r; (e, r2) = scan_exp r1 in
           Some (if f = [] \<and> e = [] then JInt (int_parse i) else JFloat (i @ f @ e), r2)))"

text \<open>The body of a string literal, up to its closing quote.\<close>

fun scan_string :: "string \<Rightarrow> (string \<times> string) option" where
  "scan_string [] = None"
| "scan_string (c # cs) =
     (if c = CHR 0x22 then Some ([], cs)
      else if c = CHR 0x5C then
        (case cs of
           [] \<Rightarrow> None
         | e # es \<Rightarrow>
             if e = CHR ''u'' then
               (case es of
                  a # b # x # y # ys \<Rightarrow>
                    (case hex_fold 0 [a, b, x, y] of
                       None \<Rightarrow> None
                     | Some n \<Rightarrow>
                         if n < 256 then map_option (apfst ((#) (char_of n))) (scan_string ys) else None)
                | _ \<Rightarrow> None)
             else
               (case map_of [(CHR 0x22, CHR 0x22), (CHR 0x5C, CHR 0x5C), (CHR ''/'', CHR ''/''),
                    (CHR ''b'', CHR 0x08), (CHR ''f'', CHR 0x0C), (CHR ''n'', CHR 0x0A),
                    (CHR ''r'', CHR 0x0D), (CHR ''t'', CHR 0x09)] e of
                  None \<Rightarrow> None
                | Some d \<Rightarrow> map_option (apfst ((#) d)) (scan_string es)))
      else if (of_char c :: nat) < 32 then None
      else map_option (apfst ((#) c)) (scan_string cs))"

definition literals :: "(string \<times> json) list" where
  "literals = [(''null'', JNull), (''true'', JBool True), (''false'', JBool False), (''NaN'', JFloat ''NaN''),
     (''Infinity'', JFloat ''Infinity''), (''-Infinity'', JFloat ''-Infinity'')]"

definition scan_literal :: "string \<Rightarrow> (json \<times> string) option" where
  "scan_literal s =
     map_option (\<lambda>(w, v). (v, drop (length w) s))
       (List.find (\<lambda>(w, v). take (length w) s = w) literals)"

text \<open>A \<open>dict\<close> keeps the position of the first and the value of the last assignment.\<close>

fun dict_set :: "string \<Rightarrow> json \<Rightarrow> (string \<times> json) list \<Rightarrow> (string \<times> json) list" where
  "dict_set k v [] = [(k, v)]"
| "dict_set k v ((k', v') # kvs) = (if k' = k then (k, v) # kvs else (k', v') # dict_set k v kvs)"

definition dict_of :: "(string \<times> json) list \<Rightarrow> (string \<times> json) list" where
  "dict_of kvs = foldl (\<lambda>acc (k, v). dict_set k v acc) [] kvs"

subsection \<open>Values\<close>

fun parse_value :: "nat \<Rightarrow> string \<Rightarrow> (json \<times> string) option"
  and parse_items :: "nat \<Rightarrow> string \<Rightarrow> (json list \<times> string) option"
  and parse_members :: "nat \<Rightarrow> string \<Rightarrow> ((string \<times> json) list \<times> string) option" where
  "parse_value 0 s = None"
| "parse_value (Suc n) s =
     (case s of
        [] \<Rightarrow> None
      | c # cs \<Rightarrow>
          if c = CHR 0x22 then map_option (apfst JStr) (scan_string cs)
          else if c = CHR ''['' then
            (case skip_ws cs of
               [] \<Rightarrow> None
             | d # ds \<Rightarrow> if d = CHR '']'' then Some (JList [], ds)
                         else map_option (apfst JList) (parse_items n (d # ds)))
          else if c = CHR ''{'' then
            (case skip_ws cs of
               [] \<Rightarrow> None
             | d # ds \<Rightarrow> if d = CHR ''}'' then Some (JObj [], ds)
                         else map_option (apfst (JObj \<circ> dict_of)) (parse_members n (d # ds)))
          else (case scan_literal s of Some r \<Rightarrow> Some r | None \<Rightarrow> scan_number s))"
| "parse_items 0 s = None"
| "parse_items (Suc n) s =
     (case parse_value n s of
        None \<Rightarrow> None
      | Some (v, r) \<Rightarrow>
          (case skip_ws r of
             [] \<Rightarrow> None
           | c # cs \<Rightarrow>
               if c = CHR '']'' then Some ([v], cs)
               else if c = CHR '','' then map_option (apfst ((#) v)) (parse_items n (skip_ws cs))
               else None))"
| "parse_members 0 s = None"
| "parse_members (Suc n) s =
     (case s of
        [] \<Rightarrow> None
      | q # qs \<Rightarrow>
          if q \<noteq> CHR 0x22 then None
          else
            (case scan_string qs of
               None \<Rightarrow> None
             | Some (k, r) \<Rightarrow>
                 (case skip_ws r of
                    [] \<Rightarrow> None
                  | c # cs \<Rightarrow>
                      if c \<noteq> CHR '':'' then None
                      else
                        (case parse_value n (skip_ws cs) of
                           None \<Rightarrow> None
                         | Some (v, r1) \<Rightarrow>
                             (case skip_ws r1 of
                                [] \<Rightarrow> None
                              | d # ds \<Rightarrow>
                                  if d = CHR ''}'' then Some ([(k, v)], ds)
                                  else if d = CHR '','' then
                                    map_option (apfst ((#) (k, v))) (parse_members n (skip_ws ds))
                                  else None)))))"

definition loads_text :: "string \<Rightarrow> json option" where
  "loads_text s =
     (case parse_value (length s) (skip_ws s) of
        None \<Rightarrow> None
      | Some (v, r) \<Rightarrow> if skip_ws r = [] then Some v else None)"

text \<open>\<open>bytes.decode("utf-8")\<close>, for the code points of this model.\<close>

fun utf8_decode :: "string \<Rightarrow> string option" where
  "utf8_decode [] = Some []"
| "utf8_decode (c # cs) =
     (if (of_char c :: nat) < 128 then map_option ((#) c) (utf8_decode cs)
      else
        (case cs of
           [] \<Rightarrow> None
         | d # ds \<Rightarrow>
             if of_char c \<in> {194, 195 :: nat} \<and> 128 \<le> (of_char d :: nat) \<and> (of_char d :: nat) < 192
             then map_option ((#) (char_of ((of_char c - 192) * 64 + (of_char d - 128 :: nat)))) (utf8_decode ds)
             else None))"

definition json_loads :: "string \<Rightarrow> json option" where
  "json_loads body = Option.bind (utf8_decode body) loads_text"

subsection \<open>Numbers\<close>

text \<open>What may follow a value inside a larger text.\<close>

definition delimited :: "string \<Rightarrow> bool" where
  "delimited r \<longleftrightarrow> r = [] \<or> hd r \<in> {CHR '','', CHR '']'', CHR ''}''}"

lemma delimiter_chars [simp]:
  "\<not> is_digit CHR '',''" "\<not> is_digit CHR '']''" "\<not> is_digit CHR ''}''" "\<not> is_digit CHR ''-''" "\<not> is_digit CHR ''.''"
  by (simp_all add: is_digit_def less_eq_char_def)

lemma delimited_digits:
  assumes "delimited r"
  shows "takeWhile is_digit (s @ r) = takeWhile is_digit s" and "dropWhile is_digit (s @ r) = dropWhile is_digit s @ r"
proof -
  have "takeWhile is_digit r = [] \<and> dropWhile is_digit r = r"
    using assms by (cases r) (auto simp: delimited_def)
  then show "takeWhile is_digit (s @ r) = takeWhile is_digit s" "dropWhile is_digit (s @ r) = dropWhile is_digit s @ r"
    by (induction s) auto
qed

lemma scan_int_append:
  assumes "scan_int s = Some (i, u)" and "delimited r"
  shows "scan_int (s @ r) = Some (i, u @ r)"
  using assms(1) delimited_digits [OF assms(2), of "tl s"] delimited_digits [OF assms(2), of "tl (tl s)"]
    delimited_digits [OF assms(2), of "[]"]
  by (cases s; cases "tl s") (auto simp: scan_int_def Let_def split: if_split_asm)

lemma scan_frac_append:
  assumes "delimited r"
  shows "scan_frac (s @ r) = apsnd (\<lambda>u. u @ r) (scan_frac s)"
  using assms delimited_digits [OF assms]
  by (cases s; cases "tl s"; cases r) (auto simp: scan_frac_def delimited_def split: list.splits)

lemma scan_exp_append:
  assumes "delimited r"
  shows "scan_exp (s @ r) = apsnd (\<lambda>u. u @ r) (scan_exp s)"
  using assms delimited_digits [OF assms, of "tl s"] delimited_digits [OF assms, of "tl (tl s)"]
  by (cases s; cases "tl s"; cases r) (auto simp: scan_exp_def delimited_def Let_def split: list.splits)

lemma scan_number_append:
  assumes "scan_number s = Some (v, u)" and "delimited r"
  shows "scan_number (s @ r) = Some (v, u @ r)"
proof -
  obtain i t where i: "scan_int s = Some (i, t)" using assms(1) by (auto simp: scan_number_def split: option.splits)
  obtain f t1 where f: "scan_frac t = (f, t1)" by (cases "scan_frac t")
  obtain e t2 where e: "scan_exp t1 = (e, t2)" by (cases "scan_exp t1")
  show ?thesis
    using assms(1) i f e scan_int_append [OF i assms(2)] scan_frac_append [OF assms(2), of t]
      scan_exp_append [OF assms(2), of t1]
    by (simp add: scan_number_def)
qed

lemma is_digit_hex_digit: "n < 10 \<Longrightarrow> is_digit (hex_digit n)"
proof -
  have "list_all (\<lambda>m. is_digit (''0123456789abcdef'' ! m)) [0..<10]" by code_simp
  then show "n < 10 \<Longrightarrow> is_digit (hex_digit n)" by (simp add: hex_digit_def list_all_iff)
qed

lemma hex_digit_zero_iff: "n < 10 \<Longrightarrow> hex_digit n = CHR ''0'' \<longleftrightarrow> n = 0"
proof -
  have "list_all (\<lambda>m. (''0123456789abcdef'' ! m = CHR ''0'') = (m = 0)) [0..<10]" by code_simp
  then show "n < 10 \<Longrightarrow> hex_digit n = CHR ''0'' \<longleftrightarrow> n = 0" by (simp add: hex_digit_def list_all_iff)
qed

lemma nat_str_digits: "c \<in> set (nat_str n) \<Longrightarrow> is_digit c"
proof (induction n rule: nat_str.induct)
  case (1 n)
  then show ?case by (subst (asm) (2) nat_str.simps) (auto simp: is_digit_hex_digit split: if_splits)
qed

lemma nat_str_nonempty: "nat_str n \<noteq> []"
  by (subst nat_str.simps) simp

lemma nat_str_leading: "hd (nat_str n) = CHR ''0'' \<Longrightarrow> n = 0"
proof (induction n rule: nat_str.induct)
  case (1 n)
  show ?case
  proof (cases "n < 10")
    case True
    then show ?thesis using "1.prems" by (subst (asm) nat_str.simps) (simp add: hex_digit_zero_iff)
  next
    case False
    then have "hd (nat_str (n div 10)) = CHR ''0''"
      using "1.prems" by (subst (asm) nat_str.simps) (simp add: nat_str_nonempty)
    then show ?thesis using "1.IH" False by auto
  qed
qed

lemma fold_digits_nat_str: "foldl (\<lambda>acc d. 10 * acc + the (hex_value d)) 0 (nat_str n) = n"
proof (induction n rule: nat_str.induct)
  case (1 n)
  then show ?case by (cases "n < 10"; subst nat_str.simps) simp_all
qed

lemma scan_number_nat: "scan_number (nat_str n) = Some (JInt (int n), [])"
proof -
  obtain c cs where s: "nat_str n = c # cs" using nat_str_nonempty by (cases "nat_str n") auto
  have d: "\<forall>x\<in>set (c # cs). is_digit x" using nat_str_digits [of _ n] s by metis
  have "c = CHR ''0'' \<Longrightarrow> nat_str n = [c]"
    using nat_str_leading [of n] s by (simp add: nat_str.simps)
  then have "scan_int (nat_str n) = Some (nat_str n, [])"
    using d s by (auto simp: scan_int_def takeWhile_eq_all_conv [THEN iffD2] dropWhile_eq_Nil_conv)
  moreover have "int_parse (nat_str n) = int n"
    using d fold_digits_nat_str [of n] s by (auto simp: int_parse_def)
  ultimately show ?thesis by (simp add: scan_number_def scan_frac_def scan_exp_def)
qed

lemma scan_number_int: "scan_number (int_str i) = Some (JInt i, [])"
proof (cases "i < 0")
  case True
  let ?n = "nat (- i)"
  obtain c cs where s: "nat_str ?n = c # cs" using nat_str_nonempty by (cases "nat_str ?n") auto
  have d: "\<forall>x\<in>set (c # cs). is_digit x" using nat_str_digits [of _ ?n] s by metis
  have "c \<noteq> CHR ''0''" using nat_str_leading [of ?n] s True by auto
  then have "scan_int (int_str i) = Some (int_str i, [])"
    using d s True by (auto simp: scan_int_def int_str_def takeWhile_eq_all_conv [THEN iffD2])
  moreover have "int_parse (int_str i) = i"
    using fold_digits_nat_str [of ?n] s True by (simp add: int_parse_def int_str_def)
  ultimately show ?thesis by (simp add: scan_number_def scan_frac_def scan_exp_def)
next
  case False
  then show ?thesis using scan_number_nat [of "nat i"] by (simp add: int_str_def)
qed

subsection \<open>The printers\<close>

text \<open>
  \<open>json.dumps(value, sort_keys=True, separators=(",", ":"))\<close> over the escapes of a character, and the
  escapes used with \<open>ensure_ascii=False\<close>.
\<close>

fun dumps_with :: "(char \<Rightarrow> string) \<Rightarrow> json \<Rightarrow> string" where
  "dumps_with esc JNull = ''null''"
| "dumps_with esc (JBool b) = (if b then ''true'' else ''false'')"
| "dumps_with esc (JInt i) = int_str i"
| "dumps_with esc (JFloat t) = t"
| "dumps_with esc (JStr s) = [CHR 0x22] @ concat (map esc s) @ [CHR 0x22]"
| "dumps_with esc (JList vs) = ''['' @ join '','' (map (dumps_with esc) vs) @ '']''"
| "dumps_with esc (JObj kvs) =
     ''{'' @ join '','' (map (\<lambda>(k, t). ([CHR 0x22] @ concat (map esc k) @ [CHR 0x22]) @ '':'' @ t)
       (sort_key fst (map (\<lambda>(k, v). (k, dumps_with esc v)) kvs))) @ ''}''"

lemma json_dumps_with: "json_dumps j = dumps_with json_escape j"
proof (induction j)
  case (JObj kvs)
  then have "map (\<lambda>(k, v). (k, json_dumps v)) kvs = map (\<lambda>(k, v). (k, dumps_with json_escape v)) kvs"
    by (auto intro: snds.intros)
  then show ?case by (simp only: json_dumps.simps dumps_with.simps json_quote_def)
qed (simp_all add: json_quote_def cong: map_cong)

definition utf8_escape :: "char \<Rightarrow> string" where
  "utf8_escape c =
     (let n = of_char c :: nat in
      if n = 34 then [CHR 0x5C, CHR 0x22]
      else if n = 92 then [CHR 0x5C, CHR 0x5C]
      else if n = 10 then [CHR 0x5C, CHR ''n'']
      else if n = 13 then [CHR 0x5C, CHR ''r'']
      else if n = 9 then [CHR 0x5C, CHR ''t'']
      else if n = 8 then [CHR 0x5C, CHR ''b'']
      else if n = 12 then [CHR 0x5C, CHR ''f'']
      else if 32 \<le> n then [c]
      else [CHR 0x5C, CHR ''u'', CHR ''0'', CHR ''0'', hex_digit (n div 16), hex_digit (n mod 16)])"

definition json_dumps_utf8 :: "json \<Rightarrow> string" where
  "json_dumps_utf8 j = utf8_encode (dumps_with utf8_escape j)"

text \<open>Values a printed text determines: finite floats and dictionaries, whose keys are distinct.\<close>

fun json_ok :: "json \<Rightarrow> bool" where
  "json_ok (JFloat t) = (scan_number t = Some (JFloat t, []))"
| "json_ok (JList vs) = list_all json_ok vs"
| "json_ok (JObj kvs) = (distinct (map fst kvs) \<and> list_all (\<lambda>(k, v). json_ok v) kvs)"
| "json_ok _ = True"

text \<open>The same value with the keys of every dictionary in order; equality of dictionaries ignores it.\<close>

fun json_sorted :: "json \<Rightarrow> json" where
  "json_sorted (JList vs) = JList (map json_sorted vs)"
| "json_sorted (JObj kvs) = JObj (sort_key fst (map (\<lambda>(k, v). (k, json_sorted v)) kvs))"
| "json_sorted j = j"

definition json_eq :: "json \<Rightarrow> json \<Rightarrow> bool" where
  "json_eq a b \<longleftrightarrow> json_sorted a = json_sorted b"

lemma sort_key_pairs:
  "sort_key fst (map (\<lambda>(k, v). (k, f v)) kvs) = map (\<lambda>(k, v). (k, f v)) (sort_key fst kvs)"
  by (simp add: sort_key_map case_prod_beta)

lemma dict_set_new: "k \<notin> fst ` set kvs \<Longrightarrow> dict_set k v kvs = kvs @ [(k, v)]"
  by (induction kvs) auto

lemma dict_of_distinct: "distinct (map fst kvs) \<Longrightarrow> dict_of kvs = kvs"
proof -
  have "foldl (\<lambda>acc (k, v). dict_set k v acc) acc kvs = acc @ kvs"
    if "distinct (map fst (acc @ kvs))" for acc
    using that by (induction kvs arbitrary: acc) (auto simp: dict_set_new)
  from this [of "[]"] show "distinct (map fst kvs) \<Longrightarrow> dict_of kvs = kvs" by (simp add: dict_of_def)
qed

subsection \<open>Reading a printed value back\<close>

lemma scan_int_first:
  "scan_int s \<noteq> None \<Longrightarrow> s \<noteq> [] \<and> (is_digit (hd s) \<or> hd s = CHR ''-'' \<and> tl s \<noteq> [] \<and> is_digit (hd (tl s)))"
  by (cases s; cases "tl s") (auto simp: scan_int_def is_digit_def less_eq_char_def split: if_split_asm)

lemma scan_number_first:
  "scan_number s \<noteq> None \<Longrightarrow> s \<noteq> [] \<and> (is_digit (hd s) \<or> hd s = CHR ''-'' \<and> tl s \<noteq> [] \<and> is_digit (hd (tl s)))"
  using scan_int_first [of s] by (cases "scan_int s") (auto simp: scan_number_def)

lemma digit_code: "is_digit c \<longleftrightarrow> 48 \<le> (of_char c :: nat) \<and> of_char c \<le> (57 :: nat)"
  by (simp add: is_digit_def less_eq_char_def)

lemma digit_chars:
  assumes "is_digit c"
  shows "c \<notin> {CHR 0x22, CHR ''['', CHR ''{'', CHR ''n'', CHR ''t'', CHR ''f'', CHR ''N'', CHR ''I'', CHR ''-'', CHR '']'', CHR ''}''}"
    and "\<not> json_ws c"
  using assms by (auto simp: is_digit_def less_eq_char_def json_ws_def)

lemma scan_literal_first:
  assumes "scan_literal s \<noteq> None"
  shows "hd s \<in> {CHR ''n'', CHR ''t'', CHR ''f'', CHR ''N'', CHR ''I''} \<or> hd s = CHR ''-'' \<and> hd (tl s) = CHR ''I''"
proof -
  obtain w v where "List.find (\<lambda>(w, v). take (length w) s = w) literals = Some (w, v)"
    using assms by (auto simp: scan_literal_def)
  then have wv: "(w, v) \<in> set literals" and "take (length w) s = w"
    by (auto simp: find_Some_iff in_set_conv_nth)
  then have s: "s = w @ drop (length w) s" by (metis append_take_drop_id)
  show ?thesis
    using wv by (subst (1 2 3) s) (auto simp: literals_def)
qed

lemma parse_number:
  assumes "scan_number s = Some (v, u)"
  shows "parse_value (Suc n) s = Some (v, u)"
proof -
  obtain c cs where s: "s = c # cs" and f: "is_digit c \<or> c = CHR ''-'' \<and> cs \<noteq> [] \<and> is_digit (hd cs)"
    using scan_number_first [of s] assms by (cases s) auto
  have "c \<notin> {CHR 0x22, CHR ''['', CHR ''{''}" using f digit_chars [of c] by auto
  moreover have "scan_literal s = None"
  proof (rule ccontr)
    assume "scan_literal s \<noteq> None"
    from scan_literal_first [OF this]
    have "c \<in> {CHR ''n'', CHR ''t'', CHR ''f'', CHR ''N'', CHR ''I''} \<or> c = CHR ''-'' \<and> hd cs = CHR ''I''"
      by (simp add: s)
    then show False using f by (auto simp: is_digit_def less_eq_char_def)
  qed
  ultimately show ?thesis using s assms by simp
qed

lemma number_first_char: "scan_number s \<noteq> None \<Longrightarrow> \<not> json_ws (hd s) \<and> hd s \<noteq> CHR '']''"
  using scan_number_first [of s] digit_chars [of "hd s"] by (auto simp: json_ws_def)

definition number_char :: "char \<Rightarrow> bool" where
  "number_char c \<longleftrightarrow> is_digit c \<or> c \<in> {CHR ''-'', CHR ''+'', CHR ''.'', CHR ''e'', CHR ''E''}"

lemma number_char_takeWhile: "c \<in> set (takeWhile is_digit s) \<Longrightarrow> number_char c"
  by (auto simp: number_char_def dest: set_takeWhileD)

lemma digit_zero: "is_digit CHR ''0''"
  by (simp add: is_digit_def less_eq_char_def)

lemma scan_int_chars: "scan_int s = Some (i, u) \<Longrightarrow> c \<in> set i \<Longrightarrow> number_char c"
  by (cases s; cases "tl s")
    (auto simp: scan_int_def number_char_def digit_zero split: if_split_asm dest: set_takeWhileD)

lemma scan_frac_chars: "c \<in> set (fst (scan_frac s)) \<Longrightarrow> number_char c"
  by (cases s; cases "tl s") (auto simp: scan_frac_def number_char_def split: if_split_asm dest: set_takeWhileD)

lemma scan_exp_chars: "c \<in> set (fst (scan_exp s)) \<Longrightarrow> number_char c"
  by (cases s; cases "tl s")
    (auto simp: scan_exp_def number_char_def Let_def split: if_split_asm dest: set_takeWhileD)

lemma scan_number_chars: "scan_number s = Some (JFloat t, u) \<Longrightarrow> c \<in> set t \<Longrightarrow> number_char c"
  using scan_int_chars [of s _ _ c] scan_frac_chars [of c] scan_exp_chars [of c]
  by (auto simp: scan_number_def Let_def case_prod_beta split: option.splits if_split_asm)

lemma number_char_newline: "\<not> number_char CHR 0x0A" "\<not> number_char CHR 0x0D"
  by (simp_all add: number_char_def is_digit_def less_eq_char_def)

lemma int_str_chars: "c \<in> set (int_str i) \<Longrightarrow> number_char c"
  using nat_str_digits [of c] by (auto simp: int_str_def number_char_def split: if_split_asm)

lemma join_avoids: "c \<notin> set sep \<Longrightarrow> (\<And>x. x \<in> set xs \<Longrightarrow> c \<notin> set x) \<Longrightarrow> c \<notin> set (join sep xs)"
  by (induction sep xs rule: join.induct) auto

locale json_escaping =
  fixes esc :: "char \<Rightarrow> string"
  assumes scan_esc: "scan_string (esc c @ r) = map_option (apfst ((#) c)) (scan_string r)"
    and esc_no_newline: "CHR 0x0A \<notin> set (esc c)" "CHR 0x0D \<notin> set (esc c)"
begin

lemma scan_quoted: "scan_string (concat (map esc s) @ [CHR 0x22] @ r) = Some (s, r)"
  by (induction s) (simp_all add: scan_esc)

lemma dumps_first:
  assumes "json_ok j"
  shows "dumps_with esc j \<noteq> [] \<and> \<not> json_ws (hd (dumps_with esc j)) \<and> hd (dumps_with esc j) \<noteq> CHR '']''"
proof (cases j)
  case (JInt i)
  then show ?thesis using scan_number_int [of i] scan_number_first [of "int_str i"] number_first_char [of "int_str i"] by simp
next
  case (JFloat t)
  then show ?thesis using assms scan_number_first [of t] number_first_char [of t] by simp
qed (auto simp: json_ws_def)

lemma skip_dumps: "json_ok j \<Longrightarrow> skip_ws (dumps_with esc j @ r) = dumps_with esc j @ r"
  using dumps_first [of j] by (cases "dumps_with esc j") auto

abbreviation quoted :: "string \<Rightarrow> string" where
  "quoted k \<equiv> [CHR 0x22] @ concat (map esc k) @ [CHR 0x22]"

lemma quoted_one_line: "b = CHR 0x0A \<or> b = CHR 0x0D \<Longrightarrow> b \<notin> set (quoted k)"
  using esc_no_newline by auto

lemma parse_items_dumps:
  assumes "vs \<noteq> []" and "\<forall>v\<in>set vs. json_ok v"
    and "\<And>v m u. v \<in> set vs \<Longrightarrow> delimited u \<Longrightarrow> length (dumps_with esc v) \<le> m \<Longrightarrow>
      parse_value m (dumps_with esc v @ u) = Some (json_sorted v, u)"
    and "length (join '','' (map (dumps_with esc) vs)) < n"
  shows "parse_items n (join '','' (map (dumps_with esc) vs) @ '']'' @ r) = Some (map json_sorted vs, r)"
  using assms
proof (induction vs arbitrary: n)
  case (Cons v vs)
  then obtain m where n: "n = Suc m" by (cases n) auto
  have v: "parse_value m (dumps_with esc v @ u) = Some (json_sorted v, u)" if "delimited u" for u
    using Cons.prems(3) [of v u m] Cons.prems(4) that n by (cases vs) auto
  show ?case
  proof (cases vs)
    case Nil
    then show ?thesis using v [of "'']'' @ r"] n by (simp add: delimited_def json_ws_def)
  next
    case (Cons w ws)
    let ?rest = "join '','' (map (dumps_with esc) vs) @ '']'' @ r"
    have "dumps_with esc v \<noteq> []" using Cons.prems(2) dumps_first by simp
    then have "length (join '','' (map (dumps_with esc) vs)) < m"
      using Cons.prems(4) n Cons by (cases "dumps_with esc v") auto
    then have rest: "parse_items m ?rest = Some (map json_sorted vs, r)"
      using Cons.IH [of m] Cons.prems(2,3) Cons by simp
    have "skip_ws ?rest = ?rest"
      using skip_dumps [of w] Cons.prems(2) Cons by (cases ws) simp_all
    then show ?thesis using v [of "'','' @ ?rest"] n rest Cons by (simp add: delimited_def json_ws_def)
  qed
qed simp

lemma parse_members_dumps:
  assumes "kvs \<noteq> []" and "\<forall>(k, v)\<in>set kvs. json_ok v"
    and "\<And>k v m u. (k, v) \<in> set kvs \<Longrightarrow> delimited u \<Longrightarrow> length (dumps_with esc v) \<le> m \<Longrightarrow>
      parse_value m (dumps_with esc v @ u) = Some (json_sorted v, u)"
    and "length (join '','' (map (\<lambda>(k, v). quoted k @ '':'' @ dumps_with esc v) kvs)) < n"
  shows "parse_members n (join '','' (map (\<lambda>(k, v). quoted k @ '':'' @ dumps_with esc v) kvs) @ ''}'' @ r) =
    Some (map (\<lambda>(k, v). (k, json_sorted v)) kvs, r)"
  using assms
proof (induction kvs arbitrary: n)
  case (Cons kv kvs)
  obtain k v where kv: "kv = (k, v)" by (cases kv)
  obtain m where n: "n = Suc m" using Cons.prems(4) by (cases n) auto
  let ?f = "\<lambda>(k, v). quoted k @ '':'' @ dumps_with esc v"
  have ok: "json_ok v" using Cons.prems(2) kv by simp
  have len: "length (dumps_with esc v) \<le> m"
    using Cons.prems(4) kv n by (cases kvs) auto
  have v: "parse_value m (dumps_with esc v @ u) = Some (json_sorted v, u)" if "delimited u" for u
    using Cons.prems(3) [of k v u m] len that kv by simp
  have key: "scan_string (concat (map esc k) @ CHR 0x22 # u) = Some (k, u)" for u
    using scan_quoted [of k u] by simp
  show ?case
  proof (cases kvs)
    case Nil
    then show ?thesis using v [of "''}'' @ r"] n kv ok by (simp add: delimited_def json_ws_def key skip_dumps)
  next
    case (Cons w ws)
    let ?rest = "join '','' (map ?f kvs) @ ''}'' @ r"
    have "length (join '','' (map ?f kvs)) < m"
      using Cons.prems(4) n Cons kv by auto
    then have rest: "parse_members m ?rest = Some (map (\<lambda>(k, v). (k, json_sorted v)) kvs, r)"
      using Cons.IH [of m] Cons.prems(2,3) Cons kv by fastforce
    have "skip_ws ?rest = ?rest"
      using Cons by (cases w; cases ws) (simp_all add: json_ws_def)
    then show ?thesis using v [of "'','' @ ?rest"] n rest Cons kv ok
      by (simp add: delimited_def json_ws_def key skip_dumps)
  qed
qed simp

lemma dumps_obj:
  "dumps_with esc (JObj kvs) =
     ''{'' @ join '','' (map (\<lambda>(k, v). quoted k @ '':'' @ dumps_with esc v) (sort_key fst kvs)) @ ''}''"
proof -
  have "(\<lambda>(k, t). quoted k @ '':'' @ t) \<circ> (\<lambda>(k, v). (k, dumps_with esc v)) =
      (\<lambda>(k, v). quoted k @ '':'' @ dumps_with esc v)" by auto
  then show ?thesis unfolding dumps_with.simps sort_key_pairs map_map by simp
qed

theorem parse_dumps:
  "json_ok j \<Longrightarrow> delimited r \<Longrightarrow> length (dumps_with esc j) \<le> n \<Longrightarrow>
     parse_value n (dumps_with esc j @ r) = Some (json_sorted j, r)"
proof (induction j arbitrary: n r)
  case JNull
  then obtain m where "n = Suc m" by (cases n) auto
  then show ?case by (simp add: scan_literal_def literals_def)
next
  case (JBool b)
  then obtain m where "n = Suc m" by (cases n) (auto split: if_splits)
  then show ?case by (simp add: scan_literal_def literals_def)
next
  case (JInt i)
  then obtain m where n: "n = Suc m"
    using scan_number_int [of i] scan_number_first [of "int_str i"] by (cases n) auto
  show ?case
    using parse_number [OF scan_number_append [OF scan_number_int JInt(2)]] n by simp
next
  case (JFloat t)
  then obtain m where n: "n = Suc m" using scan_number_first [of t] by (cases n) auto
  have "scan_number t = Some (JFloat t, [])" using JFloat by simp
  from parse_number [OF scan_number_append [OF this JFloat(2)]] show ?case using n by simp
next
  case (JStr s)
  then obtain m where n: "n = Suc m" by (cases n) auto
  show ?case using scan_quoted [of s r] n by simp
next
  case (JList vs)
  then obtain m where n: "n = Suc m" by (cases n) auto
  show ?case
  proof (cases "vs = []")
    case False
    let ?text = "join '','' (map (dumps_with esc) vs)"
    have ok: "\<forall>v\<in>set vs. json_ok v" using JList.prems(1) by (simp add: list_all_iff)
    have items: "parse_items m (?text @ '']'' @ r) = Some (map json_sorted vs, r)"
      by (rule parse_items_dumps [OF False ok]) (use JList ok n in simp_all)
    obtain v vs' where vs: "vs = v # vs'" using False by (cases vs) auto
    then have f: "dumps_with esc v \<noteq> []" "\<not> json_ws (hd (dumps_with esc v))" "hd (dumps_with esc v) \<noteq> CHR '']''"
      using ok dumps_first [of v] by simp_all
    then obtain c cs where t: "?text = c # cs" "\<not> json_ws c" "c \<noteq> CHR '']''"
      by (cases vs'; cases "dumps_with esc v") (auto simp: vs)
    then show ?thesis using items n by simp
  qed (use n in \<open>simp add: json_ws_def\<close>)
next
  case (JObj kvs)
  then obtain m where n: "n = Suc m" by (cases n) auto
  show ?case
  proof (cases "kvs = []")
    case False
    let ?kvs = "sort_key fst kvs"
    let ?text = "join '','' (map (\<lambda>(k, v). quoted k @ '':'' @ dumps_with esc v) ?kvs)"
    have ne: "?kvs \<noteq> []" using False by (metis set_empty set_sort)
    have ok: "\<forall>(k, v)\<in>set ?kvs. json_ok v" using JObj.prems(1) by (simp add: list_all_iff)
    have "parse_value l (dumps_with esc v @ u) = Some (json_sorted v, u)"
      if "(k, v) \<in> set ?kvs" "delimited u" "length (dumps_with esc v) \<le> l" for k v l u
      using JObj.IH [of "(k, v)" v u l] that ok by (auto intro: snds.intros)
    then have members: "parse_members m (?text @ ''}'' @ r) = Some (map (\<lambda>(k, v). (k, json_sorted v)) ?kvs, r)"
      by (rule parse_members_dumps [OF ne ok]) (use JObj.prems(3) n in \<open>simp_all add: dumps_obj del: dumps_with.simps\<close>)
    have "distinct (map fst ?kvs)" using JObj.prems(1) by (simp add: distinct_map)
    then have "distinct (map fst (map (\<lambda>(k, v). (k, json_sorted v)) ?kvs))" by (simp add: comp_def case_prod_beta)
    from dict_of_distinct [OF this] have d: "JObj (dict_of (map (\<lambda>(k, v). (k, json_sorted v)) ?kvs)) = json_sorted (JObj kvs)"
      by (simp only: json_sorted.simps sort_key_pairs)
    obtain cs where "?text = CHR 0x22 # cs"
      using ne by (cases ?kvs; cases "hd ?kvs"; cases "tl ?kvs") auto
    then have "parse_value n (''{'' @ ?text @ ''}'' @ r) = Some (json_sorted (JObj kvs), r)"
      using members d n by (simp add: json_ws_def del: json_sorted.simps)
    then show ?thesis by (simp add: dumps_obj del: json_sorted.simps dumps_with.simps)
  qed (use n in \<open>simp add: json_ws_def\<close>)
qed

lemma dumps_one_line:
  assumes "b = CHR 0x0A \<or> b = CHR 0x0D"
  shows "json_ok j \<Longrightarrow> b \<notin> set (dumps_with esc j)"
proof (induction j)
  case (JInt i)
  then show ?case using int_str_chars [of b i] number_char_newline assms by (metis dumps_with.simps(3))
next
  case (JFloat t)
  then show ?case
    using scan_number_chars [of t t "[]" b] number_char_newline assms by (metis dumps_with.simps(4) json_ok.simps(1))
next
  case (JStr s)
  then show ?case using quoted_one_line [OF assms, of s] by simp
next
  case (JList vs)
  have "b \<notin> set (join '','' (map (dumps_with esc) vs))"
    by (rule join_avoids) (use JList assms in \<open>auto simp: list_all_iff\<close>)
  then show ?case using assms by auto
next
  case (JObj kvs)
  have "b \<notin> set (dumps_with esc v)" if "(k, v) \<in> set kvs" for k v
    using JObj.IH [of "(k, v)" v] JObj.prems that by (auto simp: list_all_iff)
  then have "b \<notin> set (join '','' (map (\<lambda>(k, v). quoted k @ '':'' @ dumps_with esc v) (sort_key fst kvs)))"
    using assms quoted_one_line [OF assms] by (intro join_avoids) auto
  then show ?case unfolding dumps_obj using assms by auto
qed (use assms in auto)

lemma loads_dumps: "json_ok j \<Longrightarrow> loads_text (dumps_with esc j) = Some (json_sorted j)"
  using parse_dumps [of j "[]" "length (dumps_with esc j)"] skip_dumps [of j "[]"]
  by (simp add: loads_text_def delimited_def)

end

lemma char_of_controls:
  "char_of (34 :: nat) = CHR 0x22" "char_of (92 :: nat) = CHR 0x5C" "char_of (10 :: nat) = CHR 0x0A"
  "char_of (13 :: nat) = CHR 0x0D" "char_of (9 :: nat) = CHR 0x09" "char_of (8 :: nat) = CHR 0x08"
  "char_of (12 :: nat) = CHR 0x0C"
  by code_simp+

lemma hex_value_0: "hex_value CHR ''0'' = Some 0"
  by code_simp

lemma hex_escape:
  assumes "(of_char c :: nat) = n"
  shows "scan_string ([CHR 0x5C, CHR ''u'', CHR ''0'', CHR ''0'', hex_digit (n div 16), hex_digit (n mod 16)] @ r) =
    map_option (apfst ((#) c)) (scan_string r)"
proof -
  have n: "n < 256" using assms nat_of_char_less_256 by metis
  have "hex_fold 0 [CHR ''0'', CHR ''0'', hex_digit (n div 16), hex_digit (n mod 16)] = Some n"
    using n by (simp add: hex_value_0)
  then show ?thesis using n assms by (auto simp del: hex_fold.simps)
qed

lemma plain_char:
  assumes "32 \<le> (of_char c :: nat)" and "of_char c \<noteq> (34 :: nat)" and "of_char c \<noteq> (92 :: nat)"
  shows "scan_string (c # r) = map_option (apfst ((#) c)) (scan_string r)"
proof -
  have "c \<noteq> CHR 0x22" "c \<noteq> CHR 0x5C" using assms(2,3) by auto
  then show ?thesis using assms(1) by simp
qed

lemma hex_digit_no_newline: "hex_digit n \<noteq> CHR 0x0A" "hex_digit n \<noteq> CHR 0x0D"
proof -
  have "list_all (\<lambda>m. ''0123456789abcdef'' ! m \<notin> {CHR 0x0A, CHR 0x0D}) [0..<16]" by code_simp
  then show "hex_digit n \<noteq> CHR 0x0A" "hex_digit n \<noteq> CHR 0x0D" by (auto simp: hex_digit_def list_all_iff)
qed

lemma escape_cases:
  assumes "esc c = (let n = of_char c :: nat in
      if n = 34 then [CHR 0x5C, CHR 0x22]
      else if n = 92 then [CHR 0x5C, CHR 0x5C]
      else if n = 10 then [CHR 0x5C, CHR ''n'']
      else if n = 13 then [CHR 0x5C, CHR ''r'']
      else if n = 9 then [CHR 0x5C, CHR ''t'']
      else if n = 8 then [CHR 0x5C, CHR ''b'']
      else if n = 12 then [CHR 0x5C, CHR ''f'']
      else if P n then [c]
      else [CHR 0x5C, CHR ''u'', CHR ''0'', CHR ''0'', hex_digit (n div 16), hex_digit (n mod 16)])"
    and "\<And>n. P n \<Longrightarrow> 32 \<le> n"
  shows "scan_string (esc c @ r) = map_option (apfst ((#) c)) (scan_string r)"
    and "CHR 0x0A \<notin> set (esc c)" and "CHR 0x0D \<notin> set (esc c)"
proof -
  let ?n = "of_char c :: nat"
  consider "?n \<in> {34, 92, 10, 13, 9, 8, 12}" | "?n \<notin> {34, 92, 10, 13, 9, 8, 12}" "P ?n"
    | "?n \<notin> {34, 92, 10, 13, 9, 8, 12}" "\<not> P ?n" by blast
  then have "scan_string (esc c @ r) = map_option (apfst ((#) c)) (scan_string r) \<and>
      CHR 0x0A \<notin> set (esc c) \<and> CHR 0x0D \<notin> set (esc c)"
  proof cases
    case 1
    then have "char_of ?n \<in> {CHR 0x22, CHR 0x5C, CHR 0x0A, CHR 0x0D, CHR 0x09, CHR 0x08, CHR 0x0C}"
      by (elim insertE) (simp_all only: char_of_controls insert_iff simp_thms empty_iff)
    then have "c \<in> {CHR 0x22, CHR 0x5C, CHR 0x0A, CHR 0x0D, CHR 0x09, CHR 0x08, CHR 0x0C}"
      by (simp only: char_of_char)
    then show ?thesis unfolding assms(1) Let_def by (elim insertE) simp_all
  next
    case 2
    then have "esc c = [c]" by (simp add: assms(1) Let_def)
    moreover have "c \<noteq> CHR 0x0A" "c \<noteq> CHR 0x0D" using 2(1) by auto
    ultimately show ?thesis using plain_char [of c r] assms(2) [OF 2(2)] 2(1) by simp
  next
    case 3
    then have "esc c = [CHR 0x5C, CHR ''u'', CHR ''0'', CHR ''0'', hex_digit (?n div 16), hex_digit (?n mod 16)]"
      by (simp add: assms(1) Let_def)
    then show ?thesis using hex_escape [OF refl, of c r]
      by (simp add: hex_digit_no_newline hex_digit_no_newline [symmetric] del: scan_string.simps)
  qed
  then show "scan_string (esc c @ r) = map_option (apfst ((#) c)) (scan_string r)"
    "CHR 0x0A \<notin> set (esc c)" "CHR 0x0D \<notin> set (esc c)" by blast+
qed

interpretation ascii: json_escaping json_escape
  by unfold_locales (rule escape_cases [where P = "\<lambda>n. 32 \<le> n \<and> n \<le> 126"], simp add: json_escape_def, simp)+

interpretation utf8: json_escaping utf8_escape
  by unfold_locales (rule escape_cases [where P = "\<lambda>n. 32 \<le> n"], simp add: utf8_escape_def, simp)+

subsection \<open>Bytes\<close>

lemma utf8_decode_encode [simp]: "utf8_decode (utf8_encode s) = Some s"
proof (induction s)
  case (Cons c s)
  have e: "utf8_encode (c # s) = (if (of_char c :: nat) < 128 then [c]
      else [char_of (192 + of_char c div 64 :: nat), char_of (128 + of_char c mod 64 :: nat)]) @ utf8_encode s"
    by (simp add: utf8_encode_def Let_def)
  show ?case
  proof (cases "(of_char c :: nat) < 128")
    case True
    then show ?thesis by (simp add: e Cons.IH)
  next
    case False
    let ?n = "of_char c :: nat"
    have n: "?n < 256" by (rule nat_of_char_less_256)
    then have "2 \<le> ?n div 64" "?n div 64 < 4" using False by (simp_all add: less_eq_div_iff_mult_less_eq div_less_iff_less_mult)
    then have q: "?n div 64 \<in> {2, 3}" by auto
    then have "(of_char (char_of (192 + ?n div 64)) :: nat) = 192 + ?n div 64"
      "(of_char (char_of (128 + ?n mod 64)) :: nat) = 128 + ?n mod 64" by auto
    moreover have "?n div 64 * 64 + ?n mod 64 = ?n" by simp
    ultimately show ?thesis using False q by (auto simp: e Cons.IH)
  qed
qed (simp add: utf8_encode_def)

lemma utf8_newline:
  assumes "(of_char b :: nat) < 128" and "b \<in> set (utf8_encode s)"
  shows "b \<in> set s"
proof -
  have "b \<noteq> char_of (192 + of_char c div 64 :: nat)" for c
  proof
    assume b: "b = char_of (192 + of_char c div 64 :: nat)"
    have "of_char c div 64 < (4 :: nat)"
      using nat_of_char_less_256 [of c] by (simp add: div_less_iff_less_mult del: nat_of_char_less_256)
    then have "(of_char b :: nat) = 192 + of_char c div 64" by (simp add: b)
    then show False using assms(1) by simp
  qed
  moreover have "b \<noteq> char_of (128 + of_char c mod 64 :: nat)" for c
    using assms(1) by auto
  ultimately show ?thesis
    using assms(2) by (auto simp: utf8_encode_def Let_def split: if_splits)
qed

lemma json_loads_dumps: "json_ok j \<Longrightarrow> json_loads (json_dumps_utf8 j) = Some (json_sorted j)"
  by (simp add: json_loads_def json_dumps_utf8_def utf8.loads_dumps)

subsection \<open>Reading fields of a parsed value\<close>

lemma map_of_sort_key:
  assumes "distinct (map fst kvs)"
  shows "map_of (sort_key fst kvs) = map_of kvs"
proof -
  have "distinct (map fst (sort_key fst kvs))"
    using assms by (metis mset_eq_imp_distinct_iff mset_map mset_sort)
  then show ?thesis using assms by (simp add: map_of_inject_set)
qed

lemma map_of_map_values: "map_of (map (\<lambda>(k, v). (k, f v)) kvs) k = map_option f (map_of kvs k)"
  by (induction kvs) auto

lemma json_get_sorted:
  assumes "json_ok j"
  shows "json_get k (json_sorted j) = map_option json_sorted (json_get k j)"
proof (cases j)
  case (JObj kvs)
  have "distinct (map fst (map (\<lambda>(k, v). (k, json_sorted v)) kvs))"
    using assms JObj by (simp add: comp_def case_prod_beta)
  then show ?thesis by (simp add: JObj map_of_sort_key map_of_map_values)
qed simp_all

lemma json_ok_get: "json_ok j \<Longrightarrow> json_get k j = Some v \<Longrightarrow> json_ok v"
  by (cases j) (auto simp: list_all_iff dest!: map_of_SomeD)

lemma json_sorted_atoms [simp]:
  "json_sorted j = JNull \<longleftrightarrow> j = JNull" "json_sorted j = JInt n \<longleftrightarrow> j = JInt n" "json_sorted j = JStr s \<longleftrightarrow> j = JStr s"
  "json_sorted j = JBool b \<longleftrightarrow> j = JBool b"
  by (cases j; auto)+

lemma json_ok_sorted: "json_ok j \<Longrightarrow> json_ok (json_sorted j)"
proof (induction j)
  case (JObj kvs)
  have "distinct (map fst (map (\<lambda>(k, v). (k, json_sorted v)) kvs))" using JObj.prems by (simp add: comp_def case_prod_beta)
  then have "distinct (map fst (sort_key fst (map (\<lambda>(k, v). (k, json_sorted v)) kvs)))"
    by (metis mset_eq_imp_distinct_iff mset_map mset_sort)
  moreover have "json_ok (json_sorted v)" if "(k, v) \<in> set kvs" for k v
    using JObj.IH [of "(k, v)" v] JObj.prems that by (auto simp: list_all_iff)
  ultimately show ?case by (auto simp: list_all_iff)
qed (auto simp: list_all_iff)

lemma sort_key_twice: "sort_key f (sort_key f xs) = sort_key f xs"
  by (rule sort_key_id_if_sorted) simp

lemma json_sorted_idem: "json_ok j \<Longrightarrow> json_sorted (json_sorted j) = json_sorted j"
proof (induction j)
  case (JObj kvs)
  have "json_sorted (json_sorted v) = json_sorted v" if "(k, v) \<in> set kvs" for k v
    using JObj.IH [of "(k, v)" v] JObj.prems that by (auto simp: list_all_iff)
  then have twice: "map (\<lambda>(k, v). (k, json_sorted v)) (map (\<lambda>(k, v). (k, json_sorted v)) (sort_key fst kvs)) =
      map (\<lambda>(k, v). (k, json_sorted v)) (sort_key fst kvs)" by auto
  have once: "json_sorted (JObj kvs) = JObj (map (\<lambda>(k, v). (k, json_sorted v)) (sort_key fst kvs))"
    by (simp only: json_sorted.simps sort_key_pairs)
  have "json_sorted (JObj (map (\<lambda>(k, v). (k, json_sorted v)) (sort_key fst kvs))) =
      JObj (sort_key fst (map (\<lambda>(k, v). (k, json_sorted v)) (sort_key fst kvs)))"
    by (simp only: json_sorted.simps twice)
  also have "\<dots> = JObj (map (\<lambda>(k, v). (k, json_sorted v)) (sort_key fst kvs))"
    by (simp only: sort_key_pairs sort_key_twice)
  finally show ?case by (simp only: once)
qed (auto simp: list_all_iff)

end
