(* ===== verification/Source_Store.thy ===== *)
theory Source_Store
  imports Domain_Enums Json_Parser "HOL-Library.Sublist"
begin

text \<open>
  \<open>infrastructure/result_storage/paths.py\<close> and \<open>sources.py\<close>: where a Step's source and
  its results live below the shared storage root, which references are accepted, and the
  immutable source snapshots. A relative path is the list of its segments and the storage is
  the association list of its files. Symbolic links below the root are not modelled, so
  \<open>resolve\<close> keeps a path as it is.

  The lemmas show that the paths the service builds are accepted, that different Steps,
  attempts and fencing tokens never share one, and that a snapshot is written once.
\<close>

subsection \<open>Paths\<close>

type_synonym path = "string list"
type_synonym files = "(path \<times> string) list"

definition is_alnum :: "char \<Rightarrow> bool" where
  "is_alnum c \<longleftrightarrow>
     (CHR ''A'' \<le> c \<and> c \<le> CHR ''Z'') \<or> (CHR ''a'' \<le> c \<and> c \<le> CHR ''z'') \<or>
     (CHR ''0'' \<le> c \<and> c \<le> CHR ''9'')"

text \<open>\<open>SAFE_SEGMENT.fullmatch\<close>.\<close>

definition safe_segment :: "string \<Rightarrow> bool" where
  "safe_segment s \<longleftrightarrow>
     s \<noteq> [] \<and> is_alnum (hd s) \<and> length (tl s) \<le> 254 \<and>
     list_all (\<lambda>c. is_alnum c \<or> c = CHR ''.'' \<or> c = CHR ''_'' \<or> c = CHR ''-'') (tl s)"

definition RESULT_DIRECTORY :: path where
  "RESULT_DIRECTORY = [''executor'', ''executions'']"

record step_result_identity =
  ri_execution_id :: uuid
  ri_operation_id :: uuid
  ri_step_id :: uuid
  ri_sequence :: int
  ri_execution_attempt_id :: uuid
  ri_fencing_token :: int

record execution_source_reference =
  sf_relative_path :: string
  sf_checksum_sha256 :: string
  sf_size_bytes :: int

record step_result_reference =
  sy_relative_path :: string
  sy_checksum_sha256 :: string
  sy_size_bytes :: int
  sy_execution_attempt_id :: uuid
  sy_fencing_token :: int

record step_result_descriptor =
  rd_state :: string
  rd_complete :: bool
  rd_reference :: step_result_reference
  rd_source :: execution_source_reference
  rd_output_count :: int
  rd_representation_count :: int
  rd_total_size_bytes :: int
  rd_output_summary :: json
  rd_execution_count :: "int option"
  rd_error_message :: "string option"

definition source_relative :: "uuid \<Rightarrow> uuid \<Rightarrow> path" where
  "source_relative execution_id step_id =
     RESULT_DIRECTORY @ [uuid_str execution_id, ''sources'', uuid_str step_id, ''source.py'']"

definition result_relative :: "step_result_identity \<Rightarrow> path" where
  "result_relative identity =
     RESULT_DIRECTORY @
       [uuid_str (ri_execution_id identity), ''operations'', uuid_str (ri_operation_id identity),
        ''steps'', uuid_str (ri_step_id identity), ''attempts'',
        uuid_str (ri_execution_attempt_id identity), int_str (ri_fencing_token identity)]"

text \<open>\<open>relative.with_name(f"{relative.name}.partial")\<close>.\<close>

definition partial_relative :: "step_result_identity \<Rightarrow> path" where
  "partial_relative identity =
     (let relative = result_relative identity in butlast relative @ [last relative @ ''.partial''])"

text \<open>
  \<open>Path(raw)\<close>: empty segments and single dots disappear; a leading slash makes it absolute.
\<close>

fun split_slash :: "string \<Rightarrow> string list" where
  "split_slash [] = [[]]"
| "split_slash (c # cs) =
     (if c = CHR ''/'' then [] # split_slash cs
      else (case split_slash cs of [] \<Rightarrow> [[c]] | p # ps \<Rightarrow> (c # p) # ps))"

definition path_is_absolute :: "string \<Rightarrow> bool" where
  "path_is_absolute raw \<longleftrightarrow> raw \<noteq> [] \<and> hd raw = CHR ''/''"

definition path_parts :: "string \<Rightarrow> path" where
  "path_parts raw = filter (\<lambda>p. p \<noteq> [] \<and> p \<noteq> ''.'') (split_slash raw)"

definition as_posix :: "path \<Rightarrow> string" where
  "as_posix p = join ''/'' p"

definition path_exists :: "files \<Rightarrow> path \<Rightarrow> bool" where
  "path_exists fs p \<longleftrightarrow> list_ex (\<lambda>(q, _). prefix p q) fs"

definition resolve_relative :: "files \<Rightarrow> bool \<Rightarrow> path \<Rightarrow> domain_error + path" where
  "resolve_relative fs must_exist relative =
     (if relative = [] then Inl ResultStorageError
      else if \<not> prefix RESULT_DIRECTORY relative then Inl ResultStorageError
      else if list_ex (\<lambda>part. part \<in> {'''', ''.'', ''..''} \<or> \<not> safe_segment part) relative
        then Inl ResultStorageError
      else if must_exist \<and> \<not> path_exists fs relative then Inl StorageFileNotFoundError
      else Inr relative)"

definition resolve_reference :: "files \<Rightarrow> string \<Rightarrow> domain_error + path" where
  "resolve_reference fs raw =
     (if path_is_absolute raw then Inl ResultStorageError
      else resolve_relative fs True (path_parts raw))"

subsection \<open>Source snapshots\<close>

definition snapshot_source ::
    "(string \<Rightarrow> string) \<Rightarrow> files \<Rightarrow> uuid \<Rightarrow> uuid \<Rightarrow> string \<Rightarrow>
       domain_error + (files \<times> execution_source_reference)" where
  "snapshot_source sha256 fs execution_id step_id content =
     (if strip content = [] then Inl ResultStorageError
      else
        (let body = utf8_encode content;
             relative = source_relative execution_id step_id;
             ref = \<lparr>sf_relative_path = as_posix relative,
                    sf_checksum_sha256 = sha256 body,
                    sf_size_bytes = int (length body)\<rparr>
         in bind_res (resolve_relative fs False relative) (\<lambda>path.
              case map_of fs path of
                Some existing \<Rightarrow>
                  if existing \<noteq> body then Inl ResultStorageError else Inr (fs, ref)
              | None \<Rightarrow> Inr ((path, body) # fs, ref))))"

definition read_source :: "(string \<Rightarrow> string) \<Rightarrow> files \<Rightarrow> execution_source_reference \<Rightarrow> domain_error + string" where
  "read_source sha256 fs ref =
     bind_res (resolve_reference fs (sf_relative_path ref)) (\<lambda>path.
     case map_of fs path of
       None \<Rightarrow> Inl StorageFileNotFoundError
     | Some body \<Rightarrow>
         if int (length body) \<noteq> sf_size_bytes ref \<or> sha256 body \<noteq> sf_checksum_sha256 ref then Inl ResultStorageError
         else (case utf8_decode body of None \<Rightarrow> Inl ResultStorageError | Some content \<Rightarrow> Inr content))"

subsection \<open>The paths the service builds\<close>

lemma alnum_table: "list_all (\<lambda>m. is_alnum (''0123456789abcdef'' ! m)) [0..<16]"
  by code_simp

lemma is_alnum_hex_digit [simp]: "is_alnum (hex_digit n)"
  using alnum_table by (simp add: hex_digit_def list_all_iff)

lemma hex_digits_alnum: "c \<in> set (hex_digits k n) \<Longrightarrow> is_alnum c"
  by (induction k arbitrary: n) auto

lemma set_dash_groups: "set (dash_groups ns h) \<subseteq> insert (CHR ''-'') (set h)"
proof (induction ns arbitrary: h)
  case (Cons n ns)
  show ?case using Cons [of "drop n h"] set_take_subset [of n h] set_drop_subset [of n h] by auto
qed auto

lemma length_dash_groups: "length (dash_groups ns h) = length h + length ns"
  by (induction ns arbitrary: h) (simp_all add: min_def)

lemma length_uuid_str: "length (uuid_str u) = 36"
  by (simp only: uuid_str_def length_dash_groups) simp

lemma uuid_str_hd: "uuid_str u \<noteq> [] \<and> is_alnum (hd (uuid_str u))"
proof -
  have "hex_digits 32 u \<noteq> []" by (metis length_hex_digits list.size(3) zero_neq_numeral)
  then obtain c cs where h: "hex_digits 32 u = c # cs" by (cases "hex_digits 32 u") auto
  then have "is_alnum c" using hex_digits_alnum [of c 32 u] by simp
  then show ?thesis by (simp add: uuid_str_def h)
qed

lemma safe_segment_uuid [simp]: "safe_segment (uuid_str u)"
proof -
  have "is_alnum c \<or> c = CHR ''-''" if "c \<in> set (uuid_str u)" for c
    using that set_dash_groups [of "[8, 4, 4, 4]" "hex_digits 32 u"] hex_digits_alnum [of c 32 u]
    unfolding uuid_str_def by blast
  then show ?thesis
    using uuid_str_hd [of u] length_uuid_str [of u]
    by (auto simp: safe_segment_def list_all_iff dest: list.set_sel(2))
qed

lemma nat_str_alnum: "c \<in> set (nat_str n) \<Longrightarrow> is_alnum c"
  by (induction n rule: nat_str.induct) (subst (asm) (2) nat_str.simps, auto split: if_splits)

lemma nat_str_not_Nil [simp]: "nat_str n \<noteq> []"
  by (subst nat_str.simps) auto

lemma length_nat_str: "n < 10 ^ k \<Longrightarrow> 0 < k \<Longrightarrow> length (nat_str n) \<le> k"
proof (induction n arbitrary: k rule: nat_str.induct)
  case (1 n)
  show ?case
  proof (cases "n < 10")
    case True
    then show ?thesis using "1.prems"(2) by (subst nat_str.simps) simp
  next
    case False
    obtain j where k: "k = Suc j" using "1.prems"(2) by (cases k) auto
    have "n div 10 < 10 ^ j" using "1.prems"(1) k by auto
    moreover have "0 < j" using False "1.prems"(1) k by (cases j) auto
    ultimately have "length (nat_str (n div 10)) \<le> j" using "1.IH" False by blast
    then show ?thesis using False k by (subst nat_str.simps) simp
  qed
qed

definition dec_value :: "string \<Rightarrow> nat" where
  "dec_value s = foldl (\<lambda>acc c. 10 * acc + the (hex_value c)) 0 s"

lemma dec_value_nat_str: "dec_value (nat_str n) = n"
proof (induction n rule: nat_str.induct)
  case (1 n)
  then show ?case
    by (cases "n < 10"; subst nat_str.simps) (simp_all add: dec_value_def)
qed

lemma nat_str_inject [simp]: "nat_str m = nat_str n \<longleftrightarrow> m = n"
  by (metis dec_value_nat_str)

lemma int_str_inject: "0 \<le> i \<Longrightarrow> 0 \<le> j \<Longrightarrow> int_str i = int_str j \<Longrightarrow> i = j"
  by (simp add: int_str_def)

lemma safe_segment_int:
  assumes "0 \<le> i" and "i < 10 ^ 255"
  shows "safe_segment (int_str i)"
proof -
  have "nat i < 10 ^ 255" using assms by (simp add: nat_less_iff)
  then have "length (nat_str (nat i)) \<le> 255" by (rule length_nat_str) simp
  then show ?thesis
    using assms(1) nat_str_alnum [of _ "nat i"] list.set_sel(2) [of "nat_str (nat i)"]
    by (auto simp: safe_segment_def int_str_def list_all_iff)
qed

lemma safe_segment_consts [simp]:
  "safe_segment ''executor''" "safe_segment ''executions''" "safe_segment ''sources''"
  "safe_segment ''source.py''" "safe_segment ''operations''" "safe_segment ''steps''"
  "safe_segment ''attempts''"
  by code_simp+

lemma not_safe_dots [simp]: "\<not> safe_segment []" "\<not> safe_segment ''.''" "\<not> safe_segment ''..''"
  by code_simp+

lemma resolve_relative_Inr_iff:
  "resolve_relative fs must_exist p = Inr q \<longleftrightarrow>
     q = p \<and> prefix RESULT_DIRECTORY p \<and> (\<forall>s\<in>set p. safe_segment s) \<and>
     (must_exist \<longrightarrow> path_exists fs p)"
proof -
  have "p = [] \<Longrightarrow> \<not> prefix RESULT_DIRECTORY p" by (simp add: RESULT_DIRECTORY_def)
  moreover have "list_ex (\<lambda>part. part \<in> {'''', ''.'', ''..''} \<or> \<not> safe_segment part) p \<longleftrightarrow>
      \<not> (\<forall>s\<in>set p. safe_segment s)"
    unfolding list_ex_iff using not_safe_dots by blast
  ultimately show ?thesis by (auto simp: resolve_relative_def)
qed

lemma resolve_source_relative [simp]:
  "resolve_relative fs False (source_relative e s) = Inr (source_relative e s)"
  by (simp add: resolve_relative_Inr_iff source_relative_def RESULT_DIRECTORY_def)

lemma resolve_result_relative:
  "0 \<le> ri_fencing_token i \<Longrightarrow> ri_fencing_token i < 10 ^ 255 \<Longrightarrow>
     resolve_relative fs False (result_relative i) = Inr (result_relative i)"
  by (simp add: resolve_relative_Inr_iff result_relative_def RESULT_DIRECTORY_def safe_segment_int)

lemma source_relative_inject:
  "e < 2 ^ 128 \<Longrightarrow> e' < 2 ^ 128 \<Longrightarrow> s < 2 ^ 128 \<Longrightarrow> s' < 2 ^ 128 \<Longrightarrow>
     source_relative e s = source_relative e' s' \<longleftrightarrow> e = e' \<and> s = s'"
  using uuid_str_inject [of e e'] uuid_str_inject [of s s'] by (auto simp: source_relative_def)

definition identity_ids :: "step_result_identity \<Rightarrow> uuid list" where
  "identity_ids i =
     [ri_execution_id i, ri_operation_id i, ri_step_id i, ri_execution_attempt_id i]"

lemma result_relative_inject:
  assumes "\<forall>u\<in>set (identity_ids i) \<union> set (identity_ids j). u < 2 ^ 128"
    and "0 \<le> ri_fencing_token i" and "0 \<le> ri_fencing_token j"
    and eq: "result_relative i = result_relative j"
  shows "identity_ids i = identity_ids j \<and> ri_fencing_token i = ri_fencing_token j"
proof -
  have "int_str (ri_fencing_token i) = int_str (ri_fencing_token j)"
    using eq by (simp add: result_relative_def)
  then have tok: "ri_fencing_token i = ri_fencing_token j" using assms(2,3) by (simp add: int_str_inject)
  have "identity_ids i = identity_ids j"
    using eq assms(1) by (simp add: result_relative_def identity_ids_def uuid_str_inject)
  with tok show ?thesis by simp
qed

text \<open>A directory still being written never has the name of a finished one.\<close>

lemma partial_not_result:
  assumes "0 \<le> ri_fencing_token i" and "0 \<le> ri_fencing_token j"
  shows "partial_relative i \<noteq> result_relative j"
proof
  assume "partial_relative i = result_relative j"
  then have "int_str (ri_fencing_token i) @ ''.partial'' = int_str (ri_fencing_token j)"
    by (simp add: partial_relative_def result_relative_def Let_def)
  then have "CHR ''.'' \<in> set (int_str (ri_fencing_token j))"
    by (metis Un_iff list.set_intros(1) set_append)
  then have "is_alnum CHR ''.''"
    using assms nat_str_alnum by (auto simp: int_str_def)
  then show False by (simp add: is_alnum_def less_eq_char_def)
qed

subsection \<open>References\<close>

lemma split_slash_no_slash: "CHR ''/'' \<notin> set p \<Longrightarrow> split_slash p = [p]"
  by (induction p) auto

lemma split_slash_cons:
  "CHR ''/'' \<notin> set p \<Longrightarrow> split_slash (p @ CHR ''/'' # r) = p # split_slash r"
  by (induction p) auto

lemma split_join:
  "ps \<noteq> [] \<Longrightarrow> \<forall>p\<in>set ps. CHR ''/'' \<notin> set p \<Longrightarrow> split_slash (join ''/'' ps) = ps"
proof (induction ps)
  case (Cons p ps)
  then show ?case by (cases ps) (simp_all add: split_slash_cons split_slash_no_slash)
qed simp

lemma safe_segment_no_slash: "safe_segment s \<Longrightarrow> CHR ''/'' \<notin> set s"
  by (cases s) (auto simp: safe_segment_def list_all_iff is_alnum_def less_eq_char_def)

text \<open>Writing a path down and reading the reference back gives the same path.\<close>

lemma path_parts_as_posix:
  assumes "p \<noteq> []" and "\<forall>s\<in>set p. safe_segment s"
  shows "path_parts (as_posix p) = p"
proof -
  have "split_slash (as_posix p) = p"
    using assms by (auto simp: as_posix_def intro!: split_join dest: safe_segment_no_slash)
  moreover have "filter (\<lambda>s. s \<noteq> [] \<and> s \<noteq> ''.'') p = p"
    using assms(2) by (auto simp: filter_id_conv)
  ultimately show ?thesis by (simp add: path_parts_def)
qed

lemma as_posix_relative:
  assumes "p \<noteq> []" and "\<forall>s\<in>set p. safe_segment s"
  shows "\<not> path_is_absolute (as_posix p)"
proof -
  obtain c cs ps where p: "p = (c # cs) # ps" and c: "is_alnum c"
    using assms by (cases p; cases "hd p") (auto simp: safe_segment_def)
  have "hd (as_posix p) = c" by (cases ps) (simp_all add: p as_posix_def)
  with c show ?thesis by (auto simp: path_is_absolute_def is_alnum_def less_eq_char_def)
qed

lemma resolve_reference_as_posix:
  assumes "resolve_relative fs True p = Inr p"
  shows "resolve_reference fs (as_posix p) = Inr p"
proof -
  have "p \<noteq> []" and "\<forall>s\<in>set p. safe_segment s"
    using assms by (auto simp: resolve_relative_Inr_iff RESULT_DIRECTORY_def)
  then show ?thesis using assms
    by (simp add: resolve_reference_def as_posix_relative path_parts_as_posix)
qed

lemma resolve_reference_confined:
  assumes "resolve_reference fs raw = Inr p"
  shows "prefix RESULT_DIRECTORY p \<and> ''..'' \<notin> set p \<and> path_exists fs p"
  using assms by (auto simp: resolve_reference_def resolve_relative_Inr_iff split: if_splits)

subsection \<open>Snapshots are written once and read back\<close>

lemma snapshot_source_Inr_iff:
  "snapshot_source sha fs e s content = Inr (fs', ref) \<longleftrightarrow>
     strip content \<noteq> [] \<and>
     ref = \<lparr>sf_relative_path = as_posix (source_relative e s),
            sf_checksum_sha256 = sha (utf8_encode content),
            sf_size_bytes = int (length (utf8_encode content))\<rparr> \<and>
     (case map_of fs (source_relative e s) of
        None \<Rightarrow> fs' = (source_relative e s, utf8_encode content) # fs
      | Some existing \<Rightarrow> existing = utf8_encode content \<and> fs' = fs)"
  by (auto simp: snapshot_source_def Let_def split: option.splits)

lemma snapshot_source_keeps:
  assumes "snapshot_source sha fs e s content = Inr (fs', ref)" and "map_of fs p = Some body"
  shows "map_of fs' p = Some body"
  using assms by (auto simp: snapshot_source_Inr_iff split: option.splits if_splits)

lemma snapshot_source_stored:
  assumes "snapshot_source sha fs e s content = Inr (fs', ref)"
  shows "map_of fs' (source_relative e s) = Some (utf8_encode content)"
    and "resolve_reference fs' (sf_relative_path ref) = Inr (source_relative e s)"
proof -
  show stored: "map_of fs' (source_relative e s) = Some (utf8_encode content)"
    using assms by (auto simp: snapshot_source_Inr_iff split: option.splits)
  have "path_exists fs' (source_relative e s)"
    using map_of_SomeD [OF stored] by (force simp: path_exists_def list_ex_iff)
  then have "resolve_relative fs' True (source_relative e s) = Inr (source_relative e s)"
    using resolve_source_relative [of fs' e s]
    by (simp add: resolve_relative_Inr_iff del: resolve_source_relative)
  then show "resolve_reference fs' (sf_relative_path ref) = Inr (source_relative e s)"
    using assms by (simp add: resolve_reference_as_posix snapshot_source_Inr_iff)
qed

lemma snapshot_source_again:
  assumes "snapshot_source sha fs e s content = Inr (fs', ref)"
  shows "snapshot_source sha fs' e s content' =
    (if strip content' \<noteq> [] \<and> utf8_encode content' = utf8_encode content
     then Inr (fs', ref) else Inl ResultStorageError)"
  using snapshot_source_stored(1) [OF assms] assms [unfolded snapshot_source_Inr_iff]
  by (auto simp: snapshot_source_def Let_def)

lemma read_source_snapshot:
  assumes "snapshot_source sha fs e s content = Inr (fs', ref)"
  shows "read_source sha fs' ref = Inr content"
  using snapshot_source_stored [OF assms] assms
  by (simp add: read_source_def snapshot_source_Inr_iff)

end
