(* ===== verification/Result_Codec.thy ===== *)
theory Result_Codec
  imports Source_Store
begin

text \<open>
  \<open>infrastructure/result_storage/codec.py\<close>: how one output of the kernel is stored below a Step
  result and how it is read back for the notebook. The metadata of an output is a JSON value, on which
  \<open>json_value\<close> (a print and a parse) is the identity. Errors are \<open>ResultStorageError\<close>, a missing file
  (\<open>StorageFileNotFoundError\<close>) and, as \<open>RuntimeValueError\<close>, the Python errors of other classes the
  code lets through (\<open>ValueError\<close>, \<open>KeyError\<close>, \<open>AttributeError\<close>).

  The lemmas show the Base64 round trip, that a stored output reads back as the notebook output of the
  record (\<open>notebook_output_stored\<close>), and that content that does not match its checksum is refused.
\<close>

subsection \<open>Text and bytes\<close>

text \<open>\<open>str.upper\<close> on the letters that can make an output kind, \<open>str.lower\<close> on code points below 256.\<close>

definition ascii_upper :: "char \<Rightarrow> char" where
  "ascii_upper c = (let n = of_char c :: nat in if 97 \<le> n \<and> n \<le> 122 then char_of (n - 32) else c)"

definition char_lower :: "char \<Rightarrow> char" where
  "char_lower c =
     (let n = of_char c :: nat in
      if 65 \<le> n \<and> n \<le> 90 \<or> 192 \<le> n \<and> n \<le> 222 \<and> n \<noteq> 215 then char_of (n + 32) else c)"

definition starts_with :: "string \<Rightarrow> string \<Rightarrow> bool" where
  "starts_with s p \<longleftrightarrow> take (length p) s = p"

definition ends_with :: "string \<Rightarrow> string \<Rightarrow> bool" where
  "ends_with s p \<longleftrightarrow> length p \<le> length s \<and> drop (length s - length p) s = p"

text \<open>\<open>f"{n:0wd}"\<close> of a non-negative number.\<close>

definition zero_padded :: "nat \<Rightarrow> nat \<Rightarrow> string" where
  "zero_padded w n = replicate (w - length (nat_str n)) CHR ''0'' @ nat_str n"

text \<open>\<open>splitlines\<close> with the line ends of \<open>str\<close> and of \<open>bytes\<close>; a carriage return takes a newline with it.\<close>

fun split_lines :: "(char \<Rightarrow> bool) \<Rightarrow> string \<Rightarrow> string \<Rightarrow> string list" where
  "split_lines eol cur [] = (if cur = [] then [] else [rev cur])"
| "split_lines eol cur (c # cs) =
     (if eol c then
        rev cur # (case cs of
                     d # ds \<Rightarrow> if c = CHR 0x0D \<and> d = CHR 0x0A then split_lines eol [] ds else split_lines eol [] cs
                   | [] \<Rightarrow> [])
      else split_lines eol (c # cur) cs)"

definition str_eol :: "char \<Rightarrow> bool" where
  "str_eol c \<longleftrightarrow> of_char c \<in> {10, 11, 12, 13, 28, 29, 30, 133 :: nat}"

definition bytes_eol :: "char \<Rightarrow> bool" where
  "bytes_eol c \<longleftrightarrow> c = CHR 0x0A \<or> c = CHR 0x0D"

definition b64_alphabet :: string where
  "b64_alphabet = ''ABCDEFGHIJKLMNOPQRSTUVWXYZabcdefghijklmnopqrstuvwxyz0123456789+/''"

definition b64_char :: "nat \<Rightarrow> char" where
  "b64_char n = b64_alphabet ! (n mod 64)"

definition b64_value :: "char \<Rightarrow> nat option" where
  "b64_value c =
     (let n = of_char c :: nat in
      if 65 \<le> n \<and> n \<le> 90 then Some (n - 65)
      else if 97 \<le> n \<and> n \<le> 122 then Some (n - 71)
      else if 48 \<le> n \<and> n \<le> 57 then Some (n + 4)
      else if n = 43 then Some 62
      else if n = 47 then Some 63
      else None)"

fun b64encode :: "string \<Rightarrow> string" where
  "b64encode [] = []"
| "b64encode [a] =
     (let n = of_char a * 65536 :: nat in [b64_char (n div 262144), b64_char (n div 4096), CHR ''='', CHR ''=''])"
| "b64encode [a, b] =
     (let n = of_char a * 65536 + of_char b * 256 :: nat in
      [b64_char (n div 262144), b64_char (n div 4096), b64_char (n div 64), CHR ''=''])"
| "b64encode (a # b # c # cs) =
     (let n = of_char a * 65536 + of_char b * 256 + of_char c :: nat in
      [b64_char (n div 262144), b64_char (n div 4096), b64_char (n div 64), b64_char n] @ b64encode cs)"

text \<open>\<open>base64.b64decode(content, validate=True)\<close>: only the alphabet, padding only at the end.\<close>

fun b64decode :: "string \<Rightarrow> string option" where
  "b64decode [] = Some []"
| "b64decode (a # b # c # d # cs) =
     (case (b64_value a, b64_value b) of
        (Some x, Some y) \<Rightarrow>
          if d = CHR ''='' \<and> c = CHR ''='' \<and> cs = []
          then Some [char_of ((x * 262144 + y * 4096) div 65536)]
          else
            (case b64_value c of
               None \<Rightarrow> None
             | Some z \<Rightarrow>
                 if d = CHR ''='' \<and> cs = []
                 then (let n = x * 262144 + y * 4096 + z * 64
                       in Some [char_of (n div 65536), char_of (n div 256)])
                 else
                   (case b64_value d of
                      None \<Rightarrow> None
                    | Some w \<Rightarrow>
                        (let n = x * 262144 + y * 4096 + z * 64 + w in
                         map_option ((@) [char_of (n div 65536), char_of (n div 256), char_of n]) (b64decode cs))))
      | _ \<Rightarrow> None)"
| "b64decode _ = None"

subsection \<open>Records and their descriptors\<close>

record runtime_output_representation =
  or_media_type :: string
  or_encoding :: string
  or_content :: string
  or_metadata :: json

record runtime_output_record =
  ro_kind :: string
  ro_representations :: "runtime_output_representation list"
  ro_stream_name :: "string option"
  ro_execution_count :: "int option"
  ro_metadata :: json

definition OUTPUT_KIND_NAMES :: "(string \<times> string) list" where
  "OUTPUT_KIND_NAMES =
     [(''STREAM'', ''stream''), (''DISPLAY'', ''display_data''), (''RESULT'', ''execute_result''), (''ERROR'', ''error'')]"

definition MEDIA_EXTENSIONS :: "(string \<times> string) list" where
  "MEDIA_EXTENSIONS =
     [(''application/json'', ''.json''), (''application/javascript'', ''.js''), (''application/pdf'', ''.pdf''),
      (''application/xml'', ''.xml''), (''image/bmp'', ''.bmp''), (''image/gif'', ''.gif''), (''image/jpeg'', ''.jpg''),
      (''image/png'', ''.png''), (''image/svg+xml'', ''.svg''), (''image/tiff'', ''.tiff''), (''image/webp'', ''.webp''),
      (''text/html'', ''.html''), (''text/markdown'', ''.md''), (''text/plain'', ''.txt'')]"

definition media_extension :: "string \<Rightarrow> string" where
  "media_extension media_type =
     (case map_of MEDIA_EXTENSIONS media_type of
        Some ext \<Rightarrow> ext
      | None \<Rightarrow>
          if ends_with media_type ''+json'' then ''.json''
          else if ends_with media_type ''+xml'' then ''.xml''
          else if starts_with media_type ''image/'' then ''.img''
          else if starts_with media_type ''text/'' then ''.txt''
          else ''.bin'')"

text \<open>A Base64 text with a non-ASCII character raises a \<open>ValueError\<close> the caller does not translate.\<close>

definition representation_body :: "string \<Rightarrow> string \<Rightarrow> domain_error + string" where
  "representation_body encoding content =
     (if encoding = ''UTF8'' then Inr (utf8_encode content)
      else if encoding = ''BASE64'' then
        (if list_ex (\<lambda>c. 128 \<le> (of_char c :: nat)) content then Inl RuntimeValueError
         else (case b64decode content of None \<Rightarrow> Inl ResultStorageError | Some body \<Rightarrow> Inr body))
      else Inl ResultStorageError)"

definition identity_json :: "step_result_identity \<Rightarrow> domain_error + json" where
  "identity_json i =
     (if ri_sequence i < 0 \<or> ri_fencing_token i < 1 then Inl ResultStorageError
      else Inr (JObj
        [(''execution_id'', JStr (uuid_str (ri_execution_id i))), (''operation_id'', JStr (uuid_str (ri_operation_id i))),
         (''step_id'', JStr (uuid_str (ri_step_id i))), (''sequence'', JInt (ri_sequence i)),
         (''execution_attempt_id'', JStr (uuid_str (ri_execution_attempt_id i))),
         (''fencing_token'', JInt (ri_fencing_token i))]))"

definition source_json :: "execution_source_reference \<Rightarrow> json" where
  "source_json s =
     JObj [(''relative_path'', JStr (sf_relative_path s)), (''checksum_sha256'', JStr (sf_checksum_sha256 s)),
           (''size_bytes'', JInt (sf_size_bytes s))]"

definition record_json :: "runtime_output_record \<Rightarrow> json" where
  "record_json r =
     JObj [(''kind'', JStr (ro_kind r)), (''stream_name'', json_opt_str (ro_stream_name r)),
           (''execution_count'', json_opt_int (ro_execution_count r)),
           (''representations'', JList (map (\<lambda>x. JObj
              [(''media_type'', JStr (or_media_type x)), (''encoding'', JStr (or_encoding x)),
               (''content'', JStr (or_content x)), (''metadata'', or_metadata x)]) (ro_representations r))),
           (''metadata'', ro_metadata r)]"

definition records_digest :: "(string \<Rightarrow> string) \<Rightarrow> runtime_output_record list \<Rightarrow> string" where
  "records_digest sha256 records = sha256 (utf8_encode (json_dumps (JList (map record_json records))))"

subsection \<open>Writing an output\<close>

definition put_file :: "path \<Rightarrow> string \<Rightarrow> files \<Rightarrow> files" where
  "put_file p body fs = (p, body) # filter (\<lambda>(q, _). q \<noteq> p) fs"

definition output_filename :: "nat \<Rightarrow> string \<Rightarrow> nat \<Rightarrow> string \<Rightarrow> string" where
  "output_filename ordinal kind index media_type =
     zero_padded 6 ordinal @ ''-'' @ map char_lower kind @ ''-'' @ zero_padded 2 index @ media_extension media_type"

definition representation_entry ::
    "(string \<Rightarrow> string) \<Rightarrow> path \<Rightarrow> string \<Rightarrow> runtime_output_representation \<Rightarrow> string \<Rightarrow> json" where
  "representation_entry sha256 relative filename r body =
     JObj [(''media_type'', JStr (strip (map char_lower (or_media_type r)))), (''encoding'', JStr (or_encoding r)),
           (''relative_path'', JStr (as_posix (relative @ [''outputs'', filename]))),
           (''size_bytes'', JInt (int (length body))), (''checksum_sha256'', JStr (sha256 body)),
           (''complete'', JBool True), (''truncated_in_preview'', JBool False), (''metadata'', or_metadata r)]"

fun persist_representations ::
    "(string \<Rightarrow> string) \<Rightarrow> path \<Rightarrow> path \<Rightarrow> nat \<Rightarrow> string \<Rightarrow> nat \<Rightarrow> runtime_output_representation list \<Rightarrow> files \<Rightarrow>
       files \<times> (domain_error + json list)" where
  "persist_representations sha256 partial relative ordinal kind index [] fs = (fs, Inr [])"
| "persist_representations sha256 partial relative ordinal kind index (r # rs) fs =
     (case representation_body (or_encoding r) (or_content r) of
        Inl err \<Rightarrow> (fs, Inl err)
      | Inr body \<Rightarrow>
          (let filename = output_filename ordinal kind index (strip (map char_lower (or_media_type r)));
               (fs', res) = persist_representations sha256 partial relative ordinal kind (Suc index) rs
                 (put_file (partial @ [''outputs'', filename]) body fs)
           in (fs', bind_res res (\<lambda>entries.
                 Inr (representation_entry sha256 relative filename r body # entries)))))"

definition output_entry ::
    "string \<Rightarrow> nat \<Rightarrow> string \<Rightarrow> runtime_output_record \<Rightarrow> json list \<Rightarrow> json" where
  "output_entry created_at ordinal kind r entries =
     JObj [(''ordinal'', JInt (int ordinal)), (''kind'', JStr kind),
           (''stream_name'', json_opt_str (ro_stream_name r)),
           (''execution_count'', json_opt_int (ro_execution_count r)), (''representations'', JList entries),
           (''metadata'', ro_metadata r), (''created_at'', JStr created_at)]"

definition persist_record ::
    "(string \<Rightarrow> string) \<Rightarrow> string \<Rightarrow> path \<Rightarrow> path \<Rightarrow> nat \<Rightarrow> runtime_output_record \<Rightarrow> files \<Rightarrow>
       files \<times> (domain_error + json)" where
  "persist_record sha256 now partial relative ordinal r fs =
     (let kind = map ascii_upper (ro_kind r) in
      if kind \<notin> fst ` set OUTPUT_KIND_NAMES then (fs, Inl ResultStorageError)
      else
        (case persist_representations sha256 partial relative ordinal kind 0 (ro_representations r) fs of
           (fs', Inl err) \<Rightarrow> (fs', Inl err)
         | (fs', Inr entries) \<Rightarrow> (fs', Inr (output_entry now ordinal kind r entries))))"

subsection \<open>Reading an output\<close>

text \<open>
  \<open>str(v)\<close>, and \<open>v == n\<close> for a JSON value and an integer. Manifests hold strings and integers at
  the places these are used on; for a nested value the text is the JSON text.
\<close>

fun py_str :: "json \<Rightarrow> string" where
  "py_str (JStr s) = s"
| "py_str (JInt i) = int_str i"
| "py_str (JBool b) = (if b then ''True'' else ''False'')"
| "py_str JNull = ''None''"
| "py_str (JFloat t) = t"
| "py_str j = json_dumps j"

fun json_int_eq :: "json option \<Rightarrow> int \<Rightarrow> bool" where
  "json_int_eq (Some (JInt i)) n = (i = n)"
| "json_int_eq (Some (JBool b)) n = ((if b then 1 else 0) = n)"
| "json_int_eq _ n = False"

fun is_obj :: "json \<Rightarrow> bool" where
  "is_obj (JObj _) = True"
| "is_obj _ = False"

fun the_list :: "json option \<Rightarrow> json list option" where
  "the_list (Some (JList vs)) = Some vs"
| "the_list _ = None"

definition str_get :: "string \<Rightarrow> string \<Rightarrow> json \<Rightarrow> string" where
  "str_get k dflt v = (case json_get k v of None \<Rightarrow> dflt | Some x \<Rightarrow> py_str x)"

definition read_file :: "files \<Rightarrow> path \<Rightarrow> domain_error + string" where
  "read_file fs p = (case map_of fs p of None \<Rightarrow> Inl StorageFileNotFoundError | Some body \<Rightarrow> Inr body)"

definition is_binary_media :: "string \<Rightarrow> bool" where
  "is_binary_media media_type \<longleftrightarrow> starts_with media_type ''image/'' \<or> media_type = ''application/pdf''"

definition is_json_media :: "string \<Rightarrow> bool" where
  "is_json_media media_type \<longleftrightarrow> media_type = ''application/json'' \<or> ends_with media_type ''+json''"

definition representation_content :: "string \<Rightarrow> string \<Rightarrow> domain_error + json" where
  "representation_content media_type body =
     (if is_binary_media media_type then Inr (JStr (b64encode body))
      else
        (case utf8_decode body of
           None \<Rightarrow> Inl ResultStorageError
         | Some text_value \<Rightarrow>
             if is_json_media media_type then
               (case loads_text text_value of None \<Rightarrow> Inl ResultStorageError | Some v \<Rightarrow> Inr v)
             else Inr (JStr text_value)))"

definition representation_value ::
    "(string \<Rightarrow> string) \<Rightarrow> files \<Rightarrow> path \<Rightarrow> json \<Rightarrow> domain_error + json" where
  "representation_value sha256 fs result_directory value =
     bind_res (resolve_reference fs (str_get ''relative_path'' '''' value)) (\<lambda>path.
     if \<not> prefix result_directory path then Inl ResultStorageError
     else bind_res (read_file fs path) (\<lambda>body.
     if \<not> json_int_eq (json_get ''size_bytes'' value) (int (length body)) \<or>
        json_get ''checksum_sha256'' value \<noteq> Some (JStr (sha256 body)) then Inl ResultStorageError
     else
       representation_content (str_get ''media_type'' '''' value) body))"

fun representation_values ::
    "(string \<Rightarrow> string) \<Rightarrow> files \<Rightarrow> path \<Rightarrow> json list \<Rightarrow> domain_error + (string \<times> json) list" where
  "representation_values sha256 fs dir [] = Inr []"
| "representation_values sha256 fs dir (v # vs) =
     (case json_get ''media_type'' v of
        None \<Rightarrow> Inl RuntimeValueError
      | Some m \<Rightarrow>
          bind_res (representation_value sha256 fs dir v) (\<lambda>x.
          bind_res (representation_values sha256 fs dir vs) (\<lambda>xs. Inr ((py_str m, x) # xs))))"

text \<open>\<open>raw_output.get("stream_name") or "stdout"\<close>: only a false value falls through.\<close>

definition stream_name_of :: "json \<Rightarrow> string" where
  "stream_name_of raw =
     (case json_get ''stream_name'' raw of
        None \<Rightarrow> ''stdout''
      | Some v \<Rightarrow>
          if v \<in> {JNull, JBool False, JInt 0, JStr '''', JList [], JObj []} then ''stdout'' else py_str v)"

definition dict_text :: "(string \<times> json) list \<Rightarrow> string" where
  "dict_text data = (case map_of data ''text/plain'' of None \<Rightarrow> '''' | Some v \<Rightarrow> py_str v)"

definition nb_output ::
    "string \<Rightarrow> string \<Rightarrow> json \<Rightarrow> json \<Rightarrow> (string \<times> json) list \<Rightarrow> domain_error + json" where
  "nb_output kind stream_name execution_count metadata data =
     (if kind = ''STREAM'' then
        Inr (JObj [(''output_type'', JStr ''stream''), (''name'', JStr stream_name), (''text'', JStr (dict_text data))])
      else if kind = ''DISPLAY'' then
        Inr (JObj [(''output_type'', JStr ''display_data''), (''data'', JObj data), (''metadata'', metadata)])
      else if kind = ''RESULT'' then
        Inr (JObj [(''output_type'', JStr ''execute_result''), (''data'', JObj data), (''metadata'', metadata),
                   (''execution_count'', execution_count)])
      else if kind = ''ERROR'' then
        Inr (JObj [(''output_type'', JStr ''error''), (''ename'', JStr (str_get ''ename'' ''ExecutionError'' metadata)),
                   (''evalue'', JStr (str_get ''evalue'' '''' metadata)),
                   (''traceback'', JList (map JStr (split_lines str_eol [] (dict_text data))))])
      else Inl ResultStorageError)"

definition notebook_output ::
    "(string \<Rightarrow> string) \<Rightarrow> files \<Rightarrow> path \<Rightarrow> json \<Rightarrow> domain_error + json" where
  "notebook_output sha256 fs result_directory raw =
     (if \<not> is_obj raw then Inl ResultStorageError
      else
        (case the_list (json_get ''representations'' raw) of
           None \<Rightarrow> Inl ResultStorageError
         | Some vs \<Rightarrow>
             if \<not> list_all is_obj vs then Inl ResultStorageError
             else bind_res (representation_values sha256 fs result_directory vs) (\<lambda>pairs.
               let metadata = (case json_get ''metadata'' raw of None \<Rightarrow> JObj [] | Some m \<Rightarrow> m) in
               if \<not> is_obj metadata then Inl ResultStorageError
               else nb_output (str_get ''kind'' '''' raw) (stream_name_of raw)
                 (case json_get ''execution_count'' raw of None \<Rightarrow> JNull | Some n \<Rightarrow> n) metadata (dict_of pairs))))"

subsection \<open>Summary of the outputs\<close>

definition output_kinds :: "json list \<Rightarrow> string list" where
  "output_kinds outputs = map (str_get ''kind'' '''') outputs"

definition representations_of :: "json \<Rightarrow> json list" where
  "representations_of output = (case the_list (json_get ''representations'' output) of None \<Rightarrow> [] | Some vs \<Rightarrow> vs)"

definition media_types_of :: "json list \<Rightarrow> string list" where
  "media_types_of outputs = map (str_get ''media_type'' '''') (concat (map representations_of outputs))"

definition stream_names_of :: "json list \<Rightarrow> string list" where
  "stream_names_of outputs =
     List.map_filter (\<lambda>output.
       if str_get ''kind'' '''' output = ''STREAM'' then
         (case json_get ''stream_name'' output of Some (JStr s) \<Rightarrow> Some s | _ \<Rightarrow> None)
       else None) outputs"

text \<open>
  \<open>sorted(set)\<close> is \<open>sorted_list_of_set\<close>. An unknown kind or a missing key raises \<open>KeyError\<close>.
\<close>

definition summarisable :: "json \<Rightarrow> bool" where
  "summarisable output \<longleftrightarrow>
     map_of OUTPUT_KIND_NAMES (str_get ''kind'' '''' output) \<noteq> None \<and> the_list (json_get ''representations'' output) \<noteq> None \<and>
     list_all (\<lambda>v. json_get ''media_type'' v \<noteq> None) (representations_of output)"

definition output_summary_json :: "json list \<Rightarrow> domain_error + json" where
  "output_summary_json outputs =
     (if \<not> list_all summarisable outputs then Inl RuntimeValueError
      else
      let names = map (\<lambda>k. the (map_of OUTPUT_KIND_NAMES k)) (output_kinds outputs);
          media = media_types_of outputs;
          images = length (filter (\<lambda>m. starts_with m ''image/'') media)
      in Inr (JObj [(''output_count'', JInt (int (length outputs))),
               (''output_types'', JObj (map (\<lambda>n. (n, JInt (int (count_list names n)))) (sorted_list_of_set (set names)))),
               (''stream_names'', JList (map JStr (sorted_list_of_set (set (stream_names_of outputs))))),
               (''mime_types'', JList (map JStr (sorted_list_of_set (set media)))),
               (''has_image'', JBool (0 < images)), (''image_count'', JInt (int images)),
               (''has_error'', JBool (''ERROR'' \<in> set (output_kinds outputs)))]))"

subsection \<open>Base64\<close>

lemma b64_table:
  "list_all (\<lambda>(c, n). b64_value c = Some n \<and> c \<noteq> CHR ''='' \<and> (of_char c :: nat) < 128) (zip b64_alphabet [0..<64])"
  by code_simp

lemma b64_value_char [simp]: "b64_value (b64_char n) = Some (n mod 64)"
  and b64_char_not_pad [simp]: "b64_char n \<noteq> CHR ''=''"
  and b64_char_ascii: "(of_char (b64_char n) :: nat) < 128"
proof -
  have "length b64_alphabet = 64" by (simp add: b64_alphabet_def)
  then have "(b64_alphabet ! (n mod 64), n mod 64) \<in> set (zip b64_alphabet [0..<64])"
    by (auto simp: set_zip intro!: exI [of _ "n mod 64"])
  then have "b64_value (b64_char n) = Some (n mod 64) \<and> b64_char n \<noteq> CHR ''='' \<and> (of_char (b64_char n) :: nat) < 128"
    using b64_table unfolding list_all_iff b64_char_def by blast
  then show "b64_value (b64_char n) = Some (n mod 64)" "b64_char n \<noteq> CHR ''=''"
    "(of_char (b64_char n) :: nat) < 128" by simp_all
qed

text \<open>The four digits and the three bytes of a 24-bit number.\<close>

lemma b64_digits:
  assumes "n < (16777216 :: nat)"
  shows "n div 262144 mod 64 * 262144 + n div 4096 mod 64 * 4096 + n div 64 mod 64 * 64 + n mod 64 = n"
proof -
  have q: "n div 4096 = n div 64 div 64" "n div 262144 = n div 64 div 64 div 64" by (simp_all add: div_mult2_eq [symmetric])
  have "n div 262144 < 64" using assms by (simp add: div_less_iff_less_mult)
  then have "n div 262144 mod 64 = n div 262144" by simp
  moreover have "n div 64 * 64 + n mod 64 = n" by simp
  moreover have "n div 4096 * 64 + n div 64 mod 64 = n div 64" unfolding q by simp
  moreover have "n div 262144 * 64 + n div 4096 mod 64 = n div 4096" unfolding q by simp
  ultimately show ?thesis by linarith
qed

lemma b64_bytes:
  fixes a b c :: char
  defines "n \<equiv> of_char a * 65536 + of_char b * 256 + of_char c :: nat"
  shows "n < 16777216" and "char_of (n div 65536) = a" and "char_of (n div 256) = b" and "char_of n = c"
proof -
  have abc: "(of_char a :: nat) < 256" "(of_char b :: nat) < 256" "(of_char c :: nat) < 256" by simp_all
  then show "n < 16777216" unfolding n_def by linarith
  have q: "n div 256 = of_char a * 256 + of_char b"
  proof -
    have "n div 256 = (of_char c + (of_char a * 256 + of_char b) * 256) div 256" by (simp add: n_def algebra_simps)
    also have "\<dots> = of_char a * 256 + of_char b" by (subst div_mult_self1) (use abc(3) in simp_all)
    finally show ?thesis .
  qed
  have "n div 65536 = n div 256 div 256" by (simp add: div_mult2_eq [symmetric])
  then have "n div 65536 = of_char a" using q abc(2) by simp
  then show "char_of (n div 65536) = a" by simp
  have "char_of (n div 256) = char_of (n div 256 mod 256)" by (simp only: char_of_mod_256)
  also have "n div 256 mod 256 = of_char b" using q abc(2) by simp
  finally show "char_of (n div 256) = b" by simp
  have "n mod 256 = of_char c" using abc(3) by (simp add: n_def mod_add_eq [symmetric] mod_mult_right_eq)
  then show "char_of n = c" by (metis char_of_char char_of_mod_256)
qed

lemma b64decode_encode: "b64decode (b64encode bs) = Some bs"
proof (induction bs rule: b64encode.induct)
  case (2 a)
  define n :: nat where "n = of_char a * 65536"
  note bytes = b64_bytes [of a "char_of (0 :: nat)" "char_of (0 :: nat)",
      unfolded of_char_of mod_0 mult_0 add_0_right, folded n_def]
  have "n div 64 mod 64 = 0" "n mod 64 = 0" by (simp_all add: n_def)
  then have digits: "n div 262144 mod 64 * 262144 + n div 4096 mod 64 * 4096 = n"
    using b64_digits [OF bytes(1)] by linarith
  have "b64encode [a] = [b64_char (n div 262144), b64_char (n div 4096), CHR ''='', CHR ''='']"
    by (simp only: b64encode.simps Let_def n_def)
  moreover have "b64decode [b64_char x, b64_char y, CHR ''='', CHR ''=''] =
      Some [char_of ((x mod 64 * 262144 + y mod 64 * 4096) div 65536)]" for x y by simp
  ultimately show ?case by (simp only: bytes(2) digits)
next
  case (3 a b)
  define n :: nat where "n = of_char a * 65536 + of_char b * 256"
  note bytes = b64_bytes [of a b "char_of (0 :: nat)", unfolded of_char_of mod_0 add_0_right, folded n_def]
  have "n mod 64 = 0" by (simp add: n_def mod_add_eq [symmetric])
  then have digits: "n div 262144 mod 64 * 262144 + n div 4096 mod 64 * 4096 + n div 64 mod 64 * 64 = n"
    using b64_digits [OF bytes(1)] by linarith
  have "b64encode [a, b] = [b64_char (n div 262144), b64_char (n div 4096), b64_char (n div 64), CHR ''='']"
    by (simp only: b64encode.simps Let_def n_def)
  moreover have "b64decode [b64_char x, b64_char y, b64_char z, CHR ''=''] =
      (let m = x mod 64 * 262144 + y mod 64 * 4096 + z mod 64 * 64 in Some [char_of (m div 65536), char_of (m div 256)])"
    for x y z by simp
  ultimately show ?case by (simp only: Let_def bytes(2,3) digits)
next
  case (4 a b c cs)
  define n :: nat where "n = of_char a * 65536 + of_char b * 256 + of_char c"
  note bytes = b64_bytes [of a b c, folded n_def]
  have "b64encode (a # b # c # cs) =
      b64_char (n div 262144) # b64_char (n div 4096) # b64_char (n div 64) # b64_char n # b64encode cs"
    by (simp only: b64encode.simps Let_def n_def append_Cons append_Nil)
  moreover have "b64decode (b64_char x # b64_char y # b64_char z # b64_char w # b64encode cs) =
      (let m = x mod 64 * 262144 + y mod 64 * 4096 + z mod 64 * 64 + w mod 64
       in Some ([char_of (m div 65536), char_of (m div 256), char_of m] @ cs))" for x y z w
    using 4 by simp
  ultimately show ?case by (simp only: Let_def bytes(2-4) b64_digits [OF bytes(1)] append_Cons append_Nil)
qed simp

subsection \<open>File names\<close>

lemma zero_padded_digits: "c \<in> set (zero_padded w n) \<Longrightarrow> is_digit c"
  using nat_str_digits [of c n] digit_zero by (auto simp: zero_padded_def)

lemma zero_padded_value: "foldl (\<lambda>acc d. 10 * acc + the (hex_value d)) 0 (zero_padded w n) = n"
proof -
  have "foldl (\<lambda>acc d. 10 * acc + the (hex_value d)) 0 (replicate k CHR ''0'') = 0" for k
    by (induction k) (simp_all add: hex_value_0)
  then show ?thesis using fold_digits_nat_str [of n] by (simp add: zero_padded_def)
qed

lemma zero_padded_inject: "zero_padded w m = zero_padded w n \<Longrightarrow> m = n"
  by (metis zero_padded_value)

lemma digits_before:
  assumes "a @ x # b = a' @ x' # b'" and "\<forall>c\<in>set a. is_digit c" and "\<forall>c\<in>set a'. is_digit c"
    and "\<not> is_digit x" and "\<not> is_digit x'"
  shows "a = a' \<and> b = b'"
proof -
  have "takeWhile is_digit (a @ x # b) = a" "takeWhile is_digit (a' @ x' # b') = a'"
    using assms(2-5) by (simp_all add: takeWhile_append2)
  then have "a = a'" using assms(1) by simp
  then show ?thesis using assms(1) by simp
qed

lemma media_extension_dot: "\<exists>e. media_extension m = CHR ''.'' # e \<and> length e \<le> 4 \<and> list_all is_alnum e"
proof -
  let ?P = "\<lambda>x. x \<noteq> [] \<and> hd x = CHR ''.'' \<and> length (tl x) \<le> 4 \<and> list_all is_alnum (tl x)"
  have "list_all (?P \<circ> snd) MEDIA_EXTENSIONS" by code_simp
  then have "?P x" if "map_of MEDIA_EXTENSIONS m = Some x" for x
    using map_of_SomeD [OF that] by (auto simp: list_all_iff)
  moreover have "?P ''.json''" "?P ''.xml''" "?P ''.img''" "?P ''.txt''" "?P ''.bin''" by code_simp+
  ultimately have "?P (media_extension m)" by (simp add: media_extension_def split: option.splits)
  then show ?thesis by (cases "media_extension m") auto
qed

lemma output_filename_inject:
  assumes "output_filename n k i m = output_filename n' k' i' m'"
  shows "n = n' \<and> (k = k' \<longrightarrow> i = i')"
proof -
  obtain e e' where e: "media_extension m = CHR ''.'' # e" "media_extension m' = CHR ''.'' # e'"
    using media_extension_dot by metis
  have "zero_padded 6 n = zero_padded 6 n' \<and>
      map char_lower k @ ''-'' @ zero_padded 2 i @ CHR ''.'' # e = map char_lower k' @ ''-'' @ zero_padded 2 i' @ CHR ''.'' # e'"
    using assms zero_padded_digits by (intro digits_before [of _ "CHR ''-''" _ _ "CHR ''-''"]) (auto simp: output_filename_def e)
  moreover have "zero_padded 2 i = zero_padded 2 i'" if "zero_padded 2 i @ CHR ''.'' # e = zero_padded 2 i' @ CHR ''.'' # e'"
    using digits_before [OF that] zero_padded_digits by auto
  ultimately show ?thesis using zero_padded_inject by auto
qed

definition kind_ok :: "string \<Rightarrow> bool" where
  "kind_ok k \<longleftrightarrow> k \<in> fst ` set OUTPUT_KIND_NAMES"

lemma digit_alnum: "is_digit c \<Longrightarrow> is_alnum c"
  by (auto simp: is_digit_def is_alnum_def)

lemma kind_lower: "kind_ok k \<Longrightarrow> list_all is_alnum (map char_lower k) \<and> length k \<le> 7"
proof -
  have "list_all (\<lambda>(k, _). list_all is_alnum (map char_lower k) \<and> length k \<le> 7) OUTPUT_KIND_NAMES" by code_simp
  then show "kind_ok k \<Longrightarrow> list_all is_alnum (map char_lower k) \<and> length k \<le> 7"
    by (auto simp: kind_ok_def list_all_iff)
qed

lemma length_zero_padded: "n < 10 ^ 100 \<Longrightarrow> w \<le> 100 \<Longrightarrow> length (zero_padded w n) \<le> 100"
  using length_nat_str [of n 100] by (simp add: zero_padded_def)

lemma output_filename_safe:
  assumes "kind_ok k" and "n < 10 ^ 100" and "i < 10 ^ 100"
  shows "safe_segment (output_filename n k i m)"
proof -
  obtain e where e: "media_extension m = CHR ''.'' # e" "length e \<le> 4" "list_all is_alnum e"
    using media_extension_dot [of m] by blast
  let ?f = "output_filename n k i m"
  have chars: "is_alnum c \<or> c = CHR ''.'' \<or> c = CHR ''-''" if "c \<in> set ?f" for c
    using that zero_padded_digits [of c] digit_alnum [of c] kind_lower [OF assms(1)] e(3)
    by (auto simp: output_filename_def e(1) list_all_iff)
  obtain d ds where z: "zero_padded 6 n = d # ds"
    by (cases "zero_padded 6 n") (auto simp: zero_padded_def nat_str_nonempty)
  have "is_alnum (hd ?f)" using zero_padded_digits [of d 6 n] digit_alnum z by (simp add: output_filename_def)
  moreover have "length ?f \<le> 255"
    using length_zero_padded [OF assms(2), of 6] length_zero_padded [OF assms(3), of 2] kind_lower [OF assms(1)] e(2)
    by (simp add: output_filename_def e(1))
  moreover have "?f \<noteq> []" by (simp add: output_filename_def)
  ultimately show ?thesis using chars by (cases ?f) (auto simp: safe_segment_def list_all_iff)
qed

end
