(* ===== verification/Step_Results.thy ===== *)
theory Step_Results
  imports Result_Codec
begin

text \<open>
  \<open>infrastructure/result_storage/steps.py\<close>: the directory of one Step result. While it is OPEN its
  outputs are appended to a log with one JSON line per batch; sealing replaces the log by a manifest
  and renames the directory, after which it is immutable. The state of the store is the files, the
  directories (which may be empty) and the in-memory counters of the open logs.

  A write of one file is atomic (\<open>atomic_write\<close> renames a finished temporary file). An append to the
  log is not: a crash may leave any prefix of its line, which \<open>torn\<close> describes. Every operation
  returns the store it leaves behind, also when it raises.
\<close>

subsection \<open>State\<close>

record batch_receipt =
  br_request_sha256 :: json
  br_end_offset :: int
  br_output_count :: int
  br_representation_count :: int
  br_total_size_bytes :: int

record output_log =
  ol_header :: json
  ol_output_count :: int
  ol_representation_count :: int
  ol_total_size_bytes :: int
  ol_batches :: "(string \<times> batch_receipt) list"

record result_store =
  rs_files :: files
  rs_dirs :: "path list"
  rs_logs :: "(path \<times> output_log) list"

record step_result_append =
  sp_committed_offset :: int
  sp_output_count :: int
  sp_representation_count :: int
  sp_total_size_bytes :: int
  sp_replayed :: bool

record step_result_projection =
  sj_outputs :: "json list"
  sj_execution_count :: json

text \<open>What exists: the files and the directories, with everything above them.\<close>

definition tree :: "result_store \<Rightarrow> files" where
  "tree st = rs_files st @ map (\<lambda>p. (p, [])) (rs_dirs st)"

definition exists_in :: "result_store \<Rightarrow> path \<Rightarrow> bool" where
  "exists_in st p \<longleftrightarrow> path_exists (tree st) p"

definition put :: "path \<Rightarrow> string \<Rightarrow> result_store \<Rightarrow> result_store" where
  "put p body st = st\<lparr>rs_files := put_file p body (rs_files st)\<rparr>"

definition atomic_json_write :: "path \<Rightarrow> json \<Rightarrow> result_store \<Rightarrow> result_store" where
  "atomic_json_write p v st = put p (json_dumps_utf8 v) st"

definition TERMINAL_STATES :: "string list" where
  "TERMINAL_STATES = [''FINALIZED'', ''FAILED'', ''ABORTED'']"

definition OUTPUT_LOG :: string where
  "OUTPUT_LOG = ''outputs.jsonl''"

definition result_directory :: "result_store \<Rightarrow> step_result_identity \<Rightarrow> domain_error + path" where
  "result_directory st i = resolve_relative (tree st) False (result_relative i)"

definition partial_directory :: "result_store \<Rightarrow> bool \<Rightarrow> step_result_identity \<Rightarrow> domain_error + path" where
  "partial_directory st must_exist i = resolve_relative (tree st) must_exist (partial_relative i)"

subsection \<open>The output log\<close>

text \<open>\<open>json.loads(bytes)\<close>: bytes that are not UTF-8 raise another error than a text that is not JSON.\<close>

definition load_bytes :: "string \<Rightarrow> domain_error + json" where
  "load_bytes body =
     (case utf8_decode body of
        None \<Rightarrow> Inl RuntimeValueError
      | Some t \<Rightarrow> (case loads_text t of None \<Rightarrow> Inl ResultStorageError | Some v \<Rightarrow> Inr v))"

definition log_line :: "json \<Rightarrow> string" where
  "log_line entry = json_dumps_utf8 entry @ [CHR 0x0A]"

text \<open>\<open>body[: body.rfind(b"\n") + 1]\<close>.\<close>

definition complete_lines :: "string \<Rightarrow> string" where
  "complete_lines body = rev (dropWhile (\<lambda>c. c \<noteq> CHR 0x0A) (rev body))"

fun load_lines :: "string list \<Rightarrow> domain_error + json list" where
  "load_lines [] = Inr []"
| "load_lines (l # ls) = bind_res (load_bytes l) (\<lambda>v. bind_res (load_lines ls) (\<lambda>vs. Inr (v # vs)))"

definition read_log :: "path \<Rightarrow> bool \<Rightarrow> result_store \<Rightarrow> result_store \<times> (domain_error + json list)" where
  "read_log p repair st =
     (case map_of (rs_files st) p of
        None \<Rightarrow> (st, Inl ResultStorageError)
      | Some body \<Rightarrow>
          (let whole = complete_lines body;
               st' = (if repair \<and> length whole \<noteq> length body then put p whole st else st)
           in (st', load_lines (split_lines bytes_eol [] whole))))"

definition load_state :: "path \<Rightarrow> result_store \<Rightarrow> domain_error + json" where
  "load_state dir st =
     (case map_of (rs_files st) (dir @ [''.state.json'']) of
        None \<Rightarrow> Inl ResultStorageError
      | Some body \<Rightarrow>
          bind_res (load_bytes body) (\<lambda>v. if is_obj v then Inr v else Inl ResultStorageError))"

text \<open>The sizes of the stored representations of one output; a missing key raises \<open>KeyError\<close>.\<close>

definition size_of_item :: "json \<Rightarrow> int option" where
  "size_of_item v = (case json_get ''size_bytes'' v of Some (JInt n) \<Rightarrow> Some n | _ \<Rightarrow> None)"

fun item_sizes :: "json list \<Rightarrow> int list option" where
  "item_sizes [] = Some []"
| "item_sizes (output # outputs) =
     Option.bind (the_list (json_get ''representations'' output)) (\<lambda>items.
     Option.bind (those (map size_of_item items)) (\<lambda>sizes.
     map_option ((@) sizes) (item_sizes outputs)))"

definition new_output_log :: "json \<Rightarrow> output_log" where
  "new_output_log header =
     \<lparr>ol_header = header, ol_output_count = 0, ol_representation_count = 0, ol_total_size_bytes = 0, ol_batches = []\<rparr>"

definition log_add :: "json \<Rightarrow> output_log \<Rightarrow> domain_error + (output_log \<times> batch_receipt)" where
  "log_add entry lg =
     (case (the_list (json_get ''outputs'' entry), json_get ''request_sha256'' entry, json_get ''batch_id'' entry) of
        (Some outputs, Some digest, Some batch_id) \<Rightarrow>
          (case item_sizes outputs of
             None \<Rightarrow> Inl RuntimeValueError
           | Some sizes \<Rightarrow>
               (let batch = \<lparr>br_request_sha256 = digest,
                             br_end_offset = ol_output_count lg + int (length outputs),
                             br_output_count = int (length outputs),
                             br_representation_count = int (length sizes),
                             br_total_size_bytes = sum_list sizes\<rparr>
                in Inr (lg\<lparr>ol_output_count := br_end_offset batch,
                            ol_representation_count := ol_representation_count lg + br_representation_count batch,
                            ol_total_size_bytes := ol_total_size_bytes lg + br_total_size_bytes batch,
                            ol_batches := (py_str batch_id, batch) # ol_batches lg\<rparr>, batch)))
      | _ \<Rightarrow> Inl RuntimeValueError)"

fun log_add_all :: "json list \<Rightarrow> output_log \<Rightarrow> domain_error + output_log" where
  "log_add_all [] lg = Inr lg"
| "log_add_all (entry # entries) lg = bind_res (log_add entry lg) (\<lambda>(lg', _). log_add_all entries lg')"

text \<open>The log of an OPEN result: from memory, or read from disk once, with a torn last line cut off.\<close>

definition fetch_log :: "path \<Rightarrow> result_store \<Rightarrow> result_store \<times> (domain_error + output_log)" where
  "fetch_log partial st =
     (case map_of (rs_logs st) partial of
        Some lg \<Rightarrow> (st, Inr lg)
      | None \<Rightarrow>
          (case load_state partial st of
             Inl err \<Rightarrow> (st, Inl err)
           | Inr header \<Rightarrow>
               if json_get ''state'' header \<noteq> Some (JStr ''OPEN'') then (st, Inl ResultStorageError)
               else
                 (case read_log (partial @ [OUTPUT_LOG]) True st of
                    (st1, Inl err) \<Rightarrow> (st1, Inl err)
                  | (st1, Inr entries) \<Rightarrow>
                      (case log_add_all entries (new_output_log header) of
                         Inl err \<Rightarrow> (st1, Inl err)
                       | Inr lg \<Rightarrow> (st1\<lparr>rs_logs := (partial, lg) # rs_logs st1\<rparr>, Inr lg)))))"

definition check_identity :: "step_result_identity \<Rightarrow> output_log \<Rightarrow> domain_error + output_log" where
  "check_identity identity lg =
     bind_res (identity_json identity) (\<lambda>j.
     case json_get ''identity'' (ol_header lg) of
       Some j' \<Rightarrow> if json_eq j' j then Inr lg else Inl ResultStorageError
     | None \<Rightarrow> Inl ResultStorageError)"

definition open_log ::
    "path \<Rightarrow> step_result_identity \<Rightarrow> result_store \<Rightarrow> result_store \<times> (domain_error + output_log)" where
  "open_log partial identity st =
     (let (st1, r) = fetch_log partial st in (st1, bind_res r (check_identity identity)))"

subsection \<open>Operations\<close>

definition int_field :: "string \<Rightarrow> json \<Rightarrow> domain_error + int" where
  "int_field k v = (case json_get k v of Some (JInt n) \<Rightarrow> Inr n | _ \<Rightarrow> Inl RuntimeValueError)"

definition str_field :: "string \<Rightarrow> json \<Rightarrow> domain_error + string" where
  "str_field k v = (case json_get k v of Some x \<Rightarrow> Inr (py_str x) | None \<Rightarrow> Inl RuntimeValueError)"

definition opt_field :: "(string \<Rightarrow> json \<Rightarrow> domain_error + 'a) \<Rightarrow> string \<Rightarrow> json \<Rightarrow> domain_error + 'a option" where
  "opt_field field k v =
     (if json_get k v \<in> {None, Some JNull} then Inr None else bind_res (field k v) (\<lambda>x. Inr (Some x)))"

definition source_of_json :: "json \<Rightarrow> domain_error + execution_source_reference" where
  "source_of_json v =
     bind_res (str_field ''relative_path'' v) (\<lambda>p.
     bind_res (str_field ''checksum_sha256'' v) (\<lambda>c.
     bind_res (int_field ''size_bytes'' v) (\<lambda>n.
     Inr \<lparr>sf_relative_path = p, sf_checksum_sha256 = c, sf_size_bytes = n\<rparr>)))"

definition reference_of_json ::
    "(string \<Rightarrow> string) \<Rightarrow> path \<Rightarrow> string \<Rightarrow> json \<Rightarrow> domain_error + step_result_reference" where
  "reference_of_json sha256 manifest_path body identity =
     bind_res (str_field ''execution_attempt_id'' identity) (\<lambda>a.
     case uuid_parse a of
       None \<Rightarrow> Inl RuntimeValueError
     | Some attempt_id \<Rightarrow>
         bind_res (int_field ''fencing_token'' identity) (\<lambda>n.
         Inr \<lparr>sy_relative_path = as_posix manifest_path, sy_checksum_sha256 = sha256 body,
              sy_size_bytes = int (length body), sy_execution_attempt_id = attempt_id, sy_fencing_token = n\<rparr>))"

definition load_terminal_descriptor ::
    "(string \<Rightarrow> string) \<Rightarrow> path \<Rightarrow> result_store \<Rightarrow> domain_error + step_result_descriptor" where
  "load_terminal_descriptor sha256 dir st =
     bind_res (read_file (rs_files st) (dir @ [''manifest.json''])) (\<lambda>body.
     bind_res (load_bytes body) (\<lambda>v.
     if \<not> is_obj v then Inl RuntimeValueError
     else if str_get ''state'' '''' v \<notin> set TERMINAL_STATES then Inl ResultStorageError
     else
       (case json_get ''complete'' v of
          Some (JBool whole) \<Rightarrow>
            (case (json_get ''identity'' v, json_get ''source'' v) of
               (Some (JObj i), Some (JObj s)) \<Rightarrow>
                 bind_res (reference_of_json sha256 (dir @ [''manifest.json'']) body (JObj i)) (\<lambda>ref.
                 bind_res (source_of_json (JObj s)) (\<lambda>source.
                 bind_res (int_field ''output_count'' v) (\<lambda>output_count.
                 bind_res (int_field ''representation_count'' v) (\<lambda>representation_count.
                 bind_res (int_field ''total_size_bytes'' v) (\<lambda>total_size_bytes.
                 case json_get ''output_summary'' v of
                   Some (JObj summary) \<Rightarrow>
                     bind_res (opt_field int_field ''execution_count'' v) (\<lambda>execution_count.
                     bind_res (opt_field str_field ''error_message'' v) (\<lambda>error_message.
                     Inr \<lparr>rd_state = str_get ''state'' '''' v, rd_complete = whole, rd_reference = ref,
                          rd_source = source, rd_output_count = output_count,
                          rd_representation_count = representation_count, rd_total_size_bytes = total_size_bytes,
                          rd_output_summary = JObj summary, rd_execution_count = execution_count,
                          rd_error_message = error_message\<rparr>))
                 | _ \<Rightarrow> Inl RuntimeValueError)))))
             | _ \<Rightarrow> Inl ResultStorageError)
        | _ \<Rightarrow> Inl ResultStorageError)))"

definition open_state :: "string \<Rightarrow> json \<Rightarrow> execution_source_reference \<Rightarrow> json" where
  "open_state now identity source =
     JObj [(''schema_version'', JStr ''1.0''), (''state'', JStr ''OPEN''), (''complete'', JBool False),
           (''identity'', identity), (''source'', source_json source), (''created_at'', JStr now)]"

definition begin_result ::
    "(string \<Rightarrow> string) \<Rightarrow> string \<Rightarrow> step_result_identity \<Rightarrow> execution_source_reference \<Rightarrow> result_store \<Rightarrow>
       result_store \<times> (domain_error + unit)" where
  "begin_result sha256 now identity source st =
     (case (result_directory st identity, partial_directory st False identity) of
        (Inl err, _) \<Rightarrow> (st, Inl err)
      | (_, Inl err) \<Rightarrow> (st, Inl err)
      | (Inr final, Inr partial) \<Rightarrow>
          if exists_in st final then
            (st, bind_res (load_terminal_descriptor sha256 final st) (\<lambda>descriptor.
               if rd_source descriptor \<noteq> source then Inl ResultStorageError else Inr ()))
          else if exists_in st partial then
            (st, bind_res (load_state partial st) (\<lambda>state.
               bind_res (identity_json identity) (\<lambda>j.
               if \<not> (case json_get ''identity'' state of Some j' \<Rightarrow> json_eq j' j | None \<Rightarrow> False) then Inl ResultStorageError
               else if \<not> (case json_get ''source'' state of Some s \<Rightarrow> json_eq s (source_json source) | None \<Rightarrow> False)
               then Inl ResultStorageError
               else Inr ())))
          else
            (let st1 = st\<lparr>rs_dirs := partial # rs_dirs st\<rparr> in
             case read_source sha256 (rs_files st1) source of
               Inl err \<Rightarrow> (st1, Inl err)
             | Inr content \<Rightarrow>
                 (let st2 = put (partial @ [''source.py'']) (utf8_encode content) st1;
                      st3 = st2\<lparr>rs_dirs := (partial @ [''outputs'']) # rs_dirs st2\<rparr>
                  in case identity_json identity of
                       Inl err \<Rightarrow> (st3, Inl err)
                     | Inr j \<Rightarrow>
                         (atomic_json_write (partial @ [''.state.json'']) (open_state now j source)
                            (put (partial @ [OUTPUT_LOG]) [] st3), Inr ()))))"

fun persist_records ::
    "(string \<Rightarrow> string) \<Rightarrow> string \<Rightarrow> path \<Rightarrow> path \<Rightarrow> nat \<Rightarrow> runtime_output_record list \<Rightarrow> files \<Rightarrow>
       files \<times> (domain_error + json list)" where
  "persist_records sha256 now partial relative ordinal [] fs = (fs, Inr [])"
| "persist_records sha256 now partial relative ordinal (r # rs) fs =
     (case persist_record sha256 now partial relative ordinal r fs of
        (fs1, Inl err) \<Rightarrow> (fs1, Inl err)
      | (fs1, Inr output) \<Rightarrow>
          (let (fs2, res) = persist_records sha256 now partial relative (Suc ordinal) rs fs1
           in (fs2, bind_res res (\<lambda>outputs. Inr (output # outputs)))))"

definition batch_entry :: "string \<Rightarrow> string \<Rightarrow> json list \<Rightarrow> json" where
  "batch_entry batch_key digest outputs =
     JObj [(''batch_id'', JStr batch_key), (''request_sha256'', JStr digest), (''outputs'', JList outputs)]"

definition append_of :: "batch_receipt \<Rightarrow> bool \<Rightarrow> step_result_append" where
  "append_of b replayed =
     \<lparr>sp_committed_offset = br_end_offset b, sp_output_count = br_output_count b,
      sp_representation_count = br_representation_count b, sp_total_size_bytes = br_total_size_bytes b,
      sp_replayed = replayed\<rparr>"

definition append_file :: "path \<Rightarrow> string \<Rightarrow> result_store \<Rightarrow> result_store" where
  "append_file p text st =
     put p ((case map_of (rs_files st) p of None \<Rightarrow> [] | Some body \<Rightarrow> body) @ text) st"

definition append_result ::
    "(string \<Rightarrow> string) \<Rightarrow> string \<Rightarrow> step_result_identity \<Rightarrow> int \<Rightarrow> uuid \<Rightarrow> runtime_output_record list \<Rightarrow>
       result_store \<Rightarrow> result_store \<times> (domain_error + step_result_append)" where
  "append_result sha256 now identity expected_offset batch_id records st =
     (if records = [] then (st, Inl ResultStorageError)
      else
        (case partial_directory st True identity of
           Inl err \<Rightarrow> (st, Inl err)
         | Inr partial \<Rightarrow>
             (case open_log partial identity st of
                (st1, Inl err) \<Rightarrow> (st1, Inl err)
              | (st1, Inr lg) \<Rightarrow>
                  (let request_digest = records_digest sha256 records; batch_key = uuid_str batch_id in
                   case map_of (ol_batches lg) batch_key of
                     Some existing \<Rightarrow>
                       (st1, if br_request_sha256 existing \<noteq> JStr request_digest then Inl ResultStorageError
                             else Inr (append_of existing True))
                   | None \<Rightarrow>
                       if expected_offset \<noteq> ol_output_count lg then (st1, Inl ResultStorageError)
                       else
                         (case persist_records sha256 now partial (result_relative identity)
                                 (nat expected_offset) records (rs_files st1) of
                            (fs, Inl err) \<Rightarrow> (st1\<lparr>rs_files := fs\<rparr>, Inl err)
                          | (fs, Inr outputs) \<Rightarrow>
                              (let entry = batch_entry batch_key request_digest outputs;
                                   st2 = append_file (partial @ [OUTPUT_LOG]) (log_line entry) (st1\<lparr>rs_files := fs\<rparr>)
                               in case log_add entry lg of
                                    Inl err \<Rightarrow> (st2, Inl err)
                                  | Inr (lg', batch) \<Rightarrow>
                                      (st2\<lparr>rs_logs := (partial, lg') # rs_logs st2\<rparr>,
                                       Inr (append_of batch False))))))))"

definition outputs_of_entries :: "json list \<Rightarrow> domain_error + json list" where
  "outputs_of_entries entries =
     (if list_all (\<lambda>e. the_list (json_get ''outputs'' e) \<noteq> None) entries
      then Inr (concat (map (\<lambda>e. the (the_list (json_get ''outputs'' e))) entries))
      else Inl RuntimeValueError)"

text \<open>\<open>{**header, ...}\<close>: later keys replace earlier ones and keep their place.\<close>

fun dict_update :: "json \<Rightarrow> (string \<times> json) list \<Rightarrow> json" where
  "dict_update (JObj kvs) new = JObj (foldl (\<lambda>acc (k, v). dict_set k v acc) kvs new)"
| "dict_update j new = JObj new"

definition manifest_of ::
    "output_log \<Rightarrow> string \<Rightarrow> int option \<Rightarrow> string option \<Rightarrow> json list \<Rightarrow> json \<Rightarrow> string \<Rightarrow> json" where
  "manifest_of lg state_name execution_count error_message outputs summary completed_at =
     dict_update (ol_header lg)
       [(''state'', JStr state_name), (''complete'', JBool (state_name \<in> {''FINALIZED'', ''FAILED''})),
        (''outputs'', JList outputs), (''output_count'', JInt (ol_output_count lg)),
        (''representation_count'', JInt (ol_representation_count lg)),
        (''total_size_bytes'', JInt (ol_total_size_bytes lg)),
        (''execution_count'', json_opt_int execution_count),
        (''error_message'', json_opt_str (map_option (take 2000) error_message)),
        (''output_summary'', summary), (''updated_at'', JStr completed_at), (''completed_at'', JStr completed_at)]"

definition move_path :: "path \<Rightarrow> path \<Rightarrow> path \<Rightarrow> path" where
  "move_path old new p = (if prefix old p then new @ drop (length old) p else p)"

definition rename_directory :: "path \<Rightarrow> path \<Rightarrow> result_store \<Rightarrow> result_store" where
  "rename_directory old new st =
     st\<lparr>rs_files := map (\<lambda>(p, body). (move_path old new p, body)) (rs_files st),
        rs_dirs := map (move_path old new) (rs_dirs st)\<rparr>"

definition unlink :: "path \<Rightarrow> result_store \<Rightarrow> result_store \<times> (domain_error + unit)" where
  "unlink p st =
     (if map_of (rs_files st) p = None then (st, Inl StorageFileNotFoundError)
      else (st\<lparr>rs_files := filter (\<lambda>(q, _). q \<noteq> p) (rs_files st)\<rparr>, Inr ()))"

definition publish ::
    "(string \<Rightarrow> string) \<Rightarrow> path \<Rightarrow> path \<Rightarrow> json \<Rightarrow> result_store \<Rightarrow>
       result_store \<times> (domain_error + step_result_descriptor)" where
  "publish sha256 partial final manifest st =
     (let st1 = atomic_json_write (partial @ [''manifest.json'']) manifest st in
      case unlink (partial @ [''.state.json'']) st1 of
        (st2, Inl err) \<Rightarrow> (st2, Inl err)
      | (st2, Inr _) \<Rightarrow>
          (case unlink (partial @ [OUTPUT_LOG]) st2 of
             (st3, Inl err) \<Rightarrow> (st3, Inl err)
           | (st3, Inr _) \<Rightarrow>
               (let st4 = rename_directory partial final
                      (st3\<lparr>rs_logs := filter (\<lambda>(p, _). p \<noteq> partial) (rs_logs st3)\<rparr>)
                in (st4, load_terminal_descriptor sha256 final st4))))"

definition seal ::
    "(string \<Rightarrow> string) \<Rightarrow> string \<Rightarrow> step_result_identity \<Rightarrow> string \<Rightarrow> int option \<Rightarrow> string option \<Rightarrow>
       result_store \<Rightarrow> result_store \<times> (domain_error + step_result_descriptor)" where
  "seal sha256 now identity state_name execution_count error_message st =
     (if state_name \<notin> set TERMINAL_STATES then (st, Inl ResultStorageError)
      else
        (case result_directory st identity of
           Inl err \<Rightarrow> (st, Inl err)
         | Inr final \<Rightarrow>
             if exists_in st final then
               (st, bind_res (load_terminal_descriptor sha256 final st) (\<lambda>descriptor.
                  if rd_state descriptor \<noteq> state_name then Inl ResultStorageError else Inr descriptor))
             else
               (case partial_directory st True identity of
                  Inl err \<Rightarrow> (st, Inl err)
                | Inr partial \<Rightarrow>
                    (case open_log partial identity st of
                       (st1, Inl err) \<Rightarrow> (st1, Inl err)
                     | (st1, Inr lg) \<Rightarrow>
                         (case read_log (partial @ [OUTPUT_LOG]) False st1 of
                            (st2, Inl err) \<Rightarrow> (st2, Inl err)
                          | (st2, Inr entries) \<Rightarrow>
                              (case bind_res (outputs_of_entries entries) (\<lambda>outputs.
                                      bind_res (output_summary_json outputs) (\<lambda>summary. Inr (outputs, summary))) of
                                 Inl err \<Rightarrow> (st2, Inl err)
                               | Inr (outputs, summary) \<Rightarrow>
                                   publish sha256 partial final
                                     (manifest_of lg state_name execution_count error_message outputs summary now) st2))))))"

text \<open>\<open>result_storage/__init__.py\<close>: the two ways a result ends.\<close>

definition finalize_step_result ::
    "(string \<Rightarrow> string) \<Rightarrow> string \<Rightarrow> step_result_identity \<Rightarrow> int option \<Rightarrow> string option \<Rightarrow> result_store \<Rightarrow>
       result_store \<times> (domain_error + step_result_descriptor)" where
  "finalize_step_result sha256 now identity execution_count error_message st =
     seal sha256 now identity (if str_truthy error_message then ''FAILED'' else ''FINALIZED'')
       execution_count error_message st"

definition abort_step_result ::
    "(string \<Rightarrow> string) \<Rightarrow> string \<Rightarrow> step_result_identity \<Rightarrow> string \<Rightarrow> result_store \<Rightarrow>
       result_store \<times> (domain_error + step_result_descriptor)" where
  "abort_step_result sha256 now identity reason st =
     seal sha256 now identity ''ABORTED'' None (Some reason) st"

fun notebook_outputs ::
    "(string \<Rightarrow> string) \<Rightarrow> files \<Rightarrow> path \<Rightarrow> json list \<Rightarrow> domain_error + json list" where
  "notebook_outputs sha256 fs dir [] = Inr []"
| "notebook_outputs sha256 fs dir (v # vs) =
     bind_res (notebook_output sha256 fs dir v) (\<lambda>x.
     bind_res (notebook_outputs sha256 fs dir vs) (\<lambda>xs. Inr (x # xs)))"

definition read_projection ::
    "(string \<Rightarrow> string) \<Rightarrow> step_result_reference \<Rightarrow> result_store \<Rightarrow> domain_error + step_result_projection" where
  "read_projection sha256 ref st =
     bind_res (resolve_reference (rs_files st) (sy_relative_path ref)) (\<lambda>manifest_path.
     bind_res (read_file (rs_files st) manifest_path) (\<lambda>body.
     if sha256 body \<noteq> sy_checksum_sha256 ref then Inl ResultStorageError
     else bind_res (load_bytes body) (\<lambda>manifest.
     if \<not> is_obj manifest then Inl RuntimeValueError
     else
       (case json_get ''identity'' manifest of
          Some (JObj i) \<Rightarrow>
            if str_get ''execution_attempt_id'' ''None'' (JObj i) \<noteq> uuid_str (sy_execution_attempt_id ref) \<or>
               \<not> json_int_eq (json_get ''fencing_token'' (JObj i)) (sy_fencing_token ref) then Inl ResultStorageError
            else
              (case the_list (json_get ''outputs'' manifest) of
                 None \<Rightarrow> Inl ResultStorageError
               | Some outputs \<Rightarrow>
                   (let execution_count = (case json_get ''execution_count'' manifest of None \<Rightarrow> JNull | Some n \<Rightarrow> n) in
                    if (case execution_count of JNull \<Rightarrow> False | JInt _ \<Rightarrow> False | _ \<Rightarrow> True) then Inl ResultStorageError
                    else bind_res (notebook_outputs sha256 (rs_files st) (butlast manifest_path) outputs) (\<lambda>xs.
                      Inr \<lparr>sj_outputs = xs, sj_execution_count = execution_count\<rparr>)))
        | _ \<Rightarrow> Inl ResultStorageError))))"

text \<open>Removing a partial directory; the counters another process holds in memory are its own.\<close>

definition remove_partial_files :: "step_result_identity \<Rightarrow> result_store \<Rightarrow> result_store \<times> (domain_error + unit)" where
  "remove_partial_files identity st =
     (case partial_directory st False identity of
        Inl err \<Rightarrow> (st, Inl err)
      | Inr partial \<Rightarrow>
          (st\<lparr>rs_files := filter (\<lambda>(p, _). \<not> prefix partial p) (rs_files st),
              rs_dirs := filter (\<lambda>p. \<not> prefix partial p) (rs_dirs st)\<rparr>, Inr ()))"

subsection \<open>The log as text\<close>

lemma complete_lines_torn:
  assumes "CHR 0x0A \<notin> set t"
  shows "complete_lines (body @ t) = complete_lines body"
proof -
  have "dropWhile (\<lambda>c. c \<noteq> CHR 0x0A) (rev t @ rev body) = dropWhile (\<lambda>c. c \<noteq> CHR 0x0A) (rev body)"
    using assms by (intro dropWhile_append2) auto
  then show ?thesis by (simp add: complete_lines_def)
qed

lemma complete_lines_end [simp]: "complete_lines [] = []" "complete_lines (body @ [CHR 0x0A]) = body @ [CHR 0x0A]"
  by (simp_all add: complete_lines_def)

definition log_text :: "json list \<Rightarrow> string" where
  "log_text entries = concat (map log_line entries)"

lemma log_text_simps [simp]:
  "log_text [] = []" "log_text (e # es) = log_line e @ log_text es" "log_text (es @ fs) = log_text es @ log_text fs"
  by (simp_all add: log_text_def)

lemma complete_log_text [simp]: "complete_lines (log_text es) = log_text es"
proof (cases es rule: rev_cases)
  case (snoc fs e)
  have "log_text es = (log_text fs @ json_dumps_utf8 e) @ [CHR 0x0A]" by (simp add: snoc log_line_def)
  then show ?thesis by (simp only: complete_lines_end)
qed simp

lemma split_first_line:
  "\<forall>c\<in>set l. \<not> eol c \<Longrightarrow> eol (CHR 0x0A) \<Longrightarrow>
     split_lines eol cur (l @ [CHR 0x0A] @ r) = (rev cur @ l) # split_lines eol [] r"
  by (induction l arbitrary: cur) (auto split: list.splits)

lemma dumps_no_eol:
  assumes "json_ok j" and "c \<in> set (json_dumps_utf8 j)"
  shows "\<not> bytes_eol c"
proof
  assume "bytes_eol c"
  then have c: "c = CHR 0x0A \<or> c = CHR 0x0D" by (simp add: bytes_eol_def)
  then have "(of_char c :: nat) < 128" by auto
  then have "c \<in> set (dumps_with utf8_escape j)" using utf8_newline assms(2) by (auto simp: json_dumps_utf8_def)
  then show False using utf8.dumps_one_line [OF c assms(1)] by simp
qed

lemma split_log_text: "\<forall>e\<in>set es. json_ok e \<Longrightarrow> split_lines bytes_eol [] (log_text es) = map json_dumps_utf8 es"
proof (induction es)
  case (Cons e es)
  have "split_lines bytes_eol [] (json_dumps_utf8 e @ [CHR 0x0A] @ log_text es) =
      (rev [] @ json_dumps_utf8 e) # split_lines bytes_eol [] (log_text es)"
    by (rule split_first_line) (use Cons.prems dumps_no_eol in \<open>auto simp: bytes_eol_def\<close>)
  then show ?case using Cons by (simp add: log_line_def)
qed simp

lemma load_bytes_dumps: "json_ok j \<Longrightarrow> load_bytes (json_dumps_utf8 j) = Inr (json_sorted j)"
  by (simp add: load_bytes_def json_dumps_utf8_def utf8.loads_dumps)

lemma load_lines_dumps: "\<forall>e\<in>set es. json_ok e \<Longrightarrow> load_lines (map json_dumps_utf8 es) = Inr (map json_sorted es)"
  by (induction es) (simp_all add: load_bytes_dumps)

lemma map_of_put_file [simp]: "map_of (put_file p body fs) q = (if q = p then Some body else map_of fs q)"
proof (induction fs)
  case (Cons x fs)
  then show ?case by (cases x) (auto simp: put_file_def split: if_split_asm)
qed (simp add: put_file_def)

lemma read_log_text:
  assumes "map_of (rs_files st) p = Some (log_text es @ t)" and "CHR 0x0A \<notin> set t" and "\<forall>e\<in>set es. json_ok e"
  shows "read_log p repair st =
    (if repair \<and> t \<noteq> [] then put p (log_text es) st else st, Inr (map json_sorted es))"
  using assms by (simp add: read_log_def complete_lines_torn split_log_text load_lines_dumps)

subsection \<open>Counters do not depend on the order of keys\<close>

lemma the_list_sorted:
  assumes "json_ok j"
  shows "the_list (json_get k (json_sorted j)) = map_option (map json_sorted) (the_list (json_get k j))"
proof (cases "json_get k j")
  case (Some v)
  then show ?thesis using assms by (cases v) (simp_all add: json_get_sorted)
qed (simp add: json_get_sorted assms)

lemma size_of_item_sorted: "json_ok v \<Longrightarrow> size_of_item (json_sorted v) = size_of_item v"
  by (auto simp: size_of_item_def json_get_sorted split: option.splits json.splits)

lemma those_sizes_sorted: "\<forall>v\<in>set vs. json_ok v \<Longrightarrow> those (map size_of_item (map json_sorted vs)) = those (map size_of_item vs)"
  by (induction vs) (auto simp: size_of_item_sorted split: option.splits)

lemma json_ok_list: "json_ok j \<Longrightarrow> the_list (json_get k j) = Some vs \<Longrightarrow> \<forall>v\<in>set vs. json_ok v"
  by (cases "json_get k j" rule: the_list.cases) (auto simp: list_all_iff dest: json_ok_get)

lemma item_sizes_sorted: "\<forall>v\<in>set outputs. json_ok v \<Longrightarrow> item_sizes (map json_sorted outputs) = item_sizes outputs"
proof (induction outputs)
  case (Cons x xs)
  have "those (map (size_of_item \<circ> json_sorted) items) = those (map size_of_item items)"
    if "the_list (json_get ''representations'' x) = Some items" for items
    using json_ok_list [OF _ that] Cons.prems those_sizes_sorted [of items] by simp
  then show ?case using Cons
    by (cases "the_list (json_get ''representations'' x)") (simp_all add: the_list_sorted)
qed simp

lemma log_add_sorted:
  assumes "json_ok entry" and "json_get ''request_sha256'' entry = Some (JStr digest)"
    and "json_get ''batch_id'' entry = Some (JStr key)"
  shows "log_add (json_sorted entry) lg = log_add entry lg"
proof -
  have fields: "json_get ''request_sha256'' (json_sorted entry) = Some (JStr digest)"
    "json_get ''batch_id'' (json_sorted entry) = Some (JStr key)"
    using assms by (simp_all add: json_get_sorted)
  show ?thesis
  proof (cases "the_list (json_get ''outputs'' entry)")
    case (Some outputs)
    have "item_sizes (map json_sorted outputs) = item_sizes outputs"
      using json_ok_list [OF assms(1) Some] by (rule item_sizes_sorted)
    then show ?thesis using assms Some fields
      by (cases "item_sizes outputs") (simp_all add: log_add_def the_list_sorted Let_def)
  qed (use assms fields in \<open>simp add: log_add_def the_list_sorted\<close>)
qed

lemma log_add_all_append:
  "log_add_all (es @ fs) lg = bind_res (log_add_all es lg) (log_add_all fs)"
  by (induction es arbitrary: lg) (auto simp: bind_res_def split: sum.splits)

subsection \<open>What an append writes\<close>

lemma persist_representations_frame:
  assumes "\<And>name. p \<noteq> partial @ [''outputs'', name]"
  shows "map_of (fst (persist_representations sha partial rel n kind i rs fs)) p = map_of fs p"
  using assms
  by (induction sha partial rel n kind i rs fs rule: persist_representations.induct)
    (auto simp: Let_def case_prod_beta split: sum.splits)

lemma persist_record_frame:
  assumes "\<And>name. p \<noteq> partial @ [''outputs'', name]"
  shows "map_of (fst (persist_record sha now partial rel n r fs)) p = map_of fs p"
  using persist_representations_frame [OF assms, of sha rel n "map ascii_upper (ro_kind r)" 0 "ro_representations r" fs]
  by (auto simp: persist_record_def Let_def split: prod.splits sum.splits)

lemma persist_records_frame:
  assumes "\<And>name. p \<noteq> partial @ [''outputs'', name]"
  shows "map_of (fst (persist_records sha now partial rel n rs fs)) p = map_of fs p"
  using assms
proof (induction rs arbitrary: n fs)
  case (Cons r rs)
  show ?case
    using persist_record_frame [OF assms, of sha now rel n r fs] Cons.IH [OF assms]
    by (auto simp: Let_def case_prod_beta split: prod.splits sum.splits)
qed simp

definition record_ok :: "runtime_output_record \<Rightarrow> bool" where
  "record_ok r \<longleftrightarrow> json_ok (ro_metadata r) \<and> list_all (\<lambda>x. json_ok (or_metadata x)) (ro_representations r)"

lemma json_ok_opt [simp]: "json_ok (json_opt_str s)" "json_ok (json_opt_int n)"
  by (simp_all add: json_opt_str_def json_opt_int_def split: option.splits)

lemma persist_representations_ok:
  assumes "list_all (\<lambda>x. json_ok (or_metadata x)) rs"
    and "persist_representations sha partial rel n kind i rs fs = (fs', Inr entries)"
  shows "list_all json_ok entries \<and> (\<exists>sizes. those (map size_of_item entries) = Some sizes \<and> length sizes = length rs)"
  using assms
proof (induction rs arbitrary: i fs entries)
  case (Cons r rs)
  then obtain body fs1 es where b: "representation_body (or_encoding r) (or_content r) = Inr body"
    and rest: "persist_representations sha partial rel n kind (Suc i) rs fs1 = (fs', Inr es)"
    and e: "entries = representation_entry sha rel (output_filename n kind i (strip (map char_lower (or_media_type r)))) r body # es"
    by (auto simp: Let_def case_prod_beta bind_res_def split: sum.splits) (metis prod.collapse)
  then show ?case using Cons.IH [OF _ rest] Cons.prems(1)
    by (auto simp: representation_entry_def size_of_item_def)
qed simp

lemma persist_record_ok:
  assumes "record_ok r" and "persist_record sha now partial rel n r fs = (fs', Inr output)"
  shows "json_ok output \<and> (\<exists>sizes. item_sizes [output] = Some sizes \<and> length sizes = length (ro_representations r))"
proof -
  obtain entries where p: "persist_representations sha partial rel n (map ascii_upper (ro_kind r)) 0 (ro_representations r) fs = (fs', Inr entries)"
    and o: "output = output_entry now n (map ascii_upper (ro_kind r)) r entries"
    using assms(2) by (auto simp: persist_record_def Let_def split: if_split_asm prod.splits sum.splits)
  then show ?thesis
    using persist_representations_ok [OF _ p] assms(1) by (auto simp: record_ok_def output_entry_def)
qed

lemma item_sizes_Cons: "item_sizes (x # xs) = Option.bind (item_sizes [x]) (\<lambda>a. map_option ((@) a) (item_sizes xs))"
proof (cases "the_list (json_get ''representations'' x)")
  case (Some items)
  then show ?thesis by (cases "those (map size_of_item items)"; cases "item_sizes xs") simp_all
qed simp

lemma persist_records_ok:
  assumes "list_all record_ok rs" and "persist_records sha now partial rel n rs fs = (fs', Inr outputs)"
  shows "list_all json_ok outputs \<and> length outputs = length rs \<and>
    (\<exists>sizes. item_sizes outputs = Some sizes \<and> int (length sizes) = (\<Sum>r\<leftarrow>rs. int (length (ro_representations r))))"
  using assms
proof (induction rs arbitrary: n fs outputs)
  case (Cons r rs)
  obtain fs1 x where x: "persist_record sha now partial rel n r fs = (fs1, Inr x)"
    using Cons.prems(2) by (auto split: prod.splits sum.splits)
  then obtain xs where xs: "persist_records sha now partial rel (Suc n) rs fs1 = (fs', Inr xs)" and o: "outputs = x # xs"
    using Cons.prems(2) by (auto simp: Let_def bind_res_def split: prod.splits sum.splits)
  obtain a where a: "json_ok x" "item_sizes [x] = Some a" "length a = length (ro_representations r)"
    using persist_record_ok [OF _ x] Cons.prems(1) by auto
  obtain b where b: "list_all json_ok xs" "length xs = length rs" "item_sizes xs = Some b"
    "int (length b) = (\<Sum>r\<leftarrow>rs. int (length (ro_representations r)))"
    using Cons.IH [OF _ xs] Cons.prems(1) by auto
  have "item_sizes outputs = Some (a @ b)" by (subst o, subst item_sizes_Cons) (simp only: a b bind.bind_lunit option.map)
  then show ?case using a b by (simp add: o del: item_sizes.simps)
qed simp

end
