(* ===== verification/Result_Properties.thy ===== *)
theory Result_Properties
  imports Step_Results
begin

text \<open>
  What the result store guarantees: an interrupted append is repaired, the counters in memory are those
  a restarted writer would read from disk, a batch is stored once however often it is sent, and a sealed
  result is immutable and reads back as it was written.
\<close>

subsection \<open>A torn append\<close>

lemma torn_no_newline:
  assumes "strict_prefix t (log_line e)" and "json_ok e"
  shows "CHR 0x0A \<notin> set t"
proof -
  have "prefix t (json_dumps_utf8 e)"
    using assms(1) by (auto simp: log_line_def strict_prefix_def prefix_append prefix_Cons)
  then show ?thesis using dumps_no_eol [OF assms(2)] by (auto simp: bytes_eol_def dest: set_mono_prefix)
qed

text \<open>
  When a crash leaves any part of the last log line on disk, opening the log again
  reads exactly the batches whose lines were complete, cuts the torn rest off, and the next batch that
  is appended is read back after them.
\<close>

lemma log_repair:
  assumes "map_of (rs_files st) p = Some (log_text es @ t)" and "\<forall>x\<in>set es. json_ok x"
    and "strict_prefix t (log_line e)" and "json_ok e" and "json_ok e'"
  shows "snd (read_log p repair st) = Inr (map json_sorted es) \<and>
    map_of (rs_files (fst (read_log p True st))) p = Some (log_text es) \<and>
    snd (read_log p repair (append_file p (log_line e') (fst (read_log p True st)))) =
      Inr (map json_sorted (es @ [e']))"
proof -
  note t = torn_no_newline [OF assms(3,4)]
  have r: "read_log p b st = (if b \<and> t \<noteq> [] then put p (log_text es) st else st, Inr (map json_sorted es))" for b
    by (rule read_log_text [OF assms(1) t assms(2)])
  have stored: "map_of (rs_files (fst (read_log p True st))) p = Some (log_text es)"
    using r [of True] assms(1) by (simp add: put_def)
  let ?st = "append_file p (log_line e') (fst (read_log p True st))"
  have "map_of (rs_files ?st) p = Some (log_text (es @ [e']) @ [])"
    using stored by (simp add: append_file_def put_def)
  from read_log_text [OF this] assms(2,5)
  have "snd (read_log p repair ?st) = Inr (map json_sorted (es @ [e']))" by simp
  then show ?thesis using r [of repair] stored by simp
qed

subsection \<open>Memory and disk\<close>

lemma split_lines_concat:
  assumes "eol CHR 0x0A"
  shows "split_lines eol cur (a @ CHR 0x0A # r) = split_lines eol cur (a @ [CHR 0x0A]) @ split_lines eol [] r"
proof (induction "length a" arbitrary: a cur rule: less_induct)
  case less
  show ?case
  proof (cases a)
    case Nil
    then show ?thesis using assms by (cases r) auto
  next
    case (Cons c cs)
    note ih = less [of cs] less [of "tl cs"]
    show ?thesis
    proof (cases "eol c")
      case False
      then show ?thesis using ih(1) Cons by simp
    next
      case True
      show ?thesis
      proof (cases cs)
        case Nil
        then show ?thesis using True Cons assms ih(1) [of "[]"] by (cases r) auto
      next
        case (Cons d ds)
        then show ?thesis using True \<open>a = c # cs\<close> ih [of "[]"] by auto
      qed
    qed
  qed
qed

lemma load_lines_append: "load_lines (ls @ ms) = bind_res (load_lines ls) (\<lambda>vs. bind_res (load_lines ms) (\<lambda>ws. Inr (vs @ ws)))"
  by (induction ls) (auto simp: bind_res_def split: sum.splits)

definition complete_log :: "string \<Rightarrow> json list \<Rightarrow> bool" where
  "complete_log body es \<longleftrightarrow> complete_lines body = body \<and> load_lines (split_lines bytes_eol [] body) = Inr es"

lemma complete_lines_cases: "complete_lines body = body \<Longrightarrow> body = [] \<or> (\<exists>a. body = a @ [CHR 0x0A])"
proof (cases body rule: rev_cases)
  case (snoc a c)
  assume c: "complete_lines body = body"
  have "c = CHR 0x0A"
  proof (rule ccontr)
    assume "c \<noteq> CHR 0x0A"
    then have "complete_lines body = complete_lines a" using complete_lines_torn [of "[c]" a] snoc by simp
    moreover have "length (complete_lines a) \<le> length a"
      using length_dropWhile_le [of _ "rev a"] by (simp add: complete_lines_def)
    ultimately show False using c snoc by simp
  qed
  then show ?thesis using snoc by simp
qed simp

lemma complete_lines_idem: "complete_lines (complete_lines body) = complete_lines body"
  by (simp add: complete_lines_def dropWhile_idem)

lemma complete_log_snoc:
  assumes "complete_log body es" and "json_ok e"
  shows "complete_log (body @ log_line e) (es @ [json_sorted e])"
proof -
  have line: "load_lines (split_lines bytes_eol [] (log_line e)) = Inr [json_sorted e]"
    using split_log_text [of "[e]"] load_lines_dumps [of "[e]"] assms(2) by simp
  have "split_lines bytes_eol [] (body @ log_line e) = split_lines bytes_eol [] body @ split_lines bytes_eol [] (log_line e)"
    using assms(1) split_lines_concat [of bytes_eol "[]" _ "log_line e"]
    by (auto simp: complete_log_def bytes_eol_def dest!: complete_lines_cases)
  moreover have "complete_lines (body @ log_line e) = body @ log_line e"
    using complete_lines_end(2) [of "body @ json_dumps_utf8 e"] by (simp add: log_line_def)
  ultimately show ?thesis using assms(1) line by (simp add: complete_log_def load_lines_append)
qed

definition log_on_disk :: "result_store \<Rightarrow> path \<Rightarrow> json \<Rightarrow> json list \<Rightarrow> bool" where
  "log_on_disk st partial header es \<longleftrightarrow>
     load_state partial st = Inr header \<and> json_get ''state'' header = Some (JStr ''OPEN'') \<and>
     (\<exists>body. map_of (rs_files st) (partial @ [OUTPUT_LOG]) = Some body \<and> complete_log body es)"

text \<open>Every log in memory belongs to a partial directory and is the one on disk.\<close>

definition log_consistent :: "result_store \<Rightarrow> path \<Rightarrow> output_log \<Rightarrow> bool" where
  "log_consistent st partial lg \<longleftrightarrow>
     (\<exists>header es. log_on_disk st partial header es \<and> log_add_all es (new_output_log header) = Inr lg)"

definition logs_consistent :: "result_store \<Rightarrow> bool" where
  "logs_consistent st \<longleftrightarrow>
     (\<forall>partial lg. map_of (rs_logs st) partial = Some lg \<longrightarrow> length partial = 10 \<and> log_consistent st partial lg)"

lemma log_consistent_frame:
  assumes "log_consistent st p lg"
    and "map_of (rs_files st') (p @ [OUTPUT_LOG]) = map_of (rs_files st) (p @ [OUTPUT_LOG])"
    and "map_of (rs_files st') (p @ [''.state.json'']) = map_of (rs_files st) (p @ [''.state.json''])"
  shows "log_consistent st' p lg"
  using assms by (simp add: log_consistent_def log_on_disk_def load_state_def)

lemma log_on_disk_logs [simp]: "log_on_disk (st\<lparr>rs_logs := ls\<rparr>) p header es = log_on_disk st p header es"
  by (simp add: log_on_disk_def load_state_def)

lemma log_consistent_logs [simp]: "log_consistent (st\<lparr>rs_logs := ls\<rparr>) p lg = log_consistent st p lg"
  by (simp add: log_consistent_def)

lemma read_log_repair:
  assumes "read_log p True st = (st1, Inr es)"
  obtains body where "map_of (rs_files st1) p = Some body" and "complete_log body es"
    and "rs_logs st1 = rs_logs st" and "rs_dirs st1 = rs_dirs st"
    and "\<And>q. q \<noteq> p \<Longrightarrow> map_of (rs_files st1) q = map_of (rs_files st) q"
proof -
  obtain body where b: "map_of (rs_files st) p = Some body" using assms by (auto simp: read_log_def split: option.splits)
  have eq: "complete_lines body = body" if "length (complete_lines body) = length body"
  proof -
    let ?d = "dropWhile (\<lambda>c. c \<noteq> CHR 0x0A) (rev body)"
    have "rev body = takeWhile (\<lambda>c. c \<noteq> CHR 0x0A) (rev body) @ ?d" by simp
    moreover from this have "takeWhile (\<lambda>c. c \<noteq> CHR 0x0A) (rev body) = []"
      using that by (metis add_right_cancel add_0 complete_lines_def length_0_conv length_append length_rev)
    ultimately have "?d = rev body" by simp
    then show ?thesis by (simp add: complete_lines_def)
  qed
  show ?thesis
  proof (rule that [of "complete_lines body"])
    show "map_of (rs_files st1) p = Some (complete_lines body)"
      using assms b eq by (auto simp: read_log_def put_def Let_def split: if_split_asm)
  qed (use assms b in \<open>auto simp: read_log_def put_def Let_def complete_log_def complete_lines_idem split: if_split_asm\<close>)
qed

lemma read_log_frame:
  "rs_logs (fst (read_log p b st)) = rs_logs st \<and> rs_dirs (fst (read_log p b st)) = rs_dirs st \<and>
   (\<forall>q. q \<noteq> p \<longrightarrow> map_of (rs_files (fst (read_log p b st))) q = map_of (rs_files st) q)"
  by (auto simp: read_log_def put_def Let_def split: option.splits)

definition log_frame :: "path \<Rightarrow> result_store \<Rightarrow> result_store \<Rightarrow> bool" where
  "log_frame partial st st' \<longleftrightarrow>
     rs_dirs st' = rs_dirs st \<and>
     (\<forall>q. q \<noteq> partial @ [OUTPUT_LOG] \<longrightarrow> map_of (rs_files st') q = map_of (rs_files st) q)"

lemma state_file_not_log [simp]: "OUTPUT_LOG \<noteq> ''.state.json''" "''.state.json'' \<noteq> OUTPUT_LOG"
  by (simp_all add: OUTPUT_LOG_def)

lemma logs_consistent_frame:
  assumes "logs_consistent st" and "rs_logs st' = rs_logs st"
    and "\<And>p name. map_of (rs_logs st) p \<noteq> None \<Longrightarrow> name \<in> {OUTPUT_LOG, ''.state.json''} \<Longrightarrow>
      map_of (rs_files st') (p @ [name]) = map_of (rs_files st) (p @ [name])"
  shows "logs_consistent st'"
  unfolding logs_consistent_def
proof (intro allI impI)
  fix p lg
  assume "map_of (rs_logs st') p = Some lg"
  then have lg: "map_of (rs_logs st) p = Some lg" using assms(2) by simp
  then have "length p = 10" "log_consistent st p lg" using assms(1) by (simp_all add: logs_consistent_def)
  moreover have "log_consistent st' p lg"
    by (rule log_consistent_frame [OF \<open>log_consistent st p lg\<close>]) (rule assms(3); simp add: lg)+
  ultimately show "length p = 10 \<and> log_consistent st' p lg" by simp
qed

lemma logs_consistent_cons:
  "logs_consistent st \<Longrightarrow> length p = 10 \<Longrightarrow> log_consistent st p lg \<Longrightarrow> logs_consistent (st\<lparr>rs_logs := (p, lg) # rs_logs st\<rparr>)"
  by (auto simp: logs_consistent_def)

lemma fetch_log_consistent:
  assumes cons: "logs_consistent st" and len: "length partial = 10" and f: "fetch_log partial st = (st1, r)"
  shows "logs_consistent st1 \<and> log_frame partial st st1 \<and> (\<forall>lg. r = Inr lg \<longrightarrow> map_of (rs_logs st1) partial = Some lg)"
proof (cases "map_of (rs_logs st) partial")
  case (Some lg)
  then show ?thesis using cons f by (auto simp: fetch_log_def log_frame_def)
next
  case None
  let ?rd = "read_log (partial @ [OUTPUT_LOG]) True st"
  have rd: "rs_logs (fst ?rd) = rs_logs st" "log_frame partial st (fst ?rd)"
    using read_log_frame [of "partial @ [OUTPUT_LOG]" True st] by (simp_all add: log_frame_def)
  have rdc: "logs_consistent (fst ?rd)"
  proof (rule logs_consistent_frame [OF cons rd(1)])
    fix p name
    assume "map_of (rs_logs st) p \<noteq> None"
    then have "p \<noteq> partial" using None by auto
    then show "map_of (rs_files (fst ?rd)) (p @ [name]) = map_of (rs_files st) (p @ [name])"
      using rd(2) by (simp add: log_frame_def)
  qed
  have refl: "log_frame partial st st" by (simp add: log_frame_def)
  show ?thesis
  proof (cases r)
    case (Inl err)
    then have "st1 = st \<or> st1 = fst ?rd"
      using f None by (auto simp: fetch_log_def split: sum.splits prod.splits if_split_asm)
    then show ?thesis using Inl cons refl rdc rd by auto
  next
    case (Inr lg)
    then obtain header es where h: "load_state partial st = Inr header" "json_get ''state'' header = Some (JStr ''OPEN'')"
      "snd ?rd = Inr es" "log_add_all es (new_output_log header) = Inr lg"
      "st1 = (fst ?rd)\<lparr>rs_logs := (partial, lg) # rs_logs (fst ?rd)\<rparr>"
      using f None by (auto simp: fetch_log_def split: sum.splits prod.splits if_split_asm)
    obtain body where body: "map_of (rs_files (fst ?rd)) (partial @ [OUTPUT_LOG]) = Some body" "complete_log body es"
      by (rule read_log_repair [of "partial @ [OUTPUT_LOG]" st "fst ?rd" es]) (use h(3) in \<open>auto simp: prod_eq_iff\<close>)
    have "load_state partial (fst ?rd) = Inr header" using h(1) rd(2) by (simp add: load_state_def log_frame_def)
    then have "log_consistent (fst ?rd) partial lg"
      unfolding log_consistent_def log_on_disk_def using h body by blast
    then show ?thesis using h(5) Inr rd logs_consistent_cons [OF rdc len] by (simp add: log_frame_def)
  qed
qed

text \<open>A log in memory and the same log read again from disk.\<close>

lemma fetch_log_forget:
  assumes "log_consistent st partial lg"
  shows "fetch_log partial (st\<lparr>rs_logs := []\<rparr>) = (st\<lparr>rs_logs := [(partial, lg)]\<rparr>, Inr lg)"
proof -
  obtain header es body where d: "load_state partial st = Inr header" "json_get ''state'' header = Some (JStr ''OPEN'')"
      "map_of (rs_files st) (partial @ [OUTPUT_LOG]) = Some body" "complete_log body es"
      "log_add_all es (new_output_log header) = Inr lg"
    using assms by (auto simp: log_consistent_def log_on_disk_def)
  then have "read_log (partial @ [OUTPUT_LOG]) True (st\<lparr>rs_logs := []\<rparr>) = (st\<lparr>rs_logs := []\<rparr>, Inr es)"
    by (simp add: read_log_def complete_log_def)
  then show ?thesis using d by (simp add: fetch_log_def load_state_def)
qed

subsection \<open>Appending\<close>

lemma partial_relative_length: "length (partial_relative i) = 10"
  by (simp add: partial_relative_def result_relative_def RESULT_DIRECTORY_def Let_def)

lemma partial_directory_Inr: "partial_directory st b i = Inr p \<Longrightarrow> p = partial_relative i"
  by (simp add: partial_directory_def resolve_relative_Inr_iff)

lemma check_identity_Inr: "check_identity i lg = Inr lg' \<Longrightarrow> lg' = lg"
  by (auto simp: check_identity_def bind_res_def split: sum.splits option.splits if_split_asm)

lemma open_log_Inr: "open_log p i st = (st1, Inr lg) \<Longrightarrow> fetch_log p st = (st1, Inr lg) \<and> check_identity i lg = Inr lg"
  by (auto simp: open_log_def Let_def bind_res_def split: prod.splits sum.splits dest: check_identity_Inr)

lemma open_log_fst: "fst (open_log p i st) = fst (fetch_log p st)"
  by (simp add: open_log_def split: prod.splits)

lemma open_log_consistent:
  assumes "logs_consistent st" and "length p = 10" and "open_log p i st = (st1, r)"
  shows "logs_consistent st1 \<and> log_frame p st st1 \<and> (\<forall>lg. r = Inr lg \<longrightarrow> map_of (rs_logs st1) p = Some lg)"
proof -
  obtain r0 where f: "fetch_log p st = (st1, r0)" using assms(3) open_log_fst [of p i st] by (metis fst_conv prod.collapse)
  then show ?thesis
    using fetch_log_consistent [OF assms(1,2) f] open_log_Inr [of p i st st1] assms(3) by auto
qed

lemma batch_entry_fields [simp]:
  "json_get ''batch_id'' (batch_entry k d os) = Some (JStr k)"
  "json_get ''request_sha256'' (batch_entry k d os) = Some (JStr d)"
  "json_get ''outputs'' (batch_entry k d os) = Some (JList os)"
  by (simp_all add: batch_entry_def)

lemma json_ok_batch_entry: "list_all json_ok os \<Longrightarrow> json_ok (batch_entry k d os)"
  by (simp add: batch_entry_def)

definition batch_of :: "json list \<Rightarrow> int list \<Rightarrow> string \<Rightarrow> output_log \<Rightarrow> batch_receipt" where
  "batch_of os sizes d lg =
     \<lparr>br_request_sha256 = JStr d, br_end_offset = ol_output_count lg + int (length os),
      br_output_count = int (length os), br_representation_count = int (length sizes),
      br_total_size_bytes = sum_list sizes\<rparr>"

definition logged :: "string \<Rightarrow> batch_receipt \<Rightarrow> output_log \<Rightarrow> output_log" where
  "logged k b lg =
     lg\<lparr>ol_output_count := br_end_offset b,
        ol_representation_count := ol_representation_count lg + br_representation_count b,
        ol_total_size_bytes := ol_total_size_bytes lg + br_total_size_bytes b,
        ol_batches := (k, b) # ol_batches lg\<rparr>"

lemma log_add_batch:
  "item_sizes os = Some sizes \<Longrightarrow>
     log_add (batch_entry k d os) lg = Inr (logged k (batch_of os sizes d lg) lg, batch_of os sizes d lg)"
  by (simp add: log_add_def Let_def batch_of_def logged_def)

lemma log_consistent_append:
  assumes "log_consistent st p lg" and "json_ok entry" and "log_add (json_sorted entry) lg = Inr (lg', b)"
  shows "log_consistent (append_file (p @ [OUTPUT_LOG]) (log_line entry) st) p lg'"
proof -
  obtain header es body where d: "load_state p st = Inr header" "json_get ''state'' header = Some (JStr ''OPEN'')"
      "map_of (rs_files st) (p @ [OUTPUT_LOG]) = Some body" "complete_log body es"
      "log_add_all es (new_output_log header) = Inr lg"
    using assms(1) by (auto simp: log_consistent_def log_on_disk_def)
  have "log_add_all (es @ [json_sorted entry]) (new_output_log header) = Inr lg'"
    using d(5) assms(3) by (simp add: log_add_all_append)
  moreover have "log_on_disk (append_file (p @ [OUTPUT_LOG]) (log_line entry) st) p header (es @ [json_sorted entry])"
    using d complete_log_snoc [OF d(4) assms(2)] by (simp add: log_on_disk_def load_state_def append_file_def put_def)
  ultimately show ?thesis by (auto simp: log_consistent_def)
qed

lemma append_outcome:
  assumes ok: "list_all record_ok rs" and p: "partial_directory st True i = Inr p"
    and o: "open_log p i st = (st1, Inr lg)" and new: "map_of (ol_batches lg) (uuid_str b) = None"
    and off: "off = ol_output_count lg" and rs: "rs \<noteq> []"
    and w: "persist_records sha now p (result_relative i) (nat off) rs (rs_files st1) = (fs, Inr os)"
  obtains sizes where "item_sizes os = Some sizes" and "length os = length rs" and "list_all json_ok os"
    and "append_result sha now i off b rs st =
      ((append_file (p @ [OUTPUT_LOG]) (log_line (batch_entry (uuid_str b) (records_digest sha rs) os))
          (st1\<lparr>rs_files := fs\<rparr>))
         \<lparr>rs_logs := (p, logged (uuid_str b) (batch_of os sizes (records_digest sha rs) lg) lg) # rs_logs st1\<rparr>,
       Inr (append_of (batch_of os sizes (records_digest sha rs) lg) False))"
proof -
  obtain sizes where s: "item_sizes os = Some sizes" "length os = length rs" "list_all json_ok os"
    using persist_records_ok [OF ok w] by auto
  show ?thesis
  proof (rule that [OF s])
    show "append_result sha now i off b rs st =
      ((append_file (p @ [OUTPUT_LOG]) (log_line (batch_entry (uuid_str b) (records_digest sha rs) os))
          (st1\<lparr>rs_files := fs\<rparr>))
         \<lparr>rs_logs := (p, logged (uuid_str b) (batch_of os sizes (records_digest sha rs) lg) lg) # rs_logs st1\<rparr>,
       Inr (append_of (batch_of os sizes (records_digest sha rs) lg) False))"
      using p o new off rs w s(1)
      by (simp add: append_result_def log_add_batch append_file_def put_def Let_def)
  qed
qed

lemma persist_records_consistent:
  assumes "logs_consistent st" and "length p = 10"
  shows "logs_consistent (st\<lparr>rs_files := fst (persist_records sha now p rel n rs (rs_files st))\<rparr>)"
proof (rule logs_consistent_frame [OF assms(1)])
  fix q name
  assume "map_of (rs_logs st) q \<noteq> None"
  then have "length q = 10" using assms(1) by (auto simp: logs_consistent_def)
  then have "q @ [name] \<noteq> p @ [''outputs'', x]" for x using assms(2) by (metis length_append length_Cons list.size(3)
    add_left_cancel Suc_eq_plus1 One_nat_def n_not_Suc_n)
  then show "map_of (rs_files (st\<lparr>rs_files := fst (persist_records sha now p rel n rs (rs_files st))\<rparr>)) (q @ [name]) =
      map_of (rs_files st) (q @ [name])"
    by (simp add: persist_records_frame)
qed simp

lemma append_consistent:
  assumes cons: "logs_consistent st" and ok: "list_all record_ok rs"
  shows "logs_consistent (fst (append_result sha now i off b rs st))"
proof (cases "rs = [] \<or> (\<exists>err. partial_directory st True i = Inl err)")
  case True
  then show ?thesis using cons by (auto simp: append_result_def)
next
  case False
  then obtain p where p: "partial_directory st True i = Inr p" by (cases "partial_directory st True i") auto
  have len: "length p = 10" using partial_directory_Inr [OF p] by (simp add: partial_relative_length)
  obtain st1 r where o: "open_log p i st = (st1, r)" by (cases "open_log p i st")
  note c1 = open_log_consistent [OF cons len o]
  show ?thesis
  proof (cases "(\<exists>lg. r = Inr lg \<and> map_of (ol_batches lg) (uuid_str b) = None \<and> off = ol_output_count lg)")
    case False
    then have "fst (append_result sha now i off b rs st) = st1"
      using p o \<open>\<not> (rs = [] \<or> _)\<close> by (auto simp: append_result_def Let_def split: sum.splits option.splits)
    then show ?thesis using c1 by simp
  next
    case True
    then obtain lg where lg: "r = Inr lg" "map_of (ol_batches lg) (uuid_str b) = None" "off = ol_output_count lg" by blast
    obtain fs w where w: "persist_records sha now p (result_relative i) (nat off) rs (rs_files st1) = (fs, w)"
      by (cases "persist_records sha now p (result_relative i) (nat off) rs (rs_files st1)")
    have c2: "logs_consistent (st1\<lparr>rs_files := fs\<rparr>)"
      using persist_records_consistent [of st1 p sha now "result_relative i" "nat off" rs] c1 len w by simp
    show ?thesis
    proof (cases w)
      case (Inl err)
      then have "fst (append_result sha now i off b rs st) = st1\<lparr>rs_files := fs\<rparr>"
        using p o lg w \<open>\<not> (rs = [] \<or> _)\<close> by (simp add: append_result_def Let_def)
      then show ?thesis using c2 by simp
    next
      case (Inr os)
      let ?d = "records_digest sha rs" and ?k = "uuid_str b"
      let ?e = "batch_entry ?k ?d os"
      obtain sizes where s: "item_sizes os = Some sizes" "list_all json_ok os"
        and res: "append_result sha now i off b rs st =
          ((append_file (p @ [OUTPUT_LOG]) (log_line ?e) (st1\<lparr>rs_files := fs\<rparr>))
             \<lparr>rs_logs := (p, logged ?k (batch_of os sizes ?d lg) lg) # rs_logs st1\<rparr>,
           Inr (append_of (batch_of os sizes ?d lg) False))"
        by (rule append_outcome [OF ok p o [unfolded lg(1)] lg(2,3) _ w [unfolded Inr]]) (use False in auto)
      let ?st2 = "append_file (p @ [OUTPUT_LOG]) (log_line ?e) (st1\<lparr>rs_files := fs\<rparr>)"
      have "map_of (rs_logs st1) p = Some lg" using c1 lg(1) by blast
      then have "log_consistent (st1\<lparr>rs_files := fs\<rparr>) p lg" using c2 by (simp add: logs_consistent_def)
      moreover have "log_add (json_sorted ?e) lg = Inr (logged ?k (batch_of os sizes ?d lg) lg, batch_of os sizes ?d lg)"
        using log_add_sorted [OF json_ok_batch_entry [OF s(2)], of ?k ?d] log_add_batch [OF s(1)] by simp
      ultimately have new: "log_consistent ?st2 p (logged ?k (batch_of os sizes ?d lg) lg)"
        by (rule log_consistent_append [OF _ json_ok_batch_entry [OF s(2)]])
      have "length q = 10 \<and> log_consistent ?st2 q lg'" if "map_of (rs_logs st1) q = Some lg'" "q \<noteq> p" for q lg'
        using that c2 log_consistent_frame [of "st1\<lparr>rs_files := fs\<rparr>" q lg' ?st2]
        by (simp add: logs_consistent_def append_file_def put_def)
      then show ?thesis using new len by (auto simp: res logs_consistent_def)
    qed
  qed
qed

lemma open_log_forget:
  assumes "logs_consistent st" and "map_of (rs_logs st) p = Some lg"
  shows "open_log p i (st\<lparr>rs_logs := []\<rparr>) = (st\<lparr>rs_logs := [(p, lg)]\<rparr>, check_identity i lg)"
    and "open_log p i st = (st, check_identity i lg)"
  using fetch_log_forget [of st p lg] assms
  by (simp_all add: open_log_def logs_consistent_def fetch_log_def)

text \<open>
  The counters and batch receipts a writer keeps in memory are exactly those a
  restarted writer reads from the log file: after every append, successful or not, opening the log from
  memory and opening it from disk give the same answer.
\<close>

lemma log_memory_is_disk:
  assumes "logs_consistent st" and "list_all record_ok rs"
    and "append_result sha now i off b rs st = (st', r)"
  shows "logs_consistent st' \<and>
    (\<forall>p j lg. map_of (rs_logs st') p = Some lg \<longrightarrow>
       snd (open_log p j (st'\<lparr>rs_logs := []\<rparr>)) = snd (open_log p j st') \<and>
       snd (fetch_log p (st'\<lparr>rs_logs := []\<rparr>)) = Inr lg)"
proof -
  have c: "logs_consistent st'" using append_consistent [OF assms(1,2), of sha now i off b] assms(3) by simp
  then have "snd (fetch_log p (st'\<lparr>rs_logs := []\<rparr>)) = Inr lg" if "map_of (rs_logs st') p = Some lg" for p lg
    using fetch_log_forget [of st' p lg] that by (simp add: logs_consistent_def)
  then show ?thesis using open_log_forget [OF c] c by simp
qed

lemma logs_consistent_file:
  assumes "logs_consistent st" and "map_of (rs_logs st) p = Some lg"
  obtains body where "map_of (rs_files st) (p @ [OUTPUT_LOG]) = Some body"
proof -
  have "log_consistent st p lg" using assms by (simp add: logs_consistent_def)
  then show ?thesis using that by (auto simp: log_consistent_def log_on_disk_def)
qed

lemma partial_directory_again:
  assumes "partial_directory st True i = Inr p" and "map_of (rs_files st') (p @ [x]) = Some body"
  shows "partial_directory st' True i = Inr p"
proof -
  have "(p @ [x], body) \<in> set (tree st')" using map_of_SomeD [OF assms(2)] by (simp add: tree_def)
  moreover have "prefix p (p @ [x])" by simp
  ultimately have "path_exists (tree st') p" unfolding path_exists_def list_ex_iff by blast
  then show ?thesis using assms(1) by (simp add: partial_directory_def resolve_relative_Inr_iff)
qed

text \<open>What a successful append leaves: the log in memory, with a receipt for the batch.\<close>

lemma append_receipt:
  assumes cons: "logs_consistent st" and ok: "list_all record_ok rs"
    and a: "append_result sha now i off b rs st = (st', Inr a)"
  obtains p lg receipt where "partial_directory st' True i = Inr p" and "map_of (rs_logs st') p = Some lg"
    and "check_identity i lg = Inr lg" and "map_of (ol_batches lg) (uuid_str b) = Some receipt"
    and "br_request_sha256 receipt = JStr (records_digest sha rs)" and "a = append_of receipt (sp_replayed a)"
    and "sp_replayed a \<or> ol_output_count lg = off + int (length rs) \<and> br_end_offset receipt = ol_output_count lg \<and>
      br_output_count receipt = int (length rs) \<and>
      br_representation_count receipt = (\<Sum>r\<leftarrow>rs. int (length (ro_representations r)))"
proof -
  have ne: "rs \<noteq> []" using a by (auto simp: append_result_def)
  obtain p where p: "partial_directory st True i = Inr p"
    using a ne by (cases "partial_directory st True i") (auto simp: append_result_def)
  have len: "length p = 10" using partial_directory_Inr [OF p] by (simp add: partial_relative_length)
  obtain st1 lg where o: "open_log p i st = (st1, Inr lg)"
    using a ne p by (cases "open_log p i st") (auto simp: append_result_def split: sum.splits)
  have lg: "map_of (rs_logs st1) p = Some lg" "check_identity i lg = Inr lg"
    using open_log_consistent [OF cons len o] open_log_Inr [OF o] by auto
  have c: "logs_consistent st'" using append_consistent [OF cons ok, of sha now i off b] a by simp
  have dir: "partial_directory st' True i = Inr p" if l: "map_of (rs_logs st') p = Some lg'" for lg'
  proof -
    obtain body where "map_of (rs_files st') (p @ [OUTPUT_LOG]) = Some body"
      by (rule logs_consistent_file [OF c l])
    then show ?thesis by (rule partial_directory_again [OF p])
  qed
  show ?thesis
  proof (cases "map_of (ol_batches lg) (uuid_str b)")
    case (Some receipt)
    then have r: "st' = st1" "br_request_sha256 receipt = JStr (records_digest sha rs)" "a = append_of receipt True"
      using a ne p o by (auto simp: append_result_def Let_def split: if_split_asm)
    show ?thesis by (rule that [OF dir _ lg(2) Some r(2)]) (use lg r in \<open>auto simp: append_of_def\<close>)
  next
    case None
    then have off: "off = ol_output_count lg"
      using a ne p o by (auto simp: append_result_def Let_def split: if_split_asm)
    obtain fs os where w: "persist_records sha now p (result_relative i) (nat off) rs (rs_files st1) = (fs, Inr os)"
      using a ne p o None off
      by (cases "persist_records sha now p (result_relative i) (nat off) rs (rs_files st1)")
        (auto simp: append_result_def Let_def split: sum.splits)
    let ?d = "records_digest sha rs" and ?k = "uuid_str b"
    obtain sizes where s: "item_sizes os = Some sizes" "length os = length rs"
      and res: "append_result sha now i off b rs st =
        ((append_file (p @ [OUTPUT_LOG]) (log_line (batch_entry ?k ?d os)) (st1\<lparr>rs_files := fs\<rparr>))
           \<lparr>rs_logs := (p, logged ?k (batch_of os sizes ?d lg) lg) # rs_logs st1\<rparr>,
         Inr (append_of (batch_of os sizes ?d lg) False))"
      by (rule append_outcome [OF ok p o None off ne w])
    let ?lg = "logged ?k (batch_of os sizes ?d lg) lg"
    have sz: "int (length sizes) = (\<Sum>r\<leftarrow>rs. int (length (ro_representations r)))"
      using persist_records_ok [OF ok w] s(1) by auto
    have st': "map_of (rs_logs st') p = Some ?lg" "a = append_of (batch_of os sizes ?d lg) False"
      using a res by auto
    show ?thesis
      by (rule that [OF dir [OF st'(1)] st'(1), of "batch_of os sizes ?d lg"])
        (use lg(2) st'(2) off s sz in \<open>auto simp: check_identity_def bind_res_def logged_def batch_of_def append_of_def
          split: sum.splits option.splits if_split_asm\<close>)
  qed
qed

text \<open>
  C7. A batch is stored once. A successful append moves the committed offset by exactly the
  number of its records; sending the batch again, at any offset, by the same or by a restarted writer,
  answers with the first receipt and stores nothing; the same batch identifier with other content is
  refused; and a new batch is refused unless it starts at the committed offset.
\<close>

theorem append_once:
  assumes "logs_consistent st" and "list_all record_ok rs"
    and "append_result sha now i off b rs st = (st', Inr a)"
  shows "(\<not> sp_replayed a \<longrightarrow> sp_committed_offset a = off + int (length rs) \<and> sp_output_count a = int (length rs)) \<and>
    (\<forall>now' off'. append_result sha now' i off' b rs st' = (st', Inr (a\<lparr>sp_replayed := True\<rparr>))) \<and>
    (\<forall>now' off'. snd (append_result sha now' i off' b rs (st'\<lparr>rs_logs := []\<rparr>)) = Inr (a\<lparr>sp_replayed := True\<rparr>)) \<and>
    (\<forall>now' off' rs'. records_digest sha rs' \<noteq> records_digest sha rs \<longrightarrow>
       append_result sha now' i off' b rs' st' = (st', Inl ResultStorageError)) \<and>
    (\<forall>now' off' b' rs' a'. \<not> sp_replayed a \<and> off' \<noteq> sp_committed_offset a \<and>
       snd (append_result sha now' i off' b' rs' st') = Inr a' \<longrightarrow> sp_replayed a')"
proof -
  have c: "logs_consistent st'" using append_consistent [OF assms(1,2), of sha now i off b] assms(3) by simp
  have ne: "rs \<noteq> []" using assms(3) by (auto simp: append_result_def)
  obtain p lg receipt where p: "partial_directory st' True i = Inr p" and lg: "map_of (rs_logs st') p = Some lg"
    and i: "check_identity i lg = Inr lg" and r: "map_of (ol_batches lg) (uuid_str b) = Some receipt"
      "br_request_sha256 receipt = JStr (records_digest sha rs)" and a: "a = append_of receipt (sp_replayed a)"
    and n: "sp_replayed a \<or> ol_output_count lg = off + int (length rs) \<and> br_end_offset receipt = ol_output_count lg \<and>
      br_output_count receipt = int (length rs) \<and>
      br_representation_count receipt = (\<Sum>r\<leftarrow>rs. int (length (ro_representations r)))"
    by (rule append_receipt [OF assms])
  have o: "open_log p i st' = (st', Inr lg)" "open_log p i (st'\<lparr>rs_logs := []\<rparr>) = (st'\<lparr>rs_logs := [(p, lg)]\<rparr>, Inr lg)"
    using open_log_forget [OF c lg, of i] i by simp_all
  have p0: "partial_directory (st'\<lparr>rs_logs := []\<rparr>) True i = Inr p"
    using p by (simp add: partial_directory_def tree_def)
  have again: "a\<lparr>sp_replayed := True\<rparr> = append_of receipt True" by (subst a) (simp add: append_of_def)
  have ends: "sp_committed_offset a = br_end_offset receipt" "sp_output_count a = br_output_count receipt"
    by (subst a, simp add: append_of_def)+
  have "append_result sha now' i off' b rs st' = (st', Inr (a\<lparr>sp_replayed := True\<rparr>))" for now' off'
    using ne p o(1) r by (simp add: append_result_def again)
  moreover have "snd (append_result sha now' i off' b rs (st'\<lparr>rs_logs := []\<rparr>)) = Inr (a\<lparr>sp_replayed := True\<rparr>)" for now' off'
    using ne p0 o(2) r by (simp add: append_result_def again)
  moreover have "append_result sha now' i off' b rs' st' = (st', Inl ResultStorageError)"
    if "records_digest sha rs' \<noteq> records_digest sha rs" for now' off' rs'
    using p o(1) r that by (auto simp: append_result_def)
  moreover have "sp_replayed a'"
    if "\<not> sp_replayed a" "off' \<noteq> sp_committed_offset a" "snd (append_result sha now' i off' b' rs' st') = Inr a'"
    for now' off' b' rs' a'
  proof -
    have "off' \<noteq> ol_output_count lg" using n that(1,2) ends by simp
    then show ?thesis using that(3) p o(1)
      by (auto simp: append_result_def Let_def append_of_def split: option.splits if_split_asm)
  qed
  moreover have "sp_committed_offset a = off + int (length rs) \<and> sp_output_count a = int (length rs)" if "\<not> sp_replayed a"
    using n that ends by simp
  ultimately show ?thesis by blast
qed

end
