(* ===== verification/Result_Sealing.thy ===== *)
theory Result_Sealing
  imports Result_Roundtrip
begin

text \<open>
  Sealing a Step result: the manifest, the directory rename that publishes it, and what is read back.
  The theorem at the end joins this to the life of the result before it: whatever restarts and crashes the
  writer went through, the notebook shows exactly the records whose append was acknowledged, in their order.
\<close>

subsection \<open>The manifest\<close>

lemma map_of_dict_set: "map_of (dict_set k v kvs) k' = (if k' = k then Some v else map_of kvs k')"
  by (induction kvs) auto

lemma keys_dict_set: "fst ` set (dict_set k v kvs) = insert k (fst ` set kvs)"
proof (induction kvs)
  case (Cons a kvs)
  then show ?case by (cases a) (simp, blast)
qed simp

lemma distinct_dict_set: "distinct (map fst kvs) \<Longrightarrow> distinct (map fst (dict_set k v kvs))"
  by (induction kvs) (auto simp: keys_dict_set)

lemma list_all_dict_set: "list_all P kvs \<Longrightarrow> P (k, v) \<Longrightarrow> list_all P (dict_set k v kvs)"
  by (induction kvs) auto

lemma json_ok_dict_set: "json_ok (JObj kvs) \<Longrightarrow> json_ok v \<Longrightarrow> json_ok (JObj (dict_set k v kvs))"
  by (simp add: distinct_dict_set list_all_dict_set)

lemma dict_update_get:
  "json_get k (JObj (foldl (\<lambda>acc (k, v). dict_set k v acc) kvs new)) =
     (case map_of (rev new) k of Some v \<Rightarrow> Some v | None \<Rightarrow> map_of kvs k)"
  by (induction new arbitrary: kvs)
    (auto simp: map_of_dict_set map_add_def map_of_append split: option.splits)

lemma json_get_dict_update:
  "is_obj j \<Longrightarrow> json_get k (dict_update j new) = (case map_of (rev new) k of Some v \<Rightarrow> Some v | None \<Rightarrow> json_get k j)"
  by (cases j) (simp_all only: dict_update.simps dict_update_get is_obj.simps, simp split: option.split)

lemma json_ok_dict_fold:
  "json_ok (JObj kvs) \<Longrightarrow> list_all (\<lambda>(k, v). json_ok v) new \<Longrightarrow>
     json_ok (JObj (foldl (\<lambda>acc (k, v). dict_set k v acc) kvs new))"
  by (induction new arbitrary: kvs) (auto simp: json_ok_dict_set simp del: json_ok.simps)

lemma json_ok_dict_update:
  "is_obj j \<Longrightarrow> json_ok j \<Longrightarrow> list_all (\<lambda>(k, v). json_ok v) new \<Longrightarrow> json_ok (dict_update j new)"
  by (cases j) (simp_all add: json_ok_dict_fold del: json_ok.simps)

lemma is_obj_dict_update [simp]: "is_obj (dict_update j new)"
  by (cases j) simp_all

subsection \<open>The summary of the outputs\<close>

lemma rep_entries_media: "list_all (\<lambda>v. json_get ''media_type'' v \<noteq> None) (rep_entries sha rel n kind i rs)"
  by (induction rs arbitrary: i) (auto split: sum.splits)

lemma output_for_summarisable:
  assumes "output_for sha rel n r x" and "record_ok r" and "kind_ok (map ascii_upper (ro_kind r))"
  shows "summarisable (json_sorted x)"
proof -
  let ?k = "map ascii_upper (ro_kind r)"
  let ?es = "rep_entries sha rel n ?k 0 (ro_representations r)"
  obtain now where x: "x = output_entry now n ?k r ?es" using assms(1) by (auto simp: output_for_def)
  have get: "json_get f (json_sorted x) = map_option json_sorted (json_get f x)" for f
    by (rule json_get_sorted [OF output_for_ok [OF assms(1,2)]])
  have fields: "json_get ''kind'' (json_sorted x) = Some (JStr ?k)"
    "json_get ''representations'' (json_sorted x) = Some (JList (map json_sorted ?es))"
    unfolding get by (simp_all add: x)
  have "list_all json_ok ?es" using assms(2) by (intro rep_entries_ok) (simp add: record_ok_def)
  then have "list_all (\<lambda>v. json_get ''media_type'' v \<noteq> None) (map json_sorted ?es)"
    using rep_entries_media [of sha rel n ?k 0 "ro_representations r"] by (auto simp: list_all_iff json_get_sorted)
  moreover have "map_of OUTPUT_KIND_NAMES ?k \<noteq> None" using assms(3) by (simp add: kind_ok_def map_of_eq_None_iff)
  ultimately show ?thesis by (simp add: summarisable_def representations_of_def str_get_def fields)
qed

lemma outputs_for_summarisable:
  "outputs_for sha rel n rs outs \<Longrightarrow> stored_records fs dir n rs \<Longrightarrow> list_all record_ok rs \<Longrightarrow> list_all summarisable outs"
  by (induction rs arbitrary: n outs) (auto dest: output_for_summarisable)

lemma outputs_for_ok: "outputs_for sha rel n rs outs \<Longrightarrow> list_all record_ok rs \<Longrightarrow> list_all json_ok outs"
proof (induction rs arbitrary: n outs)
  case (Cons r rs)
  then obtain x ys where "outs = json_sorted x # ys" "output_for sha rel n r x" "outputs_for sha rel (Suc n) rs ys" by auto
  then show ?case using Cons.IH [of "Suc n" ys] Cons.prems(2) json_ok_sorted [OF output_for_ok [of sha rel n r x]] by simp
qed simp

lemma json_ok_summary:
  assumes "output_summary_json outs = Inr s"
  shows "json_ok s \<and> is_obj s"
proof -
  have "list_all json_ok (map JStr xs)" for xs by (induction xs) simp_all
  moreover have "distinct (map fst (map (\<lambda>n. (n, JInt (f n))) xs))" if "distinct xs" for f and xs :: "string list"
    using that by (simp add: comp_def)
  moreover have "list_all (\<lambda>(k, v). json_ok v) (map (\<lambda>n. (n, JInt (f n))) xs)" for f and xs :: "string list"
    by (induction xs) simp_all
  ultimately show ?thesis using assms
    by (auto simp: output_summary_json_def Let_def simp del: map_map split: if_split_asm)
qed

subsection \<open>Publishing\<close>

lemma map_of_moved:
  assumes "\<And>q. q \<in> fst ` set fs \<Longrightarrow> f q = p \<longleftrightarrow> q = p'"
  shows "map_of (map (\<lambda>(q, body). (f q, body)) fs) p = map_of fs p'"
  using assms
proof (induction fs)
  case (Cons a fs)
  have "f (fst a) = p \<longleftrightarrow> fst a = p'" using Cons.prems by simp
  moreover have "map_of (map (\<lambda>(q, body). (f q, body)) fs) p = map_of fs p'"
    by (rule Cons.IH) (use Cons.prems in simp)
  ultimately show ?case by (cases a) auto
qed simp

lemma rename_lookup:
  assumes "\<forall>q\<in>fst ` set (rs_files st). \<not> prefix new q"
  shows "map_of (rs_files (rename_directory old new st)) (new @ x) = map_of (rs_files st) (old @ x)"
proof -
  have "move_path old new q = new @ x \<longleftrightarrow> q = old @ x" if "q \<in> fst ` set (rs_files st)" for q
    using assms that by (auto simp: move_path_def prefix_def)
  then show ?thesis by (simp add: rename_directory_def map_of_moved)
qed

lemma rename_gone:
  assumes "\<And>x. \<not> prefix old (new @ x)"
  shows "\<not> exists_in (rename_directory old new st) old"
proof -
  have "\<not> prefix old (move_path old new q)" for q using assms by (simp add: move_path_def)
  then show ?thesis by (auto simp: exists_in_iff rename_directory_def)
qed

lemma map_of_unlinked: "map_of (filter (\<lambda>(q, _). q \<noteq> p) fs) q = (if q = p then None else map_of fs q)"
  by (induction fs) auto

lemma publish_outcome:
  assumes "map_of (rs_files st) (p @ [''.state.json'']) \<noteq> None" and "map_of (rs_files st) (p @ [OUTPUT_LOG]) \<noteq> None"
    and "\<forall>q\<in>fst ` set (rs_files st). \<not> prefix final q" and "\<not> prefix final (p @ [''manifest.json''])"
    and "\<And>x. \<not> prefix p (final @ x)"
  obtains st' where "publish sha p final m st = (st', load_terminal_descriptor sha final st')"
    and "map_of (rs_files st') (final @ [''manifest.json'']) = Some (json_dumps_utf8 m)"
    and "\<forall>f. map_of (rs_files st') (final @ [''outputs'', f]) = map_of (rs_files st) (p @ [''outputs'', f])"
    and "\<not> exists_in st' p"
proof -
  let ?m = "atomic_json_write (p @ [''manifest.json'']) m st"
  let ?rm = "\<lambda>x fs. filter (\<lambda>(q, _). q \<noteq> p @ [x]) fs"
  let ?fs = "?rm OUTPUT_LOG (?rm ''.state.json'' (rs_files ?m))"
  let ?st = "?m\<lparr>rs_files := ?fs, rs_logs := filter (\<lambda>(q, _). q \<noteq> p) (rs_logs ?m)\<rparr>"
  have neq: "OUTPUT_LOG \<noteq> ''.state.json''" "OUTPUT_LOG \<noteq> ''manifest.json''" by (simp_all add: OUTPUT_LOG_def)
  have fs: "map_of (rs_files ?m) q = (if q = p @ [''manifest.json''] then Some (json_dumps_utf8 m) else map_of (rs_files st) q)" for q
    by (simp add: atomic_json_write_def put_def)
  have pub: "publish sha p final m st = (rename_directory p final ?st, load_terminal_descriptor sha final (rename_directory p final ?st))"
    using assms(1,2) neq by (auto simp: publish_def unlink_def fs map_of_unlinked Let_def)
  have "fst ` set ?fs \<subseteq> insert (p @ [''manifest.json'']) (fst ` set (rs_files st))"
    by (auto simp: atomic_json_write_def put_def put_file_def)
  moreover have "\<forall>q\<in>insert (p @ [''manifest.json'']) (fst ` set (rs_files st)). \<not> prefix final q"
    using assms(3,4) by (simp only: ball_simps(7) simp_thms)
  ultimately have "\<forall>q\<in>fst ` set ?fs. \<not> prefix final q" by (meson subsetD)
  then have clean: "\<forall>q\<in>fst ` set (rs_files ?st). \<not> prefix final q" by simp
  have look: "map_of (rs_files (rename_directory p final ?st)) (final @ x) = map_of ?fs (p @ x)" for x
    using rename_lookup [OF clean, of p x] by simp
  show ?thesis
  proof (rule that [OF pub])
    show "map_of (rs_files (rename_directory p final ?st)) (final @ [''manifest.json'']) = Some (json_dumps_utf8 m)"
      unfolding look using neq by (simp add: map_of_unlinked fs del: filter_filter)
    show "\<forall>f. map_of (rs_files (rename_directory p final ?st)) (final @ [''outputs'', f]) = map_of (rs_files st) (p @ [''outputs'', f])"
      unfolding look by (simp add: map_of_unlinked fs del: filter_filter)
    show "\<not> exists_in (rename_directory p final ?st) p" by (rule rename_gone [OF assms(5)])
  qed
qed

subsection \<open>Reading the descriptor back\<close>

text \<open>The descriptor of a result sealed with the given counters.\<close>

definition sealed_as ::
    "(string \<Rightarrow> string) \<Rightarrow> step_result_identity \<Rightarrow> execution_source_reference \<Rightarrow> string \<Rightarrow> int option \<Rightarrow> string option \<Rightarrow>
       nat \<Rightarrow> string \<Rightarrow> step_result_descriptor \<Rightarrow> bool" where
  "sealed_as sha i src state_name n_exec error_message n body d \<longleftrightarrow>
     rd_state d = state_name \<and> rd_complete d = (state_name \<noteq> ''ABORTED'') \<and> rd_source d = src \<and>
     rd_output_count d = int n \<and> rd_execution_count d = n_exec \<and>
     rd_error_message d = map_option (take 2000) error_message \<and>
     rd_reference d = \<lparr>sy_relative_path = as_posix (result_relative i @ [''manifest.json'']),
       sy_checksum_sha256 = sha body, sy_size_bytes = int (length body),
       sy_execution_attempt_id = ri_execution_attempt_id i, sy_fencing_token = ri_fencing_token i\<rparr>"

lemma opt_field_int: "json_get k v = Some (json_opt_int n) \<Longrightarrow> opt_field int_field k v = Inr n"
  by (cases n) (simp_all add: opt_field_def int_field_def json_opt_int_def)

lemma opt_field_str: "json_get k v = Some (json_opt_str s) \<Longrightarrow> opt_field str_field k v = Inr s"
  by (cases s) (simp_all add: opt_field_def str_field_def json_opt_str_def)

lemma source_of_sorted: "source_of_json (json_sorted (source_json src)) = Inr src"
proof -
  have ok: "json_ok (source_json src)" by (simp add: source_json_def)
  show ?thesis unfolding source_of_json_def str_field_def int_field_def json_get_sorted [OF ok]
    by (simp add: source_json_def)
qed

lemma identity_sorted_fields:
  assumes "identity_json i = Inr j"
  shows "json_get ''execution_attempt_id'' (json_sorted j) = Some (JStr (uuid_str (ri_execution_attempt_id i)))"
    and "json_get ''fencing_token'' (json_sorted j) = Some (JInt (ri_fencing_token i))" and "is_obj (json_sorted j)"
proof -
  have ok: "json_ok j" "is_obj j" using identity_json_Inr [OF assms] by simp_all
  show "json_get ''execution_attempt_id'' (json_sorted j) = Some (JStr (uuid_str (ri_execution_attempt_id i)))"
    "json_get ''fencing_token'' (json_sorted j) = Some (JInt (ri_fencing_token i))" "is_obj (json_sorted j)"
    unfolding json_get_sorted [OF ok(1)] using assms ok(2) by (auto simp: identity_json_def split: if_split_asm)
qed

lemma is_obj_JObj: "is_obj j \<longleftrightarrow> (\<exists>kvs. j = JObj kvs)"
  by (cases j) simp_all

text \<open>The manifest, as it is read back.\<close>

lemma manifest_fields:
  fixes state_name n_exec error_message outs summary now
  assumes h: "header_for i src (ol_header lg)" and ok: "list_all json_ok outs" and s: "json_ok summary" "is_obj summary"
  defines "m \<equiv> json_sorted (manifest_of lg state_name n_exec error_message outs summary now)"
  shows "json_ok (manifest_of lg state_name n_exec error_message outs summary now)" and "is_obj m"
    and "json_get ''state'' m = Some (JStr state_name)"
    and "json_get ''complete'' m = Some (JBool (state_name \<in> {''FINALIZED'', ''FAILED''}))"
    and "json_get ''outputs'' m = Some (JList (map json_sorted outs))"
    and "json_get ''output_count'' m = Some (JInt (ol_output_count lg))"
    and "json_get ''representation_count'' m = Some (JInt (ol_representation_count lg))"
    and "json_get ''total_size_bytes'' m = Some (JInt (ol_total_size_bytes lg))"
    and "json_get ''execution_count'' m = Some (json_opt_int n_exec)"
    and "json_get ''error_message'' m = Some (json_opt_str (map_option (take 2000) error_message))"
    and "json_get ''output_summary'' m = Some (json_sorted summary)"
    and "json_get ''identity'' m = map_option json_sorted (json_get ''identity'' (ol_header lg))"
    and "json_get ''source'' m = map_option json_sorted (json_get ''source'' (ol_header lg))"
proof -
  have obj: "is_obj (ol_header lg)" "json_ok (ol_header lg)" using h by (simp_all add: header_for_def)
  show mok: "json_ok (manifest_of lg state_name n_exec error_message outs summary now)"
    unfolding manifest_of_def using ok s by (intro json_ok_dict_update obj) simp
  show "is_obj m" by (simp add: m_def manifest_of_def)
  have get: "json_get k m = map_option json_sorted (json_get k (manifest_of lg state_name n_exec error_message outs summary now))" for k
    unfolding m_def by (rule json_get_sorted [OF mok])
  note fields = get manifest_of_def json_get_dict_update [OF obj(1)]
  show "json_get ''state'' m = Some (JStr state_name)" by (simp add: fields)
  show "json_get ''complete'' m = Some (JBool (state_name \<in> {''FINALIZED'', ''FAILED''}))" by (simp add: fields)
  show "json_get ''outputs'' m = Some (JList (map json_sorted outs))" by (simp add: fields)
  show "json_get ''output_count'' m = Some (JInt (ol_output_count lg))" by (simp add: fields)
  show "json_get ''representation_count'' m = Some (JInt (ol_representation_count lg))" by (simp add: fields)
  show "json_get ''total_size_bytes'' m = Some (JInt (ol_total_size_bytes lg))" by (simp add: fields)
  show "json_get ''execution_count'' m = Some (json_opt_int n_exec)" by (simp add: fields)
  show "json_get ''error_message'' m = Some (json_opt_str (map_option (take 2000) error_message))" by (simp add: fields)
  show "json_get ''output_summary'' m = Some (json_sorted summary)" by (simp add: fields)
  show "json_get ''identity'' m = map_option json_sorted (json_get ''identity'' (ol_header lg))" by (simp add: fields)
  show "json_get ''source'' m = map_option json_sorted (json_get ''source'' (ol_header lg))" by (simp add: fields)
qed

lemma descriptor_of_manifest:
  assumes h: "header_for i src (ol_header lg)" and ok: "list_all json_ok outs" and s: "json_ok summary" "is_obj summary"
    and t: "state_name \<in> set TERMINAL_STATES" and u: "ri_execution_attempt_id i < 2 ^ 128"
    and f: "map_of (rs_files st) (result_relative i @ [''manifest.json'']) = Some body"
    and b: "body = json_dumps_utf8 (manifest_of lg state_name n_exec error_message outs summary now)"
    and n: "ol_output_count lg = int n"
  obtains d where "load_terminal_descriptor sha (result_relative i) st = Inr d"
    and "sealed_as sha i src state_name n_exec error_message n body d"
proof -
  let ?m = "json_sorted (manifest_of lg state_name n_exec error_message outs summary now)"
  note m = manifest_fields [OF h ok s, of state_name n_exec error_message now]
  obtain j where j: "identity_json i = Inr j" "json_get ''identity'' ?m = Some (json_sorted j)"
    using h by (auto simp: header_for_def m(12))
  have src: "json_get ''source'' ?m = Some (json_sorted (source_json src))" using h by (auto simp: header_for_def m(13))
  obtain iv where iv: "json_sorted j = JObj iv" using identity_sorted_fields(3) [OF j(1)] by (auto simp: is_obj_JObj)
  obtain sv where sv: "json_sorted (source_json src) = JObj sv" by (simp add: source_json_def)
  obtain zv where zv: "json_sorted summary = JObj zv" using s(2) is_obj_sorted [of summary] by (auto simp: is_obj_JObj)
  have state: "str_get ''state'' '''' ?m = state_name" by (simp add: str_get_def m(3))
  have id: "reference_of_json sha (result_relative i @ [''manifest.json'']) body (JObj iv) =
      Inr \<lparr>sy_relative_path = as_posix (result_relative i @ [''manifest.json'']), sy_checksum_sha256 = sha body,
           sy_size_bytes = int (length body), sy_execution_attempt_id = ri_execution_attempt_id i,
           sy_fencing_token = ri_fencing_token i\<rparr>"
    using identity_sorted_fields(1,2) [OF j(1)] u
    by (simp add: reference_of_json_def str_field_def int_field_def iv uuid_parse_str del: json_get.simps)
  have source: "source_of_json (JObj sv) = Inr src" using source_of_sorted [of src] by (simp add: sv)
  have ints: "int_field ''output_count'' ?m = Inr (int n)" "int_field ''representation_count'' ?m = Inr (ol_representation_count lg)"
    "int_field ''total_size_bytes'' ?m = Inr (ol_total_size_bytes lg)"
    by (simp_all add: int_field_def m(6-8) n)
  have complete: "json_get ''complete'' ?m = Some (JBool (state_name \<noteq> ''ABORTED''))"
    using t by (auto simp: m(4) TERMINAL_STATES_def)
  let ?d = "\<lparr>rd_state = state_name, rd_complete = (state_name \<noteq> ''ABORTED''),
      rd_reference = \<lparr>sy_relative_path = as_posix (result_relative i @ [''manifest.json'']), sy_checksum_sha256 = sha body,
           sy_size_bytes = int (length body), sy_execution_attempt_id = ri_execution_attempt_id i,
           sy_fencing_token = ri_fencing_token i\<rparr>,
      rd_source = src, rd_output_count = int n, rd_representation_count = ol_representation_count lg,
      rd_total_size_bytes = ol_total_size_bytes lg, rd_output_summary = JObj zv, rd_execution_count = n_exec,
      rd_error_message = map_option (take 2000) error_message\<rparr>"
  have read: "read_file (rs_files st) (result_relative i @ [''manifest.json'']) = Inr body" by (simp add: read_file_def f)
  have load: "load_bytes body = Inr ?m" unfolding b by (rule load_bytes_dumps [OF m(1)])
  have "load_terminal_descriptor sha (result_relative i) st = Inr ?d"
    unfolding load_terminal_descriptor_def read load bind_res_simps state complete j(2) src iv sv
    using t m(2) by (simp add: id source ints m(11) zv opt_field_int [OF m(9)] opt_field_str [OF m(10)] del: json_get.simps)
  then show ?thesis by (rule that) (simp add: sealed_as_def)
qed

lemma projection_of_manifest:
  assumes h: "header_for i src (ol_header lg)" and ok: "list_all json_ok outs" and s: "json_ok summary" "is_obj summary"
    and f: "map_of (rs_files st) (result_relative i @ [''manifest.json'']) = Some body"
    and b: "body = json_dumps_utf8 (manifest_of lg state_name n_exec error_message outs summary now)"
    and d: "sealed_as sha i src state_name n_exec error_message n body d" and root: "result_root (result_relative i)"
  shows "read_projection sha (rd_reference d) st =
    bind_res (notebook_outputs sha (rs_files st) (result_relative i) (map json_sorted outs)) (\<lambda>xs.
      Inr \<lparr>sj_outputs = xs, sj_execution_count = json_opt_int n_exec\<rparr>)"
proof -
  let ?m = "json_sorted (manifest_of lg state_name n_exec error_message outs summary now)"
  let ?p = "result_relative i @ [''manifest.json'']"
  note m = manifest_fields [OF h ok s, of state_name n_exec error_message now]
  obtain j where j: "identity_json i = Inr j" "json_get ''identity'' ?m = Some (json_sorted j)"
    using h by (auto simp: header_for_def m(12))
  obtain iv where iv: "json_sorted j = JObj iv" using identity_sorted_fields(3) [OF j(1)] by (auto simp: is_obj_JObj)
  have "safe_segment ''manifest.json''" by code_simp
  then have "resolve_relative (rs_files st) True ?p = Inr ?p"
    using root path_exists_file [OF f] by (auto simp: resolve_relative_Inr_iff result_root_def)
  then have res: "resolve_reference (rs_files st) (as_posix ?p) = Inr ?p" by (rule resolve_reference_as_posix)
  have load: "load_bytes body = Inr ?m" unfolding b by (rule load_bytes_dumps [OF m(1)])
  have int: "\<not> (case json_opt_int n_exec of JNull \<Rightarrow> False | JInt _ \<Rightarrow> False | _ \<Rightarrow> True)"
    by (simp add: json_opt_int_def split: option.splits)
  have id: "str_get ''execution_attempt_id'' ''None'' (JObj iv) = uuid_str (ri_execution_attempt_id i)"
    "json_int_eq (json_get ''fencing_token'' (JObj iv)) (ri_fencing_token i)"
    using identity_sorted_fields(1,2) [OF j(1)] by (simp_all add: str_get_def iv del: json_get.simps)
  show ?thesis
    using d res int id m(2)
    by (simp add: read_projection_def sealed_as_def read_file_def f load j(2) iv m(5,9) Let_def del: json_get.simps)
qed

subsection \<open>Sealing an open result\<close>

lemma outputs_for_sorted: "outputs_for sha rel n rs outs \<Longrightarrow> list_all record_ok rs \<Longrightarrow> map json_sorted outs = outs"
proof (induction rs arbitrary: n outs)
  case (Cons r rs)
  then obtain x ys where "outs = json_sorted x # ys" "output_for sha rel n r x" "outputs_for sha rel (Suc n) rs ys" by auto
  then show ?case using Cons.IH [of "Suc n" ys] Cons.prems(2) json_sorted_idem [OF output_for_ok [of sha rel n r x]] by simp
qed simp

lemma exists_file: "map_of (rs_files st) (p @ x) = Some body \<Longrightarrow> exists_in st p"
  unfolding exists_in_iff by (rule bexI [of _ "p @ x"]) (simp, metis UnI1 domI dom_map_of_conv_image_fst)

lemma partial_not_below_final:
  assumes "identity_json i = Inr j"
  shows "\<not> prefix (partial_relative i) (result_relative i @ x)"
  using identity_json_Inr [OF assms] partial_not_result [of i i] prefix_same_length [of "partial_relative i" "result_relative i" x]
  by (simp add: partial_relative_length result_relative_length)

lemma seal_outcome:
  assumes o: "open_result sha i src st recs" and t: "state_name \<in> set TERMINAL_STATES"
    and u: "ri_execution_attempt_id i < 2 ^ 128"
  obtains st' d body outs where "seal sha now i state_name n_exec error_message st = (st', Inr d)"
    and "sealed_as sha i src state_name n_exec error_message (length recs) body d"
    and "load_terminal_descriptor sha (result_relative i) st' = Inr d" and "exists_in st' (result_relative i)"
    and "outputs_for sha (result_relative i) 0 recs outs" and "stored_records (rs_files st') (result_relative i) 0 recs"
    and "read_projection sha (rd_reference d) st' =
      bind_res (notebook_outputs sha (rs_files st') (result_relative i) outs) (\<lambda>xs.
        Inr \<lparr>sj_outputs = xs, sj_execution_count = json_opt_int n_exec\<rparr>)"
    and "\<not> exists_in st' (partial_relative i)"
proof -
  let ?p = "partial_relative i" and ?r = "result_relative i"
  obtain st1 lg where st1: "open_log ?p i st = (st1, Inr lg)" "open_result sha i src st1 recs"
      "log_state sha i src st1 recs [] lg" "map_of (rs_logs st1) ?p = Some lg"
    by (rule open_result_opened [OF o])
  have count: "ol_output_count lg = int (length recs)" "header_for i src (ol_header lg)"
    using log_state_counts [OF st1(3)] by simp_all
  obtain header es outs body where h: "load_state ?p st1 = Inr header" "header_for i src header"
      "map_of (rs_files st1) (?p @ [OUTPUT_LOG]) = Some body" "complete_log body es"
      "log_add_all es (new_output_log header) = Inr lg" "outputs_of_entries es = Inr outs"
      "outputs_for sha ?r 0 recs outs"
    using st1(3) by (auto simp: log_state_def)
  have rd: "read_log (?p @ [OUTPUT_LOG]) False st1 = (st1, Inr es)"
    using h(3,4) by (simp add: read_log_def complete_log_def)
  have ok: "list_all json_ok outs" by (rule outputs_for_ok [OF h(7) open_resultD(2) [OF o]])
  have "list_all summarisable outs"
    by (rule outputs_for_summarisable [OF h(7) open_resultD(1) [OF st1(2)] open_resultD(2) [OF o]])
  then obtain summary where s: "output_summary_json outs = Inr summary"
    by (simp add: output_summary_json_def Let_def)
  note sok = json_ok_summary [OF s]
  let ?m = "manifest_of lg state_name n_exec error_message outs summary now"
  obtain j where j: "identity_json i = Inr j" by (rule open_result_identity [OF o])
  have dir: "result_directory st i = Inr ?r"
    using open_resultD(5) [OF o] by (simp add: result_directory_def resolve_relative_Inr_iff result_root_def)
  have fresh: "\<not> exists_in st ?r" using open_resultD(3) [OF o] by (auto simp: exists_in_iff unsealed_def)
  have "map_of (rs_files st1) (?p @ [''.state.json'']) \<noteq> None" using h(1) by (auto simp: load_state_def split: option.splits)
  moreover have "map_of (rs_files st1) (?p @ [OUTPUT_LOG]) \<noteq> None" using h(3) by simp
  moreover have "\<forall>q\<in>fst ` set (rs_files st1). \<not> prefix ?r q"
    using open_resultD(3) [OF st1(2)] by (simp add: unsealed_def)
  ultimately obtain st' where st': "publish sha ?p ?r ?m st1 = (st', load_terminal_descriptor sha ?r st')"
      "map_of (rs_files st') (?r @ [''manifest.json'']) = Some (json_dumps_utf8 ?m)"
      "\<forall>f. map_of (rs_files st') (?r @ [''outputs'', f]) = map_of (rs_files st1) (?p @ [''outputs'', f])"
      "\<not> exists_in st' ?p"
    by (rule publish_outcome [OF _ _ _ final_not_below_partial [OF j] partial_not_below_final [OF j]])
  obtain d where d: "load_terminal_descriptor sha ?r st' = Inr d"
      "sealed_as sha i src state_name n_exec error_message (length recs) (json_dumps_utf8 ?m) d"
    by (rule descriptor_of_manifest [OF count(2) ok conjunct1 [OF sok] conjunct2 [OF sok] t u st'(2) refl count(1)])
  have "seal sha now i state_name n_exec error_message st = (st', Inr d)"
    using t dir fresh open_result_dir [OF o] st1(1) rd h(6) s st'(1) d(1) by (simp add: seal_def)
  moreover have "stored_records (rs_files st') ?r 0 recs"
    using stored_records_cong [of 0 recs "rs_files st'" ?r "rs_files st1" ?p] st'(3) open_resultD(1) [OF st1(2)] by simp
  moreover have "read_projection sha (rd_reference d) st' =
      bind_res (notebook_outputs sha (rs_files st') ?r outs) (\<lambda>xs.
        Inr \<lparr>sj_outputs = xs, sj_execution_count = json_opt_int n_exec\<rparr>)"
    using projection_of_manifest [OF count(2) ok conjunct1 [OF sok] conjunct2 [OF sok] st'(2) refl d(2) open_resultD(5) [OF o]]
      outputs_for_sorted [OF h(7) open_resultD(2) [OF o]] by simp
  ultimately show ?thesis using that d h(7) exists_file [OF st'(2)] st'(4) by blast
qed

lemma seal_sealed:
  assumes "load_terminal_descriptor sha (result_relative i) st = Inr d" and "exists_in st (result_relative i)"
    and "result_root (result_relative i)" and "state_name \<in> set TERMINAL_STATES"
  shows "seal sha now i state_name n_exec error_message st =
    (st, if rd_state d \<noteq> state_name then Inl ResultStorageError else Inr d)"
proof -
  have "result_directory st i = Inr (result_relative i)"
    using assms(3) by (simp add: result_directory_def resolve_relative_Inr_iff result_root_def)
  then show ?thesis using assms by (simp add: seal_def)
qed

text \<open>
  C6. Whatever a Step result went through (appends that were acknowledged, replayed or
  refused, restarts that lost the counters in memory, crashes in the middle of an append), sealing it
  succeeds, and the manifest counts exactly the records whose append was acknowledged, names the source it was begun
  with and is bound to the attempt and the fencing token; the notebook read through the reference shows
  exactly those records, in their order, and nothing a crash left behind.
\<close>

theorem stored_outputs_survive:
  assumes "result_run sha i src st recs" and "state_name \<in> set TERMINAL_STATES"
    and "ri_execution_attempt_id i < 2 ^ 128" and "length recs \<le> 10 ^ 100"
    and "\<forall>r\<in>set recs. length (ro_representations r) \<le> 10 ^ 100"
  shows "\<exists>st' d body. seal sha now i state_name n_exec error_message st = (st', Inr d) \<and>
    sealed_as sha i src state_name n_exec error_message (length recs) body d \<and>
    read_projection sha (rd_reference d) st' =
      bind_res (expected_outputs recs) (\<lambda>xs. Inr \<lparr>sj_outputs = xs, sj_execution_count = json_opt_int n_exec\<rparr>)"
proof -
  note o = run_open [OF assms(1)]
  obtain st' d body outs where s: "seal sha now i state_name n_exec error_message st = (st', Inr d)"
      "sealed_as sha i src state_name n_exec error_message (length recs) body d"
    and out: "outputs_for sha (result_relative i) 0 recs outs" "stored_records (rs_files st') (result_relative i) 0 recs"
    and proj: "read_projection sha (rd_reference d) st' =
      bind_res (notebook_outputs sha (rs_files st') (result_relative i) outs) (\<lambda>xs.
        Inr \<lparr>sj_outputs = xs, sj_execution_count = json_opt_int n_exec\<rparr>)"
    by (rule seal_outcome [OF o assms(2,3)])
  have "notebook_outputs sha (rs_files st') (result_relative i) outs = expected_outputs recs"
    by (rule notebook_outputs_stored [OF out open_resultD(2,5) [OF o]]) (use assms in simp_all)
  then show ?thesis using s proj by auto
qed

text \<open>
  C39. A sealed result does not change: sealing it again with the same state answers with the same
  descriptor and touches nothing, sealing it with another state is refused, a writer that still holds the
  identity can no longer append to it, and beginning it again is accepted for the same source only.
\<close>

theorem sealed_is_final:
  assumes "result_run sha i src st recs" and "state_name \<in> set TERMINAL_STATES"
    and "ri_execution_attempt_id i < 2 ^ 128" and "seal sha now i state_name n_exec error_message st = (st', r)"
  shows "\<exists>d. r = Inr d \<and>
    (\<forall>now' n' msg'. seal sha now' i state_name n' msg' st' = (st', Inr d)) \<and>
    (\<forall>s' now' n' msg'. s' \<noteq> state_name \<longrightarrow> seal sha now' i s' n' msg' st' = (st', Inl ResultStorageError)) \<and>
    (\<forall>now' off b rs. \<exists>err. append_result sha now' i off b rs st' = (st', Inl err)) \<and>
    (\<forall>now' src'. begin_result sha now' i src' st' = (st', if src' = src then Inr () else Inl ResultStorageError))"
proof -
  note o = run_open [OF assms(1)]
  obtain d body where s: "seal sha now i state_name n_exec error_message st = (st', Inr d)" "r = Inr d"
      "sealed_as sha i src state_name n_exec error_message (length recs) body d"
    and d: "load_terminal_descriptor sha (result_relative i) st' = Inr d" "exists_in st' (result_relative i)"
    and gone: "\<not> exists_in st' (partial_relative i)"
    by (rule seal_outcome [OF o assms(2,3), of now n_exec error_message]) (use assms(4) in auto)
  have st: "rd_state d = state_name" "rd_source d = src" using s(3) by (simp_all add: sealed_as_def)
  have "seal sha now' i s' n' msg' st' = (st', Inl ResultStorageError)" if "s' \<noteq> state_name" for now' s' n' msg'
    using seal_sealed [OF d open_resultD(5) [OF o], of s' now' n' msg'] that st(1)
    by (cases "s' \<in> set TERMINAL_STATES") (simp_all add: seal_def)
  moreover have "result_directory st' i = Inr (result_relative i)" "partial_directory st' False i = Inr (partial_relative i)"
    using open_resultD(4,5) [OF o] by (simp_all add: result_directory_def partial_directory_def resolve_relative_Inr_iff result_root_def)
  then have "begin_result sha now' i src' st' = (st', if src' = src then Inr () else Inl ResultStorageError)" for now' src'
    using d st(2) by (auto simp: begin_result_def)
  moreover have "\<exists>err. append_result sha now' i off b rs st' = (st', Inl err)" for now' off b rs
  proof -
    have "partial_directory st' True i \<noteq> Inr q" for q
      using gone by (auto simp: partial_directory_def resolve_relative_Inr_iff exists_in_def)
    then show ?thesis by (cases "partial_directory st' True i") (auto simp: append_result_def)
  qed
  ultimately show ?thesis using seal_sealed [OF d open_resultD(5) [OF o] assms(2)] st(1) s(2) by simp
qed

subsection \<open>One result, from its first byte to the notebook\<close>

definition demo_sha :: "string \<Rightarrow> string" where
  "demo_sha body = nat_str (length body)"

definition demo_identity :: step_result_identity where
  "demo_identity = \<lparr>ri_execution_id = 1, ri_operation_id = 2, ri_step_id = 3, ri_sequence = 0,
     ri_execution_attempt_id = 4, ri_fencing_token = 1\<rparr>"

definition demo_source :: execution_source_reference where
  "demo_source = \<lparr>sf_relative_path = as_posix (source_relative 1 3), sf_checksum_sha256 = ''8'', sf_size_bytes = 8\<rparr>"

definition demo_store :: result_store where
  "demo_store = \<lparr>rs_files = [(source_relative 1 3, ''print(1)'')], rs_dirs = [], rs_logs = []\<rparr>"

definition demo_record :: runtime_output_record where
  "demo_record =
     \<lparr>ro_kind = ''stream'',
      ro_representations = [\<lparr>or_media_type = ''text/plain'', or_encoding = ''UTF8'', or_content = ''1'', or_metadata = JObj []\<rparr>],
      ro_stream_name = Some ''stdout'', ro_execution_count = None, ro_metadata = JObj []\<rparr>"

lemma demo_record_ok: "list_all record_ok [demo_record]" "list_all storable [demo_record]"
  "expected_outputs [demo_record] =
     Inr [JObj [(''output_type'', JStr ''stream''), (''name'', JStr ''stdout''), (''text'', JStr ''1'')]]"
  by code_simp+

lemma demo_begin: "snd (begin_result demo_sha ''t'' demo_identity demo_source demo_store) = Inr ()"
  by code_simp

lemma demo_fresh: "unsealed demo_identity demo_store" "\<not> exists_in demo_store (partial_relative demo_identity)"
  "map_of (rs_logs demo_store) (partial_relative demo_identity) = None"
  by code_simp+

lemma demo_sent:
  obtains st st' a where "begin_result demo_sha ''t'' demo_identity demo_source demo_store = (st, Inr ())" and "rs_logs st = []"
    and "append_result demo_sha ''t'' demo_identity 0 9 [demo_record] st = (st', Inr a)" and "\<not> sp_replayed a"
proof -
  obtain st where b: "begin_result demo_sha ''t'' demo_identity demo_source demo_store = (st, Inr ())"
    using demo_begin by (cases "begin_result demo_sha ''t'' demo_identity demo_source demo_store") simp
  have "rs_logs (fst (begin_result demo_sha ''t'' demo_identity demo_source demo_store)) = []" by code_simp
  then have logs: "rs_logs st = []" by (simp add: b)
  obtain st1 header where l: "open_log (partial_relative demo_identity) demo_identity st = (st1, Inr (new_output_log header))"
    by (rule begin_log [OF b demo_fresh])
  obtain st' a where "append_result demo_sha ''t'' demo_identity (int (length ([] :: runtime_output_record list))) 9 [demo_record] st = (st', Inr a)"
      "\<not> sp_replayed a"
    by (rule append_accepted [OF begin_open [OF b demo_fresh] _ demo_record_ok(1,2) l])
      (simp_all add: new_output_log_def)
  then show ?thesis using that b logs by simp
qed

text \<open>The run: begun, one record acknowledged, then a crash after the record of the next batch was stored.\<close>

lemma demo_run: "\<exists>st. result_run demo_sha demo_identity demo_source st [demo_record]"
proof -
  obtain st st' a where b: "begin_result demo_sha ''t'' demo_identity demo_source demo_store = (st, Inr ())"
    and a: "append_result demo_sha ''t'' demo_identity 0 9 [demo_record] st = (st', Inr a)" "\<not> sp_replayed a"
    by (rule demo_sent)
  have "result_run demo_sha demo_identity demo_source st' ([] @ acknowledged [demo_record] (Inr a))"
    by (rule result_run.sent [OF result_run.begun [OF b demo_fresh] demo_record_ok(1) a(1)])
  then have run: "result_run demo_sha demo_identity demo_source st' [demo_record]" using a(2) by (simp add: acknowledged_def)
  obtain st2 where "died_in_append demo_sha ''t'' demo_identity 10 [demo_record] [] st' st2"
    by (rule can_die [OF run_open [OF run] demo_record_ok(2)])
  then have "result_run demo_sha demo_identity demo_source st2 [demo_record]"
    by (rule result_run.died [OF run demo_record_ok(1)])
  then show ?thesis by blast
qed

lemma demo_bounds: "''FINALIZED'' \<in> set TERMINAL_STATES" "ri_execution_attempt_id demo_identity < 2 ^ 128"
  "length [demo_record] \<le> 10 ^ 100" "\<forall>r\<in>set [demo_record]. length (ro_representations r) \<le> 10 ^ 100"
  by (simp_all add: TERMINAL_STATES_def demo_identity_def demo_record_def)

theorem stored_outputs_survive_witness:
  "\<exists>st st' d. result_run demo_sha demo_identity demo_source st [demo_record] \<and>
     seal demo_sha ''u'' demo_identity ''FINALIZED'' (Some 1) None st = (st', Inr d) \<and>
     rd_output_count d = 1 \<and>
     read_projection demo_sha (rd_reference d) st' =
       Inr \<lparr>sj_outputs = [JObj [(''output_type'', JStr ''stream''), (''name'', JStr ''stdout''), (''text'', JStr ''1'')]],
            sj_execution_count = JInt 1\<rparr>"
proof -
  obtain st where run: "result_run demo_sha demo_identity demo_source st [demo_record]" using demo_run by blast
  from stored_outputs_survive [OF run demo_bounds, of "''u''" "Some 1" None] run
  show ?thesis unfolding demo_record_ok(3) by (auto simp: sealed_as_def json_opt_int_def)
qed

theorem sealed_is_final_witness:
  "\<exists>st st' d. result_run demo_sha demo_identity demo_source st [demo_record] \<and>
     seal demo_sha ''u'' demo_identity ''FINALIZED'' (Some 1) None st = (st', Inr d) \<and>
     seal demo_sha ''v'' demo_identity ''ABORTED'' None (Some ''late'') st' = (st', Inl ResultStorageError) \<and>
     seal demo_sha ''v'' demo_identity ''FINALIZED'' None None st' = (st', Inr d) \<and>
     (\<exists>err. append_result demo_sha ''v'' demo_identity 1 11 [demo_record] st' = (st', Inl err))"
proof -
  obtain st where run: "result_run demo_sha demo_identity demo_source st [demo_record]" using demo_run by blast
  obtain st' r where "seal demo_sha ''u'' demo_identity ''FINALIZED'' (Some 1) None st = (st', r)"
    by (cases "seal demo_sha ''u'' demo_identity ''FINALIZED'' (Some 1) None st")
  from sealed_is_final [OF run demo_bounds(1,2) this] this run show ?thesis by auto
qed

lemma logs_consistent_empty: "rs_logs st = [] \<Longrightarrow> logs_consistent st"
  by (simp add: logs_consistent_def)

lemma log_memory_is_disk_witness:
  "\<exists>st r. append_result demo_sha ''t'' demo_identity 0 9 [demo_record]
       (fst (begin_result demo_sha ''t'' demo_identity demo_source demo_store)) = (st, r) \<and> logs_consistent st"
proof -
  obtain st st' a where b: "begin_result demo_sha ''t'' demo_identity demo_source demo_store = (st, Inr ())" "rs_logs st = []"
    and a: "append_result demo_sha ''t'' demo_identity 0 9 [demo_record] st = (st', Inr a)"
    by (rule demo_sent)
  show ?thesis using log_memory_is_disk [OF logs_consistent_empty [OF b(2)] demo_record_ok(1) a] a b(1) by auto
qed

theorem append_once_witness:
  "\<exists>st a. append_result demo_sha ''t'' demo_identity 0 9 [demo_record]
       (fst (begin_result demo_sha ''t'' demo_identity demo_source demo_store)) = (st, Inr a) \<and>
     sp_committed_offset a = 1 \<and>
     append_result demo_sha ''v'' demo_identity 1 9 [demo_record] st = (st, Inr (a\<lparr>sp_replayed := True\<rparr>))"
proof -
  obtain st st' a where b: "begin_result demo_sha ''t'' demo_identity demo_source demo_store = (st, Inr ())" "rs_logs st = []"
    and a: "append_result demo_sha ''t'' demo_identity 0 9 [demo_record] st = (st', Inr a)" "\<not> sp_replayed a"
    by (rule demo_sent)
  show ?thesis using append_once [OF logs_consistent_empty [OF b(2)] demo_record_ok(1) a(1)] a b(1) by auto
qed

lemma log_repair_witness:
  "snd (read_log [''x''] True \<lparr>rs_files = [([''x''], log_text [JInt 1] @ ''[2'')], rs_dirs = [], rs_logs = []\<rparr>) = Inr [JInt 1]"
proof -
  have "strict_prefix ''[2'' (log_line (JList [JInt 2]))" by code_simp
  from log_repair [OF _ _ this, of "\<lparr>rs_files = [([''x''], log_text [JInt 1] @ ''[2'')], rs_dirs = [], rs_logs = []\<rparr>"
      "[''x'']" "[JInt 1]" JNull True]
  show ?thesis by simp
qed

end
