(* ===== verification/Pagination.thy ===== *)
theory Pagination
  imports Result_Codec
begin

text \<open>
  \<open>application/pagination.py\<close>: the opaque cursors of the listings, and the page every listing
  returns. A cursor is the URL-safe Base64 text, without padding, of a small JSON object that names the
  listing and the position of the last row of a page.

  An instant is the number of microseconds since 1970-01-01 UTC. \<open>isoformat\<close> and
  \<open>fromisoformat\<close> are written for the extended form with seconds that \<open>isoformat\<close> produces, and
  \<open>UUID(s)\<close> for digits and dashes; the other spellings a forged cursor could hold are refused here.

  The lemmas show that a cursor is read back by the listing that wrote it, is rejected by every other,
  and that following the cursors of a keyset listing never repeats a row and never misses one that was
  there all the time (\<open>keyset_listing\<close>).
\<close>

subsection \<open>Cursor text\<close>

record 'v page =
  pg_items :: "'v list"
  pg_next_cursor :: "string option"

definition urlsafe_char :: "char \<Rightarrow> char" where
  "urlsafe_char c = (if c = CHR ''+'' then CHR ''-'' else if c = CHR ''/'' then CHR ''_'' else c)"

definition standard_char :: "char \<Rightarrow> char" where
  "standard_char c = (if c = CHR ''-'' then CHR ''+'' else if c = CHR ''_'' then CHR ''/'' else c)"

definition urlsafe_b64encode :: "string \<Rightarrow> string" where
  "urlsafe_b64encode bs = map urlsafe_char (b64encode bs)"

text \<open>\<open>base64.b64decode(s, altchars=b"-_", validate=True)\<close>.\<close>

definition urlsafe_b64decode :: "string \<Rightarrow> string option" where
  "urlsafe_b64decode s = b64decode (map standard_char s)"

definition rstrip_pad :: "string \<Rightarrow> string" where
  "rstrip_pad s = rev (dropWhile (\<lambda>c. c = CHR ''='') (rev s))"

definition encode_cursor :: "json \<Rightarrow> string" where
  "encode_cursor payload = rstrip_pad (urlsafe_b64encode (utf8_encode (json_dumps payload)))"

text \<open>
  Python's \<open>==\<close> with the integer 1: \<open>True\<close> and a float that is 1 are equal to it. A literal reads as
  the double 1.0 when its exact value lies between the two midpoints to the neighbours of 1.0.
\<close>

definition dec_value :: "string \<Rightarrow> nat" where
  "dec_value s = foldl (\<lambda>acc d. 10 * acc + the (hex_value d)) 0 s"

definition literal_value :: "string \<Rightarrow> rat" where
  "literal_value s =
     (case scan_int s of
        None \<Rightarrow> 0
      | Some (i, r) \<Rightarrow>
          (let (f, r1) = scan_frac r; e = fst (scan_exp r1);
               digits = of_nat (dec_value (i @ tl f)) / 10 ^ length (tl f);
               ex = (case e of _ # c # cs \<Rightarrow> if c = CHR ''+'' then int_parse cs else int_parse (c # cs) | _ \<Rightarrow> 0)
           in if 0 \<le> ex then digits * 10 ^ nat ex else digits / 10 ^ nat (- ex)))"

definition equals_one :: "json \<Rightarrow> bool" where
  "equals_one j =
     (case j of
        JInt n \<Rightarrow> n = 1
      | JBool b \<Rightarrow> b
      | JFloat s \<Rightarrow> is_digit (hd s) \<and> 1 - 1 / 2 ^ 54 \<le> literal_value s \<and> literal_value s \<le> 1 + 1 / 2 ^ 53
      | _ \<Rightarrow> False)"

definition MAX_CURSOR :: nat where
  "MAX_CURSOR = 2048"

definition decode_cursor :: "string \<Rightarrow> string \<Rightarrow> domain_error + json" where
  "decode_cursor cursor expected_kind =
     (if cursor = [] \<or> MAX_CURSOR < length cursor then Inl InvalidCursorError
      else
        (case Option.bind (urlsafe_b64decode (cursor @ replicate ((4 - length cursor mod 4) mod 4) (CHR ''=''))) json_loads of
           Some (JObj kvs) \<Rightarrow>
             if (case map_of kvs ''v'' of None \<Rightarrow> False | Some v \<Rightarrow> equals_one v) \<and> map_of kvs ''kind'' = Some (JStr expected_kind)
             then Inr (JObj kvs) else Inl InvalidCursorError
         | _ \<Rightarrow> Inl InvalidCursorError))"

subsection \<open>Integer cursors\<close>

definition encode_integer_cursor :: "string \<Rightarrow> int \<Rightarrow> string" where
  "encode_integer_cursor kind value = encode_cursor (JObj [(''v'', JInt 1), (''kind'', JStr kind), (''value'', JInt value)])"

definition decode_integer_cursor :: "string \<Rightarrow> string \<Rightarrow> domain_error + int" where
  "decode_integer_cursor cursor kind =
     bind_res (decode_cursor cursor kind) (\<lambda>payload.
       case json_get ''value'' payload of
         Some (JInt value) \<Rightarrow> if value < 0 then Inl InvalidCursorError else Inr value
       | _ \<Rightarrow> Inl InvalidCursorError)"

lemma urlsafe_standard: "c \<noteq> CHR ''-'' \<Longrightarrow> c \<noteq> CHR ''_'' \<Longrightarrow> standard_char (urlsafe_char c) = c"
  by (simp add: urlsafe_char_def standard_char_def)

lemma b64_table_urlsafe: "list_all (\<lambda>c. c \<noteq> CHR ''-'' \<and> c \<noteq> CHR ''_'') b64_alphabet"
  by code_simp

lemma b64_char_urlsafe [simp]: "standard_char (urlsafe_char (b64_char n)) = b64_char n"
proof -
  have "b64_char n \<in> set b64_alphabet" unfolding b64_char_def by (rule nth_mem) (simp add: b64_alphabet_def)
  then show ?thesis using b64_table_urlsafe by (intro urlsafe_standard) (auto simp: list_all_iff)
qed

lemma urlsafe_roundtrip [simp]: "map standard_char (map urlsafe_char (b64encode bs)) = b64encode bs"
  by (induction bs rule: b64encode.induct) (simp_all add: Let_def urlsafe_standard)

lemma urlsafe_pad [simp]: "urlsafe_char c = CHR ''='' \<longleftrightarrow> c = CHR ''=''"
  by (simp add: urlsafe_char_def)

lemma length_b64encode: "length (b64encode bs) = 4 * ((length bs + 2) div 3)"
proof (induction bs rule: b64encode.induct)
  case (4 a b c cs)
  have "(length cs + 5) div 3 = Suc ((length cs + 2) div 3)" using div_add_self2 [of 3 "length cs + 2"] by simp
  then show ?case using 4 by (simp add: Let_def add.commute)
qed (simp_all add: Let_def)

text \<open>The text without its padding determines it.\<close>

lemma b64_padding:
  "\<exists>body k. b64encode bs = body @ replicate k (CHR ''='') \<and> k < 4 \<and> (body = [] \<or> last body \<noteq> CHR ''='') \<and>
    (bs \<noteq> [] \<longrightarrow> body \<noteq> [])"
proof (induction bs rule: b64encode.induct)
  case (2 a)
  let ?n = "of_char a * 65536 :: nat"
  show ?case by (intro exI [of _ "[b64_char (?n div 262144), b64_char (?n div 4096)]"] exI [of _ 2])
    (simp add: Let_def numeral_2_eq_2)
next
  case (3 a b)
  let ?n = "of_char a * 65536 + of_char b * 256 :: nat"
  show ?case by (intro exI [of _ "[b64_char (?n div 262144), b64_char (?n div 4096), b64_char (?n div 64)]"] exI [of _ 1])
    (simp add: Let_def)
next
  case (4 a b c cs)
  let ?n = "of_char a * 65536 + of_char b * 256 + of_char c :: nat"
  let ?q = "[b64_char (?n div 262144), b64_char (?n div 4096), b64_char (?n div 64), b64_char ?n]"
  from 4 obtain body k where "b64encode cs = body @ replicate k (CHR ''='')" "k < 4" "body = [] \<or> last body \<noteq> CHR ''=''" by blast
  then show ?case by (intro exI [of _ "?q @ body"] exI [of _ k]) (auto simp: Let_def)
qed simp

lemma rstrip_pad_replicate:
  "body = [] \<or> last body \<noteq> CHR ''='' \<Longrightarrow> rstrip_pad (body @ replicate k (CHR ''='')) = body"
  by (cases body rule: rev_cases) (simp_all add: rstrip_pad_def dropWhile_append)

lemma pad_length:
  assumes "(n + k) mod 4 = 0" and "k < (4 :: nat)"
  shows "(4 - n mod 4) mod 4 = k"
proof -
  have "(n mod 4 + k) mod 4 = 0" using assms(1) by (simp add: mod_add_left_eq)
  moreover have "n mod 4 \<in> {0, 1, 2, 3}" "k \<in> {0, 1, 2, 3}" using assms(2) mod_less_divisor [of 4 n] by auto
  ultimately show ?thesis by (auto simp: dvd_def; presburger)
qed

lemma encode_cursor_reads:
  assumes "json_ok payload" and "length (encode_cursor payload) \<le> MAX_CURSOR"
  shows "Option.bind (urlsafe_b64decode (encode_cursor payload @ replicate ((4 - length (encode_cursor payload) mod 4) mod 4) (CHR ''='')))
      json_loads = Some (json_sorted payload)" and "encode_cursor payload \<noteq> []"
proof -
  let ?raw = "utf8_encode (json_dumps payload)"
  obtain body k where b: "b64encode ?raw = body @ replicate k (CHR ''='')" "k < 4" "body = [] \<or> last body \<noteq> CHR ''=''"
      "?raw \<noteq> [] \<longrightarrow> body \<noteq> []"
    using b64_padding by blast
  have raw: "?raw \<noteq> []"
  proof
    assume "?raw = []"
    then have "json_dumps payload = []" using utf8_decode_encode [of "json_dumps payload"] by simp
    then show False using ascii.dumps_first [OF assms(1)] by (simp add: json_dumps_with)
  qed
  have enc: "encode_cursor payload = map urlsafe_char body"
    unfolding encode_cursor_def urlsafe_b64encode_def b(1) map_append map_replicate
    using rstrip_pad_replicate [of "map urlsafe_char body" k] b(3)
    by (cases "body = []") (simp_all add: last_map urlsafe_char_def)
  then show "encode_cursor payload \<noteq> []" using b(4) raw by simp
  have "(length body + k) mod 4 = 0" using length_b64encode [of ?raw] unfolding b(1) by simp
  then have "(4 - length body mod 4) mod 4 = k" by (rule pad_length [OF _ b(2)])
  then have "encode_cursor payload @ replicate ((4 - length (encode_cursor payload) mod 4) mod 4) (CHR ''='') =
      map urlsafe_char (b64encode ?raw)" unfolding enc b(1) by (simp add: urlsafe_char_def)
  then show "Option.bind (urlsafe_b64decode (encode_cursor payload @ replicate ((4 - length (encode_cursor payload) mod 4) mod 4) (CHR ''='')))
      json_loads = Some (json_sorted payload)"
    using ascii.loads_dumps [OF assms(1)]
    by (simp only: urlsafe_b64decode_def urlsafe_roundtrip b64decode_encode json_loads_def bind.simps utf8_decode_encode json_dumps_with)
qed

lemma length_encode_cursor: "length (encode_cursor payload) \<le> 4 * ((length (utf8_encode (json_dumps payload)) + 2) div 3)"
proof -
  have "length (rstrip_pad s) \<le> length s" for s
    using length_dropWhile_le [of "\<lambda>c. c = CHR ''=''" "rev s"] by (simp add: rstrip_pad_def)
  from this [of "urlsafe_b64encode (utf8_encode (json_dumps payload))"] show ?thesis
    by (simp add: encode_cursor_def urlsafe_b64encode_def length_b64encode)
qed

text \<open>A cursor is read by the listing it was made for and by no other.\<close>

lemma decode_encode_cursor:
  assumes "json_ok (JObj kvs)" and "length (encode_cursor (JObj kvs)) \<le> MAX_CURSOR"
    and "map_of kvs ''v'' = Some (JInt 1)" and "map_of kvs ''kind'' = Some (JStr kind)"
  shows "decode_cursor (encode_cursor (JObj kvs)) kind' =
    (if kind' = kind then Inr (json_sorted (JObj kvs)) else Inl InvalidCursorError)"
proof -
  let ?s = "sort_key fst (map (\<lambda>(k, v). (k, json_sorted v)) kvs)"
  have js: "json_sorted (JObj kvs) = JObj ?s" by simp
  have g: "map_of ?s k = map_option json_sorted (map_of kvs k)" for k
    using json_get_sorted [OF assms(1), of k] by simp
  show ?thesis
    using encode_cursor_reads [OF assms(1,2)] assms(2) unfolding decode_cursor_def js
    by (simp add: g assms(3,4) equals_one_def)
qed

subsection \<open>Instants\<close>

definition is_leap :: "nat \<Rightarrow> bool" where
  "is_leap y \<longleftrightarrow> 4 dvd y \<and> (\<not> 100 dvd y \<or> 400 dvd y)"

definition days_in_year :: "nat \<Rightarrow> nat" where
  "days_in_year y = (if is_leap y then 366 else 365)"

definition days_in_month :: "nat \<Rightarrow> nat \<Rightarrow> nat" where
  "days_in_month y m = (if m = 2 then (if is_leap y then 29 else 28) else if m \<in> {4, 6, 9, 11} then 30 else 31)"

definition days_before_year :: "nat \<Rightarrow> nat" where
  "days_before_year y = (let n = y - 1 in n * 365 + n div 4 - n div 100 + n div 400)"

definition days_before_month :: "nat \<Rightarrow> nat \<Rightarrow> nat" where
  "days_before_month y m = sum_list (map (days_in_month y) [1..<m])"

text \<open>The year and the day in it, the month and the day in it, both counted from 0.\<close>

function year_of :: "nat \<Rightarrow> nat \<Rightarrow> nat \<times> nat" where
  "year_of y d = (if d < days_in_year y then (y, d) else year_of (Suc y) (d - days_in_year y))"
  by pat_completeness auto
termination by (relation "measure snd") (auto simp: days_in_year_def)

function month_of :: "nat \<Rightarrow> nat \<Rightarrow> nat \<Rightarrow> nat \<times> nat" where
  "month_of y m d = (if d < days_in_month y m then (m, d) else month_of y (Suc m) (d - days_in_month y m))"
  by pat_completeness auto
termination by (relation "measure (\<lambda>(y, m, d). d)") (auto simp: days_in_month_def)

declare year_of.simps [simp del] month_of.simps [simp del]

definition EPOCH_DAYS :: int where
  "EPOCH_DAYS = 719162"

definition DAY :: int where
  "DAY = 86400000000"

fun dec_digits :: "nat \<Rightarrow> nat \<Rightarrow> string" where
  "dec_digits 0 n = []"
| "dec_digits (Suc k) n = dec_digits k (n div 10) @ [hex_digit (n mod 10)]"

definition isoformat :: "datetime \<Rightarrow> string" where
  "isoformat t =
     (let u = t + EPOCH_DAYS * DAY; (y, yd) = year_of 1 (nat (u div DAY)); (m, d) = month_of y 1 yd;
          r = nat (u mod DAY); s = r div 1000000; us = r mod 1000000
      in dec_digits 4 y @ ''-'' @ dec_digits 2 m @ ''-'' @ dec_digits 2 (Suc d) @ ''T'' @
         dec_digits 2 (s div 3600) @ '':'' @ dec_digits 2 (s div 60 mod 60) @ '':'' @ dec_digits 2 (s mod 60) @
         (if us = 0 then [] else ''.'' @ dec_digits 6 us) @ ''+00:00'')"

definition read_digits :: "nat \<Rightarrow> string \<Rightarrow> (nat \<times> string) option" where
  "read_digits k s =
     (if k \<le> length s \<and> list_all is_digit (take k s) then Some (dec_value (take k s), drop k s) else None)"

definition read_char :: "char \<Rightarrow> string \<Rightarrow> string option" where
  "read_char c s = (case s of x # r \<Rightarrow> if x = c then Some r else None | [] \<Rightarrow> None)"

definition read_date :: "string \<Rightarrow> (nat \<times> string) option" where
  "read_date s =
     Option.bind (read_digits 4 s) (\<lambda>(y, s). Option.bind (read_char (CHR ''-'') s) (\<lambda>s.
     Option.bind (read_digits 2 s) (\<lambda>(m, s). Option.bind (read_char (CHR ''-'') s) (\<lambda>s.
     Option.bind (read_digits 2 s) (\<lambda>(d, s).
       if 1 \<le> y \<and> 1 \<le> m \<and> m \<le> 12 \<and> 1 \<le> d \<and> d \<le> days_in_month y m
       then Some (days_before_year y + days_before_month y m + (d - 1), s) else None)))))"

definition read_time :: "string \<Rightarrow> (nat \<times> string) option" where
  "read_time s =
     Option.bind (read_digits 2 s) (\<lambda>(h, s). Option.bind (read_char (CHR '':'') s) (\<lambda>s.
     Option.bind (read_digits 2 s) (\<lambda>(mi, s). Option.bind (read_char (CHR '':'') s) (\<lambda>s.
     Option.bind (read_digits 2 s) (\<lambda>(sec, s).
       if h < 24 \<and> mi < 60 \<and> sec < 60 then
         (case read_char (CHR ''.'') s of
            None \<Rightarrow> Some ((h * 3600 + mi * 60 + sec) * 1000000, s)
          | Some s' \<Rightarrow> map_option (\<lambda>(us, r). ((h * 3600 + mi * 60 + sec) * 1000000 + us, r)) (read_digits 6 s'))
       else None)))))"

definition read_offset :: "string \<Rightarrow> int option" where
  "read_offset s =
     Option.bind (read_digits 2 (tl s)) (\<lambda>(h, r). Option.bind (read_char (CHR '':'') r) (\<lambda>r.
     Option.bind (read_digits 2 r) (\<lambda>(mi, r).
       if h < 24 \<and> mi < 60 \<and> r = [] \<and> s \<noteq> []
       then (let off = int (h * 3600 + mi * 60) * 1000000
             in if hd s = CHR ''+'' then Some off else if hd s = CHR ''-'' then Some (- off) else None)
       else None)))"

text \<open>The instant, and whether the text names an offset.\<close>

definition fromisoformat :: "string \<Rightarrow> (datetime \<times> bool) option" where
  "fromisoformat s =
     Option.bind (read_date s) (\<lambda>(n, s).
       case s of
         [] \<Rightarrow> Some ((int n - EPOCH_DAYS) * DAY, False)
       | _ # s \<Rightarrow>
           Option.bind (read_time s) (\<lambda>(us, s).
             let t = (int n - EPOCH_DAYS) * DAY + int us in
             if s = [] then Some (t, False)
             else if s = ''Z'' then Some (t, True)
             else map_option (\<lambda>off. (t - off, True)) (read_offset s)))"

lemma days_before_Suc:
  assumes "1 \<le> y"
  shows "days_before_year (Suc y) = days_before_year y + days_in_year y"
proof -
  obtain n where y: "y = Suc n" using assms by (cases y) simp_all
  have step: "Suc n div k = n div k + (if k dvd Suc n then 1 else 0)" for k
    by (simp add: div_Suc dvd_eq_mod_eq_0)
  have sums: "Suc n * 365 + (a + (if p then 1 else 0)) - (b + (if q then 1 else 0)) + (c + (if r then 1 else 0)) =
      n * 365 + a - b + c + (if p \<and> (\<not> q \<or> r) then 366 else 365)"
    if "b \<le> n" "r \<Longrightarrow> q" "q \<Longrightarrow> p" for a b c :: nat and p q r
    using that by (cases p; cases q; cases r) simp_all
  show ?thesis
    unfolding y days_before_year_def days_in_year_def is_leap_def Let_def diff_Suc_1 step [of 4] step [of 100] step [of 400]
  proof (rule sums)
    show "n div 100 \<le> n" by (rule div_le_dividend)
    show "400 dvd Suc n \<Longrightarrow> 100 dvd Suc n" by (rule dvd_trans [of _ 400]) simp_all
    show "100 dvd Suc n \<Longrightarrow> 4 dvd Suc n" by (rule dvd_trans [of _ 100]) simp_all
  qed
qed

lemma year_of_correct:
  assumes "year_of y d = (y', d')" and "1 \<le> y"
  shows "y \<le> y' \<and> d' < days_in_year y' \<and> days_before_year y' + d' = days_before_year y + d"
  using assms
proof (induction y d rule: year_of.induct)
  case (1 y d)
  show ?case
  proof (cases "d < days_in_year y")
    case True
    then show ?thesis using 1(2) by (simp add: year_of.simps [of y d])
  next
    case False
    then show ?thesis using 1 days_before_Suc [of y] by (simp add: year_of.simps [of y d])
  qed
qed

lemma days_of_year: "sum_list (map (days_in_month y) [1..<13]) = days_in_year y"
  by (simp add: days_in_month_def days_in_year_def upt_rec)

lemma month_of_correct:
  assumes "month_of y m d = (m', d')" and "1 \<le> m" "m \<le> 12" and "days_before_month y m + d < days_in_year y"
  shows "m \<le> m' \<and> m' \<le> 12 \<and> d' < days_in_month y m' \<and> days_before_month y m' + d' = days_before_month y m + d"
  using assms
proof (induction y m d rule: month_of.induct)
  case (1 y m d)
  show ?case
  proof (cases "d < days_in_month y m")
    case True
    then show ?thesis using 1(2,3,4) by (simp add: month_of.simps [of y m d])
  next
    case False
    have b: "days_before_month y (Suc m) = days_before_month y m + days_in_month y m"
      using 1(3) by (simp add: days_before_month_def)
    have "m \<noteq> 12"
    proof
      assume "m = 12"
      then have "days_before_month y (Suc m) = days_in_year y" using days_of_year [of y] by (simp add: days_before_month_def)
      then show False using b False 1(5) by linarith
    qed
    then show ?thesis using 1(1) [OF False] 1(2-5) False b by (simp add: month_of.simps [of y m d])
  qed
qed
lemma hex_digit_is_digit: "n < 10 \<Longrightarrow> is_digit (hex_digit n)"
  by (rule is_digit_hex_digit)

lemma length_dec_digits [simp]: "length (dec_digits k n) = k"
  by (induction k arbitrary: n) simp_all

lemma dec_digits_value: "dec_value (dec_digits k n) = n mod 10 ^ k"
proof (induction k arbitrary: n)
  case (Suc k)
  have "dec_value (dec_digits (Suc k) n) = 10 * dec_value (dec_digits k (n div 10)) + n mod 10" by (simp add: dec_value_def)
  then show ?case by (simp add: Suc.IH mod_mult2_eq)
qed (simp add: dec_value_def)

lemma dec_digits_digits: "list_all is_digit (dec_digits k n)"
  by (induction k arbitrary: n) (simp_all add: hex_digit_is_digit)

lemma read_dec_digits: "n < 10 ^ k \<Longrightarrow> read_digits k (dec_digits k n @ r) = Some (n, r)"
  by (simp add: read_digits_def dec_digits_value dec_digits_digits)

lemma read_char_Cons [simp]: "read_char c (c # r) = Some r" "c \<noteq> d \<Longrightarrow> read_char c (d # r) = None"
  by (simp_all add: read_char_def)

text \<open>The instants a \<open>datetime\<close> can hold: from the year 1 to the end of the year 9999.\<close>

definition valid_instant :: "datetime \<Rightarrow> bool" where
  "valid_instant t \<longleftrightarrow> - EPOCH_DAYS * DAY \<le> t \<and> t < (3652059 - EPOCH_DAYS) * DAY"

lemma days_before_mono: "1 \<le> a \<Longrightarrow> a \<le> b \<Longrightarrow> days_before_year a \<le> days_before_year b"
proof (induction b)
  case (Suc b)
  then show ?case using days_before_Suc [of b] by (cases "a = Suc b") simp_all
qed simp

lemma year_below: "1 \<le> y \<Longrightarrow> days_before_year y \<le> n \<Longrightarrow> n < 3652059 \<Longrightarrow> y < 10000"
proof (rule ccontr)
  assume y: "days_before_year y \<le> n" "n < 3652059" "\<not> y < 10000"
  have "days_before_year 10000 = 3652059" by (simp add: days_before_year_def)
  then show False using days_before_mono [of 10000 y] y by simp
qed

lemma days_in_month_le: "days_in_month y m \<le> 31"
  by (simp add: days_in_month_def)

lemma read_printed_time:
  assumes "h < 24" "mi < 60" "sec < 60" "us < 1000000"
  shows "read_time (dec_digits 2 h @ '':'' @ dec_digits 2 mi @ '':'' @ dec_digits 2 sec @
      (if us = 0 then [] else ''.'' @ dec_digits 6 us) @ ''+00:00'') = Some ((h * 3600 + mi * 60 + sec) * 1000000 + us, ''+00:00'')"
proof -
  have "h < 10 ^ 2" "mi < 10 ^ 2" "sec < 10 ^ 2" "us < 10 ^ 6" using assms by simp_all
  then have "read_digits 2 (dec_digits 2 h @ z) = Some (h, z)" "read_digits 2 (dec_digits 2 mi @ z) = Some (mi, z)"
      "read_digits 2 (dec_digits 2 sec @ z) = Some (sec, z)" "read_digits 6 (dec_digits 6 us @ z) = Some (us, z)" for z
    by (simp_all add: read_dec_digits)
  then show ?thesis using assms by (cases "us = 0") (simp_all add: read_time_def)
qed

lemma read_isoformat:
  assumes "valid_instant t"
  shows "fromisoformat (isoformat t) = Some (t, True)"
proof -
  define u where "u = t + EPOCH_DAYS * DAY"
  define n where "n = nat (u div DAY)"
  define r where "r = nat (u mod DAY)"
  obtain y yd where y: "year_of 1 n = (y, yd)" by fastforce
  obtain m d where m: "month_of y 1 yd = (m, d)" by fastforce
  have u: "0 \<le> u" "u < 3652059 * DAY" using assms by (simp_all add: valid_instant_def u_def algebra_simps)
  then have n: "n < 3652059" "int n * DAY + int r = u" "r < 86400000000"
    by (simp_all add: n_def r_def DAY_def nat_less_iff pos_imp_zdiv_nonneg_iff) (simp add: div_less_iff_less_mult)?
  note yc = year_of_correct [OF y]
  have dy: "1 \<le> y" "yd < days_in_year y" "days_before_year y + yd = n" using yc by (simp_all add: days_before_year_def)
  have dm: "1 \<le> m" "m \<le> 12" "d < days_in_month y m" "days_before_month y m + d = yd"
    using month_of_correct [OF m] dy(2) by (simp_all add: days_before_month_def)
  have bounds: "y < 10 ^ 4" "m < 10 ^ 2" "Suc d < 10 ^ 2"
    using year_below [OF dy(1) _ n(1)] dy(3) dm(2,3) days_in_month_le [of y m] by simp_all
  let ?s = "r div 1000000" and ?us = "r mod 1000000"
  have s: "?s div 3600 < 24" "?s div 60 mod 60 < 60" "?s mod 60 < 60" using n(3) by (simp_all add: div_less_iff_less_mult)
  have r: "(?s div 3600 * 3600 + ?s div 60 mod 60 * 60 + ?s mod 60) * 1000000 + ?us = r"
  proof -
    have "?s div 3600 * 3600 + ?s div 60 mod 60 * 60 + ?s mod 60 = ?s"
      using div_mult2_eq [of ?s 60 60, simplified] div_mult_mod_eq [of "?s div 60" 60] div_mult_mod_eq [of ?s 60] by linarith
    then show ?thesis by simp
  qed
  define clock where "clock = dec_digits 2 (?s div 3600) @ '':'' @ dec_digits 2 (?s div 60 mod 60) @ '':'' @
      dec_digits 2 (?s mod 60) @ (if ?us = 0 then [] else ''.'' @ dec_digits 6 ?us) @ ''+00:00''"
  have time: "read_time clock = Some (r, ''+00:00'')"
    unfolding clock_def using read_printed_time [OF s, of ?us] r by simp
  have date: "read_date (dec_digits 4 y @ ''-'' @ dec_digits 2 m @ ''-'' @ dec_digits 2 (Suc d) @ z) = Some (n, z)" for z
    using bounds dy dm by (simp add: read_date_def read_dec_digits)
  have off: "read_offset ''+00:00'' = Some 0" by code_simp
  have t: "(int n - EPOCH_DAYS) * DAY + int r = t" using n(2) by (simp add: u_def algebra_simps)
  have "isoformat t = dec_digits 4 y @ ''-'' @ dec_digits 2 m @ ''-'' @ dec_digits 2 (Suc d) @ ''T'' @ clock"
    unfolding isoformat_def u_def [symmetric] n_def [symmetric] r_def [symmetric] clock_def Let_def y m case_prod_conv ..
  then show ?thesis unfolding fromisoformat_def by (simp only: date bind.simps case_prod_conv) (simp add: time off t)
qed

subsection \<open>Time cursors\<close>

definition encode_time_cursor :: "string \<Rightarrow> datetime \<Rightarrow> uuid \<Rightarrow> string" where
  "encode_time_cursor kind created_at item_id =
     encode_cursor (JObj [(''v'', JInt 1), (''kind'', JStr kind), (''created_at'', JStr (isoformat created_at)),
       (''id'', JStr (uuid_str item_id))])"

text \<open>
  \<open>str(value)\<close> of a parsed field: a text is itself and an integer prints its digits, which may be a
  valid identifier; no other value prints as a date or an identifier.
\<close>

definition field_text :: "json \<Rightarrow> string" where
  "field_text j = (case j of JStr s \<Rightarrow> s | JInt n \<Rightarrow> int_str n | _ \<Rightarrow> [])"

definition decode_time_cursor :: "string \<Rightarrow> string \<Rightarrow> domain_error + (datetime \<times> uuid)" where
  "decode_time_cursor cursor kind =
     bind_res (decode_cursor cursor kind) (\<lambda>payload.
       case (json_get ''created_at'' payload, json_get ''id'' payload) of
         (Some c, Some i) \<Rightarrow>
           (case (fromisoformat (field_text c), uuid_parse (field_text i)) of
              (Some (created_at, aware), Some item_id) \<Rightarrow>
                if aware then Inr (created_at, item_id) else Inl InvalidCursorError
            | _ \<Rightarrow> Inl InvalidCursorError)
       | _ \<Rightarrow> Inl InvalidCursorError)"

lemma length_utf8_encode: "length (utf8_encode s) \<le> 2 * length s"
  by (induction s) (simp_all add: utf8_encode_def Let_def)

lemma length_json_quote: "length (json_quote s) \<le> 6 * length s + 2"
  by (induction s) (simp_all add: json_quote_def json_escape_def Let_def)

text \<open>The size of a printed object does not depend on the order of its keys.\<close>

lemma length_join: "length (join sep xs) \<le> sum_list (map length xs) + length sep * length xs"
  by (induction sep xs rule: join.induct) simp_all

lemma sum_list_sort_key: "sum_list (map g (sort_key f xs)) = (sum_list (map g xs) :: nat)"
  unfolding sum_mset_sum_list [symmetric] mset_map mset_sort ..

lemma length_dumps_obj:
  "length (json_dumps (JObj kvs)) \<le> 2 + (\<Sum>(k, v)\<leftarrow>kvs. length (json_quote k) + length (json_dumps v) + 2)"
proof -
  let ?kts = "map (\<lambda>(k, v). (k, json_dumps v)) kvs" and ?f = "\<lambda>(k, t). json_quote k @ '':'' @ t"
  have "length (join '','' (map ?f (sort_key fst ?kts))) \<le>
      sum_list (map length (map ?f (sort_key fst ?kts))) + length (map ?f (sort_key fst ?kts))"
    using length_join [of "'',''" "map ?f (sort_key fst ?kts)"] by simp
  also have "sum_list (map length (map ?f (sort_key fst ?kts))) = sum_list (map (length \<circ> ?f) ?kts)"
    unfolding map_map [of length ?f "sort_key fst ?kts"] by (rule sum_list_sort_key)
  also have "length (map ?f (sort_key fst ?kts)) = length kvs" by simp
  also have "sum_list (map (length \<circ> ?f) ?kts) + length kvs =
      (\<Sum>(k, v)\<leftarrow>kvs. length (json_quote k) + length (json_dumps v) + 2)"
    by (induction kvs) auto
  finally show ?thesis by simp
qed

lemma cursor_bound:
  "6 * length (json_dumps (JObj kvs)) \<le> 4500 \<Longrightarrow> length (encode_cursor (JObj kvs)) \<le> MAX_CURSOR"
  using length_encode_cursor [of "JObj kvs"] length_utf8_encode [of "json_dumps (JObj kvs)"] by (simp add: MAX_CURSOR_def)

lemma length_key_quotes:
  "length (json_quote ''v'') = 3" "length (json_quote ''kind'') = 6" "length (json_quote ''value'') = 7"
  "length (json_quote ''created_at'') = 12" "length (json_quote ''id'') = 4"
  by code_simp+

lemma decode_encode_integer:
  assumes "0 \<le> value" "value < 10 ^ 100" and "length kind \<le> 40"
  shows "decode_integer_cursor (encode_integer_cursor kind value) kind' =
    (if kind' = kind then Inr value else Inl InvalidCursorError)"
proof -
  let ?kvs = "[(''v'', JInt 1), (''kind'', JStr kind), (''value'', JInt value)]"
  have "length (int_str value) \<le> 100" using assms(1,2) length_nat_str [of "nat value" 100] by (simp add: int_str_def nat_less_iff)
  moreover have "length (int_str 1) = 1" by code_simp
  ultimately have "length (encode_cursor (JObj ?kvs)) \<le> MAX_CURSOR"
    using length_dumps_obj [of ?kvs] length_json_quote [of kind] assms(3) by (intro cursor_bound) (simp add: length_key_quotes)
  then have "decode_cursor (encode_cursor (JObj ?kvs)) kind' =
      (if kind' = kind then Inr (json_sorted (JObj ?kvs)) else Inl InvalidCursorError)"
    by (intro decode_encode_cursor) simp_all
  moreover have "json_get ''value'' (json_sorted (JObj ?kvs)) = Some (JInt value)"
    using json_get_sorted [of "JObj ?kvs" "''value''"] by simp
  ultimately show ?thesis using assms(1) unfolding decode_integer_cursor_def encode_integer_cursor_def by simp
qed

lemma length_isoformat: "length (isoformat t) \<le> 32"
  by (simp add: isoformat_def Let_def split: prod.split)

lemma decode_encode_time:
  assumes "valid_instant t" "i < 2 ^ 128" and "length kind \<le> 40"
  shows "decode_time_cursor (encode_time_cursor kind t i) kind' =
    (if kind' = kind then Inr (t, i) else Inl InvalidCursorError)"
proof -
  let ?kvs = "[(''v'', JInt 1), (''kind'', JStr kind), (''created_at'', JStr (isoformat t)), (''id'', JStr (uuid_str i))]"
  have "length (int_str 1) = 1" by code_simp
  then have "length (encode_cursor (JObj ?kvs)) \<le> MAX_CURSOR"
    using length_dumps_obj [of ?kvs] length_json_quote [of kind] length_json_quote [of "isoformat t"]
      length_json_quote [of "uuid_str i"] length_isoformat [of t] length_uuid_str [of i] assms(3)
    by (intro cursor_bound) (simp add: length_key_quotes)
  then have "decode_cursor (encode_cursor (JObj ?kvs)) kind' =
      (if kind' = kind then Inr (json_sorted (JObj ?kvs)) else Inl InvalidCursorError)"
    by (intro decode_encode_cursor) simp_all
  moreover have "json_get ''created_at'' (json_sorted (JObj ?kvs)) = Some (JStr (isoformat t))"
      "json_get ''id'' (json_sorted (JObj ?kvs)) = Some (JStr (uuid_str i))"
    using json_get_sorted [of "JObj ?kvs" "''created_at''"] json_get_sorted [of "JObj ?kvs" "''id''"] by simp_all
  ultimately show ?thesis unfolding decode_time_cursor_def encode_time_cursor_def
    by (simp add: field_text_def read_isoformat [OF assms(1)] uuid_parse_str [OF assms(2)])
qed

subsection \<open>Keyset listings\<close>

text \<open>
  Every listing selects the rows behind the cursor in key order, one more than the limit, and makes a page of
  them; the extra row only tells whether there is a next page.
\<close>

definition keyset_rows :: "('r \<Rightarrow> 'k::linorder) \<Rightarrow> 'k option \<Rightarrow> nat \<Rightarrow> 'r list \<Rightarrow> 'r list" where
  "keyset_rows key after limit table =
     take (limit + 1) (sort_key key (filter (\<lambda>r. case after of None \<Rightarrow> True | Some k \<Rightarrow> k < key r) table))"

definition make_page :: "('r \<Rightarrow> 'v) \<Rightarrow> ('r \<Rightarrow> string) \<Rightarrow> nat \<Rightarrow> 'r list \<Rightarrow> 'v page" where
  "make_page view cursor_of limit rows =
     (let page_rows = take limit rows in
      \<lparr>pg_items = map view page_rows,
       pg_next_cursor = (if limit < length rows \<and> page_rows \<noteq> [] then Some (cursor_of (last page_rows)) else None)\<rparr>)"

text \<open>
  A client follows the cursors; the service may be in another state at every request. The flag says whether
  the client saw a page without a cursor.
\<close>

fun walk :: "('s \<Rightarrow> string option \<Rightarrow> nat \<Rightarrow> domain_error + 'v page) \<Rightarrow> nat \<Rightarrow> string option \<Rightarrow> 's list \<Rightarrow>
    domain_error + ('v list \<times> bool)" where
  "walk read limit cursor [] = Inr ([], False)"
| "walk read limit cursor (s # ss) =
     bind_res (read s cursor limit) (\<lambda>p.
       case pg_next_cursor p of
         None \<Rightarrow> Inr (pg_items p, True)
       | Some c \<Rightarrow> bind_res (walk read limit (Some c) ss) (\<lambda>(vs, complete). Inr (pg_items p @ vs, complete)))"

lemma sort_key_strict:
  assumes "distinct (map key table)"
  shows "sorted_wrt (<) (map key (sort_key key table))"
proof -
  have "distinct (map key (sort_key key table))" using assms by (metis mset_eq_imp_distinct_iff mset_map mset_sort)
  then show ?thesis by (simp add: strict_sorted_iff)
qed

lemma strict_last: "sorted_wrt (<) (map key xs) \<Longrightarrow> x \<in> set xs \<Longrightarrow> key x \<le> (key (last xs) :: 'k::linorder)"
proof (induction xs rule: rev_induct)
  case (snoc y xs)
  then show ?case by (auto simp: sorted_wrt_append less_imp_le)
qed simp

lemma strict_split:
  fixes key :: "'r \<Rightarrow> 'k::linorder"
  assumes "sorted_wrt (<) (map key xs)" and "n < length xs" and "0 < n"
  shows "filter (\<lambda>x. key (last (take n xs)) < key x) xs = drop n xs"
proof -
  have s: "sorted_wrt (<) (map key (take n xs) @ map key (drop n xs))"
    using assms(1) by (simp flip: map_append)
  have l: "last (take n xs) \<in> set (take n xs)" using assms(2,3) by (intro last_in_set) auto
  have "filter (\<lambda>x. key (last (take n xs)) < key x) (drop n xs) = drop n xs"
    using s l by (auto simp: sorted_wrt_append filter_id_conv)
  moreover have "\<not> key (last (take n xs)) < key x" if "x \<in> set (take n xs)" for x
    using strict_last [of key "take n xs" x] that s by (simp add: sorted_wrt_append not_less)
  then have "filter (\<lambda>x. key (last (take n xs)) < key x) (take n xs) = []" by (simp add: filter_empty_conv)
  ultimately show ?thesis by (metis append_Nil append_take_drop_id filter_append)
qed

locale keyset_listing =
  fixes ok :: "'s \<Rightarrow> bool"
    and read :: "'s \<Rightarrow> string option \<Rightarrow> nat \<Rightarrow> domain_error + 'v page"
    and table :: "'s \<Rightarrow> 'r list"
    and key :: "'r \<Rightarrow> 'k::linorder"
    and view :: "'s \<Rightarrow> 'r \<Rightarrow> 'v"
    and vkey :: "'v \<Rightarrow> 'k"
    and cursor_of :: "'r \<Rightarrow> string"
  assumes keys: "ok s \<Longrightarrow> distinct (map key (table s))"
    and first_page: "ok s \<Longrightarrow> read s None n = Inr (make_page (view s) cursor_of n (keyset_rows key None n (table s)))"
    and next_page: "ok s \<Longrightarrow> ok s' \<Longrightarrow> r \<in> set (table s') \<Longrightarrow>
      read s (Some (cursor_of r)) n = Inr (make_page (view s) cursor_of n (keyset_rows key (Some (key r)) n (table s)))"
    and vkey_view: "vkey (view s r) = key r"
begin

text \<open>The rows behind a position, in order.\<close>

definition behind :: "'k option \<Rightarrow> 's \<Rightarrow> 'r list" where
  "behind a s = filter (\<lambda>r. case a of None \<Rightarrow> True | Some k \<Rightarrow> k < key r) (sort_key key (table s))"

definition at_cursor :: "string option \<Rightarrow> 'k option \<Rightarrow> bool" where
  "at_cursor c a \<longleftrightarrow>
     (case c of None \<Rightarrow> a = None | Some t \<Rightarrow> \<exists>s r. ok s \<and> r \<in> set (table s) \<and> t = cursor_of r \<and> a = Some (key r))"

lemma behind_strict: "ok s \<Longrightarrow> sorted_wrt (<) (map key (behind a s))"
  using sort_key_strict [OF keys] unfolding behind_def by (simp add: sorted_wrt_map sorted_wrt_filter)

lemma behind_set: "r \<in> set (behind a s) \<longleftrightarrow> r \<in> set (table s) \<and> (\<forall>k. a = Some k \<longrightarrow> k < key r)"
  by (auto simp: behind_def split: option.splits)

lemma page_read:
  assumes "ok s" and "at_cursor c a" and "0 < n"
  shows "read s c n = Inr \<lparr>pg_items = map (view s) (take n (behind a s)),
    pg_next_cursor = (if n < length (behind a s) then Some (cursor_of (last (take n (behind a s)))) else None)\<rparr>"
proof -
  have rows: "keyset_rows key a n (table s) = take (n + 1) (behind a s)"
    unfolding keyset_rows_def behind_def filter_sort ..
  have "read s c n = Inr (make_page (view s) cursor_of n (keyset_rows key a n (table s)))"
    using assms(2) first_page [OF assms(1)] next_page [OF assms(1)] by (auto simp: at_cursor_def split: option.splits)
  moreover have "n < length (take (n + 1) xs) \<and> take n (take (n + 1) xs) \<noteq> [] \<longleftrightarrow> n < length xs" for xs :: "'r list"
    using assms(3) by auto
  ultimately show ?thesis unfolding rows make_page_def Let_def by (simp add: min_def)
qed

lemma next_position:
  assumes "ok s" and "0 < n" and "n < length (behind a s)"
  defines "r \<equiv> last (take n (behind a s))"
  shows "at_cursor (Some (cursor_of r)) (Some (key r))" and "behind (Some (key r)) s = drop n (behind a s)"
    and "\<forall>k. a = Some k \<longrightarrow> k < key r"
proof -
  have "take n (behind a s) \<noteq> []" using assms(2,3) by auto
  then have "r \<in> set (behind a s)" unfolding r_def by (meson in_set_takeD last_in_set)
  then have r: "r \<in> set (table s)" "\<forall>k. a = Some k \<longrightarrow> k < key r" by (simp_all add: behind_set)
  then show "at_cursor (Some (cursor_of r)) (Some (key r))" "\<forall>k. a = Some k \<longrightarrow> k < key r"
    using assms(1) by (auto simp: at_cursor_def)
  have "behind (Some (key r)) s = filter (\<lambda>x. key r < key x) (behind a s)"
    using r(2) unfolding behind_def filter_filter by (intro filter_cong refl) (auto split: option.splits)
  then show "behind (Some (key r)) s = drop n (behind a s)"
    unfolding r_def using strict_split [OF behind_strict [OF assms(1)] assms(3,2)] by simp
qed

text \<open>Nothing changes: the pages are the whole listing, in order.\<close>

lemma walk_unchanged:
  assumes "ok s" and "0 < n"
  shows "at_cursor c a \<Longrightarrow> length (behind a s) < m \<Longrightarrow>
    walk read n c (replicate m s) = Inr (map (view s) (behind a s), True)"
proof (induction m arbitrary: c a)
  case (Suc m)
  note p = page_read [OF assms(1) Suc.prems(1) assms(2)]
  show ?case
  proof (cases "n < length (behind a s)")
    case True
    let ?r = "last (take n (behind a s))"
    note nx = next_position [OF assms(1,2) True]
    have "walk read n (Some (cursor_of ?r)) (replicate m s) = Inr (map (view s) (drop n (behind a s)), True)"
      using Suc.IH [OF nx(1)] nx(2) True Suc.prems(2) assms(2) by simp
    then show ?thesis using True by (simp add: p flip: map_append)
  next
    case False
    then show ?thesis by (simp add: p)
  qed
qed simp

text \<open>The table changes between the requests: no row is repeated, none that was always there is missed.\<close>

lemma walk_changing:
  assumes "0 < n"
  shows "at_cursor c a \<Longrightarrow> \<forall>s\<in>set ss. ok s \<Longrightarrow>
    \<exists>vs complete. walk read n c ss = Inr (vs, complete) \<and> sorted_wrt (<) (map vkey vs) \<and>
      (\<forall>v\<in>set vs. (\<forall>k. a = Some k \<longrightarrow> k < vkey v) \<and> (\<exists>s\<in>set ss. v \<in> view s ` set (table s))) \<and>
      (complete \<longrightarrow> (\<forall>k. (\<forall>b. a = Some b \<longrightarrow> b < k) \<and> (\<forall>s\<in>set ss. k \<in> key ` set (table s)) \<longrightarrow> k \<in> vkey ` set vs))"
proof (induction ss arbitrary: c a)
  case (Cons s ss)
  have ok: "ok s" using Cons.prems(2) by simp
  note p = page_read [OF ok Cons.prems(1) assms]
  let ?xs = "behind a s"
  have page: "map vkey (map (view s) (take n ?xs)) = map key (take n ?xs)" by (simp add: vkey_view)
  have sorted: "sorted_wrt (<) (map key (take n ?xs))"
    using behind_strict [OF ok, of a] by (simp add: sorted_wrt_map sorted_wrt_take)
  have items: "(\<forall>k. a = Some k \<longrightarrow> k < vkey v) \<and> v \<in> view s ` set (table s)" if "v \<in> set (map (view s) (take n ?xs))" for v
    using that by (auto simp: vkey_view behind_set dest!: in_set_takeD)
  show ?case
  proof (cases "n < length ?xs")
    case False
    have "k \<in> vkey ` set (map (view s) (take n ?xs))" if "\<forall>b. a = Some b \<longrightarrow> b < k" "k \<in> key ` set (table s)" for k
    proof -
      have "k \<in> key ` set ?xs" using that by (auto simp: behind_set)
      then show ?thesis using False by (force simp: vkey_view image_iff)
    qed
    moreover have "read s c n = Inr \<lparr>pg_items = map (view s) (take n ?xs), pg_next_cursor = None\<rparr>" using p False by simp
    ultimately show ?thesis using sorted items unfolding page [symmetric]
      by (intro exI [of _ "map (view s) (take n ?xs)"] exI [of _ True]) auto
  next
    case True
    let ?r = "last (take n ?xs)"
    note nx = next_position [OF ok assms True]
    obtain vs complete where w: "walk read n (Some (cursor_of ?r)) ss = Inr (vs, complete)" "sorted_wrt (<) (map vkey vs)"
        "\<forall>v\<in>set vs. key ?r < vkey v \<and> (\<exists>s\<in>set ss. v \<in> view s ` set (table s))"
        "complete \<longrightarrow> (\<forall>k. key ?r < k \<and> (\<forall>s\<in>set ss. k \<in> key ` set (table s)) \<longrightarrow> k \<in> vkey ` set vs)"
      using Cons.IH [OF nx(1)] Cons.prems(2) by auto
    have le: "vkey v \<le> key ?r" if "v \<in> set (map (view s) (take n ?xs))" for v
      using that strict_last [OF sorted] by (auto simp: vkey_view)
    have "sorted_wrt (<) (map vkey (map (view s) (take n ?xs) @ vs))"
      using sorted w(2,3) le unfolding map_append page [symmetric] sorted_wrt_append by (force simp: vkey_view)
    moreover have "(\<forall>k. a = Some k \<longrightarrow> k < vkey v) \<and> (\<exists>s\<in>set (s # ss). v \<in> view s ` set (table s))"
      if "v \<in> set (map (view s) (take n ?xs) @ vs)" for v
      using that items w(3) nx(3) by (auto dest: less_trans)
    moreover have "k \<in> vkey ` set (map (view s) (take n ?xs) @ vs)"
      if "complete" "\<forall>b. a = Some b \<longrightarrow> b < k" "\<forall>s\<in>set (s # ss). k \<in> key ` set (table s)" for k
    proof (cases "key ?r < k")
      case True
      then show ?thesis using w(4) that by auto
    next
      case False
      have "k \<in> key ` set ?xs" using that by (auto simp: behind_set)
      then obtain x where x: "x \<in> set ?xs" "k = key x" by blast
      have "x \<notin> set (drop n ?xs)" using False x(2) nx(2) by (auto simp: behind_set simp flip: nx(2))
      then have "x \<in> set (take n ?xs)" using x(1) by (metis Un_iff append_take_drop_id set_append)
      then show ?thesis using x(2) by (force simp: vkey_view image_iff)
    qed
    moreover have "walk read n c (s # ss) = Inr (map (view s) (take n ?xs) @ vs, complete)" using p w(1) True by simp
    ultimately show ?thesis
      by (intro exI [of _ "map (view s) (take n ?xs) @ vs"] exI [of _ complete]) blast
  qed
qed (auto intro: exI [of _ False])

lemma walk_all:
  assumes "ok s" and "0 < n" and "length (table s) < m"
  shows "walk read n None (replicate m s) = Inr (map (view s) (sort_key key (table s)), True)"
  using walk_unchanged [OF assms(1,2), of None None m] assms(3) by (simp add: at_cursor_def behind_def)

lemma walk_stable:
  assumes "0 < n" and "\<forall>s\<in>set ss. ok s"
  shows "\<exists>vs complete. walk read n None ss = Inr (vs, complete) \<and> sorted_wrt (<) (map vkey vs) \<and>
    (\<forall>v\<in>set vs. \<exists>s\<in>set ss. v \<in> view s ` set (table s)) \<and>
    (complete \<longrightarrow> (\<forall>k. (\<forall>s\<in>set ss. k \<in> key ` set (table s)) \<longrightarrow> k \<in> vkey ` set vs))"
  using walk_changing [OF assms(1) _ assms(2), of None None] by (simp add: at_cursor_def)

end
end
