(* ===== verification/Event_Contract.thy ===== *)
theory Event_Contract
  imports Domain_Enums Json_Text
begin

text \<open>
  \<open>infrastructure/events.py\<close>: the public event contract. Each payload model is a record and
  \<open>event_payload\<close> is the union of the eight models; the checks of the pydantic fields and
  of the \<open>model_validator\<close>s are the bool-valued functions below, and \<open>normalize_payload\<close> is
  what validation changes (path separators and the order of content types). A payload is kept as
  this structure and not as the JSON text it is dumped to.
\<close>

subsection \<open>Payload models\<close>

record runtime_summary =
  rs_provider :: string
  rs_profile :: string
  rs_target_id :: uuid
  rs_session_id :: "string option"

record operation_reference =
  or_id :: uuid
  or_number :: int

record started_operation_reference = operation_reference +
  or_step_count :: int

record step_reference =
  sp_id :: uuid
  sp_sequence :: int

datatype attempt_reason = REASON_INITIAL | REASON_RETRY

record attempt_reference =
  af_id :: uuid
  af_number :: int
  af_reason :: attempt_reason

record result_reference =
  rr_relative_path :: string
  rr_media_type :: string
  rr_size_bytes :: int
  rr_checksum_sha256 :: string
  rr_complete :: bool

record output_summary =
  os_count :: int
  os_content_types :: "string list"

record error_summary =
  eu_code :: string
  eu_message :: string
  eu_retryable :: bool

record operation_error_summary = error_summary +
  eu_step_id :: "uuid option"

record execution_error_summary = operation_error_summary +
  eu_operation_id :: "uuid option"

record step_summary =
  sm_total :: int
  sm_completed :: int
  sm_succeeded :: int
  sm_failed :: int
  sm_cancelled :: int

record operation_summary =
  om_total :: int
  om_succeeded :: int
  om_failed :: int
  om_cancelled :: int

record continuation =
  ct_expected_version :: int
  ct_expires_at :: datetime

record retry_availability =
  ra_from_step_id :: uuid
  ra_expires_at :: datetime

record step_result =
  sx_step_id :: uuid
  sx_sequence :: int
  sx_status :: step_status
  sx_attempt :: attempt_reference
  sx_result_ref :: "result_reference option"

record execution_summary =
  xs_trigger_type :: trigger_type
  xs_user_id :: string
  xs_project_id :: "string option"
  xs_session_id :: "string option"
  xs_metadata :: json

record step_completed_payload =
  sd_status :: step_status
  sd_operation :: operation_reference
  sd_step :: step_reference
  sd_attempt :: attempt_reference
  sd_result_ref :: "result_reference option"
  sd_output_summary :: "output_summary option"
  sd_error :: "error_summary option"

record operation_completed_payload =
  od_status :: operation_status
  od_execution_status :: execution_status
  od_operation :: operation_reference
  od_step_summary :: step_summary
  od_step_results :: "step_result list"
  od_continuation :: "continuation option"
  od_error :: "operation_error_summary option"

record execution_completed_payload =
  xd_status :: execution_status
  xd_finalized_by :: "finalized_by option"
  xd_operation_summary :: operation_summary
  xd_retry :: "retry_availability option"
  xd_error :: "execution_error_summary option"
  xd_execution :: "execution_summary option"

datatype event_payload =
    ExecutionStarted runtime_summary
  | OperationStarted started_operation_reference
  | StepStarted operation_reference step_reference attempt_reference
  | StepHandoverStarted operation_reference step_reference attempt_reference handover_reason datetime
  | StepHandoverCompleted operation_reference step_reference attempt_reference rat bool
  | StepCompleted step_completed_payload
  | OperationCompleted operation_completed_payload
  | ExecutionCompleted execution_completed_payload

fun event_type_of :: "event_payload \<Rightarrow> string" where
  "event_type_of (ExecutionStarted _) = ''execution.started''"
| "event_type_of (OperationStarted _) = ''execution.operation_started''"
| "event_type_of (StepStarted _ _ _) = ''execution.step_started''"
| "event_type_of (StepHandoverStarted _ _ _ _ _) = ''execution.step_handover_started''"
| "event_type_of (StepHandoverCompleted _ _ _ _ _) = ''execution.step_handover_completed''"
| "event_type_of (StepCompleted _) = ''execution.step_completed''"
| "event_type_of (OperationCompleted _) = ''execution.operation_completed''"
| "event_type_of (ExecutionCompleted _) = ''execution.completed''"

subsection \<open>Field checks\<close>

definition str_len :: "nat \<Rightarrow> nat \<Rightarrow> string \<Rightarrow> bool" where
  "str_len lo hi s \<longleftrightarrow> lo \<le> length s \<and> length s \<le> hi"

fun opt_str_len :: "nat \<Rightarrow> string option \<Rightarrow> bool" where
  "opt_str_len hi None = True"
| "opt_str_len hi (Some s) = (length s \<le> hi)"

definition runtime_summary_ok :: "runtime_summary \<Rightarrow> bool" where
  "runtime_summary_ok r \<longleftrightarrow>
     str_len 1 64 (rs_provider r) \<and> str_len 1 128 (rs_profile r) \<and> opt_str_len 255 (rs_session_id r)"

definition operation_reference_ok :: "'a operation_reference_scheme \<Rightarrow> bool" where
  "operation_reference_ok r \<longleftrightarrow> 1 \<le> or_number r"

definition step_reference_ok :: "step_reference \<Rightarrow> bool" where
  "step_reference_ok r \<longleftrightarrow> 0 \<le> sp_sequence r"

definition attempt_reference_ok :: "attempt_reference \<Rightarrow> bool" where
  "attempt_reference_ok r \<longleftrightarrow> 1 \<le> af_number r"

definition forward_slashes :: "string \<Rightarrow> string" where
  "forward_slashes s = map (\<lambda>c. if c = CHR 0x5C then CHR ''/'' else c) s"

fun split_on_slash :: "string \<Rightarrow> string list" where
  "split_on_slash [] = [[]]"
| "split_on_slash (c # cs) =
     (if c = CHR ''/'' then [] # split_on_slash cs
      else (case split_on_slash cs of [] \<Rightarrow> [[c]] | p # ps \<Rightarrow> (c # p) # ps))"

definition is_hex_lower :: "char \<Rightarrow> bool" where
  "is_hex_lower c \<longleftrightarrow> (CHR ''0'' \<le> c \<and> c \<le> CHR ''9'') \<or> (CHR ''a'' \<le> c \<and> c \<le> CHR ''f'')"

text \<open>The leading slash is one of the empty parts of the split.\<close>

definition result_reference_ok :: "result_reference \<Rightarrow> bool" where
  "result_reference_ok r \<longleftrightarrow>
     str_len 1 4096 (rr_relative_path r) \<and> str_len 1 255 (rr_media_type r) \<and>
     0 \<le> rr_size_bytes r \<and>
     length (rr_checksum_sha256 r) = 64 \<and> list_all is_hex_lower (rr_checksum_sha256 r) \<and>
     \<not> (take 1 (forward_slashes (rr_relative_path r)) = ''/'' \<or>
        list_ex (\<lambda>part. part \<in> {'''', ''.'', ''..''})
          (split_on_slash (forward_slashes (rr_relative_path r))))"

definition output_summary_ok :: "output_summary \<Rightarrow> bool" where
  "output_summary_ok s \<longleftrightarrow> 0 \<le> os_count s \<and> list_all (\<lambda>t. strip t \<noteq> []) (os_content_types s)"

definition error_summary_ok :: "'a error_summary_scheme \<Rightarrow> bool" where
  "error_summary_ok e \<longleftrightarrow> str_len 1 128 (eu_code e) \<and> str_len 1 2000 (eu_message e)"

definition step_summary_ok :: "step_summary \<Rightarrow> bool" where
  "step_summary_ok s \<longleftrightarrow>
     0 \<le> sm_total s \<and> 0 \<le> sm_completed s \<and> 0 \<le> sm_succeeded s \<and> 0 \<le> sm_failed s \<and>
     0 \<le> sm_cancelled s \<and>
     sm_completed s = sm_succeeded s + sm_failed s + sm_cancelled s \<and>
     sm_completed s \<le> sm_total s"

definition operation_summary_ok :: "operation_summary \<Rightarrow> bool" where
  "operation_summary_ok s \<longleftrightarrow>
     0 \<le> om_total s \<and> 0 \<le> om_succeeded s \<and> 0 \<le> om_failed s \<and> 0 \<le> om_cancelled s \<and>
     om_succeeded s + om_failed s + om_cancelled s \<le> om_total s"

definition opt_all :: "('a \<Rightarrow> bool) \<Rightarrow> 'a option \<Rightarrow> bool" where
  "opt_all P x = (case x of None \<Rightarrow> True | Some y \<Rightarrow> P y)"

lemma opt_all_simps [simp]: "opt_all P None" "opt_all P (Some x) = P x"
  by (simp_all add: opt_all_def)

definition completed_step_status :: "step_status \<Rightarrow> bool" where
  "completed_step_status s \<longleftrightarrow> s = SS_SUCCEEDED \<or> s = SS_FAILED \<or> s = SS_CANCELLED"

definition step_result_ok :: "step_result \<Rightarrow> bool" where
  "step_result_ok r \<longleftrightarrow>
     0 \<le> sx_sequence r \<and> completed_step_status (sx_status r) \<and>
     attempt_reference_ok (sx_attempt r) \<and> opt_all result_reference_ok (sx_result_ref r) \<and>
     (sx_status r = SS_SUCCEEDED \<longrightarrow>
        (case sx_result_ref r of None \<Rightarrow> False | Some ref \<Rightarrow> rr_complete ref))"

definition execution_summary_ok :: "execution_summary \<Rightarrow> bool" where
  "execution_summary_ok s \<longleftrightarrow>
     str_len 1 255 (xs_user_id s) \<and> opt_str_len 255 (xs_project_id s) \<and>
     opt_str_len 255 (xs_session_id s)"

subsection \<open>Payload checks\<close>

definition step_completed_ok :: "step_completed_payload \<Rightarrow> bool" where
  "step_completed_ok p \<longleftrightarrow>
     completed_step_status (sd_status p) \<and> operation_reference_ok (sd_operation p) \<and>
     step_reference_ok (sd_step p) \<and> attempt_reference_ok (sd_attempt p) \<and>
     opt_all result_reference_ok (sd_result_ref p) \<and>
     opt_all output_summary_ok (sd_output_summary p) \<and> opt_all error_summary_ok (sd_error p) \<and>
     (if sd_status p = SS_SUCCEEDED
      then (case sd_result_ref p of None \<Rightarrow> False | Some ref \<Rightarrow> rr_complete ref) \<and>
           sd_output_summary p \<noteq> None \<and> sd_error p = None
      else sd_error p \<noteq> None) \<and>
     (sd_result_ref p = None \<longleftrightarrow> sd_output_summary p = None)"

fun strictly_increasing :: "int list \<Rightarrow> bool" where
  "strictly_increasing (x # y # zs) = (x < y \<and> strictly_increasing (y # zs))"
| "strictly_increasing _ = True"

definition operation_completed_ok :: "operation_completed_payload \<Rightarrow> bool" where
  "operation_completed_ok p \<longleftrightarrow>
     (od_status p = OS_SUCCEEDED \<or> od_status p = OS_FAILED \<or> od_status p = OS_CANCELLED) \<and>
     (od_execution_status p = ES_WAITING_FOR_OPERATION \<or>
      execution_status_is_terminal (od_execution_status p)) \<and>
     operation_reference_ok (od_operation p) \<and> step_summary_ok (od_step_summary p) \<and>
     list_all step_result_ok (od_step_results p) \<and>
     opt_all (\<lambda>c. 0 \<le> ct_expected_version c) (od_continuation p) \<and>
     opt_all error_summary_ok (od_error p) \<and>
     (od_status p = OS_SUCCEEDED \<longleftrightarrow> od_error p = None) \<and>
     (od_continuation p \<noteq> None \<longrightarrow> od_execution_status p = ES_WAITING_FOR_OPERATION) \<and>
     strictly_increasing (map sx_sequence (od_step_results p))"

definition execution_completed_ok :: "execution_completed_payload \<Rightarrow> bool" where
  "execution_completed_ok p \<longleftrightarrow>
     execution_status_is_terminal (xd_status p) \<and> operation_summary_ok (xd_operation_summary p) \<and>
     opt_all error_summary_ok (xd_error p) \<and> opt_all execution_summary_ok (xd_execution p) \<and>
     (if xd_status p = ES_SUCCEEDED then xd_retry p = None \<and> xd_error p = None
      else xd_error p \<noteq> None) \<and>
     (xd_status p \<noteq> ES_FAILED \<longrightarrow> xd_retry p = None)"

fun payload_ok :: "event_payload \<Rightarrow> bool" where
  "payload_ok (ExecutionStarted r) = runtime_summary_ok r"
| "payload_ok (OperationStarted q) = (operation_reference_ok q \<and> 1 \<le> or_step_count q)"
| "payload_ok (StepStarted q s a) =
     (operation_reference_ok q \<and> step_reference_ok s \<and> attempt_reference_ok a)"
| "payload_ok (StepHandoverStarted q s a reason detected_at) =
     (operation_reference_ok q \<and> step_reference_ok s \<and> attempt_reference_ok a)"
| "payload_ok (StepHandoverCompleted q s a paused fin) =
     (operation_reference_ok q \<and> step_reference_ok s \<and> attempt_reference_ok a \<and> 0 \<le> paused)"
| "payload_ok (StepCompleted p) = step_completed_ok p"
| "payload_ok (OperationCompleted p) = operation_completed_ok p"
| "payload_ok (ExecutionCompleted p) = execution_completed_ok p"

subsection \<open>What validation normalizes\<close>

definition normalize_reference :: "result_reference \<Rightarrow> result_reference" where
  "normalize_reference r = r\<lparr>rr_relative_path := forward_slashes (rr_relative_path r)\<rparr>"

definition normalize_output_summary :: "output_summary \<Rightarrow> output_summary" where
  "normalize_output_summary s = s\<lparr>os_content_types := sort (remdups (os_content_types s))\<rparr>"

fun normalize_payload :: "event_payload \<Rightarrow> event_payload" where
  "normalize_payload (StepCompleted p) = StepCompleted (p
     \<lparr>sd_result_ref := map_option normalize_reference (sd_result_ref p),
      sd_output_summary := map_option normalize_output_summary (sd_output_summary p)\<rparr>)"
| "normalize_payload (OperationCompleted p) = OperationCompleted (p
     \<lparr>od_step_results := map (\<lambda>r. r\<lparr>sx_result_ref := map_option normalize_reference (sx_result_ref r)\<rparr>)
        (od_step_results p)\<rparr>)"
| "normalize_payload p = p"

definition validate_execution_event_payload :: "event_payload \<Rightarrow> event_payload option" where
  "validate_execution_event_payload p = (if payload_ok p then Some (normalize_payload p) else None)"

subsection \<open>Validation is stable\<close>

lemma forward_slashes_idem [simp]: "forward_slashes (forward_slashes s) = forward_slashes s"
  by (induction s) (simp_all add: forward_slashes_def)

lemma forward_slashes_length [simp]: "length (forward_slashes s) = length s"
  by (simp add: forward_slashes_def)

lemma normalize_reference_ok: "result_reference_ok r \<Longrightarrow> result_reference_ok (normalize_reference r)"
  by (auto simp: result_reference_ok_def normalize_reference_def str_len_def)

lemma normalize_reference_sel [simp]: "rr_complete (normalize_reference r) = rr_complete r"
  by (simp add: normalize_reference_def)

lemma normalize_output_ok: "output_summary_ok s \<Longrightarrow> output_summary_ok (normalize_output_summary s)"
  by (simp add: output_summary_ok_def normalize_output_summary_def list_all_iff)

lemma normalize_payload_type [simp]: "event_type_of (normalize_payload p) = event_type_of p"
  by (cases p) simp_all

lemma normalize_payload_ok:
  assumes "payload_ok p"
  shows "payload_ok (normalize_payload p)"
proof (cases p)
  case (StepCompleted q)
  then show ?thesis using assms
    by (cases "sd_result_ref q")
      (auto simp: step_completed_ok_def normalize_reference_ok normalize_output_ok)
next
  case (OperationCompleted q)
  have "step_result_ok (r\<lparr>sx_result_ref := map_option normalize_reference (sx_result_ref r)\<rparr>)"
    if "step_result_ok r" for r
    using that by (cases "sx_result_ref r") (simp_all add: step_result_ok_def normalize_reference_ok)
  then show ?thesis using assms OperationCompleted
    by (auto simp: operation_completed_ok_def list_all_iff comp_def)
qed (use assms in simp_all)

end
