(* ===== verification/Domain_Models.thy ===== *)
theory Domain_Models
  imports Event_Contract
begin

text \<open>
  \<open>domain/models.py\<close>: the framework-independent entities and the four state changes an
  API command may request of an Execution. The columns that a domain entity shares with its
  database row form a base record (\<open>step_fields\<close>, \<open>execution_fields\<close>,
  \<open>operation_fields\<close>); the entity extends it with what only the domain has (the source
  code of a Step, the Step list of an Execution) and the row, in \<open>Database\<close>, with what
  only the database has. \<open>utc_now()\<close> is the argument \<open>now\<close>.
\<close>

subsection \<open>Steps\<close>

definition empty_output_summary :: json where
  "empty_output_summary = JObj
     [(''output_count'', JInt 0), (''output_types'', JObj []), (''stream_names'', JList []),
      (''mime_types'', JList []), (''has_image'', JBool False), (''image_count'', JInt 0),
      (''has_error'', JBool False)]"

record step_fields =
  st_id :: uuid
  st_sequence :: int
  st_source_type :: code_source_type
  st_source_path :: "string option"
  st_source_sha256 :: string
  st_source_snapshot_path :: "string option"
  st_source_size_bytes :: "int option"
  st_step_timeout_seconds :: "int option"
  st_code_hash :: "string option"
  st_skill_name :: "string option"
  st_tool_name :: "string option"
  st_input_parameters :: json
  st_operation_id :: "uuid option"
  st_status :: step_status
  st_output_summary :: json
  st_result_execution_attempt_id :: "uuid option"
  st_result_manifest_path :: "string option"
  st_result_manifest_checksum_sha256 :: "string option"
  st_result_manifest_size_bytes :: "int option"
  st_result_fencing_token :: "int option"
  st_result_complete :: "bool option"
  st_result_representation_count :: int
  st_result_total_size_bytes :: int
  st_error_message :: "string option"
  st_created_by_client :: "string option"
  st_created_by :: "string option"
  st_updated_by_client :: "string option"
  st_updated_by :: "string option"
  st_created_at :: datetime
  st_updated_at :: datetime
  st_started_at :: "datetime option"
  st_finished_at :: "datetime option"

record execution_step = step_fields +
  st_code :: string

subsection \<open>Executions\<close>

datatype notebook_projection_status = NP_NOT_STARTED | NP_PENDING | NP_SUCCEEDED | NP_FAILED

record execution_fields =
  ex_id :: uuid
  ex_idempotency_key :: string
  ex_request_fingerprint :: string
  ex_cancel_idempotency_key :: "string option"
  ex_status :: execution_status
  ex_operation_mode :: operation_mode
  ex_operation_wait_timeout_seconds :: "int option"
  ex_trigger_type :: trigger_type
  ex_runtime_type :: runtime_type
  ex_runtime_pool :: runtime_pool
  ex_runtime_profile :: string
  ex_user_id :: string
  ex_project_id :: "string option"
  ex_session_id :: "string option"
  ex_tenant_id :: string
  ex_metadata :: json
  ex_cancellation_reason :: "string option"
  ex_runtime_target_id :: "uuid option"
  ex_runtime_session_id :: "string option"
  ex_workspace_path :: "string option"
  ex_notebook_path :: "string option"
  ex_notebook_projection_status :: notebook_projection_status
  ex_notebook_projection_attempt_count :: int
  ex_notebook_projection_error :: "string option"
  ex_notebook_projected_at :: "datetime option"
  ex_error_message :: "string option"
  ex_failure_type :: "failure_type option"
  ex_lease_owner :: "string option"
  ex_lease_expires_at :: "datetime option"
  ex_heartbeat_at :: "datetime option"
  ex_retry_strategy :: retry_strategy
  ex_retry_from_sequence :: "int option"
  ex_retained_runtime_session_until :: "datetime option"
  ex_retry_count :: int
  ex_recovery_count :: int
  ex_runtime_session_cleanup_status :: runtime_session_cleanup_status
  ex_runtime_abort_status :: runtime_abort_status
  ex_finalization_requested :: bool
  ex_finalized_by :: "finalized_by option"
  ex_active_operation_id :: "uuid option"
  ex_operation_wait_expires_at :: "datetime option"
  ex_execution_expires_at :: "datetime option"
  ex_version :: int
  ex_created_by_client :: "string option"
  ex_created_by :: "string option"
  ex_updated_by_client :: "string option"
  ex_updated_by :: "string option"
  ex_created_at :: datetime
  ex_updated_at :: datetime
  ex_started_at :: "datetime option"
  ex_finished_at :: "datetime option"

record execution = execution_fields +
  ex_steps :: "execution_step list"

subsection \<open>Operations and events\<close>

record operation_fields =
  op_id :: uuid
  op_execution_id :: uuid
  op_operation_number :: int
  op_schema_version :: string
  op_first_sequence :: int
  op_last_sequence :: int
  op_operation_timeout_seconds :: "int option"
  op_metadata :: json
  op_idempotency_key :: string
  op_request_fingerprint :: string
  op_status :: operation_status
  op_execution_attempt_id :: "uuid option"
  op_error_message :: "string option"
  op_created_by_client :: "string option"
  op_created_by :: "string option"
  op_updated_by_client :: "string option"
  op_updated_by :: "string option"
  op_created_at :: datetime
  op_updated_at :: datetime
  op_started_at :: "datetime option"
  op_finished_at :: "datetime option"

type_synonym execution_operation = operation_fields

record execution_event =
  ev_id :: uuid
  ev_execution_id :: uuid
  ev_event_sequence :: int
  ev_event_type :: string
  ev_payload :: event_payload
  ev_schema_version :: string
  ev_created_by_client :: "string option"
  ev_created_by :: "string option"
  ev_updated_by_client :: "string option"
  ev_updated_by :: "string option"
  ev_created_at :: datetime
  ev_updated_at :: datetime

subsection \<open>Requested state changes\<close>

definition request_cancel ::
    "string \<Rightarrow> string option \<Rightarrow> datetime \<Rightarrow> execution \<Rightarrow> domain_error + execution" where
  "request_cancel idempotency_key reason now e =
     (if execution_status_is_terminal (ex_status e) then Inl InvalidStateTransitionError
      else if ex_status e = ES_CANCEL_REQUESTED then Inr e
      else bind_res (require_execution_transition (ex_status e) ES_CANCEL_REQUESTED) (\<lambda>_.
        Inr (e\<lparr>ex_status := ES_CANCEL_REQUESTED,
               ex_cancel_idempotency_key := Some idempotency_key,
               ex_cancellation_reason := reason,
               ex_operation_wait_expires_at := None,
               ex_version := ex_version e + 1,
               ex_updated_at := now\<rparr>)))"

text \<open>The loop over \<open>self.steps\<close> at the end of \<open>request_retry\<close>, for one Step.\<close>

definition reset_step_for_retry :: "int \<Rightarrow> datetime \<Rightarrow> execution_step \<Rightarrow> execution_step" where
  "reset_step_for_retry from_sequence now s =
     (if st_sequence s < from_sequence then s
      else s\<lparr>st_status := SS_PENDING,
             st_output_summary := empty_output_summary,
             st_result_execution_attempt_id := None,
             st_error_message := None,
             st_started_at := None,
             st_finished_at := None,
             st_updated_at := now\<rparr>)"

definition retained_session_unusable :: "datetime \<Rightarrow> execution \<Rightarrow> bool" where
  "retained_session_unusable now e \<longleftrightarrow>
     ex_retry_from_sequence e = None \<or> ex_runtime_session_id e = None \<or>
     ex_runtime_target_id e = None \<or> \<not> gt_now (ex_retained_runtime_session_until e) now"

definition cleanup_unresolved :: "execution \<Rightarrow> bool" where
  "cleanup_unresolved e \<longleftrightarrow>
     ex_runtime_session_cleanup_status e \<in> {RC_PENDING, RC_FAILED} \<and>
     ex_runtime_session_id e \<noteq> None"

definition forget_runtime_session :: "execution \<Rightarrow> execution" where
  "forget_runtime_session e =
     e\<lparr>ex_retry_from_sequence := Some 0,
       ex_runtime_session_id := None,
       ex_runtime_target_id := None,
       ex_retained_runtime_session_until := None,
       ex_runtime_session_cleanup_status := RC_NOT_REQUIRED\<rparr>"

definition requeue_for_retry :: "int \<Rightarrow> datetime \<Rightarrow> execution \<Rightarrow> execution" where
  "requeue_for_retry from_sequence now e =
     e\<lparr>ex_status := ES_QUEUED,
       ex_error_message := None,
       ex_finished_at := None,
       ex_lease_owner := None,
       ex_lease_expires_at := None,
       ex_heartbeat_at := None,
       ex_retry_count := ex_retry_count e + 1,
       ex_version := ex_version e + 1,
       ex_updated_at := now,
       ex_steps := map (reset_step_for_retry from_sequence now) (ex_steps e)\<rparr>"

definition request_retry :: "datetime \<Rightarrow> execution \<Rightarrow> domain_error + execution" where
  "request_retry now e =
     (if ex_status e \<noteq> ES_FAILED then Inl InvalidStateTransitionError
      else if ex_operation_mode e \<noteq> OM_SINGLE then Inl InvalidStateTransitionError
      else if ex_active_operation_id e = None then Inl InvalidStateTransitionError
      else if ex_retry_strategy e = RS_NOT_RETRYABLE then Inl InvalidStateTransitionError
      else if ex_retry_strategy e = RS_FROM_FAILED_STEP \<and> retained_session_unusable now e
        then Inl InvalidStateTransitionError
      else if ex_retry_strategy e = RS_FROM_START \<and> cleanup_unresolved e
        then Inl InvalidStateTransitionError
      else
        (let e' = (if ex_retry_strategy e = RS_FROM_START then forget_runtime_session e else e)
         in case ex_retry_from_sequence e' of
              None \<Rightarrow> Inl InvalidStateTransitionError
            | Some from_sequence \<Rightarrow>
                bind_res (require_execution_transition (ex_status e') ES_QUEUED)
                  (\<lambda>_. Inr (requeue_for_retry from_sequence now e'))))"

definition request_operation ::
    "int \<Rightarrow> datetime \<Rightarrow> execution \<Rightarrow> domain_error + execution" where
  "request_operation expected_version now e =
     (if ex_operation_mode e \<noteq> OM_MULTI then Inl InvalidStateTransitionError
      else if ex_status e \<noteq> ES_WAITING_FOR_OPERATION then Inl InvalidStateTransitionError
      else if ex_version e \<noteq> expected_version then Inl ExecutionVersionConflictError
      else bind_res (require_execution_transition (ex_status e) ES_QUEUED) (\<lambda>_.
        Inr (e\<lparr>ex_status := ES_QUEUED,
               ex_finalization_requested := False,
               ex_operation_wait_expires_at := None,
               ex_updated_at := now,
               ex_version := ex_version e + 1\<rparr>)))"

definition active_steps :: "execution \<Rightarrow> execution_step list" where
  "active_steps e = filter (\<lambda>s. st_operation_id s = ex_active_operation_id e) (ex_steps e)"

definition request_finalization ::
    "int \<Rightarrow> datetime \<Rightarrow> execution \<Rightarrow> domain_error + execution" where
  "request_finalization expected_version now e =
     (if ex_operation_mode e \<noteq> OM_MULTI then Inl InvalidStateTransitionError
      else if ex_status e \<noteq> ES_WAITING_FOR_OPERATION then Inl InvalidStateTransitionError
      else if ex_version e \<noteq> expected_version then Inl ExecutionVersionConflictError
      else if active_steps e = [] \<or> list_ex (\<lambda>s. st_status s \<noteq> SS_SUCCEEDED) (active_steps e)
        then Inl InvalidStateTransitionError
      else bind_res (require_execution_transition (ex_status e) ES_FINALIZING) (\<lambda>_.
        Inr (e\<lparr>ex_status := ES_FINALIZING,
               ex_finalization_requested := True,
               ex_finalized_by := Some FB_AGENT,
               ex_operation_wait_expires_at := None,
               ex_updated_at := now,
               ex_version := ex_version e + 1\<rparr>)))"

subsection \<open>What the requests do\<close>

lemmas request_defs =
  request_cancel_def request_retry_def request_operation_def request_finalization_def

lemma request_cancel_Inr_iff:
  "request_cancel k reason now e = Inr e' \<longleftrightarrow>
     \<not> execution_status_is_terminal (ex_status e) \<and>
     (if ex_status e = ES_CANCEL_REQUESTED then e' = e
      else e' = e\<lparr>ex_status := ES_CANCEL_REQUESTED, ex_cancel_idempotency_key := Some k,
                  ex_cancellation_reason := reason, ex_operation_wait_expires_at := None,
                  ex_version := ex_version e + 1, ex_updated_at := now\<rparr>)"
  by (cases "ex_status e")
    (auto simp: request_cancel_def execution_status_is_terminal_def)

lemma forget_runtime_session_simps [simp]:
  "ex_status (forget_runtime_session e) = ex_status e"
  "ex_retry_from_sequence (forget_runtime_session e) = Some 0"
  "ex_runtime_session_id (forget_runtime_session e) = None"
  "ex_runtime_target_id (forget_runtime_session e) = None"
  "ex_version (forget_runtime_session e) = ex_version e"
  "ex_retry_count (forget_runtime_session e) = ex_retry_count e"
  "ex_steps (forget_runtime_session e) = ex_steps e"
  by (simp_all add: forget_runtime_session_def)

text \<open>A retry is granted exactly on these conditions, and then requeues the Execution.\<close>

definition retry_granted :: "datetime \<Rightarrow> execution \<Rightarrow> bool" where
  "retry_granted now e \<longleftrightarrow>
     ex_status e = ES_FAILED \<and> ex_operation_mode e = OM_SINGLE \<and>
     ex_active_operation_id e \<noteq> None \<and>
     (case ex_retry_strategy e of
        RS_NOT_RETRYABLE \<Rightarrow> False
      | RS_FROM_FAILED_STEP \<Rightarrow> \<not> retained_session_unusable now e
      | RS_FROM_START \<Rightarrow> \<not> cleanup_unresolved e)"

lemma request_retry_Inr_iff:
  "request_retry now e = Inr e' \<longleftrightarrow>
     retry_granted now e \<and>
     e' = (if ex_retry_strategy e = RS_FROM_START
           then requeue_for_retry 0 now (forget_runtime_session e)
           else requeue_for_retry (the (ex_retry_from_sequence e)) now e)"
  by (cases "ex_retry_strategy e")
    (auto simp: request_retry_def retry_granted_def retained_session_unusable_def Let_def
        split: option.splits)

lemma request_retry_Inl: "request_retry now e = Inl err \<Longrightarrow> err = InvalidStateTransitionError"
  by (auto simp: request_retry_def Let_def split: if_splits option.splits)

lemma request_operation_Inr_iff:
  "request_operation v now e = Inr e' \<longleftrightarrow>
     ex_operation_mode e = OM_MULTI \<and> ex_status e = ES_WAITING_FOR_OPERATION \<and>
     ex_version e = v \<and>
     e' = e\<lparr>ex_status := ES_QUEUED, ex_finalization_requested := False,
            ex_operation_wait_expires_at := None, ex_updated_at := now,
            ex_version := ex_version e + 1\<rparr>"
  by (auto simp: request_operation_def)

lemma request_finalization_Inr_iff:
  "request_finalization v now e = Inr e' \<longleftrightarrow>
     ex_operation_mode e = OM_MULTI \<and> ex_status e = ES_WAITING_FOR_OPERATION \<and>
     ex_version e = v \<and> active_steps e \<noteq> [] \<and>
     (\<forall>s\<in>set (active_steps e). st_status s = SS_SUCCEEDED) \<and>
     e' = e\<lparr>ex_status := ES_FINALIZING, ex_finalization_requested := True,
            ex_finalized_by := Some FB_AGENT, ex_operation_wait_expires_at := None,
            ex_updated_at := now, ex_version := ex_version e + 1\<rparr>"
  by (auto simp: request_finalization_def list_ex_iff)

lemma requeue_for_retry_simps [simp]:
  "ex_status (requeue_for_retry n now e) = ES_QUEUED"
  "ex_version (requeue_for_retry n now e) = ex_version e + 1"
  "ex_retry_count (requeue_for_retry n now e) = ex_retry_count e + 1"
  "ex_lease_owner (requeue_for_retry n now e) = None"
  "ex_lease_expires_at (requeue_for_retry n now e) = None"
  "ex_steps (requeue_for_retry n now e) = map (reset_step_for_retry n now) (ex_steps e)"
  by (simp_all add: requeue_for_retry_def)

lemma reset_step_for_retry_simps [simp]:
  "st_id (reset_step_for_retry n now s) = st_id s"
  "st_sequence (reset_step_for_retry n now s) = st_sequence s"
  "st_operation_id (reset_step_for_retry n now s) = st_operation_id s"
  "st_sequence s < n \<Longrightarrow> reset_step_for_retry n now s = s"
  "\<not> st_sequence s < n \<Longrightarrow> st_status (reset_step_for_retry n now s) = SS_PENDING"
  "\<not> st_sequence s < n \<Longrightarrow> st_result_execution_attempt_id (reset_step_for_retry n now s) = None"
  by (simp_all add: reset_step_for_retry_def)

subsection \<open>The contract every request keeps\<close>

text \<open>
  What never changes after submission: the identity of the Execution, who it belongs to, what
  it runs on, and which Steps it has in which order.
\<close>

definition execution_identity ::
    "execution \<Rightarrow> uuid \<times> string \<times> string \<times> string \<times> operation_mode \<times> (uuid \<times> int) list" where
  "execution_identity e =
     (ex_id e, ex_tenant_id e, ex_idempotency_key e, ex_request_fingerprint e,
      ex_operation_mode e, map (\<lambda>s. (st_id s, st_sequence s)) (ex_steps e))"

locale execution_request =
  fixes request :: "execution \<Rightarrow> domain_error + execution"
  assumes request_step:
      "request e = Inr e' \<Longrightarrow> e' = e \<or>
        (allowed_transition (ex_status e) (ex_status e') \<and> ex_version e' = ex_version e + 1)"
    and request_identity: "request e = Inr e' \<Longrightarrow> execution_identity e' = execution_identity e"
begin

lemma version_mono: "request e = Inr e' \<Longrightarrow> ex_version e \<le> ex_version e'"
  by (auto dest: request_step)

lemma same_version_same_execution: "request e = Inr e' \<Longrightarrow> ex_version e' = ex_version e \<Longrightarrow> e' = e"
  by (auto dest: request_step)

lemma finished_is_final:
  "request e = Inr e' \<Longrightarrow> ex_status e \<in> {ES_CANCELLED, ES_SUCCEEDED} \<Longrightarrow> e' = e"
  by (auto dest!: request_step)

lemma identity_of_run:
  "foldM_res (\<lambda>e (_ :: 'x). request e) e xs = Inr e' \<Longrightarrow>
     execution_identity e' = execution_identity e"
  by (rule foldM_res_invariant [where I = "\<lambda>x. execution_identity x = execution_identity e"])
    (auto dest: request_identity)

end

interpretation cancel: execution_request "request_cancel k reason now"
  by unfold_locales
    (auto simp: request_cancel_Inr_iff execution_identity_def allowed_cancel_iff split: if_splits)

interpretation retry: execution_request "request_retry now"
  by unfold_locales
    (auto simp: request_retry_Inr_iff retry_granted_def execution_identity_def
      requeue_for_retry_def forget_runtime_session_def)

interpretation operation: execution_request "request_operation v now"
  by unfold_locales (auto simp: request_operation_Inr_iff execution_identity_def)

interpretation finalization: execution_request "request_finalization v now"
  by unfold_locales (auto simp: request_finalization_Inr_iff execution_identity_def)

end
