(* ===== verification/Database.thy ===== *)
theory Database
  imports Domain_Models Json_Text
begin

text \<open>
  \<open>infrastructure/db/models\<close>: the rows of the tables the service keeps in PostgreSQL,
  and the database as the record of its tables. A row that shares columns with a domain
  entity extends the same base record of \<open>Domain_Models\<close>. Column widths are not modelled;
  the uniqueness and check constraints are in \<open>Repository\<close>, where rows are flushed.
\<close>

subsection \<open>Rows\<close>

record step_orm = step_fields +
  st_execution_id :: uuid

record execution_orm = execution_fields +
  ex_fencing_token :: int
  ex_cancellation_lease_owner :: "string option"
  ex_cancellation_lease_expires_at :: "datetime option"

record operation_orm = operation_fields +
  op_failure_type :: "failure_type option"

record execution_retry_orm =
  er_id :: uuid
  er_execution_id :: uuid
  er_idempotency_key :: string
  er_from_sequence :: int
  er_created_at :: datetime

record attempt_orm =
  at_id :: uuid
  at_execution_id :: uuid
  at_attempt_number :: int
  at_runtime_type :: runtime_type
  at_runtime_profile :: string
  at_runtime_target_id :: uuid
  at_runtime_session_id :: "string option"
  at_status :: attempt_status
  at_lease_owner :: "string option"
  at_lease_expires_at :: "datetime option"
  at_heartbeat_at :: datetime
  at_fencing_token :: int
  at_error_message :: "string option"
  at_failure_type :: "failure_type option"
  at_retry_strategy :: retry_strategy
  at_runtime_session_cleanup_status :: runtime_session_cleanup_status
  at_runtime_abort_status :: runtime_abort_status
  at_created_by_client :: "string option"
  at_created_by :: "string option"
  at_updated_by_client :: "string option"
  at_updated_by :: "string option"
  at_created_at :: datetime
  at_updated_at :: datetime
  at_started_at :: datetime
  at_finished_at :: "datetime option"

record step_attempt_orm =
  sa_id :: uuid
  sa_execution_id :: uuid
  sa_execution_attempt_id :: uuid
  sa_execution_step_id :: uuid
  sa_sequence :: int
  sa_skill_name :: "string option"
  sa_tool_name :: "string option"
  sa_input_parameters :: json
  sa_status :: step_status
  sa_output_summary :: json
  sa_result_manifest_path :: "string option"
  sa_result_manifest_checksum_sha256 :: "string option"
  sa_result_manifest_size_bytes :: "int option"
  sa_result_fencing_token :: "int option"
  sa_result_complete :: "bool option"
  sa_result_representation_count :: int
  sa_result_total_size_bytes :: int
  sa_error_message :: "string option"
  sa_created_by_client :: "string option"
  sa_created_by :: "string option"
  sa_updated_by_client :: "string option"
  sa_updated_by :: "string option"
  sa_created_at :: datetime
  sa_updated_at :: datetime
  sa_started_at :: datetime
  sa_finished_at :: "datetime option"

record step_run_orm =
  sr_execution_step_attempt_id :: uuid
  sr_execution_id :: uuid
  sr_request_id :: uuid
  sr_artifact_baseline :: json
  sr_submitted_at :: "datetime option"
  sr_created_at :: datetime

record handover_orm =
  ho_execution_id :: uuid
  ho_reason :: handover_reason
  ho_paused_since :: datetime
  ho_created_at :: datetime

record command_receipt_orm =
  cr_id :: uuid
  cr_scope :: string
  cr_idempotency_key :: string
  cr_command_type :: string
  cr_request_fingerprint :: string
  cr_result :: json
  cr_created_at :: datetime

record runtime_target_orm =
  rt_id :: uuid
  rt_name :: string
  rt_runtime_type :: runtime_type
  rt_connection_config :: json
  rt_connection_key :: string
  rt_credential_ref :: string
  rt_credential_ciphertext :: "string option"
  rt_pool :: runtime_pool
  rt_status :: runtime_target_status
  rt_max_concurrent_executions :: int
  rt_supported_profiles :: "string list"
  rt_enabled :: bool
  rt_last_health_check_at :: "datetime option"
  rt_last_health_error :: "string option"
  rt_active_session_count :: "int option"
  rt_session_count_observed_at :: "datetime option"
  rt_resource_observed_at :: "datetime option"
  rt_resource_last_check_at :: "datetime option"
  rt_resource_last_error :: "string option"
  rt_resource_source :: "string option"
  rt_resource_estimated :: "bool option"
  rt_resource_process_count :: "int option"
  rt_cpu_used_cores :: "rat option"
  rt_cpu_capacity_cores :: "rat option"
  rt_cpu_utilization :: "rat option"
  rt_memory_used_bytes :: "int option"
  rt_memory_capacity_bytes :: "int option"
  rt_memory_utilization :: "rat option"
  rt_resource_errors :: "string list"
  rt_created_by_client :: "string option"
  rt_created_by :: "string option"
  rt_updated_by_client :: "string option"
  rt_updated_by :: "string option"
  rt_created_at :: datetime
  rt_updated_at :: datetime

record event_sequence_orm =
  es_execution_id :: uuid
  es_last_sequence :: int

record outbox_event_orm =
  ob_id :: uuid
  ob_aggregate_type :: string
  ob_aggregate_id :: uuid
  ob_event_type :: string
  ob_event_sequence :: int
  ob_execution_event_id :: uuid
  ob_created_by_client :: "string option"
  ob_created_by :: "string option"
  ob_updated_by_client :: "string option"
  ob_updated_by :: "string option"
  ob_status :: outbox_status
  ob_attempt_count :: int
  ob_available_at :: datetime
  ob_created_at :: datetime
  ob_updated_at :: datetime
  ob_published_at :: "datetime option"
  ob_last_error :: "string option"

record artifact_orm =
  ar_id :: uuid
  ar_execution_id :: uuid
  ar_execution_attempt_id :: "uuid option"
  ar_execution_step_id :: "uuid option"
  ar_execution_step_attempt_id :: "uuid option"
  ar_parent_artifact_id :: "uuid option"
  ar_external_parent_asset_id :: "string option"
  ar_artifact_type :: artifact_type
  ar_storage_type :: artifact_storage_type
  ar_status :: artifact_status
  ar_name :: string
  ar_description :: "string option"
  ar_uri :: string
  ar_relative_path :: "string option"
  ar_media_type :: "string option"
  ar_size_bytes :: "int option"
  ar_checksum_sha256 :: "string option"
  ar_artifact_metadata :: json
  ar_identity_hash :: string
  ar_created_by_client :: "string option"
  ar_created_by :: "string option"
  ar_updated_by_client :: "string option"
  ar_updated_by :: "string option"
  ar_created_at :: datetime
  ar_updated_at :: datetime

record diagnostic_orm =
  dg_id :: uuid
  dg_execution_id :: uuid
  dg_attempt_id :: "uuid option"
  dg_operation_id :: "uuid option"
  dg_step_id :: "uuid option"
  dg_step_sequence :: "int option"
  dg_fencing_token :: int
  dg_detail :: json
  dg_occurred_at :: datetime
  dg_created_at :: datetime
  dg_updated_at :: datetime
  dg_created_by_client :: "string option"
  dg_created_by :: "string option"
  dg_updated_by_client :: "string option"
  dg_updated_by :: "string option"

record db =
  db_executions :: "execution_orm list"
  db_steps :: "step_orm list"
  db_operations :: "operation_orm list"
  db_retries :: "execution_retry_orm list"
  db_attempts :: "attempt_orm list"
  db_step_attempts :: "step_attempt_orm list"
  db_step_runs :: "step_run_orm list"
  db_handovers :: "handover_orm list"
  db_receipts :: "command_receipt_orm list"
  db_targets :: "runtime_target_orm list"
  db_event_sequences :: "event_sequence_orm list"
  db_events :: "execution_event list"
  db_outbox :: "outbox_event_orm list"
  db_artifacts :: "artifact_orm list"
  db_diagnostics :: "diagnostic_orm list"
  db_admission :: "executor_admission_state option"

definition empty_db :: db where
  "empty_db = \<lparr>db_executions = [], db_steps = [], db_operations = [], db_retries = [],
     db_attempts = [], db_step_attempts = [], db_step_runs = [], db_handovers = [],
     db_receipts = [], db_targets = [], db_event_sequences = [], db_events = [],
     db_outbox = [], db_artifacts = [], db_diagnostics = [], db_admission = None\<rparr>"

end
