(* ===== verification/Repository.thy ===== *)
theory Repository
  imports Database
begin

text \<open>
  \<open>infrastructure/db/repositories.py\<close> with the conversions and constraints of
  \<open>infrastructure/db/models\<close>: how an Execution becomes rows and is read back, which rows
  the database accepts when a session flushes, and the operations of
  \<open>SQLAlchemyExecutionRepository\<close>. An insert that violates a constraint is \<open>None\<close>; the
  caller decides whether that surfaces as \<open>IntegrityError\<close> (an explicit \<open>flush\<close>) or as
  \<open>PersistenceConflictError\<close> (\<open>commit\<close> translates it).

  The lemmas show the round trip of an Execution through its rows, exactly what \<open>save\<close>
  writes, and that of two saves from one version only the first succeeds. The repository port
  of \<open>domain/ports.py\<close> is the locale \<open>versioned_store\<close>, interpreted on these definitions.
\<close>

named_theorems row_simps

subsection \<open>Conversions between entities and rows\<close>

definition step_from_domain :: "uuid \<Rightarrow> execution_step \<Rightarrow> step_orm" where
  "step_from_domain execution_id s =
     step_fields.extend (step_fields.truncate s) (step_orm.fields execution_id)"

definition step_to_domain :: "step_orm \<Rightarrow> execution_step" where
  "step_to_domain row =
     step_fields.extend (step_fields.truncate row) (execution_step.fields [])"

definition execution_from_domain :: "execution \<Rightarrow> execution_orm" where
  "execution_from_domain e =
     execution_fields.extend (execution_fields.truncate e) (execution_orm.fields 0 None None)"

text \<open>The relationship \<open>steps\<close>: the rows of the Execution, ordered by \<open>sequence\<close>.\<close>

definition steps_of :: "db \<Rightarrow> uuid \<Rightarrow> step_orm list" where
  "steps_of d execution_id =
     sort_key st_sequence (filter (\<lambda>s. st_execution_id s = execution_id) (db_steps d))"

definition execution_to_domain :: "db \<Rightarrow> execution_orm \<Rightarrow> execution" where
  "execution_to_domain d row =
     execution_fields.extend (execution_fields.truncate row)
       (execution.fields (map step_to_domain (steps_of d (ex_id row))))"

definition operation_from_domain :: "execution_operation \<Rightarrow> operation_orm" where
  "operation_from_domain operation =
     operation_fields.extend (operation_fields.truncate operation) (operation_orm.fields None)"

subsection \<open>Constraints\<close>

fun opt_ge :: "int \<Rightarrow> int option \<Rightarrow> bool" where
  "opt_ge n None = True"
| "opt_ge n (Some i) = (n \<le> i)"

definition execution_row_ok :: "execution_orm \<Rightarrow> bool" where
  "execution_row_ok r \<longleftrightarrow>
     (case ex_operation_mode r of
        OM_SINGLE \<Rightarrow> ex_operation_wait_timeout_seconds r = None
      | OM_MULTI \<Rightarrow> opt_ge 30 (ex_operation_wait_timeout_seconds r)) \<and>
     0 \<le> ex_retry_count r \<and> 0 \<le> ex_recovery_count r \<and>
     opt_ge 0 (ex_retry_from_sequence r) \<and> 0 \<le> ex_fencing_token r \<and>
     0 \<le> ex_notebook_projection_attempt_count r"

definition step_row_ok :: "step_orm \<Rightarrow> bool" where
  "step_row_ok r \<longleftrightarrow>
     0 \<le> st_sequence r \<and> opt_ge 1 (st_step_timeout_seconds r) \<and>
     (case st_source_type r of
        CS_INLINE \<Rightarrow> st_source_path r = None
      | CS_PATH \<Rightarrow> st_source_path r \<noteq> None) \<and>
     st_operation_id r \<noteq> None \<and> st_source_snapshot_path r \<noteq> None \<and>
     st_source_size_bytes r \<noteq> None"

definition operation_row_ok :: "operation_orm \<Rightarrow> bool" where
  "operation_row_ok r \<longleftrightarrow>
     0 < op_operation_number r \<and> op_schema_version r = ''1.0'' \<and>
     0 \<le> op_first_sequence r \<and> op_first_sequence r \<le> op_last_sequence r \<and>
     opt_ge 1 (op_operation_timeout_seconds r)"

definition insert_execution :: "execution_orm \<Rightarrow> db \<Rightarrow> db option" where
  "insert_execution r d =
     (if execution_row_ok r \<and>
         list_all (\<lambda>x. ex_id x \<noteq> ex_id r \<and>
           \<not> (ex_tenant_id x = ex_tenant_id r \<and> ex_idempotency_key x = ex_idempotency_key r))
           (db_executions d)
      then Some (d\<lparr>db_executions := db_executions d @ [r]\<rparr>) else None)"

definition insert_operation :: "operation_orm \<Rightarrow> db \<Rightarrow> db option" where
  "insert_operation r d =
     (if operation_row_ok r \<and>
         list_all (\<lambda>x. op_id x \<noteq> op_id r \<and>
           \<not> (op_execution_id x = op_execution_id r \<and>
              (op_operation_number x = op_operation_number r \<or>
               op_idempotency_key x = op_idempotency_key r))) (db_operations d) \<and>
         list_ex (\<lambda>e. ex_id e = op_execution_id r) (db_executions d)
      then Some (d\<lparr>db_operations := db_operations d @ [r]\<rparr>) else None)"

definition insert_step :: "step_orm \<Rightarrow> db \<Rightarrow> db option" where
  "insert_step r d =
     (if step_row_ok r \<and>
         list_all (\<lambda>x. st_id x \<noteq> st_id r \<and>
           \<not> (st_execution_id x = st_execution_id r \<and> st_sequence x = st_sequence r)) (db_steps d) \<and>
         list_ex (\<lambda>e. ex_id e = st_execution_id r) (db_executions d) \<and>
         list_ex (\<lambda>q. Some (op_id q) = st_operation_id r) (db_operations d)
      then Some (d\<lparr>db_steps := db_steps d @ [r]\<rparr>) else None)"

fun insert_steps :: "step_orm list \<Rightarrow> db \<Rightarrow> db option" where
  "insert_steps [] d = Some d"
| "insert_steps (r # rs) d = Option.bind (insert_step r d) (insert_steps rs)"

definition insert_retry_receipt :: "execution_retry_orm \<Rightarrow> db \<Rightarrow> db option" where
  "insert_retry_receipt r d =
     (if 0 \<le> er_from_sequence r \<and>
         list_all (\<lambda>x. er_id x \<noteq> er_id r \<and>
           \<not> (er_execution_id x = er_execution_id r \<and>
              er_idempotency_key x = er_idempotency_key r)) (db_retries d)
      then Some (d\<lparr>db_retries := db_retries d @ [r]\<rparr>) else None)"

definition insert_command_receipt :: "command_receipt_orm \<Rightarrow> db \<Rightarrow> db option" where
  "insert_command_receipt r d =
     (if list_all (\<lambda>x. cr_id x \<noteq> cr_id r \<and>
           \<not> (cr_scope x = cr_scope r \<and> cr_idempotency_key x = cr_idempotency_key r))
           (db_receipts d)
      then Some (d\<lparr>db_receipts := db_receipts d @ [r]\<rparr>) else None)"

subsection \<open>Repository operations\<close>

definition execution_row :: "db \<Rightarrow> uuid \<Rightarrow> execution_orm option" where
  "execution_row d execution_id = scalar (\<lambda>r. ex_id r = execution_id) (db_executions d)"

definition repo_get :: "db \<Rightarrow> uuid \<Rightarrow> execution option" where
  "repo_get d execution_id = map_option (execution_to_domain d) (execution_row d execution_id)"

definition get_by_submit_key :: "db \<Rightarrow> string \<Rightarrow> string \<Rightarrow> execution option" where
  "get_by_submit_key d tenant_id idempotency_key =
     map_option (execution_to_domain d)
       (scalar (\<lambda>r. ex_tenant_id r = tenant_id \<and> ex_idempotency_key r = idempotency_key)
         (db_executions d))"

definition get_by_cancel_key :: "db \<Rightarrow> uuid \<Rightarrow> string \<Rightarrow> execution option" where
  "get_by_cancel_key d execution_id idempotency_key =
     map_option (execution_to_domain d)
       (scalar (\<lambda>r. ex_id r = execution_id \<and> ex_cancel_idempotency_key r = Some idempotency_key)
         (db_executions d))"

definition get_by_retry_key :: "db \<Rightarrow> uuid \<Rightarrow> string \<Rightarrow> execution option" where
  "get_by_retry_key d execution_id idempotency_key =
     (case scalar (\<lambda>r. er_execution_id r = execution_id \<and> er_idempotency_key r = idempotency_key)
         (db_retries d) of
        None \<Rightarrow> None
      | Some retry \<Rightarrow> repo_get d (er_execution_id retry))"

definition execution_receipt_scope :: "uuid \<Rightarrow> string" where
  "execution_receipt_scope execution_id = ''execution:'' @ uuid_str execution_id"

definition get_command_receipt ::
    "db \<Rightarrow> uuid \<Rightarrow> string \<Rightarrow> (string \<times> string \<times> json) option" where
  "get_command_receipt d execution_id idempotency_key =
     map_option (\<lambda>r. (cr_command_type r, cr_request_fingerprint r, cr_result r))
       (scalar (\<lambda>r. cr_scope r = execution_receipt_scope execution_id \<and>
                    cr_idempotency_key r = idempotency_key) (db_receipts d))"

definition next_operation_number :: "db \<Rightarrow> uuid \<Rightarrow> int" where
  "next_operation_number d execution_id =
     foldr max (map op_operation_number
       (filter (\<lambda>q. op_execution_id q = execution_id) (db_operations d))) 0 + 1"

definition get_operation_id_by_key :: "db \<Rightarrow> uuid \<Rightarrow> string \<Rightarrow> uuid option" where
  "get_operation_id_by_key d execution_id idempotency_key =
     map_option op_id
       (scalar (\<lambda>q. op_execution_id q = execution_id \<and> op_idempotency_key q = idempotency_key)
         (db_operations d))"

definition requeue_operation_for_retry ::
    "uuid \<Rightarrow> string option \<Rightarrow> string option \<Rightarrow> datetime \<Rightarrow> db \<Rightarrow> domain_error + db" where
  "requeue_operation_for_retry operation_id updated_by_client updated_by now d =
     (let P = (\<lambda>q. op_id q = operation_id \<and> op_status q = OS_FAILED) in
      if rowcount P (db_operations d) \<noteq> 1 then Inl PersistenceConflictError
      else Inr (d\<lparr>db_operations := update_where P
        (\<lambda>q. q\<lparr>op_status := OS_QUEUED, op_execution_attempt_id := None,
               op_error_message := None, op_updated_by_client := updated_by_client,
               op_updated_by := updated_by, op_updated_at := now, op_started_at := None,
               op_finished_at := None\<rparr>) (db_operations d)\<rparr>))"

text \<open>
  \<open>save\<close> is an optimistic update: it writes the listed columns where the stored version is
  one less than the entity's, and then the listed columns of every Step by its id.
\<close>

definition save_execution_values :: "execution \<Rightarrow> execution_orm \<Rightarrow> execution_orm" where
  "save_execution_values e r = r
     \<lparr>ex_status := ex_status e,
      ex_cancel_idempotency_key := ex_cancel_idempotency_key e,
      ex_cancellation_reason := ex_cancellation_reason e,
      ex_version := ex_version e,
      ex_updated_at := ex_updated_at e,
      ex_started_at := ex_started_at e,
      ex_finished_at := ex_finished_at e,
      ex_error_message := ex_error_message e,
      ex_failure_type := ex_failure_type e,
      ex_lease_owner := ex_lease_owner e,
      ex_lease_expires_at := ex_lease_expires_at e,
      ex_heartbeat_at := ex_heartbeat_at e,
      ex_retry_strategy := ex_retry_strategy e,
      ex_retry_from_sequence := ex_retry_from_sequence e,
      ex_retained_runtime_session_until := ex_retained_runtime_session_until e,
      ex_retry_count := ex_retry_count e,
      ex_recovery_count := ex_recovery_count e,
      ex_runtime_session_cleanup_status := ex_runtime_session_cleanup_status e,
      ex_finalization_requested := ex_finalization_requested e,
      ex_finalized_by := ex_finalized_by e,
      ex_active_operation_id := ex_active_operation_id e,
      ex_operation_wait_expires_at := ex_operation_wait_expires_at e,
      ex_execution_expires_at := ex_execution_expires_at e,
      ex_updated_by_client := ex_updated_by_client e,
      ex_updated_by := ex_updated_by e\<rparr>"

definition save_step_values :: "execution_step \<Rightarrow> step_orm \<Rightarrow> step_orm" where
  "save_step_values s r = r
     \<lparr>st_status := st_status s,
      st_source_type := st_source_type s,
      st_source_path := st_source_path s,
      st_source_sha256 := st_source_sha256 s,
      st_source_snapshot_path := st_source_snapshot_path s,
      st_source_size_bytes := st_source_size_bytes s,
      st_code_hash := st_code_hash s,
      st_step_timeout_seconds := st_step_timeout_seconds s,
      st_updated_by_client := st_updated_by_client s,
      st_updated_by := st_updated_by s,
      st_output_summary := st_output_summary s,
      st_result_execution_attempt_id := st_result_execution_attempt_id s,
      st_result_manifest_path := st_result_manifest_path s,
      st_result_manifest_checksum_sha256 := st_result_manifest_checksum_sha256 s,
      st_result_fencing_token := st_result_fencing_token s,
      st_result_complete := st_result_complete s,
      st_result_representation_count := st_result_representation_count s,
      st_result_total_size_bytes := st_result_total_size_bytes s,
      st_error_message := st_error_message s,
      st_updated_at := st_updated_at s,
      st_started_at := st_started_at s,
      st_finished_at := st_finished_at s\<rparr>"

definition save_steps :: "execution_step list \<Rightarrow> step_orm list \<Rightarrow> step_orm list" where
  "save_steps steps t =
     fold (\<lambda>s. update_where (\<lambda>r. st_id r = st_id s) (save_step_values s)) steps t"

definition repo_save :: "execution \<Rightarrow> db \<Rightarrow> domain_error + db" where
  "repo_save e d =
     (let P = (\<lambda>r. ex_id r = ex_id e \<and> ex_version r = ex_version e - 1) in
      if rowcount P (db_executions d) \<noteq> 1 then Inl PersistenceConflictError
      else Inr (d\<lparr>db_executions := update_where P (save_execution_values e) (db_executions d),
                  db_steps := save_steps (ex_steps e) (db_steps d)\<rparr>))"

subsection \<open>Round trip through the rows\<close>

lemmas conversion_defs [row_simps] =
  step_from_domain_def step_to_domain_def execution_from_domain_def execution_to_domain_def
  operation_from_domain_def step_fields.defs step_orm.defs execution_step.defs
  execution_fields.defs execution_orm.defs execution.defs operation_fields.defs operation_orm.defs

text \<open>The source text lives in the snapshot file, not in the row.\<close>

definition without_code :: "execution \<Rightarrow> execution" where
  "without_code e = e\<lparr>ex_steps := map (\<lambda>s. s\<lparr>st_code := []\<rparr>) (ex_steps e)\<rparr>"

lemma step_roundtrip: "step_to_domain (step_from_domain i s) = s\<lparr>st_code := []\<rparr>"
  by (cases s) (simp add: row_simps)

lemma step_from_domain_sel [simp]:
  "st_id (step_from_domain i s) = st_id s"
  "st_sequence (step_from_domain i s) = st_sequence s"
  "st_execution_id (step_from_domain i s) = i"
  "st_operation_id (step_from_domain i s) = st_operation_id s"
  "st_status (step_from_domain i s) = st_status s"
  by (simp_all add: row_simps)

lemma step_to_domain_sel [simp]:
  "st_id (step_to_domain r) = st_id r"
  "st_sequence (step_to_domain r) = st_sequence r"
  "st_operation_id (step_to_domain r) = st_operation_id r"
  "st_status (step_to_domain r) = st_status r"
  by (simp_all add: row_simps)

lemma execution_from_domain_sel [simp]:
  "ex_id (execution_from_domain e) = ex_id e"
  "ex_tenant_id (execution_from_domain e) = ex_tenant_id e"
  "ex_idempotency_key (execution_from_domain e) = ex_idempotency_key e"
  "ex_request_fingerprint (execution_from_domain e) = ex_request_fingerprint e"
  "ex_status (execution_from_domain e) = ex_status e"
  "ex_version (execution_from_domain e) = ex_version e"
  "ex_fencing_token (execution_from_domain e) = 0"
  "ex_lease_owner (execution_from_domain e) = ex_lease_owner e"
  by (simp_all add: row_simps)

lemma execution_to_domain_sel [simp]:
  "ex_id (execution_to_domain d r) = ex_id r"
  "ex_tenant_id (execution_to_domain d r) = ex_tenant_id r"
  "ex_idempotency_key (execution_to_domain d r) = ex_idempotency_key r"
  "ex_request_fingerprint (execution_to_domain d r) = ex_request_fingerprint r"
  "ex_cancel_idempotency_key (execution_to_domain d r) = ex_cancel_idempotency_key r"
  "ex_operation_mode (execution_to_domain d r) = ex_operation_mode r"
  "ex_status (execution_to_domain d r) = ex_status r"
  "ex_version (execution_to_domain d r) = ex_version r"
  "ex_active_operation_id (execution_to_domain d r) = ex_active_operation_id r"
  "ex_runtime_session_id (execution_to_domain d r) = ex_runtime_session_id r"
  "ex_runtime_target_id (execution_to_domain d r) = ex_runtime_target_id r"
  "ex_retry_strategy (execution_to_domain d r) = ex_retry_strategy r"
  "ex_retry_from_sequence (execution_to_domain d r) = ex_retry_from_sequence r"
  "ex_steps (execution_to_domain d r) = map step_to_domain (steps_of d (ex_id r))"
  by (simp_all add: row_simps)

lemma execution_roundtrip:
  assumes "map step_to_domain (steps_of d (ex_id e)) = map (\<lambda>s. s\<lparr>st_code := []\<rparr>) (ex_steps e)"
  shows "execution_to_domain d (execution_from_domain e) = without_code e"
  using assms by (cases e) (simp add: row_simps without_code_def)

subsection \<open>Well-formed databases\<close>

definition db_wf :: "db \<Rightarrow> bool" where
  "db_wf d \<longleftrightarrow>
     distinct (map ex_id (db_executions d)) \<and>
     distinct (map (\<lambda>r. (ex_tenant_id r, ex_idempotency_key r)) (db_executions d)) \<and>
     distinct (map st_id (db_steps d)) \<and>
     distinct (map (\<lambda>s. (st_execution_id s, st_sequence s)) (db_steps d)) \<and>
     distinct (map op_id (db_operations d)) \<and>
     (\<forall>s\<in>set (db_steps d). st_execution_id s \<in> ex_id ` set (db_executions d)) \<and>
     (\<forall>q\<in>set (db_operations d). op_execution_id q \<in> ex_id ` set (db_executions d))"

lemma db_wf_executions: "db_wf d \<Longrightarrow> distinct (map ex_id (db_executions d))"
  by (simp add: db_wf_def)

lemma db_wf_step_keys:
  "db_wf d \<Longrightarrow> distinct (map (\<lambda>s. (st_execution_id s, st_sequence s)) (db_steps d))"
  by (simp add: db_wf_def)

lemma db_wf_empty [simp]: "db_wf empty_db"
  by (simp add: db_wf_def empty_db_def)

lemma execution_row_SomeD:
  "execution_row d i = Some r \<Longrightarrow> r \<in> set (db_executions d) \<and> ex_id r = i"
  by (auto simp: execution_row_def dest: scalar_SomeD)

lemma execution_row_unique:
  "db_wf d \<Longrightarrow> r \<in> set (db_executions d) \<Longrightarrow> execution_row d (ex_id r) = Some r"
  unfolding execution_row_def by (rule scalar_key_unique [OF db_wf_executions]) simp_all

lemma insert_execution_SomeD:
  assumes "insert_execution r d = Some d'"
  shows "d' = d\<lparr>db_executions := db_executions d @ [r]\<rparr>" and "execution_row_ok r"
    and "ex_id r \<notin> ex_id ` set (db_executions d)"
    and "(ex_tenant_id r, ex_idempotency_key r) \<notin>
         (\<lambda>r. (ex_tenant_id r, ex_idempotency_key r)) ` set (db_executions d)"
proof -
  note g = assms [unfolded insert_execution_def list_all_iff list_ex_iff if_Some_eq, THEN conjunct1]
    and eq = assms [unfolded insert_execution_def list_all_iff list_ex_iff if_Some_eq, THEN conjunct2]
  show "d' = d\<lparr>db_executions := db_executions d @ [r]\<rparr>" by (rule eq)
  show "execution_row_ok r" using g by (simp add: image_key_iff ball_conj_distrib)
  show "ex_id r \<notin> ex_id ` set (db_executions d)" using g by (simp add: image_key_iff ball_conj_distrib)
  show "(ex_tenant_id r, ex_idempotency_key r) \<notin>
         (\<lambda>r. (ex_tenant_id r, ex_idempotency_key r)) ` set (db_executions d)" using g by (simp add: image_key_iff ball_conj_distrib)
qed

lemma insert_operation_SomeD:
  assumes "insert_operation r d = Some d'"
  shows "d' = d\<lparr>db_operations := db_operations d @ [r]\<rparr>" and "operation_row_ok r"
    and "op_id r \<notin> op_id ` set (db_operations d)"
    and "op_execution_id r \<in> ex_id ` set (db_executions d)"
proof -
  note g = assms [unfolded insert_operation_def list_all_iff list_ex_iff if_Some_eq, THEN conjunct1]
    and eq = assms [unfolded insert_operation_def list_all_iff list_ex_iff if_Some_eq, THEN conjunct2]
  show "d' = d\<lparr>db_operations := db_operations d @ [r]\<rparr>" by (rule eq)
  show "operation_row_ok r" using g by (simp add: image_key_iff ball_conj_distrib)
  show "op_id r \<notin> op_id ` set (db_operations d)" using g by (simp add: image_key_iff ball_conj_distrib)
  show "op_execution_id r \<in> ex_id ` set (db_executions d)" using g by (simp add: image_key_iff ball_conj_distrib)
qed

lemma insert_step_SomeD:
  assumes "insert_step r d = Some d'"
  shows "d' = d\<lparr>db_steps := db_steps d @ [r]\<rparr>" and "step_row_ok r"
    and "st_id r \<notin> st_id ` set (db_steps d)"
    and "(st_execution_id r, st_sequence r) \<notin>
         (\<lambda>s. (st_execution_id s, st_sequence s)) ` set (db_steps d)"
    and "st_execution_id r \<in> ex_id ` set (db_executions d)"
proof -
  note g = assms [unfolded insert_step_def list_all_iff list_ex_iff if_Some_eq, THEN conjunct1]
    and eq = assms [unfolded insert_step_def list_all_iff list_ex_iff if_Some_eq, THEN conjunct2]
  show "d' = d\<lparr>db_steps := db_steps d @ [r]\<rparr>" by (rule eq)
  show "step_row_ok r" using g by (simp add: image_key_iff ball_conj_distrib)
  show "st_id r \<notin> st_id ` set (db_steps d)" using g by (simp add: image_key_iff ball_conj_distrib)
  show "(st_execution_id r, st_sequence r) \<notin>
         (\<lambda>s. (st_execution_id s, st_sequence s)) ` set (db_steps d)" using g by (simp add: image_key_iff ball_conj_distrib)
  show "st_execution_id r \<in> ex_id ` set (db_executions d)" using g by (simp add: image_key_iff ball_conj_distrib)
qed

lemma insert_receipt_SomeD:
  "insert_command_receipt r d = Some d' \<Longrightarrow> d' = d\<lparr>db_receipts := db_receipts d @ [r]\<rparr>"
  "insert_retry_receipt q d = Some d' \<Longrightarrow> d' = d\<lparr>db_retries := db_retries d @ [q]\<rparr>"
  unfolding insert_command_receipt_def insert_retry_receipt_def
  by (simp_all split: if_split_asm)

lemma insert_execution_wf: "db_wf d \<Longrightarrow> insert_execution r d = Some d' \<Longrightarrow> db_wf d'"
  using insert_execution_SomeD [of r d d'] unfolding db_wf_def by simp

lemma insert_operation_wf: "db_wf d \<Longrightarrow> insert_operation r d = Some d' \<Longrightarrow> db_wf d'"
  using insert_operation_SomeD [of r d d'] unfolding db_wf_def by simp

lemma insert_step_wf: "db_wf d \<Longrightarrow> insert_step r d = Some d' \<Longrightarrow> db_wf d'"
  using insert_step_SomeD [of r d d'] unfolding db_wf_def by simp

lemma insert_steps_wf: "db_wf d \<Longrightarrow> insert_steps rs d = Some d' \<Longrightarrow> db_wf d'"
proof (induction rs arbitrary: d)
  case (Cons r rs)
  from Cons.prems obtain d1 where "insert_step r d = Some d1" "insert_steps rs d1 = Some d'"
    by (cases "insert_step r d") simp_all
  with Cons show ?case by (blast dest: insert_step_wf)
qed simp

lemma insert_steps_appends:
  "insert_steps rs d = Some d' \<Longrightarrow> d' = d\<lparr>db_steps := db_steps d @ rs\<rparr>"
proof (induction rs arbitrary: d)
  case (Cons r rs)
  from Cons.prems obtain d1 where "insert_step r d = Some d1" "insert_steps rs d1 = Some d'"
    by (cases "insert_step r d") simp_all
  with Cons.IH [of d1] insert_step_SomeD(1) [of r d d1] show ?case by simp
qed simp

lemma insert_receipt_wf:
  "db_wf d \<Longrightarrow> insert_command_receipt r d = Some d' \<Longrightarrow> db_wf d'"
  "db_wf d \<Longrightarrow> insert_retry_receipt q d = Some d' \<Longrightarrow> db_wf d'"
  using insert_receipt_SomeD(1) [of r d d'] insert_receipt_SomeD(2) [of q d d']
  unfolding db_wf_def by simp_all

lemma update_executions_wf:
  assumes "db_wf d"
    and "\<And>r. P r \<Longrightarrow> ex_id (f r) = ex_id r"
    and "\<And>r. P r \<Longrightarrow> ex_tenant_id (f r) = ex_tenant_id r"
    and "\<And>r. P r \<Longrightarrow> ex_idempotency_key (f r) = ex_idempotency_key r"
  shows "db_wf (d\<lparr>db_executions := update_where P f (db_executions d)\<rparr>)"
proof -
  let ?k = "\<lambda>r. (ex_tenant_id r, ex_idempotency_key r)"
  have ids: "map ex_id (update_where P f (db_executions d)) = map ex_id (db_executions d)"
    by (rule map_key_update_where) (rule assms(2))
  have keys: "map ?k (update_where P f (db_executions d)) = map ?k (db_executions d)"
    by (rule map_key_update_where) (simp add: assms(3,4))
  have img: "ex_id ` set (update_where P f (db_executions d)) = ex_id ` set (db_executions d)"
    by (metis ids list.set_map)
  show ?thesis using assms(1) by (simp add: db_wf_def ids keys img)
qed

lemma update_steps_wf:
  assumes "db_wf d" and "map st_id t = map st_id (db_steps d)"
    and "map st_execution_id t = map st_execution_id (db_steps d)"
    and "map st_sequence t = map st_sequence (db_steps d)"
  shows "db_wf (d\<lparr>db_steps := t\<rparr>)"
proof -
  have pair: "map (\<lambda>s. (st_execution_id s, st_sequence s)) t =
      map (\<lambda>s. (st_execution_id s, st_sequence s)) (db_steps d)"
    using assms(3,4) by (simp add: list_eq_iff_nth_eq)
  have img: "st_execution_id ` set t = st_execution_id ` set (db_steps d)"
    by (metis assms(3) list.set_map)
  have "\<forall>s\<in>set t. st_execution_id s \<in> ex_id ` set (db_executions d)"
    using assms(1) img by (fastforce simp: db_wf_def)
  then show ?thesis using assms(1,2) pair by (simp add: db_wf_def)
qed

subsection \<open>What save writes\<close>

lemma save_execution_values_sel [simp]:
  "ex_id (save_execution_values e r) = ex_id r"
  "ex_tenant_id (save_execution_values e r) = ex_tenant_id r"
  "ex_idempotency_key (save_execution_values e r) = ex_idempotency_key r"
  "ex_version (save_execution_values e r) = ex_version e"
  "ex_status (save_execution_values e r) = ex_status e"
  "ex_fencing_token (save_execution_values e r) = ex_fencing_token r"
  "ex_runtime_session_id (save_execution_values e r) = ex_runtime_session_id r"
  "ex_runtime_target_id (save_execution_values e r) = ex_runtime_target_id r"
  "ex_user_id (save_execution_values e r) = ex_user_id r"
  by (simp_all add: save_execution_values_def)

lemma save_steps_keys:
  "map st_id (save_steps ss t) = map st_id t"
  "map st_execution_id (save_steps ss t) = map st_execution_id t"
  "map st_sequence (save_steps ss t) = map st_sequence t"
  unfolding save_steps_def
  by (induction ss arbitrary: t) (simp_all add: map_key_update_where save_step_values_def)

lemma repo_save_Inr_iff:
  assumes "db_wf d"
  shows "repo_save e d = Inr d' \<longleftrightarrow>
    (\<exists>r. execution_row d (ex_id e) = Some r \<and> ex_version r = ex_version e - 1 \<and>
      d' = d\<lparr>db_executions := update_where (\<lambda>r. ex_id r = ex_id e \<and> ex_version r = ex_version e - 1)
                (save_execution_values e) (db_executions d),
             db_steps := save_steps (ex_steps e) (db_steps d)\<rparr>)"
  using rowcount_key_eq_1_iff [OF db_wf_executions [OF assms], of "ex_id e"
      "\<lambda>r. ex_version r = ex_version e - 1"]
  by (auto simp: repo_save_def Let_def execution_row_def split: if_splits)

lemma repo_save_error: "repo_save e d = Inl err \<Longrightarrow> err = PersistenceConflictError"
  by (auto simp: repo_save_def Let_def split: if_splits)

lemma repo_save_wf:
  assumes "db_wf d" and "repo_save e d = Inr d'"
  shows "db_wf d'"
proof -
  let ?P = "\<lambda>r. ex_id r = ex_id e \<and> ex_version r = ex_version e - 1"
  let ?d1 = "d\<lparr>db_executions := update_where ?P (save_execution_values e) (db_executions d)\<rparr>"
  have "db_wf ?d1" by (rule update_executions_wf [OF assms(1)]) simp_all
  then have "db_wf (?d1\<lparr>db_steps := save_steps (ex_steps e) (db_steps ?d1)\<rparr>)"
    by (rule update_steps_wf) (simp_all add: save_steps_keys)
  with assms show ?thesis by (auto simp: repo_save_Inr_iff)
qed

lemma repo_save_row:
  assumes wf: "db_wf d" and save: "repo_save e d = Inr d'"
  shows "execution_row d' i =
    (if i = ex_id e then map_option (save_execution_values e) (execution_row d i)
     else execution_row d i)"
proof -
  obtain r where r: "execution_row d (ex_id e) = Some r" "ex_version r = ex_version e - 1"
    and d': "db_executions d' = update_where (\<lambda>r. ex_id r = ex_id e \<and> ex_version r = ex_version e - 1)
                (save_execution_values e) (db_executions d)"
    using repo_save_Inr_iff [OF wf] save by auto
  have "execution_row d' i = map_option (\<lambda>r. if ex_id r = ex_id e \<and> ex_version r = ex_version e - 1
      then save_execution_values e r else r) (execution_row d i)"
    unfolding execution_row_def d' by (rule scalar_key_update_where) simp
  with r show ?thesis
    by (cases "execution_row d i") (auto dest: execution_row_SomeD)
qed

subsection \<open>The port: an optimistically versioned store\<close>

locale versioned_store =
  fixes wf :: "'s \<Rightarrow> bool"
    and stored_version :: "'s \<Rightarrow> 'k \<Rightarrow> int option"
    and save :: "'e \<Rightarrow> 's \<Rightarrow> 'err + 's"
    and key :: "'e \<Rightarrow> 'k"
    and version :: "'e \<Rightarrow> int"
  assumes save_keeps_wf: "wf s \<Longrightarrow> save e s = Inr s' \<Longrightarrow> wf s'"
    and save_accepts_iff: "wf s \<Longrightarrow>
      (\<exists>s'. save e s = Inr s') \<longleftrightarrow> stored_version s (key e) = Some (version e - 1)"
    and save_stores: "wf s \<Longrightarrow> save e s = Inr s' \<Longrightarrow>
      stored_version s' = (stored_version s)(key e := Some (version e))"
begin

text \<open>Two writers that read the same version cannot both save: no update is lost.\<close>

lemma second_save_rejected:
  assumes "wf s" and "save e s = Inr s'" and "key e' = key e" and "version e' = version e"
  shows "\<exists>err. save e' s' = Inl err"
proof (rule ccontr)
  assume "\<not> ?thesis"
  then have "\<exists>s''. save e' s' = Inr s''" by (cases "save e' s'") auto
  with assms save_accepts_iff [OF save_keeps_wf [OF assms(1,2)], of e'] save_stores [OF assms(1,2)]
  show False by simp
qed

lemma run_keeps_wf: "wf s \<Longrightarrow> foldM_res (\<lambda>s e. save e s) s es = Inr s' \<Longrightarrow> wf s'"
  by (rule foldM_res_invariant [where I = wf]) (auto dest: save_keeps_wf)

text \<open>The stored version counts the successful saves.\<close>

lemma version_counts_saves:
  assumes "wf s" and "foldM_res (\<lambda>s e. save e s) s es = Inr s'" and "stored_version s k = Some v"
  shows "stored_version s' k = Some (v + int (length (filter (\<lambda>e. key e = k) es)))"
  using assms
proof (induction es arbitrary: s v)
  case Nil
  then show ?case by simp
next
  case (Cons e es)
  then obtain s1 where s1: "save e s = Inr s1" and rest: "foldM_res (\<lambda>s e. save e s) s1 es = Inr s'"
    by (auto simp: bind_res_eq_Inr)
  note wf1 = save_keeps_wf [OF Cons.prems(1) s1]
  note stores = save_stores [OF Cons.prems(1) s1]
  have acc: "stored_version s (key e) = Some (version e - 1)"
    using save_accepts_iff [OF Cons.prems(1)] s1 by blast
  have "stored_version s1 k = Some (if key e = k then v + 1 else v)"
    using stores acc Cons.prems(3) by auto
  from Cons.IH [OF wf1 rest this] show ?case by simp
qed

end

definition stored_execution_version :: "db \<Rightarrow> uuid \<Rightarrow> int option" where
  "stored_execution_version d i = map_option ex_version (execution_row d i)"

interpretation repo: versioned_store db_wf stored_execution_version repo_save ex_id ex_version
proof
  show "db_wf s'" if "db_wf s" "repo_save e s = Inr s'" for s e s'
    using that by (rule repo_save_wf)
  show "(\<exists>s'. repo_save e s = Inr s') \<longleftrightarrow>
      stored_execution_version s (ex_id e) = Some (ex_version e - 1)" if "db_wf s" for s e
    using that by (auto simp: repo_save_Inr_iff stored_execution_version_def)
  show "stored_execution_version s' = (stored_execution_version s)(ex_id e := Some (ex_version e))"
    if "db_wf s" "repo_save e s = Inr s'" for s e s'
  proof
    fix i
    have "\<exists>r. execution_row s (ex_id e) = Some r" using that by (auto simp: repo_save_Inr_iff)
    then show "stored_execution_version s' i =
        ((stored_execution_version s)(ex_id e := Some (ex_version e))) i"
      by (auto simp: stored_execution_version_def repo_save_row [OF that])
  qed
qed

subsection \<open>The Steps of an Execution\<close>

lemma insort_key_append_le:
  "\<forall>b\<in>set B. f x \<le> f b \<Longrightarrow> insort_key f x (S @ B) = insort_key f x S @ B"
proof (induction S)
  case Nil
  then show ?case by (cases B) auto
qed auto

lemma sort_key_append_sorted:
  assumes "sorted (map f B)" and "\<forall>a\<in>set A. \<forall>b\<in>set B. f a \<le> f b"
  shows "sort_key f (A @ B) = sort_key f A @ B"
  using assms(2)
proof (induction A)
  case Nil
  show ?case using assms(1) by (simp add: sort_key_id_if_sorted)
next
  case (Cons a A)
  then show ?case by (simp add: insort_key_append_le)
qed

lemma steps_of_insert:
  assumes "sorted (map st_sequence ss)"
    and "\<forall>a\<in>set (steps_of d i). \<forall>s\<in>set ss. st_sequence a \<le> st_sequence s"
  shows "steps_of (d\<lparr>db_steps := db_steps d @ map (step_from_domain i) ss\<rparr>) i =
    steps_of d i @ map (step_from_domain i) ss"
  using assms unfolding steps_of_def
  by (simp add: comp_def filter_map) (subst sort_key_append_sorted; simp add: comp_def)

lemma steps_of_insert_other:
  "j \<noteq> i \<Longrightarrow> steps_of (d\<lparr>db_steps := db_steps d @ map (step_from_domain i) ss\<rparr>) j = steps_of d j"
  by (simp add: steps_of_def filter_map comp_def)

lemma insert_steps_Some:
  assumes "\<forall>r\<in>set rs. step_row_ok r \<and> st_execution_id r = i \<and> st_operation_id r = Some q"
    and "distinct (map st_id rs)" and "distinct (map st_sequence rs)"
    and "\<forall>r\<in>set rs. \<forall>x\<in>set (db_steps d). st_id x \<noteq> st_id r"
    and "\<forall>r\<in>set rs. \<forall>x\<in>set (db_steps d). st_execution_id x = i \<longrightarrow> st_sequence x \<noteq> st_sequence r"
    and "i \<in> ex_id ` set (db_executions d)" and "q \<in> op_id ` set (db_operations d)"
  shows "insert_steps rs d = Some (d\<lparr>db_steps := db_steps d @ rs\<rparr>)"
  using assms
proof (induction rs arbitrary: d)
  case (Cons r rs)
  have one: "insert_step r d = Some (d\<lparr>db_steps := db_steps d @ [r]\<rparr>)"
    using Cons.prems by (auto simp: insert_step_def list_all_iff list_ex_iff)
  have "insert_steps rs (d\<lparr>db_steps := db_steps d @ [r]\<rparr>) =
      Some (d\<lparr>db_steps := db_steps d @ [r], db_steps := (db_steps d @ [r]) @ rs\<rparr>)"
    using Cons.prems by (subst Cons.IH) (auto simp: image_iff)
  with one show ?case by simp
qed simp

text \<open>
  The numbering every command keeps: the Steps of an Execution are numbered 0, 1, 2, \<open>\<dots>\<close>
\<close>

definition steps_contiguous :: "db \<Rightarrow> bool" where
  "steps_contiguous d \<longleftrightarrow>
     (\<forall>e\<in>set (db_executions d).
        map st_sequence (steps_of d (ex_id e)) = map int [0..<length (steps_of d (ex_id e))])"

lemma set_steps_of: "set (steps_of d i) = {s \<in> set (db_steps d). st_execution_id s = i}"
  by (auto simp: steps_of_def)

lemma db_wf_step_owner:
  "db_wf d \<Longrightarrow> s \<in> set (db_steps d) \<Longrightarrow> st_execution_id s \<in> ex_id ` set (db_executions d)"
  by (simp add: db_wf_def)

lemma db_wf_operation_owner:
  "db_wf d \<Longrightarrow> q \<in> set (db_operations d) \<Longrightarrow> op_execution_id q \<in> ex_id ` set (db_executions d)"
  by (simp add: db_wf_def)

lemma steps_of_unused: "db_wf d \<Longrightarrow> i \<notin> ex_id ` set (db_executions d) \<Longrightarrow> steps_of d i = []"
proof (cases "steps_of d i")
  case (Cons s ss)
  assume wf: "db_wf d" and unused: "i \<notin> ex_id ` set (db_executions d)"
  have "s \<in> set (steps_of d i)" by (simp add: Cons)
  then have "s \<in> set (db_steps d)" and "st_execution_id s = i" by (simp_all add: set_steps_of)
  with wf unused show ?thesis using db_wf_step_owner by blast
qed simp

lemma numbered_append:
  assumes "map f xs = map int [0..<length xs]"
    and "map g ys = map (\<lambda>i. int (length xs) + int i) [0..<length ys]"
  shows "map f xs @ map g ys = map int [0..<length xs + length ys]"
proof -
  have "[0..<length xs + length ys] = [0..<length xs] @ map (\<lambda>i. length xs + i) [0..<length ys]"
    by (rule nth_equalityI) (simp_all add: nth_append)
  then show ?thesis by (simp add: assms comp_def)
qed

text \<open>Appending one Operation's Steps to one Execution keeps the numbering.\<close>

lemma steps_of_appended:
  assumes inv: "map st_sequence (steps_of d i) = map int [0..<length (steps_of d i)]"
    and new: "map st_sequence ss = map (\<lambda>k. int (length (steps_of d i)) + int k) [0..<length ss]"
    and steps: "db_steps d' = db_steps d @ map (step_from_domain i) ss"
  shows "steps_of d' i = steps_of d i @ map (step_from_domain i) ss"
    and "j \<noteq> i \<Longrightarrow> steps_of d' j = steps_of d j"
proof -
  have eq: "steps_of d' k = steps_of (d\<lparr>db_steps := db_steps d @ map (step_from_domain i) ss\<rparr>) k" for k
    by (simp add: steps_of_def steps)
  have sorted: "sorted (map st_sequence ss)" by (simp add: new)
  have le: "\<forall>a\<in>set (steps_of d i). \<forall>s\<in>set ss. st_sequence a \<le> st_sequence s"
  proof (intro ballI)
    fix a s assume "a \<in> set (steps_of d i)" and "s \<in> set ss"
    then have "st_sequence a \<in> set (map st_sequence (steps_of d i))"
      and "st_sequence s \<in> set (map st_sequence ss)" by simp_all
    then show "st_sequence a \<le> st_sequence s" unfolding inv new by auto
  qed
  show "steps_of d' i = steps_of d i @ map (step_from_domain i) ss"
    unfolding eq by (rule steps_of_insert [OF sorted le])
  show "steps_of d' j = steps_of d j" if "j \<noteq> i"
    using that unfolding eq by (rule steps_of_insert_other)
qed

lemma steps_contiguous_insert:
  assumes inv: "map st_sequence (steps_of d i) = map int [0..<length (steps_of d i)]"
    and others: "\<forall>e\<in>set (db_executions d'). ex_id e \<noteq> i \<longrightarrow>
        map st_sequence (steps_of d (ex_id e)) = map int [0..<length (steps_of d (ex_id e))]"
    and new: "map st_sequence ss = map (\<lambda>k. int (length (steps_of d i)) + int k) [0..<length ss]"
    and steps: "db_steps d' = db_steps d @ map (step_from_domain i) ss"
  shows "steps_contiguous d'"
proof -
  note own = steps_of_appended(1) [OF inv new steps]
    and other = steps_of_appended(2) [OF inv new steps]
  have "map st_sequence (steps_of d' (ex_id e)) = map int [0..<length (steps_of d' (ex_id e))]"
    if e: "e \<in> set (db_executions d')" for e
  proof (cases "ex_id e = i")
    case True
    then show ?thesis using numbered_append [OF inv new] by (simp add: own comp_def)
  next
    case False
    then show ?thesis using others e by (simp add: other)
  qed
  then show ?thesis by (simp add: steps_contiguous_def)
qed

subsection \<open>Saving keeps the numbering\<close>

lemma map_insort_key: "map f (insort_key f x xs) = insort (f x) (map f xs)"
  by (induction xs) simp_all

lemma map_sort_key: "map f (sort_key f xs) = sort (map f xs)"
  by (induction xs) (simp_all add: map_insort_key)

definition step_keys :: "db \<Rightarrow> (uuid \<times> int) list" where
  "step_keys d = map (\<lambda>s. (st_execution_id s, st_sequence s)) (db_steps d)"

lemma sequences_of_keys:
  "map st_sequence (steps_of d i) = sort (map snd (filter (\<lambda>p. fst p = i) (step_keys d)))"
  by (simp add: steps_of_def map_sort_key step_keys_def filter_map comp_def)

lemma length_steps_of_keys:
  "length (steps_of d i) = length (filter (\<lambda>p. fst p = i) (step_keys d))"
  by (simp add: steps_of_def step_keys_def filter_map comp_def)

lemma steps_contiguous_cong:
  assumes "ex_id ` set (db_executions d') = ex_id ` set (db_executions d)"
    and "step_keys d' = step_keys d"
  shows "steps_contiguous d' \<longleftrightarrow> steps_contiguous d"
proof -
  have "steps_contiguous x \<longleftrightarrow> (\<forall>i\<in>ex_id ` set (db_executions x).
      map st_sequence (steps_of x i) = map int [0..<length (steps_of x i)])" for x
    by (simp add: steps_contiguous_def)
  then show ?thesis
    by (simp only: assms sequences_of_keys length_steps_of_keys)
qed

lemma repo_save_keys:
  assumes wf: "db_wf d" and save: "repo_save e d = Inr d'"
  shows "map ex_id (db_executions d') = map ex_id (db_executions d)"
    and "step_keys d' = step_keys d"
    and "db_operations d' = db_operations d" and "db_receipts d' = db_receipts d"
    and "db_retries d' = db_retries d"
proof -
  from save have d': "d' = d\<lparr>db_executions := update_where
        (\<lambda>r. ex_id r = ex_id e \<and> ex_version r = ex_version e - 1) (save_execution_values e) (db_executions d),
      db_steps := save_steps (ex_steps e) (db_steps d)\<rparr>"
    by (auto simp: repo_save_Inr_iff [OF wf])
  show "map ex_id (db_executions d') = map ex_id (db_executions d)"
    by (simp add: d' map_key_update_where)
  show "db_operations d' = db_operations d" "db_receipts d' = db_receipts d"
    "db_retries d' = db_retries d" by (simp_all add: d')
  have "map (\<lambda>s. (st_execution_id s, st_sequence s)) t =
      zip (map st_execution_id t) (map st_sequence t)" for t :: "step_orm list"
    by (simp add: zip_map_fst_snd zip_map1 zip_map2 zip_same_conv_map comp_def)
  then show "step_keys d' = step_keys d" by (simp add: step_keys_def d' save_steps_keys)
qed

lemma repo_save_contiguous:
  assumes "db_wf d" and "repo_save e d = Inr d'"
  shows "steps_contiguous d' \<longleftrightarrow> steps_contiguous d"
  using repo_save_keys(1,2) [OF assms] by (intro steps_contiguous_cong) (metis list.set_map)+

text \<open>The row of each saved Step gets that Step's values; all other rows stay.\<close>

lemma save_steps_eq:
  assumes "distinct (map st_id ss)"
  shows "save_steps ss t = map (\<lambda>r. case scalar (\<lambda>s. st_id s = st_id r) ss of
      None \<Rightarrow> r | Some s \<Rightarrow> save_step_values s r) t"
  using assms
proof (induction ss arbitrary: t)
  case Nil
  show ?case by (simp add: save_steps_def)
next
  case (Cons s ss)
  have "save_steps (s # ss) t = save_steps ss (update_where (\<lambda>r. st_id r = st_id s) (save_step_values s) t)"
    by (simp add: save_steps_def)
  also have "\<dots> = map (\<lambda>r. case scalar (\<lambda>s. st_id s = st_id r) ss of
      None \<Rightarrow> r | Some s \<Rightarrow> save_step_values s r)
      (update_where (\<lambda>r. st_id r = st_id s) (save_step_values s) t)"
    using Cons.prems by (intro Cons.IH) simp
  also have "\<dots> = map (\<lambda>r. case scalar (\<lambda>s. st_id s = st_id r) (s # ss) of
      None \<Rightarrow> r | Some s \<Rightarrow> save_step_values s r) t"
  proof -
    have none: "scalar (\<lambda>x. st_id x = st_id s) ss = None"
      using Cons.prems by (simp add: scalar_None_iff image_key_iff)
    have keep: "st_id (save_step_values x r) = st_id r" for x r by (simp add: save_step_values_def)
    show ?thesis by (auto simp: update_where_def none keep)
  qed
  finally show ?case .
qed

lemma db_wf_step_ids: "db_wf d \<Longrightarrow> distinct (map st_id (db_steps d))"
  by (simp add: db_wf_def)

lemma distinct_steps_of: "db_wf d \<Longrightarrow> distinct (map st_id (steps_of d i))"
  using db_wf_step_ids [of d]
  by (auto simp: steps_of_def distinct_map distinct_filter intro: inj_on_subset)

text \<open>The Steps of a saved Execution, read back: each old row with the new values.\<close>

lemma repo_save_steps_of:
  assumes wf: "db_wf d" and save: "repo_save e d = Inr d'"
    and steps: "ex_steps e = map h (steps_of d i)" and h: "\<And>s. st_id (h s) = st_id s"
  shows "steps_of d' i = map (\<lambda>s. save_step_values (h s) s) (steps_of d i)"
proof -
  define g where "g r = (case scalar (\<lambda>s. st_id s = st_id r) (ex_steps e) of
      None \<Rightarrow> r | Some s \<Rightarrow> save_step_values s r)" for r
  have ids: "map st_id (ex_steps e) = map st_id (steps_of d i)" by (simp add: steps comp_def h)
  then have "distinct (map st_id (ex_steps e))" using distinct_steps_of [OF wf] by simp
  then have rows: "db_steps d' = map g (db_steps d)"
    using save by (auto simp: repo_save_Inr_iff [OF wf] save_steps_eq g_def)
  have keep: "st_execution_id (g r) = st_execution_id r" "st_sequence (g r) = st_sequence r" for r
    by (simp_all add: g_def save_step_values_def split: option.split)
  have "steps_of d' i = map g (steps_of d i)"
    by (simp add: steps_of_def rows filter_map comp_def keep sort_key_map)
  moreover have "g s = save_step_values (h s) s" if "s \<in> set (steps_of d i)" for s
  proof -
    have "scalar (\<lambda>x. st_id x = st_id s) (ex_steps e) = Some (h s)"
      by (rule scalar_key_unique) (use that distinct_steps_of [OF wf, of i] in \<open>simp_all add: ids steps h comp_def\<close>)
    then show ?thesis by (simp add: g_def)
  qed
  ultimately show ?thesis by simp
qed

lemma db_wf_frame:
  assumes wf: "db_wf d" and "db_executions d' = db_executions d" and "db_steps d' = db_steps d"
    and ids: "map op_id (db_operations d') = map op_id (db_operations d)"
    and owner: "map op_execution_id (db_operations d') = map op_execution_id (db_operations d)"
  shows "db_wf d'"
proof -
  have "op_execution_id ` set (db_operations d') = op_execution_id ` set (db_operations d)"
    by (metis owner list.set_map)
  then have "op_execution_id q \<in> ex_id ` set (db_executions d)" if "q \<in> set (db_operations d')" for q
    using that db_wf_operation_owner [OF wf] by (metis imageE imageI)
  then show ?thesis using assms(1-4) unfolding db_wf_def by simp
qed

lemma db_wf_cong:
  "db_wf d \<Longrightarrow> db_executions d' = db_executions d \<Longrightarrow> db_steps d' = db_steps d \<Longrightarrow>
     db_operations d' = db_operations d \<Longrightarrow> db_wf d'"
  unfolding db_wf_def by simp

end
