(* ===== verification/Event_Writer.thy ===== *)
theory Event_Writer
  imports Repository Source_Store
begin

text \<open>
  \<open>infrastructure/execution_worker/event_writer\<close>: how a worker transaction appends public
  events. An event gets the next number of its Execution from \<open>execution_event_sequences\<close>,
  is validated against the contract of \<open>Event_Contract\<close>, and is written with one Outbox row.
  \<open>session.get\<close> reads the row the transaction is changing, so the builders read the database
  value they are given.

  The identifiers \<open>uuid4()\<close> draws for an event and its Outbox row are the argument
  \<open>mint execution_id event_sequence\<close>; \<open>now\<close> is the clock. Errors a worker transaction can
  raise are \<open>worker_error\<close>; a transaction that raises is rolled back.

  The lemmas show that the event log of every Execution is numbered 1, 2, 3, \<open>\<dots>\<close> without a gap,
  with exactly one Outbox row per event, and which rows the writers leave alone.
\<close>

datatype worker_error =
    ExecutionLeaseLostError
  | WorkerValueError
  | WorkerRuntimeError
  | WorkerTransitionError
  | WorkerIntegrityError
  | ExecutionCompletionError string

type_synonym minter = "uuid \<Rightarrow> int \<Rightarrow> uuid \<times> uuid"

definition require_transition ::
    "execution_status \<Rightarrow> execution_status \<Rightarrow> worker_error + unit" where
  "require_transition current target =
     (case require_execution_transition current target of
        Inl _ \<Rightarrow> Inl WorkerTransitionError
      | Inr u \<Rightarrow> Inr u)"

lemma require_transition_simps [simp]:
  "require_transition s t = Inr u \<longleftrightarrow> allowed_transition s t"
  "bind_res (require_transition s t) f =
     (if allowed_transition s t then f () else Inl WorkerTransitionError)"
  by (simp_all add: require_transition_def require_execution_transition_def raise_if_def)

subsection \<open>Persistence\<close>

definition next_execution_event_sequence :: "uuid \<Rightarrow> db \<Rightarrow> db \<times> int" where
  "next_execution_event_sequence execution_id d =
     (case scalar (\<lambda>r. es_execution_id r = execution_id) (db_event_sequences d) of
        None \<Rightarrow>
          (d\<lparr>db_event_sequences := db_event_sequences d @
               [\<lparr>es_execution_id = execution_id, es_last_sequence = 1\<rparr>]\<rparr>, 1)
      | Some r \<Rightarrow>
          (d\<lparr>db_event_sequences := update_where (\<lambda>r. es_execution_id r = execution_id)
               (\<lambda>r. r\<lparr>es_last_sequence := es_last_sequence r + 1\<rparr>) (db_event_sequences d)\<rparr>,
           es_last_sequence r + 1))"

definition EXECUTION_EVENT_SCHEMA_VERSION :: string where
  "EXECUTION_EVENT_SCHEMA_VERSION = ''1.0''"

definition build_execution_event ::
    "uuid \<Rightarrow> datetime \<Rightarrow> uuid \<Rightarrow> int \<Rightarrow> event_payload \<Rightarrow> string option \<Rightarrow> string option \<Rightarrow>
       worker_error + execution_event" where
  "build_execution_event i now execution_id event_sequence payload actor_client actor_id =
     (case validate_execution_event_payload payload of
        None \<Rightarrow> Inl WorkerValueError
      | Some normalized \<Rightarrow>
          Inr \<lparr>ev_id = i, ev_execution_id = execution_id, ev_event_sequence = event_sequence,
               ev_event_type = event_type_of payload, ev_payload = normalized,
               ev_schema_version = EXECUTION_EVENT_SCHEMA_VERSION,
               ev_created_by_client = actor_client, ev_created_by = actor_id,
               ev_updated_by_client = actor_client, ev_updated_by = actor_id,
               ev_created_at = now, ev_updated_at = now\<rparr>)"

definition outbox_from_execution_event :: "uuid \<Rightarrow> execution_event \<Rightarrow> outbox_event_orm" where
  "outbox_from_execution_event i event =
     \<lparr>ob_id = i, ob_aggregate_type = ''Execution'', ob_aggregate_id = ev_execution_id event,
      ob_event_type = ev_event_type event, ob_event_sequence = ev_event_sequence event,
      ob_execution_event_id = ev_id event, ob_created_by_client = ev_created_by_client event,
      ob_created_by = ev_created_by event, ob_updated_by_client = ev_updated_by_client event,
      ob_updated_by = ev_updated_by event, ob_status = OB_PENDING, ob_attempt_count = 0,
      ob_available_at = ev_created_at event, ob_created_at = ev_created_at event,
      ob_updated_at = ev_updated_at event, ob_published_at = None, ob_last_error = None\<rparr>"

definition persist_execution_event ::
    "minter \<Rightarrow> datetime \<Rightarrow> uuid \<Rightarrow> event_payload \<Rightarrow> db \<Rightarrow> worker_error + db" where
  "persist_execution_event mint now execution_id payload d =
     (case execution_row d execution_id of
        None \<Rightarrow> Inl WorkerValueError
      | Some execution \<Rightarrow>
          (let (d1, event_sequence) = next_execution_event_sequence execution_id d;
               (i, j) = mint execution_id event_sequence
           in bind_res
                (build_execution_event i now execution_id event_sequence payload
                  (str_or (ex_updated_by_client execution) (ex_created_by_client execution))
                  (str_or (ex_updated_by execution) (ex_created_by execution)))
                (\<lambda>event. Inr (d1\<lparr>db_events := db_events d1 @ [event],
                                 db_outbox := db_outbox d1 @ [outbox_from_execution_event j event]\<rparr>))))"

subsection \<open>Payload builders\<close>

definition attempt_row :: "db \<Rightarrow> uuid \<Rightarrow> attempt_orm option" where
  "attempt_row d i = scalar (\<lambda>a. at_id a = i) (db_attempts d)"

definition operation_row :: "db \<Rightarrow> uuid \<Rightarrow> operation_orm option" where
  "operation_row d i = scalar (\<lambda>q. op_id q = i) (db_operations d)"

definition step_row :: "db \<Rightarrow> uuid \<Rightarrow> step_orm option" where
  "step_row d i = scalar (\<lambda>s. st_id s = i) (db_steps d)"

definition attempt_reference_of :: "attempt_orm \<Rightarrow> attempt_reference" where
  "attempt_reference_of a =
     \<lparr>af_id = at_id a, af_number = at_attempt_number a,
      af_reason = (if at_attempt_number a = 1 then REASON_INITIAL else REASON_RETRY)\<rparr>"

definition attempt_payload :: "db \<Rightarrow> uuid \<Rightarrow> worker_error + attempt_reference" where
  "attempt_payload d attempt_id =
     (case attempt_row d attempt_id of
        None \<Rightarrow> Inl WorkerValueError
      | Some a \<Rightarrow> Inr (attempt_reference_of a))"

definition operation_payload :: "db \<Rightarrow> uuid option \<Rightarrow> worker_error + operation_reference" where
  "operation_payload d operation_id =
     (case Option.bind operation_id (operation_row d) of
        None \<Rightarrow> Inl WorkerValueError
      | Some q \<Rightarrow> Inr \<lparr>or_id = op_id q, or_number = op_operation_number q\<rparr>)"

definition stored_result_reference :: "step_result_descriptor \<Rightarrow> result_reference" where
  "stored_result_reference r =
     \<lparr>rr_relative_path = sy_relative_path (rd_reference r), rr_media_type = ''application/json'',
      rr_size_bytes = sy_size_bytes (rd_reference r),
      rr_checksum_sha256 = sy_checksum_sha256 (rd_reference r), rr_complete = rd_complete r\<rparr>"

definition row_result_reference :: "step_attempt_orm \<Rightarrow> result_reference option" where
  "row_result_reference row =
     (case (sa_result_complete row, sa_result_manifest_path row,
            sa_result_manifest_checksum_sha256 row, sa_result_manifest_size_bytes row) of
        (Some all_there, Some path, Some checksum, Some bytes) \<Rightarrow>
          Some \<lparr>rr_relative_path = path, rr_media_type = ''application/json'',
                rr_size_bytes = bytes, rr_checksum_sha256 = checksum, rr_complete = all_there\<rparr>
      | _ \<Rightarrow> None)"

text \<open>\<open>sorted(set(mime_types)) if isinstance(mime_types, list) else []\<close>, on text entries.\<close>

fun json_text :: "json \<Rightarrow> string option" where
  "json_text (JStr s) = Some s"
| "json_text _ = None"

definition content_types_of :: "json \<Rightarrow> string list" where
  "content_types_of summary =
     (case json_get ''mime_types'' summary of
        Some (JList vs) \<Rightarrow> sort (remdups (List.map_filter json_text vs))
      | _ \<Rightarrow> [])"

definition event_output_summary :: "step_result_descriptor \<Rightarrow> output_summary" where
  "event_output_summary r =
     \<lparr>os_count = rd_output_count r, os_content_types = content_types_of (rd_output_summary r)\<rparr>"

definition output_count_of :: "json \<Rightarrow> int" where
  "output_count_of summary =
     (case json_get ''output_count'' summary of Some (JInt n) \<Rightarrow> n | _ \<Rightarrow> 0)"

text \<open>\<open>str.lower\<close> on code points below 256.\<close>

definition lower_char :: "char \<Rightarrow> char" where
  "lower_char c =
     (let n = of_char c :: nat in
      if (65 \<le> n \<and> n \<le> 90) \<or> (192 \<le> n \<and> n \<le> 222 \<and> n \<noteq> 215) then char_of (n + 32) else c)"

definition lower :: "string \<Rightarrow> string" where
  "lower s = map lower_char s"

definition is_secret_key :: "string \<Rightarrow> bool" where
  "is_secret_key key =
     list_ex (\<lambda>marker. sublist marker (lower key))
       [''token'', ''secret'', ''password'', ''credential'']"

fun redact :: "json \<Rightarrow> json" where
  "redact (JObj kvs) =
     JObj (map (\<lambda>(k, v). (k, if is_secret_key k then JStr ''[REDACTED]'' else redact v)) kvs)"
| "redact (JList vs) = JList (map redact vs)"
| "redact v = v"

subsection \<open>Start events\<close>

definition operation_already_started :: "db \<Rightarrow> uuid \<Rightarrow> uuid \<Rightarrow> bool" where
  "operation_already_started d execution_id operation_id \<longleftrightarrow>
     list_ex (\<lambda>e. ev_execution_id e = execution_id \<and>
       (case ev_payload e of OperationStarted q \<Rightarrow> or_id q = operation_id | _ \<Rightarrow> False)) (db_events d)"

definition add_operation_started_event ::
    "minter \<Rightarrow> datetime \<Rightarrow> uuid \<Rightarrow> execution_orm \<Rightarrow> db \<Rightarrow> worker_error + db" where
  "add_operation_started_event mint now execution_id execution d =
     (case ex_active_operation_id execution of
        None \<Rightarrow> Inr d
      | Some operation_id \<Rightarrow>
          if ex_finalization_requested execution then Inr d
          else (case operation_row d operation_id of
             None \<Rightarrow> Inr d
           | Some q \<Rightarrow>
               if operation_already_started d execution_id operation_id then Inr d
               else persist_execution_event mint now execution_id
                 (OperationStarted \<lparr>or_id = op_id q, or_number = op_operation_number q,
                    or_step_count = int (rowcount (\<lambda>s. st_operation_id s = Some operation_id) (db_steps d))\<rparr>) d))"

definition add_start_events ::
    "minter \<Rightarrow> datetime \<Rightarrow> uuid \<Rightarrow> db \<Rightarrow> worker_error + db" where
  "add_start_events mint now execution_id d =
     (case execution_row d execution_id of
        None \<Rightarrow> Inr d
      | Some execution \<Rightarrow>
          (case (ex_runtime_target_id execution, ex_runtime_session_id execution) of
             (Some target_id, Some session_id) \<Rightarrow>
               bind_res
                 (if list_ex (\<lambda>r. ob_aggregate_id r = execution_id \<and>
                        ob_event_type r = ''execution.started'') (db_outbox d)
                  then Inr d
                  else persist_execution_event mint now execution_id
                    (ExecutionStarted \<lparr>rs_provider = runtime_type_value (ex_runtime_type execution),
                       rs_profile = ex_runtime_profile execution, rs_target_id = target_id,
                       rs_session_id = Some session_id\<rparr>) d)
                 (add_operation_started_event mint now execution_id execution)
           | _ \<Rightarrow> Inr d))"

subsection \<open>Step events\<close>

record execution_lease =
  le_execution_id :: uuid
  le_attempt_id :: uuid
  le_owner :: string
  le_fencing_token :: int

definition step_reference_of :: "step_orm \<Rightarrow> step_reference" where
  "step_reference_of s = \<lparr>sp_id = st_id s, sp_sequence = st_sequence s\<rparr>"

definition add_step_started_event ::
    "minter \<Rightarrow> datetime \<Rightarrow> execution_lease \<Rightarrow> step_orm \<Rightarrow> db \<Rightarrow> worker_error + db" where
  "add_step_started_event mint now lease s d =
     bind_res (operation_payload d (st_operation_id s)) (\<lambda>q.
     bind_res (attempt_payload d (le_attempt_id lease)) (\<lambda>a.
     persist_execution_event mint now (le_execution_id lease) (StepStarted q (step_reference_of s) a) d))"

definition step_error_code :: "step_status \<Rightarrow> string" where
  "step_error_code status =
     (if status = SS_CANCELLED then ''STEP_CANCELLED'' else ''STEP_EXECUTION_FAILED'')"

definition add_step_completed_event ::
    "minter \<Rightarrow> datetime \<Rightarrow> execution_lease \<Rightarrow> step_orm \<Rightarrow> step_status \<Rightarrow> step_result_descriptor option \<Rightarrow>
       string option \<Rightarrow> bool \<Rightarrow> db \<Rightarrow> worker_error + db" where
  "add_step_completed_event mint now lease s status stored_result error_message retryable d =
     bind_res (operation_payload d (st_operation_id s)) (\<lambda>q.
     bind_res (attempt_payload d (le_attempt_id lease)) (\<lambda>a.
     persist_execution_event mint now (le_execution_id lease)
       (StepCompleted
         \<lparr>sd_status = status, sd_operation = q, sd_step = step_reference_of s, sd_attempt = a,
          sd_result_ref = map_option stored_result_reference stored_result,
          sd_output_summary = map_option event_output_summary stored_result,
          sd_error =
            (if status = SS_SUCCEEDED then None
             else Some \<lparr>eu_code = step_error_code status,
                        eu_message = str_or_else error_message
                          (''Step was '' @ lower (step_status_value status) @ ''.''),
                        eu_retryable = retryable\<rparr>)\<rparr>) d))"

definition step_attempt_of :: "db \<Rightarrow> uuid \<Rightarrow> uuid \<Rightarrow> step_attempt_orm option" where
  "step_attempt_of d step_id attempt_id =
     scalar (\<lambda>h. sa_execution_step_id h = step_id \<and> sa_execution_attempt_id h = attempt_id)
       (db_step_attempts d)"

definition add_step_history_completed_event ::
    "minter \<Rightarrow> datetime \<Rightarrow> uuid \<Rightarrow> uuid \<Rightarrow> uuid \<Rightarrow> step_status \<Rightarrow> string \<Rightarrow> bool \<Rightarrow> db \<Rightarrow>
       worker_error + db" where
  "add_step_history_completed_event mint now execution_id step_id attempt_id status error_message
       retryable d =
     (case (step_row d step_id, step_attempt_of d step_id attempt_id) of
        (Some s, Some history) \<Rightarrow>
          (let result_ref = row_result_reference history in
           bind_res (operation_payload d (st_operation_id s)) (\<lambda>q.
           bind_res (attempt_payload d attempt_id) (\<lambda>a.
           persist_execution_event mint now execution_id
             (StepCompleted
               \<lparr>sd_status = status, sd_operation = q, sd_step = step_reference_of s, sd_attempt = a,
                sd_result_ref = result_ref,
                sd_output_summary = map_option (\<lambda>_.
                  \<lparr>os_count = output_count_of (sa_output_summary history),
                   os_content_types = content_types_of (sa_output_summary history)\<rparr>) result_ref,
                sd_error = Some \<lparr>eu_code = step_error_code status, eu_message = error_message,
                                 eu_retryable = retryable\<rparr>\<rparr>) d)))
      | _ \<Rightarrow> Inr d)"

subsection \<open>Completion events\<close>

text \<open>
  \<open>latest_step_attempts\<close>: the join, in the order of the attempt numbers, with later attempts
  overwriting earlier ones in the dictionary.
\<close>

definition step_attempt_pairs :: "db \<Rightarrow> uuid \<Rightarrow> (step_attempt_orm \<times> attempt_orm) list" where
  "step_attempt_pairs d operation_id =
     sort_key (\<lambda>(h, a). at_attempt_number a)
       [(h, a). h \<leftarrow> db_step_attempts d, a \<leftarrow> db_attempts d, s \<leftarrow> db_steps d,
                at_id a = sa_execution_attempt_id h \<and> st_id s = sa_execution_step_id h \<and>
                st_operation_id s = Some operation_id]"

definition latest_step_attempts :: "db \<Rightarrow> uuid \<Rightarrow> uuid \<Rightarrow> (step_attempt_orm \<times> attempt_orm) option" where
  "latest_step_attempts d operation_id step_id =
     List.find (\<lambda>(h, a). sa_execution_step_id h = step_id) (rev (step_attempt_pairs d operation_id))"

definition operation_steps :: "db \<Rightarrow> uuid \<Rightarrow> step_orm list" where
  "operation_steps d operation_id =
     sort_key st_sequence (filter (\<lambda>s. st_operation_id s = Some operation_id) (db_steps d))"

definition step_result_of :: "db \<Rightarrow> uuid \<Rightarrow> step_orm \<Rightarrow> step_result option" where
  "step_result_of d operation_id s =
     (case latest_step_attempts d operation_id (st_id s) of
        None \<Rightarrow> None
      | Some (history, attempt) \<Rightarrow>
          if \<not> completed_step_status (st_status s) then None
          else if st_status s = SS_SUCCEEDED \<and> row_result_reference history = None then None
          else Some \<lparr>sx_step_id = st_id s, sx_sequence = st_sequence s, sx_status = st_status s,
                     sx_attempt = attempt_reference_of attempt,
                     sx_result_ref = row_result_reference history\<rparr>)"

definition count_steps :: "step_status \<Rightarrow> step_orm list \<Rightarrow> int" where
  "count_steps status steps = int (length (filter (\<lambda>s. st_status s = status) steps))"

definition step_summary_of :: "step_orm list \<Rightarrow> step_summary" where
  "step_summary_of steps =
     \<lparr>sm_total = int (length steps),
      sm_completed = count_steps SS_SUCCEEDED steps + count_steps SS_FAILED steps +
        count_steps SS_CANCELLED steps,
      sm_succeeded = count_steps SS_SUCCEEDED steps, sm_failed = count_steps SS_FAILED steps,
      sm_cancelled = count_steps SS_CANCELLED steps\<rparr>"

definition continuation_of :: "execution_orm \<Rightarrow> continuation option" where
  "continuation_of e =
     (if ex_status e = ES_WAITING_FOR_OPERATION
      then map_option (\<lambda>t. \<lparr>ct_expected_version = ex_version e, ct_expires_at = t\<rparr>)
             (ex_operation_wait_expires_at e)
      else None)"

definition operation_error_code :: "execution_orm \<Rightarrow> operation_orm \<Rightarrow> string" where
  "operation_error_code e q =
     (if op_status q = OS_CANCELLED then ''OPERATION_CANCELLED''
      else if ex_failure_type e = Some FT_COMPLETION_FAILED then ''OPERATION_COMPLETION_FAILED''
      else (case op_failure_type q of
         Some FT_EXECUTION_TIMEOUT \<Rightarrow> ''OPERATION_'' @ failure_type_value FT_EXECUTION_TIMEOUT
       | Some FT_QUEUE_TIMEOUT \<Rightarrow> ''OPERATION_'' @ failure_type_value FT_QUEUE_TIMEOUT
       | _ \<Rightarrow> ''OPERATION_STEP_FAILED''))"

definition operation_error_of ::
    "execution_orm \<Rightarrow> operation_orm \<Rightarrow> step_orm list \<Rightarrow> operation_error_summary option" where
  "operation_error_of e q steps =
     (if op_status q = OS_SUCCEEDED then None
      else Some
        \<lparr>eu_code = operation_error_code e q,
         eu_message = str_or_else (op_error_message q)
           (''Operation was '' @ lower (operation_status_value (op_status q)) @ ''.''),
         eu_retryable = (continuation_of e \<noteq> None \<or> ex_retry_strategy e \<noteq> RS_NOT_RETRYABLE),
         eu_step_id = map_option st_id (List.find (\<lambda>s. st_status s = SS_FAILED) steps)\<rparr>)"

definition operation_completed_payload_of ::
    "db \<Rightarrow> execution_orm \<Rightarrow> operation_orm \<Rightarrow> operation_completed_payload" where
  "operation_completed_payload_of d e q =
     (let steps = operation_steps d (op_id q) in
      \<lparr>od_status = op_status q, od_execution_status = ex_status e,
       od_operation = \<lparr>or_id = op_id q, or_number = op_operation_number q\<rparr>,
       od_step_summary = step_summary_of steps,
       od_step_results = List.map_filter (step_result_of d (op_id q)) steps,
       od_continuation = continuation_of e,
       od_error = operation_error_of e q steps\<rparr>)"

definition add_operation_completed_event ::
    "minter \<Rightarrow> datetime \<Rightarrow> uuid \<Rightarrow> uuid \<Rightarrow> db \<Rightarrow> worker_error + db" where
  "add_operation_completed_event mint now execution_id operation_id d =
     (case (execution_row d execution_id, operation_row d operation_id) of
        (Some e, Some q) \<Rightarrow>
          persist_execution_event mint now execution_id
            (OperationCompleted (operation_completed_payload_of d e q)) d
      | _ \<Rightarrow> Inr d)"

definition operations_of :: "db \<Rightarrow> uuid \<Rightarrow> operation_orm list" where
  "operations_of d execution_id = filter (\<lambda>q. op_execution_id q = execution_id) (db_operations d)"

definition count_operations :: "operation_status \<Rightarrow> operation_orm list \<Rightarrow> int" where
  "count_operations status ops = int (length (filter (\<lambda>q. op_status q = status) ops))"

definition operation_summary_of :: "operation_orm list \<Rightarrow> operation_summary" where
  "operation_summary_of ops =
     \<lparr>om_total = int (length ops), om_succeeded = count_operations OS_SUCCEEDED ops,
      om_failed = count_operations OS_FAILED ops,
      om_cancelled = count_operations OS_CANCELLED ops\<rparr>"

definition failed_step_of :: "db \<Rightarrow> execution_orm \<Rightarrow> step_orm option" where
  "failed_step_of d e =
     (case ex_retry_from_sequence e of
        None \<Rightarrow> None
      | Some n \<Rightarrow> scalar (\<lambda>s. st_execution_id s = ex_id e \<and> st_sequence s = n) (db_steps d))"

definition retry_deadline_of :: "execution_orm \<Rightarrow> datetime option" where
  "retry_deadline_of e =
     (case ex_retained_runtime_session_until e of
        Some t \<Rightarrow> Some t
      | None \<Rightarrow> ex_execution_expires_at e)"

definition retry_availability_of :: "db \<Rightarrow> execution_orm \<Rightarrow> retry_availability option" where
  "retry_availability_of d e =
     (case (failed_step_of d e, retry_deadline_of e) of
        (Some s, Some t) \<Rightarrow>
          if ex_status e = ES_FAILED \<and> ex_retry_strategy e \<noteq> RS_NOT_RETRYABLE
          then Some \<lparr>ra_from_step_id = st_id s, ra_expires_at = t\<rparr> else None
      | _ \<Rightarrow> None)"

definition execution_error_of :: "db \<Rightarrow> execution_orm \<Rightarrow> execution_error_summary option" where
  "execution_error_of d e =
     (if ex_status e = ES_SUCCEEDED then None
      else Some
        \<lparr>eu_code =
           (if ex_status e = ES_CANCELLED then ''EXECUTION_CANCELLED''
            else ''EXECUTION_'' @
              (case ex_failure_type e of None \<Rightarrow> ''FAILED'' | Some f \<Rightarrow> failure_type_value f)),
         eu_message = str_or_else (str_or (ex_error_message e) (ex_cancellation_reason e))
           (''Execution was '' @ lower (execution_status_value (ex_status e)) @ ''.''),
         eu_retryable = (retry_availability_of d e \<noteq> None),
         eu_step_id = map_option st_id (failed_step_of d e),
         eu_operation_id =
           map_option op_id (Option.bind (ex_active_operation_id e) (operation_row d))\<rparr>)"

definition execution_completed_payload_of :: "db \<Rightarrow> execution_orm \<Rightarrow> execution_completed_payload" where
  "execution_completed_payload_of d e =
     \<lparr>xd_status = ex_status e, xd_finalized_by = ex_finalized_by e,
      xd_operation_summary = operation_summary_of (operations_of d (ex_id e)),
      xd_retry = retry_availability_of d e, xd_error = execution_error_of d e,
      xd_execution = Some
        \<lparr>xs_trigger_type = ex_trigger_type e, xs_user_id = ex_user_id e,
         xs_project_id = ex_project_id e, xs_session_id = ex_session_id e,
         xs_metadata = redact (ex_metadata e)\<rparr>\<rparr>"

definition add_execution_completed_event ::
    "minter \<Rightarrow> datetime \<Rightarrow> uuid \<Rightarrow> db \<Rightarrow> worker_error + db" where
  "add_execution_completed_event mint now execution_id d =
     (case execution_row d execution_id of
        None \<Rightarrow> Inr d
      | Some e \<Rightarrow>
          persist_execution_event mint now execution_id
            (ExecutionCompleted (execution_completed_payload_of d e)) d)"

subsection \<open>The event log\<close>

text \<open>Everything a worker transaction keeps when it only writes events.\<close>

definition same_tables :: "db \<Rightarrow> db \<Rightarrow> bool" where
  "same_tables d d' \<longleftrightarrow>
     db_executions d' = db_executions d \<and> db_steps d' = db_steps d \<and>
     db_operations d' = db_operations d \<and> db_retries d' = db_retries d \<and>
     db_attempts d' = db_attempts d \<and> db_step_attempts d' = db_step_attempts d \<and>
     db_step_runs d' = db_step_runs d \<and> db_handovers d' = db_handovers d \<and>
     db_receipts d' = db_receipts d \<and> db_targets d' = db_targets d \<and>
     db_artifacts d' = db_artifacts d \<and> db_diagnostics d' = db_diagnostics d \<and>
     db_admission d' = db_admission d"

lemma same_tables_refl [simp]: "same_tables d d"
  by (simp add: same_tables_def)

lemma same_tables_row: "same_tables d d' \<Longrightarrow> execution_row d' i = execution_row d i"
  by (simp add: same_tables_def execution_row_def)

lemma same_tables_wf: "same_tables d d' \<Longrightarrow> db_wf d' = db_wf d"
  unfolding same_tables_def db_wf_def by simp

lemma same_tables_contiguous: "same_tables d d' \<Longrightarrow> steps_contiguous d' = steps_contiguous d"
  by (intro steps_contiguous_cong) (simp_all add: same_tables_def step_keys_def)

lemma same_tables_trans: "same_tables d d1 \<Longrightarrow> same_tables d1 d2 \<Longrightarrow> same_tables d d2"
  by (simp add: same_tables_def)

definition event_numbers :: "db \<Rightarrow> uuid \<Rightarrow> int list" where
  "event_numbers d i = map ev_event_sequence (filter (\<lambda>e. ev_execution_id e = i) (db_events d))"

definition last_event_number :: "db \<Rightarrow> uuid \<Rightarrow> int" where
  "last_event_number d i =
     (case scalar (\<lambda>r. es_execution_id r = i) (db_event_sequences d) of
        None \<Rightarrow> 0 | Some r \<Rightarrow> es_last_sequence r)"

text \<open>
  The numbers still stored for an Execution are consecutive and end with the last number given
  out; older events may have been removed.
\<close>

definition events_wf :: "db \<Rightarrow> bool" where
  "events_wf d \<longleftrightarrow>
     (\<forall>i. 0 \<le> last_event_number d i \<and>
        (\<exists>k. 0 \<le> k \<and> event_numbers d i = [k + 1..last_event_number d i]))"

definition events_appended :: "uuid \<Rightarrow> db \<Rightarrow> db \<Rightarrow> bool" where
  "events_appended i d d' \<longleftrightarrow>
     same_tables d d' \<and> (events_wf d \<longrightarrow> events_wf d') \<and>
     (\<exists>es. db_events d' = db_events d @ es \<and>
        (\<forall>e\<in>set es. ev_execution_id e = i \<and> payload_ok (ev_payload e)) \<and>
        map (\<lambda>r. (ob_aggregate_id r, ob_event_sequence r, ob_execution_event_id r)) (db_outbox d') =
        map (\<lambda>r. (ob_aggregate_id r, ob_event_sequence r, ob_execution_event_id r)) (db_outbox d) @
        map (\<lambda>e. (ev_execution_id e, ev_event_sequence e, ev_id e)) es)"

lemma events_appended_refl [simp]: "events_appended i d d"
  by (simp add: events_appended_def)

lemma events_appended_trans:
  assumes "events_appended i d d1" and "events_appended i d1 d2"
  shows "events_appended i d d2"
proof -
  obtain es1 where 1: "db_events d1 = db_events d @ es1"
    "\<forall>e\<in>set es1. ev_execution_id e = i \<and> payload_ok (ev_payload e)"
    "map (\<lambda>r. (ob_aggregate_id r, ob_event_sequence r, ob_execution_event_id r)) (db_outbox d1) =
     map (\<lambda>r. (ob_aggregate_id r, ob_event_sequence r, ob_execution_event_id r)) (db_outbox d) @
     map (\<lambda>e. (ev_execution_id e, ev_event_sequence e, ev_id e)) es1"
    using assms(1) unfolding events_appended_def by blast
  obtain es2 where 2: "db_events d2 = db_events d1 @ es2"
    "\<forall>e\<in>set es2. ev_execution_id e = i \<and> payload_ok (ev_payload e)"
    "map (\<lambda>r. (ob_aggregate_id r, ob_event_sequence r, ob_execution_event_id r)) (db_outbox d2) =
     map (\<lambda>r. (ob_aggregate_id r, ob_event_sequence r, ob_execution_event_id r)) (db_outbox d1) @
     map (\<lambda>e. (ev_execution_id e, ev_event_sequence e, ev_id e)) es2"
    using assms(2) unfolding events_appended_def by blast
  have "\<exists>es. db_events d2 = db_events d @ es \<and>
        (\<forall>e\<in>set es. ev_execution_id e = i \<and> payload_ok (ev_payload e)) \<and>
        map (\<lambda>r. (ob_aggregate_id r, ob_event_sequence r, ob_execution_event_id r)) (db_outbox d2) =
        map (\<lambda>r. (ob_aggregate_id r, ob_event_sequence r, ob_execution_event_id r)) (db_outbox d) @
        map (\<lambda>e. (ev_execution_id e, ev_event_sequence e, ev_id e)) es"
    by (rule exI [of _ "es1 @ es2"]) (simp add: 1 2 ball_Un)
  then show ?thesis using assms same_tables_trans unfolding events_appended_def by blast
qed

lemma next_sequence_eq:
  "snd (next_execution_event_sequence i d) = last_event_number d i + 1"
  "last_event_number (fst (next_execution_event_sequence i d)) j =
     (if j = i then last_event_number d i + 1 else last_event_number d j)"
  "same_tables d (fst (next_execution_event_sequence i d))"
  "db_events (fst (next_execution_event_sequence i d)) = db_events d"
  "db_outbox (fst (next_execution_event_sequence i d)) = db_outbox d"
  by (auto simp: next_execution_event_sequence_def last_event_number_def same_tables_def
      scalar_append scalar_key_update_where split: option.splits dest: scalar_SomeD)

lemma upto_snoc: "a \<le> b + 1 \<Longrightarrow> [a..b] @ [b + 1] = [a..b + 1]"
  by (simp add: upto_rec2)

lemma persist_execution_event_Inr:
  assumes "persist_execution_event mint now i p d = Inr d'"
  obtains e event j where "execution_row d i = Some e" and "payload_ok p"
    and "ev_execution_id event = i" "ev_event_sequence event = last_event_number d i + 1"
      "ev_event_type event = event_type_of p" "ev_payload event = normalize_payload p"
    and "d' = (fst (next_execution_event_sequence i d))
      \<lparr>db_events := db_events d @ [event], db_outbox := db_outbox d @ [outbox_from_execution_event j event]\<rparr>"
proof -
  obtain e where e: "execution_row d i = Some e"
    using assms by (cases "execution_row d i") (simp_all add: persist_execution_event_def)
  obtain d1 n where nx: "next_execution_event_sequence i d = (d1, n)"
    by (cases "next_execution_event_sequence i d")
  obtain ei j where m: "mint i n = (ei, j)" by (cases "mint i n")
  obtain event where b: "build_execution_event ei now i n p
      (str_or (ex_updated_by_client e) (ex_created_by_client e))
      (str_or (ex_updated_by e) (ex_created_by e)) = Inr event"
    and d': "d' = d1\<lparr>db_events := db_events d1 @ [event],
      db_outbox := db_outbox d1 @ [outbox_from_execution_event j event]\<rparr>"
    using assms by (auto simp: persist_execution_event_def e nx m bind_res_eq_Inr)
  have ok: "payload_ok p" and ev: "ev_execution_id event = i" "ev_event_sequence event = n"
    "ev_event_type event = event_type_of p" "ev_payload event = normalize_payload p"
    using b by (auto simp: build_execution_event_def validate_execution_event_payload_def
        split: option.splits if_splits)
  show thesis
    by (rule that [OF e ok _ _ ev(3,4), of j])
      (use next_sequence_eq [where i = i and d = d] ev d' in \<open>simp_all add: nx\<close>)
qed

lemma persist_execution_event_total:
  assumes "execution_row d i = Some e" and "payload_ok p"
  shows "\<exists>d'. persist_execution_event mint now i p d = Inr d'"
  using assms
  by (auto simp: persist_execution_event_def build_execution_event_def
      validate_execution_event_payload_def split: prod.splits)

lemma persist_appends:
  assumes "persist_execution_event mint now i p d = Inr d'"
  shows "events_appended i d d'"
proof -
  obtain e event j where p: "payload_ok p" and ev: "ev_execution_id event = i"
    "ev_event_sequence event = last_event_number d i + 1" "ev_payload event = normalize_payload p"
    and d': "d' = (fst (next_execution_event_sequence i d))
      \<lparr>db_events := db_events d @ [event], db_outbox := db_outbox d @ [outbox_from_execution_event j event]\<rparr>"
    using assms by (rule persist_execution_event_Inr)
  have same: "same_tables d d'"
    using next_sequence_eq(3) [where i = i and d = d] by (simp add: d' same_tables_def)
  have last: "last_event_number d' x = (if x = i then last_event_number d i + 1 else last_event_number d x)" for x
    using next_sequence_eq(2) [of i d x] by (simp add: d' last_event_number_def)
  have nums: "event_numbers d' x = event_numbers d x @ (if x = i then [last_event_number d i + 1] else [])" for x
    by (simp add: d' event_numbers_def ev)
  have "events_wf d'" if wf: "events_wf d"
    unfolding events_wf_def
  proof
    fix x
    obtain k where "0 \<le> last_event_number d x" and k: "0 \<le> k"
      "event_numbers d x = [k + 1..last_event_number d x]"
      using wf unfolding events_wf_def by blast
    then show "0 \<le> last_event_number d' x \<and>
        (\<exists>k. 0 \<le> k \<and> event_numbers d' x = [k + 1..last_event_number d' x])"
    proof (cases "x = i \<and> last_event_number d i < k")
      case True
      then have "event_numbers d' x = [last_event_number d i + 1..last_event_number d' x]"
        using k by (simp add: nums last)
      with True \<open>0 \<le> last_event_number d x\<close> show ?thesis
        by (intro conjI exI [of _ "last_event_number d i"]) (simp_all add: last)
    next
      case False
      then have "event_numbers d' x = [k + 1..last_event_number d' x]"
        using k by (auto simp: nums last upto_snoc)
      with k \<open>0 \<le> last_event_number d x\<close> show ?thesis by (auto simp: last)
    qed
  qed
  then show ?thesis using same p
    by (simp add: events_appended_def) (simp add: d' ev normalize_payload_ok outbox_from_execution_event_def)
qed

text \<open>
  The contract of every function of the event writer: it may raise, and otherwise has only
  appended events of one Execution. The rest of the worker relies on nothing else about them.
\<close>

locale event_writer =
  fixes emit :: "db \<Rightarrow> worker_error + db" and execution_id :: uuid
  assumes emit_appends: "emit d = Inr d' \<Longrightarrow> events_appended execution_id d d'"
begin

lemma emit_same: "emit d = Inr d' \<Longrightarrow> same_tables d d'"
  using emit_appends by (simp add: events_appended_def)

lemma emit_row: "emit d = Inr d' \<Longrightarrow> execution_row d' i = execution_row d i"
  by (drule emit_same) (simp add: same_tables_row)

lemma emit_wf: "emit d = Inr d' \<Longrightarrow> db_wf d \<Longrightarrow> db_wf d'"
  by (drule emit_same) (simp add: same_tables_wf)

lemma emit_numbers: "emit d = Inr d' \<Longrightarrow> events_wf d \<Longrightarrow> events_wf d'"
  using emit_appends by (simp add: events_appended_def)

lemma emit_then:
  "bind_res (emit d) f = Inr d2 \<Longrightarrow> (\<And>d1. f d1 = Inr d2 \<Longrightarrow> events_appended execution_id d1 d2) \<Longrightarrow>
     events_appended execution_id d d2"
  by (auto simp: bind_res_eq_Inr intro: events_appended_trans [OF emit_appends])

end

interpretation persist: event_writer "persist_execution_event mint now i p" i
  by unfold_locales (rule persist_appends)

interpretation operation_started: event_writer "add_operation_started_event mint now i e" i
  by unfold_locales
    (auto simp: add_operation_started_event_def split: option.splits if_splits intro: persist_appends)

interpretation starts: event_writer "add_start_events mint now i" i
proof
  fix d d' assume "add_start_events mint now i d = Inr d'"
  then show "events_appended i d d'"
    by (auto simp: add_start_events_def bind_res_eq_Inr split: option.splits if_splits
        intro: events_appended_trans persist_appends operation_started.emit_appends)
qed

interpretation step_started: event_writer "add_step_started_event mint now l s" "le_execution_id l"
  by unfold_locales (auto simp: add_step_started_event_def bind_res_eq_Inr intro: persist_appends)

interpretation step_completed: event_writer
  "add_step_completed_event mint now l s status r msg retryable" "le_execution_id l"
  by unfold_locales (auto simp: add_step_completed_event_def bind_res_eq_Inr intro: persist_appends)

interpretation step_history: event_writer
  "add_step_history_completed_event mint now i s a status msg retryable" i
  by unfold_locales
    (auto simp: add_step_history_completed_event_def bind_res_eq_Inr Let_def split: option.splits
      intro: persist_appends)

interpretation operation_completed: event_writer "add_operation_completed_event mint now i q" i
  by unfold_locales
    (auto simp: add_operation_completed_event_def split: option.splits intro: persist_appends)

interpretation execution_completed: event_writer "add_execution_completed_event mint now i" i
  by unfold_locales
    (auto simp: add_execution_completed_event_def split: option.splits intro: persist_appends)

subsection \<open>The completion events meet the contract\<close>

lemma strictly_increasing_iff: "strictly_increasing xs \<longleftrightarrow> sorted_wrt (<) xs"
  by (induction xs rule: strictly_increasing.induct) (auto intro: less_trans)

lemma count_steps_le:
  "count_steps SS_SUCCEEDED xs + count_steps SS_FAILED xs + count_steps SS_CANCELLED xs \<le> int (length xs)"
  by (induction xs) (auto simp: count_steps_def)

lemma step_summary_of_ok [simp]: "step_summary_ok (step_summary_of steps)"
  using count_steps_le [of steps]
  by (simp add: step_summary_ok_def step_summary_of_def) (simp add: count_steps_def)

lemma operation_summary_of_ok [simp]: "operation_summary_ok (operation_summary_of ops)"
proof -
  have "count_operations OS_SUCCEEDED ops + count_operations OS_FAILED ops +
      count_operations OS_CANCELLED ops \<le> int (length ops)"
    by (induction ops) (auto simp: count_operations_def)
  then show ?thesis
    by (simp add: operation_summary_ok_def operation_summary_of_def) (simp add: count_operations_def)
qed

definition message_bounded :: "string option \<Rightarrow> bool" where
  "message_bounded m \<longleftrightarrow> opt_str_len 2000 m"

lemma str_or_else_len:
  assumes "message_bounded m" and "str_len 1 2000 fallback"
  shows "str_len 1 2000 (str_or_else m fallback)"
  using assms by (cases m) (auto simp: message_bounded_def str_or_else_def str_len_def Suc_le_eq)

lemma message_bounded_or: "message_bounded a \<Longrightarrow> message_bounded b \<Longrightarrow> message_bounded (str_or a b)"
  by (simp add: str_or_def)

lemma operation_error_of_ok:
  assumes "message_bounded (op_error_message q)"
  shows "opt_all error_summary_ok (operation_error_of e q steps)"
proof -
  have "str_len 1 2000 (''Operation was '' @ lower (operation_status_value (op_status q)) @ ''.'')"
    by (cases "op_status q") (simp_all add: str_len_def lower_def)
  moreover have "str_len 1 128 (operation_error_code e q)"
    by (auto simp: operation_error_code_def str_len_def split: option.split failure_type.split)
  ultimately show ?thesis
    using str_or_else_len [OF assms] by (simp add: operation_error_of_def error_summary_ok_def)
qed

lemma failure_type_value_len: "length (failure_type_value f) \<le> 100"
  by (cases f) simp_all

lemma execution_error_of_ok:
  assumes "message_bounded (ex_error_message e)" and "message_bounded (ex_cancellation_reason e)"
  shows "opt_all error_summary_ok (execution_error_of d e)"
proof -
  have "str_len 1 2000 (''Execution was '' @ lower (execution_status_value (ex_status e)) @ ''.'')"
    by (cases "ex_status e") (simp_all add: str_len_def lower_def)
  moreover have "str_len 1 128 (''EXECUTION_'' @
      (case ex_failure_type e of None \<Rightarrow> ''FAILED'' | Some f \<Rightarrow> failure_type_value f))"
    by (cases "ex_failure_type e")
      (simp_all add: str_len_def order_trans [OF failure_type_value_len])
  ultimately show ?thesis
    using str_or_else_len [OF message_bounded_or [OF assms]]
    by (simp add: execution_error_of_def error_summary_ok_def str_len_def)
qed

lemma map_filter_sequences:
  assumes "\<And>s r. f s = Some r \<Longrightarrow> sx_sequence r = st_sequence s"
  shows "map sx_sequence (List.map_filter f steps) = map st_sequence (filter (\<lambda>s. f s \<noteq> None) steps)"
  using assms by (induction steps) (auto simp: List.map_filter_simps split: option.splits)

text \<open>
  The Steps of one Operation belong to one Execution, so the database's uniqueness constraint
  makes their numbers distinct.
\<close>

definition operation_steps_owned :: "db \<Rightarrow> uuid \<Rightarrow> uuid \<Rightarrow> bool" where
  "operation_steps_owned d operation_id execution_id \<longleftrightarrow>
     list_all (\<lambda>s. st_operation_id s = Some operation_id \<longrightarrow> st_execution_id s = execution_id) (db_steps d)"

lemma operation_steps_sorted:
  assumes wf: "db_wf d" and own: "operation_steps_owned d q x"
  shows "sorted_wrt (<) (map st_sequence (operation_steps d q))"
proof -
  let ?ss = "filter (\<lambda>s. st_operation_id s = Some q) (db_steps d)"
  have "distinct (map (\<lambda>s. (st_execution_id s, st_sequence s)) ?ss)"
    by (rule distinct_map_filter [OF db_wf_step_keys [OF wf]])
  moreover have "map (\<lambda>s. (st_execution_id s, st_sequence s)) ?ss = map (\<lambda>n. (x, n)) (map st_sequence ?ss)"
    using own by (auto simp: operation_steps_owned_def list_all_iff)
  ultimately have "distinct (map (\<lambda>n. (x, n)) (map st_sequence ?ss))" by (simp only:)
  then have "distinct (map st_sequence ?ss)"
    unfolding distinct_map [of "\<lambda>n. (x, n)"] by (rule conjunct1)
  then have "distinct (map st_sequence (operation_steps d q))"
    by (simp add: operation_steps_def map_sort_key)
  then show ?thesis by (simp add: operation_steps_def strict_sorted_iff)
qed

definition result_history_ok :: "db \<Rightarrow> uuid \<Rightarrow> bool" where
  "result_history_ok d operation_id \<longleftrightarrow>
     list_all (\<lambda>s. case latest_step_attempts d operation_id (st_id s) of
        None \<Rightarrow> True
      | Some (h, a) \<Rightarrow> 1 \<le> at_attempt_number a \<and> 0 \<le> st_sequence s \<and>
          opt_all (\<lambda>r. result_reference_ok r \<and> (st_status s = SS_SUCCEEDED \<longrightarrow> rr_complete r))
            (row_result_reference h)) (operation_steps d operation_id)"

lemma step_result_of_ok:
  assumes "result_history_ok d q" and "s \<in> set (operation_steps d q)"
    and "step_result_of d q s = Some r"
  shows "step_result_ok r"
proof -
  obtain h a where l: "latest_step_attempts d q (st_id s) = Some (h, a)"
    and st: "completed_step_status (st_status s)"
    and succ: "\<not> (st_status s = SS_SUCCEEDED \<and> row_result_reference h = None)"
    and r: "r = \<lparr>sx_step_id = st_id s, sx_sequence = st_sequence s, sx_status = st_status s,
                     sx_attempt = attempt_reference_of a, sx_result_ref = row_result_reference h\<rparr>"
    using assms(3) by (auto simp: step_result_of_def split: option.splits if_splits)
  have "1 \<le> at_attempt_number a \<and> 0 \<le> st_sequence s \<and>
      opt_all (\<lambda>r. result_reference_ok r \<and> (st_status s = SS_SUCCEEDED \<longrightarrow> rr_complete r))
        (row_result_reference h)"
    using assms(1,2) l unfolding result_history_ok_def list_all_iff by fastforce
  then show ?thesis using st succ
    by (cases "row_result_reference h")
      (auto simp: r step_result_ok_def attempt_reference_of_def attempt_reference_ok_def)
qed

lemma operation_completed_payload_valid:
  assumes wf: "db_wf d" and own: "operation_steps_owned d (op_id q) (ex_id e)"
    and hist: "result_history_ok d (op_id q)" and num: "1 \<le> op_operation_number q"
    and st: "operation_status_is_terminal (op_status q)"
    and est: "ex_status e = ES_WAITING_FOR_OPERATION \<or> execution_status_is_terminal (ex_status e)"
    and v: "0 \<le> ex_version e" and msg: "message_bounded (op_error_message q)"
  shows "payload_ok (OperationCompleted (operation_completed_payload_of d e q))"
proof -
  let ?steps = "operation_steps d (op_id q)"
  let ?rs = "List.map_filter (step_result_of d (op_id q)) ?steps"
  have rs: "list_all step_result_ok ?rs"
    using step_result_of_ok [OF hist] by (auto simp: list_all_iff List.map_filter_def)
  have "map sx_sequence ?rs = map st_sequence (filter (\<lambda>s. step_result_of d (op_id q) s \<noteq> None) ?steps)"
    by (rule map_filter_sequences) (auto simp: step_result_of_def split: option.splits if_splits)
  moreover have "sorted_wrt (<) (map st_sequence (filter P ?steps))" for P
    using operation_steps_sorted [OF wf own] by (simp add: sorted_wrt_map sorted_wrt_filter)
  ultimately have inc: "strictly_increasing (map sx_sequence ?rs)"
    by (simp add: strictly_increasing_iff)
  have "opt_all (\<lambda>c. 0 \<le> ct_expected_version c) (continuation_of e)"
    using v by (cases "ex_operation_wait_expires_at e") (simp_all add: continuation_of_def)
  moreover have "continuation_of e \<noteq> None \<longrightarrow> ex_status e = ES_WAITING_FOR_OPERATION"
    by (simp add: continuation_of_def)
  moreover have "op_status q = OS_SUCCEEDED \<longleftrightarrow> operation_error_of e q ?steps = None"
    by (simp add: operation_error_of_def)
  ultimately show ?thesis
    using rs inc st est num operation_error_of_ok [OF msg, of e ?steps]
    by (simp add: operation_completed_payload_of_def operation_completed_ok_def Let_def
        operation_reference_ok_def operation_status_is_terminal_def)
qed

lemma execution_completed_payload_valid:
  assumes st: "execution_status_is_terminal (ex_status e)"
    and msg: "message_bounded (ex_error_message e)" "message_bounded (ex_cancellation_reason e)"
    and ctx: "str_len 1 255 (ex_user_id e)" "opt_str_len 255 (ex_project_id e)"
      "opt_str_len 255 (ex_session_id e)"
  shows "payload_ok (ExecutionCompleted (execution_completed_payload_of d e))"
proof -
  have "ex_status e = ES_SUCCEEDED \<longrightarrow> retry_availability_of d e = None"
    and "ex_status e \<noteq> ES_FAILED \<longrightarrow> retry_availability_of d e = None"
    by (auto simp: retry_availability_of_def split: option.splits)
  then show ?thesis
    using st ctx execution_error_of_ok [OF msg, of d]
    by (simp add: execution_completed_payload_of_def execution_completed_ok_def
        execution_summary_ok_def execution_error_of_def)
qed

end
