(* ===== verification/Query_Views.thy ===== *)
theory Query_Views
  imports Event_Writer
begin

text \<open>
  The read models of \<open>application/execution_queries.py\<close> and the mappers of
  \<open>infrastructure/execution_queries/mappers.py\<close> that build them from rows. Metadata, inputs and output
  summaries leave the service redacted; the lemmas say what redaction leaves of a value.
\<close>

subsection \<open>Views\<close>

record execution_view_fields =
  xv_id :: uuid
  xv_operation_mode :: operation_mode
  xv_operation_wait_timeout_seconds :: "int option"
  xv_trigger_type :: trigger_type
  xv_user_id :: string
  xv_project_id :: "string option"
  xv_session_id :: "string option"
  xv_tenant_id :: string
  xv_metadata :: json
  xv_status :: execution_status
  xv_version :: int
  xv_created_by_client :: "string option"
  xv_created_by :: "string option"
  xv_updated_by_client :: "string option"
  xv_updated_by :: "string option"
  xv_created_at :: datetime
  xv_updated_at :: datetime
  xv_started_at :: "datetime option"
  xv_finished_at :: "datetime option"

record execution_summary_view = execution_view_fields +
  xv_step_count :: nat

record execution_detail_view = execution_view_fields +
  xv_runtime_type :: runtime_type
  xv_runtime_pool :: runtime_pool
  xv_runtime_profile :: string
  xv_runtime_target_id :: "uuid option"
  xv_runtime_session_id :: "string option"
  xv_cancellation_reason :: "string option"
  xv_finalized_by :: "finalized_by option"
  xv_workspace_path :: "string option"
  xv_notebook_path :: "string option"
  xv_notebook_projection_status :: notebook_projection_status
  xv_notebook_projection_attempt_count :: int
  xv_notebook_projection_error :: "string option"
  xv_notebook_projected_at :: "datetime option"
  xv_failure_type :: "failure_type option"
  xv_error_message :: "string option"
  xv_retry_strategy :: retry_strategy
  xv_retry_count :: int
  xv_retry_from_sequence :: "int option"
  xv_retained_runtime_session_until :: "datetime option"
  xv_recovery_count :: int
  xv_runtime_session_cleanup_status :: runtime_session_cleanup_status
  xv_runtime_abort_status :: runtime_abort_status
  xv_operation_wait_expires_at :: "datetime option"
  xv_execution_expires_at :: "datetime option"

definition summary_view :: "execution_orm \<Rightarrow> nat \<Rightarrow> execution_summary_view" where
  "summary_view row step_count =
     \<lparr>xv_id = ex_id row, xv_operation_mode = ex_operation_mode row,
      xv_operation_wait_timeout_seconds = ex_operation_wait_timeout_seconds row,
      xv_trigger_type = ex_trigger_type row, xv_user_id = ex_user_id row, xv_project_id = ex_project_id row,
      xv_session_id = ex_session_id row, xv_tenant_id = ex_tenant_id row, xv_metadata = redact (ex_metadata row),
      xv_status = ex_status row, xv_version = ex_version row, xv_created_by_client = ex_created_by_client row,
      xv_created_by = ex_created_by row, xv_updated_by_client = ex_updated_by_client row,
      xv_updated_by = ex_updated_by row, xv_created_at = ex_created_at row, xv_updated_at = ex_updated_at row,
      xv_started_at = ex_started_at row, xv_finished_at = ex_finished_at row, xv_step_count = step_count\<rparr>"

definition detail_view :: "execution_orm \<Rightarrow> execution_detail_view" where
  "detail_view row =
     \<lparr>xv_id = ex_id row, xv_operation_mode = ex_operation_mode row,
      xv_operation_wait_timeout_seconds = ex_operation_wait_timeout_seconds row,
      xv_trigger_type = ex_trigger_type row, xv_user_id = ex_user_id row, xv_project_id = ex_project_id row,
      xv_session_id = ex_session_id row, xv_tenant_id = ex_tenant_id row, xv_metadata = redact (ex_metadata row),
      xv_status = ex_status row, xv_version = ex_version row, xv_created_by_client = ex_created_by_client row,
      xv_created_by = ex_created_by row, xv_updated_by_client = ex_updated_by_client row,
      xv_updated_by = ex_updated_by row, xv_created_at = ex_created_at row, xv_updated_at = ex_updated_at row,
      xv_started_at = ex_started_at row, xv_finished_at = ex_finished_at row, xv_runtime_type = ex_runtime_type row,
      xv_runtime_pool = ex_runtime_pool row, xv_runtime_profile = ex_runtime_profile row,
      xv_runtime_target_id = ex_runtime_target_id row, xv_runtime_session_id = ex_runtime_session_id row,
      xv_cancellation_reason = ex_cancellation_reason row, xv_finalized_by = ex_finalized_by row,
      xv_workspace_path = ex_workspace_path row, xv_notebook_path = ex_notebook_path row,
      xv_notebook_projection_status = ex_notebook_projection_status row,
      xv_notebook_projection_attempt_count = ex_notebook_projection_attempt_count row,
      xv_notebook_projection_error = ex_notebook_projection_error row,
      xv_notebook_projected_at = ex_notebook_projected_at row, xv_failure_type = ex_failure_type row,
      xv_error_message = ex_error_message row, xv_retry_strategy = ex_retry_strategy row,
      xv_retry_count = ex_retry_count row, xv_retry_from_sequence = ex_retry_from_sequence row,
      xv_retained_runtime_session_until = ex_retained_runtime_session_until row,
      xv_recovery_count = ex_recovery_count row,
      xv_runtime_session_cleanup_status = ex_runtime_session_cleanup_status row,
      xv_runtime_abort_status = ex_runtime_abort_status row,
      xv_operation_wait_expires_at = ex_operation_wait_expires_at row,
      xv_execution_expires_at = ex_execution_expires_at row\<rparr>"

record execution_artifact_view =
  av_id :: uuid
  av_execution_id :: uuid
  av_execution_attempt_id :: "uuid option"
  av_execution_step_id :: "uuid option"
  av_execution_step_attempt_id :: "uuid option"
  av_parent_artifact_id :: "uuid option"
  av_external_parent_asset_id :: "string option"
  av_artifact_type :: artifact_type
  av_storage_type :: artifact_storage_type
  av_status :: artifact_status
  av_name :: string
  av_description :: "string option"
  av_uri :: string
  av_relative_path :: "string option"
  av_media_type :: "string option"
  av_size_bytes :: "int option"
  av_checksum_sha256 :: "string option"
  av_metadata :: json
  av_created_by_client :: "string option"
  av_created_by :: "string option"
  av_updated_by_client :: "string option"
  av_updated_by :: "string option"
  av_created_at :: datetime
  av_updated_at :: datetime

definition artifact_view :: "artifact_orm \<Rightarrow> execution_artifact_view" where
  "artifact_view row =
     \<lparr>av_id = ar_id row, av_execution_id = ar_execution_id row,
      av_execution_attempt_id = ar_execution_attempt_id row, av_execution_step_id = ar_execution_step_id row,
      av_execution_step_attempt_id = ar_execution_step_attempt_id row,
      av_parent_artifact_id = ar_parent_artifact_id row,
      av_external_parent_asset_id = ar_external_parent_asset_id row, av_artifact_type = ar_artifact_type row,
      av_storage_type = ar_storage_type row, av_status = ar_status row, av_name = ar_name row,
      av_description = ar_description row, av_uri = ar_uri row, av_relative_path = ar_relative_path row,
      av_media_type = ar_media_type row, av_size_bytes = ar_size_bytes row,
      av_checksum_sha256 = ar_checksum_sha256 row, av_metadata = redact (ar_artifact_metadata row),
      av_created_by_client = ar_created_by_client row, av_created_by = ar_created_by row,
      av_updated_by_client = ar_updated_by_client row, av_updated_by = ar_updated_by row,
      av_created_at = ar_created_at row, av_updated_at = ar_updated_at row\<rparr>"

record execution_attempt_view =
  tv_id :: uuid
  tv_execution_id :: uuid
  tv_attempt_number :: int
  tv_runtime_type :: runtime_type
  tv_runtime_profile :: string
  tv_runtime_target_id :: uuid
  tv_runtime_session_id :: "string option"
  tv_status :: attempt_status
  tv_lease_owner :: "string option"
  tv_lease_expires_at :: "datetime option"
  tv_heartbeat_at :: datetime
  tv_error_message :: "string option"
  tv_failure_type :: "failure_type option"
  tv_retry_strategy :: retry_strategy
  tv_runtime_session_cleanup_status :: runtime_session_cleanup_status
  tv_runtime_abort_status :: runtime_abort_status
  tv_created_by_client :: "string option"
  tv_created_by :: "string option"
  tv_updated_by_client :: "string option"
  tv_updated_by :: "string option"
  tv_created_at :: datetime
  tv_updated_at :: datetime
  tv_started_at :: datetime
  tv_finished_at :: "datetime option"
  tv_step_count :: nat

definition attempt_view :: "attempt_orm \<Rightarrow> nat \<Rightarrow> execution_attempt_view" where
  "attempt_view row step_count =
     \<lparr>tv_id = at_id row, tv_execution_id = at_execution_id row, tv_attempt_number = at_attempt_number row,
      tv_runtime_type = at_runtime_type row, tv_runtime_profile = at_runtime_profile row,
      tv_runtime_target_id = at_runtime_target_id row, tv_runtime_session_id = at_runtime_session_id row,
      tv_status = at_status row, tv_lease_owner = at_lease_owner row, tv_lease_expires_at = at_lease_expires_at row,
      tv_heartbeat_at = at_heartbeat_at row, tv_error_message = at_error_message row,
      tv_failure_type = at_failure_type row, tv_retry_strategy = at_retry_strategy row,
      tv_runtime_session_cleanup_status = at_runtime_session_cleanup_status row,
      tv_runtime_abort_status = at_runtime_abort_status row, tv_created_by_client = at_created_by_client row,
      tv_created_by = at_created_by row, tv_updated_by_client = at_updated_by_client row,
      tv_updated_by = at_updated_by row, tv_created_at = at_created_at row, tv_updated_at = at_updated_at row,
      tv_started_at = at_started_at row, tv_finished_at = at_finished_at row, tv_step_count = step_count\<rparr>"

record execution_operation_view =
  ov_id :: uuid
  ov_execution_id :: uuid
  ov_operation_number :: int
  ov_schema_version :: string
  ov_first_sequence :: int
  ov_last_sequence :: int
  ov_operation_timeout_seconds :: "int option"
  ov_metadata :: json
  ov_status :: operation_status
  ov_execution_attempt_id :: "uuid option"
  ov_error_message :: "string option"
  ov_created_by_client :: "string option"
  ov_created_by :: "string option"
  ov_updated_by_client :: "string option"
  ov_updated_by :: "string option"
  ov_created_at :: datetime
  ov_updated_at :: datetime
  ov_started_at :: "datetime option"
  ov_finished_at :: "datetime option"
  ov_step_count :: int

definition operation_view :: "operation_orm \<Rightarrow> execution_operation_view" where
  "operation_view row =
     \<lparr>ov_id = op_id row, ov_execution_id = op_execution_id row, ov_operation_number = op_operation_number row,
      ov_schema_version = op_schema_version row, ov_first_sequence = op_first_sequence row,
      ov_last_sequence = op_last_sequence row, ov_operation_timeout_seconds = op_operation_timeout_seconds row,
      ov_metadata = op_metadata row, ov_status = op_status row,
      ov_execution_attempt_id = op_execution_attempt_id row, ov_error_message = op_error_message row,
      ov_created_by_client = op_created_by_client row, ov_created_by = op_created_by row,
      ov_updated_by_client = op_updated_by_client row, ov_updated_by = op_updated_by row,
      ov_created_at = op_created_at row, ov_updated_at = op_updated_at row, ov_started_at = op_started_at row,
      ov_finished_at = op_finished_at row, ov_step_count = op_last_sequence row - op_first_sequence row + 1\<rparr>"

record execution_step_attempt_view =
  sv_id :: uuid
  sv_execution_id :: uuid
  sv_execution_attempt_id :: uuid
  sv_execution_step_id :: uuid
  sv_sequence :: int
  sv_skill_name :: "string option"
  sv_tool_name :: "string option"
  sv_input_parameters :: json
  sv_status :: step_status
  sv_output_summary :: json
  sv_result_manifest_path :: "string option"
  sv_result_manifest_checksum_sha256 :: "string option"
  sv_result_manifest_size_bytes :: "int option"
  sv_result_fencing_token :: "int option"
  sv_result_complete :: "bool option"
  sv_result_representation_count :: int
  sv_result_total_size_bytes :: int
  sv_error_message :: "string option"
  sv_created_by_client :: "string option"
  sv_created_by :: "string option"
  sv_updated_by_client :: "string option"
  sv_updated_by :: "string option"
  sv_created_at :: datetime
  sv_updated_at :: datetime
  sv_started_at :: datetime
  sv_finished_at :: "datetime option"

definition step_attempt_view :: "step_attempt_orm \<Rightarrow> execution_step_attempt_view" where
  "step_attempt_view row =
     \<lparr>sv_id = sa_id row, sv_execution_id = sa_execution_id row,
      sv_execution_attempt_id = sa_execution_attempt_id row, sv_execution_step_id = sa_execution_step_id row,
      sv_sequence = sa_sequence row, sv_skill_name = sa_skill_name row, sv_tool_name = sa_tool_name row,
      sv_input_parameters = redact (sa_input_parameters row), sv_status = sa_status row,
      sv_output_summary = redact (sa_output_summary row), sv_result_manifest_path = sa_result_manifest_path row,
      sv_result_manifest_checksum_sha256 = sa_result_manifest_checksum_sha256 row,
      sv_result_manifest_size_bytes = sa_result_manifest_size_bytes row,
      sv_result_fencing_token = sa_result_fencing_token row, sv_result_complete = sa_result_complete row,
      sv_result_representation_count = sa_result_representation_count row,
      sv_result_total_size_bytes = sa_result_total_size_bytes row, sv_error_message = sa_error_message row,
      sv_created_by_client = sa_created_by_client row, sv_created_by = sa_created_by row,
      sv_updated_by_client = sa_updated_by_client row, sv_updated_by = sa_updated_by row,
      sv_created_at = sa_created_at row, sv_updated_at = sa_updated_at row, sv_started_at = sa_started_at row,
      sv_finished_at = sa_finished_at row\<rparr>"

record execution_event_view =
  ew_id :: uuid
  ew_execution_id :: uuid
  ew_event_sequence :: int
  ew_event_type :: string
  ew_schema_version :: string
  ew_payload :: event_payload
  ew_delivery_status :: "outbox_status option"
  ew_publish_attempt_count :: "int option"
  ew_created_by_client :: "string option"
  ew_created_by :: "string option"
  ew_updated_by_client :: "string option"
  ew_updated_by :: "string option"
  ew_available_at :: "datetime option"
  ew_created_at :: datetime
  ew_updated_at :: datetime
  ew_published_at :: "datetime option"
  ew_last_error :: "string option"

text \<open>
  \<open>redact(event.payload)\<close>: no field of a payload model has a secret name, so only the metadata inside a
  completion event can change.
\<close>

fun redact_payload :: "event_payload \<Rightarrow> event_payload" where
  "redact_payload (ExecutionCompleted p) =
     ExecutionCompleted (p\<lparr>xd_execution := map_option (\<lambda>x. x\<lparr>xs_metadata := redact (xs_metadata x)\<rparr>) (xd_execution p)\<rparr>)"
| "redact_payload p = p"

definition event_view :: "execution_event \<Rightarrow> outbox_event_orm option \<Rightarrow> execution_event_view" where
  "event_view event outbox =
     \<lparr>ew_id = ev_id event, ew_execution_id = ev_execution_id event, ew_event_sequence = ev_event_sequence event,
      ew_event_type = ev_event_type event, ew_schema_version = ev_schema_version event,
      ew_payload = redact_payload (ev_payload event), ew_delivery_status = map_option ob_status outbox,
      ew_publish_attempt_count = map_option ob_attempt_count outbox,
      ew_created_by_client = ev_created_by_client event, ew_created_by = ev_created_by event,
      ew_updated_by_client = ev_updated_by_client event, ew_updated_by = ev_updated_by event,
      ew_available_at = map_option ob_available_at outbox, ew_created_at = ev_created_at event,
      ew_updated_at = ev_updated_at event, ew_published_at = Option.bind outbox ob_published_at,
      ew_last_error = Option.bind outbox ob_last_error\<rparr>"

record operation_result_snapshot =
  or_execution :: execution_detail_view
  or_operation :: execution_operation_view
  or_steps :: "execution_step list"

record execution_result_snapshot =
  xr_execution :: execution_detail_view
  xr_operations :: "execution_operation_view list"
  xr_steps :: "execution_step list"
  xr_attempts :: "execution_attempt_view list"
  xr_artifacts :: "execution_artifact_view list"

subsection \<open>Redaction\<close>

text \<open>Every value stored under a secret key, at any depth, and nothing else is replaced.\<close>

fun redacted :: "json \<Rightarrow> bool" where
  "redacted (JObj kvs) = list_all (\<lambda>(k, v). if is_secret_key k then v = JStr ''[REDACTED]'' else redacted v) kvs"
| "redacted (JList vs) = list_all redacted vs"
| "redacted v = True"

lemma redact_redacted: "redacted (redact j)"
  by (induction j rule: redact.induct) (auto simp: list_all_iff)

lemma redact_id: "redacted j \<Longrightarrow> redact j = j"
proof (induction j rule: redact.induct)
  case (1 kvs)
  then show ?case by (auto simp: list_all_iff intro!: map_idI)
next
  case (2 vs)
  then show ?case by (auto simp: list_all_iff intro!: map_idI)
qed simp_all

lemma redact_idem: "redact (redact j) = redact j"
  by (rule redact_id [OF redact_redacted])

text \<open>A view is unchanged when it is redacted again.\<close>

lemma redact_payload_idem: "redact_payload (redact_payload p) = redact_payload p"
  by (cases p) (simp_all add: redact_idem option.map_comp comp_def)

lemmas view_sel =
  summary_view_def detail_view_def artifact_view_def attempt_view_def operation_view_def step_attempt_view_def event_view_def

lemma views_redacted:
  "redacted (xv_metadata (summary_view e n))" "redacted (xv_metadata (detail_view e))" "redacted (av_metadata (artifact_view a))"
  "redacted (sv_input_parameters (step_attempt_view s))" "redacted (sv_output_summary (step_attempt_view s))"
  by (simp_all add: view_sel redact_redacted)

end
