(* ===== verification/Leases.thy ===== *)
theory Leases
  imports Event_Writer "HOL-Library.Transitive_Closure_Table"
begin

text \<open>
  \<open>infrastructure/execution_leases.py\<close> and \<open>execution_worker/lease_heartbeat.py\<close>: the
  fenced leases under which workers change an Execution, their validation and their renewal.
  The ORM rows a worker transaction has loaded and mutates are updated by primary key
  (\<open>set_execution\<close> and its siblings). The implicit \<open>onupdate\<close> of the audit column
  \<open>updated_at\<close>, a second clock reading at flush time, is not modelled: the column changes where
  the source assigns it.

  The locale \<open>fenced_store\<close> is the contract fencing rests on: if the token of an Execution
  never decreases, a lease that was overtaken once is never valid again. It is interpreted on the
  transitions of the whole system in \<open>System\<close>. The endless heartbeat loop around the renewals
  is not modelled; its body is.
\<close>

subsection \<open>Mutating loaded rows\<close>

definition set_execution :: "uuid \<Rightarrow> (execution_orm \<Rightarrow> execution_orm) \<Rightarrow> db \<Rightarrow> db" where
  "set_execution i f d = d\<lparr>db_executions := update_where (\<lambda>r. ex_id r = i) f (db_executions d)\<rparr>"

definition set_attempt :: "uuid \<Rightarrow> (attempt_orm \<Rightarrow> attempt_orm) \<Rightarrow> db \<Rightarrow> db" where
  "set_attempt i f d = d\<lparr>db_attempts := update_where (\<lambda>a. at_id a = i) f (db_attempts d)\<rparr>"

definition set_operations :: "(operation_orm \<Rightarrow> bool) \<Rightarrow> (operation_orm \<Rightarrow> operation_orm) \<Rightarrow> db \<Rightarrow> db" where
  "set_operations P f d = d\<lparr>db_operations := update_where P f (db_operations d)\<rparr>"

definition set_steps :: "(step_orm \<Rightarrow> bool) \<Rightarrow> (step_orm \<Rightarrow> step_orm) \<Rightarrow> db \<Rightarrow> db" where
  "set_steps P f d = d\<lparr>db_steps := update_where P f (db_steps d)\<rparr>"

definition set_step_attempts ::
    "(step_attempt_orm \<Rightarrow> bool) \<Rightarrow> (step_attempt_orm \<Rightarrow> step_attempt_orm) \<Rightarrow> db \<Rightarrow> db" where
  "set_step_attempts P f d = d\<lparr>db_step_attempts := update_where P f (db_step_attempts d)\<rparr>"

definition set_target :: "uuid \<Rightarrow> (runtime_target_orm \<Rightarrow> runtime_target_orm) \<Rightarrow> db \<Rightarrow> db" where
  "set_target i f d = d\<lparr>db_targets := update_where (\<lambda>t. rt_id t = i) f (db_targets d)\<rparr>"

definition delete_handover :: "uuid \<Rightarrow> db \<Rightarrow> db" where
  "delete_handover i d = d\<lparr>db_handovers := filter (\<lambda>h. ho_execution_id h \<noteq> i) (db_handovers d)\<rparr>"

lemmas set_row_defs = set_execution_def set_attempt_def set_operations_def set_steps_def
  set_step_attempts_def set_target_def delete_handover_def

subsection \<open>Lease validation\<close>

record cancellation_lease =
  cn_execution_id :: uuid
  cn_owner :: string
  cn_fencing_token :: int

definition lease_row_active ::
    "datetime \<Rightarrow> execution_lease \<Rightarrow> execution_status list \<Rightarrow> execution_orm \<Rightarrow> bool" where
  "lease_row_active now lease allowed e \<longleftrightarrow>
     ex_id e = le_execution_id lease \<and> (ex_status e \<in> set allowed \<and>
     ex_lease_owner e = Some (le_owner lease) \<and> ex_fencing_token e = le_fencing_token lease \<and>
     gt_now (ex_lease_expires_at e) now)"

definition lease_attempt_active :: "datetime \<Rightarrow> execution_lease \<Rightarrow> attempt_orm \<Rightarrow> bool" where
  "lease_attempt_active now lease a \<longleftrightarrow>
     at_id a = le_attempt_id lease \<and> at_execution_id a = le_execution_id lease \<and>
     at_status a = AS_RUNNING \<and> at_lease_owner a = Some (le_owner lease) \<and>
     at_fencing_token a = le_fencing_token lease \<and> gt_now (at_lease_expires_at a) now"

definition require_active_lease ::
    "datetime \<Rightarrow> execution_lease \<Rightarrow> execution_status list \<Rightarrow> db \<Rightarrow>
       worker_error + (execution_orm \<times> attempt_orm)" where
  "require_active_lease now lease allowed d =
     (case scalar (lease_row_active now lease allowed) (db_executions d) of
        None \<Rightarrow> Inl ExecutionLeaseLostError
      | Some e \<Rightarrow>
          (case scalar (lease_attempt_active now lease) (db_attempts d) of
             None \<Rightarrow> Inl ExecutionLeaseLostError
           | Some a \<Rightarrow> Inr (e, a)))"

definition cancellation_row_active :: "datetime \<Rightarrow> cancellation_lease \<Rightarrow> execution_orm \<Rightarrow> bool" where
  "cancellation_row_active now lease e \<longleftrightarrow>
     ex_id e = cn_execution_id lease \<and> ex_status e = ES_CANCEL_REQUESTED \<and>
     ex_cancellation_lease_owner e = Some (cn_owner lease) \<and>
     ex_fencing_token e = cn_fencing_token lease \<and>
     gt_now (ex_cancellation_lease_expires_at e) now"

definition require_active_cancellation_lease ::
    "datetime \<Rightarrow> cancellation_lease \<Rightarrow> db \<Rightarrow> worker_error + execution_orm" where
  "require_active_cancellation_lease now lease d =
     (case scalar (cancellation_row_active now lease) (db_executions d) of
        None \<Rightarrow> Inl ExecutionLeaseLostError
      | Some e \<Rightarrow> Inr e)"

definition owns_execution :: "datetime \<Rightarrow> execution_lease \<Rightarrow> db \<Rightarrow> bool" where
  "owns_execution now lease d =
     (case require_active_lease now lease [ES_RUNNING] d of Inl _ \<Rightarrow> False | Inr _ \<Rightarrow> True)"

subsection \<open>Renewal\<close>

definition attempt_renewable :: "datetime \<Rightarrow> execution_lease \<Rightarrow> attempt_orm \<Rightarrow> bool" where
  "attempt_renewable now lease a \<longleftrightarrow>
     at_id a = le_attempt_id lease \<and> (at_status a = AS_RUNNING \<and>
     at_lease_owner a = Some (le_owner lease) \<and> at_fencing_token a = le_fencing_token lease \<and>
     gt_now (at_lease_expires_at a) now)"

definition renew_execution ::
    "int \<Rightarrow> datetime \<Rightarrow> execution_lease \<Rightarrow> db \<Rightarrow> worker_error + (db \<times> unit)" where
  "renew_execution lease_seconds now lease d =
     (let lease_expires = now + seconds lease_seconds;
          P = lease_row_active now lease [ES_RUNNING];
          Q = attempt_renewable now lease
      in if rowcount P (db_executions d) \<noteq> 1 then Inl ExecutionLeaseLostError
         else if rowcount Q (db_attempts d) \<noteq> 1 then Inl ExecutionLeaseLostError
         else Inr (d
           \<lparr>db_executions := update_where P
              (\<lambda>e. e\<lparr>ex_heartbeat_at := Some now, ex_lease_expires_at := Some lease_expires,
                    ex_updated_at := now\<rparr>) (db_executions d),
            db_attempts := update_where Q
              (\<lambda>a. a\<lparr>at_heartbeat_at := now, at_lease_expires_at := Some lease_expires\<rparr>)
              (db_attempts d)\<rparr>, ()))"

definition renew_cancellation ::
    "int \<Rightarrow> datetime \<Rightarrow> cancellation_lease \<Rightarrow> db \<Rightarrow> worker_error + (db \<times> unit)" where
  "renew_cancellation lease_seconds now lease d =
     (let P = cancellation_row_active now lease in
      if rowcount P (db_executions d) \<noteq> 1 then Inl ExecutionLeaseLostError
      else Inr (d\<lparr>db_executions := update_where P
             (\<lambda>e. e\<lparr>ex_cancellation_lease_expires_at := Some (now + seconds lease_seconds),
                   ex_updated_at := now\<rparr>) (db_executions d)\<rparr>, ()))"

subsection \<open>Rows after a mutation\<close>

lemma set_execution_row:
  assumes "\<And>r. ex_id (f r) = ex_id r"
  shows "execution_row (set_execution i f d) j =
    (if j = i then map_option f (execution_row d j) else execution_row d j)"
proof -
  have "execution_row (set_execution i f d) j =
      map_option (\<lambda>r. if ex_id r = i then f r else r) (execution_row d j)"
    unfolding execution_row_def set_execution_def by (simp add: scalar_key_update_where assms)
  then show ?thesis by (cases "execution_row d j") (auto dest: execution_row_SomeD)
qed

lemma row_frames [simp]:
  "execution_row (set_attempt i g d) j = execution_row d j"
  "execution_row (set_operations P h d) j = execution_row d j"
  "execution_row (set_steps Q k d) j = execution_row d j"
  "execution_row (set_step_attempts R l d) j = execution_row d j"
  "execution_row (set_target i m d) j = execution_row d j"
  "execution_row (delete_handover i d) j = execution_row d j"
  by (simp_all add: set_row_defs execution_row_def)

lemma table_frames [simp]:
  "db_executions (set_attempt i g d) = db_executions d"
  "db_executions (set_operations P h d) = db_executions d"
  "db_executions (set_steps Q k d) = db_executions d"
  "db_executions (set_step_attempts R l d) = db_executions d"
  "db_executions (set_target i m d) = db_executions d"
  "db_executions (delete_handover i d) = db_executions d"
  "db_attempts (set_execution i f d) = db_attempts d"
  "db_attempts (set_operations P h d) = db_attempts d"
  "db_attempts (set_steps Q k d) = db_attempts d"
  "db_attempts (set_step_attempts R l d) = db_attempts d"
  "db_attempts (set_target i m d) = db_attempts d"
  "db_attempts (delete_handover i d) = db_attempts d"
  by (simp_all add: set_row_defs)

text \<open>Keys that no worker transaction changes.\<close>

definition execution_keys_kept :: "(execution_orm \<Rightarrow> execution_orm) \<Rightarrow> bool" where
  "execution_keys_kept f \<longleftrightarrow>
     (\<forall>r. ex_id (f r) = ex_id r \<and> ex_tenant_id (f r) = ex_tenant_id r \<and> ex_user_id (f r) = ex_user_id r \<and>
          ex_idempotency_key (f r) = ex_idempotency_key r)"

lemma set_execution_wf:
  "db_wf d \<Longrightarrow> execution_keys_kept f \<Longrightarrow> db_wf (set_execution i f d)"
  unfolding set_execution_def execution_keys_kept_def by (rule update_executions_wf) simp_all

lemma other_tables_wf:
  "db_wf d \<Longrightarrow> db_wf (set_attempt i g d)" "db_wf d \<Longrightarrow> db_wf (set_step_attempts R l d)"
  "db_wf d \<Longrightarrow> db_wf (set_target i m d)" "db_wf d \<Longrightarrow> db_wf (delete_handover i d)"
  by (rule db_wf_cong; simp add: set_row_defs)+

lemma set_operations_wf:
  assumes "db_wf d" and "\<And>q. op_id (h q) = op_id q" and "\<And>q. op_execution_id (h q) = op_execution_id q"
  shows "db_wf (set_operations P h d)"
  by (rule db_wf_frame [OF assms(1)]) (simp_all add: set_operations_def map_key_update_where assms)

lemma set_steps_wf:
  assumes "db_wf d" and "\<And>s. st_id (k s) = st_id s" and "\<And>s. st_execution_id (k s) = st_execution_id s"
    and "\<And>s. st_sequence (k s) = st_sequence s"
  shows "db_wf (set_steps Q k d)"
  unfolding set_steps_def by (rule update_steps_wf [OF assms(1)]) (simp_all add: map_key_update_where assms)

subsection \<open>What an active lease means\<close>

lemma lease_rowD:
  assumes wf: "db_wf d" and "scalar (lease_row_active now lease allowed) (db_executions d) = Some e"
  shows "execution_row d (le_execution_id lease) = Some e" and "lease_row_active now lease allowed e"
proof -
  from scalar_SomeD [OF assms(2)] have e: "lease_row_active now lease allowed e"
    "e \<in> set (db_executions d)" by simp_all
  then show "execution_row d (le_execution_id lease) = Some e"
    using execution_row_unique [OF wf e(2)] by (simp add: lease_row_active_def)
  show "lease_row_active now lease allowed e" by (fact e(1))
qed

lemma require_active_leaseD:
  assumes "db_wf d" and "require_active_lease now lease allowed d = Inr (e, a)"
  shows "execution_row d (le_execution_id lease) = Some e"
    and "lease_row_active now lease allowed e" and "lease_attempt_active now lease a"
    and "a \<in> set (db_attempts d)"
  using assms lease_rowD [OF assms(1), of now lease allowed e]
  by (auto simp: require_active_lease_def split: option.splits dest: scalar_SomeD)

lemma require_active_cancellationD:
  assumes wf: "db_wf d" and "require_active_cancellation_lease now lease d = Inr e"
  shows "execution_row d (cn_execution_id lease) = Some e" and "cancellation_row_active now lease e"
proof -
  have "scalar (cancellation_row_active now lease) (db_executions d) = Some e"
    using assms(2) by (auto simp: require_active_cancellation_lease_def split: option.splits)
  from scalar_SomeD [OF this] have e: "cancellation_row_active now lease e" "e \<in> set (db_executions d)"
    by simp_all
  then show "execution_row d (cn_execution_id lease) = Some e"
    using execution_row_unique [OF wf e(2)] by (simp add: cancellation_row_active_def)
  show "cancellation_row_active now lease e" by (fact e(1))
qed

subsection \<open>The contract of a worker transaction\<close>

text \<open>
  What every committed worker transaction may do to the Execution it works on: its identity stays,
  its fencing token and its version never decrease, and a status change is one of the transition
  table and raises the version.
\<close>

definition exec_step :: "execution_orm \<Rightarrow> execution_orm \<Rightarrow> bool" where
  "exec_step e e' \<longleftrightarrow>
     ex_id e' = ex_id e \<and> ex_tenant_id e' = ex_tenant_id e \<and> ex_user_id e' = ex_user_id e \<and>
     ex_idempotency_key e' = ex_idempotency_key e \<and>
     ex_fencing_token e \<le> ex_fencing_token e' \<and> ex_version e \<le> ex_version e' \<and>
     (ex_status e' = ex_status e \<or>
      allowed_transition (ex_status e) (ex_status e') \<and> ex_version e < ex_version e')"

lemma exec_step_refl [simp]: "exec_step e e"
  by (simp add: exec_step_def)

definition log_kept :: "db \<Rightarrow> db \<Rightarrow> bool" where
  "log_kept d d' \<longleftrightarrow>
     (db_wf d \<longrightarrow> db_wf d') \<and> (steps_contiguous d \<longrightarrow> steps_contiguous d') \<and>
     (events_wf d \<longrightarrow> events_wf d') \<and> prefix (db_events d) (db_events d')"

definition quiet_step :: "db \<Rightarrow> db \<Rightarrow> bool" where
  "quiet_step d d' \<longleftrightarrow> log_kept d d' \<and> (\<forall>j. execution_row d' j = execution_row d j)"

definition worker_step :: "uuid \<Rightarrow> db \<Rightarrow> db \<Rightarrow> bool" where
  "worker_step i d d' \<longleftrightarrow>
     log_kept d d' \<and> (\<forall>j. j \<noteq> i \<longrightarrow> execution_row d' j = execution_row d j) \<and>
     (case execution_row d i of
        None \<Rightarrow> execution_row d' i = None
      | Some e \<Rightarrow> (\<exists>e'. execution_row d' i = Some e' \<and> exec_step e e'))"

lemma log_kept_refl [simp]: "log_kept d d"
  by (simp add: log_kept_def)

lemma log_kept_trans: "log_kept d d1 \<Longrightarrow> log_kept d1 d2 \<Longrightarrow> log_kept d d2"
  by (auto simp: log_kept_def)

lemma quiet_step_refl [simp]: "quiet_step d d"
  by (simp add: quiet_step_def)

lemma quiet_step_trans: "quiet_step d d1 \<Longrightarrow> quiet_step d1 d2 \<Longrightarrow> quiet_step d d2"
  using log_kept_trans by (auto simp: quiet_step_def)

lemma worker_step_quiet: "quiet_step d d' \<Longrightarrow> worker_step i d d'"
  by (auto simp: quiet_step_def worker_step_def split: option.splits)

lemma worker_step_refl [simp]: "worker_step i d d"
  by (rule worker_step_quiet) simp

lemma worker_step_then_quiet: "worker_step i d d1 \<Longrightarrow> quiet_step d1 d2 \<Longrightarrow> worker_step i d d2"
  using log_kept_trans by (auto simp: quiet_step_def worker_step_def split: option.splits)

lemma quiet_then_worker_step: "quiet_step d d1 \<Longrightarrow> worker_step i d1 d2 \<Longrightarrow> worker_step i d d2"
  using log_kept_trans by (auto simp: quiet_step_def worker_step_def split: option.splits)

subsection \<open>Quiet mutations\<close>

lemma events_wf_cong:
  "db_events d' = db_events d \<Longrightarrow> db_event_sequences d' = db_event_sequences d \<Longrightarrow>
     events_wf d' = events_wf d"
  by (simp add: events_wf_def event_numbers_def last_event_number_def)

lemma quiet_tables:
  assumes "db_wf d \<Longrightarrow> db_wf d'" and "db_executions d' = db_executions d" and "db_steps d' = db_steps d"
    and "db_events d' = db_events d" and "db_event_sequences d' = db_event_sequences d"
  shows "quiet_step d d'"
  using assms steps_contiguous_cong [of d' d] events_wf_cong [of d' d]
  by (simp add: quiet_step_def log_kept_def execution_row_def step_keys_def)

named_theorems quiet

lemma quiet_update [quiet]:
  "quiet_step d (d\<lparr>db_attempts := as\<rparr>)" "quiet_step d (d\<lparr>db_step_attempts := hs\<rparr>)"
  "quiet_step d (d\<lparr>db_step_runs := rs\<rparr>)" "quiet_step d (d\<lparr>db_handovers := os\<rparr>)"
  "quiet_step d (d\<lparr>db_targets := ts\<rparr>)" "quiet_step d (d\<lparr>db_outbox := bs\<rparr>)"
  "quiet_step d (d\<lparr>db_artifacts := fs\<rparr>)" "quiet_step d (d\<lparr>db_diagnostics := gs\<rparr>)"
  "quiet_step d (d\<lparr>db_receipts := cs\<rparr>)" "quiet_step d (d\<lparr>db_retries := ys\<rparr>)"
  "quiet_step d (d\<lparr>db_admission := a\<rparr>)"
  by (rule quiet_tables; (erule db_wf_cong)?; simp)+

lemma quiet_set_rows [quiet]:
  "quiet_step d (set_attempt i g d)" "quiet_step d (set_step_attempts R l d)"
  "quiet_step d (set_target i m d)" "quiet_step d (delete_handover i d)"
  unfolding set_row_defs by (rule quiet_update)+

lemma quiet_set_operations [quiet]:
  assumes "\<And>q. op_id (h q) = op_id q" and "\<And>q. op_execution_id (h q) = op_execution_id q"
  shows "quiet_step d (set_operations P h d)"
  by (rule quiet_tables, rule set_operations_wf) (simp_all add: set_operations_def assms)

lemma quiet_set_steps [quiet]:
  assumes "\<And>s. st_id (k s) = st_id s" and "\<And>s. st_execution_id (k s) = st_execution_id s"
    and "\<And>s. st_sequence (k s) = st_sequence s"
  shows "quiet_step d (set_steps Q k d)"
proof -
  have "steps_contiguous (set_steps Q k d) = steps_contiguous d"
    by (rule steps_contiguous_cong) (simp_all add: step_keys_def set_steps_def map_key_update_where assms)
  moreover have "events_wf (set_steps Q k d) = events_wf d"
    by (rule events_wf_cong) (simp_all add: set_steps_def)
  ultimately show ?thesis
    using set_steps_wf [where k = k, OF _ assms]
    by (simp add: quiet_step_def log_kept_def set_steps_def execution_row_def)
qed

lemma quiet_events [quiet]: "events_appended i d d' \<Longrightarrow> quiet_step d d'"
  using same_tables_wf [of d d'] same_tables_contiguous [of d d'] same_tables_row [of d d']
  by (auto simp: events_appended_def quiet_step_def log_kept_def)

context event_writer
begin

lemma emit_quiet: "emit d = Inr d' \<Longrightarrow> quiet_step d d'"
  by (rule quiet_events [OF emit_appends])

lemma emit_after: "emit d1 = Inr d' \<Longrightarrow> quiet_step d d1 \<Longrightarrow> quiet_step d d'"
  by (rule quiet_step_trans [OF _ emit_quiet])

lemma emit_after_step: "emit d1 = Inr d' \<Longrightarrow> worker_step i d d1 \<Longrightarrow> worker_step i d d'"
  by (rule worker_step_then_quiet [OF _ emit_quiet])

end

lemma worker_step_set_execution:
  assumes "execution_row d i = Some e" and "exec_step e (f e)" and keys: "execution_keys_kept f"
  shows "worker_step i d (set_execution i f d)"
proof -
  let ?d = "set_execution i f d"
  have ids: "ex_id (f r) = ex_id r" for r using keys by (simp add: execution_keys_kept_def)
  have "map ex_id (db_executions ?d) = map ex_id (db_executions d)"
    by (simp add: set_execution_def map_key_update_where ids)
  then have "ex_id ` set (db_executions ?d) = ex_id ` set (db_executions d)" by (metis list.set_map)
  then have "steps_contiguous ?d = steps_contiguous d"
    by (rule steps_contiguous_cong) (simp add: step_keys_def set_execution_def)
  moreover have "events_wf ?d = events_wf d" by (rule events_wf_cong) (simp_all add: set_execution_def)
  ultimately have "log_kept d ?d"
    using set_execution_wf [OF _ keys, of d i] by (simp add: log_kept_def set_execution_def)
  then show ?thesis using assms(1,2) by (simp add: worker_step_def set_execution_row [OF ids])
qed

text \<open>
  Every worker transaction is a \<open>worker_transaction\<close>: a committed run is a \<open>worker_step\<close> on the
  Execution it is about. The consequences that clients use are proved here once.
\<close>

locale worker_transaction =
  fixes run :: "db \<Rightarrow> worker_error + (db \<times> 'r)" and execution_id :: uuid
  assumes run_step: "db_wf d \<Longrightarrow> run d = Inr (d', r) \<Longrightarrow> worker_step execution_id d d'"
begin

lemma run_wf: "db_wf d \<Longrightarrow> run d = Inr (d', r) \<Longrightarrow> db_wf d'"
  using run_step by (auto simp: worker_step_def log_kept_def)

lemma run_frame: "db_wf d \<Longrightarrow> run d = Inr (d', r) \<Longrightarrow> j \<noteq> execution_id \<Longrightarrow> execution_row d' j = execution_row d j"
  using run_step by (auto simp: worker_step_def)

lemma run_row:
  assumes "db_wf d" and "run d = Inr (d', r)" and "execution_row d j = Some e"
  obtains e' where "execution_row d' j = Some e'" and "exec_step e e'"
  using run_step [OF assms(1,2)] assms(3) exec_step_refl
  by (cases "j = execution_id") (auto simp: worker_step_def)

end

text \<open>
  Fencing. \<open>token d i\<close> is the fencing token of Execution \<open>i\<close>, \<open>valid now d l\<close> that the lease
  \<open>l\<close> passes validation. If no step ever lowers a token or removes an Execution, then a lease whose
  token has been overtaken is invalid now and for ever.
\<close>

locale fenced_store =
  fixes step :: "'s \<Rightarrow> 's \<Rightarrow> bool" and inv :: "'s \<Rightarrow> bool"
    and token :: "'s \<Rightarrow> uuid \<Rightarrow> int option"
    and valid :: "datetime \<Rightarrow> 's \<Rightarrow> 'l \<Rightarrow> bool"
    and lease_key :: "'l \<Rightarrow> uuid" and lease_token :: "'l \<Rightarrow> int"
  assumes inv_step: "inv s \<Longrightarrow> step s s' \<Longrightarrow> inv s'"
    and token_mono: "inv s \<Longrightarrow> step s s' \<Longrightarrow> token s i = Some t \<Longrightarrow> \<exists>t'\<ge>t. token s' i = Some t'"
    and valid_token: "inv s \<Longrightarrow> valid now s l \<Longrightarrow> token s (lease_key l) = Some (lease_token l)"
begin

lemma inv_steps: "step\<^sup>*\<^sup>* s s' \<Longrightarrow> inv s \<Longrightarrow> inv s'"
  by (induction rule: rtranclp_induct) (auto intro: inv_step)

lemma token_mono_steps:
  "step\<^sup>*\<^sup>* s s' \<Longrightarrow> inv s \<Longrightarrow> token s i = Some t \<Longrightarrow> \<exists>t'\<ge>t. token s' i = Some t'"
proof (induction rule: rtranclp_induct)
  case (step s1 s2)
  then obtain t1 where "t \<le> t1" "token s1 i = Some t1" by blast
  moreover have "inv s1" by (rule inv_steps) (use step in auto)
  ultimately show ?case using token_mono [OF _ step(2), of i t1] by (meson order_trans)
qed auto

lemma stale_for_ever:
  assumes "inv s" and "token s (lease_key l) = Some t" and "lease_token l < t" and "step\<^sup>*\<^sup>* s s'"
  shows "\<not> valid now s' l"
proof
  assume v: "valid now s' l"
  obtain t' where "t \<le> t'" "token s' (lease_key l) = Some t'"
    using token_mono_steps [OF assms(4,1,2)] by blast
  moreover have "token s' (lease_key l) = Some (lease_token l)"
    by (rule valid_token [OF inv_steps [OF assms(4,1)] v])
  ultimately show False using assms(3) by simp
qed

lemma valid_excludes:
  assumes "inv s" and "step\<^sup>*\<^sup>* s s'" and "valid now s' l"
    and "token s (lease_key l) = Some t"
  shows "t \<le> lease_token l"
  using stale_for_ever [OF assms(1,4) _ assms(2), of now] assms(3) by fastforce

end

subsection \<open>Renewal\<close>


lemma worker_step_update:
  assumes wf: "db_wf d" and keys: "execution_keys_kept f" and P: "\<And>r. P r \<Longrightarrow> ex_id r = i"
    and step: "\<And>e. execution_row d i = Some e \<Longrightarrow> P e \<Longrightarrow> exec_step e (f e)"
  shows "worker_step i d (d\<lparr>db_executions := update_where P f (db_executions d)\<rparr>)"
proof -
  let ?f = "\<lambda>r. if P r then f r else r"
  have upd: "update_where P f (db_executions d) = update_where (\<lambda>r. ex_id r = i) ?f (db_executions d)"
    using P by (auto simp: update_where_def)
  show ?thesis
  proof (cases "execution_row d i")
    case None
    then have "update_where (\<lambda>r. ex_id r = i) ?f (db_executions d) = db_executions d"
      by (intro update_where_none) (simp add: execution_row_def scalar_None_iff)
    then show ?thesis by (simp add: upd)
  next
    case (Some e)
    have "worker_step i d (set_execution i ?f d)"
      by (rule worker_step_set_execution [OF Some])
        (use step [OF Some] keys in \<open>auto simp: execution_keys_kept_def\<close>)
    then show ?thesis by (simp add: upd set_execution_def)
  qed
qed

lemma renew_execution_Inr:
  assumes "renew_execution n now lease d = Inr (d', r)"
  shows "d' = d
    \<lparr>db_executions := update_where (lease_row_active now lease [ES_RUNNING])
       (\<lambda>e. e\<lparr>ex_heartbeat_at := Some now, ex_lease_expires_at := Some (now + seconds n),
             ex_updated_at := now\<rparr>) (db_executions d),
     db_attempts := update_where (attempt_renewable now lease)
       (\<lambda>a. a\<lparr>at_heartbeat_at := now, at_lease_expires_at := Some (now + seconds n)\<rparr>)
       (db_attempts d)\<rparr>"
  using assms unfolding renew_execution_def Let_def
  by (simp split: if_split_asm)

interpretation renewal: worker_transaction "renew_execution n now lease" "le_execution_id lease"
proof
  fix d d' r
  assume wf: "db_wf d" and run: "renew_execution n now lease d = Inr (d', r)"
  let ?P = "lease_row_active now lease [ES_RUNNING]"
  let ?f = "\<lambda>e. e\<lparr>ex_heartbeat_at := Some now, ex_lease_expires_at := Some (now + seconds n), ex_updated_at := now\<rparr>"
  let ?d = "d\<lparr>db_executions := update_where ?P ?f (db_executions d)\<rparr>"
  have "worker_step (le_execution_id lease) d ?d"
    by (rule worker_step_update [OF wf]) (simp_all add: execution_keys_kept_def lease_row_active_def exec_step_def)
  moreover have "quiet_step ?d d'"
    unfolding renew_execution_Inr [OF run] by (rule quiet_tables, erule db_wf_cong) simp_all
  ultimately show "worker_step (le_execution_id lease) d d'" by (rule worker_step_then_quiet)
qed

interpretation cancellation_renewal: worker_transaction "renew_cancellation n now lease" "cn_execution_id lease"
proof
  fix d d' r
  assume wf: "db_wf d" and run: "renew_cancellation n now lease d = Inr (d', r)"
  have "d' = d\<lparr>db_executions := update_where (cancellation_row_active now lease)
      (\<lambda>e. e\<lparr>ex_cancellation_lease_expires_at := Some (now + seconds n), ex_updated_at := now\<rparr>)
      (db_executions d)\<rparr>"
    using run by (auto simp: renew_cancellation_def Let_def split: if_splits)
  then show "worker_step (cn_execution_id lease) d d'"
    by (simp, intro worker_step_update [OF wf])
      (simp_all add: execution_keys_kept_def cancellation_row_active_def exec_step_def)
qed

text \<open>Under unique keys the row counts of a renewal are the validation of the lease.\<close>

definition lease_held :: "datetime \<Rightarrow> execution_lease \<Rightarrow> db \<Rightarrow> bool" where
  "lease_held now lease d \<longleftrightarrow>
     (\<exists>e. execution_row d (le_execution_id lease) = Some e \<and> lease_row_active now lease [ES_RUNNING] e) \<and>
     (\<exists>a. attempt_row d (le_attempt_id lease) = Some a \<and> lease_attempt_active now lease a)"

lemma scalar_key_pred:
  assumes "distinct (map key t)" and "\<And>r. P r \<Longrightarrow> key r = k"
  shows "(\<exists>r. scalar P t = Some r) \<longleftrightarrow> (\<exists>r. scalar (\<lambda>r. key r = k) t = Some r \<and> P r)"
proof
  assume "\<exists>r. scalar P t = Some r"
  then obtain r where "scalar P t = Some r" ..
  from scalar_SomeD [OF this] have r: "P r" "r \<in> set t" by simp_all
  then show "\<exists>r. scalar (\<lambda>r. key r = k) t = Some r \<and> P r"
    using scalar_key_unique [OF assms(1) r(2)] assms(2) by metis
next
  assume "\<exists>r. scalar (\<lambda>r. key r = k) t = Some r \<and> P r"
  then obtain r where "scalar (\<lambda>r. key r = k) t = Some r" "P r" by blast
  then have "scalar P t \<noteq> None" by (auto simp: scalar_None_iff dest: scalar_SomeD)
  then show "\<exists>r. scalar P t = Some r" by simp
qed

lemma owns_execution_iff:
  assumes "db_wf d" and "distinct (map at_id (db_attempts d))"
  shows "owns_execution now lease d \<longleftrightarrow> lease_held now lease d"
proof -
  have "(\<exists>e. scalar (lease_row_active now lease [ES_RUNNING]) (db_executions d) = Some e) \<longleftrightarrow>
      (\<exists>e. execution_row d (le_execution_id lease) = Some e \<and> lease_row_active now lease [ES_RUNNING] e)"
    unfolding execution_row_def
    by (rule scalar_key_pred [OF db_wf_executions [OF assms(1)]]) (simp add: lease_row_active_def)
  moreover have "(\<exists>a. scalar (lease_attempt_active now lease) (db_attempts d) = Some a) \<longleftrightarrow>
      (\<exists>a. attempt_row d (le_attempt_id lease) = Some a \<and> lease_attempt_active now lease a)"
    unfolding attempt_row_def by (rule scalar_key_pred [OF assms(2)]) (simp add: lease_attempt_active_def)
  ultimately show ?thesis
    unfolding owns_execution_def require_active_lease_def lease_held_def
    by (auto split: option.splits)
qed

lemma renewable_rows:
  assumes "db_wf d" and "distinct (map at_id (db_attempts d))"
    and "\<And>a. attempt_row d (le_attempt_id lease) = Some a \<Longrightarrow> at_execution_id a = le_execution_id lease"
  shows "lease_held now lease d \<longleftrightarrow>
    rowcount (lease_row_active now lease [ES_RUNNING]) (db_executions d) = 1 \<and>
    rowcount (attempt_renewable now lease) (db_attempts d) = 1"
proof -
  have "rowcount (lease_row_active now lease [ES_RUNNING]) (db_executions d) = 1 \<longleftrightarrow>
      (\<exists>e. execution_row d (le_execution_id lease) = Some e \<and> lease_row_active now lease [ES_RUNNING] e)"
    unfolding execution_row_def lease_row_active_def
    using rowcount_key_eq_1_iff [OF db_wf_executions [OF assms(1)]] by (auto dest: scalar_SomeD)
  moreover have "rowcount (attempt_renewable now lease) (db_attempts d) = 1 \<longleftrightarrow>
      (\<exists>a. attempt_row d (le_attempt_id lease) = Some a \<and> attempt_renewable now lease a)"
    unfolding attempt_row_def attempt_renewable_def
    using rowcount_key_eq_1_iff [OF assms(2)] by (auto dest: scalar_SomeD)
  moreover have "attempt_renewable now lease a \<longleftrightarrow> lease_attempt_active now lease a"
    if "attempt_row d (le_attempt_id lease) = Some a" for a
    using assms(3) [OF that] by (auto simp: attempt_renewable_def lease_attempt_active_def)
  ultimately show ?thesis unfolding lease_held_def by blast
qed

lemma renewed_held:
  assumes "lease_held now lease d" and "renew_execution n now lease d = Inr (d', ())"
    and "\<And>a. attempt_row d (le_attempt_id lease) = Some a \<Longrightarrow> at_execution_id a = le_execution_id lease"
    and "now' < now + seconds n"
  shows "lease_held now' lease d'"
proof -
  from assms(1) obtain e a where
    e: "execution_row d (le_execution_id lease) = Some e" "lease_row_active now lease [ES_RUNNING] e"
    and a: "attempt_row d (le_attempt_id lease) = Some a" "lease_attempt_active now lease a"
    by (auto simp: lease_held_def)
  have "attempt_renewable now lease a"
    using a(2) by (simp add: lease_attempt_active_def attempt_renewable_def)
  then have "attempt_row d' (le_attempt_id lease) =
      Some (a\<lparr>at_heartbeat_at := now, at_lease_expires_at := Some (now + seconds n)\<rparr>)"
    using a(1) unfolding renew_execution_Inr [OF assms(2)]
    by (simp add: attempt_row_def scalar_key_update_where)
  moreover have "execution_row d' (le_execution_id lease) =
      Some (e\<lparr>ex_heartbeat_at := Some now, ex_lease_expires_at := Some (now + seconds n), ex_updated_at := now\<rparr>)"
    using e unfolding renew_execution_Inr [OF assms(2)]
    by (simp add: execution_row_def scalar_key_update_where)
  ultimately show ?thesis
    using e a assms(4) by (simp add: lease_held_def lease_row_active_def lease_attempt_active_def)
qed

text \<open>
  C23. A heartbeat renews exactly the leases that validation accepts: if the
  worker still owns the Execution, the renewal commits and it owns the Execution at every instant
  before the new expiry; if it does not, the renewal raises the lost-lease error and changes nothing.
\<close>

theorem renewal_extends_lease:
  assumes "db_wf d" and "distinct (map at_id (db_attempts d))"
    and "\<And>a. attempt_row d (le_attempt_id lease) = Some a \<Longrightarrow> at_execution_id a = le_execution_id lease"
  shows "case renew_execution n now lease d of
      Inl err \<Rightarrow> err = ExecutionLeaseLostError \<and> \<not> owns_execution now lease d
    | Inr (d', _) \<Rightarrow> owns_execution now lease d \<and>
        (\<forall>now'. now' < now + seconds n \<longrightarrow> owns_execution now' lease d')"
proof (cases "renew_execution n now lease d")
  case (Inl err)
  then show ?thesis
    using renewable_rows [OF assms] owns_execution_iff [OF assms(1,2)]
    by (auto simp: renew_execution_def Let_def split: if_splits)
next
  case (Inr p)
  then obtain d' where d': "renew_execution n now lease d = Inr (d', ())" by (cases p) simp
  then have held: "lease_held now lease d"
    using renewable_rows [OF assms] by (auto simp: renew_execution_def Let_def split: if_splits)
  have "db_wf d'" by (rule renewal.run_wf [OF assms(1) d'])
  moreover have "distinct (map at_id (db_attempts d'))"
    using assms(2) unfolding renew_execution_Inr [OF d'] by (simp add: map_key_update_where)
  ultimately show ?thesis
    using renewed_held [OF held d' assms(3)] held d' owns_execution_iff assms(1,2) by simp
qed

end
