(* ===== verification/Handover.thy ===== *)
theory Handover
  imports Leases
begin

text \<open>
  \<open>execution_worker/handover.py\<close>: how a running Step changes its worker without touching its
  kernel. The row of \<open>execution_handovers\<close> marks an Execution whose lease was released while its
  Step keeps running; the artifact baseline of the Step travels as JSON in \<open>execution_step_runs\<close>.
\<close>

record step_handover =
  sh_reason :: handover_reason
  sh_paused_since :: datetime

record runtime_file_state =
  fs_path :: string
  fs_size_bytes :: int
  fs_modified_ns :: int

record runtime_storage_snapshot =
  ss_files :: "runtime_file_state list"
  ss_manifest_size :: int

text \<open>One Step's journal request, as recorded at Step start.\<close>

record step_run =
  sn_sequence :: int
  sn_request_id :: uuid
  sn_submitted :: bool
  sn_artifact_baseline :: runtime_storage_snapshot

definition file_state_to_json :: "runtime_file_state \<Rightarrow> json" where
  "file_state_to_json f =
     JObj [(''path'', JStr (fs_path f)), (''size_bytes'', JInt (fs_size_bytes f)),
           (''modified_ns'', JInt (fs_modified_ns f))]"

definition snapshot_to_json :: "runtime_storage_snapshot \<Rightarrow> json" where
  "snapshot_to_json s =
     JObj [(''files'', JList (map file_state_to_json (ss_files s))),
           (''manifest_size'', JInt (ss_manifest_size s))]"

text \<open>
  \<open>RuntimeFileState(**item)\<close> wants exactly the three keywords; a dataclass does not check the
  types of its fields, so a value of another type is outside this reader (\<open>None\<close>).
\<close>

definition file_state_from_json :: "json \<Rightarrow> runtime_file_state option" where
  "file_state_from_json item =
     (case item of
        JObj kvs \<Rightarrow>
          if set (map fst kvs) = {''path'', ''size_bytes'', ''modified_ns''}
          then (case (map_of kvs ''path'', map_of kvs ''size_bytes'', map_of kvs ''modified_ns'') of
                  (Some (JStr p), Some (JInt n), Some (JInt m)) \<Rightarrow>
                    Some \<lparr>fs_path = p, fs_size_bytes = n, fs_modified_ns = m\<rparr>
                | _ \<Rightarrow> None)
          else None
      | _ \<Rightarrow> None)"

definition snapshot_from_json :: "json \<Rightarrow> runtime_storage_snapshot option" where
  "snapshot_from_json value =
     (case (json_get ''files'' value, json_get ''manifest_size'' value) of
        (Some (JList items), Some (JInt n)) \<Rightarrow>
          map_option (\<lambda>fs. \<lparr>ss_files = fs, ss_manifest_size = n\<rparr>)
            (those (map file_state_from_json items))
      | _ \<Rightarrow> None)"

definition running_step_attempt :: "db \<Rightarrow> uuid \<Rightarrow> step_attempt_orm option" where
  "running_step_attempt d execution_id =
     scalar (\<lambda>h. sa_execution_id h = execution_id \<and> sa_status h = SS_RUNNING \<and>
        (\<exists>r\<in>set (db_step_runs d). sr_execution_step_attempt_id r = sa_id h)) (db_step_attempts d)"

definition insert_handover :: "handover_orm \<Rightarrow> db \<Rightarrow> worker_error + db" where
  "insert_handover h d =
     (if ho_execution_id h \<in> ho_execution_id ` set (db_handovers d) then Inl WorkerIntegrityError
      else Inr (d\<lparr>db_handovers := db_handovers d @ [h]\<rparr>))"

definition add_handover_started_event ::
    "minter \<Rightarrow> uuid \<Rightarrow> uuid \<Rightarrow> step_orm \<Rightarrow> handover_reason \<Rightarrow> datetime \<Rightarrow> db \<Rightarrow> worker_error + db" where
  "add_handover_started_event mint execution_id attempt_id s reason now d =
     bind_res (operation_payload d (st_operation_id s)) (\<lambda>q.
     bind_res (attempt_payload d attempt_id) (\<lambda>a.
     persist_execution_event mint now execution_id
       (StepHandoverStarted q (step_reference_of s) a reason now) d))"

definition begin_handover ::
    "minter \<Rightarrow> execution_orm \<Rightarrow> attempt_orm \<Rightarrow> step_attempt_orm \<Rightarrow> handover_reason \<Rightarrow> datetime \<Rightarrow>
       datetime \<Rightarrow> db \<Rightarrow> worker_error + db" where
  "begin_handover mint e a h reason now paused_since d =
     (let d1 = set_execution (ex_id e) (\<lambda>e. e\<lparr>ex_lease_owner := None, ex_lease_expires_at := None,
                 ex_heartbeat_at := None, ex_fencing_token := ex_fencing_token e + 1,
                 ex_updated_at := now, ex_version := ex_version e + 1\<rparr>) d;
          d2 = set_attempt (at_id a) (\<lambda>a. a\<lparr>at_lease_owner := None, at_lease_expires_at := None\<rparr>) d1
      in bind_res (insert_handover \<lparr>ho_execution_id = ex_id e, ho_reason = reason,
             ho_paused_since = paused_since, ho_created_at = now\<rparr> d2) (\<lambda>d3.
           case step_row d3 (sa_execution_step_id h) of
             None \<Rightarrow> Inl WorkerValueError
           | Some s \<Rightarrow> add_handover_started_event mint (ex_id e) (at_id a) s reason now d3))"

text \<open>\<open>round(x, 3)\<close>: to the nearest thousandth, ties to the even one.\<close>

definition round_half_even :: "rat \<Rightarrow> int" where
  "round_half_even x =
     (let n = \<lfloor>x\<rfloor>; r = x - of_int n in if r < 1 / 2 \<or> r = 1 / 2 \<and> even n then n else n + 1)"

definition round_3 :: "rat \<Rightarrow> rat" where
  "round_3 x = of_int (round_half_even (x * 1000)) / 1000"

definition add_handover_completed_event ::
    "minter \<Rightarrow> datetime \<Rightarrow> uuid \<Rightarrow> uuid \<Rightarrow> step_orm \<Rightarrow> rat \<Rightarrow> bool \<Rightarrow> db \<Rightarrow> worker_error + db" where
  "add_handover_completed_event mint now execution_id attempt_id s paused_seconds finished d =
     bind_res (operation_payload d (st_operation_id s)) (\<lambda>q.
     bind_res (attempt_payload d attempt_id) (\<lambda>a.
     persist_execution_event mint now execution_id
       (StepHandoverCompleted q (step_reference_of s) a (round_3 (max paused_seconds 0)) finished) d))"

subsection \<open>Lemmas\<close>

lemma insert_handover_Inr:
  "insert_handover h d = Inr d' \<longleftrightarrow>
     ho_execution_id h \<notin> ho_execution_id ` set (db_handovers d) \<and>
     d' = d\<lparr>db_handovers := db_handovers d @ [h]\<rparr>"
  by (simp add: insert_handover_def eq_commute)

lemma quiet_insert_handover [quiet]: "insert_handover h d = Inr d' \<Longrightarrow> quiet_step d d'"
  by (simp add: insert_handover_Inr quiet_update)

interpretation handover_started: event_writer "add_handover_started_event mint e a s reason now" e
  by unfold_locales
    (simp add: add_handover_started_event_def bind_res_eq_Inr, blast intro: persist.emit_appends)

interpretation handover_completed: event_writer "add_handover_completed_event mint now e a s p f" e
  by unfold_locales
    (simp add: add_handover_completed_event_def bind_res_eq_Inr, blast intro: persist.emit_appends)

lemma begin_handover_step:
  assumes "execution_row d (ex_id e) = Some e"
    and "begin_handover mint e a h reason now paused_since d = Inr d'"
  shows "worker_step (ex_id e) d d'"
proof -
  let ?f = "\<lambda>e. e\<lparr>ex_lease_owner := None, ex_lease_expires_at := None,
                 ex_heartbeat_at := None, ex_fencing_token := ex_fencing_token e + 1,
                 ex_updated_at := now, ex_version := ex_version e + 1\<rparr> :: execution_orm"
  let ?d1 = "set_execution (ex_id e) ?f d"
  let ?d2 = "set_attempt (at_id a) (\<lambda>a. a\<lparr>at_lease_owner := None, at_lease_expires_at := None\<rparr>) ?d1"
  obtain d3 s where ins: "insert_handover \<lparr>ho_execution_id = ex_id e, ho_reason = reason,
      ho_paused_since = paused_since, ho_created_at = now\<rparr> ?d2 = Inr d3"
    and ev: "add_handover_started_event mint (ex_id e) (at_id a) s reason now d3 = Inr d'"
    using assms(2) unfolding begin_handover_def Let_def bind_res_eq_Inr
    by (auto split: option.splits)
  have "worker_step (ex_id e) d ?d1"
    by (rule worker_step_set_execution [OF assms(1)]) (simp_all add: exec_step_def execution_keys_kept_def)
  then show ?thesis
    using quiet_set_rows(1) quiet_insert_handover [OF ins]
      quiet_events [OF handover_started.emit_appends [OF ev]]
    by (meson worker_step_then_quiet)
qed

lemma begin_handover_rows:
  assumes "begin_handover mint e a h reason now paused_since d = Inr d'"
  shows "db_handovers d' = db_handovers d @ [\<lparr>ho_execution_id = ex_id e, ho_reason = reason,
      ho_paused_since = paused_since, ho_created_at = now\<rparr>]"
    and "execution_row d (ex_id e) = Some e \<Longrightarrow> execution_row d' (ex_id e) =
      Some (e\<lparr>ex_lease_owner := None, ex_lease_expires_at := None, ex_heartbeat_at := None,
        ex_fencing_token := ex_fencing_token e + 1, ex_updated_at := now, ex_version := ex_version e + 1\<rparr>)"
proof -
  let ?d2 = "set_attempt (at_id a) (\<lambda>a. a\<lparr>at_lease_owner := None, at_lease_expires_at := None\<rparr>)
    (set_execution (ex_id e) (\<lambda>e. e\<lparr>ex_lease_owner := None, ex_lease_expires_at := None,
       ex_heartbeat_at := None, ex_fencing_token := ex_fencing_token e + 1,
       ex_updated_at := now, ex_version := ex_version e + 1\<rparr>) d)"
  let ?h = "\<lparr>ho_execution_id = ex_id e, ho_reason = reason, ho_paused_since = paused_since, ho_created_at = now\<rparr>"
  obtain s where ev: "add_handover_started_event mint (ex_id e) (at_id a) s reason now
      (?d2\<lparr>db_handovers := db_handovers ?d2 @ [?h]\<rparr>) = Inr d'"
    using assms unfolding begin_handover_def Let_def bind_res_eq_Inr insert_handover_Inr
    by (auto split: option.splits)
  from handover_started.emit_same [OF ev] show "db_handovers d' = db_handovers d @ [?h]"
    by (simp add: same_tables_def set_row_defs)
  have "execution_row (?d2\<lparr>db_handovers := db_handovers ?d2 @ [?h]\<rparr>) j = execution_row ?d2 j" for j
    by (simp add: execution_row_def)
  then show "execution_row d (ex_id e) = Some e \<Longrightarrow> execution_row d' (ex_id e) =
      Some (e\<lparr>ex_lease_owner := None, ex_lease_expires_at := None, ex_heartbeat_at := None,
        ex_fencing_token := ex_fencing_token e + 1, ex_updated_at := now, ex_version := ex_version e + 1\<rparr>)"
    by (simp add: handover_started.emit_row [OF ev] set_execution_row)
qed

subsection \<open>Reading a baseline back\<close>

lemma those_map_Some: "(\<And>x. x \<in> set xs \<Longrightarrow> f (g x) = Some x) \<Longrightarrow> those (map f (map g xs)) = Some xs"
  by (induction xs) simp_all

text \<open>The artifact baseline a Step start stores as JSON is read back unchanged.\<close>

lemma snapshot_reads_back: "snapshot_from_json (snapshot_to_json s) = Some s"
proof -
  have "file_state_from_json (file_state_to_json f) = Some f" for f
    by (cases f) (simp add: file_state_from_json_def file_state_to_json_def insert_commute)
  then show ?thesis
    by (cases s) (simp add: snapshot_from_json_def snapshot_to_json_def those_map_Some del: map_map)
qed

end
