(* ===== verification/Command_Support.thy ===== *)
theory Command_Support
  imports Repository Source_Store
begin

text \<open>
  \<open>application/commands.py\<close> and \<open>application/services/support.py\<close>: the use-case
  inputs, their validation with the exact field-level errors, the request fingerprints, the
  source snapshots taken before a command is persisted and the small helpers the command
  handlers share. \<open>asdict(command)\<close> is written out per command. The lemmas characterise
  exactly which requests pass, and that every rejection names a location inside the request.
\<close>

subsection \<open>Commands\<close>

record step_spec =
  ss_sequence :: int
  ss_code :: string
  ss_source_type :: code_source_type
  ss_source_path :: "string option"
  ss_source_sha256 :: string
  ss_step_timeout_seconds :: "int option"
  ss_skill_name :: "string option"
  ss_tool_name :: "string option"
  ss_input_parameters :: json

record submit_command =
  sc_idempotency_key :: string
  sc_operation_mode :: operation_mode
  sc_trigger_type :: trigger_type
  sc_runtime_profile :: string
  sc_user_id :: string
  sc_project_id :: "string option"
  sc_session_id :: "string option"
  sc_tenant_id :: string
  sc_spec_schema_version :: string
  sc_operation_wait_timeout_seconds :: "int option"
  sc_operation_timeout_seconds :: "int option"
  sc_runtime_type :: runtime_type
  sc_actor_client :: "string option"
  sc_actor_id :: "string option"
  sc_metadata :: json
  sc_operation_metadata :: json
  sc_steps :: "step_spec list"

record cancel_command =
  cc_execution_id :: uuid
  cc_idempotency_key :: string
  cc_reason :: "string option"
  cc_actor_client :: "string option"
  cc_actor_id :: "string option"

record retry_command =
  rc_execution_id :: uuid
  rc_idempotency_key :: string
  rc_actor_client :: "string option"
  rc_actor_id :: "string option"

record create_operation_command =
  oc_execution_id :: uuid
  oc_idempotency_key :: string
  oc_expected_version :: int
  oc_steps :: "step_spec list"
  oc_spec_schema_version :: string
  oc_operation_timeout_seconds :: "int option"
  oc_metadata :: json
  oc_actor_client :: "string option"
  oc_actor_id :: "string option"

record finalize_command =
  fc_execution_id :: uuid
  fc_idempotency_key :: string
  fc_expected_version :: int
  fc_actor_client :: "string option"
  fc_actor_id :: "string option"

text \<open>The limits \<open>ExecutionCommandSupport\<close> is built with; its constructor checks them.\<close>

record command_limits =
  cl_max_steps_per_operation :: int
  cl_max_steps_per_execution :: int
  cl_max_runtime_seconds :: int

definition command_support :: "int \<Rightarrow> int \<Rightarrow> int \<Rightarrow> domain_error + command_limits" where
  "command_support per_operation per_execution runtime =
     (if per_operation < 1 then Inl RuntimeValueError
      else if per_execution < per_operation then Inl RuntimeValueError
      else Inr \<lparr>cl_max_steps_per_operation = per_operation,
                cl_max_steps_per_execution = per_execution,
                cl_max_runtime_seconds = runtime\<rparr>)"

subsection \<open>Validation\<close>

definition SUBMIT_OPERATION_LOCATION :: location where
  "SUBMIT_OPERATION_LOCATION = [LStr ''body'', LStr ''operation'']"

definition OPERATION_CREATE_LOCATION :: location where
  "OPERATION_CREATE_LOCATION = [LStr ''body'']"

definition exceeds :: "int \<Rightarrow> int option \<Rightarrow> bool" where
  "exceeds limit v \<longleftrightarrow> (case v of None \<Rightarrow> False | Some t \<Rightarrow> t > limit)"

definition validate_step_timeout ::
    "int \<Rightarrow> location \<Rightarrow> nat \<times> int option \<Rightarrow> domain_error + unit" where
  "validate_step_timeout limit loc = (\<lambda>(index, v).
     raise_if (exceeds limit v)
       (spec_error_at (loc @ [LStr ''spec'', LStr ''steps'', LInt (int index),
                              LStr ''step_timeout_seconds''])
         ''exceeds_max_runtime''
         [(''limit_seconds'', CInt limit), (''actual_seconds'', CInt (the v))]))"

definition validate_timeouts ::
    "command_limits \<Rightarrow> int option \<Rightarrow> int option list \<Rightarrow> location \<Rightarrow> domain_error + unit" where
  "validate_timeouts cl operation_timeout_seconds step_timeouts loc =
     (let limit = cl_max_runtime_seconds cl in
      bind_res
        (raise_if (exceeds limit operation_timeout_seconds)
          (spec_error_at (loc @ [LStr ''operation_timeout_seconds'']) ''exceeds_max_runtime''
            [(''limit_seconds'', CInt limit),
             (''actual_seconds'', CInt (the operation_timeout_seconds))]))
        (\<lambda>_. check_each (validate_step_timeout limit loc) (enumerate 0 step_timeouts)))"

definition validate_step_limits ::
    "command_limits \<Rightarrow> int \<Rightarrow> int \<Rightarrow> location \<Rightarrow> domain_error + unit" where
  "validate_step_limits cl current new loc =
     (let steps = loc @ [LStr ''spec'', LStr ''steps'']; total = current + new in
      if new > cl_max_steps_per_operation cl then
        Inl (spec_error_at steps ''too_many_steps''
          [(''limit'', CInt (cl_max_steps_per_operation cl)), (''actual'', CInt new)])
      else if total > cl_max_steps_per_execution cl then
        Inl (spec_error_at steps ''execution_step_limit_exceeded''
          [(''limit'', CInt (cl_max_steps_per_execution cl)), (''existing'', CInt current),
           (''requested'', CInt new), (''actual'', CInt total)])
      else Inr ())"

definition validate_schema_version :: "string \<Rightarrow> location \<Rightarrow> domain_error + unit" where
  "validate_schema_version version spec_location =
     raise_if (version \<noteq> ''1.0'')
       (spec_error_at (spec_location @ [LStr ''schema_version'']) ''unsupported_schema_version''
         [(''expected'', CStr ''1.0''), (''actual'', CStr version)])"

definition validate_operation_step ::
    "int \<Rightarrow> location \<Rightarrow> nat \<times> step_spec \<Rightarrow> domain_error + unit" where
  "validate_operation_step expected_start steps_location = (\<lambda>(index, step).
     (let expected = expected_start + int index in
      if ss_sequence step \<noteq> expected then
        Inl (spec_error_at (steps_location @ [LInt (int index), LStr ''sequence''])
          ''sequence_not_contiguous''
          [(''expected'', CInt expected), (''actual'', CInt (ss_sequence step))])
      else if strip (ss_code step) = [] then
        Inl (spec_error_at
          (steps_location @ [LInt (int index), LStr ''payload'', LStr ''source''])
          ''source_blank'' [(''sequence'', CInt (ss_sequence step))])
      else Inr ()))"

definition validate_operation_steps ::
    "step_spec list \<Rightarrow> int \<Rightarrow> location \<Rightarrow> domain_error + unit" where
  "validate_operation_steps steps expected_start loc =
     (let steps_location = loc @ [LStr ''steps''] in
      if steps = [] then Inl (spec_error_at steps_location ''steps_empty'' [])
      else check_each (validate_operation_step expected_start steps_location)
             (enumerate 0 steps))"

definition validate_scope_header ::
    "string \<times> string option \<Rightarrow> domain_error + unit" where
  "validate_scope_header = (\<lambda>(header, value).
     raise_if (value = Some ''unscoped'')
       (spec_error_at [LStr ''header'', LStr header] ''reserved_value''
         [(''actual'', CStr ''unscoped'')]))"

definition validate_submit_lifecycle :: "submit_command \<Rightarrow> domain_error + unit" where
  "validate_submit_lifecycle command =
     (let wait_timeout =
        [LStr ''body'', LStr ''lifecycle'', LStr ''operation_wait_timeout_seconds''] in
      case sc_operation_mode command of
        OM_SINGLE \<Rightarrow>
          (case sc_operation_wait_timeout_seconds command of
             None \<Rightarrow> Inr ()
           | Some w \<Rightarrow>
               Inl (spec_error_at wait_timeout ''not_allowed_for_single'' [(''actual'', CInt w)]))
      | OM_MULTI \<Rightarrow>
          if sc_trigger_type command \<noteq> TT_INTERACTIVE then
            Inl (spec_error_at [LStr ''body'', LStr ''trigger'', LStr ''type'']
              ''multi_requires_interactive''
              [(''actual'', CStr (trigger_type_value (sc_trigger_type command))),
               (''expected'', CStr (trigger_type_value TT_INTERACTIVE))])
          else if sc_operation_wait_timeout_seconds command = None then
            Inl (spec_error_at wait_timeout ''required_for_multi'' [])
          else Inr ())"

definition validate_submit :: "submit_command \<Rightarrow> domain_error + unit" where
  "validate_submit command =
     (let spec = SUBMIT_OPERATION_LOCATION @ [LStr ''spec''] in
      bind_res (validate_schema_version (sc_spec_schema_version command) spec) (\<lambda>_.
      bind_res
        (raise_if (sc_session_id command \<noteq> None \<and> sc_project_id command = None)
          (spec_error_at [LStr ''header'', LStr ''X-Session-Id''] ''session_without_project'' []))
        (\<lambda>_.
      bind_res
        (check_each validate_scope_header
          [(''X-Project-Id'', sc_project_id command), (''X-Session-Id'', sc_session_id command)])
        (\<lambda>_.
      bind_res (validate_operation_steps (sc_steps command) 0 spec) (\<lambda>_.
      validate_submit_lifecycle command)))))"

subsection \<open>Fingerprints\<close>

definition step_spec_json :: "step_spec \<Rightarrow> json" where
  "step_spec_json s = JObj
     [(''sequence'', JInt (ss_sequence s)),
      (''code'', JStr (ss_code s)),
      (''source_type'', JStr (code_source_type_value (ss_source_type s))),
      (''source_path'', json_opt_str (ss_source_path s)),
      (''source_sha256'', JStr (ss_source_sha256 s)),
      (''step_timeout_seconds'', json_opt_int (ss_step_timeout_seconds s)),
      (''skill_name'', json_opt_str (ss_skill_name s)),
      (''tool_name'', json_opt_str (ss_tool_name s)),
      (''input_parameters'', ss_input_parameters s)]"

text \<open>Each payload lacks the \<open>idempotency_key\<close>, which \<open>fingerprint\<close> pops.\<close>

definition submit_payload :: "submit_command \<Rightarrow> json" where
  "submit_payload c = JObj
     [(''operation_mode'', JStr (operation_mode_value (sc_operation_mode c))),
      (''trigger_type'', JStr (trigger_type_value (sc_trigger_type c))),
      (''runtime_profile'', JStr (sc_runtime_profile c)),
      (''user_id'', JStr (sc_user_id c)),
      (''project_id'', json_opt_str (sc_project_id c)),
      (''session_id'', json_opt_str (sc_session_id c)),
      (''tenant_id'', JStr (sc_tenant_id c)),
      (''spec_schema_version'', JStr (sc_spec_schema_version c)),
      (''operation_wait_timeout_seconds'', json_opt_int (sc_operation_wait_timeout_seconds c)),
      (''operation_timeout_seconds'', json_opt_int (sc_operation_timeout_seconds c)),
      (''runtime_type'', JStr (runtime_type_value (sc_runtime_type c))),
      (''actor_client'', json_opt_str (sc_actor_client c)),
      (''actor_id'', json_opt_str (sc_actor_id c)),
      (''metadata'', sc_metadata c),
      (''operation_metadata'', sc_operation_metadata c),
      (''steps'', JList (map step_spec_json (sc_steps c)))]"

definition create_operation_payload :: "create_operation_command \<Rightarrow> json" where
  "create_operation_payload c = JObj
     [(''execution_id'', JStr (uuid_str (oc_execution_id c))),
      (''expected_version'', JInt (oc_expected_version c)),
      (''steps'', JList (map step_spec_json (oc_steps c))),
      (''spec_schema_version'', JStr (oc_spec_schema_version c)),
      (''operation_timeout_seconds'', json_opt_int (oc_operation_timeout_seconds c)),
      (''metadata'', oc_metadata c),
      (''actor_client'', json_opt_str (oc_actor_client c)),
      (''actor_id'', json_opt_str (oc_actor_id c))]"

definition finalize_payload :: "finalize_command \<Rightarrow> json" where
  "finalize_payload c = JObj
     [(''execution_id'', JStr (uuid_str (fc_execution_id c))),
      (''expected_version'', JInt (fc_expected_version c)),
      (''actor_client'', json_opt_str (fc_actor_client c)),
      (''actor_id'', json_opt_str (fc_actor_id c))]"

subsection \<open>Shared helpers\<close>

definition ensure_same_fingerprint :: "execution \<Rightarrow> string \<Rightarrow> domain_error + unit" where
  "ensure_same_fingerprint e value =
     raise_if (ex_request_fingerprint e \<noteq> value) IdempotencyConflictError"

definition code_hash :: "(string \<Rightarrow> string) \<Rightarrow> string option \<Rightarrow> string option" where
  "code_hash sha256 code = map_option (\<lambda>c. sha256 (utf8_encode c)) code"

type_synonym receipt = "string \<times> string \<times> json"

definition ensure_same_receipt :: "receipt \<Rightarrow> string \<Rightarrow> string \<Rightarrow> domain_error + unit" where
  "ensure_same_receipt r command_type value =
     raise_if (fst r \<noteq> command_type \<or> fst (snd r) \<noteq> value) IdempotencyConflictError"

definition required_operation_id :: "uuid option \<Rightarrow> domain_error + uuid" where
  "required_operation_id operation_id =
     (case operation_id of None \<Rightarrow> Inl PersistenceConflictError | Some i \<Rightarrow> Inr i)"

text \<open>\<open>UUID(value)\<close> raises \<open>ValueError\<close> on a text that is no identifier.\<close>

definition operation_id_from_receipt :: "receipt \<Rightarrow> domain_error + uuid" where
  "operation_id_from_receipt r =
     (case json_get ''operation_id'' (snd (snd r)) of
        Some (JStr value) \<Rightarrow>
          (case uuid_parse value of None \<Rightarrow> Inl RuntimeValueError | Some i \<Rightarrow> Inr i)
      | _ \<Rightarrow> Inl PersistenceConflictError)"

definition apply_actor :: "string option \<Rightarrow> string option \<Rightarrow> execution \<Rightarrow> execution" where
  "apply_actor actor_client actor_id e =
     (if actor_client = None then e
      else e\<lparr>ex_updated_by_client := actor_client, ex_updated_by := actor_id\<rparr>)"

definition apply_step_actor ::
    "string option \<Rightarrow> string option \<Rightarrow> execution_step \<Rightarrow> execution_step" where
  "apply_step_actor actor_client actor_id s =
     (if actor_client = None then s
      else s\<lparr>st_updated_by_client := actor_client, st_updated_by := actor_id\<rparr>)"

definition required_execution :: "db \<Rightarrow> uuid \<Rightarrow> domain_error + execution" where
  "required_execution d execution_id =
     (case repo_get d execution_id of None \<Rightarrow> Inl ExecutionNotFoundError | Some e \<Rightarrow> Inr e)"

subsection \<open>Source snapshots of a command\<close>

text \<open>
  The files written before an error stay on the shared volume, so they are part of the result
  in every case.
\<close>

fun snapshot_sources ::
    "(string \<Rightarrow> string) \<Rightarrow> files \<Rightarrow> uuid \<Rightarrow> execution_step list \<Rightarrow>
       files \<times> (domain_error + execution_step list)" where
  "snapshot_sources sha256 fs execution_id [] = (fs, Inr [])"
| "snapshot_sources sha256 fs execution_id (step # steps) =
     (case snapshot_source sha256 fs execution_id (st_id step) (st_code step) of
        Inl e \<Rightarrow> (fs, Inl e)
      | Inr (fs1, source) \<Rightarrow>
          if st_source_sha256 step \<noteq> [] \<and> sf_checksum_sha256 source \<noteq> st_source_sha256 step
          then (fs1, Inl InvalidStateTransitionError)
          else
            (let step' = step\<lparr>st_source_snapshot_path := Some (sf_relative_path source),
                              st_source_size_bytes := Some (sf_size_bytes source),
                              st_source_sha256 := sf_checksum_sha256 source\<rparr> in
             case snapshot_sources sha256 fs1 execution_id steps of
               (fs2, Inl e) \<Rightarrow> (fs2, Inl e)
             | (fs2, Inr rest) \<Rightarrow> (fs2, Inr (step' # rest))))"

subsection \<open>Which requests pass\<close>

lemma exceeds_simps [simp]: "\<not> exceeds l None" "exceeds l (Some t) \<longleftrightarrow> l < t"
  by (simp_all add: exceeds_def)

lemma ball_enumerate_snd:
  "(\<forall>x\<in>set (enumerate n xs). P (snd x)) \<longleftrightarrow> (\<forall>y\<in>set xs. P y)"
  by (induction xs arbitrary: n) auto

lemma validate_timeouts_Inr_iff:
  "validate_timeouts cl ot sts loc = Inr () \<longleftrightarrow>
     \<not> exceeds (cl_max_runtime_seconds cl) ot \<and>
     (\<forall>t\<in>set sts. \<not> exceeds (cl_max_runtime_seconds cl) t)"
proof -
  have step: "validate_step_timeout l loc x = Inr () \<longleftrightarrow> \<not> exceeds l (snd x)" for l x
    by (simp add: validate_step_timeout_def case_prod_beta)
  show ?thesis
    by (simp add: validate_timeouts_def bind_raise_if check_each_Inr_iff step Let_def
        ball_enumerate_snd [where P = "\<lambda>t. \<not> exceeds (cl_max_runtime_seconds cl) t"])
qed

lemma validate_step_limits_Inr_iff:
  "validate_step_limits cl current new loc = Inr () \<longleftrightarrow>
     new \<le> cl_max_steps_per_operation cl \<and> current + new \<le> cl_max_steps_per_execution cl"
  by (auto simp: validate_step_limits_def Let_def)

text \<open>The Steps of an Operation, numbered on from \<open>start\<close> and none of them blank.\<close>

definition steps_numbered :: "int \<Rightarrow> step_spec list \<Rightarrow> bool" where
  "steps_numbered start steps \<longleftrightarrow>
     (\<forall>i<length steps. ss_sequence (steps ! i) = start + int i \<and> strip (ss_code (steps ! i)) \<noteq> [])"

lemma validate_operation_steps_Inr_iff:
  "validate_operation_steps steps start loc = Inr () \<longleftrightarrow> steps \<noteq> [] \<and> steps_numbered start steps"
proof -
  have step: "validate_operation_step start l x = Inr () \<longleftrightarrow>
      ss_sequence (snd x) = start + int (fst x) \<and> strip (ss_code (snd x)) \<noteq> []" for l x
    by (auto simp: validate_operation_step_def case_prod_beta Let_def)
  have "(\<forall>x\<in>set (enumerate 0 steps). ss_sequence (snd x) = start + int (fst x) \<and>
      strip (ss_code (snd x)) \<noteq> []) \<longleftrightarrow> steps_numbered start steps"
    unfolding steps_numbered_def all_set_conv_all_nth by (simp add: nth_enumerate_eq)
  then show ?thesis
    by (simp add: validate_operation_steps_def check_each_Inr_iff step Let_def)
qed

definition submit_acceptable :: "submit_command \<Rightarrow> bool" where
  "submit_acceptable c \<longleftrightarrow>
     sc_spec_schema_version c = ''1.0'' \<and>
     (sc_session_id c \<noteq> None \<longrightarrow> sc_project_id c \<noteq> None) \<and>
     sc_project_id c \<noteq> Some ''unscoped'' \<and> sc_session_id c \<noteq> Some ''unscoped'' \<and>
     sc_steps c \<noteq> [] \<and> steps_numbered 0 (sc_steps c) \<and>
     (if sc_operation_mode c = OM_SINGLE then sc_operation_wait_timeout_seconds c = None
      else sc_trigger_type c = TT_INTERACTIVE \<and> sc_operation_wait_timeout_seconds c \<noteq> None)"

lemma validate_submit_lifecycle_Inr_iff:
  "validate_submit_lifecycle c = Inr () \<longleftrightarrow>
     (if sc_operation_mode c = OM_SINGLE then sc_operation_wait_timeout_seconds c = None
      else sc_trigger_type c = TT_INTERACTIVE \<and> sc_operation_wait_timeout_seconds c \<noteq> None)"
  by (cases "sc_operation_mode c")
    (auto simp: validate_submit_lifecycle_def Let_def split: option.splits)

lemma validate_submit_Inr_iff: "validate_submit c = Inr () \<longleftrightarrow> submit_acceptable c"
  by (auto simp: validate_submit_def submit_acceptable_def bind_res_eq_Inr Let_def
      validate_schema_version_def validate_operation_steps_Inr_iff
      validate_submit_lifecycle_Inr_iff validate_scope_header_def)

text \<open>A rejected request names one field of the request and is an HTTP 422.\<close>

definition spec_rejection :: "domain_error \<Rightarrow> bool" where
  "spec_rejection e \<longleftrightarrow>
     (case e of
        InvalidExecutionSpecError [i] \<Rightarrow>
          ei_location i \<noteq> [] \<and> hd (ei_location i) \<in> {LStr ''body'', LStr ''header''}
      | _ \<Rightarrow> False)"

lemma spec_rejection_at [simp]:
  "spec_rejection (spec_error_at loc ty ctx) \<longleftrightarrow>
     loc \<noteq> [] \<and> hd loc \<in> {LStr ''body'', LStr ''header''}"
  by (simp add: spec_rejection_def spec_error_at_def)

lemma spec_rejection_http: "spec_rejection e \<Longrightarrow> error_http_status e = 422"
  by (auto simp: spec_rejection_def split: domain_error.splits)

definition request_location :: "location \<Rightarrow> bool" where
  "request_location loc \<longleftrightarrow> loc \<noteq> [] \<and> hd loc \<in> {LStr ''body'', LStr ''header''}"

lemma request_location_append [simp]: "request_location loc \<Longrightarrow> request_location (loc @ l)"
  by (cases loc) (auto simp: request_location_def)

lemma request_location_consts [simp]:
  "request_location SUBMIT_OPERATION_LOCATION" "request_location OPERATION_CREATE_LOCATION"
  by (simp_all add: request_location_def SUBMIT_OPERATION_LOCATION_def OPERATION_CREATE_LOCATION_def)

lemma spec_rejection_iff: "spec_rejection (spec_error_at loc ty ctx) \<longleftrightarrow> request_location loc"
  by (simp add: request_location_def)

lemma validate_timeouts_rejects:
  assumes "validate_timeouts cl ot sts loc = Inl e" and "request_location loc"
  shows "spec_rejection e"
  using assms
  by (auto simp: validate_timeouts_def validate_step_timeout_def bind_raise_if Let_def
      spec_rejection_iff simp del: spec_rejection_at split: if_splits dest!: check_each_Inl)

lemma validate_step_limits_rejects:
  "validate_step_limits cl current new loc = Inl e \<Longrightarrow> request_location loc \<Longrightarrow> spec_rejection e"
  by (auto simp: validate_step_limits_def Let_def spec_rejection_iff simp del: spec_rejection_at
      split: if_splits)

lemma validate_schema_version_rejects:
  "validate_schema_version v loc = Inl e \<Longrightarrow> request_location loc \<Longrightarrow> spec_rejection e"
  by (auto simp: validate_schema_version_def spec_rejection_iff simp del: spec_rejection_at)

lemma validate_operation_steps_rejects:
  "validate_operation_steps steps start loc = Inl e \<Longrightarrow> request_location loc \<Longrightarrow> spec_rejection e"
  by (auto simp: validate_operation_steps_def validate_operation_step_def Let_def
      spec_rejection_iff simp del: spec_rejection_at split: if_splits dest!: check_each_Inl)

lemma validate_submit_rejects: "validate_submit c = Inl e \<Longrightarrow> spec_rejection e"
  unfolding validate_submit_def Let_def bind_res_eq_Inl
  by (elim disjE exE conjE)
    (auto dest: validate_schema_version_rejects validate_operation_steps_rejects
      simp: validate_scope_header_def validate_submit_lifecycle_def Let_def bind_res_eq_Inl
      split: operation_mode.splits option.splits if_splits)

subsection \<open>Snapshots of all Steps\<close>

lemma snapshot_sources_keeps:
  "fst (snapshot_sources sha fs e steps) = fs' \<Longrightarrow> map_of fs p = Some body \<Longrightarrow>
     map_of fs' p = Some body"
proof (induction steps arbitrary: fs)
  case (Cons s steps)
  show ?case
  proof (cases "snapshot_source sha fs e (st_id s) (st_code s)")
    case (Inl err)
    with Cons.prems show ?thesis by simp
  next
    case (Inr r)
    obtain fs1 ref where r: "r = (fs1, ref)" by (cases r)
    have k: "map_of fs1 p = Some body"
      using snapshot_source_keeps [OF Inr [unfolded r] Cons.prems(2)] .
    have "fs' = fs1 \<or> fs' = fst (snapshot_sources sha fs1 e steps)"
      using Cons.prems(1) Inr r by (auto simp: Let_def split: if_splits prod.splits sum.splits)
    then show ?thesis using Cons.IH [OF _ k] k by auto
  qed
qed simp

text \<open>What a successful snapshot adds to a Step.\<close>

definition with_snapshot :: "(string \<Rightarrow> string) \<Rightarrow> uuid \<Rightarrow> execution_step \<Rightarrow> execution_step" where
  "with_snapshot sha execution_id s =
     s\<lparr>st_source_snapshot_path := Some (as_posix (source_relative execution_id (st_id s))),
       st_source_size_bytes := Some (int (length (utf8_encode (st_code s)))),
       st_source_sha256 := sha (utf8_encode (st_code s))\<rparr>"

lemma snapshot_sources_Inr:
  assumes "snapshot_sources sha fs e steps = (fs', Inr steps')"
  shows "steps' = map (with_snapshot sha e) steps \<and>
    (\<forall>s\<in>set steps. map_of fs' (source_relative e (st_id s)) = Some (utf8_encode (st_code s)) \<and>
       (st_source_sha256 s \<noteq> [] \<longrightarrow> st_source_sha256 s = sha (utf8_encode (st_code s))))"
  using assms
proof (induction steps arbitrary: fs steps')
  case (Cons s steps)
  obtain fs1 ref rest where one: "snapshot_source sha fs e (st_id s) (st_code s) = Inr (fs1, ref)"
    and ck: "st_source_sha256 s = [] \<or> sf_checksum_sha256 ref = st_source_sha256 s"
    and more: "snapshot_sources sha fs1 e steps = (fs', Inr rest)"
    and steps': "steps' = s\<lparr>st_source_snapshot_path := Some (sf_relative_path ref),
        st_source_size_bytes := Some (sf_size_bytes ref),
        st_source_sha256 := sf_checksum_sha256 ref\<rparr> # rest"
    using Cons.prems by (auto simp: Let_def split: sum.splits prod.splits if_splits)
  have "map_of fs' (source_relative e (st_id s)) = Some (utf8_encode (st_code s))"
    using snapshot_sources_keeps [OF _ snapshot_source_stored(1) [OF one]] more by (metis fst_conv)
  with Cons.IH [OF more] ck steps' one [unfolded snapshot_source_Inr_iff]
  show ?case by (auto simp: with_snapshot_def)
qed simp

end
