(* ===== verification/Execution_Service.thy ===== *)
theory Execution_Service
  imports Command_Support
begin

text \<open>
  \<open>application/services/{submission,operations,lifecycle}.py\<close>: the command handlers behind
  \<open>ExecutionService\<close>. A handler runs against a database that other processes change between
  its statements, so it takes the database as it is at each point where that matters:

  \<^item> \<open>dl\<close> at the idempotency lookup that opens the unit of work,
  \<^item> \<open>dk\<close> from the moment the row is locked (\<open>for_update\<close>), or the first insert is flushed,
    until the commit,
  \<^item> \<open>dr\<close> at the second lookup, in the handler of \<open>PersistenceConflictError\<close>.

  A sequential run is the case where all three are equal. Identifiers from \<open>uuid4()\<close> and the
  clock are arguments; one handler reads the clock once here.

  The lemmas show what each command commits, that a replay never writes, and that repeating a
  command that was committed gives back its result.
\<close>

subsection \<open>Results\<close>

record command_result =
  cmd_execution :: execution
  cmd_operation_id :: uuid

datatype 'a outcome = Replayed 'a | Committed db 'a

fun outcome_value :: "'a outcome \<Rightarrow> 'a" where
  "outcome_value (Replayed x) = x"
| "outcome_value (Committed d x) = x"

record runtime_offering =
  ro_profiles :: "string list"
  ro_stateful_sessions :: bool
  ro_execution_journal :: bool
  ro_durable_workspace :: bool

record new_ids =
  ni_operation :: uuid
  ni_execution :: uuid
  ni_receipt :: uuid
  ni_steps :: "uuid list"

text \<open>\<open>except PersistenceConflictError\<close>.\<close>

fun is_conflict :: "domain_error + 'a \<Rightarrow> bool" where
  "is_conflict (Inl e) = (e = PersistenceConflictError)"
| "is_conflict (Inr x) = False"

lemma is_conflict_iff: "is_conflict r \<longleftrightarrow> r = Inl PersistenceConflictError"
  by (cases r) auto

text \<open>A constraint violated by an explicit \<open>flush\<close>, and one violated by \<open>commit\<close>.\<close>

definition flushed :: "db option \<Rightarrow> domain_error + db" where
  "flushed r = (case r of None \<Rightarrow> Inl IntegrityError | Some d \<Rightarrow> Inr d)"

definition committed :: "db option \<Rightarrow> domain_error + db" where
  "committed r = (case r of None \<Rightarrow> Inl PersistenceConflictError | Some d \<Rightarrow> Inr d)"

subsection \<open>New entities\<close>

definition new_step ::
    "(string \<Rightarrow> string) \<Rightarrow> datetime \<Rightarrow> uuid \<Rightarrow> string option \<Rightarrow> string option \<Rightarrow> step_spec \<Rightarrow> uuid \<Rightarrow>
       execution_step" where
  "new_step sha256 now operation_id actor_client actor_id s i =
     \<lparr>st_id = i, st_sequence = ss_sequence s, st_source_type = ss_source_type s,
      st_source_path = ss_source_path s, st_source_sha256 = ss_source_sha256 s,
      st_source_snapshot_path = None, st_source_size_bytes = None,
      st_step_timeout_seconds = ss_step_timeout_seconds s,
      st_code_hash = code_hash sha256 (Some (ss_code s)),
      st_skill_name = ss_skill_name s, st_tool_name = ss_tool_name s,
      st_input_parameters = ss_input_parameters s, st_operation_id = Some operation_id,
      st_status = SS_PENDING, st_output_summary = empty_output_summary,
      st_result_execution_attempt_id = None, st_result_manifest_path = None,
      st_result_manifest_checksum_sha256 = None, st_result_manifest_size_bytes = None,
      st_result_fencing_token = None, st_result_complete = None,
      st_result_representation_count = 0, st_result_total_size_bytes = 0,
      st_error_message = None, st_created_by_client = actor_client, st_created_by = actor_id,
      st_updated_by_client = actor_client, st_updated_by = actor_id,
      st_created_at = now, st_updated_at = now, st_started_at = None, st_finished_at = None,
      st_code = ss_code s\<rparr>"

definition new_steps ::
    "(string \<Rightarrow> string) \<Rightarrow> datetime \<Rightarrow> uuid \<Rightarrow> string option \<Rightarrow> string option \<Rightarrow>
       step_spec list \<Rightarrow> uuid list \<Rightarrow> execution_step list" where
  "new_steps sha256 now operation_id actor_client actor_id specs ids =
     map2 (new_step sha256 now operation_id actor_client actor_id) specs ids"

definition new_operation ::
    "datetime \<Rightarrow> uuid \<Rightarrow> uuid \<Rightarrow> int \<Rightarrow> step_spec list \<Rightarrow> int option \<Rightarrow> json \<Rightarrow> string \<Rightarrow> string \<Rightarrow>
       string \<Rightarrow> string option \<Rightarrow> string option \<Rightarrow> execution_operation" where
  "new_operation now i execution_id number steps timeout metadata key fp version
       actor_client actor_id =
     \<lparr>op_id = i, op_execution_id = execution_id, op_operation_number = number,
      op_schema_version = version, op_first_sequence = ss_sequence (hd steps),
      op_last_sequence = ss_sequence (last steps), op_operation_timeout_seconds = timeout,
      op_metadata = metadata, op_idempotency_key = key, op_request_fingerprint = fp,
      op_status = OS_QUEUED, op_execution_attempt_id = None, op_error_message = None,
      op_created_by_client = actor_client, op_created_by = actor_id,
      op_updated_by_client = actor_client, op_updated_by = actor_id,
      op_created_at = now, op_updated_at = now, op_started_at = None, op_finished_at = None\<rparr>"

definition new_execution ::
    "datetime \<Rightarrow> new_ids \<Rightarrow> string \<Rightarrow> submit_command \<Rightarrow> execution_step list \<Rightarrow> execution" where
  "new_execution now ids fp c steps =
     \<lparr>ex_id = ni_execution ids, ex_idempotency_key = sc_idempotency_key c,
      ex_request_fingerprint = fp, ex_cancel_idempotency_key = None, ex_status = ES_QUEUED,
      ex_operation_mode = sc_operation_mode c,
      ex_operation_wait_timeout_seconds = sc_operation_wait_timeout_seconds c,
      ex_trigger_type = sc_trigger_type c, ex_runtime_type = sc_runtime_type c,
      ex_runtime_pool = runtime_pool_of_trigger (sc_trigger_type c),
      ex_runtime_profile = sc_runtime_profile c, ex_user_id = sc_user_id c,
      ex_project_id = sc_project_id c, ex_session_id = sc_session_id c,
      ex_tenant_id = sc_tenant_id c, ex_metadata = sc_metadata c,
      ex_cancellation_reason = None, ex_runtime_target_id = None, ex_runtime_session_id = None,
      ex_workspace_path = None, ex_notebook_path = None,
      ex_notebook_projection_status = NP_NOT_STARTED, ex_notebook_projection_attempt_count = 0,
      ex_notebook_projection_error = None, ex_notebook_projected_at = None,
      ex_error_message = None, ex_failure_type = None, ex_lease_owner = None,
      ex_lease_expires_at = None, ex_heartbeat_at = None,
      ex_retry_strategy = RS_NOT_RETRYABLE, ex_retry_from_sequence = None,
      ex_retained_runtime_session_until = None, ex_retry_count = 0, ex_recovery_count = 0,
      ex_runtime_session_cleanup_status = RC_NOT_REQUIRED,
      ex_runtime_abort_status = RA_NOT_REQUIRED, ex_finalization_requested = False,
      ex_finalized_by = None, ex_active_operation_id = Some (ni_operation ids),
      ex_operation_wait_expires_at = None, ex_execution_expires_at = None, ex_version = 0,
      ex_created_by_client = sc_actor_client c, ex_created_by = sc_actor_id c,
      ex_updated_by_client = sc_actor_client c, ex_updated_by = sc_actor_id c,
      ex_created_at = now, ex_updated_at = now, ex_started_at = None, ex_finished_at = None,
      ex_steps = steps\<rparr>"

subsection \<open>Submit\<close>

definition validate_tenant :: "string \<Rightarrow> domain_error + unit" where
  "validate_tenant tenant_id =
     (let loc = [LStr ''header'', LStr ''X-Tenant-Id''] in
      if \<not> is_valid_tenant_id tenant_id
      then Inl (spec_error_at loc ''invalid_tenant'' [(''actual'', CStr tenant_id)])
      else if tenant_id \<in> set RESERVED_TENANT_IDS
      then Inl (spec_error_at loc ''reserved_tenant'' [(''actual'', CStr tenant_id)])
      else Inr ())"

definition validate_runtime ::
    "(runtime_type \<Rightarrow> runtime_offering option) \<Rightarrow> submit_command \<Rightarrow> domain_error + unit" where
  "validate_runtime offerings c =
     (case offerings (sc_runtime_type c) of
        None \<Rightarrow> Inl UnsupportedRuntimeProfileError
      | Some offering \<Rightarrow>
          if sc_runtime_profile c \<notin> set (ro_profiles offering)
          then Inl UnsupportedRuntimeProfileError
          else if sc_operation_mode c = OM_MULTI \<and> \<not> ro_stateful_sessions offering
          then Inl UnsupportedRuntimeCapabilityError
          else Inr ())"

definition submit_validation ::
    "command_limits \<Rightarrow> (runtime_type \<Rightarrow> runtime_offering option) \<Rightarrow> submit_command \<Rightarrow>
       domain_error + unit" where
  "submit_validation cl offerings c =
     bind_res (validate_submit c) (\<lambda>_.
     bind_res (validate_tenant (sc_tenant_id c)) (\<lambda>_.
     bind_res (validate_step_limits cl 0 (int (length (sc_steps c))) SUBMIT_OPERATION_LOCATION) (\<lambda>_.
     bind_res (validate_timeouts cl (sc_operation_timeout_seconds c)
         (map ss_step_timeout_seconds (sc_steps c)) SUBMIT_OPERATION_LOCATION) (\<lambda>_.
     validate_runtime offerings c))))"

text \<open>The accepted result of a key that was already used, in both lookups.\<close>

definition submit_replay ::
    "db \<Rightarrow> string \<Rightarrow> submit_command \<Rightarrow> execution \<Rightarrow> domain_error + command_result outcome" where
  "submit_replay d fp c existing =
     bind_res (ensure_same_fingerprint existing fp) (\<lambda>_.
     bind_res (required_operation_id
         (get_operation_id_by_key d (ex_id existing) (sc_idempotency_key c))) (\<lambda>operation_id.
     Inr (Replayed \<lparr>cmd_execution = existing, cmd_operation_id = operation_id\<rparr>)))"

text \<open>\<open>add\<close>, \<open>add_operation\<close> with its flush, and a commit that has nothing left to write.\<close>

definition submit_insert ::
    "execution \<Rightarrow> execution_operation \<Rightarrow> db \<Rightarrow> db option" where
  "submit_insert e operation d =
     Option.bind (insert_execution (execution_from_domain e) d) (\<lambda>d1.
     Option.bind (insert_operation (operation_from_domain operation) d1) (\<lambda>d2.
     insert_steps (map (step_from_domain (ex_id e)) (ex_steps e)) d2))"

definition submit_new ::
    "(string \<Rightarrow> string) \<Rightarrow> datetime \<Rightarrow> new_ids \<Rightarrow> db \<Rightarrow> files \<Rightarrow> string \<Rightarrow> submit_command \<Rightarrow>
       files \<times> (domain_error + command_result outcome)" where
  "submit_new sha256 now ids dk fs fp c =
     (let operation = new_operation now (ni_operation ids) (ni_execution ids) 1 (sc_steps c)
            (sc_operation_timeout_seconds c) (sc_operation_metadata c) (sc_idempotency_key c) fp
            (sc_spec_schema_version c) (sc_actor_client c) (sc_actor_id c);
          steps = new_steps sha256 now (ni_operation ids) (sc_actor_client c) (sc_actor_id c)
            (sc_steps c) (ni_steps ids)
      in case snapshot_sources sha256 fs (ni_execution ids) steps of
           (fs', Inl err) \<Rightarrow> (fs', Inl err)
         | (fs', Inr steps') \<Rightarrow>
             (let execution = new_execution now ids fp c steps' in
              (fs', bind_res (flushed (submit_insert execution operation dk)) (\<lambda>d'.
                 Inr (Committed d' \<lparr>cmd_execution = execution,
                                    cmd_operation_id = ni_operation ids\<rparr>)))))"

definition submit_recheck ::
    "db \<Rightarrow> string \<Rightarrow> submit_command \<Rightarrow> domain_error + command_result outcome" where
  "submit_recheck dr fp c =
     (case get_by_submit_key dr (sc_tenant_id c) (sc_idempotency_key c) of
        None \<Rightarrow> Inl PersistenceConflictError
      | Some existing \<Rightarrow> submit_replay dr fp c existing)"

definition submit ::
    "(string \<Rightarrow> string) \<Rightarrow> command_limits \<Rightarrow> (runtime_type \<Rightarrow> runtime_offering option) \<Rightarrow>
       datetime \<Rightarrow> new_ids \<Rightarrow> db \<Rightarrow> db \<Rightarrow> db \<Rightarrow> files \<Rightarrow> submit_command \<Rightarrow>
       files \<times> (domain_error + command_result outcome)" where
  "submit sha256 cl offerings now ids dl dk dr fs c =
     (case submit_validation cl offerings c of
        Inl err \<Rightarrow> (fs, Inl err)
      | Inr _ \<Rightarrow>
          (let fp = canonical_sha256 sha256 (submit_payload c);
               (fs', r) =
                 (case get_by_submit_key dl (sc_tenant_id c) (sc_idempotency_key c) of
                    Some existing \<Rightarrow> (fs, submit_replay dl fp c existing)
                  | None \<Rightarrow> submit_new sha256 now ids dk fs fp c)
           in (fs', if is_conflict r then submit_recheck dr fp c else r)))"

subsection \<open>Create Operation\<close>

definition create_replay ::
    "db \<Rightarrow> string \<Rightarrow> string \<Rightarrow> create_operation_command \<Rightarrow> receipt \<Rightarrow>
       domain_error + command_result outcome" where
  "create_replay d command_type fp c repeated =
     bind_res (ensure_same_receipt repeated command_type fp) (\<lambda>_.
     bind_res (required_execution d (oc_execution_id c)) (\<lambda>execution.
     bind_res (operation_id_from_receipt repeated) (\<lambda>operation_id.
     Inr (Replayed \<lparr>cmd_execution = execution, cmd_operation_id = operation_id\<rparr>))))"

definition create_validation ::
    "command_limits \<Rightarrow> create_operation_command \<Rightarrow> execution \<Rightarrow> domain_error + unit" where
  "create_validation cl c e =
     bind_res (validate_step_limits cl (int (length (ex_steps e))) (int (length (oc_steps c)))
         OPERATION_CREATE_LOCATION) (\<lambda>_.
     bind_res (validate_timeouts cl (oc_operation_timeout_seconds c)
         (map ss_step_timeout_seconds (oc_steps c)) OPERATION_CREATE_LOCATION) (\<lambda>_.
     validate_operation_steps (oc_steps c) (int (length (ex_steps e)))
         (OPERATION_CREATE_LOCATION @ [LStr ''spec''])))"

definition create_receipt ::
    "datetime \<Rightarrow> new_ids \<Rightarrow> string \<Rightarrow> string \<Rightarrow> create_operation_command \<Rightarrow> uuid \<Rightarrow>
       command_receipt_orm" where
  "create_receipt now ids command_type fp c execution_id =
     \<lparr>cr_id = ni_receipt ids, cr_scope = execution_receipt_scope execution_id,
      cr_idempotency_key = oc_idempotency_key c, cr_command_type = command_type,
      cr_request_fingerprint = fp,
      cr_result = JObj [(''execution_id'', JStr (uuid_str execution_id)),
                        (''operation_id'', JStr (uuid_str (ni_operation ids)))],
      cr_created_at = now\<rparr>"

text \<open>
  The writes after the checks: \<open>save\<close>, \<open>add_operation\<close> with its flush, then the Steps and
  the receipt, which the commit flushes.
\<close>

definition create_write ::
    "execution \<Rightarrow> execution_operation \<Rightarrow> execution_step list \<Rightarrow> command_receipt_orm \<Rightarrow> db \<Rightarrow>
       domain_error + db" where
  "create_write e operation steps rcpt d =
     bind_res (repo_save e d) (\<lambda>d1.
     bind_res (flushed (insert_operation (operation_from_domain operation) d1)) (\<lambda>d2.
     committed (Option.bind (insert_steps (map (step_from_domain (ex_id e)) steps) d2)
       (insert_command_receipt rcpt))))"

definition create_locked ::
    "(string \<Rightarrow> string) \<Rightarrow> command_limits \<Rightarrow> datetime \<Rightarrow> new_ids \<Rightarrow> db \<Rightarrow> files \<Rightarrow> string \<Rightarrow> string \<Rightarrow>
       create_operation_command \<Rightarrow> files \<times> (domain_error + command_result outcome)" where
  "create_locked sha256 cl now ids dk fs command_type fp c =
     (case bind_res (required_execution dk (oc_execution_id c)) (\<lambda>e.
           bind_res (request_operation (oc_expected_version c) now e) (\<lambda>e1.
           bind_res (create_validation cl c e1) (\<lambda>_.
           Inr (apply_actor (oc_actor_client c) (oc_actor_id c) e1)))) of
        Inl err \<Rightarrow> (fs, Inl err)
      | Inr e \<Rightarrow>
          (let operation = new_operation now (ni_operation ids) (ex_id e)
                 (next_operation_number dk (ex_id e)) (oc_steps c)
                 (oc_operation_timeout_seconds c) (oc_metadata c) (oc_idempotency_key c) fp
                 (oc_spec_schema_version c) (oc_actor_client c) (oc_actor_id c);
               steps = new_steps sha256 now (ni_operation ids) (oc_actor_client c) (oc_actor_id c)
                 (oc_steps c) (ni_steps ids)
           in case snapshot_sources sha256 fs (ex_id e) steps of
                (fs', Inl err) \<Rightarrow> (fs', Inl err)
              | (fs', Inr steps') \<Rightarrow>
                  (let e' = e\<lparr>ex_steps := ex_steps e @ steps',
                              ex_active_operation_id := Some (ni_operation ids)\<rparr> in
                   (fs', bind_res (create_write e' operation steps'
                            (create_receipt now ids command_type fp c (ex_id e)) dk) (\<lambda>d'.
                      Inr (Committed d' \<lparr>cmd_execution = e',
                                         cmd_operation_id = ni_operation ids\<rparr>))))))"

definition create_recheck ::
    "db \<Rightarrow> string \<Rightarrow> string \<Rightarrow> create_operation_command \<Rightarrow>
       domain_error + command_result outcome" where
  "create_recheck dr command_type fp c =
     (case get_command_receipt dr (oc_execution_id c) (oc_idempotency_key c) of
        None \<Rightarrow> Inl IdempotencyConflictError
      | Some repeated \<Rightarrow> create_replay dr command_type fp c repeated)"

definition create_operation ::
    "(string \<Rightarrow> string) \<Rightarrow> command_limits \<Rightarrow> datetime \<Rightarrow> new_ids \<Rightarrow> db \<Rightarrow> db \<Rightarrow> db \<Rightarrow> files \<Rightarrow>
       create_operation_command \<Rightarrow> files \<times> (domain_error + command_result outcome)" where
  "create_operation sha256 cl now ids dl dk dr fs c =
     (case validate_schema_version (oc_spec_schema_version c)
             (OPERATION_CREATE_LOCATION @ [LStr ''spec'']) of
        Inl err \<Rightarrow> (fs, Inl err)
      | Inr _ \<Rightarrow>
          (let fp = canonical_sha256 sha256 (create_operation_payload c);
               command_type = ''execution_operation_create'';
               (fs', r) =
                 (case get_command_receipt dl (oc_execution_id c) (oc_idempotency_key c) of
                    Some repeated \<Rightarrow> (fs, create_replay dl command_type fp c repeated)
                  | None \<Rightarrow> create_locked sha256 cl now ids dk fs command_type fp c)
           in (fs', if is_conflict r
                    then create_recheck dr command_type fp c else r)))"

subsection \<open>Finalize\<close>

definition finalize_replay ::
    "db \<Rightarrow> string \<Rightarrow> string \<Rightarrow> finalize_command \<Rightarrow> receipt \<Rightarrow> domain_error + execution outcome" where
  "finalize_replay d command_type fp c repeated =
     bind_res (ensure_same_receipt repeated command_type fp) (\<lambda>_.
     bind_res (required_execution d (fc_execution_id c)) (\<lambda>e. Inr (Replayed e)))"

definition finalize_receipt ::
    "datetime \<Rightarrow> new_ids \<Rightarrow> string \<Rightarrow> string \<Rightarrow> finalize_command \<Rightarrow> uuid \<Rightarrow>
       command_receipt_orm" where
  "finalize_receipt now ids command_type fp c execution_id =
     \<lparr>cr_id = ni_receipt ids, cr_scope = execution_receipt_scope execution_id,
      cr_idempotency_key = fc_idempotency_key c, cr_command_type = command_type,
      cr_request_fingerprint = fp,
      cr_result = JObj [(''execution_id'', JStr (uuid_str execution_id))],
      cr_created_at = now\<rparr>"

definition finalize_locked ::
    "datetime \<Rightarrow> new_ids \<Rightarrow> db \<Rightarrow> string \<Rightarrow> string \<Rightarrow> finalize_command \<Rightarrow>
       domain_error + execution outcome" where
  "finalize_locked now ids dk command_type fp c =
     bind_res (required_execution dk (fc_execution_id c)) (\<lambda>e.
     bind_res (request_finalization (fc_expected_version c) now e) (\<lambda>e1.
     let e2 = apply_actor (fc_actor_client c) (fc_actor_id c) e1 in
     bind_res (repo_save e2 dk) (\<lambda>d1.
     bind_res (committed
         (insert_command_receipt (finalize_receipt now ids command_type fp c (ex_id e2)) d1)) (\<lambda>d2.
     Inr (Committed d2 e2)))))"

definition resolve_repeated_command ::
    "db \<Rightarrow> string \<Rightarrow> string \<Rightarrow> finalize_command \<Rightarrow> domain_error + execution outcome" where
  "resolve_repeated_command dr command_type fp c =
     (case get_command_receipt dr (fc_execution_id c) (fc_idempotency_key c) of
        None \<Rightarrow> Inl IdempotencyConflictError
      | Some repeated \<Rightarrow> finalize_replay dr command_type fp c repeated)"

definition finalize_execution ::
    "(string \<Rightarrow> string) \<Rightarrow> datetime \<Rightarrow> new_ids \<Rightarrow> db \<Rightarrow> db \<Rightarrow> db \<Rightarrow> finalize_command \<Rightarrow>
       domain_error + execution outcome" where
  "finalize_execution sha256 now ids dl dk dr c =
     (let fp = canonical_sha256 sha256 (finalize_payload c);
          command_type = ''execution_finalize'';
          r = (case get_command_receipt dl (fc_execution_id c) (fc_idempotency_key c) of
                 Some repeated \<Rightarrow> finalize_replay dl command_type fp c repeated
               | None \<Rightarrow> finalize_locked now ids dk command_type fp c)
      in if is_conflict r
         then resolve_repeated_command dr command_type fp c else r)"

subsection \<open>Cancel\<close>

definition cancel_locked :: "datetime \<Rightarrow> db \<Rightarrow> cancel_command \<Rightarrow> domain_error + execution outcome" where
  "cancel_locked now dk c =
     bind_res (required_execution dk (cc_execution_id c)) (\<lambda>e.
     if ex_status e = ES_CANCEL_REQUESTED then Inr (Replayed e)
     else
       bind_res (request_cancel (cc_idempotency_key c) (cc_reason c) now e) (\<lambda>e1.
       let e2 = apply_actor (cc_actor_client c) (cc_actor_id c) e1 in
       bind_res (repo_save e2 dk) (\<lambda>d'. Inr (Committed d' e2))))"

definition cancel_execution ::
    "datetime \<Rightarrow> db \<Rightarrow> db \<Rightarrow> db \<Rightarrow> cancel_command \<Rightarrow> domain_error + execution outcome" where
  "cancel_execution now dl dk dr c =
     (let r = (case get_by_cancel_key dl (cc_execution_id c) (cc_idempotency_key c) of
                 Some key_owner \<Rightarrow> Inr (Replayed key_owner)
               | None \<Rightarrow> cancel_locked now dk c)
      in if is_conflict r
         then (case get_by_cancel_key dr (cc_execution_id c) (cc_idempotency_key c) of
                 Some key_owner \<Rightarrow> Inr (Replayed key_owner)
               | None \<Rightarrow> Inl IdempotencyConflictError)
         else r)"

subsection \<open>Retry\<close>

definition retry_replay :: "execution \<Rightarrow> domain_error + command_result outcome" where
  "retry_replay key_owner =
     bind_res (required_operation_id (ex_active_operation_id key_owner)) (\<lambda>operation_id.
     Inr (Replayed \<lparr>cmd_execution = key_owner, cmd_operation_id = operation_id\<rparr>))"

definition retry_step_actors :: "retry_command \<Rightarrow> execution \<Rightarrow> execution" where
  "retry_step_actors c e =
     e\<lparr>ex_steps := map (\<lambda>s.
        if (case ex_retry_from_sequence e of None \<Rightarrow> False | Some n \<Rightarrow> n \<le> st_sequence s)
        then apply_step_actor (rc_actor_client c) (rc_actor_id c) s else s) (ex_steps e)\<rparr>"

definition retry_receipt :: "datetime \<Rightarrow> new_ids \<Rightarrow> retry_command \<Rightarrow> uuid \<Rightarrow> int \<Rightarrow> execution_retry_orm" where
  "retry_receipt now ids c execution_id from_sequence =
     \<lparr>er_id = ni_receipt ids, er_execution_id = execution_id,
      er_idempotency_key = rc_idempotency_key c, er_from_sequence = from_sequence,
      er_created_at = now\<rparr>"

definition retry_locked ::
    "datetime \<Rightarrow> new_ids \<Rightarrow> db \<Rightarrow> retry_command \<Rightarrow> domain_error + command_result outcome" where
  "retry_locked now ids dk c =
     bind_res (required_execution dk (rc_execution_id c)) (\<lambda>e.
     bind_res (request_retry now e) (\<lambda>e1.
     bind_res (required_operation_id (ex_active_operation_id e1)) (\<lambda>operation_id.
     let e2 = retry_step_actors c (apply_actor (rc_actor_client c) (rc_actor_id c) e1) in
     case ex_retry_from_sequence e2 of
       None \<Rightarrow> Inl UnexpectedRuntimeError
     | Some from_sequence \<Rightarrow>
         bind_res (repo_save e2 dk) (\<lambda>d1.
         bind_res (requeue_operation_for_retry operation_id (rc_actor_client c) (rc_actor_id c)
             now d1) (\<lambda>d2.
         bind_res (committed
             (insert_retry_receipt (retry_receipt now ids c (ex_id e2) from_sequence) d2)) (\<lambda>d3.
         Inr (Committed d3 \<lparr>cmd_execution = e2, cmd_operation_id = operation_id\<rparr>)))))))"

definition retry_execution ::
    "datetime \<Rightarrow> new_ids \<Rightarrow> db \<Rightarrow> db \<Rightarrow> db \<Rightarrow> retry_command \<Rightarrow>
       domain_error + command_result outcome" where
  "retry_execution now ids dl dk dr c =
     (let r = (case get_by_retry_key dl (rc_execution_id c) (rc_idempotency_key c) of
                 Some key_owner \<Rightarrow> retry_replay key_owner
               | None \<Rightarrow> retry_locked now ids dk c)
      in if is_conflict r
         then (case get_by_retry_key dr (rc_execution_id c) (rc_idempotency_key c) of
                 Some key_owner \<Rightarrow> retry_replay key_owner
               | None \<Rightarrow> Inl IdempotencyConflictError)
         else r)"

subsection \<open>New Steps\<close>

lemma new_steps_sel:
  assumes "length ids = length specs"
  shows "map st_sequence (new_steps sha now q a b specs ids) = map ss_sequence specs"
    and "map st_id (new_steps sha now q a b specs ids) = ids"
  using assms by (induction specs ids rule: list_induct2') (simp_all add: new_steps_def new_step_def)

lemma with_snapshot_sel [simp]:
  "st_sequence (with_snapshot sha i s) = st_sequence s" "st_id (with_snapshot sha i s) = st_id s"
  "st_operation_id (with_snapshot sha i s) = st_operation_id s"
  by (simp_all add: with_snapshot_def)

lemma steps_numbered_iff:
  "steps_numbered start steps \<longleftrightarrow>
     map ss_sequence steps = map (\<lambda>i. start + int i) [0..<length steps] \<and>
     (\<forall>s\<in>set steps. strip (ss_code s) \<noteq> [])"
  unfolding steps_numbered_def all_set_conv_all_nth list_eq_iff_nth_eq [of "map ss_sequence steps"]
  by auto

subsection \<open>A submission persists\<close>

lemma snapshot_sources_ok:
  assumes "\<forall>s\<in>set steps. strip (st_code s) \<noteq> [] \<and>
      (st_source_sha256 s = [] \<or> st_source_sha256 s = sha (utf8_encode (st_code s)))"
    and "distinct (map st_id steps)" and "e < 2 ^ 128" and "\<forall>s\<in>set steps. st_id s < 2 ^ 128"
    and "\<forall>s\<in>set steps. map_of fs (source_relative e (st_id s)) = None"
  shows "\<exists>fs'. snapshot_sources sha fs e steps = (fs', Inr (map (with_snapshot sha e) steps))"
  using assms
proof (induction steps arbitrary: fs)
  case (Cons s steps)
  let ?body = "utf8_encode (st_code s)"
  let ?fs1 = "(source_relative e (st_id s), ?body) # fs"
  have "\<forall>x\<in>set steps. map_of ?fs1 (source_relative e (st_id x)) = None"
  proof
    fix x assume x: "x \<in> set steps"
    then have "st_id x \<noteq> st_id s" using Cons.prems(2) not_key_imageD [of "st_id s" st_id "set steps" x] by simp
    then have "source_relative e (st_id s) \<noteq> source_relative e (st_id x)"
      using Cons.prems(3,4) x source_relative_inject [of e e "st_id s" "st_id x"] by auto
    then show "map_of ?fs1 (source_relative e (st_id x)) = None" using Cons.prems(5) x by simp
  qed
  then obtain fs' where "snapshot_sources sha ?fs1 e steps = (fs', Inr (map (with_snapshot sha e) steps))"
    using Cons.IH [of ?fs1] Cons.prems by auto
  moreover have "snapshot_source sha fs e (st_id s) (st_code s) =
      Inr (?fs1, \<lparr>sf_relative_path = as_posix (source_relative e (st_id s)),
                 sf_checksum_sha256 = sha ?body, sf_size_bytes = int (length ?body)\<rparr>)"
    using Cons.prems(1,5) by (simp add: snapshot_source_Inr_iff)
  ultimately show ?case using Cons.prems(1) by (auto simp: with_snapshot_def Let_def)
qed simp

text \<open>What \<open>uuid4()\<close> is relied on for: new identifiers, all different from the used ones.\<close>

definition fresh_ids :: "new_ids \<Rightarrow> db \<Rightarrow> nat \<Rightarrow> bool" where
  "fresh_ids ids d n \<longleftrightarrow>
     ni_execution ids \<notin> ex_id ` set (db_executions d) \<and>
     ni_operation ids \<notin> op_id ` set (db_operations d) \<and>
     ni_receipt ids \<notin> cr_id ` set (db_receipts d) \<and>
     ni_receipt ids \<notin> er_id ` set (db_retries d) \<and>
     distinct (ni_steps ids) \<and> length (ni_steps ids) = n \<and>
     set (ni_steps ids) \<inter> st_id ` set (db_steps d) = {} \<and>
     ni_execution ids < 2 ^ 128 \<and> ni_operation ids < 2 ^ 128 \<and> (\<forall>i\<in>set (ni_steps ids). i < 2 ^ 128)"

text \<open>What the request schema guarantees of a Step and the database also checks.\<close>

definition step_spec_ok :: "step_spec \<Rightarrow> bool" where
  "step_spec_ok s \<longleftrightarrow>
     opt_ge 1 (ss_step_timeout_seconds s) \<and>
     (ss_source_path s = None \<longleftrightarrow> ss_source_type s = CS_INLINE)"

definition checksums_match :: "(string \<Rightarrow> string) \<Rightarrow> step_spec list \<Rightarrow> bool" where
  "checksums_match sha steps \<longleftrightarrow>
     (\<forall>s\<in>set steps. ss_source_sha256 s = [] \<or> ss_source_sha256 s = sha (utf8_encode (ss_code s)))"

definition submit_row_ok :: "submit_command \<Rightarrow> bool" where
  "submit_row_ok c \<longleftrightarrow>
     (\<forall>s\<in>set (sc_steps c). step_spec_ok s) \<and> opt_ge 1 (sc_operation_timeout_seconds c) \<and>
     opt_ge 30 (sc_operation_wait_timeout_seconds c)"

lemma set_new_steps:
  assumes "x \<in> set (new_steps sha now q a b specs ids)"
  obtains s i where "s \<in> set specs" "i \<in> set ids" "x = new_step sha now q a b s i"
  using assms unfolding new_steps_def by (auto dest: set_zip_leftD set_zip_rightD)

lemma new_step_row_ok:
  assumes "step_spec_ok s" and "0 \<le> ss_sequence s"
  shows "step_row_ok (step_from_domain e (with_snapshot sha e (new_step sha now q a b s i)))"
  using assms
  by (cases "ss_source_type s")
    (simp_all add: step_row_ok_def step_spec_ok_def with_snapshot_def new_step_def row_simps)

lemma steps_numbered_ge: "steps_numbered start steps \<Longrightarrow> s \<in> set steps \<Longrightarrow> start \<le> ss_sequence s"
  by (auto simp: steps_numbered_def in_set_conv_nth)

lemma steps_numbered_ends:
  assumes "steps_numbered start steps" and "steps \<noteq> []"
  shows "ss_sequence (hd steps) = start"
    and "ss_sequence (last steps) = start + int (length steps) - 1"
  using assms by (auto simp: steps_numbered_def hd_conv_nth last_conv_nth of_nat_diff Suc_leI)

text \<open>The rows of an accepted Operation pass every check of the database.\<close>

lemma insert_new_steps:
  assumes wf: "db_wf d" and num: "steps_numbered (int n) specs"
    and ok: "\<forall>s\<in>set specs. step_spec_ok s"
    and ids: "distinct ids" "length ids = length specs" "set ids \<inter> st_id ` set (db_steps d) = {}"
    and old: "map st_sequence (steps_of d e) = map int [0..<n]"
    and e: "e \<in> ex_id ` set (db_executions d)" and q: "q \<in> op_id ` set (db_operations d)"
    and ss: "ss = map (with_snapshot sha e) (new_steps sha now q a b specs ids)"
  shows "insert_steps (map (step_from_domain e) ss) d =
    Some (d\<lparr>db_steps := db_steps d @ map (step_from_domain e) ss\<rparr>)"
proof -
  let ?rs = "map (step_from_domain e) ss"
  have seqs: "map st_sequence ?rs = map (\<lambda>i. int n + int i) [0..<length specs]"
    using num by (simp add: ss comp_def new_steps_sel(1) [OF ids(2)] steps_numbered_iff)
  have idl: "map st_id ?rs = ids"
    by (simp add: ss comp_def new_steps_sel(2) [OF ids(2)])
  have rows: "step_row_ok r \<and> st_execution_id r = e \<and> st_operation_id r = Some q"
    if r: "r \<in> set ?rs" for r
  proof -
    from r obtain x where "x \<in> set (new_steps sha now q a b specs ids)"
      and x: "r = step_from_domain e (with_snapshot sha e x)" unfolding ss by auto
    then obtain s i where s: "s \<in> set specs" "x = new_step sha now q a b s i"
      using set_new_steps by metis
    have "0 \<le> ss_sequence s" using steps_numbered_ge [OF num s(1)] by linarith
    then show ?thesis using ok s x by (simp add: new_step_row_ok) (simp add: new_step_def)
  qed
  have fresh: "st_id x \<noteq> st_id r" if "r \<in> set ?rs" "x \<in> set (db_steps d)" for r x
  proof -
    have "st_id r \<in> set (map st_id ?rs)" using that(1) by (simp only: set_map imageI)
    then have "st_id r \<notin> st_id ` set (db_steps d)" using ids(3) unfolding idl by blast
    then show ?thesis using that(2) by (rule not_key_imageD)
  qed
  have gap: "st_sequence x \<noteq> st_sequence r"
    if "r \<in> set ?rs" "x \<in> set (db_steps d)" "st_execution_id x = e" for r x
  proof -
    have "st_sequence r \<in> set (map st_sequence ?rs)" using that(1) by (simp only: set_map imageI)
    then have "int n \<le> st_sequence r" unfolding seqs by auto
    moreover have "st_sequence x \<in> set (map st_sequence (steps_of d e))"
      using that(2,3) by (simp add: set_steps_of)
    then have "st_sequence x < int n" unfolding old by auto
    ultimately show ?thesis by simp
  qed
  have dseq: "distinct (map st_sequence ?rs)"
    unfolding seqs by (simp add: distinct_map inj_on_def)
  show ?thesis
    by (rule insert_steps_Some [of ?rs e q])
      (use rows fresh gap ids(1) idl dseq e q in \<open>simp_all add: comp_def\<close>)
qed

lemma new_execution_sel [simp]:
  "ex_id (new_execution now ids fp c ss) = ni_execution ids"
  "ex_steps (new_execution now ids fp c ss) = ss"
  "ex_status (new_execution now ids fp c ss) = ES_QUEUED"
  "ex_version (new_execution now ids fp c ss) = 0"
  "ex_tenant_id (new_execution now ids fp c ss) = sc_tenant_id c"
  "ex_idempotency_key (new_execution now ids fp c ss) = sc_idempotency_key c"
  "ex_request_fingerprint (new_execution now ids fp c ss) = fp"
  "ex_active_operation_id (new_execution now ids fp c ss) = Some (ni_operation ids)"
  by (simp_all add: new_execution_def)

lemma new_execution_row_ok:
  assumes "submit_acceptable c" and "submit_row_ok c"
  shows "execution_row_ok (execution_from_domain (new_execution now ids fp c ss))"
  using assms
  by (cases "sc_operation_mode c")
    (simp_all add: execution_row_ok_def new_execution_def row_simps submit_acceptable_def
      submit_row_ok_def)

lemma new_operation_sel [simp]:
  "op_id (operation_from_domain (new_operation now i e n ss t m k fp v a b)) = i"
  "op_execution_id (operation_from_domain (new_operation now i e n ss t m k fp v a b)) = e"
  "op_idempotency_key (operation_from_domain (new_operation now i e n ss t m k fp v a b)) = k"
  "op_operation_number (operation_from_domain (new_operation now i e n ss t m k fp v a b)) = n"
  by (simp_all add: new_operation_def row_simps)

lemma new_operation_row_ok:
  assumes "steps_numbered (int k) ss" and "ss \<noteq> []" and "0 < n" and "opt_ge 1 t"
  shows "operation_row_ok (operation_from_domain (new_operation now i e n ss t m key fp ''1.0'' a b))"
  using steps_numbered_ends [OF assms(1,2)] assms
  by (cases ss) (simp_all add: operation_row_ok_def new_operation_def row_simps)

lemma insert_execution_Some:
  assumes "execution_row_ok r" and "ex_id r \<notin> ex_id ` set (db_executions d)"
    and "scalar (\<lambda>x. ex_tenant_id x = ex_tenant_id r \<and> ex_idempotency_key x = ex_idempotency_key r)
           (db_executions d) = None"
  shows "insert_execution r d = Some (d\<lparr>db_executions := db_executions d @ [r]\<rparr>)"
  using assms not_key_imageD [OF assms(2)]
  by (simp add: insert_execution_def list_all_iff scalar_None_iff)

lemma insert_operation_Some:
  assumes "operation_row_ok r" and "op_id r \<notin> op_id ` set (db_operations d)"
    and "op_execution_id r \<in> ex_id ` set (db_executions d)"
    and "\<forall>q\<in>set (db_operations d). op_execution_id q = op_execution_id r \<longrightarrow>
      op_operation_number q \<noteq> op_operation_number r \<and> op_idempotency_key q \<noteq> op_idempotency_key r"
  shows "insert_operation r d = Some (d\<lparr>db_operations := db_operations d @ [r]\<rparr>)"
proof -
  have "list_all (\<lambda>x. op_id x \<noteq> op_id r \<and>
      \<not> (op_execution_id x = op_execution_id r \<and>
         (op_operation_number x = op_operation_number r \<or>
          op_idempotency_key x = op_idempotency_key r))) (db_operations d)"
    unfolding list_all_iff using not_key_imageD [OF assms(2)] assms(4) by blast
  moreover have "list_ex (\<lambda>e. ex_id e = op_execution_id r) (db_executions d)"
    using assms(3) by (simp add: list_ex_iff image_key_iff)
  ultimately show ?thesis using assms(1) by (simp add: insert_operation_def)
qed

lemma get_by_submit_key_None:
  "get_by_submit_key d t k = None \<longleftrightarrow>
     scalar (\<lambda>r. ex_tenant_id r = t \<and> ex_idempotency_key r = k) (db_executions d) = None"
  by (simp add: get_by_submit_key_def)

text \<open>The three inserts of an accepted submission, and the Execution read back from its rows.\<close>

lemma submit_insert_Some:
  assumes wf: "db_wf d" and acc: "submit_acceptable c" and rows: "submit_row_ok c"
    and key: "get_by_submit_key d (sc_tenant_id c) (sc_idempotency_key c) = None"
    and ids: "fresh_ids ids d (length (sc_steps c))"
    and ss: "ss = map (with_snapshot sha (ni_execution ids))
      (new_steps sha now (ni_operation ids) (sc_actor_client c) (sc_actor_id c) (sc_steps c) (ni_steps ids))"
    and e: "e = new_execution now ids fp c ss"
    and q: "q = new_operation now (ni_operation ids) (ni_execution ids) 1 (sc_steps c)
            (sc_operation_timeout_seconds c) (sc_operation_metadata c) (sc_idempotency_key c) fp
            (sc_spec_schema_version c) (sc_actor_client c) (sc_actor_id c)"
  shows "submit_insert e q d = Some (d
    \<lparr>db_executions := db_executions d @ [execution_from_domain e],
     db_operations := db_operations d @ [operation_from_domain q],
     db_steps := db_steps d @ map (step_from_domain (ni_execution ids)) ss\<rparr>)"
proof -
  let ?d1 = "d\<lparr>db_executions := db_executions d @ [execution_from_domain e]\<rparr>"
  let ?d2 = "?d1\<lparr>db_operations := db_operations d @ [operation_from_domain q]\<rparr>"
  have new: "ni_execution ids \<notin> ex_id ` set (db_executions d)"
    and op: "ni_operation ids \<notin> op_id ` set (db_operations d)"
    using ids by (simp_all add: fresh_ids_def)
  have num: "steps_numbered (int 0) (sc_steps c)" and ne: "sc_steps c \<noteq> []"
    and ver: "sc_spec_schema_version c = ''1.0''"
    using acc by (simp_all add: submit_acceptable_def)
  have 1: "insert_execution (execution_from_domain e) d = Some ?d1"
    by (rule insert_execution_Some)
      (use new key new_execution_row_ok [OF acc rows] in \<open>simp_all add: e get_by_submit_key_None\<close>)
  have 2: "insert_operation (operation_from_domain q) ?d1 = Some ?d2"
  proof -
    have "operation_row_ok (operation_from_domain q)"
      unfolding q ver by (rule new_operation_row_ok [OF num ne])
        (use rows in \<open>simp_all add: submit_row_ok_def\<close>)
    moreover have "op_execution_id x \<noteq> ni_execution ids" if "x \<in> set (db_operations d)" for x
      using db_wf_operation_owner [OF wf that] new by metis
    ultimately have "insert_operation (operation_from_domain q) ?d1 =
        Some (?d1\<lparr>db_operations := db_operations ?d1 @ [operation_from_domain q]\<rparr>)"
      by (intro insert_operation_Some) (simp_all add: op q e)
    then show ?thesis by simp
  qed
  have wf2: "db_wf ?d2"
    using insert_execution_wf [OF wf 1] 2 by (rule insert_operation_wf)
  have "steps_of ?d2 (ni_execution ids) = steps_of d (ni_execution ids)" by (simp add: steps_of_def)
  then have old: "map st_sequence (steps_of ?d2 (ni_execution ids)) = map int [0..<0]"
    using steps_of_unused [OF wf new] by simp
  have "insert_steps (map (step_from_domain (ni_execution ids)) ss) ?d2 =
      Some (?d2\<lparr>db_steps := db_steps ?d2 @ map (step_from_domain (ni_execution ids)) ss\<rparr>)"
    by (rule insert_new_steps [OF wf2 num _ _ _ _ old _ _ ss])
      (use rows ids in \<open>simp_all add: submit_row_ok_def fresh_ids_def e q\<close>)
  with 1 2 show ?thesis by (simp add: submit_insert_def) (simp add: e)
qed

text \<open>What an accepted submission leaves behind.\<close>

definition submitted_steps ::
    "(string \<Rightarrow> string) \<Rightarrow> datetime \<Rightarrow> new_ids \<Rightarrow> submit_command \<Rightarrow> execution_step list" where
  "submitted_steps sha now ids c =
     map (with_snapshot sha (ni_execution ids))
       (new_steps sha now (ni_operation ids) (sc_actor_client c) (sc_actor_id c)
         (sc_steps c) (ni_steps ids))"

definition submitted_execution ::
    "(string \<Rightarrow> string) \<Rightarrow> datetime \<Rightarrow> new_ids \<Rightarrow> string \<Rightarrow> submit_command \<Rightarrow> execution" where
  "submitted_execution sha now ids fp c = new_execution now ids fp c (submitted_steps sha now ids c)"

definition submitted_operation ::
    "datetime \<Rightarrow> new_ids \<Rightarrow> string \<Rightarrow> submit_command \<Rightarrow> execution_operation" where
  "submitted_operation now ids fp c =
     new_operation now (ni_operation ids) (ni_execution ids) 1 (sc_steps c)
       (sc_operation_timeout_seconds c) (sc_operation_metadata c) (sc_idempotency_key c) fp
       (sc_spec_schema_version c) (sc_actor_client c) (sc_actor_id c)"

definition submitted_db ::
    "(string \<Rightarrow> string) \<Rightarrow> datetime \<Rightarrow> new_ids \<Rightarrow> string \<Rightarrow> submit_command \<Rightarrow> db \<Rightarrow> db" where
  "submitted_db sha now ids fp c d = d
     \<lparr>db_executions := db_executions d @ [execution_from_domain (submitted_execution sha now ids fp c)],
      db_operations := db_operations d @ [operation_from_domain (submitted_operation now ids fp c)],
      db_steps := db_steps d @ map (step_from_domain (ni_execution ids)) (submitted_steps sha now ids c)\<rparr>"

definition no_sources :: "files \<Rightarrow> new_ids \<Rightarrow> bool" where
  "no_sources fs ids \<longleftrightarrow>
     (\<forall>i\<in>set (ni_steps ids). map_of fs (source_relative (ni_execution ids) i) = None)"

text \<open>A request the service must accept: valid, with an unused key and fresh identifiers.\<close>

definition submittable ::
    "(string \<Rightarrow> string) \<Rightarrow> db \<Rightarrow> files \<Rightarrow> new_ids \<Rightarrow> submit_command \<Rightarrow> bool" where
  "submittable sha d fs ids c \<longleftrightarrow>
     submit_acceptable c \<and> submit_row_ok c \<and>
     get_by_submit_key d (sc_tenant_id c) (sc_idempotency_key c) = None \<and>
     fresh_ids ids d (length (sc_steps c)) \<and> no_sources fs ids \<and>
     checksums_match sha (sc_steps c)"

lemma submitted_insert:
  assumes "db_wf d" and "submittable sha d fs ids c"
  shows "submit_insert (submitted_execution sha now ids fp c) (submitted_operation now ids fp c) d =
    Some (submitted_db sha now ids fp c d)"
  unfolding submitted_db_def
  by (rule submit_insert_Some [where sha = sha])
    (use assms in \<open>simp_all add: submittable_def submitted_steps_def submitted_execution_def
      submitted_operation_def\<close>)

lemma submitted_snapshot:
  assumes "submittable sha d fs ids c"
  obtains fs' where "snapshot_sources sha fs (ni_execution ids)
      (new_steps sha now (ni_operation ids) (sc_actor_client c) (sc_actor_id c)
         (sc_steps c) (ni_steps ids)) = (fs', Inr (submitted_steps sha now ids c))"
proof -
  let ?ns = "new_steps sha now (ni_operation ids) (sc_actor_client c) (sc_actor_id c)
         (sc_steps c) (ni_steps ids)"
  have num: "steps_numbered 0 (sc_steps c)" and sums: "checksums_match sha (sc_steps c)"
    and ids: "fresh_ids ids d (length (sc_steps c))" and fs: "no_sources fs ids"
    using assms by (simp_all add: submittable_def submit_acceptable_def)
  have idl: "map st_id ?ns = ni_steps ids"
    by (rule new_steps_sel(2)) (use ids in \<open>simp add: fresh_ids_def\<close>)
  have code: "strip (st_code x) \<noteq> [] \<and>
      (st_source_sha256 x = [] \<or> st_source_sha256 x = sha (utf8_encode (st_code x)))"
    if "x \<in> set ?ns" for x
    using that num sums
    by (elim set_new_steps) (auto simp: new_step_def steps_numbered_iff checksums_match_def)
  have "st_id s \<in> set (ni_steps ids)" if "s \<in> set ?ns" for s
  proof -
    have "st_id s \<in> set (map st_id ?ns)" using that by (simp only: set_map imageI)
    then show ?thesis by (simp only: idl)
  qed
  then have "\<forall>s\<in>set ?ns. st_id s < 2 ^ 128"
    and "\<forall>s\<in>set ?ns. map_of fs (source_relative (ni_execution ids) (st_id s)) = None"
    using ids fs unfolding fresh_ids_def no_sources_def by blast+
  moreover have "ni_execution ids < 2 ^ 128" "distinct (map st_id ?ns)"
    using ids unfolding fresh_ids_def idl by blast+
  ultimately have "\<exists>fs'. snapshot_sources sha fs (ni_execution ids) ?ns =
      (fs', Inr (map (with_snapshot sha (ni_execution ids)) ?ns))"
    by (intro snapshot_sources_ok) (simp_all add: code)
  then obtain fs' where "snapshot_sources sha fs (ni_execution ids) ?ns =
      (fs', Inr (map (with_snapshot sha (ni_execution ids)) ?ns))" ..
  then show thesis by (intro that) (simp only: submitted_steps_def)
qed

lemma submitted_steps_seq:
  assumes "steps_numbered 0 (sc_steps c)" and "length (ni_steps ids) = length (sc_steps c)"
  shows "map st_sequence (submitted_steps sha now ids c) = map int [0..<length (sc_steps c)]"
    and "length (submitted_steps sha now ids c) = length (sc_steps c)"
  using assms
  by (simp_all add: submitted_steps_def comp_def new_steps_sel(1) steps_numbered_iff)
    (simp add: new_steps_def)

lemma submitted_steps_of:
  assumes wf: "db_wf d" and num0: "steps_numbered 0 (sc_steps c)"
    and len: "length (ni_steps ids) = length (sc_steps c)"
    and new: "ni_execution ids \<notin> ex_id ` set (db_executions d)"
  shows "steps_of (submitted_db sha now ids fp c d) (ni_execution ids) =
      map (step_from_domain (ni_execution ids)) (submitted_steps sha now ids c)"
    and "i \<noteq> ni_execution ids \<Longrightarrow> steps_of (submitted_db sha now ids fp c d) i = steps_of d i"
    and "steps_contiguous d \<Longrightarrow> steps_contiguous (submitted_db sha now ids fp c d)"
proof -
  let ?x = "ni_execution ids"
  have none: "steps_of d ?x = []" by (rule steps_of_unused [OF wf new])
  have num: "map st_sequence (submitted_steps sha now ids c) =
      map (\<lambda>k. int (length (steps_of d ?x)) + int k) [0..<length (submitted_steps sha now ids c)]"
    using submitted_steps_seq [OF num0 len, of sha now] by (simp add: none)
  have steps: "db_steps (submitted_db sha now ids fp c d) =
      db_steps d @ map (step_from_domain ?x) (submitted_steps sha now ids c)"
    by (simp add: submitted_db_def)
  have inv: "map st_sequence (steps_of d ?x) = map int [0..<length (steps_of d ?x)]"
    by (simp add: none)
  show "steps_of (submitted_db sha now ids fp c d) ?x =
      map (step_from_domain ?x) (submitted_steps sha now ids c)"
    using steps_of_appended(1) [OF inv num steps] by (simp add: none)
  show "steps_of (submitted_db sha now ids fp c d) i = steps_of d i" if "i \<noteq> ?x"
    using that by (rule steps_of_appended(2) [OF inv num steps])
  show "steps_contiguous (submitted_db sha now ids fp c d)" if "steps_contiguous d"
    by (rule steps_contiguous_insert [OF inv _ num steps])
      (use that in \<open>simp add: steps_contiguous_def submitted_db_def submitted_execution_def\<close>)
qed

lemma submitted_execution_sel [simp]:
  "ex_id (submitted_execution sha now ids fp c) = ni_execution ids"
  "ex_status (submitted_execution sha now ids fp c) = ES_QUEUED"
  "ex_version (submitted_execution sha now ids fp c) = 0"
  "ex_tenant_id (submitted_execution sha now ids fp c) = sc_tenant_id c"
  "ex_idempotency_key (submitted_execution sha now ids fp c) = sc_idempotency_key c"
  "ex_request_fingerprint (submitted_execution sha now ids fp c) = fp"
  "ex_steps (submitted_execution sha now ids fp c) = submitted_steps sha now ids c"
  by (simp_all add: submitted_execution_def)

lemma without_code_sel [simp]:
  "ex_id (without_code e) = ex_id e"
  "ex_request_fingerprint (without_code e) = ex_request_fingerprint e"
  "ex_active_operation_id (without_code e) = ex_active_operation_id e"
  by (simp_all add: without_code_def)

text \<open>What later readers see of a submission.\<close>

lemma submitted_reads:
  fixes sha now fp
  assumes wf: "db_wf d" and num0: "steps_numbered 0 (sc_steps c)"
    and len: "length (ni_steps ids) = length (sc_steps c)"
    and new: "ni_execution ids \<notin> ex_id ` set (db_executions d)"
  defines "d' \<equiv> submitted_db sha now ids fp c d" and "e \<equiv> submitted_execution sha now ids fp c"
  shows "repo_get d' (ni_execution ids) = Some (without_code e)"
    and "get_by_submit_key d (sc_tenant_id c) (sc_idempotency_key c) = None \<Longrightarrow>
      get_by_submit_key d' (sc_tenant_id c) (sc_idempotency_key c) = Some (without_code e)"
    and "get_operation_id_by_key d' (ni_execution ids) (sc_idempotency_key c) =
      Some (ni_operation ids)"
    and "i \<noteq> ni_execution ids \<Longrightarrow> repo_get d' i = repo_get d i"
proof -
  note own = submitted_steps_of(1) [OF wf num0 len new, of sha now fp, folded d'_def]
    and other = submitted_steps_of(2) [OF wf num0 len new, of _ sha now fp, folded d'_def]
  have rows: "db_executions d' = db_executions d @ [execution_from_domain e]"
    and ops: "db_operations d' = db_operations d @ [operation_from_domain (submitted_operation now ids fp c)]"
    by (simp_all add: d'_def e_def submitted_db_def)
  have dom: "execution_to_domain d' (execution_from_domain e) = without_code e"
    by (rule execution_roundtrip) (simp add: own step_roundtrip comp_def e_def)
  have unused: "scalar (\<lambda>r. ex_id r = ni_execution ids) (db_executions d) = None"
    using new by (simp add: scalar_None_iff image_key_iff)
  show "repo_get d' (ni_execution ids) = Some (without_code e)"
    using unused by (simp add: repo_get_def execution_row_def rows scalar_append dom) (simp add: e_def)
  show "get_by_submit_key d' (sc_tenant_id c) (sc_idempotency_key c) = Some (without_code e)"
    if "get_by_submit_key d (sc_tenant_id c) (sc_idempotency_key c) = None"
    using that by (simp add: get_by_submit_key_def rows scalar_append dom) (simp add: e_def)
  have "scalar (\<lambda>q. op_execution_id q = ni_execution ids \<and> op_idempotency_key q = sc_idempotency_key c)
      (db_operations d) = None"
    unfolding scalar_None_iff using db_wf_operation_owner [OF wf] new by metis
  then show "get_operation_id_by_key d' (ni_execution ids) (sc_idempotency_key c) =
      Some (ni_operation ids)"
    by (simp add: get_operation_id_by_key_def ops scalar_append submitted_operation_def)
  show "repo_get d' i = repo_get d i" if i: "i \<noteq> ni_execution ids"
  proof -
    have "execution_row d' i = execution_row d i"
      using i by (simp add: execution_row_def rows scalar_append e_def split: option.split)
    then show ?thesis using other [OF i]
      by (cases "execution_row d i")
        (auto simp: repo_get_def execution_to_domain_def dest: execution_row_SomeD)
  qed
qed

lemma submit_insert_SomeD:
  assumes "submit_insert (submitted_execution sha now ids fp c) (submitted_operation now ids fp c) d = Some d'"
  shows "d' = submitted_db sha now ids fp c d"
    and "ni_execution ids \<notin> ex_id ` set (db_executions d)"
    and "get_by_submit_key d (sc_tenant_id c) (sc_idempotency_key c) = None"
    and "db_wf d \<Longrightarrow> db_wf d'"
proof -
  let ?e = "submitted_execution sha now ids fp c" and ?q = "submitted_operation now ids fp c"
  obtain d1 d2 where 1: "insert_execution (execution_from_domain ?e) d = Some d1"
    and 2: "insert_operation (operation_from_domain ?q) d1 = Some d2"
    and 3: "insert_steps (map (step_from_domain (ni_execution ids)) (submitted_steps sha now ids c)) d2 = Some d'"
    using assms by (auto simp: submit_insert_def bind_eq_Some_conv)
  show "d' = submitted_db sha now ids fp c d"
    using insert_execution_SomeD(1) [OF 1] insert_operation_SomeD(1) [OF 2] insert_steps_appends [OF 3]
    by (simp add: submitted_db_def)
  show "ni_execution ids \<notin> ex_id ` set (db_executions d)"
    using insert_execution_SomeD(3) [OF 1] by simp
  have "\<forall>r\<in>set (db_executions d). \<not> (ex_tenant_id r = sc_tenant_id c \<and>
      ex_idempotency_key r = sc_idempotency_key c)"
    using insert_execution_SomeD(4) [OF 1] by (auto simp: image_key_iff)
  then show "get_by_submit_key d (sc_tenant_id c) (sc_idempotency_key c) = None"
    by (simp add: get_by_submit_key_None scalar_None_iff)
  show "db_wf d'" if "db_wf d"
    using that insert_execution_wf [OF _ 1] insert_operation_wf [OF _ 2] insert_steps_wf [OF _ 3] by blast
qed

text \<open>A commit of \<open>submit\<close> is the insertion of the submitted rows, and nothing else.\<close>

lemma submit_commitD:
  assumes "submit sha cl off now ids dl dk dr fs c = (fs', Inr (Committed d' r))"
  defines "fp \<equiv> canonical_sha256 sha (submit_payload c)"
  shows "submit_acceptable c"
    and "get_by_submit_key dl (sc_tenant_id c) (sc_idempotency_key c) = None"
    and "submit_insert (submitted_execution sha now ids fp c) (submitted_operation now ids fp c) dk = Some d'"
    and "r = \<lparr>cmd_execution = submitted_execution sha now ids fp c, cmd_operation_id = ni_operation ids\<rparr>"
proof -
  have val: "submit_validation cl off c = Inr ()"
    using assms(1) by (cases "submit_validation cl off c") (simp_all add: submit_def)
  then show "submit_acceptable c"
    by (simp add: submit_validation_def bind_res_eq_Inr validate_submit_Inr_iff)
  have norep: "submit_replay d f c x \<noteq> Inr (Committed d' r)" for d f x
    by (simp add: submit_replay_def bind_res_eq_Inr)
  then have norec: "submit_recheck d f c \<noteq> Inr (Committed d' r)" for d f
    by (simp add: submit_recheck_def split: option.split)
  have key: "get_by_submit_key dl (sc_tenant_id c) (sc_idempotency_key c) = None"
    and new: "submit_new sha now ids dk fs fp c = (fs', Inr (Committed d' r))"
    using assms(1) norep norec
    by (auto simp: submit_def val Let_def fp_def split: option.splits prod.splits if_splits)
  show "get_by_submit_key dl (sc_tenant_id c) (sc_idempotency_key c) = None" by (fact key)
  let ?ns = "new_steps sha now (ni_operation ids) (sc_actor_client c) (sc_actor_id c)
         (sc_steps c) (ni_steps ids)"
  obtain ss where snap: "snapshot_sources sha fs (ni_execution ids) ?ns = (fs', Inr ss)"
    and ins: "flushed (submit_insert (new_execution now ids fp c ss) (submitted_operation now ids fp c) dk) = Inr d'"
    and r: "r = \<lparr>cmd_execution = new_execution now ids fp c ss, cmd_operation_id = ni_operation ids\<rparr>"
    using new unfolding submit_new_def Let_def submitted_operation_def [symmetric]
    by (auto simp: bind_res_eq_Inr split: prod.splits sum.splits)
  have ss: "ss = submitted_steps sha now ids c"
    using snapshot_sources_Inr [OF snap] by (simp add: submitted_steps_def)
  show "r = \<lparr>cmd_execution = submitted_execution sha now ids fp c, cmd_operation_id = ni_operation ids\<rparr>"
    by (simp add: r ss submitted_execution_def)
  show "submit_insert (submitted_execution sha now ids fp c) (submitted_operation now ids fp c) dk = Some d'"
    using ins by (simp add: ss submitted_execution_def flushed_def split: option.splits)
qed

subsection \<open>Properties of submission\<close>



text \<open>
  A key of the same tenant that was used for a request with another
  fingerprint is refused with a conflict, and nothing is written.
\<close>

lemma submit_key_reused:
  assumes "submit_validation cl off c = Inr ()"
    and "get_by_submit_key dl (sc_tenant_id c) (sc_idempotency_key c) = Some e"
    and "ex_request_fingerprint e \<noteq> canonical_sha256 sha (submit_payload c)"
  shows "submit sha cl off now ids dl dk dr fs c = (fs, Inl IdempotencyConflictError)"
  using assms
  by (simp add: submit_def Let_def submit_replay_def ensure_same_fingerprint_def bind_raise_if)

text \<open>
  C15. Two submissions with one key can race: the second one's lookup sees
  nothing (\<open>dl\<close>) but the first one's row is there when it flushes (\<open>dk\<close>). The flush of
  \<open>add_operation\<close> then fails with an untranslated \<open>IntegrityError\<close>, an HTTP 500; the second
  lookup that is meant for this case (\<open>dr\<close>) is never made.
\<close>

theorem submit_duplicate_race:
  assumes "submit_validation cl off c = Inr ()"
    and "get_by_submit_key dl (sc_tenant_id c) (sc_idempotency_key c) = None"
    and "get_by_submit_key dk (sc_tenant_id c) (sc_idempotency_key c) = Some e"
    and "submittable sha dl fs ids c"
  shows "\<exists>fs'. submit sha cl off now ids dl dk dr fs c = (fs', Inl IntegrityError) \<and>
    error_http_status IntegrityError = 500"
proof -
  let ?fp = "canonical_sha256 sha (submit_payload c)"
  obtain fs' where snap: "snapshot_sources sha fs (ni_execution ids)
      (new_steps sha now (ni_operation ids) (sc_actor_client c) (sc_actor_id c)
         (sc_steps c) (ni_steps ids)) = (fs', Inr (submitted_steps sha now ids c))"
    using assms(4) by (rule submitted_snapshot)
  have "submit_insert (submitted_execution sha now ids ?fp c) (submitted_operation now ids ?fp c) dk = None"
    using submit_insert_SomeD(3) [of sha now ids ?fp c dk] assms(3)
    by (cases "submit_insert (submitted_execution sha now ids ?fp c) (submitted_operation now ids ?fp c) dk") auto
  then have "submit_new sha now ids dk fs ?fp c = (fs', Inl IntegrityError)"
    using snap by (simp add: submit_new_def Let_def flushed_def submitted_execution_def
        submitted_operation_def [symmetric])
  then show ?thesis using assms(1,2) by (simp add: submit_def Let_def)
qed

subsection \<open>A concrete submission\<close>

text \<open>One inline Step, submitted to an empty database; the digest is any function.\<close>

definition demo_step :: "int \<Rightarrow> step_spec" where
  "demo_step n = \<lparr>ss_sequence = n, ss_code = ''x = 1'', ss_source_type = CS_INLINE,
     ss_source_path = None, ss_source_sha256 = [], ss_step_timeout_seconds = Some 60,
     ss_skill_name = None, ss_tool_name = None, ss_input_parameters = JObj []\<rparr>"

definition demo_submit :: "operation_mode \<Rightarrow> string \<Rightarrow> submit_command" where
  "demo_submit mode profile = \<lparr>sc_idempotency_key = ''k1'', sc_operation_mode = mode,
     sc_trigger_type = TT_INTERACTIVE, sc_runtime_profile = profile, sc_user_id = ''u'',
     sc_project_id = Some ''p'', sc_session_id = None, sc_tenant_id = ''acme'',
     sc_spec_schema_version = ''1.0'',
     sc_operation_wait_timeout_seconds = (if mode = OM_MULTI then Some 60 else None),
     sc_operation_timeout_seconds = None, sc_runtime_type = RT_JUPYTER,
     sc_actor_client = None, sc_actor_id = None, sc_metadata = JObj [],
     sc_operation_metadata = JObj [], sc_steps = [demo_step 0]\<rparr>"

definition demo_ids :: new_ids where
  "demo_ids = \<lparr>ni_operation = 20, ni_execution = 10, ni_receipt = 40, ni_steps = [30]\<rparr>"

definition demo_limits :: command_limits where
  "demo_limits = \<lparr>cl_max_steps_per_operation = 100, cl_max_steps_per_execution = 1000,
     cl_max_runtime_seconds = 604800\<rparr>"

definition demo_offerings :: "runtime_type \<Rightarrow> runtime_offering option" where
  "demo_offerings t = Some \<lparr>ro_profiles = [''python'', ''r''], ro_stateful_sessions = True,
     ro_execution_journal = True, ro_durable_workspace = True\<rparr>"

definition demo_sha :: "string \<Rightarrow> string" where
  "demo_sha b = rev b"

lemmas demo_defs = demo_step_def demo_submit_def demo_ids_def demo_limits_def demo_offerings_def

lemma demo_validation [simp]:
  "submit_validation demo_limits demo_offerings (demo_submit OM_SINGLE ''python'') = Inr ()"
  "submit_validation demo_limits demo_offerings (demo_submit OM_SINGLE ''r'') = Inr ()"
  "submit_validation demo_limits demo_offerings (demo_submit OM_MULTI ''python'') = Inr ()"
  by code_simp+

lemma demo_submit_sel [simp]:
  "sc_tenant_id (demo_submit m p) = ''acme''" "sc_idempotency_key (demo_submit m p) = ''k1''"
  "length (sc_steps (demo_submit m p)) = 1"
  by (simp_all add: demo_submit_def)

lemma demo_strip [simp]: "strip ''x = 1'' \<noteq> []"
  by code_simp

lemma demo_submittable [simp]:
  "submittable demo_sha empty_db [] demo_ids (demo_submit m ''python'')"
  by (cases m) (simp_all add: submittable_def submit_acceptable_def submit_row_ok_def step_spec_ok_def
      fresh_ids_def no_sources_def checksums_match_def steps_numbered_def get_by_submit_key_def
      empty_db_def demo_defs)

lemma steps_contiguous_empty [simp]: "steps_contiguous empty_db"
  by (simp add: steps_contiguous_def empty_db_def)


text \<open>The committed demo submission, as used by the other witnesses.\<close>

definition demo_fp :: "submit_command \<Rightarrow> string" where
  "demo_fp c = canonical_sha256 demo_sha (submit_payload c)"

definition demo_db :: "operation_mode \<Rightarrow> db" where
  "demo_db m = submitted_db demo_sha 5 demo_ids (demo_fp (demo_submit m ''python''))
     (demo_submit m ''python'') empty_db"

lemma demo_commit:
  "\<exists>fs' r. submit demo_sha demo_limits demo_offerings 5 demo_ids empty_db empty_db empty_db []
     (demo_submit OM_SINGLE ''python'') = (fs', Inr (Committed (demo_db OM_SINGLE) r))"
proof -
  have "snd (submit demo_sha demo_limits demo_offerings 5 demo_ids empty_db empty_db empty_db []
     (demo_submit OM_SINGLE ''python'')) = Inr (Committed (demo_db OM_SINGLE)
       \<lparr>cmd_execution = submitted_execution demo_sha 5 demo_ids (demo_fp (demo_submit OM_SINGLE ''python''))
          (demo_submit OM_SINGLE ''python''), cmd_operation_id = 20\<rparr>)"
    by code_simp
  then show ?thesis by (metis prod.collapse)
qed


lemma demo_key_taken:
  "\<exists>e. get_by_submit_key (demo_db OM_SINGLE) ''acme'' ''k1'' = Some e \<and>
     ex_request_fingerprint e = demo_fp (demo_submit OM_SINGLE ''python'')"
  by (simp add: get_by_submit_key_def demo_db_def submitted_db_def empty_db_def)

lemma submit_key_reused_witness:
  "submit demo_sha demo_limits demo_offerings 9 demo_ids (demo_db OM_SINGLE) empty_db empty_db []
     (demo_submit OM_SINGLE ''r'') = ([], Inl IdempotencyConflictError)"
proof -
  obtain e where e: "get_by_submit_key (demo_db OM_SINGLE) ''acme'' ''k1'' = Some e"
    "ex_request_fingerprint e = demo_fp (demo_submit OM_SINGLE ''python'')"
    using demo_key_taken by auto
  have "demo_fp (demo_submit OM_SINGLE ''python'') \<noteq> demo_fp (demo_submit OM_SINGLE ''r'')"
    by code_simp
  then have "ex_request_fingerprint e \<noteq>
      canonical_sha256 demo_sha (submit_payload (demo_submit OM_SINGLE ''r''))"
    using e(2) unfolding demo_fp_def by metis
  then show ?thesis
    by (rule submit_key_reused [OF demo_validation(2), rotated]) (simp add: e)
qed

theorem submit_duplicate_race_witness:
  "\<exists>fs'. submit demo_sha demo_limits demo_offerings 9 demo_ids empty_db (demo_db OM_SINGLE)
     (demo_db OM_SINGLE) [] (demo_submit OM_SINGLE ''python'') = (fs', Inl IntegrityError)"
proof -
  obtain e where e: "get_by_submit_key (demo_db OM_SINGLE) ''acme'' ''k1'' = Some e"
    using demo_key_taken by auto
  have "get_by_submit_key empty_db t k = None" for t k
    by (simp add: get_by_submit_key_def empty_db_def)
  then have "\<exists>fs'. submit demo_sha demo_limits demo_offerings 9 demo_ids empty_db (demo_db OM_SINGLE)
      (demo_db OM_SINGLE) [] (demo_submit OM_SINGLE ''python'') = (fs', Inl IntegrityError) \<and>
      error_http_status IntegrityError = 500"
    by (rule submit_duplicate_race [OF demo_validation(1)])
      (use e in simp_all)
  then show ?thesis by blast
qed

end
