(* ===== verification/Command_Effects.thy ===== *)
theory Command_Effects
  imports Execution_Service
begin

text \<open>
  What the commands of \<open>Execution_Service\<close> do to the database beyond submission: every
  committed cancel, finalize, retry and create-operation makes one allowed status change and one
  version step on one Execution (\<open>command_step\<close>), the Step numbering stays contiguous, the
  complete outcome of a cancel, the effect of a new Operation and of a retry, each with a concrete
  run.
\<close>

subsection \<open>What a committed command does to the Execution rows\<close>

text \<open>
  One allowed status change and one version step on the Execution it names, no other Execution
  touched, never the fencing token, which belongs to the workers, and never the event log.
\<close>

definition command_step :: "uuid \<Rightarrow> db \<Rightarrow> db \<Rightarrow> bool" where
  "command_step i d d' \<longleftrightarrow> db_wf d' \<and>
     (\<exists>r r'. execution_row d i = Some r \<and> execution_row d' i = Some r' \<and>
        allowed_transition (ex_status r) (ex_status r') \<and>
        ex_version r' = ex_version r + 1 \<and> ex_fencing_token r' = ex_fencing_token r \<and>
        ex_id r' = ex_id r \<and> ex_tenant_id r' = ex_tenant_id r \<and> ex_user_id r' = ex_user_id r \<and>
        ex_idempotency_key r' = ex_idempotency_key r) \<and>
     (\<forall>j. j \<noteq> i \<longrightarrow> execution_row d' j = execution_row d j) \<and>
     db_events d' = db_events d \<and> db_event_sequences d' = db_event_sequences d"

lemma command_step_frame:
  "command_step i d d' \<Longrightarrow> db_executions d'' = db_executions d' \<Longrightarrow> db_events d'' = db_events d' \<Longrightarrow>
     db_event_sequences d'' = db_event_sequences d' \<Longrightarrow> db_wf d'' \<Longrightarrow> command_step i d d''"
  unfolding command_step_def execution_row_def by simp

lemma command_step_wf: "command_step i d d' \<Longrightarrow> db_wf d'"
  by (simp add: command_step_def)

lemma command_step_receipt:
  assumes "command_step i d d1"
  shows "insert_command_receipt r d1 = Some d' \<Longrightarrow> command_step i d d'"
    and "insert_retry_receipt q d1 = Some d' \<Longrightarrow> command_step i d d'"
proof -
  note wf = command_step_wf [OF assms]
  show "command_step i d d'" if "insert_command_receipt r d1 = Some d'"
    by (rule command_step_frame [OF assms _ _ _ insert_receipt_wf(1) [OF wf that]])
      (simp_all add: insert_receipt_SomeD(1) [OF that])
  show "command_step i d d'" if "insert_retry_receipt q d1 = Some d'"
    by (rule command_step_frame [OF assms _ _ _ insert_receipt_wf(2) [OF wf that]])
      (simp_all add: insert_receipt_SomeD(2) [OF that])
qed

lemma required_execution_Inr:
  "required_execution d i = Inr e \<longleftrightarrow>
     (\<exists>r. execution_row d i = Some r \<and> e = execution_to_domain d r)"
  by (auto simp: required_execution_def repo_get_def split: option.splits)

lemma save_succeeds:
  assumes "db_wf d" and "execution_row d (ex_id e) = Some r" and "ex_version e = ex_version r + 1"
  obtains d' where "repo_save e d = Inr d'"
  using assms repo_save_Inr_iff [OF assms(1), of e] by auto

lemma save_command_step:
  assumes wf: "db_wf d" and row: "execution_row d i = Some r" and e: "ex_id e = i"
    and st: "allowed_transition (ex_status r) (ex_status e)" and v: "ex_version e = ex_version r + 1"
    and save: "repo_save e d = Inr d'"
  shows "command_step i d d'"
proof -
  have "db_events d' = db_events d" "db_event_sequences d' = db_event_sequences d"
    using save by (auto simp: repo_save_def Let_def split: if_splits)
  then show ?thesis
    unfolding command_step_def
    using repo_save_wf [OF wf save] repo_save_row [OF wf save] row e st v by simp
qed

lemma apply_actor_sel [simp]:
  "ex_id (apply_actor a b e) = ex_id e" "ex_status (apply_actor a b e) = ex_status e"
  "ex_version (apply_actor a b e) = ex_version e" "ex_steps (apply_actor a b e) = ex_steps e"
  "ex_retry_from_sequence (apply_actor a b e) = ex_retry_from_sequence e"
  "ex_active_operation_id (apply_actor a b e) = ex_active_operation_id e"
  "ex_cancel_idempotency_key (apply_actor a b e) = ex_cancel_idempotency_key e"
  "ex_runtime_session_id (apply_actor a b e) = ex_runtime_session_id e"
  "ex_runtime_target_id (apply_actor a b e) = ex_runtime_target_id e"
  by (simp_all add: apply_actor_def)

lemma retry_step_actors_sel [simp]:
  "ex_id (retry_step_actors c e) = ex_id e" "ex_status (retry_step_actors c e) = ex_status e"
  "ex_version (retry_step_actors c e) = ex_version e"
  "ex_retry_from_sequence (retry_step_actors c e) = ex_retry_from_sequence e"
  "ex_active_operation_id (retry_step_actors c e) = ex_active_operation_id e"
  "ex_runtime_session_id (retry_step_actors c e) = ex_runtime_session_id e"
  "ex_runtime_target_id (retry_step_actors c e) = ex_runtime_target_id e"
  by (simp_all add: retry_step_actors_def)

lemma committed_Inr_iff [simp]: "committed r = Inr d \<longleftrightarrow> r = Some d"
  by (auto simp: committed_def split: option.splits)

lemma flushed_Inr_iff [simp]: "flushed r = Inr d \<longleftrightarrow> r = Some d"
  by (auto simp: flushed_def split: option.splits)

lemma requeue_operation_frame:
  assumes "requeue_operation_for_retry q a b now d = Inr d'"
  shows "db_executions d' = db_executions d" "db_steps d' = db_steps d"
    "map op_id (db_operations d') = map op_id (db_operations d)"
    "map op_execution_id (db_operations d') = map op_execution_id (db_operations d)"
    "db_events d' = db_events d" "db_event_sequences d' = db_event_sequences d"
  using assms
  by (auto simp: requeue_operation_for_retry_def Let_def map_key_update_where split: if_splits)

lemma finalize_locked_step:
  assumes wf: "db_wf d" and com: "finalize_locked now ids d ty fp c = Inr (Committed d' e)"
  shows "command_step (fc_execution_id c) d d'"
proof -
  obtain r e1 d1 where row: "execution_row d (fc_execution_id c) = Some r"
    and req: "request_finalization (fc_expected_version c) now (execution_to_domain d r) = Inr e1"
    and save: "repo_save (apply_actor (fc_actor_client c) (fc_actor_id c) e1) d = Inr d1"
    and rec: "insert_command_receipt (finalize_receipt now ids ty fp c (ex_id e1)) d1 = Some d'"
    using com by (auto simp: finalize_locked_def bind_res_eq_Inr Let_def required_execution_Inr)
  have "command_step (fc_execution_id c) d d1"
    by (rule save_command_step [OF wf row _ _ _ save])
      (use req execution_row_SomeD [OF row] in \<open>simp_all add: request_finalization_Inr_iff\<close>)
  then show ?thesis using rec by (rule command_step_receipt(1))
qed

lemma cancel_locked_step:
  assumes wf: "db_wf d" and com: "cancel_locked now d c = Inr (Committed d' e)"
  shows "command_step (cc_execution_id c) d d'"
proof -
  obtain r e1 where row: "execution_row d (cc_execution_id c) = Some r"
    and ne: "ex_status r \<noteq> ES_CANCEL_REQUESTED"
    and req: "request_cancel (cc_idempotency_key c) (cc_reason c) now (execution_to_domain d r) = Inr e1"
    and save: "repo_save (apply_actor (cc_actor_client c) (cc_actor_id c) e1) d = Inr d'"
    using com by (auto simp: cancel_locked_def bind_res_eq_Inr Let_def required_execution_Inr
        split: if_splits)
  show ?thesis
    by (rule save_command_step [OF wf row _ _ _ save])
      (use req ne execution_row_SomeD [OF row] in
        \<open>auto simp: request_cancel_Inr_iff allowed_cancel_iff\<close>)
qed

lemma retry_locked_step:
  assumes wf: "db_wf d" and com: "retry_locked now ids d c = Inr (Committed d' res)"
  shows "command_step (rc_execution_id c) d d'"
proof -
  obtain r e1 n d1 d2 q where row: "execution_row d (rc_execution_id c) = Some r"
    and req: "request_retry now (execution_to_domain d r) = Inr e1"
    and save: "repo_save (retry_step_actors c (apply_actor (rc_actor_client c) (rc_actor_id c) e1)) d = Inr d1"
    and requeue: "requeue_operation_for_retry q (rc_actor_client c) (rc_actor_id c) now d1 = Inr d2"
    and rec: "insert_retry_receipt (retry_receipt now ids c (ex_id e1) n) d2 = Some d'"
    using com by (auto simp: retry_locked_def bind_res_eq_Inr Let_def required_execution_Inr
        split: option.splits)
  have e1: "ex_id e1 = ex_id r" "allowed_transition (ex_status r) (ex_status e1)"
      "ex_version e1 = ex_version r + 1"
    using req retry.request_identity [OF req]
    by (auto simp: request_retry_Inr_iff execution_identity_def retry_granted_def)
  have 1: "command_step (rc_execution_id c) d d1"
    by (rule save_command_step [OF wf row _ _ _ save])
      (use e1 execution_row_SomeD [OF row] in simp_all)
  have "db_wf d2"
    using command_step_wf [OF 1] requeue_operation_frame(1-4) [OF requeue] by (rule db_wf_frame)
  then have "command_step (rc_execution_id c) d d2"
    by (rule command_step_frame [OF 1 requeue_operation_frame(1,5,6) [OF requeue]])
  then show ?thesis using rec by (rule command_step_receipt(2))
qed

lemma create_locked_step:
  assumes wf: "db_wf d"
    and com: "create_locked sha cl now ids d fs ty fp c = (fs', Inr (Committed d' res))"
  shows "command_step (oc_execution_id c) d d'"
proof -
  obtain r e1 ss d1 d2 d3 q where row: "execution_row d (oc_execution_id c) = Some r"
    and req: "request_operation (oc_expected_version c) now (execution_to_domain d r) = Inr e1"
    and save: "repo_save ((apply_actor (oc_actor_client c) (oc_actor_id c) e1)
        \<lparr>ex_steps := ex_steps e1 @ ss, ex_active_operation_id := Some (ni_operation ids)\<rparr>) d = Inr d1"
    and oper: "insert_operation q d1 = Some d2"
    and st: "insert_steps (map (step_from_domain (ex_id e1)) ss) d2 = Some d3"
    and rec: "insert_command_receipt (create_receipt now ids ty fp c (ex_id e1)) d3 = Some d'"
    using com
    by (auto simp: create_locked_def create_write_def bind_res_eq_Inr Let_def required_execution_Inr
        bind_eq_Some_conv split: sum.splits prod.splits)
  have 1: "command_step (oc_execution_id c) d d1"
    by (rule save_command_step [OF wf row _ _ _ save])
      (use req execution_row_SomeD [OF row] in \<open>simp_all add: request_operation_Inr_iff\<close>)
  have ex: "db_executions d' = db_executions d1" "db_events d' = db_events d1"
    "db_event_sequences d' = db_event_sequences d1"
    using insert_operation_SomeD(1) [OF oper] insert_steps_appends [OF st]
      insert_receipt_SomeD(1) [OF rec] by simp_all
  have "db_wf d'"
    using 1 insert_operation_wf [OF _ oper] insert_steps_wf [OF _ st] insert_receipt_wf(1) [OF _ rec]
    unfolding command_step_def by blast
  then show ?thesis by (rule command_step_frame [OF 1 ex])
qed

text \<open>The same for the whole handlers, whatever the other database snapshots are.\<close>

lemma handler_step:
  assumes wf: "db_wf dk"
  shows "cancel_execution now dl dk dr cc = Inr (Committed d' e) \<Longrightarrow>
      command_step (cc_execution_id cc) dk d'"
    and "finalize_execution sha now ids dl dk dr fc = Inr (Committed d' e) \<Longrightarrow>
      command_step (fc_execution_id fc) dk d'"
    and "retry_execution now ids dl dk dr rc = Inr (Committed d' res) \<Longrightarrow>
      command_step (rc_execution_id rc) dk d'"
    and "create_operation sha cl now ids dl dk dr fs oc = (fs', Inr (Committed d' res)) \<Longrightarrow>
      command_step (oc_execution_id oc) dk d'"
proof -
  show "command_step (cc_execution_id cc) dk d'"
    if "cancel_execution now dl dk dr cc = Inr (Committed d' e)"
    using that by (intro cancel_locked_step [OF wf])
      (auto simp: cancel_execution_def Let_def split: option.splits if_splits)
  have "finalize_replay d ty fp fc x \<noteq> Inr (Committed d' e)" for d ty fp x
    by (simp add: finalize_replay_def bind_res_eq_Inr)
  then show "command_step (fc_execution_id fc) dk d'"
    if "finalize_execution sha now ids dl dk dr fc = Inr (Committed d' e)"
    using that by (intro finalize_locked_step [OF wf])
      (auto simp: finalize_execution_def resolve_repeated_command_def Let_def
        split: option.splits if_splits)
  have "retry_replay x \<noteq> Inr (Committed d' res)" for x
    by (simp add: retry_replay_def bind_res_eq_Inr)
  then show "command_step (rc_execution_id rc) dk d'"
    if "retry_execution now ids dl dk dr rc = Inr (Committed d' res)"
    using that by (intro retry_locked_step [OF wf])
      (auto simp: retry_execution_def Let_def split: option.splits if_splits)
  have "create_replay d ty fp oc x \<noteq> Inr (Committed d' res)" for d ty fp x
    by (simp add: create_replay_def bind_res_eq_Inr)
  then show "command_step (oc_execution_id oc) dk d'"
    if "create_operation sha cl now ids dl dk dr fs oc = (fs', Inr (Committed d' res))"
    using that by (intro create_locked_step [OF wf])
      (auto simp: create_operation_def create_recheck_def Let_def
        split: option.splits if_splits sum.splits prod.splits)
qed

subsection \<open>Every command keeps the Step numbering\<close>

lemma contiguous_receipt:
  "insert_command_receipt r d = Some d' \<Longrightarrow> steps_contiguous d' \<longleftrightarrow> steps_contiguous d"
  "insert_retry_receipt q d = Some d' \<Longrightarrow> steps_contiguous d' \<longleftrightarrow> steps_contiguous d"
  using insert_receipt_SomeD(1) [of r d d'] insert_receipt_SomeD(2) [of q d d']
    steps_contiguous_cong [of d' d]
  by (simp_all add: step_keys_def)

text \<open>Commands that add no Step.\<close>

lemma locked_contiguous:
  assumes wf: "db_wf d"
  shows "cancel_locked now d cc = Inr (Committed d' e) \<Longrightarrow> steps_contiguous d' \<longleftrightarrow> steps_contiguous d"
    and "finalize_locked now ids d ty fp fc = Inr (Committed d' e) \<Longrightarrow> steps_contiguous d' \<longleftrightarrow> steps_contiguous d"
    and "retry_locked now ids d rc = Inr (Committed d' res) \<Longrightarrow> steps_contiguous d' \<longleftrightarrow> steps_contiguous d"
proof -
  note save = repo_save_contiguous [OF wf]
  show "steps_contiguous d' \<longleftrightarrow> steps_contiguous d" if "cancel_locked now d cc = Inr (Committed d' e)"
    using that save by (auto simp: cancel_locked_def bind_res_eq_Inr Let_def split: if_splits)
  show "steps_contiguous d' \<longleftrightarrow> steps_contiguous d" if "finalize_locked now ids d ty fp fc = Inr (Committed d' e)"
    using that save contiguous_receipt(1) by (auto simp: finalize_locked_def bind_res_eq_Inr Let_def)
  have requeue: "steps_contiguous d2 \<longleftrightarrow> steps_contiguous d1" if "requeue_operation_for_retry q a b now d1 = Inr d2"
    for q a b d1 d2
    using requeue_operation_frame(1,2) [OF that] by (intro steps_contiguous_cong) (simp_all add: step_keys_def)
  show "steps_contiguous d' \<longleftrightarrow> steps_contiguous d" if "retry_locked now ids d rc = Inr (Committed d' res)"
    using that save requeue contiguous_receipt(2)
    by (auto simp: retry_locked_def bind_res_eq_Inr Let_def split: option.splits)
qed

lemma handler_locked:
  shows "cancel_execution now dl dk dr cc = Inr (Committed d' e) \<Longrightarrow> cancel_locked now dk cc = Inr (Committed d' e)"
    and "finalize_execution sha now ids dl dk dr fc = Inr (Committed d' e) \<Longrightarrow>
      \<exists>ty fp. finalize_locked now ids dk ty fp fc = Inr (Committed d' e)"
    and "retry_execution now ids dl dk dr rc = Inr (Committed d' res) \<Longrightarrow> retry_locked now ids dk rc = Inr (Committed d' res)"
  by (auto simp: cancel_execution_def finalize_execution_def finalize_replay_def retry_execution_def
      retry_replay_def resolve_repeated_command_def bind_res_eq_Inr Let_def split: option.splits if_splits)

lemma create_validation_Inr_iff:
  "create_validation cl c e = Inr () \<longleftrightarrow>
     int (length (oc_steps c)) \<le> cl_max_steps_per_operation cl \<and>
     int (length (ex_steps e)) + int (length (oc_steps c)) \<le> cl_max_steps_per_execution cl \<and>
     \<not> exceeds (cl_max_runtime_seconds cl) (oc_operation_timeout_seconds c) \<and>
     (\<forall>s\<in>set (oc_steps c). \<not> exceeds (cl_max_runtime_seconds cl) (ss_step_timeout_seconds s)) \<and>
     oc_steps c \<noteq> [] \<and> steps_numbered (int (length (ex_steps e))) (oc_steps c)"
  by (auto simp: create_validation_def bind_res_eq_Inr validate_step_limits_Inr_iff
      validate_timeouts_Inr_iff validate_operation_steps_Inr_iff)

text \<open>The pieces of a committed \<open>create_operation\<close>.\<close>

lemma create_commitD:
  assumes "create_operation sha cl now ids dl dk dr fs c = (fs', Inr (Committed d' res))"
  obtains r e ss d1 d2 d3 q where
    "execution_row dk (oc_execution_id c) = Some r"
    and "request_operation (oc_expected_version c) now (execution_to_domain dk r) = Inr e"
    and "create_validation cl c e = Inr ()"
    and "ss = map (with_snapshot sha (ex_id e)) (new_steps sha now (ni_operation ids)
      (oc_actor_client c) (oc_actor_id c) (oc_steps c) (ni_steps ids))"
    and "repo_save ((apply_actor (oc_actor_client c) (oc_actor_id c) e)
        \<lparr>ex_steps := ex_steps e @ ss, ex_active_operation_id := Some (ni_operation ids)\<rparr>) dk = Inr d1"
    and "op_id q = ni_operation ids" "op_execution_id q = ex_id e"
    and "op_operation_number q = next_operation_number dk (ex_id e)"
    and "insert_operation q d1 = Some d2"
    and "insert_steps (map (step_from_domain (ex_id e)) ss) d2 = Some d3"
    and "insert_command_receipt (create_receipt now ids ''execution_operation_create''
        (canonical_sha256 sha (create_operation_payload c)) c (ex_id e)) d3 = Some d'"
    and "res = \<lparr>cmd_execution = (apply_actor (oc_actor_client c) (oc_actor_id c) e)
        \<lparr>ex_steps := ex_steps e @ ss, ex_active_operation_id := Some (ni_operation ids)\<rparr>,
        cmd_operation_id = ni_operation ids\<rparr>"
proof -
  let ?fp = "canonical_sha256 sha (create_operation_payload c)"
  have "create_replay d ty fp c x \<noteq> Inr (Committed d' res)" for d ty fp x
    by (simp add: create_replay_def bind_res_eq_Inr)
  then have "create_locked sha cl now ids dk fs ''execution_operation_create'' ?fp c =
      (fs', Inr (Committed d' res))"
    using assms
    by (auto simp: create_operation_def create_recheck_def Let_def
        split: option.splits if_splits sum.splits prod.splits)
  then obtain r e ss where row: "execution_row dk (oc_execution_id c) = Some r"
    and req: "request_operation (oc_expected_version c) now (execution_to_domain dk r) = Inr e"
    and val: "create_validation cl c e = Inr ()"
    and snap: "snapshot_sources sha fs (ex_id e) (new_steps sha now (ni_operation ids)
      (oc_actor_client c) (oc_actor_id c) (oc_steps c) (ni_steps ids)) = (fs', Inr ss)"
    and wr: "create_write ((apply_actor (oc_actor_client c) (oc_actor_id c) e)
        \<lparr>ex_steps := ex_steps e @ ss, ex_active_operation_id := Some (ni_operation ids)\<rparr>)
        (new_operation now (ni_operation ids) (ex_id e) (next_operation_number dk (ex_id e)) (oc_steps c)
                 (oc_operation_timeout_seconds c) (oc_metadata c) (oc_idempotency_key c) ?fp
                 (oc_spec_schema_version c) (oc_actor_client c) (oc_actor_id c)) ss
        (create_receipt now ids ''execution_operation_create'' ?fp c (ex_id e)) dk = Inr d'"
    and res: "res = \<lparr>cmd_execution = (apply_actor (oc_actor_client c) (oc_actor_id c) e)
        \<lparr>ex_steps := ex_steps e @ ss, ex_active_operation_id := Some (ni_operation ids)\<rparr>,
        cmd_operation_id = ni_operation ids\<rparr>"
    by (auto simp: create_locked_def bind_res_eq_Inr Let_def required_execution_Inr
        split: sum.splits prod.splits)
  have ss: "ss = map (with_snapshot sha (ex_id e)) (new_steps sha now (ni_operation ids)
      (oc_actor_client c) (oc_actor_id c) (oc_steps c) (ni_steps ids))"
    using snapshot_sources_Inr [OF snap] by simp
  from wr show thesis
    unfolding create_write_def bind_res_eq_Inr flushed_Inr_iff committed_Inr_iff bind_eq_Some_conv
    by (elim exE conjE) (rule that [OF row req val ss _ _ _ _ _ _ _ res]; simp)
qed

lemma create_contiguous:
  assumes wf: "db_wf dk" and inv: "steps_contiguous dk"
    and len: "length (ni_steps ids) = length (oc_steps c)"
    and com: "create_operation sha cl now ids dl dk dr fs c = (fs', Inr (Committed d' res))"
  shows "steps_contiguous d'"
    and "map st_sequence (steps_of d' (oc_execution_id c)) =
      map int [0..<length (steps_of dk (oc_execution_id c)) + length (oc_steps c)]"
proof -
  obtain r e ss d1 d2 d3 q where row: "execution_row dk (oc_execution_id c) = Some r"
    and req: "request_operation (oc_expected_version c) now (execution_to_domain dk r) = Inr e"
    and val: "create_validation cl c e = Inr ()"
    and ss: "ss = map (with_snapshot sha (ex_id e)) (new_steps sha now (ni_operation ids)
      (oc_actor_client c) (oc_actor_id c) (oc_steps c) (ni_steps ids))"
    and save: "repo_save ((apply_actor (oc_actor_client c) (oc_actor_id c) e)
        \<lparr>ex_steps := ex_steps e @ ss, ex_active_operation_id := Some (ni_operation ids)\<rparr>) dk = Inr d1"
    and oper: "insert_operation q d1 = Some d2"
    and st: "insert_steps (map (step_from_domain (ex_id e)) ss) d2 = Some d3"
    and rec: "insert_command_receipt (create_receipt now ids ''execution_operation_create''
        (canonical_sha256 sha (create_operation_payload c)) c (ex_id e)) d3 = Some d'"
    using com by (rule create_commitD)
  let ?i = "oc_execution_id c"
  have i: "ex_id e = ?i" and steps: "ex_steps e = map step_to_domain (steps_of dk ?i)"
    using req execution_row_SomeD [OF row] by (auto simp: request_operation_Inr_iff)
  have "step_keys d2 = step_keys dk" and ex2: "db_executions d2 = db_executions d1"
    using repo_save_keys(2) [OF wf save] insert_operation_SomeD(1) [OF oper]
    by (simp_all add: step_keys_def)
  then have seq2: "map st_sequence (steps_of d2 j) = map st_sequence (steps_of dk j)"
    and len2: "length (steps_of d2 j) = length (steps_of dk j)" for j
    by (simp_all add: sequences_of_keys length_steps_of_keys)
  have c2: "steps_contiguous d2"
    using inv repo_save_contiguous [OF wf save] steps_contiguous_cong [of d2 d1]
      insert_operation_SomeD(1) [OF oper] by (simp add: step_keys_def)
  have "r \<in> set (db_executions dk)" "ex_id r = ?i" using execution_row_SomeD [OF row] by simp_all
  then have inv2: "map st_sequence (steps_of d2 ?i) = map int [0..<length (steps_of d2 ?i)]"
    using inv unfolding steps_contiguous_def seq2 len2 by metis
  have new: "map st_sequence ss = map (\<lambda>k. int (length (steps_of d2 ?i)) + int k) [0..<length ss]"
    using val by (simp add: create_validation_Inr_iff steps_numbered_iff steps len2 ss comp_def
        new_steps_sel(1) [OF len]) (simp add: new_steps_def len)
  have d3: "db_steps d3 = db_steps d2 @ map (step_from_domain ?i) ss" "db_executions d3 = db_executions d2"
    using insert_steps_appends [OF st] i by simp_all
  have "steps_contiguous d3"
    by (rule steps_contiguous_insert [OF inv2 _ new d3(1)])
      (use c2 in \<open>simp add: steps_contiguous_def d3(2)\<close>)
  then show "steps_contiguous d'" using contiguous_receipt(1) [OF rec] by simp
  have lss: "length ss = length (oc_steps c)" by (simp add: ss new_steps_def len)
  have "steps_of d' ?i = steps_of d3 ?i"
    using insert_receipt_SomeD(1) [OF rec] by (simp add: steps_of_def)
  then show "map st_sequence (steps_of d' ?i) = map int [0..<length (steps_of dk ?i) + length (oc_steps c)]"
    using steps_of_appended(1) [OF inv2 new d3(1)] numbered_append [OF inv2 new]
    by (simp add: comp_def lss len2)
qed

subsection \<open>Properties of the other commands\<close>

lemma required_operation_id_Inr [simp]: "required_operation_id x = Inr i \<longleftrightarrow> x = Some i"
  by (auto simp: required_operation_id_def split: option.splits)

lemma get_by_cancel_key_row:
  assumes "db_wf d"
  shows "get_by_cancel_key d i k =
    (case execution_row d i of
       Some r \<Rightarrow> if ex_cancel_idempotency_key r = Some k then Some (execution_to_domain d r) else None
     | None \<Rightarrow> None)"
  unfolding get_by_cancel_key_def execution_row_def
  by (simp add: scalar_key_cond [OF db_wf_executions [OF assms]] split: option.split)

text \<open>
  C18. The complete outcome of a cancel request: an unknown Execution is a 404; a
  repeated key, or a request while a cancellation is pending, gives back the stored Execution and
  writes nothing; a terminal Execution is refused; anything else is committed as
  CANCEL_REQUESTED with the key recorded, one allowed transition and one version step on this
  Execution only.
\<close>

theorem cancel_outcome:
  assumes wf: "db_wf d"
  shows "case execution_row d (cc_execution_id c) of
      None \<Rightarrow> cancel_execution now d d dr c = Inl ExecutionNotFoundError
    | Some r \<Rightarrow>
        if ex_cancel_idempotency_key r = Some (cc_idempotency_key c) \<or> ex_status r = ES_CANCEL_REQUESTED
        then cancel_execution now d d dr c = Inr (Replayed (execution_to_domain d r))
        else if execution_status_is_terminal (ex_status r)
        then cancel_execution now d d dr c = Inl InvalidStateTransitionError
        else \<exists>d' e. cancel_execution now d d dr c = Inr (Committed d' e) \<and>
          ex_status e = ES_CANCEL_REQUESTED \<and>
          ex_cancel_idempotency_key e = Some (cc_idempotency_key c) \<and>
          command_step (cc_execution_id c) d d' \<and>
          map_option ex_cancel_idempotency_key (execution_row d' (cc_execution_id c)) =
            Some (Some (cc_idempotency_key c))"
proof (cases "execution_row d (cc_execution_id c)")
  case None
  then show ?thesis
    by (simp add: cancel_execution_def get_by_cancel_key_row [OF wf] cancel_locked_def
        required_execution_def repo_get_def)
next
  case (Some r)
  let ?e = "apply_actor (cc_actor_client c) (cc_actor_id c) (execution_to_domain d r
      \<lparr>ex_status := ES_CANCEL_REQUESTED, ex_cancel_idempotency_key := Some (cc_idempotency_key c),
       ex_cancellation_reason := cc_reason c, ex_operation_wait_expires_at := None,
       ex_version := ex_version r + 1, ex_updated_at := now\<rparr>)"
  have lock: "required_execution d (cc_execution_id c) = Inr (execution_to_domain d r)"
    using Some by (auto simp: required_execution_Inr)
  note unfold = cancel_execution_def get_by_cancel_key_row [OF wf] cancel_locked_def lock Some
  show ?thesis
  proof (cases "ex_cancel_idempotency_key r = Some (cc_idempotency_key c) \<or>
      ex_status r = ES_CANCEL_REQUESTED \<or> execution_status_is_terminal (ex_status r)")
    case True
    then show ?thesis by (auto simp: unfold request_cancel_def)
  next
    case False
    have r: "ex_id r = cc_execution_id c" using execution_row_SomeD [OF Some] by simp
    obtain d' where save: "repo_save ?e d = Inr d'"
      by (rule save_succeeds [OF wf, of ?e r]) (simp_all add: Some r)
    have req: "request_cancel (cc_idempotency_key c) (cc_reason c) now (execution_to_domain d r) =
        Inr (execution_to_domain d r
      \<lparr>ex_status := ES_CANCEL_REQUESTED, ex_cancel_idempotency_key := Some (cc_idempotency_key c),
       ex_cancellation_reason := cc_reason c, ex_operation_wait_expires_at := None,
       ex_version := ex_version r + 1, ex_updated_at := now\<rparr>)"
      using False by (simp add: request_cancel_Inr_iff)
    have com: "cancel_execution now d d dr c = Inr (Committed d' ?e)"
      using False save by (simp add: unfold req Let_def)
    have "ex_cancel_idempotency_key (save_execution_values ?e r) = Some (cc_idempotency_key c)"
      by (simp add: save_execution_values_def)
    then show ?thesis
      using False Some com handler_step(1) [OF wf com] repo_save_row [OF wf save] r by simp
  qed
qed

lemma next_operation_number_gt:
  assumes "q \<in> set (db_operations d)" and "op_execution_id q = i"
  shows "op_operation_number q < next_operation_number d i"
proof -
  have "x \<in> set xs \<Longrightarrow> x \<le> foldr max xs 0" for x :: int and xs
    by (induction xs) auto
  then show ?thesis using assms by (force simp: next_operation_number_def zle_add1_eq_le)
qed

text \<open>
  C19. A committed Operation of a MULTI Execution continues the Step
  numbering without a gap, gets a number larger than every earlier Operation of the Execution,
  and is accepted only from WAITING_FOR_OPERATION at the version the caller saw.
\<close>

theorem create_operation_commits:
  assumes wf: "db_wf dk" and inv: "steps_contiguous dk"
    and len: "length (ni_steps ids) = length (oc_steps c)"
    and com: "create_operation sha cl now ids dl dk dr fs c = (fs', Inr (Committed d' res))"
  shows "command_step (oc_execution_id c) dk d' \<and>
    (\<exists>r. execution_row dk (oc_execution_id c) = Some r \<and> ex_operation_mode r = OM_MULTI \<and>
       ex_status r = ES_WAITING_FOR_OPERATION \<and> ex_version r = oc_expected_version c) \<and>
    map st_sequence (steps_of d' (oc_execution_id c)) =
      map int [0..<length (steps_of dk (oc_execution_id c)) + length (oc_steps c)] \<and>
    steps_contiguous d' \<and> ex_status (cmd_execution res) = ES_QUEUED \<and>
    (\<exists>q\<in>set (db_operations d'). op_id q = cmd_operation_id res \<and>
       op_execution_id q = oc_execution_id c \<and>
       (\<forall>p\<in>set (db_operations dk). op_execution_id p = oc_execution_id c \<longrightarrow>
          op_operation_number p < op_operation_number q))"
proof -
  obtain r e ss d1 d2 d3 q where row: "execution_row dk (oc_execution_id c) = Some r"
    and req: "request_operation (oc_expected_version c) now (execution_to_domain dk r) = Inr e"
    and save: "repo_save ((apply_actor (oc_actor_client c) (oc_actor_id c) e)
        \<lparr>ex_steps := ex_steps e @ ss, ex_active_operation_id := Some (ni_operation ids)\<rparr>) dk = Inr d1"
    and q: "op_id q = ni_operation ids" "op_execution_id q = ex_id e"
      "op_operation_number q = next_operation_number dk (ex_id e)"
    and oper: "insert_operation q d1 = Some d2"
    and st: "insert_steps (map (step_from_domain (ex_id e)) ss) d2 = Some d3"
    and rec: "insert_command_receipt (create_receipt now ids ''execution_operation_create''
        (canonical_sha256 sha (create_operation_payload c)) c (ex_id e)) d3 = Some d'"
    and res: "res = \<lparr>cmd_execution = (apply_actor (oc_actor_client c) (oc_actor_id c) e)
        \<lparr>ex_steps := ex_steps e @ ss, ex_active_operation_id := Some (ni_operation ids)\<rparr>,
        cmd_operation_id = ni_operation ids\<rparr>"
    using com by (rule create_commitD)
  have e: "ex_id e = oc_execution_id c" "ex_status e = ES_QUEUED"
    and r: "ex_operation_mode r = OM_MULTI" "ex_status r = ES_WAITING_FOR_OPERATION"
      "ex_version r = oc_expected_version c"
    using req execution_row_SomeD [OF row] by (auto simp: request_operation_Inr_iff)
  have "q \<in> set (db_operations d')"
    using insert_operation_SomeD(1) [OF oper] insert_steps_appends [OF st]
      insert_receipt_SomeD(1) [OF rec] by simp
  then have "\<exists>q\<in>set (db_operations d'). op_id q = cmd_operation_id res \<and>
       op_execution_id q = oc_execution_id c \<and>
       (\<forall>p\<in>set (db_operations dk). op_execution_id p = oc_execution_id c \<longrightarrow>
          op_operation_number p < op_operation_number q)"
    by (rule bexI [rotated]) (simp add: q e res next_operation_number_gt)
  then show ?thesis
    using handler_step(4) [OF wf com] create_contiguous [OF wf inv len com] row r
    by (simp add: res e)
qed

text \<open>
  A caller whose view is stale gets the version conflict and not an
  error about the Step numbers it computed from that view; nothing is written.
\<close>

lemma create_stale_version:
  assumes "oc_spec_schema_version c = ''1.0''"
    and "get_command_receipt d (oc_execution_id c) (oc_idempotency_key c) = None"
    and "execution_row d (oc_execution_id c) = Some r"
    and "ex_operation_mode r = OM_MULTI" and "ex_status r = ES_WAITING_FOR_OPERATION"
    and "ex_version r \<noteq> oc_expected_version c"
  shows "create_operation sha cl now ids d d dr fs c = (fs, Inl ExecutionVersionConflictError)"
  using assms
  by (simp add: create_operation_def validate_schema_version_def raise_if_def Let_def
      create_locked_def required_execution_def repo_get_def request_operation_def)

lemma retry_commitD:
  assumes "retry_execution now ids dl dk dr c = Inr (Committed d' res)"
  obtains r e d1 d2 q n where "execution_row dk (rc_execution_id c) = Some r"
    and "request_retry now (execution_to_domain dk r) = Inr e"
    and "repo_save (retry_step_actors c (apply_actor (rc_actor_client c) (rc_actor_id c) e)) dk = Inr d1"
    and "requeue_operation_for_retry q (rc_actor_client c) (rc_actor_id c) now d1 = Inr d2"
    and "insert_retry_receipt (retry_receipt now ids c (ex_id e) n) d2 = Some d'"
    and "ex_active_operation_id e = Some q"
    and "res = \<lparr>cmd_execution = retry_step_actors c (apply_actor (rc_actor_client c) (rc_actor_id c) e),
      cmd_operation_id = q\<rparr>"
proof -
  have "retry_replay x \<noteq> Inr (Committed d' res)" for x
    by (simp add: retry_replay_def bind_res_eq_Inr)
  then have "retry_locked now ids dk c = Inr (Committed d' res)"
    using assms by (auto simp: retry_execution_def Let_def split: option.splits if_splits)
  then obtain r e q n d1 d2 where "execution_row dk (rc_execution_id c) = Some r"
    and "request_retry now (execution_to_domain dk r) = Inr e"
    and "repo_save (retry_step_actors c (apply_actor (rc_actor_client c) (rc_actor_id c) e)) dk = Inr d1"
    and "requeue_operation_for_retry q (rc_actor_client c) (rc_actor_id c) now d1 = Inr d2"
    and "insert_retry_receipt (retry_receipt now ids c (ex_id e) n) d2 = Some d'"
    and "ex_active_operation_id e = Some q"
    and "res = \<lparr>cmd_execution = retry_step_actors c (apply_actor (rc_actor_client c) (rc_actor_id c) e),
      cmd_operation_id = q\<rparr>"
    by (auto simp: retry_locked_def bind_res_eq_Inr Let_def required_execution_Inr
        split: option.split_asm)
  then show thesis by (rule that)
qed

text \<open>
  C20. A committed retry from the start reports an Execution without
  Runtime session or Target, but the stored row keeps both: \<open>save\<close> does not write those columns.
\<close>

theorem retry_forgets_only_in_memory:
  assumes wf: "db_wf dk" and com: "retry_execution now ids dl dk dr c = Inr (Committed d' res)"
    and row: "execution_row dk (rc_execution_id c) = Some r"
    and start: "ex_retry_strategy r = RS_FROM_START"
  shows "ex_runtime_session_id (cmd_execution res) = None \<and>
    ex_runtime_target_id (cmd_execution res) = None \<and>
    (\<exists>r'. execution_row d' (rc_execution_id c) = Some r' \<and>
       ex_runtime_session_id r' = ex_runtime_session_id r \<and>
       ex_runtime_target_id r' = ex_runtime_target_id r)"
proof -
  obtain e d1 d2 q n where req: "request_retry now (execution_to_domain dk r) = Inr e"
    and save: "repo_save (retry_step_actors c (apply_actor (rc_actor_client c) (rc_actor_id c) e)) dk = Inr d1"
    and requeue: "requeue_operation_for_retry q (rc_actor_client c) (rc_actor_id c) now d1 = Inr d2"
    and rec: "insert_retry_receipt (retry_receipt now ids c (ex_id e) n) d2 = Some d'"
    and res: "res = \<lparr>cmd_execution = retry_step_actors c (apply_actor (rc_actor_client c) (rc_actor_id c) e),
      cmd_operation_id = q\<rparr>"
    using com row by (elim retry_commitD) simp
  have e: "e = requeue_for_retry 0 now (forget_runtime_session (execution_to_domain dk r))"
    using req start by (simp add: request_retry_Inr_iff)
  then have "ex_id e = rc_execution_id c"
    using execution_row_SomeD [OF row] by (simp add: requeue_for_retry_def forget_runtime_session_def)
  moreover have "db_executions d' = db_executions d1"
    using requeue_operation_frame(1) [OF requeue] insert_receipt_SomeD(2) [OF rec] by simp
  then have "execution_row d' i = execution_row d1 i" for i by (simp add: execution_row_def)
  ultimately show ?thesis
    using row repo_save_row [OF wf save] by (simp add: res e requeue_for_retry_def)
qed

text \<open>
  A committed retry keeps every Step before the retry point as it was and
  makes the failed Step and all later ones PENDING again, in the stored rows.
\<close>

lemma retry_resets_steps:
  assumes wf: "db_wf dk" and com: "retry_execution now ids dl dk dr c = Inr (Committed d' res)"
    and row: "execution_row dk (rc_execution_id c) = Some r"
    and n: "n = (if ex_retry_strategy r = RS_FROM_START then 0 else the (ex_retry_from_sequence r))"
  shows "map (\<lambda>s. (st_id s, st_sequence s, st_status s)) (steps_of d' (rc_execution_id c)) =
    map (\<lambda>s. (st_id s, st_sequence s, if st_sequence s < n then st_status s else SS_PENDING))
      (steps_of dk (rc_execution_id c))"
proof -
  let ?i = "rc_execution_id c"
  obtain e d1 d2 q m where req: "request_retry now (execution_to_domain dk r) = Inr e"
    and save: "repo_save (retry_step_actors c (apply_actor (rc_actor_client c) (rc_actor_id c) e)) dk = Inr d1"
    and requeue: "requeue_operation_for_retry q (rc_actor_client c) (rc_actor_id c) now d1 = Inr d2"
    and rec: "insert_retry_receipt (retry_receipt now ids c (ex_id e) m) d2 = Some d'"
    using com row by (elim retry_commitD) simp
  have steps: "ex_steps e = map (reset_step_for_retry n now) (map step_to_domain (steps_of dk ?i))"
    using req n execution_row_SomeD [OF row] by (auto simp: request_retry_Inr_iff)
  define h where "h s = (let t = reset_step_for_retry n now (step_to_domain s) in
      if (case ex_retry_from_sequence e of None \<Rightarrow> False | Some n \<Rightarrow> n \<le> st_sequence t)
      then apply_step_actor (rc_actor_client c) (rc_actor_id c) t else t)" for s
  have "ex_steps (retry_step_actors c (apply_actor (rc_actor_client c) (rc_actor_id c) e)) =
      map h (steps_of dk ?i)"
    by (simp add: retry_step_actors_def h_def Let_def steps comp_def)
  moreover have "st_id (h s) = st_id s" for s by (simp add: h_def Let_def apply_step_actor_def)
  ultimately have "steps_of d1 ?i = map (\<lambda>s. save_step_values (h s) s) (steps_of dk ?i)"
    by (rule repo_save_steps_of [OF wf save])
  moreover have "steps_of d' ?i = steps_of d1 ?i"
    using requeue_operation_frame(2) [OF requeue] insert_receipt_SomeD(2) [OF rec]
    by (simp add: steps_of_def)
  moreover have "st_status (h s) = (if st_sequence s < n then st_status s else SS_PENDING)" for s
    by (simp add: h_def Let_def apply_step_actor_def reset_step_for_retry_def)
  ultimately show ?thesis by (simp add: comp_def save_step_values_def)
qed


subsection \<open>Concrete runs of the other commands\<close>

definition demo_base :: "operation_mode \<Rightarrow> db" where
  "demo_base m = submitted_db demo_sha 5 demo_ids ''fp'' (demo_submit m ''python'') empty_db"

lemma demo_base_wf: "db_wf (demo_base m)"
  unfolding demo_base_def
  by (rule submit_insert_SomeD(4) [OF submitted_insert [OF db_wf_empty demo_submittable] db_wf_empty])

lemma demo_base_contiguous: "steps_contiguous (demo_base m)"
  unfolding demo_base_def
  by (rule submitted_steps_of(3) [OF db_wf_empty])
    (simp_all add: steps_numbered_def demo_submit_def demo_step_def demo_ids_def,
     simp add: empty_db_def)

text \<open>The demo Execution in another status, with its Operation in another status.\<close>

definition demo_at :: "operation_mode \<Rightarrow> (execution_orm \<Rightarrow> execution_orm) \<Rightarrow> operation_status \<Rightarrow> db" where
  "demo_at m f os = (demo_base m)
     \<lparr>db_executions := update_where (\<lambda>r. True) f (db_executions (demo_base m)),
      db_operations := update_where (\<lambda>q. True) (\<lambda>q. q\<lparr>op_status := os\<rparr>) (db_operations (demo_base m))\<rparr>"

lemma demo_at_wf:
  assumes "\<And>r. ex_id (f r) = ex_id r" and "\<And>r. ex_tenant_id (f r) = ex_tenant_id r"
    and "\<And>r. ex_idempotency_key (f r) = ex_idempotency_key r"
  shows "db_wf (demo_at m f os)" and "steps_contiguous (demo_at m f os)"
proof -
  let ?d1 = "(demo_base m)\<lparr>db_executions := update_where (\<lambda>r. True) f (db_executions (demo_base m))\<rparr>"
  have "db_wf ?d1" by (rule update_executions_wf [OF demo_base_wf]) (simp_all add: assms)
  then show "db_wf (demo_at m f os)"
    by (rule db_wf_frame) (simp_all add: demo_at_def map_key_update_where)
  show "steps_contiguous (demo_at m f os)"
    using steps_contiguous_cong [of "demo_at m f os" "demo_base m"] demo_base_contiguous [of m]
    by (simp add: demo_at_def step_keys_def set_update_where image_image assms)
qed

definition demo_cancel :: cancel_command where
  "demo_cancel = \<lparr>cc_execution_id = 10, cc_idempotency_key = ''c1'', cc_reason = None,
     cc_actor_client = None, cc_actor_id = None\<rparr>"

lemma demo_row:
  "execution_row (demo_base m) 10 = Some (execution_from_domain
     (submitted_execution demo_sha 5 demo_ids ''fp'' (demo_submit m ''python'')))"
  by (simp add: execution_row_def demo_base_def submitted_db_def empty_db_def demo_ids_def)

theorem cancel_outcome_witness:
  "\<exists>d' e. cancel_execution 7 (demo_base OM_SINGLE) (demo_base OM_SINGLE) empty_db demo_cancel =
      Inr (Committed d' e) \<and> ex_status e = ES_CANCEL_REQUESTED \<and> command_step 10 (demo_base OM_SINGLE) d'"
proof -
  have "ex_cancel_idempotency_key (execution_from_domain (submitted_execution demo_sha 5 demo_ids
      ''fp'' (demo_submit OM_SINGLE ''python''))) = None"
    by (simp add: submitted_execution_def new_execution_def row_simps)
  then show ?thesis
    using cancel_outcome [OF demo_base_wf [of OM_SINGLE], where c = demo_cancel and now = 7 and dr = empty_db]
    by (simp add: demo_cancel_def demo_row execution_status_is_terminal_def) blast
qed

definition demo_multi :: db where
  "demo_multi = demo_at OM_MULTI (\<lambda>r. r\<lparr>ex_status := ES_WAITING_FOR_OPERATION, ex_version := 3\<rparr>) OS_SUCCEEDED"

definition demo_create :: "int \<Rightarrow> create_operation_command" where
  "demo_create v = \<lparr>oc_execution_id = 10, oc_idempotency_key = ''o2'', oc_expected_version = v,
     oc_steps = [demo_step 1], oc_spec_schema_version = ''1.0'', oc_operation_timeout_seconds = None,
     oc_metadata = JObj [], oc_actor_client = None, oc_actor_id = None\<rparr>"

definition demo_ids2 :: new_ids where
  "demo_ids2 = \<lparr>ni_operation = 21, ni_execution = 11, ni_receipt = 41, ni_steps = [31]\<rparr>"

fun is_committed :: "domain_error + 'a outcome \<Rightarrow> bool" where
  "is_committed (Inr (Committed d x)) = True"
| "is_committed _ = False"

lemma is_committedE:
  assumes "is_committed r"
  obtains d' x where "r = Inr (Committed d' x)"
  using assms by (cases r rule: is_committed.cases) auto

theorem create_operation_commits_witness:
  "\<exists>fs' d' res. create_operation demo_sha demo_limits 8 demo_ids2 demo_multi demo_multi empty_db []
      (demo_create 3) = (fs', Inr (Committed d' res)) \<and>
    map st_sequence (steps_of d' 10) = [0, 1] \<and> steps_contiguous d'"
proof -
  let ?r = "create_operation demo_sha demo_limits 8 demo_ids2 demo_multi demo_multi empty_db [] (demo_create 3)"
  have "is_committed (snd ?r)" by code_simp
  then obtain d' res where "snd ?r = Inr (Committed d' res)" by (rule is_committedE)
  then have com: "?r = (fst ?r, Inr (Committed d' res))" by (metis prod.collapse)
  have "length (steps_of demo_multi 10) = 1" by code_simp
  then have "map st_sequence (steps_of d' 10) = [0, 1] \<and> steps_contiguous d'"
    using create_operation_commits [OF _ _ _ com] demo_at_wf
    by (simp add: demo_multi_def demo_create_def demo_ids2_def)
  with com show ?thesis by (intro exI conjI; elim conjE)
qed

lemma create_stale_version_witness:
  "create_operation demo_sha demo_limits 8 demo_ids2 demo_multi demo_multi empty_db []
      (demo_create 2) = ([], Inl ExecutionVersionConflictError)"
proof -
  obtain r where "execution_row demo_multi 10 = Some r" and "ex_operation_mode r = OM_MULTI"
    "ex_status r = ES_WAITING_FOR_OPERATION" "ex_version r = 3"
    by (simp add: demo_multi_def demo_at_def execution_row_def demo_base_def submitted_db_def
        empty_db_def submitted_execution_def new_execution_def row_simps demo_submit_def demo_ids_def)
  moreover have "get_command_receipt demo_multi 10 ''o2'' = None" by code_simp
  ultimately show ?thesis
    by (intro create_stale_version [where r = r]) (simp_all add: demo_create_def)
qed

definition demo_failed :: "retry_strategy \<Rightarrow> db" where
  "demo_failed s = demo_at OM_SINGLE (\<lambda>r. r\<lparr>ex_status := ES_FAILED, ex_retry_strategy := s,
     ex_runtime_session_id := Some ''kernel-7'', ex_runtime_target_id := Some 50,
     ex_retained_runtime_session_until := Some 100, ex_retry_from_sequence := Some 0,
     ex_version := 4\<rparr>) OS_FAILED"

definition demo_retry :: retry_command where
  "demo_retry = \<lparr>rc_execution_id = 10, rc_idempotency_key = ''r1'', rc_actor_client = None,
     rc_actor_id = None\<rparr>"

lemma demo_failed_wf: "db_wf (demo_failed s)"
  unfolding demo_failed_def by (rule demo_at_wf(1)) simp_all

lemma demo_failed_row:
  "\<exists>r. execution_row (demo_failed s) 10 = Some r \<and> ex_retry_strategy r = s \<and>
     ex_runtime_session_id r = Some ''kernel-7'' \<and> ex_retry_from_sequence r = Some 0"
  by (simp add: demo_failed_def demo_at_def execution_row_def demo_base_def submitted_db_def
        empty_db_def submitted_execution_def new_execution_def row_simps demo_submit_def demo_ids_def)

theorem retry_forgets_only_in_memory_witness:
  "\<exists>d' res r'. retry_execution 50 demo_ids2 (demo_failed RS_FROM_START) (demo_failed RS_FROM_START)
      empty_db demo_retry = Inr (Committed d' res) \<and>
    ex_runtime_session_id (cmd_execution res) = None \<and>
    execution_row d' 10 = Some r' \<and> ex_runtime_session_id r' = Some ''kernel-7''"
proof -
  let ?d = "demo_failed RS_FROM_START"
  have "is_committed (retry_execution 50 demo_ids2 ?d ?d empty_db demo_retry)" by code_simp
  then obtain d' res where com: "retry_execution 50 demo_ids2 ?d ?d empty_db demo_retry =
      Inr (Committed d' res)" by (rule is_committedE)
  obtain r where "execution_row ?d 10 = Some r" "ex_retry_strategy r = RS_FROM_START"
    "ex_runtime_session_id r = Some ''kernel-7''"
    using demo_failed_row by blast
  then obtain r' where "ex_runtime_session_id (cmd_execution res) = None" "execution_row d' 10 = Some r'"
    "ex_runtime_session_id r' = Some ''kernel-7''"
    using retry_forgets_only_in_memory [OF demo_failed_wf com, of r] by (auto simp: demo_retry_def)
  with com show ?thesis by (intro exI conjI)
qed

lemma retry_resets_steps_witness:
  "\<exists>d' res. retry_execution 50 demo_ids2 (demo_failed RS_FROM_FAILED_STEP)
      (demo_failed RS_FROM_FAILED_STEP) empty_db demo_retry = Inr (Committed d' res) \<and>
    map st_status (steps_of d' 10) = [SS_PENDING]"
proof -
  let ?d = "demo_failed RS_FROM_FAILED_STEP"
  have "is_committed (retry_execution 50 demo_ids2 ?d ?d empty_db demo_retry)" by code_simp
  then obtain d' res where com: "retry_execution 50 demo_ids2 ?d ?d empty_db demo_retry =
      Inr (Committed d' res)" by (rule is_committedE)
  obtain r where r: "execution_row ?d 10 = Some r" "ex_retry_strategy r = RS_FROM_FAILED_STEP"
    "ex_retry_from_sequence r = Some 0"
    using demo_failed_row by blast
  have "map st_sequence (steps_of ?d 10) = [0]" by code_simp
  then obtain s where s: "steps_of ?d 10 = [s]" "st_sequence s = 0" by auto
  have "map (\<lambda>s. (st_id s, st_sequence s, st_status s)) (steps_of d' 10) = [(st_id s, 0, SS_PENDING)]"
    using retry_resets_steps [OF demo_failed_wf com, of r 0] r s by (simp add: demo_retry_def)
  then have "map st_status (steps_of d' 10) = [SS_PENDING]" by auto
  with com show ?thesis by (intro exI conjI)
qed

end
