(* ===== verification/Target_Selector.thy ===== *)
theory Target_Selector
  imports Command_Effects
begin

text \<open>
  \<open>infrastructure/runtime_admission.py\<close> and \<open>execution_worker/target_selector.py\<close>: how many
  slots of a Runtime Target are taken, and which Target a new Attempt goes to.

  The selector reads the candidates without a lock, locks the chosen row and decides again, so
  \<open>select_target\<close> takes both states of the database. Ratios the source computes as floats are
  exact rationals here. \<open>min\<close> of Python returns the first minimal element; \<open>min_by\<close> does so.

  The lemmas show that the result only depends on the locked state being good enough: whatever the
  unlocked read said, a selected Target is eligible, serves the profile, and has a free slot by
  reservations and by the observed session count; without contention it is a minimum of the
  documented order.
\<close>

text \<open>The settings of a worker that the transactions below read; durations are \<open>timedelta\<close>s.\<close>

record worker_settings =
  ws_execution_lease_seconds :: int
  ws_execution_max_runtime_seconds :: int
  ws_runtime_session_count_max_age :: timedelta
  ws_runtime_resource_max_age :: timedelta
  ws_runtime_memory_admission_limit :: rat
  ws_failed_session_retention_seconds :: int
  ws_queue_timeout_seconds :: int
  ws_runtime_cleanup_retry_interval_seconds :: int

subsection \<open>Admission\<close>

definition attempt_reserves :: "uuid \<Rightarrow> attempt_orm \<Rightarrow> bool" where
  "attempt_reserves target_id a \<longleftrightarrow>
     at_runtime_target_id a = target_id \<and> at_status a \<in> {AS_RUNNING, AS_WAITING}"

definition retained_reserves :: "uuid \<Rightarrow> datetime \<Rightarrow> execution_orm \<Rightarrow> bool" where
  "retained_reserves target_id now e \<longleftrightarrow>
     ex_runtime_target_id e = Some target_id \<and> ex_status e \<in> {ES_FAILED, ES_QUEUED} \<and>
     ex_retry_strategy e = RS_FROM_FAILED_STEP \<and> gt_now (ex_retained_runtime_session_until e) now \<and>
     ex_runtime_session_id e \<noteq> None"

definition cleanup_reserves :: "uuid \<Rightarrow> execution_orm \<Rightarrow> bool" where
  "cleanup_reserves target_id e \<longleftrightarrow>
     ex_runtime_target_id e = Some target_id \<and> ex_runtime_session_id e \<noteq> None \<and>
     ex_runtime_session_cleanup_status e \<in> {RC_PENDING, RC_FAILED}"

text \<open>A SQL \<open>UNION\<close> removes duplicates.\<close>

definition reservation_ids :: "uuid \<Rightarrow> datetime \<Rightarrow> db \<Rightarrow> uuid list" where
  "reservation_ids target_id now d =
     remdups (map at_execution_id (filter (attempt_reserves target_id) (db_attempts d)) @
              map ex_id (filter (retained_reserves target_id now) (db_executions d)) @
              map ex_id (filter (cleanup_reserves target_id) (db_executions d)))"

definition count_runtime_reservations :: "uuid \<Rightarrow> datetime \<Rightarrow> db \<Rightarrow> int" where
  "count_runtime_reservations target_id now d = int (length (reservation_ids target_id now d))"

definition session_count_is_fresh :: "timedelta \<Rightarrow> runtime_target_orm \<Rightarrow> datetime \<Rightarrow> bool" where
  "session_count_is_fresh max_age t now =
     (case rt_session_count_observed_at t of
        None \<Rightarrow> False
      | Some observed_at \<Rightarrow>
          rt_active_session_count t \<noteq> None \<and> rt_last_health_error t = None \<and>
          observed_at \<ge> now - max_age)"

definition admission_used_count ::
    "timedelta \<Rightarrow> runtime_target_orm \<Rightarrow> int \<Rightarrow> datetime \<Rightarrow> int" where
  "admission_used_count max_age t reserved_count now =
     (if session_count_is_fresh max_age t now
      then (case rt_active_session_count t of None \<Rightarrow> reserved_count | Some n \<Rightarrow> max reserved_count n)
      else reserved_count)"

subsection \<open>Selection\<close>

definition eligible :: "execution_orm \<Rightarrow> runtime_target_orm \<Rightarrow> bool" where
  "eligible e t \<longleftrightarrow>
     rt_pool t = ex_runtime_pool e \<and> rt_runtime_type t = ex_runtime_type e \<and> rt_enabled t \<and>
     rt_status t = TS_ACTIVE"

definition has_fresh_resource_observation ::
    "worker_settings \<Rightarrow> runtime_target_orm \<Rightarrow> datetime \<Rightarrow> bool" where
  "has_fresh_resource_observation ws t now =
     (case rt_resource_observed_at t of
        None \<Rightarrow> False
      | Some observed_at \<Rightarrow>
          rt_resource_last_error t = None \<and>
          \<not> (rt_cpu_utilization t = None \<and> rt_memory_utilization t = None) \<and>
          observed_at \<ge> now - ws_runtime_resource_max_age ws)"

fun max_with :: "rat \<Rightarrow> rat option \<Rightarrow> rat" where
  "max_with x None = x"
| "max_with x (Some y) = max x y"

definition load_ratio :: "runtime_target_orm \<times> int \<Rightarrow> rat" where
  "load_ratio c = of_int (snd c) / of_int (rt_max_concurrent_executions (fst c))"

text \<open>An unknown memory utilization sorts as infinity, after every known one.\<close>

definition resource_candidate_key ::
    "runtime_target_orm \<times> int \<Rightarrow> rat \<times> (bool \<times> rat) \<times> int \<times> string" where
  "resource_candidate_key c =
     (max_with (max_with (load_ratio c) (rt_cpu_utilization (fst c))) (rt_memory_utilization (fst c)),
      (case rt_memory_utilization (fst c) of None \<Rightarrow> (True, 0) | Some m \<Rightarrow> (False, m)),
      snd c, rt_name (fst c))"

definition load_candidate_key :: "runtime_target_orm \<times> int \<Rightarrow> rat \<times> int \<times> string" where
  "load_candidate_key c = (load_ratio c, snd c, rt_name (fst c))"

fun min_by :: "('a \<Rightarrow> 'k::linorder) \<Rightarrow> 'a \<Rightarrow> 'a list \<Rightarrow> 'a" where
  "min_by key x [] = x"
| "min_by key x (y # ys) = min_by key (if key y < key x then y else x) ys"

fun first_min :: "('a \<Rightarrow> 'k::linorder) \<Rightarrow> 'a list \<Rightarrow> 'a option" where
  "first_min key [] = None"
| "first_min key (x # xs) = Some (min_by key x xs)"

definition target_candidates ::
    "worker_settings \<Rightarrow> datetime \<Rightarrow> db \<Rightarrow> execution_orm \<Rightarrow> runtime_target_orm list \<Rightarrow>
       (runtime_target_orm \<times> int) list" where
  "target_candidates ws now d e targets =
     filter (\<lambda>c. snd c < rt_max_concurrent_executions (fst c))
       (map (\<lambda>t. (t, admission_used_count (ws_runtime_session_count_max_age ws) t
                     (count_runtime_reservations (rt_id t) now d) now))
         (filter (\<lambda>t. ex_runtime_profile e \<in> set (rt_supported_profiles t)) targets))"

definition memory_admitted :: "worker_settings \<Rightarrow> runtime_target_orm \<Rightarrow> bool" where
  "memory_admitted ws t =
     (case rt_memory_utilization t of
        None \<Rightarrow> True
      | Some m \<Rightarrow> m < ws_runtime_memory_admission_limit ws)"

definition best_target ::
    "worker_settings \<Rightarrow> datetime \<Rightarrow> db \<Rightarrow> execution_orm \<Rightarrow> runtime_target_orm list \<Rightarrow>
       runtime_target_orm option" where
  "best_target ws now d e targets =
     (let candidates = target_candidates ws now d e targets;
          fresh_candidates = filter (\<lambda>c. has_fresh_resource_observation ws (fst c) now) candidates
      in map_option fst
           (if fresh_candidates \<noteq> []
            then first_min resource_candidate_key (filter (\<lambda>c. memory_admitted ws (fst c)) fresh_candidates)
            else first_min load_candidate_key candidates))"

definition eligible_by_name :: "db \<Rightarrow> execution_orm \<Rightarrow> runtime_target_orm list" where
  "eligible_by_name d e = sort_key rt_name (filter (eligible e) (db_targets d))"

definition select_target ::
    "worker_settings \<Rightarrow> datetime \<Rightarrow> db \<Rightarrow> datetime \<Rightarrow> db \<Rightarrow> execution_orm \<Rightarrow>
       runtime_target_orm option" where
  "select_target ws now_read d_read now d e =
     (case best_target ws now_read d_read e (eligible_by_name d_read e) of
        None \<Rightarrow> None
      | Some chosen \<Rightarrow>
          (case scalar (\<lambda>t. rt_id t = rt_id chosen \<and> eligible e t) (db_targets d) of
             None \<Rightarrow> None
           | Some target \<Rightarrow> best_target ws now d e [target]))"

subsection \<open>What a selection guarantees\<close>

lemma min_by_in: "min_by key x xs \<in> insert x (set xs)"
  by (induction key x xs rule: min_by.induct) auto

lemma min_by_le: "y \<in> insert x (set xs) \<Longrightarrow> key (min_by key x xs) \<le> key y"
proof (induction key x xs arbitrary: y rule: min_by.induct)
  case (2 key x z zs)
  let ?m = "if key z < key x then z else x"
  have head: "key (min_by key ?m zs) \<le> key ?m" by (rule "2.IH") simp
  show ?case
  proof (cases "y \<in> set zs")
    case True
    then show ?thesis using "2.IH" by simp
  next
    case False
    with "2.prems" have "key ?m \<le> key y" by (auto simp: not_less)
    then show ?thesis using head by simp
  qed
qed simp

lemma first_min_SomeD:
  assumes "first_min key xs = Some m"
  shows "m \<in> set xs" and "\<And>y. y \<in> set xs \<Longrightarrow> key m \<le> key y"
  using assms min_by_in [of key] min_by_le [of _ _ _ key] by (cases xs; force)+

lemma first_min_None_iff: "first_min key xs = None \<longleftrightarrow> xs = []"
  by (cases xs) simp_all

definition has_free_slot ::
    "worker_settings \<Rightarrow> datetime \<Rightarrow> db \<Rightarrow> execution_orm \<Rightarrow> runtime_target_orm \<Rightarrow> bool" where
  "has_free_slot ws now d e t \<longleftrightarrow>
     ex_runtime_profile e \<in> set (rt_supported_profiles t) \<and>
     admission_used_count (ws_runtime_session_count_max_age ws) t
       (count_runtime_reservations (rt_id t) now d) now < rt_max_concurrent_executions t \<and>
     (has_fresh_resource_observation ws t now \<longrightarrow> memory_admitted ws t)"

lemma set_target_candidates:
  "set (target_candidates ws now d e ts) =
     {(t, n). t \<in> set ts \<and> ex_runtime_profile e \<in> set (rt_supported_profiles t) \<and>
        n = admission_used_count (ws_runtime_session_count_max_age ws) t
              (count_runtime_reservations (rt_id t) now d) now \<and> n < rt_max_concurrent_executions t}"
  by (auto simp: target_candidates_def)

lemma best_target_SomeD:
  assumes "best_target ws now d e ts = Some t"
  shows "t \<in> set ts" and "has_free_slot ws now d e t"
proof -
  let ?cs = "target_candidates ws now d e ts"
  let ?fresh = "filter (\<lambda>c. has_fresh_resource_observation ws (fst c) now) ?cs"
  obtain n where in_cs: "(t, n) \<in> set ?cs"
    and mem: "has_fresh_resource_observation ws t now \<longrightarrow> memory_admitted ws t"
  proof (cases "?fresh = []")
    case True
    with assms obtain c where c: "first_min load_candidate_key ?cs = Some c" "fst c = t"
      by (auto simp: best_target_def)
    have "c \<in> set ?cs" by (rule first_min_SomeD(1) [OF c(1)])
    moreover from this True have "\<not> has_fresh_resource_observation ws t now"
      using c(2) by (auto simp: filter_empty_conv)
    ultimately show ?thesis using c(2) by (intro that [of "snd c"]) auto
  next
    case False
    with assms obtain c where c: "fst c = t"
      "first_min resource_candidate_key (filter (\<lambda>c. memory_admitted ws (fst c)) ?fresh) = Some c"
      by (auto simp: best_target_def)
    from first_min_SomeD(1) [OF c(2)] c(1) show ?thesis by (intro that [of "snd c"]) auto
  qed
  from in_cs show "t \<in> set ts" by (simp add: set_target_candidates)
  from in_cs mem show "has_free_slot ws now d e t" by (simp add: set_target_candidates has_free_slot_def)
qed

lemma admission_used_ge: "reserved \<le> admission_used_count max_age t reserved now"
  by (auto simp: admission_used_count_def split: option.splits)

lemma select_target_SomeD:
  assumes "select_target ws now0 d0 now d e = Some t"
  shows "t \<in> set (db_targets d)" and "eligible e t" and "has_free_slot ws now d e t"
    and "count_runtime_reservations (rt_id t) now d < rt_max_concurrent_executions t"
proof -
  from assms obtain c :: runtime_target_orm and u where u: "scalar (\<lambda>t. rt_id t = rt_id c \<and> eligible e t) (db_targets d) = Some u"
    and b: "best_target ws now d e [u] = Some t"
    by (simp add: select_target_def split: option.splits)
  from best_target_SomeD [OF b] have t: "t = u" "has_free_slot ws now d e t" by simp_all
  from scalar_SomeD [OF u] t(1) show "t \<in> set (db_targets d)" "eligible e t" by simp_all
  show "has_free_slot ws now d e t" by (fact t(2))
  then show "count_runtime_reservations (rt_id t) now d < rt_max_concurrent_executions t"
    unfolding has_free_slot_def
    using admission_used_ge [of "count_runtime_reservations (rt_id t) now d"] by (meson le_less_trans)
qed

lemma best_target_singleton:
  assumes "has_free_slot ws now d e t"
  shows "best_target ws now d e [t] = Some t"
proof -
  let ?n = "admission_used_count (ws_runtime_session_count_max_age ws) t
    (count_runtime_reservations (rt_id t) now d) now"
  have "target_candidates ws now d e [t] = [(t, ?n)]"
    using assms by (simp add: target_candidates_def has_free_slot_def)
  then show ?thesis using assms by (simp add: best_target_def has_free_slot_def)
qed

lemma select_target_uncontended:
  assumes ids: "distinct (map rt_id (db_targets d))"
  shows "select_target ws now d now d e = best_target ws now d e (eligible_by_name d e)"
proof (cases "best_target ws now d e (eligible_by_name d e)")
  case None
  then show ?thesis by (simp add: select_target_def)
next
  case (Some t)
  from best_target_SomeD [OF Some] have t: "t \<in> set (db_targets d)" "eligible e t"
    and slot: "has_free_slot ws now d e t" by (simp_all add: eligible_by_name_def)
  have "scalar (\<lambda>u. rt_id u = rt_id t \<and> eligible e u) (db_targets d) = Some t"
    using scalar_key_cond [OF ids, of "rt_id t" "eligible e"] scalar_key_unique [OF ids t(1) refl] t(2)
    by simp
  then show ?thesis using Some by (simp add: select_target_def best_target_singleton [OF slot])
qed

text \<open>The order by which an uncontended selection is a minimum.\<close>

definition used_slots :: "worker_settings \<Rightarrow> datetime \<Rightarrow> db \<Rightarrow> runtime_target_orm \<Rightarrow> int" where
  "used_slots ws now d t = admission_used_count (ws_runtime_session_count_max_age ws) t
     (count_runtime_reservations (rt_id t) now d) now"

lemma best_target_minimal:
  assumes b: "best_target ws now d e ts = Some t" and u: "u \<in> set ts" "has_free_slot ws now d e u"
  shows "if has_fresh_resource_observation ws t now
    then has_fresh_resource_observation ws u now \<longrightarrow>
      resource_candidate_key (t, used_slots ws now d t) \<le> resource_candidate_key (u, used_slots ws now d u)
    else \<not> has_fresh_resource_observation ws u now \<and>
      load_candidate_key (t, used_slots ws now d t) \<le> load_candidate_key (u, used_slots ws now d u)"
proof -
  let ?cs = "target_candidates ws now d e ts"
  let ?fresh = "filter (\<lambda>c. has_fresh_resource_observation ws (fst c) now) ?cs"
  have cand: "(x, n) \<in> set ?cs \<longleftrightarrow> x \<in> set ts \<and> ex_runtime_profile e \<in> set (rt_supported_profiles x) \<and>
      n = used_slots ws now d x \<and> n < rt_max_concurrent_executions x" for x n
    by (simp add: set_target_candidates used_slots_def)
  have uc: "(u, used_slots ws now d u) \<in> set ?cs"
    using u by (simp add: cand has_free_slot_def used_slots_def)
  show ?thesis
  proof (cases "?fresh = []")
    case True
    with b obtain n where m: "first_min load_candidate_key ?cs = Some (t, n)"
      by (auto simp: best_target_def)
    from first_min_SomeD(1) [OF m] have n: "(t, n) \<in> set ?cs" "n = used_slots ws now d t"
      by (simp_all add: cand)
    have "\<not> has_fresh_resource_observation ws x now" if "(x, k) \<in> set ?cs" for x k
      using True that by (auto simp: filter_empty_conv)
    then show ?thesis using first_min_SomeD(2) [OF m uc] n uc by auto
  next
    case False
    with b obtain n where m: "first_min resource_candidate_key
        (filter (\<lambda>c. memory_admitted ws (fst c)) ?fresh) = Some (t, n)"
      by (auto simp: best_target_def)
    from first_min_SomeD(1) [OF m] have n: "n = used_slots ws now d t"
      and fr: "has_fresh_resource_observation ws t now" by (simp_all add: cand)
    have "resource_candidate_key (t, n) \<le> resource_candidate_key (u, used_slots ws now d u)"
      if f: "has_fresh_resource_observation ws u now"
    proof -
      have "memory_admitted ws u" using u(2) f by (simp add: has_free_slot_def)
      with uc f have "(u, used_slots ws now d u) \<in> set (filter (\<lambda>c. memory_admitted ws (fst c)) ?fresh)"
        by simp
      then show ?thesis by (rule first_min_SomeD(2) [OF m])
    qed
    then show ?thesis using n fr by simp
  qed
qed

subsection \<open>Properties\<close>

text \<open>
  C22. A selected Target is enabled, ACTIVE, of the pool and type of the
  Execution and serves its profile, and in the state in which its row is locked it has a free slot:
  fewer Executions hold a reservation than it may run, a fresh observed session count is below the
  same limit, and a fresh memory utilization is below the admission limit. The unlocked read that
  proposed the Target (\<open>d0\<close>, \<open>now0\<close>) is arbitrary.
\<close>

theorem target_selection_safe:
  assumes "select_target ws now0 d0 now d e = Some t"
  shows "t \<in> set (db_targets d) \<and> rt_enabled t \<and> rt_status t = TS_ACTIVE \<and>
    rt_pool t = ex_runtime_pool e \<and> rt_runtime_type t = ex_runtime_type e \<and>
    ex_runtime_profile e \<in> set (rt_supported_profiles t) \<and>
    count_runtime_reservations (rt_id t) now d < rt_max_concurrent_executions t \<and>
    (session_count_is_fresh (ws_runtime_session_count_max_age ws) t now \<longrightarrow>
      (\<forall>n. rt_active_session_count t = Some n \<longrightarrow> n < rt_max_concurrent_executions t)) \<and>
    (has_fresh_resource_observation ws t now \<longrightarrow>
      (\<forall>m. rt_memory_utilization t = Some m \<longrightarrow> m < ws_runtime_memory_admission_limit ws))"
  using select_target_SomeD [OF assms]
  by (auto simp: eligible_def has_free_slot_def admission_used_count_def memory_admitted_def)

text \<open>
  Without contention the selection is the least loaded Target among the
  eligible ones with a free slot: if the selected Target has fresh utilization it is minimal for
  (pressure, memory, used slots, name) among the admissible Targets with fresh utilization; if not,
  no admissible Target has, and it is minimal for (load ratio, used slots, name).
\<close>

lemma target_selection_minimal:
  assumes "distinct (map rt_id (db_targets d))" and "select_target ws now d now d e = Some t"
    and "u \<in> set (db_targets d)" and "eligible e u" and "has_free_slot ws now d e u"
  shows "if has_fresh_resource_observation ws t now
    then has_fresh_resource_observation ws u now \<longrightarrow>
      resource_candidate_key (t, used_slots ws now d t) \<le> resource_candidate_key (u, used_slots ws now d u)
    else \<not> has_fresh_resource_observation ws u now \<and>
      load_candidate_key (t, used_slots ws now d t) \<le> load_candidate_key (u, used_slots ws now d u)"
proof (rule best_target_minimal)
  show "best_target ws now d e (eligible_by_name d e) = Some t"
    using assms(2) by (simp add: select_target_uncontended [OF assms(1)])
  show "u \<in> set (eligible_by_name d e)" using assms(3,4) by (simp add: eligible_by_name_def)
qed (fact assms(5))

definition demo_target :: "uuid \<Rightarrow> string \<Rightarrow> runtime_target_orm" where
  "demo_target i name =
     \<lparr>rt_id = i, rt_name = name, rt_runtime_type = RT_JUPYTER, rt_connection_config = JObj [],
      rt_connection_key = name, rt_credential_ref = ''env'', rt_credential_ciphertext = None,
      rt_pool = RP_INTERACTIVE, rt_status = TS_ACTIVE, rt_max_concurrent_executions = 2,
      rt_supported_profiles = [''python''], rt_enabled = True, rt_last_health_check_at = None,
      rt_last_health_error = None, rt_active_session_count = None,
      rt_session_count_observed_at = None, rt_resource_observed_at = None,
      rt_resource_last_check_at = None, rt_resource_last_error = None, rt_resource_source = None,
      rt_resource_estimated = None, rt_resource_process_count = None, rt_cpu_used_cores = None,
      rt_cpu_capacity_cores = None, rt_cpu_utilization = None, rt_memory_used_bytes = None,
      rt_memory_capacity_bytes = None, rt_memory_utilization = None, rt_resource_errors = [],
      rt_created_by_client = None, rt_created_by = None, rt_updated_by_client = None,
      rt_updated_by = None, rt_created_at = 0, rt_updated_at = 0\<rparr>"

definition demo_execution :: "operation_mode \<Rightarrow> execution_orm" where
  "demo_execution m = execution_from_domain
     (submitted_execution demo_sha 5 demo_ids ''fp'' (demo_submit m ''python''))"

definition demo_settings :: worker_settings where
  "demo_settings = \<lparr>ws_execution_lease_seconds = 60, ws_execution_max_runtime_seconds = 600,
     ws_runtime_session_count_max_age = 45, ws_runtime_resource_max_age = 45,
     ws_runtime_memory_admission_limit = 9 / 10, ws_failed_session_retention_seconds = 3600,
     ws_queue_timeout_seconds = 300, ws_runtime_cleanup_retry_interval_seconds = 30\<rparr>"

definition demo_queue :: "operation_mode \<Rightarrow> db" where
  "demo_queue m = (demo_base m)\<lparr>db_targets := [demo_target 50 ''b'', demo_target 51 ''a'']\<rparr>"

lemma demo_selection:
  "select_target demo_settings 7 (demo_queue OM_SINGLE) 7 (demo_queue OM_SINGLE) (demo_execution OM_SINGLE) =
     Some (demo_target 51 ''a'')"
  by code_simp

theorem target_selection_safe_witness:
  "rt_enabled (demo_target 51 ''a'') \<and>
   count_runtime_reservations 51 7 (demo_queue OM_SINGLE) < rt_max_concurrent_executions (demo_target 51 ''a'')"
  using target_selection_safe [OF demo_selection] by (simp add: demo_target_def)

lemma target_selection_minimal_witness:
  "load_candidate_key (demo_target 51 ''a'', used_slots demo_settings 7 (demo_queue OM_SINGLE) (demo_target 51 ''a''))
   \<le> load_candidate_key (demo_target 50 ''b'', used_slots demo_settings 7 (demo_queue OM_SINGLE) (demo_target 50 ''b''))"
proof -
  have "demo_target 50 ''b'' \<in> set (db_targets (demo_queue OM_SINGLE))"
    "distinct (map rt_id (db_targets (demo_queue OM_SINGLE)))"
    by (simp_all add: demo_queue_def demo_target_def)
  moreover have "eligible (demo_execution OM_SINGLE) (demo_target 50 ''b'')"
    "has_free_slot demo_settings 7 (demo_queue OM_SINGLE) (demo_execution OM_SINGLE) (demo_target 50 ''b'')"
    "\<not> has_fresh_resource_observation demo_settings (demo_target 51 ''a'') 7" by code_simp+
  ultimately show ?thesis
    using target_selection_minimal [OF _ demo_selection] by simp
qed

end
