(* ===== verification/Claiming.thy ===== *)
theory Claiming
  imports Handover Target_Selector
begin

text \<open>
  \<open>execution_worker/claiming.py\<close> and \<open>execution_worker/execution_state.py\<close>: how a worker acquires an Execution to run, to cancel or to take
  over from another worker, and how it releases one.

  A transaction takes the worker's clock and the database it reads under its locks and returns the
  changed database with the result, or the error it raises. \<open>locked_elsewhere\<close> is the outcome of
  \<open>FOR UPDATE SKIP LOCKED\<close>: a row another transaction holds is not seen. The selector's unlocked
  read is the pair \<open>(now_read, d_read)\<close>.
\<close>

type_synonym claimed = "execution \<times> runtime_target_orm \<times> execution_lease"

subsection \<open>New rows\<close>

text \<open>An inserted Attempt must satisfy the constraints of \<open>ExecutionAttemptORM\<close>.\<close>

definition insert_attempt :: "attempt_orm \<Rightarrow> db \<Rightarrow> worker_error + db" where
  "insert_attempt a d =
     (if at_id a \<in> at_id ` set (db_attempts d) \<or>
         (at_execution_id a, at_attempt_number a) \<in>
           (\<lambda>x. (at_execution_id x, at_attempt_number x)) ` set (db_attempts d) \<or>
         \<not> 0 < at_attempt_number a \<or> \<not> 0 \<le> at_fencing_token a
      then Inl WorkerIntegrityError
      else Inr (d\<lparr>db_attempts := db_attempts d @ [a]\<rparr>))"

subsection \<open>Failing an Operation that no Attempt owns\<close>

definition fail_active_operation_without_attempt ::
    "minter \<Rightarrow> execution_orm \<Rightarrow> datetime \<Rightarrow> string \<Rightarrow> failure_type option \<Rightarrow> db \<Rightarrow> worker_error + db" where
  "fail_active_operation_without_attempt mint e now error_message failure_type d =
     (case ex_active_operation_id e of
        None \<Rightarrow> Inr d
      | Some q \<Rightarrow>
          (case scalar (\<lambda>p. op_id p = q \<and> op_status p \<in> {OS_QUEUED, OS_RUNNING}) (db_operations d) of
             None \<Rightarrow> Inr d
           | Some operation \<Rightarrow>
               add_operation_completed_event mint now (ex_id e) q
                 (set_operations (\<lambda>p. op_id p = q)
                   (\<lambda>p. p\<lparr>op_status := OS_FAILED, op_execution_attempt_id := None,
                         op_error_message := Some (take 2000 error_message),
                         op_failure_type := failure_type, op_finished_at := Some now,
                         op_updated_at := now\<rparr>) d)))"

subsection \<open>Claiming a cancellation\<close>

record cancellation_work =
  cw_lease :: cancellation_lease
  cw_runtime_target_id :: "uuid option"
  cw_runtime_session_id :: "string option"

definition claim_cancellation ::
    "worker_settings \<Rightarrow> string \<Rightarrow> datetime \<Rightarrow> bool \<Rightarrow> uuid \<Rightarrow> db \<Rightarrow>
       worker_error + (db \<times> cancellation_work option)" where
  "claim_cancellation ws worker_id now locked_elsewhere execution_id d =
     (case (if locked_elsewhere then None else execution_row d execution_id) of
        None \<Rightarrow> Inr (d, None)
      | Some e \<Rightarrow>
          if ex_status e \<noteq> ES_CANCEL_REQUESTED then Inr (d, None)
          else if ex_lease_owner e \<noteq> None \<and> gt_now (ex_lease_expires_at e) now then Inr (d, None)
          else
            let has_active_owner =
                  ex_cancellation_lease_owner e \<noteq> None \<and> gt_now (ex_cancellation_lease_expires_at e) now
            in if has_active_owner \<and> ex_cancellation_lease_owner e \<noteq> Some worker_id then Inr (d, None)
               else
                 let take_over = \<not> has_active_owner;
                     f = (\<lambda>e. e\<lparr>ex_cancellation_lease_owner := Some worker_id,
                               ex_cancellation_lease_expires_at :=
                                 Some (now + seconds (ws_execution_lease_seconds ws)),
                               ex_updated_at := now\<rparr>);
                     g = (\<lambda>e. e\<lparr>ex_fencing_token := ex_fencing_token e + 1, ex_lease_owner := None,
                               ex_lease_expires_at := None, ex_heartbeat_at := None\<rparr>);
                     h = (if take_over then f \<circ> g else f);
                     d1 = (if take_over then delete_handover execution_id d else d)
                 in Inr (set_execution execution_id h d1,
                      Some \<lparr>cw_lease = \<lparr>cn_execution_id = execution_id, cn_owner = worker_id,
                                         cn_fencing_token = ex_fencing_token (h e)\<rparr>,
                            cw_runtime_target_id = ex_runtime_target_id e,
                            cw_runtime_session_id = ex_runtime_session_id e\<rparr>))"

subsection \<open>Claiming an Execution to run\<close>

definition admission_is_active :: "db \<Rightarrow> bool" where
  "admission_is_active d \<longleftrightarrow> db_admission d \<in> {None, Some EA_ACTIVE}"

text \<open>The QUEUED Operation of the Execution, or why there is nothing to claim.\<close>

datatype operation_lookup = NotClaimable | NoOperation | ClaimOperation uuid

definition claimable_operation :: "execution_orm \<Rightarrow> db \<Rightarrow> operation_lookup" where
  "claimable_operation e d =
     (case (ex_finalization_requested e, ex_active_operation_id e) of
        (False, Some q) \<Rightarrow>
          (case scalar (\<lambda>p. op_id p = q \<and> (op_execution_id p = ex_id e \<and> op_status p = OS_QUEUED))
                 (db_operations d) of
             None \<Rightarrow> NotClaimable
           | Some p \<Rightarrow> ClaimOperation (op_id p))
      | (False, None) \<Rightarrow> if ex_retry_count e = 0 then NotClaimable else NoOperation
      | (True, _) \<Rightarrow> NoOperation)"

fun start_operation :: "operation_lookup \<Rightarrow> uuid \<Rightarrow> datetime \<Rightarrow> db \<Rightarrow> db" where
  "start_operation (ClaimOperation q) attempt_id now d =
     set_operations (\<lambda>p. op_id p = q)
       (\<lambda>p. p\<lparr>op_status := OS_RUNNING, op_execution_attempt_id := Some attempt_id,
             op_started_at := Some now, op_updated_at := now\<rparr>) d"
| "start_operation _ attempt_id now d = d"

text \<open>The columns both kinds of claim write to the Execution.\<close>

definition claimed_execution ::
    "worker_settings \<Rightarrow> string \<Rightarrow> datetime \<Rightarrow> execution_orm \<Rightarrow> execution_orm" where
  "claimed_execution ws worker_id now e =
     e\<lparr>ex_status := ES_RUNNING, ex_lease_owner := Some worker_id,
       ex_lease_expires_at := Some (now + seconds (ws_execution_lease_seconds ws)),
       ex_heartbeat_at := Some now, ex_fencing_token := ex_fencing_token e + 1,
       ex_execution_expires_at :=
         Some (opt_or (ex_execution_expires_at e)
           (opt_or (ex_started_at e) now + seconds (ws_execution_max_runtime_seconds ws))),
       ex_error_message := None, ex_failure_type := None,
       ex_runtime_session_cleanup_status := RC_NOT_REQUIRED,
       ex_runtime_abort_status := RA_NOT_REQUIRED, ex_updated_at := now,
       ex_version := ex_version e + 1\<rparr>"

definition resume_waiting_attempt ::
    "worker_settings \<Rightarrow> string \<Rightarrow> datetime \<Rightarrow> int \<Rightarrow> attempt_orm \<Rightarrow> attempt_orm" where
  "resume_waiting_attempt ws worker_id now fencing_token a =
     a\<lparr>at_status := AS_RUNNING, at_lease_owner := Some worker_id,
       at_lease_expires_at := Some (now + seconds (ws_execution_lease_seconds ws)),
       at_heartbeat_at := now, at_fencing_token := fencing_token, at_error_message := None,
       at_failure_type := None, at_retry_strategy := RS_NOT_RETRYABLE,
       at_runtime_session_cleanup_status := RC_NOT_REQUIRED,
       at_runtime_abort_status := RA_NOT_REQUIRED\<rparr>"

definition claim_result ::
    "db \<Rightarrow> uuid \<Rightarrow> runtime_target_orm \<Rightarrow> uuid \<Rightarrow> string \<Rightarrow> int \<Rightarrow> claimed option" where
  "claim_result d execution_id target attempt_id worker_id fencing_token =
     map_option (\<lambda>row. (execution_to_domain d row, target,
         \<lparr>le_execution_id = execution_id, le_attempt_id = attempt_id, le_owner = worker_id,
          le_fencing_token = fencing_token\<rparr>)) (execution_row d execution_id)"

definition claim_waiting ::
    "worker_settings \<Rightarrow> string \<Rightarrow> datetime \<Rightarrow> operation_lookup \<Rightarrow> execution_orm \<Rightarrow> uuid \<Rightarrow> db \<Rightarrow>
       worker_error + (db \<times> claimed option)" where
  "claim_waiting ws worker_id now operation e target_id d =
     (case (scalar (\<lambda>a. at_execution_id a = ex_id e \<and> at_status a = AS_WAITING) (db_attempts d),
            scalar (\<lambda>t. rt_id t = target_id) (db_targets d)) of
        (Some a, Some t) \<Rightarrow>
          if \<not> rt_enabled t \<or> rt_status t = TS_OFFLINE \<or> rt_runtime_type t \<noteq> ex_runtime_type e \<or>
             rt_pool t \<noteq> ex_runtime_pool e \<or> at_runtime_type a \<noteq> ex_runtime_type e \<or>
             at_runtime_profile a \<noteq> ex_runtime_profile e \<or>
             ex_runtime_profile e \<notin> set (rt_supported_profiles t)
          then Inr (d, None)
          else
            let fencing_token = ex_fencing_token e + 1 in
            bind_res (require_transition (ex_status e) ES_RUNNING) (\<lambda>_.
              let d1 = set_attempt (at_id a) (resume_waiting_attempt ws worker_id now fencing_token) d;
                  d2 = set_execution (ex_id e) (claimed_execution ws worker_id now) d1;
                  d3 = start_operation operation (at_id a) now d2
              in Inr (d3, claim_result d3 (ex_id e) t (at_id a) worker_id fencing_token))
      | _ \<Rightarrow> Inr (d, None))"

definition fail_unavailable_retained_retry ::
    "minter \<Rightarrow> execution_orm \<Rightarrow> datetime \<Rightarrow> string \<Rightarrow> db \<Rightarrow> worker_error + db" where
  "fail_unavailable_retained_retry mint e now error_message d =
     bind_res (require_transition (ex_status e) ES_FAILED) (\<lambda>_.
       let d1 = set_execution (ex_id e) (\<lambda>e. e\<lparr>ex_status := ES_FAILED,
                  ex_error_message := Some error_message,
                  ex_failure_type := Some FT_RUNTIME_UNAVAILABLE, ex_finished_at := Some now,
                  ex_updated_at := now, ex_lease_owner := None, ex_lease_expires_at := None,
                  ex_heartbeat_at := None, ex_retry_strategy := RS_FROM_START,
                  ex_retry_from_sequence := Some 0, ex_retained_runtime_session_until := None,
                  ex_runtime_session_cleanup_status := RC_FAILED,
                  ex_version := ex_version e + 1\<rparr>) d;
           d2 = set_steps (\<lambda>s. st_execution_id s = ex_id e \<and> st_status s = SS_PENDING)
                  (\<lambda>s. s\<lparr>st_status := SS_SKIPPED, st_finished_at := Some now, st_updated_at := now\<rparr>) d1
       in bind_res (fail_active_operation_without_attempt mint e now error_message None d2)
            (add_execution_completed_event mint now (ex_id e)))"

definition is_resume :: "execution_orm \<Rightarrow> bool" where
  "is_resume e \<longleftrightarrow>
     0 < ex_retry_count e \<and> ex_retry_strategy e = RS_FROM_FAILED_STEP \<and>
     ex_retry_from_sequence e \<noteq> None \<and> ex_runtime_session_id e \<noteq> None \<and>
     ex_runtime_target_id e \<noteq> None"

definition new_attempt ::
    "worker_settings \<Rightarrow> string \<Rightarrow> datetime \<Rightarrow> uuid \<Rightarrow> int \<Rightarrow> uuid \<Rightarrow> execution_orm \<Rightarrow> attempt_orm" where
  "new_attempt ws worker_id now attempt_id attempt_number target_id e =
     \<lparr>at_id = attempt_id, at_execution_id = ex_id e, at_attempt_number = attempt_number,
      at_runtime_type = ex_runtime_type e, at_runtime_profile = ex_runtime_profile e,
      at_runtime_target_id = target_id, at_runtime_session_id = None, at_status = AS_RUNNING,
      at_lease_owner = Some worker_id,
      at_lease_expires_at = Some (now + seconds (ws_execution_lease_seconds ws)),
      at_heartbeat_at = now, at_fencing_token = ex_fencing_token e + 1, at_error_message = None,
      at_failure_type = None, at_retry_strategy = RS_NOT_RETRYABLE,
      at_runtime_session_cleanup_status = RC_NOT_REQUIRED,
      at_runtime_abort_status = RA_NOT_REQUIRED,
      at_created_by_client = str_or (ex_updated_by_client e) (ex_created_by_client e),
      at_created_by = str_or (ex_updated_by e) (ex_created_by e),
      at_updated_by_client = str_or (ex_updated_by_client e) (ex_created_by_client e),
      at_updated_by = str_or (ex_updated_by e) (ex_created_by e),
      at_created_at = now, at_updated_at = now, at_started_at = now, at_finished_at = None\<rparr>"

definition claim_on_target ::
    "worker_settings \<Rightarrow> string \<Rightarrow> datetime \<Rightarrow> uuid \<Rightarrow> operation_lookup \<Rightarrow> execution_orm \<Rightarrow>
       runtime_target_orm \<Rightarrow> db \<Rightarrow> worker_error + (db \<times> claimed option)" where
  "claim_on_target ws worker_id now attempt_id operation e target d =
     (let attempt_number =
            int (rowcount (\<lambda>a. at_execution_id a = ex_id e) (db_attempts d)) + 1;
          a = new_attempt ws worker_id now attempt_id attempt_number (rt_id target) e
      in bind_res (require_transition (ex_status e) ES_RUNNING) (\<lambda>_.
           bind_res (insert_attempt a d) (\<lambda>d1.
             let d2 = start_operation operation attempt_id now d1;
                 d3 = set_execution (ex_id e) (\<lambda>r. (claimed_execution ws worker_id now r)
                        \<lparr>ex_runtime_target_id := Some (rt_id target),
                         ex_started_at := Some (opt_or (ex_started_at r) now),
                         ex_retained_runtime_session_until :=
                           (if is_resume e then ex_retained_runtime_session_until r else None)\<rparr>) d2
             in Inr (d3, claim_result d3 (ex_id e) target attempt_id worker_id (ex_fencing_token e + 1)))))"

definition claim_resume ::
    "minter \<Rightarrow> worker_settings \<Rightarrow> string \<Rightarrow> datetime \<Rightarrow> uuid \<Rightarrow> operation_lookup \<Rightarrow> execution_orm \<Rightarrow>
       db \<Rightarrow> worker_error + (db \<times> claimed option)" where
  "claim_resume mint ws worker_id now attempt_id operation e d =
     (if \<not> gt_now (ex_retained_runtime_session_until e) now then Inr (d, None)
      else
        let unavailable = bind_res (fail_unavailable_retained_retry mint e now
              ''The retained Runtime Target is missing or disabled before retry.'' d)
              (\<lambda>d'. Inr (d', None))
        in case scalar (\<lambda>t. Some (rt_id t) = ex_runtime_target_id e) (db_targets d) of
             None \<Rightarrow> unavailable
           | Some t \<Rightarrow>
               if \<not> rt_enabled t \<or> rt_runtime_type t \<noteq> ex_runtime_type e \<or>
                  rt_pool t \<noteq> ex_runtime_pool e \<or>
                  ex_runtime_profile e \<notin> set (rt_supported_profiles t)
               then unavailable
               else if rt_status t = TS_OFFLINE then Inr (d, None)
               else claim_on_target ws worker_id now attempt_id operation e t d)"

definition claim ::
    "minter \<Rightarrow> worker_settings \<Rightarrow> string \<Rightarrow> datetime \<Rightarrow> datetime \<times> db \<Rightarrow> bool \<Rightarrow> uuid \<Rightarrow> uuid \<Rightarrow>
       db \<Rightarrow> worker_error + (db \<times> claimed option)" where
  "claim mint ws worker_id now unlocked locked_elsewhere attempt_id execution_id d =
     (case (if locked_elsewhere then None else execution_row d execution_id) of
        None \<Rightarrow> Inr (d, None)
      | Some e \<Rightarrow>
          if ex_status e \<notin> {ES_QUEUED, ES_FINALIZING} then Inr (d, None)
          else if ex_runtime_session_id e = None \<and> \<not> admission_is_active d then Inr (d, None)
          else
            let operation = claimable_operation e d in
            if operation = NotClaimable then Inr (d, None)
            else
              (case (ex_operation_mode e, ex_runtime_session_id e, ex_runtime_target_id e) of
                 (OM_MULTI, Some _, Some target_id) \<Rightarrow>
                   claim_waiting ws worker_id now operation e target_id d
               | _ \<Rightarrow>
                   if is_resume e
                   then claim_resume mint ws worker_id now attempt_id operation e d
                   else (case select_target ws (fst unlocked) (snd unlocked) now d e of
                           None \<Rightarrow> Inr (d, None)
                         | Some target \<Rightarrow>
                             claim_on_target ws worker_id now attempt_id operation e target d)))"

subsection \<open>Taking over a running Step\<close>

definition claim_handover ::
    "worker_settings \<Rightarrow> string \<Rightarrow> datetime \<Rightarrow> bool \<Rightarrow> uuid \<Rightarrow> db \<Rightarrow>
       worker_error + (db \<times> (claimed \<times> step_handover) option)" where
  "claim_handover ws worker_id now locked_elsewhere execution_id d =
     (case (if locked_elsewhere then None else execution_row d execution_id) of
        None \<Rightarrow> Inr (d, None)
      | Some e \<Rightarrow>
          if ex_status e \<noteq> ES_RUNNING \<or>
             ex_lease_owner e \<noteq> None \<and> gt_now (ex_lease_expires_at e) now
          then Inr (d, None)
          else
            (case scalar (\<lambda>h. ho_execution_id h = execution_id) (db_handovers d) of
               None \<Rightarrow> Inr (d, None)
             | Some released \<Rightarrow>
                 let d1 = delete_handover execution_id d in
                 (case (scalar (\<lambda>a. at_execution_id a = execution_id \<and> at_status a = AS_RUNNING)
                          (db_attempts d),
                        Option.bind (ex_runtime_target_id e)
                          (\<lambda>i. scalar (\<lambda>t. rt_id t = i) (db_targets d))) of
                    (Some a, Some t) \<Rightarrow>
                      let lease_expires = now + seconds (ws_execution_lease_seconds ws);
                          fencing_token = ex_fencing_token e + 1;
                          d2 = set_execution execution_id (\<lambda>e. e\<lparr>ex_lease_owner := Some worker_id,
                                 ex_lease_expires_at := Some lease_expires,
                                 ex_heartbeat_at := Some now, ex_fencing_token := fencing_token,
                                 ex_updated_at := now, ex_version := ex_version e + 1\<rparr>) d1;
                          d3 = set_attempt (at_id a) (\<lambda>a. a\<lparr>at_lease_owner := Some worker_id,
                                 at_lease_expires_at := Some lease_expires, at_heartbeat_at := now,
                                 at_fencing_token := fencing_token\<rparr>) d2
                      in Inr (d3, map_option (\<lambda>c. (c, \<lparr>sh_reason = ho_reason released,
                                   sh_paused_since = ho_paused_since released\<rparr>))
                                (claim_result d3 execution_id t (at_id a) worker_id fencing_token))
                  | _ \<Rightarrow> Inr (d1, None))))"

subsection \<open>Giving a retained retry back\<close>

definition defer_retained_retry ::
    "datetime \<Rightarrow> execution_lease \<Rightarrow> uuid \<Rightarrow> string \<Rightarrow> db \<Rightarrow> worker_error + (db \<times> unit)" where
  "defer_retained_retry now lease target_id diagnostic d =
     bind_res (require_active_lease now lease [ES_RUNNING] d) (\<lambda>(e, a).
       if ex_retry_strategy e \<noteq> RS_FROM_FAILED_STEP then Inr (d, ())
       else bind_res (require_transition (ex_status e) ES_QUEUED) (\<lambda>_.
         let message = ''The retained Runtime Target is temporarily unavailable; waiting for recovery.'';
             d1 = set_execution (ex_id e) (\<lambda>e. e\<lparr>ex_status := ES_QUEUED,
                    ex_error_message := Some message,
                    ex_failure_type := Some FT_RUNTIME_UNAVAILABLE, ex_lease_owner := None,
                    ex_lease_expires_at := None, ex_heartbeat_at := None, ex_updated_at := now,
                    ex_version := ex_version e + 1\<rparr>) d;
             d2 = set_attempt (at_id a) (\<lambda>a. a\<lparr>at_status := AS_FAILED, at_lease_owner := None,
                    at_lease_expires_at := None, at_error_message := Some message,
                    at_failure_type := Some FT_RUNTIME_UNAVAILABLE,
                    at_retry_strategy := RS_FROM_FAILED_STEP,
                    at_runtime_session_cleanup_status := RC_NOT_REQUIRED,
                    at_finished_at := Some now\<rparr>) d1;
             d3 = (case ex_active_operation_id e of
                     None \<Rightarrow> d2
                   | Some q \<Rightarrow> set_operations (\<lambda>p. op_id p = q \<and> op_status p = OS_RUNNING)
                       (\<lambda>p. p\<lparr>op_status := OS_QUEUED, op_execution_attempt_id := None,
                             op_error_message := None, op_started_at := None,
                             op_finished_at := None, op_updated_at := now\<rparr>) d2);
             d4 = set_target target_id (\<lambda>t. t\<lparr>rt_status := TS_OFFLINE,
                    rt_last_health_check_at := Some now,
                    rt_last_health_error := Some (take 500 diagnostic), rt_updated_at := now\<rparr>) d3
         in Inr (d4, ())))"

subsection \<open>Every claim is a worker transaction\<close>

lemma insert_attempt_Inr:
  "insert_attempt a d = Inr d' \<longleftrightarrow>
     at_id a \<notin> at_id ` set (db_attempts d) \<and>
     (at_execution_id a, at_attempt_number a) \<notin>
       (\<lambda>x. (at_execution_id x, at_attempt_number x)) ` set (db_attempts d) \<and>
     0 < at_attempt_number a \<and> 0 \<le> at_fencing_token a \<and>
     d' = d\<lparr>db_attempts := db_attempts d @ [a]\<rparr>"
  by (auto simp: insert_attempt_def)

lemma quiet_insert_attempt [quiet]: "insert_attempt a d = Inr d' \<Longrightarrow> quiet_step d d'"
  by (simp add: insert_attempt_Inr quiet_update)

lemma quiet_start_operation [quiet]: "quiet_step d (start_operation q i now d)"
  by (cases q) (simp_all add: quiet_set_operations)

lemma execution_row_set_other:
  "execution_row (start_operation q i now d) j = execution_row d j"
  by (cases q) simp_all

lemma quiet_fail_active_operation [quiet]:
  "fail_active_operation_without_attempt mint e now m ft d = Inr d' \<Longrightarrow> quiet_step d d'"
  unfolding fail_active_operation_without_attempt_def
  by (auto split: option.splits elim!: operation_completed.emit_after intro!: quiet_set_operations)

lemma claim_cancellation_step:
  assumes "claim_cancellation ws w now l i d = Inr (d', r)"
  shows "worker_step i d d'"
proof (cases "\<exists>e. execution_row d i = Some e \<and> d' \<noteq> d")
  case False
  then show ?thesis
    using assms by (auto simp: claim_cancellation_def Let_def split: option.splits if_splits)
next
  case True
  then obtain e where e: "execution_row d i = Some e" and ne: "d' \<noteq> d" by blast
  let ?f = "\<lambda>e. e\<lparr>ex_cancellation_lease_owner := Some w,
      ex_cancellation_lease_expires_at := Some (now + seconds (ws_execution_lease_seconds ws)),
      ex_updated_at := now\<rparr> :: execution_orm"
  let ?g = "\<lambda>e. e\<lparr>ex_fencing_token := ex_fencing_token e + 1, ex_lease_owner := None,
      ex_lease_expires_at := None, ex_heartbeat_at := None\<rparr> :: execution_orm"
  from assms e ne consider "d' = set_execution i ?f d"
    | "d' = set_execution i (?f \<circ> ?g) (delete_handover i d)"
    unfolding claim_cancellation_def Let_def by (simp split: if_split_asm)
  then show ?thesis
  proof cases
    case 1
    show ?thesis unfolding 1
      by (rule worker_step_set_execution [OF e]) (simp_all add: exec_step_def execution_keys_kept_def)
  next
    case 2
    have "worker_step i (delete_handover i d) d'" unfolding 2
      by (rule worker_step_set_execution [of _ _ e])
        (simp_all add: e exec_step_def execution_keys_kept_def)
    then show ?thesis by (rule quiet_then_worker_step [OF quiet_set_rows(4)])
  qed
qed

interpretation claim_cancellation: worker_transaction "claim_cancellation ws w now l i" i
  by unfold_locales (rule claim_cancellation_step)

lemma claimed_execution_step:
  "allowed_transition (ex_status e) ES_RUNNING \<Longrightarrow> exec_step e (claimed_execution ws w now e)"
  by (simp add: exec_step_def claimed_execution_def)

lemma claimed_execution_keys: "execution_keys_kept (claimed_execution ws w now)"
  by (simp add: execution_keys_kept_def claimed_execution_def)

lemma claim_waiting_step:
  assumes e: "execution_row d i = Some e" and run: "claim_waiting ws w now q e t d = Inr (d', r)"
  shows "worker_step i d d'"
proof (cases "d' = d")
  case False
  then obtain a :: attempt_orm where ok: "allowed_transition (ex_status e) ES_RUNNING"
    and d': "d' = start_operation q (at_id a) now (set_execution (ex_id e) (claimed_execution ws w now)
      (set_attempt (at_id a) (resume_waiting_attempt ws w now (ex_fencing_token e + 1)) d))"
    using run unfolding claim_waiting_def Let_def
    by (auto split: option.splits if_splits)
  have i: "ex_id e = i" using execution_row_SomeD [OF e] by simp
  have "worker_step i (set_attempt (at_id a) (resume_waiting_attempt ws w now (ex_fencing_token e + 1)) d)
      (set_execution i (claimed_execution ws w now)
        (set_attempt (at_id a) (resume_waiting_attempt ws w now (ex_fencing_token e + 1)) d))"
    by (rule worker_step_set_execution [of _ _ e])
      (simp_all add: e claimed_execution_step [OF ok] claimed_execution_keys)
  then show ?thesis unfolding d' i
    by (rule worker_step_then_quiet [OF quiet_then_worker_step [OF quiet_set_rows(1)] quiet_start_operation])
qed simp

lemma fail_unavailable_step:
  assumes e: "execution_row d i = Some e" and run: "fail_unavailable_retained_retry mint e now m d = Inr d'"
  shows "worker_step i d d'"
proof -
  let ?f = "\<lambda>e. e\<lparr>ex_status := ES_FAILED, ex_error_message := Some m,
      ex_failure_type := Some FT_RUNTIME_UNAVAILABLE, ex_finished_at := Some now,
      ex_updated_at := now, ex_lease_owner := None, ex_lease_expires_at := None,
      ex_heartbeat_at := None, ex_retry_strategy := RS_FROM_START,
      ex_retry_from_sequence := Some 0, ex_retained_runtime_session_until := None,
      ex_runtime_session_cleanup_status := RC_FAILED, ex_version := ex_version e + 1\<rparr> :: execution_orm"
  let ?d1 = "set_execution (ex_id e) ?f d"
  let ?d2 = "set_steps (\<lambda>s. st_execution_id s = ex_id e \<and> st_status s = SS_PENDING)
      (\<lambda>s. s\<lparr>st_status := SS_SKIPPED, st_finished_at := Some now, st_updated_at := now\<rparr>) ?d1"
  from run obtain d3 where ok: "allowed_transition (ex_status e) ES_FAILED"
    and d3: "fail_active_operation_without_attempt mint e now m None ?d2 = Inr d3"
    and ev: "add_execution_completed_event mint now (ex_id e) d3 = Inr d'"
    unfolding fail_unavailable_retained_retry_def Let_def
    by (simp add: bind_res_eq_Inr split: if_split_asm) blast
  have i: "ex_id e = i" using execution_row_SomeD [OF e] by simp
  have "worker_step i d ?d1" unfolding i
    by (rule worker_step_set_execution [OF e]) (use ok in \<open>simp_all add: exec_step_def execution_keys_kept_def\<close>)
  moreover have "quiet_step ?d1 ?d2" by (rule quiet_set_steps) simp_all
  ultimately have "worker_step i d d3"
    using quiet_fail_active_operation [OF d3] by (meson worker_step_then_quiet)
  then show ?thesis by (rule execution_completed.emit_after_step [OF ev])
qed

text \<open>The Execution row after a claim of a new Attempt.\<close>

definition started_execution ::
    "worker_settings \<Rightarrow> string \<Rightarrow> datetime \<Rightarrow> bool \<Rightarrow> uuid \<Rightarrow> execution_orm \<Rightarrow> execution_orm" where
  "started_execution ws w now resume target r = (claimed_execution ws w now r)
     \<lparr>ex_runtime_target_id := Some target, ex_started_at := Some (opt_or (ex_started_at r) now),
      ex_retained_runtime_session_until := (if resume then ex_retained_runtime_session_until r else None)\<rparr>"

lemma claim_on_targetD:
  assumes "claim_on_target ws w now ai q e t d = Inr (d', r)"
  obtains d1 a where "allowed_transition (ex_status e) ES_RUNNING"
    and "a = new_attempt ws w now ai (int (rowcount (\<lambda>a. at_execution_id a = ex_id e) (db_attempts d)) + 1) (rt_id t) e"
    and "insert_attempt a d = Inr d1"
    and "d' = set_execution (ex_id e) (started_execution ws w now (is_resume e) (rt_id t))
      (start_operation q ai now d1)"
    and "r = claim_result d' (ex_id e) t ai w (ex_fencing_token e + 1)"
  using assms unfolding claim_on_target_def Let_def started_execution_def [abs_def]
  by (simp add: bind_res_eq_Inr split: if_split_asm) blast

lemma claim_on_target_step:
  assumes e: "execution_row d i = Some e" and run: "claim_on_target ws w now ai q e t d = Inr (d', r)"
  shows "worker_step i d d'"
proof -
  from run obtain d1 a where ok: "allowed_transition (ex_status e) ES_RUNNING"
    and ins: "insert_attempt a d = Inr d1"
    and d': "d' = set_execution (ex_id e) (started_execution ws w now (is_resume e) (rt_id t))
      (start_operation q ai now d1)" by (rule claim_on_targetD)
  have q: "quiet_step d (start_operation q ai now d1)"
    using quiet_insert_attempt [OF ins] quiet_start_operation by (rule quiet_step_trans)
  then have row: "execution_row (start_operation q ai now d1) i = Some e"
    using e by (simp add: quiet_step_def)
  have i: "ex_id e = i" using execution_row_SomeD [OF e] by simp
  have "worker_step i (start_operation q ai now d1) d'" unfolding d' i
    by (rule worker_step_set_execution [OF row])
      (use ok in \<open>simp_all add: started_execution_def claimed_execution_def exec_step_def execution_keys_kept_def\<close>)
  then show ?thesis by (rule quiet_then_worker_step [OF q])
qed

lemma claim_resume_step:
  assumes e: "execution_row d i = Some e" and run: "claim_resume mint ws w now ai q e d = Inr (d', r)"
  shows "worker_step i d d'"
  using run fail_unavailable_step [OF e] claim_on_target_step [OF e]
  by (auto simp: claim_resume_def Let_def bind_res_eq_Inr split: if_splits option.splits)

lemma claim_step:
  assumes "claim mint ws w now u l ai i d = Inr (d', r)"
  shows "worker_step i d d'"
proof (cases "execution_row d i")
  case None
  then show ?thesis using assms by (cases l) (simp_all add: claim_def)
next
  case (Some e)
  note steps = claim_resume_step [OF Some] claim_on_target_step [OF Some] claim_waiting_step [OF Some]
  show ?thesis
    using assms Some unfolding claim_def Let_def
    by (cases l) (auto split: if_splits option.splits operation_mode.splits intro: steps)
qed

interpretation claim: worker_transaction "claim mint ws w now u l ai i" i
  by unfold_locales (rule claim_step)

lemma claim_handoverD:
  assumes "claim_handover ws w now l i d = Inr (d', r)" and "d' \<noteq> d"
  obtains "r = None" and "d' = delete_handover i d"
  | e a t h where "execution_row d i = Some e" and "ex_status e = ES_RUNNING"
    and "a \<in> set (db_attempts d)" and "at_execution_id a = i" and "at_status a = AS_RUNNING"
    and "d' = set_attempt (at_id a) (\<lambda>a. a\<lparr>at_lease_owner := Some w,
        at_lease_expires_at := Some (now + seconds (ws_execution_lease_seconds ws)),
        at_heartbeat_at := now, at_fencing_token := ex_fencing_token e + 1\<rparr>)
      (set_execution i (\<lambda>r. r\<lparr>ex_lease_owner := Some w,
        ex_lease_expires_at := Some (now + seconds (ws_execution_lease_seconds ws)),
        ex_heartbeat_at := Some now, ex_fencing_token := ex_fencing_token e + 1,
        ex_updated_at := now, ex_version := ex_version r + 1\<rparr>) (delete_handover i d))"
    and "r = map_option (\<lambda>c. (c, h)) (claim_result d' i t (at_id a) w (ex_fencing_token e + 1))"
proof -
  from assms obtain e released where e: "execution_row d i = Some e" "ex_status e = ES_RUNNING"
    and rel: "scalar (\<lambda>h. ho_execution_id h = i) (db_handovers d) = Some released" and l: "\<not> l"
    by (auto simp: claim_handover_def split: option.splits if_splits)
  show ?thesis
  proof (cases "\<exists>a t. scalar (\<lambda>a. at_execution_id a = i \<and> at_status a = AS_RUNNING) (db_attempts d) = Some a \<and>
      Option.bind (ex_runtime_target_id e) (\<lambda>i. scalar (\<lambda>t. rt_id t = i) (db_targets d)) = Some t")
    case True
    then obtain a t where a: "scalar (\<lambda>a. at_execution_id a = i \<and> at_status a = AS_RUNNING) (db_attempts d) = Some a"
      and t: "Option.bind (ex_runtime_target_id e) (\<lambda>i. scalar (\<lambda>t. rt_id t = i) (db_targets d)) = Some t"
      by blast
    show ?thesis
      by (rule that(2) [of e a "\<lparr>sh_reason = ho_reason released, sh_paused_since = ho_paused_since released\<rparr>" t])
        (use scalar_SomeD [OF a] assms e rel l a t in
          \<open>auto simp: claim_handover_def Let_def split: if_split_asm\<close>)
  next
    case False
    show ?thesis
      by (rule that(1)) (use assms e rel l False in
        \<open>auto simp: claim_handover_def Let_def split: if_split_asm option.splits\<close>)
  qed
qed

lemma claim_handover_step:
  assumes "claim_handover ws w now l i d = Inr (d', r)"
  shows "worker_step i d d'"
proof (cases "d' = d")
  case False
  from assms False show ?thesis
  proof (cases rule: claim_handoverD)
    case 1
    then show ?thesis by (simp add: worker_step_quiet quiet_set_rows)
  next
    case (2 e a t h)
    let ?f = "\<lambda>r. r\<lparr>ex_lease_owner := Some w,
        ex_lease_expires_at := Some (now + seconds (ws_execution_lease_seconds ws)),
        ex_heartbeat_at := Some now, ex_fencing_token := ex_fencing_token e + 1,
        ex_updated_at := now, ex_version := ex_version r + 1\<rparr> :: execution_orm"
    have "worker_step i (delete_handover i d) (set_execution i ?f (delete_handover i d))"
      by (rule worker_step_set_execution [of _ _ e])
        (simp_all add: 2(1) exec_step_def execution_keys_kept_def)
    then show ?thesis unfolding 2(6)
      by (rule worker_step_then_quiet [OF quiet_then_worker_step [OF quiet_set_rows(4)] quiet_set_rows(1)])
  qed
qed simp

interpretation claim_handover: worker_transaction "claim_handover ws w now l i" i
  by unfold_locales (rule claim_handover_step)

interpretation defer_retry: worker_transaction "defer_retained_retry now lease t m" "le_execution_id lease"
proof
  fix d d' r
  assume wf: "db_wf d" and run: "defer_retained_retry now lease t m d = Inr (d', r)"
  show "worker_step (le_execution_id lease) d d'"
  proof (cases "d' = d")
    case False
    let ?msg = "''The retained Runtime Target is temporarily unavailable; waiting for recovery.''"
    let ?f = "\<lambda>e. e\<lparr>ex_status := ES_QUEUED, ex_error_message := Some ?msg,
        ex_failure_type := Some FT_RUNTIME_UNAVAILABLE, ex_lease_owner := None,
        ex_lease_expires_at := None, ex_heartbeat_at := None, ex_updated_at := now,
        ex_version := ex_version e + 1\<rparr> :: execution_orm"
    from run False obtain e a g h k where act: "require_active_lease now lease [ES_RUNNING] d = Inr (e, a)"
      and ok: "allowed_transition (ex_status e) ES_QUEUED"
      and d': "d' = set_target t k (case ex_active_operation_id e of
          None \<Rightarrow> set_attempt (at_id a) g (set_execution (ex_id e) ?f d)
        | Some q \<Rightarrow> set_operations (\<lambda>p. op_id p = q \<and> op_status p = OS_RUNNING)
            (\<lambda>p. p\<lparr>op_status := OS_QUEUED, op_execution_attempt_id := None, op_error_message := None,
              op_started_at := None, op_finished_at := None, op_updated_at := now\<rparr>)
            (set_attempt (at_id a) g (set_execution (ex_id e) ?f d)))"
      unfolding defer_retained_retry_def bind_res_eq_Inr Let_def
      by (auto split: if_split_asm)
    from require_active_leaseD [OF wf act] have e: "execution_row d (le_execution_id lease) = Some e"
      and i: "ex_id e = le_execution_id lease" by (simp_all add: lease_row_active_def)
    have "worker_step (le_execution_id lease) d (set_execution (ex_id e) ?f d)" unfolding i
      by (rule worker_step_set_execution [OF e]) (use ok in \<open>simp_all add: exec_step_def execution_keys_kept_def\<close>)
    moreover have "quiet_step (set_execution (ex_id e) ?f d) d'" unfolding d'
      by (intro quiet_step_trans [OF _ quiet_set_rows(3)], cases "ex_active_operation_id e")
        (simp_all add: quiet_set_rows quiet_step_trans [OF quiet_set_rows(1) quiet_set_operations])
    ultimately show ?thesis by (rule worker_step_then_quiet)
  qed simp
qed

end
