(* ===== verification/Run_Completion.thy ===== *)
theory Run_Completion
  imports Handover Target_Selector
begin

text \<open>
  How a worker ends what it claimed: \<open>failure_policy.py\<close>, \<open>completion_policy.py\<close>,
  \<open>multi_operation_state.py\<close> and the transactions of \<open>run_finalizer.py\<close>. All of them are
  fenced: they first validate the worker's lease.

  The exceptions a run can end with are the classes \<open>failure_policy\<close> distinguishes. What the
  Runtime driver answered to an abort is an argument; the two transactions around the call are
  \<open>record_runtime_abort\<close>.
\<close>

subsection \<open>Failure policy\<close>

datatype run_exception =
    StoredStepFailure run_exception
  | CompletionError string
  | SessionLostError
  | ExecutionTimeoutError string
  | OutputLimitExceededError
  | CodeExecutionError
  | DriverError
  | OtherError

fun failure_policy :: "run_exception \<Rightarrow> bool \<Rightarrow> failure_type \<times> retry_strategy" where
  "failure_policy (StoredStepFailure original) retain_session = failure_policy original retain_session"
| "failure_policy (CompletionError phase) retain_session = (FT_COMPLETION_FAILED, RS_NOT_RETRYABLE)"
| "failure_policy SessionLostError retain_session = (FT_RUNTIME_SESSION_LOST, RS_FROM_START)"
| "failure_policy (ExecutionTimeoutError scope) retain_session =
     (if scope = ''Step'' then FT_STEP_TIMEOUT else FT_OPERATION_TIMEOUT,
      if retain_session then RS_FROM_FAILED_STEP else RS_FROM_START)"
| "failure_policy OutputLimitExceededError retain_session =
     (FT_OUTPUT_LIMIT_EXCEEDED, if retain_session then RS_FROM_FAILED_STEP else RS_FROM_START)"
| "failure_policy CodeExecutionError retain_session =
     (FT_TOOL_ERROR, if retain_session then RS_FROM_FAILED_STEP else RS_FROM_START)"
| "failure_policy DriverError retain_session = (FT_RUNTIME_UNAVAILABLE, RS_FROM_START)"
| "failure_policy OtherError retain_session = (FT_INTERNAL_ERROR, RS_NOT_RETRYABLE)"

subsection \<open>Completion checks\<close>

fun int_truthy :: "int option \<Rightarrow> bool" where
  "int_truthy None = False"
| "int_truthy (Some n) = (n \<noteq> 0)"

definition step_result_incomplete :: "step_orm \<Rightarrow> bool" where
  "step_result_incomplete s \<longleftrightarrow>
     st_status s \<noteq> SS_SUCCEEDED \<or> st_result_complete s \<noteq> Some True \<or>
     \<not> str_truthy (st_result_manifest_path s) \<or> \<not> str_truthy (st_result_manifest_checksum_sha256 s) \<or>
     \<not> int_truthy (st_result_manifest_size_bytes s) \<or> st_result_execution_attempt_id s = None \<or>
     st_result_fencing_token s = None"

definition notebook_available :: "db \<Rightarrow> execution_orm \<Rightarrow> bool" where
  "notebook_available d e \<longleftrightarrow>
     (\<exists>r\<in>set (db_artifacts d). ar_execution_id r = ex_id e \<and> ar_artifact_type r = AT_NOTEBOOK \<and>
        ar_status r = AR_AVAILABLE \<and> ar_relative_path r = ex_notebook_path e)"

definition require_completed_results ::
    "db \<Rightarrow> execution_orm \<Rightarrow> uuid option \<Rightarrow> bool \<Rightarrow> bool \<Rightarrow> worker_error + unit" where
  "require_completed_results d e operation_id finalizing require_notebook_artifact =
     (case Option.bind operation_id (operation_row d) of
        None \<Rightarrow> Inl (ExecutionCompletionError ''OPERATION_COMPLETION_CHECK'')
      | Some q \<Rightarrow>
          bind_res (raise_if (op_execution_id q \<noteq> ex_id e \<or>
              op_status q \<notin> {OS_RUNNING, OS_SUCCEEDED} \<or> finalizing \<and> op_status q \<noteq> OS_SUCCEEDED)
            (ExecutionCompletionError ''OPERATION_COMPLETION_CHECK'')) (\<lambda>_.
          let steps = operation_steps d (op_id q) in
          bind_res (raise_if (steps = [] \<or> (\<exists>s\<in>set steps. step_result_incomplete s))
            (ExecutionCompletionError ''RESULT_COMPLETION_CHECK'')) (\<lambda>_.
          bind_res (raise_if (ex_notebook_projection_status e \<noteq> NP_SUCCEEDED)
            (ExecutionCompletionError ''NOTEBOOK_COMPLETION_CHECK'')) (\<lambda>_.
          raise_if (require_notebook_artifact \<and> \<not> notebook_available d e)
            (ExecutionCompletionError ''NOTEBOOK_ARTIFACT_CHECK'')))))"

subsection \<open>MULTI Operations\<close>

definition wait_deadline :: "datetime \<Rightarrow> int \<Rightarrow> execution_orm \<Rightarrow> datetime" where
  "wait_deadline now timeout e =
     min (now + seconds timeout) (opt_or (ex_execution_expires_at e) (now + seconds timeout))"

definition complete_operation ::
    "minter \<Rightarrow> datetime \<Rightarrow> execution_lease \<Rightarrow> uuid \<Rightarrow> operation_status \<Rightarrow> string option \<Rightarrow>
       failure_type option \<Rightarrow> db \<Rightarrow> worker_error + (db \<times> unit)" where
  "complete_operation mint now lease operation_id operation_status error_message failure_type d =
     bind_res (require_active_lease now lease [ES_RUNNING] d) (\<lambda>(e, a).
     case scalar (\<lambda>q. op_id q = operation_id \<and> op_execution_id q = le_execution_id lease) (db_operations d) of
       None \<Rightarrow> Inr (d, ())
     | Some q \<Rightarrow>
         if op_status q \<noteq> OS_RUNNING then Inr (d, ())
         else
           bind_res (if operation_status = OS_SUCCEEDED
                     then require_completed_results d e (Some operation_id) False False else Inr ()) (\<lambda>_.
           bind_res (require_transition (ex_status e) ES_WAITING_FOR_OPERATION) (\<lambda>_.
           case ex_operation_wait_timeout_seconds e of
             None \<Rightarrow> Inl WorkerValueError
           | Some timeout \<Rightarrow>
               let d1 = set_execution (ex_id e) (\<lambda>e. e\<lparr>ex_status := ES_WAITING_FOR_OPERATION,
                          ex_lease_owner := None, ex_lease_expires_at := None, ex_updated_at := now,
                          ex_finalization_requested := False,
                          ex_operation_wait_expires_at := Some (wait_deadline now timeout e),
                          ex_version := ex_version e + 1\<rparr>) d;
                   d2 = set_operations (\<lambda>q. op_id q = operation_id) (\<lambda>q. q\<lparr>op_status := operation_status,
                          op_error_message :=
                            (if str_truthy error_message then map_option (take 2000) error_message else None),
                          op_failure_type :=
                            (if operation_status = OS_SUCCEEDED then None
                             else Some (opt_or failure_type FT_TOOL_ERROR)),
                          op_finished_at := Some now, op_updated_at := now\<rparr>) d1;
                   d3 = set_attempt (at_id a) (\<lambda>a. a\<lparr>at_status := AS_WAITING, at_lease_owner := None,
                          at_lease_expires_at := None\<rparr>) d2
               in bind_res (add_operation_completed_event mint now (le_execution_id lease) operation_id d3)
                    (\<lambda>d4. Inr (d4, ())))))"

definition skip_steps_after ::
    "datetime \<Rightarrow> execution_lease \<Rightarrow> uuid \<Rightarrow> int \<Rightarrow> db \<Rightarrow> worker_error + (db \<times> unit)" where
  "skip_steps_after now lease operation_id failed_sequence d =
     bind_res (require_active_lease now lease [ES_RUNNING] d) (\<lambda>_.
       Inr (set_steps (\<lambda>s. st_execution_id s = le_execution_id lease \<and>
              st_operation_id s = Some operation_id \<and> failed_sequence < st_sequence s \<and>
              st_status s = SS_PENDING)
             (\<lambda>s. s\<lparr>st_status := SS_SKIPPED, st_finished_at := Some now, st_updated_at := now\<rparr>) d, ()))"

subsection \<open>Aborting and releasing\<close>

record runtime_abort_resolution =
  ar_abort_status :: runtime_abort_status
  ar_cleanup_status :: runtime_session_cleanup_status
  ar_retry_strategy :: retry_strategy
  ar_retain_session :: bool

text \<open>
  \<open>aborted\<close> is the driver's answer to the abort (\<open>None\<close> when the call raised), \<open>deleted\<close>
  whether the following deletion of the session succeeded.
\<close>

definition abort_resolution :: "runtime_abort_status option \<Rightarrow> bool \<Rightarrow> runtime_abort_resolution" where
  "abort_resolution aborted deleted =
     (case opt_or aborted RA_FAILED of
        RA_IDLE_CONFIRMED \<Rightarrow>
          \<lparr>ar_abort_status = RA_IDLE_CONFIRMED, ar_cleanup_status = RC_NOT_REQUIRED,
           ar_retry_strategy = RS_FROM_FAILED_STEP, ar_retain_session = True\<rparr>
      | RA_SESSION_MISSING \<Rightarrow>
          \<lparr>ar_abort_status = RA_SESSION_MISSING, ar_cleanup_status = RC_SUCCEEDED,
           ar_retry_strategy = RS_FROM_START, ar_retain_session = False\<rparr>
      | _ \<Rightarrow>
          if deleted
          then \<lparr>ar_abort_status = RA_SESSION_DELETED, ar_cleanup_status = RC_SUCCEEDED,
                ar_retry_strategy = RS_FROM_START, ar_retain_session = False\<rparr>
          else \<lparr>ar_abort_status = RA_FAILED, ar_cleanup_status = RC_FAILED,
                ar_retry_strategy = RS_FROM_START, ar_retain_session = False\<rparr>)"

definition record_runtime_abort ::
    "datetime \<Rightarrow> execution_lease \<Rightarrow> runtime_abort_status \<Rightarrow> runtime_session_cleanup_status \<Rightarrow>
       failure_type \<Rightarrow> db \<Rightarrow> worker_error + (db \<times> unit)" where
  "record_runtime_abort now lease abort_status cleanup_status failure_type d =
     bind_res (require_active_lease now lease [ES_RUNNING] d) (\<lambda>(e, a).
       let d1 = set_execution (ex_id e) (\<lambda>e. e\<lparr>ex_runtime_abort_status := abort_status,
                  ex_runtime_session_cleanup_status := cleanup_status,
                  ex_failure_type := Some failure_type, ex_updated_at := now,
                  ex_version := ex_version e + 1\<rparr>) d
       in Inr (set_attempt (at_id a) (\<lambda>a. a\<lparr>at_runtime_abort_status := abort_status,
                 at_runtime_session_cleanup_status := cleanup_status,
                 at_failure_type := Some failure_type\<rparr>) d1, ()))"

definition release_for_cancellation ::
    "datetime \<Rightarrow> execution_lease \<Rightarrow> db \<Rightarrow> worker_error + (db \<times> unit)" where
  "release_for_cancellation now lease d =
     bind_res (require_active_lease now lease [ES_CANCEL_REQUESTED] d) (\<lambda>(e, a).
       let d1 = set_execution (ex_id e) (\<lambda>e. e\<lparr>ex_lease_owner := None, ex_lease_expires_at := None,
                  ex_heartbeat_at := None, ex_updated_at := now\<rparr>) d
       in Inr (set_attempt (at_id a) (\<lambda>a. a\<lparr>at_lease_owner := None, at_lease_expires_at := None\<rparr>) d1, ()))"

text \<open>\<open>runtime_capabilities(t).execution_journal\<close> of the one Runtime type there is.\<close>

fun execution_journal :: "runtime_type \<Rightarrow> bool" where
  "execution_journal RT_JUPYTER = True"

definition release_for_handover ::
    "minter \<Rightarrow> datetime \<Rightarrow> execution_lease \<Rightarrow> db \<Rightarrow> worker_error + (db \<times> bool)" where
  "release_for_handover mint now lease d =
     (case require_active_lease now lease [ES_RUNNING] d of
        Inl ExecutionLeaseLostError \<Rightarrow> Inr (d, True)
      | Inl err \<Rightarrow> Inl err
      | Inr (e, a) \<Rightarrow>
          (case running_step_attempt d (le_execution_id lease) of
             None \<Rightarrow> Inr (d, False)
           | Some h \<Rightarrow>
               if sa_execution_attempt_id h \<noteq> le_attempt_id lease \<or>
                  \<not> execution_journal (ex_runtime_type e) \<or> ex_runtime_session_id e = None \<or>
                  ex_runtime_abort_status e = RA_PENDING
               then Inr (d, False)
               else bind_res (begin_handover mint e a h HR_EXECUTOR_SHUTDOWN now now d)
                      (\<lambda>d'. Inr (d', True))))"

definition cancellation_owns_terminal :: "uuid \<Rightarrow> db \<Rightarrow> bool" where
  "cancellation_owns_terminal execution_id d =
     (case execution_row d execution_id of
        None \<Rightarrow> False
      | Some e \<Rightarrow> ex_status e \<in> {ES_CANCEL_REQUESTED, ES_CANCELLED})"

subsection \<open>The terminal transition of a run\<close>

record finalize_request =
  fr_status :: execution_status
  fr_error_message :: "string option"
  fr_retain_session :: bool
  fr_retry_from_sequence :: "int option"
  fr_failure_type :: "failure_type option"
  fr_retry_strategy :: retry_strategy
  fr_cleanup_status :: runtime_session_cleanup_status

definition effective_cleanup :: "execution_orm \<Rightarrow> finalize_request \<Rightarrow> runtime_session_cleanup_status" where
  "effective_cleanup e r =
     (if ex_runtime_abort_status e = RA_PENDING \<and> fr_cleanup_status r = RC_NOT_REQUIRED then RC_FAILED
      else fr_cleanup_status r)"

definition effective_retry_strategy :: "finalize_request \<Rightarrow> retry_strategy" where
  "effective_retry_strategy r = (if fr_status r = ES_FAILED then fr_retry_strategy r else RS_NOT_RETRYABLE)"

definition effective_failure_type :: "finalize_request \<Rightarrow> failure_type option" where
  "effective_failure_type r = (if fr_status r = ES_FAILED then fr_failure_type r else None)"

definition failed_message :: "finalize_request \<Rightarrow> string option" where
  "failed_message r = (if fr_status r = ES_FAILED then fr_error_message r else None)"

definition resolved_abort ::
    "runtime_session_cleanup_status \<Rightarrow> runtime_abort_status \<Rightarrow> runtime_abort_status" where
  "resolved_abort cleanup abort =
     (if abort = RA_PENDING then (if cleanup = RC_SUCCEEDED then RA_SESSION_DELETED else RA_FAILED)
      else abort)"

definition finalized_execution ::
    "worker_settings \<Rightarrow> datetime \<Rightarrow> finalize_request \<Rightarrow> execution_orm \<Rightarrow> execution_orm" where
  "finalized_execution ws now r e =
     (let cleanup = effective_cleanup e r; strategy = effective_retry_strategy r in
      e\<lparr>ex_status := fr_status r, ex_error_message := failed_message r,
        ex_failure_type := effective_failure_type r, ex_finished_at := Some now,
        ex_updated_at := now, ex_lease_owner := None, ex_lease_expires_at := None,
        ex_operation_wait_expires_at := None, ex_retry_strategy := strategy,
        ex_retry_from_sequence :=
          (case strategy of RS_FROM_FAILED_STEP \<Rightarrow> fr_retry_from_sequence r
           | RS_FROM_START \<Rightarrow> Some 0 | RS_NOT_RETRYABLE \<Rightarrow> None),
        ex_retained_runtime_session_until :=
          (if fr_status r = ES_FAILED \<and> fr_retain_session r
           then Some (now + seconds (ws_failed_session_retention_seconds ws)) else None),
        ex_runtime_session_cleanup_status := cleanup,
        ex_runtime_abort_status := resolved_abort cleanup (ex_runtime_abort_status e),
        ex_runtime_session_id :=
          (if \<not> fr_retain_session r \<and> cleanup = RC_SUCCEEDED then None else ex_runtime_session_id e),
        ex_version := ex_version e + 1\<rparr>)"

definition finalized_attempt ::
    "datetime \<Rightarrow> execution_orm \<Rightarrow> finalize_request \<Rightarrow> attempt_status \<Rightarrow> attempt_orm \<Rightarrow> attempt_orm" where
  "finalized_attempt now e r status a =
     (let cleanup = effective_cleanup e r in
      a\<lparr>at_status := status, at_lease_owner := None, at_lease_expires_at := None,
        at_error_message := failed_message r, at_failure_type := effective_failure_type r,
        at_retry_strategy := effective_retry_strategy r,
        at_runtime_session_cleanup_status := cleanup,
        at_runtime_abort_status :=
          (if ex_runtime_abort_status e = RA_PENDING then resolved_abort cleanup RA_PENDING
           else at_runtime_abort_status a),
        at_finished_at := Some now\<rparr>)"

text \<open>The active Operation ends with the run, unless it ended before.\<close>

definition operation_open :: "uuid \<Rightarrow> operation_orm \<Rightarrow> bool" where
  "operation_open i q \<longleftrightarrow> op_id q = i \<and> op_status q \<in> {OS_QUEUED, OS_RUNNING}"

definition finalize_operation ::
    "datetime \<Rightarrow> execution_lease \<Rightarrow> finalize_request \<Rightarrow> uuid option \<Rightarrow> db \<Rightarrow> db \<times> uuid option" where
  "finalize_operation now lease r active d =
     (case active of
        None \<Rightarrow> (d, None)
      | Some i \<Rightarrow>
          (set_operations (operation_open i) (\<lambda>q. q\<lparr>
              op_status := (if fr_status r = ES_SUCCEEDED then OS_SUCCEEDED else OS_FAILED),
              op_execution_attempt_id := Some (le_attempt_id lease),
              op_error_message := failed_message r, op_finished_at := Some now,
              op_updated_at := now\<rparr>) d,
           if rowcount (operation_open i) (db_operations d) = 1 then Some i else None))"

definition running_steps :: "db \<Rightarrow> uuid \<Rightarrow> uuid list" where
  "running_steps d attempt_id =
     map sa_execution_step_id
       (filter (\<lambda>h. sa_execution_attempt_id h = attempt_id \<and> sa_status h = SS_RUNNING) (db_step_attempts d))"

definition fail_running_steps :: "datetime \<Rightarrow> uuid \<Rightarrow> string option \<Rightarrow> db \<Rightarrow> db" where
  "fail_running_steps now i message d =
     set_steps (\<lambda>s. st_execution_id s = i \<and> st_status s = SS_RUNNING)
       (\<lambda>s. s\<lparr>st_status := SS_FAILED, st_error_message := message, st_finished_at := Some now,
             st_updated_at := now\<rparr>) d"

definition skip_pending_steps :: "datetime \<Rightarrow> uuid \<Rightarrow> db \<Rightarrow> db" where
  "skip_pending_steps now i d =
     set_steps (\<lambda>s. st_execution_id s = i \<and> st_status s = SS_PENDING)
       (\<lambda>s. s\<lparr>st_status := SS_SKIPPED, st_finished_at := Some now, st_updated_at := now\<rparr>) d"

definition step_history_events ::
    "minter \<Rightarrow> datetime \<Rightarrow> uuid \<Rightarrow> (uuid \<times> uuid) list \<Rightarrow> step_status \<Rightarrow> string \<Rightarrow> bool \<Rightarrow> db \<Rightarrow>
       worker_error + db" where
  "step_history_events mint now i pairs status message retryable d =
     foldM_res (\<lambda>d p. add_step_history_completed_event mint now i (fst p) (snd p) status message retryable d)
       d pairs"

definition fail_steps ::
    "minter \<Rightarrow> datetime \<Rightarrow> execution_lease \<Rightarrow> finalize_request \<Rightarrow> uuid list \<Rightarrow> db \<Rightarrow> worker_error + db" where
  "fail_steps mint now lease r running d =
     bind_res (step_history_events mint now (le_execution_id lease)
         (map (\<lambda>s. (s, le_attempt_id lease)) running) SS_FAILED
         (str_or_else (fr_error_message r) ''Step execution failed.'')
         (effective_retry_strategy r \<noteq> RS_NOT_RETRYABLE)
         (fail_running_steps now (le_execution_id lease) (fr_error_message r) d)) (\<lambda>d1.
       Inr (set_step_attempts
         (\<lambda>h. sa_execution_attempt_id h = le_attempt_id lease \<and> sa_status h = SS_RUNNING)
         (\<lambda>h. h\<lparr>sa_status := SS_FAILED, sa_error_message := fr_error_message r, sa_finished_at := Some now\<rparr>)
         (skip_pending_steps now (le_execution_id lease) d1)))"

definition finalize ::
    "minter \<Rightarrow> worker_settings \<Rightarrow> datetime \<Rightarrow> execution_lease \<Rightarrow> finalize_request \<Rightarrow> db \<Rightarrow>
       worker_error + (db \<times> unit)" where
  "finalize mint ws now lease r d =
     bind_res (require_active_lease now lease [ES_RUNNING] d) (\<lambda>(e, a).
     bind_res (if fr_status r = ES_SUCCEEDED
               then require_completed_results d e (ex_active_operation_id e) (ex_finalization_requested e) True
               else Inr ()) (\<lambda>_.
     case attempt_status_of_execution (fr_status r) of
       None \<Rightarrow> Inl WorkerValueError
     | Some attempt_status \<Rightarrow>
         bind_res (require_transition (ex_status e) (fr_status r)) (\<lambda>_.
         let running = running_steps d (le_attempt_id lease);
             d1 = set_execution (ex_id e) (finalized_execution ws now r) d;
             d2 = set_attempt (at_id a) (finalized_attempt now e r attempt_status) d1;
             (d3, completed) = finalize_operation now lease r (ex_active_operation_id e) d2
         in bind_res (if fr_status r = ES_FAILED then fail_steps mint now lease r running d3 else Inr d3) (\<lambda>d4.
            bind_res (case completed of
                        None \<Rightarrow> Inr d4
                      | Some q \<Rightarrow> add_operation_completed_event mint now (le_execution_id lease) q d4) (\<lambda>d5.
            bind_res (add_execution_completed_event mint now (le_execution_id lease) d5)
              (\<lambda>d6. Inr (d6, ())))))))"

subsection \<open>Every ending is a worker transaction\<close>

lemma quiet_fail_running_steps [quiet]: "quiet_step d (fail_running_steps now i m d)"
  unfolding fail_running_steps_def by (rule quiet_set_steps) simp_all

lemma quiet_skip_pending_steps [quiet]: "quiet_step d (skip_pending_steps now i d)"
  unfolding skip_pending_steps_def by (rule quiet_set_steps) simp_all

lemma quiet_step_history_events [quiet]:
  "step_history_events mint now i pairs status m b d = Inr d' \<Longrightarrow> quiet_step d d'"
  unfolding step_history_events_def
  by (erule foldM_res_invariant [where I = "quiet_step d", rotated])
    (auto elim: step_history.emit_after)

lemma step_history_same:
  "step_history_events mint now i pairs status m b d = Inr d' \<Longrightarrow> same_tables d d'"
  unfolding step_history_events_def
  by (erule foldM_res_invariant [where I = "same_tables d", rotated])
    (auto intro: same_tables_trans step_history.emit_same)

lemma quiet_fail_steps [quiet]:
  "fail_steps mint now lease r running d = Inr d' \<Longrightarrow> quiet_step d d'"
  unfolding fail_steps_def bind_res_eq_Inr
  by (auto intro!: quiet_step_trans [OF _ quiet_set_rows(2)] quiet_step_trans [OF _ quiet_skip_pending_steps]
      dest!: quiet_step_history_events intro: quiet_step_trans [OF quiet_fail_running_steps])

lemma quiet_finalize_operation [quiet]:
  "finalize_operation now lease r active d = (d', c) \<Longrightarrow> quiet_step d d'"
  unfolding finalize_operation_def
  by (auto split: option.splits intro!: quiet_set_operations)

text \<open>
  The common shape of the fenced transactions: validate the lease, change the Execution row once,
  then only change other tables.
\<close>

lemma fenced_step:
  assumes wf: "db_wf d" and act: "require_active_lease now lease allowed d = Inr (e, a)"
    and step: "exec_step e (f e)" and keys: "execution_keys_kept f"
    and rest: "quiet_step (set_execution (ex_id e) f d) d'"
  shows "worker_step (le_execution_id lease) d d'"
proof -
  from require_active_leaseD [OF wf act] have e: "execution_row d (le_execution_id lease) = Some e"
    and i: "ex_id e = le_execution_id lease" by (simp_all add: lease_row_active_def)
  show ?thesis
    using worker_step_then_quiet [OF worker_step_set_execution [OF e step keys]] rest unfolding i .
qed

lemma fenced_step_attempt:
  assumes "db_wf d" and "require_active_lease now lease allowed d = Inr (e, a)"
    and "exec_step e (f e)" and "execution_keys_kept f"
  shows "worker_step (le_execution_id lease) d (set_attempt k g (set_execution (ex_id e) f d))"
  by (rule fenced_step [OF assms quiet_set_rows(1)])

text \<open>The rows a completed MULTI Operation leaves.\<close>

definition waiting_execution :: "datetime \<Rightarrow> int \<Rightarrow> execution_orm \<Rightarrow> execution_orm" where
  "waiting_execution now t e = e\<lparr>ex_status := ES_WAITING_FOR_OPERATION,
     ex_lease_owner := None, ex_lease_expires_at := None, ex_updated_at := now,
     ex_finalization_requested := False, ex_operation_wait_expires_at := Some (wait_deadline now t e),
     ex_version := ex_version e + 1\<rparr>"

lemma complete_operationD:
  assumes "complete_operation mint now lease q s m ft d = Inr (d', u)" and "d' \<noteq> d"
  obtains e a t g h where "require_active_lease now lease [ES_RUNNING] d = Inr (e, a)"
    and "allowed_transition (ex_status e) ES_WAITING_FOR_OPERATION"
    and "ex_operation_wait_timeout_seconds e = Some t"
    and "\<forall>x. op_id (g x) = op_id x \<and> op_execution_id (g x) = op_execution_id x"
    and "add_operation_completed_event mint now (le_execution_id lease) q
      (set_attempt (at_id a) h (set_operations (\<lambda>x. op_id x = q) g
        (set_execution (ex_id e) (waiting_execution now t) d))) = Inr d'"
proof -
  let ?g = "\<lambda>q. q\<lparr>op_status := s,
      op_error_message := (if str_truthy m then map_option (take 2000) m else None),
      op_failure_type := (if s = OS_SUCCEEDED then None else Some (opt_or ft FT_TOOL_ERROR)),
      op_finished_at := Some now, op_updated_at := now\<rparr> :: operation_orm"
  let ?h = "\<lambda>a. a\<lparr>at_status := AS_WAITING, at_lease_owner := None, at_lease_expires_at := None\<rparr> :: attempt_orm"
  from assms obtain e a t where act: "require_active_lease now lease [ES_RUNNING] d = Inr (e, a)"
    and "allowed_transition (ex_status e) ES_WAITING_FOR_OPERATION"
    and "ex_operation_wait_timeout_seconds e = Some t"
    and "add_operation_completed_event mint now (le_execution_id lease) q
      (set_attempt (at_id a) ?h (set_operations (\<lambda>x. op_id x = q) ?g
        (set_execution (ex_id e) (waiting_execution now t) d))) = Inr d'"
    unfolding complete_operation_def bind_res_eq_Inr Let_def waiting_execution_def [abs_def]
    by (auto simp: bind_res_eq_Inr split: option.splits if_split_asm)
  then show ?thesis by (intro that [of e a t ?g ?h]) simp_all
qed

interpretation complete_operation: worker_transaction
  "complete_operation mint now lease q s m ft" "le_execution_id lease"
proof
  fix d d' r
  assume wf: "db_wf d" and run: "complete_operation mint now lease q s m ft d = Inr (d', r)"
  show "worker_step (le_execution_id lease) d d'"
  proof (cases "d' = d")
    case False
    from run False obtain e a t g h where act: "require_active_lease now lease [ES_RUNNING] d = Inr (e, a)"
      and ok: "allowed_transition (ex_status e) ES_WAITING_FOR_OPERATION"
      and g: "\<forall>x. op_id (g x) = op_id x \<and> op_execution_id (g x) = op_execution_id x"
      and ev: "add_operation_completed_event mint now (le_execution_id lease) q
        (set_attempt (at_id a) h (set_operations (\<lambda>x. op_id x = q) g
          (set_execution (ex_id e) (waiting_execution now t) d))) = Inr d'"
      by (rule complete_operationD)
    show ?thesis
    proof (rule fenced_step [OF wf act])
      show "quiet_step (set_execution (ex_id e) (waiting_execution now t) d) d'"
        by (rule operation_completed.emit_after [OF ev])
          (rule quiet_step_trans [OF quiet_set_operations quiet_set_rows(1)]; simp add: g)
    qed (use ok in \<open>simp_all add: waiting_execution_def exec_step_def execution_keys_kept_def\<close>)
  qed simp
qed

interpretation skip_steps_after: worker_transaction
  "skip_steps_after now lease q n" "le_execution_id lease"
  by unfold_locales
    (auto simp: skip_steps_after_def bind_res_eq_Inr intro!: worker_step_quiet quiet_set_steps)

interpretation record_runtime_abort: worker_transaction
  "record_runtime_abort now lease s c ft" "le_execution_id lease"
  by unfold_locales
    (auto simp: record_runtime_abort_def Let_def bind_res_eq_Inr exec_step_def execution_keys_kept_def
      intro!: fenced_step_attempt)

interpretation release_for_cancellation: worker_transaction
  "release_for_cancellation now lease" "le_execution_id lease"
  by unfold_locales
    (auto simp: release_for_cancellation_def Let_def bind_res_eq_Inr exec_step_def execution_keys_kept_def
      intro!: fenced_step_attempt)

interpretation release_for_handover: worker_transaction
  "release_for_handover mint now lease" "le_execution_id lease"
proof
  fix d d' r
  assume wf: "db_wf d" and run: "release_for_handover mint now lease d = Inr (d', r)"
  show "worker_step (le_execution_id lease) d d'"
  proof (cases "d' = d")
    case False
    with run obtain e a h where act: "require_active_lease now lease [ES_RUNNING] d = Inr (e, a)"
      and "begin_handover mint e a h HR_EXECUTOR_SHUTDOWN now now d = Inr d'"
      unfolding release_for_handover_def
      by (auto simp: bind_res_eq_Inr split: sum.splits worker_error.splits option.splits if_split_asm)
    moreover have "ex_id e = le_execution_id lease" "execution_row d (ex_id e) = Some e"
      using require_active_leaseD [OF wf act] by (simp_all add: lease_row_active_def)
    ultimately show ?thesis using begin_handover_step by metis
  qed simp
qed

lemma finalizeD:
  assumes "finalize mint ws now lease r d = Inr (d', u)"
  obtains e a s d3 c d4 d5 where "require_active_lease now lease [ES_RUNNING] d = Inr (e, a)"
    and "fr_status r = ES_SUCCEEDED \<longrightarrow>
      require_completed_results d e (ex_active_operation_id e) (ex_finalization_requested e) True = Inr ()"
    and "attempt_status_of_execution (fr_status r) = Some s" and "allowed_transition (ex_status e) (fr_status r)"
    and "finalize_operation now lease r (ex_active_operation_id e)
      (set_attempt (at_id a) (finalized_attempt now e r s) (set_execution (ex_id e) (finalized_execution ws now r) d)) = (d3, c)"
    and "(if fr_status r = ES_FAILED then fail_steps mint now lease r (running_steps d (le_attempt_id lease)) d3
      else Inr d3) = Inr d4"
    and "(case c of None \<Rightarrow> Inr d4 | Some q \<Rightarrow> add_operation_completed_event mint now (le_execution_id lease) q d4) = Inr d5"
    and "add_execution_completed_event mint now (le_execution_id lease) d5 = Inr d'"
proof -
  from assms obtain e a where act: "require_active_lease now lease [ES_RUNNING] d = Inr (e, a)"
    unfolding finalize_def bind_res_eq_Inr by auto
  let ?check = "if fr_status r = ES_SUCCEEDED
    then require_completed_results d e (ex_active_operation_id e) (ex_finalization_requested e) True else Inr ()"
  from assms act have check: "?check = Inr ()"
    unfolding finalize_def by (cases ?check) (auto simp: bind_res_eq_Inr)
  from assms act check obtain s where s: "attempt_status_of_execution (fr_status r) = Some s"
    unfolding finalize_def check by (auto simp: bind_res_eq_Inr split: option.splits)
  from assms act check s have ok: "allowed_transition (ex_status e) (fr_status r)"
    unfolding finalize_def by (auto simp: bind_res_eq_Inr split: if_split_asm)
  obtain d3 c where fin: "finalize_operation now lease r (ex_active_operation_id e)
      (set_attempt (at_id a) (finalized_attempt now e r s)
        (set_execution (ex_id e) (finalized_execution ws now r) d)) = (d3, c)" by fastforce
  have "bind_res (if fr_status r = ES_FAILED
        then fail_steps mint now lease r (running_steps d (le_attempt_id lease)) d3 else Inr d3) (\<lambda>d4.
      bind_res (case c of None \<Rightarrow> Inr d4
        | Some q \<Rightarrow> add_operation_completed_event mint now (le_execution_id lease) q d4) (\<lambda>d5.
      bind_res (add_execution_completed_event mint now (le_execution_id lease) d5) (\<lambda>d6. Inr (d6, ())))) = Inr (d', u)"
    using assms unfolding finalize_def act check by (simp add: check s ok fin Let_def)
  then obtain d4 d5 where d4: "(if fr_status r = ES_FAILED
        then fail_steps mint now lease r (running_steps d (le_attempt_id lease)) d3 else Inr d3) = Inr d4"
    and d5: "(case c of None \<Rightarrow> Inr d4
        | Some q \<Rightarrow> add_operation_completed_event mint now (le_execution_id lease) q d4) = Inr d5"
    and d': "add_execution_completed_event mint now (le_execution_id lease) d5 = Inr d'"
    unfolding bind_res_eq_Inr by blast
  show ?thesis
    by (rule that [OF act _ s ok fin d4 d5 d']) (use check in \<open>simp split: if_split_asm\<close>)
qed

interpretation finalize: worker_transaction "finalize mint ws now lease r" "le_execution_id lease"
proof
  fix d d' u
  assume wf: "db_wf d" and run: "finalize mint ws now lease r d = Inr (d', u)"
  from run obtain e a s d3 c d4 d5 where act: "require_active_lease now lease [ES_RUNNING] d = Inr (e, a)"
    and ok: "allowed_transition (ex_status e) (fr_status r)"
    and d3: "finalize_operation now lease r (ex_active_operation_id e)
      (set_attempt (at_id a) (finalized_attempt now e r s) (set_execution (ex_id e) (finalized_execution ws now r) d)) = (d3, c)"
    and d4: "(if fr_status r = ES_FAILED then fail_steps mint now lease r (running_steps d (le_attempt_id lease)) d3
      else Inr d3) = Inr d4"
    and d5: "(case c of None \<Rightarrow> Inr d4 | Some q \<Rightarrow> add_operation_completed_event mint now (le_execution_id lease) q d4) = Inr d5"
    and d': "add_execution_completed_event mint now (le_execution_id lease) d5 = Inr d'"
    by (rule finalizeD)
  have "quiet_step d3 d4" using d4 quiet_fail_steps by (auto split: if_split_asm)
  moreover have "quiet_step d4 d5" using d5 operation_completed.emit_quiet by (auto split: option.splits)
  moreover have "quiet_step d5 d'" by (rule execution_completed.emit_quiet [OF d'])
  moreover have "quiet_step (set_execution (ex_id e) (finalized_execution ws now r) d) d3"
    by (rule quiet_step_trans [OF quiet_set_rows(1) quiet_finalize_operation [OF d3]])
  ultimately have "quiet_step (set_execution (ex_id e) (finalized_execution ws now r) d) d'"
    by (meson quiet_step_trans)
  then show "worker_step (le_execution_id lease) d d'"
    by (rule fenced_step [OF wf act, rotated 2])
      (use ok in \<open>simp_all add: finalized_execution_def Let_def exec_step_def execution_keys_kept_def\<close>)
qed

end
