(* ===== verification/Cancel_Run.thy ===== *)
theory Cancel_Run
  imports Claiming Run_Completion
begin

text \<open>
  \<open>execution_worker/cancellation.py\<close> and \<open>execution_worker/runtime_cleanup.py\<close>: ending an
  Execution whose cancellation was requested by a caller or by the maximum-runtime audit. What the
  Runtime driver did is an argument (\<open>stop_outcome\<close>); the transaction that records the ending is
  \<open>finalize_cancellation\<close>, fenced by the cancellation lease.
\<close>

subsection \<open>Stopping the Runtime\<close>

text \<open>
  The driver could not be created, or it was; then whether the interrupt and the deletion of the
  session both succeeded.
\<close>

datatype stop_outcome = DriverUnavailable | SessionStop bool

definition best_effort_session_stop :: "bool \<Rightarrow> runtime_session_cleanup_status" where
  "best_effort_session_stop stopped = (if stopped then RC_SUCCEEDED else RC_FAILED)"

definition stop_cancelled_runtime ::
    "datetime \<Rightarrow> cancellation_work \<Rightarrow> stop_outcome \<Rightarrow> db \<Rightarrow> worker_error + runtime_session_cleanup_status" where
  "stop_cancelled_runtime now work outcome d =
     (case (cw_runtime_session_id work, cw_runtime_target_id work) of
        (None, _) \<Rightarrow> Inr RC_NOT_REQUIRED
      | (Some _, None) \<Rightarrow> Inr RC_FAILED
      | (Some _, Some target_id) \<Rightarrow>
          bind_res (require_active_cancellation_lease now (cw_lease work) d) (\<lambda>_.
            case scalar (\<lambda>t. rt_id t = target_id) (db_targets d) of
              None \<Rightarrow> Inr RC_FAILED
            | Some _ \<Rightarrow>
                Inr (case outcome of DriverUnavailable \<Rightarrow> RC_FAILED
                     | SessionStop stopped \<Rightarrow> best_effort_session_stop stopped)))"

subsection \<open>Recording the ending\<close>

definition timed_out :: "execution_orm \<Rightarrow> bool" where
  "timed_out e \<longleftrightarrow> ex_finalized_by e = Some FB_MAX_RUNTIME"

definition cancel_reason :: "execution_orm \<Rightarrow> string" where
  "cancel_reason e = str_or_else (ex_cancellation_reason e) ''Step was cancelled by request.''"

definition cancel_failure_type :: "execution_orm \<Rightarrow> failure_type option" where
  "cancel_failure_type e = (if timed_out e then Some FT_EXECUTION_TIMEOUT else None)"

definition ended_step :: "execution_orm \<Rightarrow> step_status" where
  "ended_step e = (if timed_out e then SS_FAILED else SS_CANCELLED)"

definition cancelled_execution ::
    "datetime \<Rightarrow> runtime_session_cleanup_status \<Rightarrow> execution_orm \<Rightarrow> execution_orm" where
  "cancelled_execution now cleanup e =
     e\<lparr>ex_status := (if timed_out e then ES_FAILED else ES_CANCELLED),
       ex_error_message := (if timed_out e then Some (cancel_reason e) else ex_error_message e),
       ex_finished_at := Some now, ex_updated_at := now, ex_lease_owner := None,
       ex_lease_expires_at := None, ex_heartbeat_at := None,
       ex_cancellation_lease_owner := None, ex_cancellation_lease_expires_at := None,
       ex_operation_wait_expires_at := None, ex_failure_type := cancel_failure_type e,
       ex_retry_strategy := RS_NOT_RETRYABLE, ex_retry_from_sequence := None,
       ex_retained_runtime_session_until := None, ex_runtime_session_cleanup_status := cleanup,
       ex_runtime_abort_status := resolved_abort cleanup (ex_runtime_abort_status e),
       ex_runtime_session_id := (if cleanup = RC_SUCCEEDED then None else ex_runtime_session_id e),
       ex_version := ex_version e + 1\<rparr>"

definition cancelled_attempt ::
    "datetime \<Rightarrow> runtime_session_cleanup_status \<Rightarrow> execution_orm \<Rightarrow> attempt_orm \<Rightarrow> attempt_orm" where
  "cancelled_attempt now cleanup e a =
     a\<lparr>at_status := (if timed_out e then AS_FAILED else AS_CANCELLED),
       at_failure_type := cancel_failure_type e,
       at_error_message := (if timed_out e then Some (cancel_reason e) else at_error_message a),
       at_retry_strategy := RS_NOT_RETRYABLE, at_runtime_session_cleanup_status := cleanup,
       at_lease_owner := None, at_lease_expires_at := None,
       at_runtime_abort_status :=
         (if ex_runtime_abort_status e = RA_PENDING then resolved_abort cleanup RA_PENDING
          else at_runtime_abort_status a),
       at_finished_at := Some now\<rparr>"

definition end_attempts :: "uuid \<Rightarrow> attempt_status list \<Rightarrow> (attempt_orm \<Rightarrow> attempt_orm) \<Rightarrow> db \<Rightarrow> db" where
  "end_attempts i live f d = d\<lparr>db_attempts :=
     update_where (\<lambda>a. at_execution_id a = i \<and> at_status a \<in> set live) f (db_attempts d)\<rparr>"

definition end_running_steps :: "datetime \<Rightarrow> uuid \<Rightarrow> step_status \<Rightarrow> db \<Rightarrow> db" where
  "end_running_steps now i status d =
     set_steps (\<lambda>s. st_execution_id s = i \<and> st_status s = SS_RUNNING)
       (\<lambda>s. s\<lparr>st_status := status, st_finished_at := Some now, st_updated_at := now\<rparr>) d"

definition end_operations :: "datetime \<Rightarrow> execution_orm \<Rightarrow> db \<Rightarrow> db" where
  "end_operations now e d =
     set_operations (\<lambda>q. op_execution_id q = ex_id e \<and> op_status q \<in> {OS_QUEUED, OS_RUNNING})
       (\<lambda>q. q\<lparr>op_status := (if timed_out e then OS_FAILED else OS_CANCELLED),
             op_failure_type := cancel_failure_type e,
             op_error_message := (if timed_out e then Some (cancel_reason e) else op_error_message q),
             op_finished_at := Some now, op_updated_at := now\<rparr>) d"

definition running_attempt_pairs :: "db \<Rightarrow> uuid \<Rightarrow> (uuid \<times> uuid) list" where
  "running_attempt_pairs d i =
     map (\<lambda>h. (sa_execution_step_id h, sa_execution_attempt_id h))
       (filter (\<lambda>h. sa_execution_id h = i \<and> sa_status h = SS_RUNNING) (db_step_attempts d))"

definition finalize_cancellation ::
    "minter \<Rightarrow> datetime \<Rightarrow> cancellation_lease \<Rightarrow> runtime_session_cleanup_status \<Rightarrow> db \<Rightarrow>
       worker_error + (db \<times> unit)" where
  "finalize_cancellation mint now lease cleanup d =
     bind_res (require_active_cancellation_lease now lease d) (\<lambda>e.
     bind_res (require_transition (ex_status e) (if timed_out e then ES_FAILED else ES_CANCELLED)) (\<lambda>_.
     let i = cn_execution_id lease;
         d1 = set_execution i (cancelled_execution now cleanup) d;
         d2 = end_attempts i [AS_RUNNING, AS_WAITING] (cancelled_attempt now cleanup e) d1;
         d3 = skip_pending_steps now i (end_running_steps now i (ended_step e) d2);
         d4 = end_operations now e d3;
         d5 = set_step_attempts (\<lambda>h. sa_execution_id h = i \<and> sa_status h = SS_RUNNING)
                (\<lambda>h. h\<lparr>sa_status := ended_step e, sa_finished_at := Some now\<rparr>) d4
     in bind_res (step_history_events mint now i (running_attempt_pairs d i) (ended_step e)
                    (cancel_reason e) False d5) (\<lambda>d6.
        bind_res (case ex_active_operation_id e of
                    None \<Rightarrow> Inr d6
                  | Some q \<Rightarrow> add_operation_completed_event mint now i q d6) (\<lambda>d7.
        bind_res (add_execution_completed_event mint now i d7) (\<lambda>d8. Inr (d8, ()))))))"

subsection \<open>A fenced worker transaction\<close>

lemma quiet_end_attempts [quiet]: "quiet_step d (end_attempts i live f d)"
  unfolding end_attempts_def by (rule quiet_update)

lemma quiet_end_running_steps [quiet]: "quiet_step d (end_running_steps now i s d)"
  unfolding end_running_steps_def by (rule quiet_set_steps) simp_all

lemma quiet_end_operations [quiet]: "quiet_step d (end_operations now e d)"
  unfolding end_operations_def by (rule quiet_set_operations) simp_all

text \<open>The tables between the change of the Execution row and the events.\<close>

definition cancelled_tables ::
    "datetime \<Rightarrow> uuid \<Rightarrow> runtime_session_cleanup_status \<Rightarrow> execution_orm \<Rightarrow> db \<Rightarrow> db" where
  "cancelled_tables now i cleanup e d =
     set_step_attempts (\<lambda>h. sa_execution_id h = i \<and> sa_status h = SS_RUNNING)
       (\<lambda>h. h\<lparr>sa_status := ended_step e, sa_finished_at := Some now\<rparr>)
     (end_operations now e (skip_pending_steps now i (end_running_steps now i (ended_step e)
       (end_attempts i [AS_RUNNING, AS_WAITING] (cancelled_attempt now cleanup e)
         (set_execution i (cancelled_execution now cleanup) d)))))"

lemma quiet_cancelled_tables:
  "quiet_step (set_execution i (cancelled_execution now cleanup) d) (cancelled_tables now i cleanup e d)"
  unfolding cancelled_tables_def
  by (meson quiet_step_trans quiet_set_rows(2) quiet_end_operations quiet_skip_pending_steps
      quiet_end_running_steps quiet_end_attempts)

lemma finalize_cancellationD:
  assumes "finalize_cancellation mint now lease cleanup d = Inr (d', u)"
  obtains e d6 d7 where "require_active_cancellation_lease now lease d = Inr e"
    and "step_history_events mint now (cn_execution_id lease) (running_attempt_pairs d (cn_execution_id lease))
      (ended_step e) (cancel_reason e) False (cancelled_tables now (cn_execution_id lease) cleanup e d) = Inr d6"
    and "(case ex_active_operation_id e of None \<Rightarrow> Inr d6
      | Some q \<Rightarrow> add_operation_completed_event mint now (cn_execution_id lease) q d6) = Inr d7"
    and "add_execution_completed_event mint now (cn_execution_id lease) d7 = Inr d'"
  using assms unfolding finalize_cancellation_def bind_res_eq_Inr Let_def cancelled_tables_def
  by (simp add: bind_res_eq_Inr split: if_split_asm) blast+

interpretation cancellation: worker_transaction
  "finalize_cancellation mint now lease cleanup" "cn_execution_id lease"
proof
  fix d d' u
  let ?i = "cn_execution_id lease"
  assume wf: "db_wf d" and run: "finalize_cancellation mint now lease cleanup d = Inr (d', u)"
  from run obtain e d6 d7 where act: "require_active_cancellation_lease now lease d = Inr e"
    and d6: "step_history_events mint now ?i (running_attempt_pairs d ?i)
      (ended_step e) (cancel_reason e) False (cancelled_tables now ?i cleanup e d) = Inr d6"
    and d7: "(case ex_active_operation_id e of None \<Rightarrow> Inr d6
      | Some q \<Rightarrow> add_operation_completed_event mint now ?i q d6) = Inr d7"
    and d': "add_execution_completed_event mint now ?i d7 = Inr d'"
    by (rule finalize_cancellationD)
  from require_active_cancellationD [OF wf act] have e: "execution_row d ?i = Some e"
    and st: "ex_status e = ES_CANCEL_REQUESTED" by (simp_all add: cancellation_row_active_def)
  have "worker_step ?i d (set_execution ?i (cancelled_execution now cleanup) d)"
    by (rule worker_step_set_execution [OF e])
      (simp_all add: st exec_step_def execution_keys_kept_def cancelled_execution_def)
  moreover have "quiet_step d6 d7" using d7 operation_completed.emit_quiet by (auto split: option.splits)
  ultimately show "worker_step ?i d d'"
    using quiet_cancelled_tables quiet_step_history_events [OF d6] execution_completed.emit_quiet [OF d']
    by (meson worker_step_then_quiet)
qed

end
