(* ===== verification/Lease_Recovery.thy ===== *)
theory Lease_Recovery
  imports Cancel_Run
begin

text \<open>
  The background passes that end or repair Executions no worker serves:
  \<open>execution_worker/lease_recovery.py\<close>, \<open>session_recovery.py\<close>, \<open>retained_session_cleanup.py\<close>
  and the version-checked observations of \<open>background_diagnostics.py\<close>.

  A pass handles a batch of rows in one transaction. The batch is a fold over the selected rows with
  one function per row; rows another transaction holds are skipped (\<open>FOR UPDATE SKIP LOCKED\<close>), which
  is the argument \<open>skipped\<close>.
\<close>

subsection \<open>Observations\<close>

record runtime_observation =
  ro_execution_id :: uuid
  ro_status :: execution_status
  ro_version :: int
  ro_fencing_token :: int
  ro_operation_id :: "uuid option"
  ro_target_id :: "uuid option"
  ro_session_id :: "string option"

definition capture :: "execution_orm \<Rightarrow> runtime_observation" where
  "capture e = \<lparr>ro_execution_id = ex_id e, ro_status = ex_status e, ro_version = ex_version e,
     ro_fencing_token = ex_fencing_token e, ro_operation_id = ex_active_operation_id e,
     ro_target_id = ex_runtime_target_id e, ro_session_id = ex_runtime_session_id e\<rparr>"

definition observation_current :: "runtime_observation \<Rightarrow> db \<Rightarrow> execution_orm option" where
  "observation_current ob d =
     scalar (\<lambda>e. ex_id e = ro_execution_id ob \<and> (ex_status e = ro_status ob \<and>
       ex_version e = ro_version ob \<and> ex_fencing_token e = ro_fencing_token ob \<and>
       ex_active_operation_id e = ro_operation_id ob \<and> ex_runtime_target_id e = ro_target_id ob \<and>
       ex_runtime_session_id e = ro_session_id ob)) (db_executions d)"

text \<open>The Attempt with the highest number.\<close>

definition latest_attempt :: "db \<Rightarrow> uuid \<Rightarrow> attempt_orm option" where
  "latest_attempt d i =
     first_min (\<lambda>a. - at_attempt_number a) (filter (\<lambda>a. at_execution_id a = i) (db_attempts d))"

subsection \<open>Recording a session cleanup\<close>

definition cleaned_execution ::
    "datetime \<Rightarrow> runtime_session_cleanup_status \<Rightarrow> execution_orm \<Rightarrow> execution_orm" where
  "cleaned_execution now cleanup e =
     e\<lparr>ex_runtime_session_id := (if cleanup = RC_SUCCEEDED then None else ex_runtime_session_id e),
       ex_runtime_session_cleanup_status := cleanup,
       ex_runtime_abort_status := resolved_abort cleanup (ex_runtime_abort_status e),
       ex_updated_at := now, ex_version := ex_version e + 1\<rparr>"

definition record_result ::
    "datetime \<Rightarrow> runtime_observation \<Rightarrow> runtime_session_cleanup_status \<Rightarrow> db \<Rightarrow>
       worker_error + (db \<times> unit)" where
  "record_result now ob cleanup d =
     (case observation_current ob d of
        None \<Rightarrow> Inr (d, ())
      | Some e \<Rightarrow>
          if ex_status e \<notin> {ES_FAILED, ES_CANCELLED} then Inr (d, ())
          else
            let d1 = set_execution (ex_id e) (cleaned_execution now cleanup) d in
            Inr (case latest_attempt d (ex_id e) of
                   None \<Rightarrow> d1
                 | Some a \<Rightarrow> set_attempt (at_id a) (\<lambda>a. a\<lparr>at_runtime_session_cleanup_status := cleanup,
                     at_runtime_abort_status :=
                       (if ex_runtime_abort_status e = RA_PENDING then resolved_abort cleanup RA_PENDING
                        else at_runtime_abort_status a)\<rparr>) d1, ()))"

text \<open>What \<open>cleanup\<close> decides; \<open>deleted\<close> is the driver's answer.\<close>

definition cleanup_outcome ::
    "runtime_observation \<Rightarrow> bool \<Rightarrow> db \<Rightarrow> runtime_session_cleanup_status option" where
  "cleanup_outcome ob deleted d =
     (case observation_current ob d of
        None \<Rightarrow> None
      | Some e \<Rightarrow>
          if ex_status e \<notin> {ES_FAILED, ES_CANCELLED} \<or> ro_session_id ob = None then None
          else (case Option.bind (ro_target_id ob) (\<lambda>i. scalar (\<lambda>t. rt_id t = i) (db_targets d)) of
                  None \<Rightarrow> Some RC_FAILED
                | Some _ \<Rightarrow> Some (if deleted then RC_SUCCEEDED else RC_FAILED)))"

definition mark_attempt_pending :: "uuid \<Rightarrow> db \<Rightarrow> db" where
  "mark_attempt_pending i d =
     (case latest_attempt d i of
        None \<Rightarrow> d
      | Some a \<Rightarrow> set_attempt (at_id a) (\<lambda>a. a\<lparr>at_runtime_session_cleanup_status := RC_PENDING\<rparr>) d)"

subsection \<open>Batches\<close>

text \<open>
  A batch threads the database and what it collects through the selected rows. The rows were loaded
  when the batch was selected, and a step only changes the row it is about, so each step reads its
  own row as it was selected.
\<close>

definition run_batch ::
    "(execution_orm \<Rightarrow> db \<Rightarrow> worker_error + (db \<times> 'r list)) \<Rightarrow> execution_orm list \<Rightarrow> db \<Rightarrow>
       worker_error + (db \<times> 'r list)" where
  "run_batch f rows d =
     foldM_res (\<lambda>(d, out) e. bind_res (f e d) (\<lambda>(d', r). Inr (d', out @ r))) (d, []) rows"

definition select_rows :: "(execution_orm \<Rightarrow> bool) \<Rightarrow> (uuid \<Rightarrow> bool) \<Rightarrow> db \<Rightarrow> execution_orm list" where
  "select_rows P skipped d = filter (\<lambda>e. P e \<and> \<not> skipped (ex_id e)) (db_executions d)"

definition first_rows :: "nat \<Rightarrow> (execution_orm \<Rightarrow> int) \<Rightarrow> execution_orm list \<Rightarrow> execution_orm list" where
  "first_rows n key rows = take n (sort_key key rows)"

definition past :: "datetime option \<Rightarrow> datetime \<Rightarrow> bool" where
  "past t now = (case t of None \<Rightarrow> False | Some x \<Rightarrow> x \<le> now)"

subsection \<open>Expired leases\<close>

definition lease_expired :: "datetime \<Rightarrow> execution_orm \<Rightarrow> bool" where
  "lease_expired now e \<longleftrightarrow>
     ex_status e = ES_RUNNING \<and>
     (ex_lease_owner e = None \<or>
      (case ex_lease_expires_at e of None \<Rightarrow> True | Some x \<Rightarrow> x < now))"

definition running_attempt :: "db \<Rightarrow> uuid \<Rightarrow> attempt_orm option" where
  "running_attempt d i = scalar (\<lambda>a. at_execution_id a = i \<and> at_status a = AS_RUNNING) (db_attempts d)"

text \<open>\<open>_hand_over\<close>: \<open>None\<close> when it returns \<open>False\<close>.\<close>

definition hand_over :: "minter \<Rightarrow> datetime \<Rightarrow> execution_orm \<Rightarrow> db \<Rightarrow> (worker_error + db) option" where
  "hand_over mint now e d =
     (if \<not> execution_journal (ex_runtime_type e) \<or> ex_runtime_session_id e = None \<or>
         ex_runtime_target_id e = None \<or> ex_runtime_abort_status e = RA_PENDING \<or>
         scalar (\<lambda>t. Some (rt_id t) = ex_runtime_target_id e) (db_targets d) = None
      then None
      else (case (running_step_attempt d (ex_id e), running_attempt d (ex_id e)) of
              (Some h, Some a) \<Rightarrow>
                if sa_execution_attempt_id h \<noteq> at_id a then None
                else Some (begin_handover mint e a h HR_EXECUTOR_UNRESPONSIVE now
                       (opt_or (ex_heartbeat_at e) now) d)
            | _ \<Rightarrow> None))"

definition abort_timeout :: "execution_orm \<Rightarrow> bool" where
  "abort_timeout e \<longleftrightarrow> ex_runtime_abort_status e = RA_PENDING \<and>
     ex_failure_type e \<in> {Some FT_STEP_TIMEOUT, Some FT_OPERATION_TIMEOUT}"

definition recovery_failure_type :: "execution_orm \<Rightarrow> failure_type option" where
  "recovery_failure_type e = (if abort_timeout e then ex_failure_type e else Some FT_LEASE_EXPIRED)"

definition recovery_message :: "execution_orm \<Rightarrow> string" where
  "recovery_message e =
     (if abort_timeout e
      then ''Worker lease expired while Runtime abort was pending; the abandoned session requires cleanup.''
      else ''Worker lease expired; execution requires retry.'')"

definition recovery_strategy :: "execution_orm \<Rightarrow> retry_strategy" where
  "recovery_strategy e = (if ex_operation_mode e = OM_MULTI then RS_NOT_RETRYABLE else RS_FROM_START)"

definition recovery_cleanup :: "execution_orm \<Rightarrow> runtime_session_cleanup_status" where
  "recovery_cleanup e = (if ex_runtime_session_id e \<noteq> None then RC_PENDING else RC_NOT_REQUIRED)"

definition notebook_stale :: "execution_orm \<Rightarrow> bool" where
  "notebook_stale e \<longleftrightarrow> ex_notebook_path e \<noteq> None \<and> ex_notebook_projection_status e \<noteq> NP_FAILED"

definition interrupted_message :: string where
  "interrupted_message = ''Notebook projection was not refreshed after Worker lease expiry. The notebook may be stale; inspect the Step result reference for any preserved output.''"

definition fenced_execution :: "datetime \<Rightarrow> execution_orm \<Rightarrow> execution_orm" where
  "fenced_execution now e =
     e\<lparr>ex_status := ES_FAILED, ex_error_message := Some (recovery_message e),
       ex_failure_type := recovery_failure_type e, ex_finished_at := Some now, ex_updated_at := now,
       ex_lease_owner := None, ex_lease_expires_at := None, ex_heartbeat_at := None,
       ex_fencing_token := ex_fencing_token e + 1, ex_retry_strategy := recovery_strategy e,
       ex_retry_from_sequence := (if recovery_strategy e = RS_FROM_START then Some 0 else None),
       ex_retained_runtime_session_until := None, ex_recovery_count := ex_recovery_count e + 1,
       ex_runtime_session_cleanup_status := recovery_cleanup e, ex_version := ex_version e + 1,
       ex_notebook_projection_status :=
         (if notebook_stale e then NP_FAILED else ex_notebook_projection_status e),
       ex_notebook_projection_error :=
         (if notebook_stale e then Some interrupted_message else ex_notebook_projection_error e),
       ex_notebook_projected_at := (if notebook_stale e then None else ex_notebook_projected_at e)\<rparr>"

text \<open>The one diagnostic of this pass; its detail is fixed.\<close>

definition interrupted_diagnostic :: json where
  "interrupted_diagnostic = JObj [(''code'', JStr ''NOTEBOOK_NOT_REFRESHED''),
     (''phase'', JStr ''NOTEBOOK_LEASE_EXPIRED''), (''category'', JStr ''NOTEBOOK''),
     (''origin'', JStr ''EXECUTOR''), (''message'', JStr interrupted_message),
     (''causes'', JList [JObj [(''exception_type'', JStr ''NotebookProjectionInterruptedError''),
        (''message'', JStr interrupted_message), (''errno'', JNull)]]),
     (''causes_truncated'', JBool False), (''severity'', JStr ''ERROR'')]"

definition add_interrupted_diagnostic ::
    "uuid \<Rightarrow> datetime \<Rightarrow> execution_orm \<Rightarrow> attempt_orm option \<Rightarrow> db \<Rightarrow> db" where
  "add_interrupted_diagnostic diagnostic_id now e a d =
     (if \<not> notebook_stale e then d
      else d\<lparr>db_diagnostics := db_diagnostics d @
        [\<lparr>dg_id = diagnostic_id, dg_execution_id = ex_id e, dg_attempt_id = map_option at_id a,
          dg_operation_id = ex_active_operation_id e, dg_step_id = None, dg_step_sequence = None,
          dg_fencing_token = ex_fencing_token e + 1, dg_detail = interrupted_diagnostic,
          dg_occurred_at = now, dg_created_at = now, dg_updated_at = now,
          dg_created_by_client = ex_updated_by_client e, dg_created_by = ex_updated_by e,
          dg_updated_by_client = ex_updated_by_client e, dg_updated_by = ex_updated_by e\<rparr>]\<rparr>)"

definition end_recovered_operation ::
    "minter \<Rightarrow> datetime \<Rightarrow> execution_orm \<Rightarrow> attempt_orm option \<Rightarrow> db \<Rightarrow> worker_error + db" where
  "end_recovered_operation mint now e a d =
     (case ex_active_operation_id e of
        None \<Rightarrow> Inr d
      | Some q \<Rightarrow>
          (case scalar (operation_open q) (db_operations d) of
             None \<Rightarrow> Inr d
           | Some _ \<Rightarrow>
               add_operation_completed_event mint now (ex_id e) q
                 (set_operations (\<lambda>p. op_id p = q) (\<lambda>p. p\<lparr>op_status := OS_FAILED,
                     op_execution_attempt_id :=
                       (case a of None \<Rightarrow> op_execution_attempt_id p | Some a \<Rightarrow> Some (at_id a)),
                     op_error_message := Some (recovery_message e), op_finished_at := Some now,
                     op_updated_at := now\<rparr>) d)))"

text \<open>The tables between the change of the Execution row and the events.\<close>

definition recovered_tables :: "uuid \<Rightarrow> datetime \<Rightarrow> execution_orm \<Rightarrow> attempt_orm option \<Rightarrow> db \<Rightarrow> db" where
  "recovered_tables diagnostic_id now e a d =
     (let i = ex_id e;
          d1 = add_interrupted_diagnostic diagnostic_id now e a (set_execution i (fenced_execution now) d);
          d2 = end_attempts i [AS_RUNNING] (\<lambda>a. a\<lparr>at_status := AS_FAILED, at_lease_owner := None,
                 at_lease_expires_at := None, at_error_message := Some (recovery_message e),
                 at_failure_type := recovery_failure_type e, at_retry_strategy := recovery_strategy e,
                 at_runtime_session_cleanup_status := recovery_cleanup e,
                 at_finished_at := Some now\<rparr>) d1;
          d3 = fail_running_steps now i (Some (recovery_message e)) d2
      in set_step_attempts (\<lambda>h. sa_execution_id h = i \<and> sa_status h = SS_RUNNING)
           (\<lambda>h. h\<lparr>sa_status := SS_FAILED, sa_error_message := Some (recovery_message e),
                 sa_finished_at := Some now\<rparr>) d3)"

definition fail_expired ::
    "minter \<Rightarrow> uuid \<Rightarrow> datetime \<Rightarrow> execution_orm \<Rightarrow> db \<Rightarrow> worker_error + db" where
  "fail_expired mint diagnostic_id now e d =
     bind_res (require_transition (ex_status e) ES_FAILED) (\<lambda>_.
     bind_res (step_history_events mint now (ex_id e) (running_attempt_pairs d (ex_id e)) SS_FAILED
         (recovery_message e) (recovery_strategy e \<noteq> RS_NOT_RETRYABLE)
         (recovered_tables diagnostic_id now e (running_attempt d (ex_id e)) d)) (\<lambda>d1.
     bind_res (end_recovered_operation mint now e (running_attempt d (ex_id e))
         (skip_pending_steps now (ex_id e) d1)) (\<lambda>d2.
     add_execution_completed_event mint now (ex_id e) d2)))"

text \<open>One row: how often it counts as recovered and the session to clean up.\<close>

definition recover_execution ::
    "minter \<Rightarrow> (uuid \<Rightarrow> uuid) \<Rightarrow> datetime \<Rightarrow> execution_orm \<Rightarrow> db \<Rightarrow>
       worker_error + (db \<times> runtime_observation option list)" where
  "recover_execution mint diagnostic_ids now e d =
     (if scalar (\<lambda>h. ho_execution_id h = ex_id e) (db_handovers d) \<noteq> None then Inr (d, [])
      else (case hand_over mint now e d of
              Some r \<Rightarrow> bind_res r (\<lambda>d'. Inr (d', [None]))
            | None \<Rightarrow>
                bind_res (fail_expired mint (diagnostic_ids (ex_id e)) now e d) (\<lambda>d'.
                  Inr (d', [if ex_runtime_session_id e = None then None
                            else map_option capture (execution_row d' (ex_id e))]))))"

definition fence_expired_leases ::
    "minter \<Rightarrow> (uuid \<Rightarrow> uuid) \<Rightarrow> datetime \<Rightarrow> (uuid \<Rightarrow> bool) \<Rightarrow> db \<Rightarrow>
       worker_error + (db \<times> runtime_observation option list)" where
  "fence_expired_leases mint diagnostic_ids now skipped d =
     run_batch (recover_execution mint diagnostic_ids now) (select_rows (lease_expired now) skipped d) d"

subsection \<open>Retained sessions\<close>

definition cleanup_unresolved_row :: "worker_settings \<Rightarrow> datetime \<Rightarrow> execution_orm \<Rightarrow> bool" where
  "cleanup_unresolved_row ws now e \<longleftrightarrow>
     ex_status e \<in> {ES_FAILED, ES_CANCELLED} \<and> ex_runtime_session_id e \<noteq> None \<and>
     ex_runtime_session_cleanup_status e \<in> {RC_PENDING, RC_FAILED} \<and>
     ex_updated_at e \<le> now - seconds (ws_runtime_cleanup_retry_interval_seconds ws)"

definition retry_unresolved_execution ::
    "datetime \<Rightarrow> execution_orm \<Rightarrow> db \<Rightarrow> worker_error + (db \<times> runtime_observation list)" where
  "retry_unresolved_execution now e d =
     (let f = (\<lambda>e. e\<lparr>ex_runtime_session_cleanup_status := RC_PENDING, ex_updated_at := now,
                    ex_version := ex_version e + 1\<rparr>)
      in Inr (mark_attempt_pending (ex_id e) (set_execution (ex_id e) f d), [capture (f e)]))"

definition retry_unresolved ::
    "worker_settings \<Rightarrow> datetime \<Rightarrow> (uuid \<Rightarrow> bool) \<Rightarrow> db \<Rightarrow> worker_error + (db \<times> runtime_observation list)" where
  "retry_unresolved ws now skipped d =
     run_batch (retry_unresolved_execution now)
       (first_rows 20 ex_updated_at (select_rows (cleanup_unresolved_row ws now) skipped d)) d"

definition retention_expired :: "datetime \<Rightarrow> execution_orm \<Rightarrow> bool" where
  "retention_expired now e \<longleftrightarrow>
     ex_status e \<in> {ES_FAILED, ES_QUEUED} \<and> ex_retry_strategy e = RS_FROM_FAILED_STEP \<and>
     past (ex_retained_runtime_session_until e) now \<and> ex_runtime_session_id e \<noteq> None"

definition expired_message :: string where
  "expired_message = ''The retained runtime session retry window expired before execution resumed.''"

definition expired_execution :: "datetime \<Rightarrow> execution_orm \<Rightarrow> execution_orm" where
  "expired_execution now e =
     (let queued = (ex_status e = ES_QUEUED) in
      e\<lparr>ex_status := (if queued then ES_FAILED else ex_status e),
        ex_error_message := (if queued then Some expired_message else ex_error_message e),
        ex_finished_at := (if queued then Some now else ex_finished_at e),
        ex_retry_strategy := RS_NOT_RETRYABLE, ex_retry_from_sequence := None,
        ex_retained_runtime_session_until := None,
        ex_runtime_session_cleanup_status := RC_PENDING, ex_updated_at := now,
        ex_version := ex_version e + 1\<rparr>)"

definition expire_execution ::
    "minter \<Rightarrow> datetime \<Rightarrow> execution_orm \<Rightarrow> db \<Rightarrow> worker_error + (db \<times> runtime_observation list)" where
  "expire_execution mint now e d =
     (let queued = (ex_status e = ES_QUEUED);
          d1 = set_execution (ex_id e) (expired_execution now) d
      in bind_res (if queued then require_transition (ex_status e) ES_FAILED else Inr ()) (\<lambda>_.
         bind_res (if queued
                   then fail_active_operation_without_attempt mint e now expired_message None
                          (skip_pending_steps now (ex_id e) d1)
                   else Inr d1) (\<lambda>d2.
         let d3 = mark_attempt_pending (ex_id e) d2 in
         bind_res (if queued then add_execution_completed_event mint now (ex_id e) d3 else Inr d3) (\<lambda>d4.
         Inr (d4, [capture (expired_execution now e)])))))"

definition cleanup_expired ::
    "minter \<Rightarrow> datetime \<Rightarrow> (uuid \<Rightarrow> bool) \<Rightarrow> db \<Rightarrow> worker_error + (db \<times> runtime_observation list)" where
  "cleanup_expired mint now skipped d =
     run_batch (expire_execution mint now)
       (first_rows 20 (\<lambda>e. opt_or (ex_retained_runtime_session_until e) 0)
         (select_rows (retention_expired now) skipped d)) d"

subsection \<open>Every row of a batch is a worker step\<close>

lemma quiet_mark_attempt_pending [quiet]: "quiet_step d (mark_attempt_pending i d)"
  by (simp add: mark_attempt_pending_def quiet_set_rows split: option.splits)

lemma observation_row:
  assumes "db_wf d" and "observation_current ob d = Some e"
  shows "execution_row d (ro_execution_id ob) = Some e" and "ex_id e = ro_execution_id ob"
    and "capture e = ob"
proof -
  from scalar_SomeD [OF assms(2) [unfolded observation_current_def]]
  have e: "ex_id e = ro_execution_id ob" "e \<in> set (db_executions d)" and "capture e = ob"
    by (simp_all add: capture_def)
  then show "ex_id e = ro_execution_id ob" "capture e = ob" by simp_all
  show "execution_row d (ro_execution_id ob) = Some e"
    using execution_row_unique [OF assms(1) e(2)] e(1) by simp
qed

interpretation record_result: worker_transaction "record_result now ob cleanup" "ro_execution_id ob"
proof
  fix d d' r
  assume wf: "db_wf d" and run: "record_result now ob cleanup d = Inr (d', r)"
  show "worker_step (ro_execution_id ob) d d'"
  proof (cases "observation_current ob d")
    case None
    then show ?thesis using run by (simp add: record_result_def)
  next
    case (Some e)
    note e = observation_row [OF wf Some]
    have step: "worker_step (ro_execution_id ob) d (set_execution (ex_id e) (cleaned_execution now cleanup) d)"
      unfolding e(2)
      by (rule worker_step_set_execution [OF e(1)])
        (simp_all add: cleaned_execution_def exec_step_def execution_keys_kept_def)
    show ?thesis
      using run Some step worker_step_then_quiet [OF step quiet_set_rows(1)]
      by (auto simp: record_result_def Let_def split: if_split_asm option.splits)
  qed
qed

lemma quiet_recovered_tables:
  "quiet_step (set_execution (ex_id e) (fenced_execution now) d) (recovered_tables di now e a d)"
proof -
  have "quiet_step d (add_interrupted_diagnostic di now e a d)" for d
    by (simp add: add_interrupted_diagnostic_def quiet_update)
  then show ?thesis
    unfolding recovered_tables_def Let_def
    by (meson quiet_step_trans quiet_end_attempts quiet_fail_running_steps quiet_set_rows(2))
qed

lemma quiet_end_recovered_operation [quiet]:
  "end_recovered_operation mint now e a d = Inr d' \<Longrightarrow> quiet_step d d'"
  unfolding end_recovered_operation_def
  by (auto split: option.splits elim!: operation_completed.emit_after intro!: quiet_set_operations)

lemma fail_expiredD:
  assumes "fail_expired mint di now e d = Inr d'"
  obtains d1 d2 where "allowed_transition (ex_status e) ES_FAILED"
    and "step_history_events mint now (ex_id e) (running_attempt_pairs d (ex_id e)) SS_FAILED
      (recovery_message e) (recovery_strategy e \<noteq> RS_NOT_RETRYABLE)
      (recovered_tables di now e (running_attempt d (ex_id e)) d) = Inr d1"
    and "end_recovered_operation mint now e (running_attempt d (ex_id e))
      (skip_pending_steps now (ex_id e) d1) = Inr d2"
    and "add_execution_completed_event mint now (ex_id e) d2 = Inr d'"
  using assms unfolding fail_expired_def
  by (simp add: bind_res_eq_Inr split: if_split_asm) blast

lemma fail_expired_tables:
  assumes "fail_expired mint di now e d = Inr d'"
  shows "quiet_step (set_execution (ex_id e) (fenced_execution now) d) d'"
proof -
  from assms obtain d1 d2 where
    d1: "step_history_events mint now (ex_id e) (running_attempt_pairs d (ex_id e)) SS_FAILED
      (recovery_message e) (recovery_strategy e \<noteq> RS_NOT_RETRYABLE)
      (recovered_tables di now e (running_attempt d (ex_id e)) d) = Inr d1"
    and d2: "end_recovered_operation mint now e (running_attempt d (ex_id e))
      (skip_pending_steps now (ex_id e) d1) = Inr d2"
    and d': "add_execution_completed_event mint now (ex_id e) d2 = Inr d'"
    by (rule fail_expiredD)
  show ?thesis
    using quiet_recovered_tables quiet_step_history_events [OF d1] quiet_skip_pending_steps
      quiet_end_recovered_operation [OF d2] execution_completed.emit_quiet [OF d']
    by (meson quiet_step_trans)
qed

lemma recover_execution_step:
  assumes e: "execution_row d (ex_id e) = Some e" and run: "recover_execution mint di now e d = Inr (d', r)"
  shows "worker_step (ex_id e) d d'"
proof -
  have "worker_step (ex_id e) d d'" if "fail_expired mint (di (ex_id e)) now e d = Inr d'"
  proof (rule worker_step_then_quiet [OF worker_step_set_execution [OF e] fail_expired_tables [OF that]])
    show "exec_step e (fenced_execution now e)"
      using fail_expiredD [OF that] by (auto simp: fenced_execution_def exec_step_def)
  qed (simp add: fenced_execution_def execution_keys_kept_def)
  then show ?thesis
    using run begin_handover_step [OF e]
    by (auto simp: recover_execution_def hand_over_def bind_res_eq_Inr split: if_split_asm option.splits)
qed

lemma retry_unresolved_step:
  assumes e: "execution_row d (ex_id e) = Some e" and run: "retry_unresolved_execution now e d = Inr (d', r)"
  shows "worker_step (ex_id e) d d'"
proof -
  have "worker_step (ex_id e) d (set_execution (ex_id e) (\<lambda>e. e\<lparr>ex_runtime_session_cleanup_status := RC_PENDING,
      ex_updated_at := now, ex_version := ex_version e + 1\<rparr>) d)"
    by (rule worker_step_set_execution [OF e]) (simp_all add: exec_step_def execution_keys_kept_def)
  then show ?thesis
    using run worker_step_then_quiet [OF _ quiet_mark_attempt_pending]
    by (auto simp: retry_unresolved_execution_def Let_def)
qed

lemma expire_execution_step:
  assumes e: "execution_row d (ex_id e) = Some e" and run: "expire_execution mint now e d = Inr (d', r)"
  shows "worker_step (ex_id e) d d'"
proof -
  let ?d1 = "set_execution (ex_id e) (expired_execution now) d"
  from run obtain d2 where ok: "ex_status e = ES_QUEUED \<longrightarrow> allowed_transition (ex_status e) ES_FAILED"
    and d2: "(if ex_status e = ES_QUEUED
        then fail_active_operation_without_attempt mint e now expired_message None (skip_pending_steps now (ex_id e) ?d1)
        else Inr ?d1) = Inr d2"
    and d': "(if ex_status e = ES_QUEUED then add_execution_completed_event mint now (ex_id e) (mark_attempt_pending (ex_id e) d2)
        else Inr (mark_attempt_pending (ex_id e) d2)) = Inr d'"
    unfolding expire_execution_def Let_def by (auto simp: bind_res_eq_Inr split: if_split_asm)
  have "worker_step (ex_id e) d ?d1"
    by (rule worker_step_set_execution [OF e])
      (simp_all add: exec_step_def execution_keys_kept_def expired_execution_def Let_def)
  moreover have "quiet_step ?d1 d2"
    using d2 quiet_step_trans [OF quiet_skip_pending_steps quiet_fail_active_operation] by (auto split: if_split_asm)
  moreover have "quiet_step (mark_attempt_pending (ex_id e) d2) d'"
    using d' execution_completed.emit_quiet by (auto split: if_split_asm)
  ultimately show ?thesis using quiet_mark_attempt_pending by (meson worker_step_then_quiet)
qed

text \<open>A sequence of worker steps, each on its own Execution.\<close>

abbreviation worker_steps :: "db \<Rightarrow> db \<Rightarrow> bool" where
  "worker_steps \<equiv> (\<lambda>d d'. \<exists>i. worker_step i d d')\<^sup>*\<^sup>*"

lemma select_rows_ok:
  assumes "db_wf d"
  shows "distinct (map ex_id (select_rows P skipped d))"
    and "\<forall>e\<in>set (select_rows P skipped d). execution_row d (ex_id e) = Some e"
  using distinct_map_filter [OF db_wf_executions [OF assms]] execution_row_unique [OF assms]
  by (simp_all add: select_rows_def)

lemma first_rows_ok:
  assumes "db_wf d"
  shows "distinct (map ex_id (first_rows n key (select_rows P skipped d)))"
    and "\<forall>e\<in>set (first_rows n key (select_rows P skipped d)). execution_row d (ex_id e) = Some e"
proof -
  have "distinct (map ex_id (sort_key key (select_rows P skipped d)))"
    using select_rows_ok(1) [OF assms] by (simp add: distinct_map)
  then show "distinct (map ex_id (first_rows n key (select_rows P skipped d)))"
    by (simp add: first_rows_def flip: take_map)
  show "\<forall>e\<in>set (first_rows n key (select_rows P skipped d)). execution_row d (ex_id e) = Some e"
    using select_rows_ok(2) [OF assms] by (auto simp: first_rows_def dest: in_set_takeD)
qed

lemma select_rows_none:
  assumes wf: "db_wf d" and e: "e \<in> set (db_executions d)" "e \<notin> set (select_rows P skipped d)"
  shows "ex_id e \<notin> ex_id ` set (select_rows P skipped d)"
proof
  assume "ex_id e \<in> ex_id ` set (select_rows P skipped d)"
  then obtain x where x: "x \<in> set (select_rows P skipped d)" "ex_id x = ex_id e" by auto
  then have "x = e"
    using select_rows_ok(2) [OF wf] execution_row_unique [OF wf e(1)] by (metis option.inject)
  then show False using e(2) x(1) by simp
qed

locale batch =
  fixes f :: "execution_orm \<Rightarrow> db \<Rightarrow> worker_error + (db \<times> 'r list)"
  assumes row_step: "execution_row d (ex_id e) = Some e \<Longrightarrow> f e d = Inr (d', r) \<Longrightarrow> worker_step (ex_id e) d d'"
begin

lemma fold_frame:
  assumes "foldM_res (\<lambda>(d, out) e. bind_res (f e d) (\<lambda>(d', r). Inr (d', out @ r))) (d, acc) rows = Inr (d', out)"
    and "distinct (map ex_id rows)" and "\<forall>e\<in>set rows. execution_row d (ex_id e) = Some e"
  shows "worker_steps d d' \<and> (\<forall>j. j \<notin> ex_id ` set rows \<longrightarrow> execution_row d' j = execution_row d j) \<and>
    (\<forall>e\<in>set rows. \<exists>d1 d2 r. f e d1 = Inr (d2, r) \<and> execution_row d1 (ex_id e) = Some e \<and>
       execution_row d' (ex_id e) = execution_row d2 (ex_id e))"
  using assms
proof (induction rows arbitrary: d acc)
  case (Cons e rows)
  from Cons.prems(1) obtain d1 r where f: "f e d = Inr (d1, r)"
    and rest: "foldM_res (\<lambda>(d, out) e. bind_res (f e d) (\<lambda>(d', r). Inr (d', out @ r))) (d1, acc @ r) rows = Inr (d', out)"
    by (auto simp: bind_res_eq_Inr)
  have e: "execution_row d (ex_id e) = Some e" using Cons.prems(3) by simp
  have step: "worker_step (ex_id e) d d1" by (rule row_step [OF e f])
  then have frame: "execution_row d1 j = execution_row d j" if "j \<noteq> ex_id e" for j
    using that by (simp add: worker_step_def)
  have new: "ex_id e \<notin> ex_id ` set rows" using Cons.prems(2) by simp
  then have "\<forall>x\<in>set rows. execution_row d1 (ex_id x) = Some x"
    using Cons.prems(3) frame by (metis image_eqI list.set_intros(2))
  from Cons.IH [OF rest _ this] Cons.prems(2) have IH: "worker_steps d1 d'"
    "\<forall>j. j \<notin> ex_id ` set rows \<longrightarrow> execution_row d' j = execution_row d1 j"
    "\<forall>x\<in>set rows. \<exists>d1 d2 r. f x d1 = Inr (d2, r) \<and> execution_row d1 (ex_id x) = Some x \<and>
       execution_row d' (ex_id x) = execution_row d2 (ex_id x)" by simp_all
  have "\<exists>i. worker_step i d d1" using step by blast
  then have "worker_steps d d'" using IH(1) by (rule converse_rtranclp_into_rtranclp)
  moreover have "execution_row d' (ex_id e) = execution_row d1 (ex_id e)" using IH(2) new by blast
  ultimately show ?case using IH f e frame by auto
qed simp

lemma run_batch_frame:
  assumes "run_batch f rows d = Inr (d', out)" and "distinct (map ex_id rows)"
    and "\<forall>e\<in>set rows. execution_row d (ex_id e) = Some e"
  shows "worker_steps d d'" and "j \<notin> ex_id ` set rows \<Longrightarrow> execution_row d' j = execution_row d j"
    and "e \<in> set rows \<Longrightarrow> \<exists>d1 d2 r. f e d1 = Inr (d2, r) \<and> execution_row d1 (ex_id e) = Some e \<and>
       execution_row d' (ex_id e) = execution_row d2 (ex_id e)"
  using fold_frame [OF assms(1) [unfolded run_batch_def] assms(2,3)] by blast+

end

text \<open>A part of the state that a row's processing changes for that row only.\<close>

locale viewed_batch = batch f for f :: "execution_orm \<Rightarrow> db \<Rightarrow> worker_error + (db \<times> 'r list)" +
  fixes view :: "db \<Rightarrow> uuid \<Rightarrow> 'v"
  assumes view_frame: "f e d = Inr (d', r) \<Longrightarrow> j \<noteq> ex_id e \<Longrightarrow> view d' j = view d j"
begin

lemma fold_view_frame:
  "foldM_res (\<lambda>(d, out) e. bind_res (f e d) (\<lambda>(d', r). Inr (d', out @ r))) (d, acc) rows = Inr (d', out) \<Longrightarrow>
    j \<notin> ex_id ` set rows \<Longrightarrow> view d' j = view d j"
  using view_frame by (induction rows arbitrary: d acc) (auto simp: bind_res_eq_Inr)

lemma fold_view:
  assumes "foldM_res (\<lambda>(d, out) e. bind_res (f e d) (\<lambda>(d', r). Inr (d', out @ r))) (d, acc) rows = Inr (d', out)"
    and "distinct (map ex_id rows)" and "\<forall>e\<in>set rows. execution_row d (ex_id e) = Some e" and "e \<in> set rows"
  shows "\<exists>d1 d2 r. f e d1 = Inr (d2, r) \<and> execution_row d1 (ex_id e) = Some e \<and>
    view d1 (ex_id e) = view d (ex_id e) \<and> execution_row d' (ex_id e) = execution_row d2 (ex_id e) \<and>
    view d' (ex_id e) = view d2 (ex_id e)"
  using assms
proof (induction rows arbitrary: d acc)
  case (Cons x rows)
  from Cons.prems(1) obtain d1 r where f: "f x d = Inr (d1, r)"
    and rest: "foldM_res (\<lambda>(d, out) e. bind_res (f e d) (\<lambda>(d', r). Inr (d', out @ r))) (d1, acc @ r) rows = Inr (d', out)"
    by (auto simp: bind_res_eq_Inr)
  have x: "execution_row d (ex_id x) = Some x" using Cons.prems(3) by simp
  have frame: "execution_row d1 j = execution_row d j" if "j \<noteq> ex_id x" for j
    using row_step [OF x f] that by (simp add: worker_step_def)
  have new: "ex_id x \<notin> ex_id ` set rows" and dist: "distinct (map ex_id rows)" using Cons.prems(2) by simp_all
  have rows: "\<forall>y\<in>set rows. execution_row d1 (ex_id y) = Some y"
    using Cons.prems(3) frame new by (metis image_eqI list.set_intros(2))
  show ?case
  proof (cases "e = x")
    case True
    have "execution_row d' (ex_id x) = execution_row d1 (ex_id x)"
      using fold_frame [OF rest dist rows] new by blast
    then show ?thesis using True f x fold_view_frame [OF rest new] by blast
  next
    case False
    with Cons.prems(4) have e: "e \<in> set rows" by simp
    with new have "ex_id e \<noteq> ex_id x" by (metis image_eqI)
    then show ?thesis using Cons.IH [OF rest dist rows e] view_frame [OF f] by metis
  qed
qed simp

end

definition handover_of :: "db \<Rightarrow> uuid \<Rightarrow> handover_orm option" where
  "handover_of d i = scalar (\<lambda>h. ho_execution_id h = i) (db_handovers d)"

lemma skip_pending_handovers [simp]: "db_handovers (skip_pending_steps now i d) = db_handovers d"
  by (simp add: skip_pending_steps_def set_steps_def)

lemma recovered_tables_handovers [simp]: "db_handovers (recovered_tables di now e a d) = db_handovers d"
  by (simp add: recovered_tables_def add_interrupted_diagnostic_def end_attempts_def
      fail_running_steps_def set_row_defs Let_def)

lemma end_recovered_operation_handovers:
  "end_recovered_operation mint now e a d = Inr d' \<Longrightarrow> db_handovers d' = db_handovers d"
  unfolding end_recovered_operation_def
  by (auto simp: set_operations_def same_tables_def split: option.splits dest!: operation_completed.emit_same)

lemma fail_expired_handovers:
  assumes "fail_expired mint di now e d = Inr d'"
  shows "db_handovers d' = db_handovers d"
proof -
  from assms obtain d1 d2 where
    d1: "step_history_events mint now (ex_id e) (running_attempt_pairs d (ex_id e)) SS_FAILED
      (recovery_message e) (recovery_strategy e \<noteq> RS_NOT_RETRYABLE)
      (recovered_tables di now e (running_attempt d (ex_id e)) d) = Inr d1"
    and d2: "end_recovered_operation mint now e (running_attempt d (ex_id e))
      (skip_pending_steps now (ex_id e) d1) = Inr d2"
    and d': "add_execution_completed_event mint now (ex_id e) d2 = Inr d'"
    by (rule fail_expiredD)
  show ?thesis
    using step_history_same [OF d1] end_recovered_operation_handovers [OF d2]
      execution_completed.emit_same [OF d'] by (simp add: same_tables_def)
qed

text \<open>What the pass makes of one row, and of the handovers.\<close>

lemma recover_execution_row:
  assumes run: "recover_execution mint di now e d = Inr (d', r)" and row: "execution_row d (ex_id e) = Some e"
  shows "if handover_of d (ex_id e) \<noteq> None then d' = d
    else (\<exists>e'. execution_row d' (ex_id e) = Some e' \<and>
      (e' = fenced_execution now e \<and> handover_of d' (ex_id e) = None \<or>
       e' = e\<lparr>ex_lease_owner := None, ex_lease_expires_at := None, ex_heartbeat_at := None,
         ex_fencing_token := ex_fencing_token e + 1, ex_updated_at := now, ex_version := ex_version e + 1\<rparr> \<and>
       ex_runtime_session_id e \<noteq> None \<and> handover_of d' (ex_id e) \<noteq> None))"
proof (cases "handover_of d (ex_id e)")
  case None
  show ?thesis
  proof (cases "hand_over mint now e d")
    case None': None
    then have f: "fail_expired mint (di (ex_id e)) now e d = Inr d'"
      using run None by (auto simp: recover_execution_def handover_of_def bind_res_eq_Inr)
    have "execution_row d' (ex_id e) = Some (fenced_execution now e)"
      using fail_expired_tables [OF f] row
      by (simp add: quiet_step_def set_execution_row fenced_execution_def)
    then show ?thesis using None fail_expired_handovers [OF f] by (simp add: handover_of_def)
  next
    case (Some x)
    then obtain a h where b: "begin_handover mint e a h HR_EXECUTOR_UNRESPONSIVE now
        (opt_or (ex_heartbeat_at e) now) d = Inr d'" and s: "ex_runtime_session_id e \<noteq> None"
      using run None by (auto simp: recover_execution_def handover_of_def hand_over_def bind_res_eq_Inr
          split: if_split_asm option.splits)
    show ?thesis
      using None s begin_handover_rows(2) [OF b row]
      by (simp add: handover_of_def begin_handover_rows(1) [OF b] scalar_append)
  qed
qed (use run in \<open>simp add: recover_execution_def handover_of_def\<close>)

lemma recover_execution_view:
  assumes "recover_execution mint di now e d = Inr (d', r)" and "j \<noteq> ex_id e"
  shows "handover_of d' j = handover_of d j"
  using assms fail_expired_handovers begin_handover_rows(1)
  by (fastforce simp: recover_execution_def hand_over_def handover_of_def bind_res_eq_Inr scalar_append
      split: if_split_asm option.splits)

interpretation recovery_batch: viewed_batch "recover_execution mint di now" handover_of
  by unfold_locales (rule recover_execution_step recover_execution_view; assumption)+

interpretation unresolved_batch: batch "retry_unresolved_execution now"
  by unfold_locales (rule retry_unresolved_step)

interpretation expiry_batch: batch "expire_execution mint now"
  by unfold_locales (rule expire_execution_step)

end
