(* ===== verification/Multi_Lifecycle.thy ===== *)
theory Multi_Lifecycle
  imports Lease_Recovery
begin

text \<open>
  \<open>execution_worker/multi_lifecycle.py\<close>: the audit that applies the deadlines of an Execution.
  Executions never claimed within the queue timeout fail, Executions past their maximum runtime are
  handed to the cancellation path, and a waiting MULTI Execution that passed a deadline or lost its
  session ends. The two passes over many rows are batches (\<open>Lease_Recovery\<close>); the audit of one
  waiting Execution works on an observation made in an earlier transaction.
\<close>

subsection \<open>Queue timeouts\<close>

definition queue_timed_out :: "worker_settings \<Rightarrow> datetime \<Rightarrow> execution_orm \<Rightarrow> bool" where
  "queue_timed_out ws now e \<longleftrightarrow>
     ex_status e = ES_QUEUED \<and> ex_execution_expires_at e = None \<and>
     ex_created_at e \<le> now - seconds (ws_queue_timeout_seconds ws)"

definition queue_timeout_message :: "worker_settings \<Rightarrow> string" where
  "queue_timeout_message ws =
     ''No Runtime Target accepted the Execution within '' @ int_str (ws_queue_timeout_seconds ws) @ '' seconds.''"

definition queue_failed_execution :: "worker_settings \<Rightarrow> datetime \<Rightarrow> execution_orm \<Rightarrow> execution_orm" where
  "queue_failed_execution ws now e =
     e\<lparr>ex_status := ES_FAILED, ex_error_message := Some (queue_timeout_message ws),
       ex_failure_type := Some FT_QUEUE_TIMEOUT, ex_finished_at := Some now, ex_updated_at := now,
       ex_retry_strategy := RS_NOT_RETRYABLE, ex_retry_from_sequence := None,
       ex_version := ex_version e + 1\<rparr>"

definition fail_queued_execution ::
    "minter \<Rightarrow> worker_settings \<Rightarrow> datetime \<Rightarrow> execution_orm \<Rightarrow> db \<Rightarrow> worker_error + (db \<times> unit list)" where
  "fail_queued_execution mint ws now e d =
     bind_res (require_transition (ex_status e) ES_FAILED) (\<lambda>_.
     bind_res (fail_active_operation_without_attempt mint e now (queue_timeout_message ws) (Some FT_QUEUE_TIMEOUT)
         (skip_pending_steps now (ex_id e) (set_execution (ex_id e) (queue_failed_execution ws now) d))) (\<lambda>d1.
     bind_res (add_execution_completed_event mint now (ex_id e) d1) (\<lambda>d2. Inr (d2, []))))"

definition fail_queue_timeouts ::
    "minter \<Rightarrow> worker_settings \<Rightarrow> datetime \<Rightarrow> (uuid \<Rightarrow> bool) \<Rightarrow> db \<Rightarrow> worker_error + (db \<times> unit list)" where
  "fail_queue_timeouts mint ws now skipped d =
     run_batch (fail_queued_execution mint ws now)
       (first_rows 200 ex_created_at (select_rows (queue_timed_out ws now) skipped d)) d"

subsection \<open>Maximum runtime\<close>

definition runtime_expired :: "worker_settings \<Rightarrow> datetime \<Rightarrow> execution_orm \<Rightarrow> bool" where
  "runtime_expired ws now e \<longleftrightarrow>
     ex_status e \<in> {ES_QUEUED, ES_RUNNING, ES_FINALIZING} \<and>
     (ex_finalized_by e \<noteq> Some FB_MAX_RUNTIME \<and> past (ex_execution_expires_at e) now \<or>
      ex_finalized_by e = Some FB_MAX_RUNTIME \<and>
        past (ex_execution_expires_at e) (now - seconds (ws_queue_timeout_seconds ws)))"

definition stop_requested_execution :: "datetime \<Rightarrow> execution_orm \<Rightarrow> execution_orm" where
  "stop_requested_execution now e =
     e\<lparr>ex_status := ES_CANCEL_REQUESTED, ex_finalized_by := Some FB_MAX_RUNTIME,
       ex_cancellation_reason := Some ''Execution exceeded its maximum runtime.'',
       ex_operation_wait_expires_at := None, ex_updated_at := now, ex_version := ex_version e + 1\<rparr>"

text \<open>One row of the pass; the result is the Execution whose cancellation is dispatched.\<close>

definition request_stop :: "datetime \<Rightarrow> execution_orm \<Rightarrow> db \<Rightarrow> worker_error + (db \<times> uuid list)" where
  "request_stop now e d =
     bind_res (require_transition (ex_status e) ES_CANCEL_REQUESTED) (\<lambda>_.
       Inr (set_execution (ex_id e) (stop_requested_execution now) d, [ex_id e]))"

definition request_expired_execution_cancellations ::
    "worker_settings \<Rightarrow> datetime \<Rightarrow> (uuid \<Rightarrow> bool) \<Rightarrow> db \<Rightarrow> worker_error + (db \<times> uuid list)" where
  "request_expired_execution_cancellations ws now skipped d =
     run_batch (request_stop now) (select_rows (runtime_expired ws now) skipped d) d"

subsection \<open>Ending a waiting Execution\<close>

definition failed_waiting_execution ::
    "datetime \<Rightarrow> failure_type \<Rightarrow> string \<Rightarrow> finalized_by option \<Rightarrow> execution_orm \<Rightarrow> execution_orm" where
  "failed_waiting_execution now ft message fb e =
     (let cleanup_required = (ft \<noteq> FT_RUNTIME_SESSION_LOST \<and> ex_runtime_session_id e \<noteq> None) in
      e\<lparr>ex_status := ES_FAILED, ex_error_message := Some message, ex_failure_type := Some ft,
        ex_finalized_by := fb, ex_finished_at := Some now, ex_updated_at := now,
        ex_lease_owner := None, ex_lease_expires_at := None, ex_operation_wait_expires_at := None,
        ex_retry_strategy := RS_NOT_RETRYABLE, ex_retry_from_sequence := None,
        ex_retained_runtime_session_until := None,
        ex_runtime_session_cleanup_status := (if cleanup_required then RC_PENDING else RC_NOT_REQUIRED),
        ex_recovery_count := ex_recovery_count e + 1, ex_version := ex_version e + 1,
        ex_runtime_session_id :=
          (if ft = FT_RUNTIME_SESSION_LOST then None else ex_runtime_session_id e)\<rparr>)"

definition waiting_attempt :: "db \<Rightarrow> uuid \<Rightarrow> attempt_orm option" where
  "waiting_attempt d i = scalar (\<lambda>a. at_execution_id a = i \<and> at_status a = AS_WAITING) (db_attempts d)"

definition fail_waiting_attempt ::
    "datetime \<Rightarrow> failure_type \<Rightarrow> string \<Rightarrow> runtime_session_cleanup_status \<Rightarrow> attempt_orm option \<Rightarrow> db \<Rightarrow> db" where
  "fail_waiting_attempt now ft message cleanup attempt d =
     (case attempt of
        None \<Rightarrow> d
      | Some a \<Rightarrow> set_attempt (at_id a) (\<lambda>a. a\<lparr>at_status := AS_FAILED, at_lease_owner := None,
          at_lease_expires_at := None, at_error_message := Some message, at_failure_type := Some ft,
          at_retry_strategy := RS_NOT_RETRYABLE, at_runtime_session_cleanup_status := cleanup,
          at_finished_at := Some now\<rparr>) d)"

definition fail_locked_waiting_execution ::
    "minter \<Rightarrow> datetime \<Rightarrow> failure_type \<Rightarrow> string \<Rightarrow> finalized_by option \<Rightarrow> execution_orm \<Rightarrow> db \<Rightarrow>
       worker_error + (db \<times> runtime_observation option)" where
  "fail_locked_waiting_execution mint now ft message fb e d =
     (let f = failed_waiting_execution now ft message fb;
          cleanup = ex_runtime_session_cleanup_status (f e)
      in bind_res (require_transition (ex_status e) ES_FAILED) (\<lambda>_.
         bind_res (add_execution_completed_event mint now (ex_id e)
             (fail_waiting_attempt now ft message cleanup (waiting_attempt d (ex_id e))
               (set_execution (ex_id e) f d))) (\<lambda>d1.
         Inr (d1, if cleanup = RC_PENDING then Some (capture (f e)) else None))))"

definition fail_waiting_execution ::
    "minter \<Rightarrow> datetime \<Rightarrow> runtime_observation \<Rightarrow> failure_type \<Rightarrow> string \<Rightarrow> db \<Rightarrow>
       worker_error + (db \<times> runtime_observation option)" where
  "fail_waiting_execution mint now ob ft message d =
     (case observation_current ob d of
        None \<Rightarrow> Inr (d, None)
      | Some e \<Rightarrow>
          if ex_status e \<noteq> ES_WAITING_FOR_OPERATION then Inr (d, None)
          else fail_locked_waiting_execution mint now ft message None e d)"

definition end_failure :: "finalized_by \<Rightarrow> operation_orm option \<Rightarrow> failure_type \<times> string" where
  "end_failure fb operation =
     (case operation of
        Some q \<Rightarrow>
          if operation_status_is_terminal (op_status q)
          then (opt_or (op_failure_type q) FT_TOOL_ERROR,
                take 2000 (''No further Operation arrived before the '' @
                  (if fb = FB_MAX_RUNTIME then ''maximum runtime'' else ''wait deadline'') @
                  ''; the last Operation failed'' @
                  (if str_truthy (op_error_message q) then '': '' @ the (op_error_message q) else ''.'')))
          else (if fb = FB_MAX_RUNTIME then FT_EXECUTION_TIMEOUT else FT_OPERATION_WAIT_TIMEOUT,
                ''The Execution ended at its '' @
                  (if fb = FB_MAX_RUNTIME then ''maximum runtime'' else ''Operation wait deadline'') @
                  '' without a completed Operation.'')
      | None \<Rightarrow>
          (if fb = FB_MAX_RUNTIME then FT_EXECUTION_TIMEOUT else FT_OPERATION_WAIT_TIMEOUT,
           ''The Execution ended at its '' @
             (if fb = FB_MAX_RUNTIME then ''maximum runtime'' else ''Operation wait deadline'') @
             '' without a completed Operation.''))"

definition finalizing_execution :: "datetime \<Rightarrow> finalized_by \<Rightarrow> execution_orm \<Rightarrow> execution_orm" where
  "finalizing_execution now fb e =
     e\<lparr>ex_status := ES_FINALIZING, ex_finalization_requested := True, ex_finalized_by := Some fb,
       ex_operation_wait_expires_at := None, ex_updated_at := now, ex_version := ex_version e + 1\<rparr>"

definition end_waiting_execution ::
    "minter \<Rightarrow> datetime \<Rightarrow> runtime_observation \<Rightarrow> finalized_by \<Rightarrow> db \<Rightarrow>
       worker_error + (db \<times> runtime_observation option)" where
  "end_waiting_execution mint now ob fb d =
     (case observation_current ob d of
        None \<Rightarrow> Inr (d, None)
      | Some e \<Rightarrow>
          if ex_status e \<noteq> ES_WAITING_FOR_OPERATION then Inr (d, None)
          else
            let operation = Option.bind (ex_active_operation_id e) (operation_row d) in
            if map_option op_status operation = Some OS_SUCCEEDED
            then bind_res (require_transition (ex_status e) ES_FINALIZING) (\<lambda>_.
                   Inr (set_execution (ex_id e) (finalizing_execution now fb) d, None))
            else (case end_failure fb operation of (ft, message) \<Rightarrow>
                    fail_locked_waiting_execution mint now ft message (Some fb) e d))"

subsection \<open>The audit of one waiting Execution\<close>

text \<open>What the driver answered: it could not be asked, or the session exists or not.\<close>

datatype session_probe = ProbeFailed | SessionExists bool

text \<open>
  \<open>seen\<close> is the row the audit read, \<open>now\<close> the instant of that reading, \<open>later\<close> the clock of the
  ending transaction.
\<close>

definition audit_waiting ::
    "minter \<Rightarrow> datetime \<Rightarrow> datetime \<Rightarrow> execution_orm \<Rightarrow> runtime_target_orm option \<Rightarrow> session_probe \<Rightarrow> db \<Rightarrow>
       worker_error + (db \<times> runtime_observation option)" where
  "audit_waiting mint now later seen target probe d =
     (let ob = capture seen in
      if past (ex_execution_expires_at seen) now
      then end_waiting_execution mint later ob FB_MAX_RUNTIME d
      else if past (ex_operation_wait_expires_at seen) now
      then end_waiting_execution mint later ob FB_WAIT_TIMEOUT d
      else if (case target of None \<Rightarrow> True | Some t \<Rightarrow> \<not> rt_enabled t)
      then fail_waiting_execution mint later ob FT_RUNTIME_UNAVAILABLE
        ''The assigned Runtime Target is missing or disabled while waiting for the Agent.'' d
      else if ex_runtime_session_id seen = None
      then fail_waiting_execution mint later ob FT_RUNTIME_SESSION_LOST
        ''The retained MULTI Runtime session reference was lost.'' d
      else (case probe of
              ProbeFailed \<Rightarrow> Inr (d, None)
            | SessionExists found \<Rightarrow>
                if found then Inr (d, None)
                else fail_waiting_execution mint later ob FT_RUNTIME_SESSION_LOST
                  ''The retained MULTI Runtime session no longer exists.'' d))"

subsection \<open>Worker steps\<close>

lemma fail_queued_step:
  assumes e: "execution_row d (ex_id e) = Some e" and run: "fail_queued_execution mint ws now e d = Inr (d', r)"
  shows "worker_step (ex_id e) d d'"
proof -
  let ?d1 = "set_execution (ex_id e) (queue_failed_execution ws now) d"
  from run obtain d1 where ok: "allowed_transition (ex_status e) ES_FAILED"
    and d1: "fail_active_operation_without_attempt mint e now (queue_timeout_message ws) (Some FT_QUEUE_TIMEOUT)
      (skip_pending_steps now (ex_id e) ?d1) = Inr d1"
    and d': "add_execution_completed_event mint now (ex_id e) d1 = Inr d'"
    unfolding fail_queued_execution_def by (auto simp: bind_res_eq_Inr split: if_split_asm)
  have "worker_step (ex_id e) d ?d1"
    by (rule worker_step_set_execution [OF e])
      (use ok in \<open>simp_all add: exec_step_def execution_keys_kept_def queue_failed_execution_def\<close>)
  then show ?thesis
    using quiet_skip_pending_steps quiet_fail_active_operation [OF d1] execution_completed.emit_quiet [OF d']
    by (meson worker_step_then_quiet)
qed

lemma request_stop_step:
  assumes e: "execution_row d (ex_id e) = Some e" and run: "request_stop now e d = Inr (d', r)"
  shows "worker_step (ex_id e) d d'"
proof -
  from run have ok: "allowed_transition (ex_status e) ES_CANCEL_REQUESTED"
    and d': "d' = set_execution (ex_id e) (stop_requested_execution now) d"
    unfolding request_stop_def by (auto simp: bind_res_eq_Inr split: if_split_asm)
  show ?thesis unfolding d'
    by (rule worker_step_set_execution [OF e])
      (use ok in \<open>simp_all add: exec_step_def execution_keys_kept_def stop_requested_execution_def\<close>)
qed

interpretation queue_timeout_batch: batch "fail_queued_execution mint ws now"
  by unfold_locales (rule fail_queued_step)

interpretation max_runtime_batch: batch "request_stop now"
  by unfold_locales (rule request_stop_step)

lemma quiet_fail_waiting_attempt [quiet]: "quiet_step d (fail_waiting_attempt now ft message cleanup a d)"
  by (simp add: fail_waiting_attempt_def quiet_set_rows split: option.split)

lemma fail_locked_waitingD:
  assumes "fail_locked_waiting_execution mint now ft message fb e d = Inr (d', r)"
  shows "allowed_transition (ex_status e) ES_FAILED"
    and "add_execution_completed_event mint now (ex_id e)
      (fail_waiting_attempt now ft message
        (ex_runtime_session_cleanup_status (failed_waiting_execution now ft message fb e))
        (waiting_attempt d (ex_id e))
        (set_execution (ex_id e) (failed_waiting_execution now ft message fb) d)) = Inr d'"
  using assms unfolding fail_locked_waiting_execution_def Let_def
  by (simp_all add: bind_res_eq_Inr split: if_split_asm)

lemma fail_locked_waiting_step:
  assumes e: "execution_row d (ex_id e) = Some e"
    and run: "fail_locked_waiting_execution mint now ft message fb e d = Inr (d', r)"
  shows "worker_step (ex_id e) d d'"
proof -
  have "worker_step (ex_id e) d (set_execution (ex_id e) (failed_waiting_execution now ft message fb) d)"
    by (rule worker_step_set_execution [OF e])
      (use fail_locked_waitingD(1) [OF run] in
        \<open>simp_all add: exec_step_def execution_keys_kept_def failed_waiting_execution_def Let_def\<close>)
  then show ?thesis
    using quiet_fail_waiting_attempt execution_completed.emit_quiet [OF fail_locked_waitingD(2) [OF run]]
    by (meson worker_step_then_quiet)
qed

lemma finalizing_step:
  assumes "execution_row d (ex_id e) = Some e" and "ex_status e = ES_WAITING_FOR_OPERATION"
  shows "worker_step (ex_id e) d (set_execution (ex_id e) (finalizing_execution now fb) d)"
  by (rule worker_step_set_execution [OF assms(1)])
    (use assms(2) in \<open>simp_all add: exec_step_def execution_keys_kept_def finalizing_execution_def\<close>)

interpretation fail_waiting: worker_transaction
  "fail_waiting_execution mint now ob ft message" "ro_execution_id ob"
proof
  fix d d' r
  assume wf: "db_wf d" and run: "fail_waiting_execution mint now ob ft message d = Inr (d', r)"
  show "worker_step (ro_execution_id ob) d d'"
  proof (cases "observation_current ob d")
    case (Some e)
    note e = observation_row [OF wf Some]
    then have row: "execution_row d (ex_id e) = Some e" by simp
    have "worker_step (ex_id e) d d'"
      using run Some fail_locked_waiting_step [OF row]
      by (simp add: fail_waiting_execution_def split: if_split_asm)
    then show ?thesis using e(2) by simp
  qed (use run in \<open>simp add: fail_waiting_execution_def\<close>)
qed

interpretation end_waiting: worker_transaction
  "end_waiting_execution mint now ob fb" "ro_execution_id ob"
proof
  fix d d' r
  assume wf: "db_wf d" and run: "end_waiting_execution mint now ob fb d = Inr (d', r)"
  show "worker_step (ro_execution_id ob) d d'"
  proof (cases "observation_current ob d")
    case (Some e)
    note e = observation_row [OF wf Some]
    then have row: "execution_row d (ex_id e) = Some e" by simp
    obtain ft message where f: "end_failure fb (Option.bind (ex_active_operation_id e) (operation_row d)) = (ft, message)"
      by fastforce
    have "worker_step (ex_id e) d d'"
      using run Some fail_locked_waiting_step [OF row] finalizing_step [OF row]
      by (auto simp: end_waiting_execution_def Let_def bind_res_eq_Inr f split: if_split_asm)
    then show ?thesis using e(2) by simp
  qed (use run in \<open>simp add: end_waiting_execution_def\<close>)
qed

interpretation audit_waiting: worker_transaction
  "audit_waiting mint now later seen target probe" "ex_id seen"
proof
  fix d d' r
  assume wf: "db_wf d" and run: "audit_waiting mint now later seen target probe d = Inr (d', r)"
  have "ro_execution_id (capture seen) = ex_id seen" by (simp add: capture_def)
  then have ends: "end_waiting_execution mint later (capture seen) fb d = Inr (d', r) \<Longrightarrow> worker_step (ex_id seen) d d'"
    "fail_waiting_execution mint later (capture seen) ft message d = Inr (d', r) \<Longrightarrow> worker_step (ex_id seen) d d'"
    for fb ft message
    using end_waiting.run_step [OF wf] fail_waiting.run_step [OF wf] by metis+
  show "worker_step (ex_id seen) d d'"
    using run unfolding audit_waiting_def Let_def
    by (cases probe) (auto split: if_split_asm dest: ends)
qed

end
