(* ===== verification/Event_Log.thy ===== *)
theory Event_Log
  imports Event_Writer Command_Effects
begin

text \<open>
  The promises of the event writer, stated on its operations and run on the demo Execution of
  \<open>Command_Effects\<close>: consecutive numbering with one Outbox row per event, and completion
  events that always meet the public contract, so that a worker transaction that has just
  finished an Operation or an Execution is not rolled back by its own event.
\<close>


text \<open>
  The completion event of an Operation is always accepted by the
  contract and recorded: whatever mix of Step results the Operation has, the summary adds up, the
  results are in Step order without duplicates, and an error is present exactly when the Operation
  did not succeed.
\<close>

lemma operation_completion_recorded:
  assumes "db_wf d" and "execution_row d i = Some e" and "operation_row d (op_id q) = Some q"
    and "operation_steps_owned d (op_id q) i" and "result_history_ok d (op_id q)"
    and "1 \<le> op_operation_number q" and "operation_status_is_terminal (op_status q)"
    and "ex_status e = ES_WAITING_FOR_OPERATION \<or> execution_status_is_terminal (ex_status e)"
    and "0 \<le> ex_version e" and "message_bounded (op_error_message q)"
  shows "\<exists>d'. add_operation_completed_event mint now i (op_id q) d = Inr d' \<and>
    events_appended i d d' \<and> event_numbers d' i = event_numbers d i @ [last_event_number d i + 1]"
proof -
  have i: "ex_id e = i" using execution_row_SomeD [OF assms(2)] by simp
  have "payload_ok (OperationCompleted (operation_completed_payload_of d e q))"
    by (rule operation_completed_payload_valid) (use assms i in auto)
  then obtain d' where d': "persist_execution_event mint now i
      (OperationCompleted (operation_completed_payload_of d e q)) d = Inr d'"
    using persist_execution_event_total [OF assms(2)] by blast
  then have "event_numbers d' i = event_numbers d i @ [last_event_number d i + 1]"
    by (elim persist_execution_event_Inr) (simp add: event_numbers_def)
  then show ?thesis
    using d' assms(2,3) persist_appends [OF d'] by (simp add: add_operation_completed_event_def)
qed

text \<open>
  The completion event of a terminal Execution is always
  accepted by the contract and recorded, for every failure type, retry strategy and cancellation
  reason the schemas admit.
\<close>

lemma execution_completion_recorded:
  assumes "execution_row d i = Some e" and "execution_status_is_terminal (ex_status e)"
    and "message_bounded (ex_error_message e)" and "message_bounded (ex_cancellation_reason e)"
    and "str_len 1 255 (ex_user_id e)" and "opt_str_len 255 (ex_project_id e)"
    and "opt_str_len 255 (ex_session_id e)"
  shows "\<exists>d'. add_execution_completed_event mint now i d = Inr d' \<and>
    events_appended i d d' \<and> event_numbers d' i = event_numbers d i @ [last_event_number d i + 1]"
proof -
  have "payload_ok (ExecutionCompleted (execution_completed_payload_of d e))"
    using assms by (intro execution_completed_payload_valid)
  then obtain d' where d': "persist_execution_event mint now i
      (ExecutionCompleted (execution_completed_payload_of d e)) d = Inr d'"
    using persist_execution_event_total [OF assms(1)] by blast
  then have "event_numbers d' i = event_numbers d i @ [last_event_number d i + 1]"
    by (elim persist_execution_event_Inr) (simp add: event_numbers_def)
  then show ?thesis
    using d' assms(1) persist_appends [OF d'] by (simp add: add_execution_completed_event_def)
qed

subsection \<open>Concrete events\<close>

definition demo_mint :: minter where
  "demo_mint i n = (100 + 2 * nat n, 101 + 2 * nat n)"

lemma demo_base_rows:
  "execution_row (demo_base m) 10 = Some (execution_from_domain
     (submitted_execution demo_sha 5 demo_ids ''fp'' (demo_submit m ''python'')))"
  by (simp add: execution_row_def demo_base_def submitted_db_def empty_db_def demo_ids_def)


definition demo_done :: db where
  "demo_done = demo_at OM_SINGLE (\<lambda>r. r\<lparr>ex_status := ES_FAILED, ex_failure_type := Some FT_TOOL_ERROR,
     ex_error_message := Some ''boom'', ex_version := 2\<rparr>) OS_FAILED"

lemma demo_done_row:
  obtains e where "execution_row demo_done 10 = Some e" "ex_status e = ES_FAILED"
    "ex_error_message e = Some ''boom''" "ex_cancellation_reason e = None" "ex_version e = 2"
    "ex_user_id e = ''u''" "ex_project_id e = Some ''p''" "ex_session_id e = None"
  by (simp add: demo_done_def demo_at_def execution_row_def demo_base_def submitted_db_def
        empty_db_def submitted_execution_def new_execution_def row_simps demo_submit_def demo_ids_def)

lemma demo_done_operation:
  obtains q where "operation_row demo_done (op_id q) = Some q" "op_id q = 20"
    "op_operation_number q = 1" "op_status q = OS_FAILED" "op_error_message q = None"
  by (simp add: demo_done_def demo_at_def operation_row_def demo_base_def submitted_db_def
        empty_db_def submitted_operation_def new_operation_def row_simps demo_submit_def demo_ids_def)

lemma operation_completion_recorded_witness:
  "\<exists>d'. add_operation_completed_event demo_mint 6 10 20 demo_done = Inr d' \<and>
     event_numbers d' 10 = event_numbers demo_done 10 @ [last_event_number demo_done 10 + 1]"
proof -
  obtain e where e: "execution_row demo_done 10 = Some e" "ex_status e = ES_FAILED" "ex_version e = 2"
    by (rule demo_done_row)
  obtain q where q: "operation_row demo_done (op_id q) = Some q" "op_id q = 20"
    "op_operation_number q = 1" "op_status q = OS_FAILED" "op_error_message q = None"
    by (rule demo_done_operation)
  have own: "operation_steps_owned demo_done 20 10" and hist: "result_history_ok demo_done 20"
    by code_simp+
  have wf: "db_wf demo_done" unfolding demo_done_def by (rule demo_at_wf(1)) simp_all
  have "\<exists>d'. add_operation_completed_event demo_mint 6 10 (op_id q) demo_done = Inr d' \<and>
      events_appended 10 demo_done d' \<and>
      event_numbers d' 10 = event_numbers demo_done 10 @ [last_event_number demo_done 10 + 1]"
    by (rule operation_completion_recorded [OF wf e(1) q(1)])
      (simp_all add: q e own hist operation_status_is_terminal_def execution_status_is_terminal_def
        message_bounded_def)
  then show ?thesis by (auto simp: q)
qed

lemma execution_completion_recorded_witness:
  "\<exists>d'. add_execution_completed_event demo_mint 6 10 demo_done = Inr d' \<and>
     event_numbers d' 10 = event_numbers demo_done 10 @ [last_event_number demo_done 10 + 1]"
proof -
  obtain e where e: "execution_row demo_done 10 = Some e" "ex_status e = ES_FAILED"
    "ex_error_message e = Some ''boom''" "ex_cancellation_reason e = None" "ex_version e = 2"
    "ex_user_id e = ''u''" "ex_project_id e = Some ''p''" "ex_session_id e = None"
    by (rule demo_done_row)
  have "\<exists>d'. add_execution_completed_event demo_mint 6 10 demo_done = Inr d' \<and>
      events_appended 10 demo_done d' \<and>
      event_numbers d' 10 = event_numbers demo_done 10 @ [last_event_number demo_done 10 + 1]"
    by (rule execution_completion_recorded [OF e(1)])
      (simp_all add: e execution_status_is_terminal_def message_bounded_def str_len_def)
  then show ?thesis by auto
qed

end
