(* ===== verification/Claim_Properties.thy ===== *)
theory Claim_Properties
  imports Claiming Event_Log
begin

text \<open>
  What a claim of \<open>Claiming\<close> guarantees: the worker that gets an Execution holds the only valid
  lease on it, and no claim ever gives a Runtime Target more Executions than it may run.
\<close>

subsection \<open>The granted lease\<close>

lemma attempt_row_set_attempt:
  assumes "\<And>a. at_id (g a) = at_id a"
  shows "attempt_row (set_attempt i g d) j =
    (if j = i then map_option g (attempt_row d j) else attempt_row d j)"
proof -
  have "attempt_row (set_attempt i g d) j =
      map_option (\<lambda>a. if at_id a = i then g a else a) (attempt_row d j)"
    unfolding attempt_row_def set_attempt_def by (simp add: scalar_key_update_where assms)
  then show ?thesis
    by (cases "attempt_row d j") (auto simp: attempt_row_def dest: scalar_SomeD)
qed

lemma attempt_row_frames [simp]:
  "attempt_row (set_execution i f d) j = attempt_row d j"
  "attempt_row (set_operations P h d) j = attempt_row d j"
  "attempt_row (delete_handover i d) j = attempt_row d j"
  "attempt_row (start_operation q k now d) j = attempt_row d j"
  by (cases q; simp add: attempt_row_def)+

lemma attempts_start_operation [simp]: "db_attempts (start_operation q k now d) = db_attempts d"
  by (cases q) simp_all

lemma attempt_row_unique:
  "distinct (map at_id (db_attempts d)) \<Longrightarrow> a \<in> set (db_attempts d) \<Longrightarrow> attempt_row d (at_id a) = Some a"
  unfolding attempt_row_def by (rule scalar_key_unique) simp_all

lemma attempt_row_inserted:
  "insert_attempt a d = Inr d1 \<Longrightarrow> attempt_row d1 (at_id a) = Some a"
  using not_key_imageD [of "at_id a" at_id "set (db_attempts d)"]
  by (auto simp: insert_attempt_Inr attempt_row_def scalar_append split: option.splits dest: scalar_SomeD)

definition granted :: "worker_settings \<Rightarrow> string \<Rightarrow> datetime \<Rightarrow> uuid \<Rightarrow> uuid \<Rightarrow> int \<Rightarrow> db \<Rightarrow> bool" where
  "granted ws w now i ai token d \<longleftrightarrow>
     (\<exists>e. execution_row d i = Some e \<and> ex_status e = ES_RUNNING \<and> ex_lease_owner e = Some w \<and>
        ex_lease_expires_at e = Some (now + seconds (ws_execution_lease_seconds ws)) \<and>
        ex_fencing_token e = token) \<and>
     (\<exists>a. attempt_row d ai = Some a \<and> at_execution_id a = i \<and> at_status a = AS_RUNNING \<and>
        at_lease_owner a = Some w \<and> at_fencing_token a = token \<and>
        at_lease_expires_at a = Some (now + seconds (ws_execution_lease_seconds ws)))"

lemma granted_held:
  assumes "granted ws w now i ai token d" and "now' < now + seconds (ws_execution_lease_seconds ws)"
  shows "lease_held now' \<lparr>le_execution_id = i, le_attempt_id = ai, le_owner = w, le_fencing_token = token\<rparr> d"
  using assms
  by (auto simp: granted_def lease_held_def lease_row_active_def lease_attempt_active_def
      attempt_row_def dest: execution_row_SomeD scalar_SomeD)

lemma claim_result_Some:
  "claim_result d i t ai w k = Some c \<longleftrightarrow>
     (\<exists>e. repo_get d i = Some e \<and> c = (e, t, \<lparr>le_execution_id = i, le_attempt_id = ai, le_owner = w,
        le_fencing_token = k\<rparr>))"
  by (auto simp: claim_result_def repo_get_def)

lemma claim_waiting_grants:
  assumes wf: "db_wf d" and ids: "distinct (map at_id (db_attempts d))"
    and e: "execution_row d i = Some e" and run: "claim_waiting ws w now q e t0 d = Inr (d', Some c)"
  obtains ai t x where "granted ws w now i ai (ex_fencing_token e + 1) d'"
    and "repo_get d' i = Some x" and "distinct (map at_id (db_attempts d'))"
    and "c = (x, t, \<lparr>le_execution_id = i, le_attempt_id = ai, le_owner = w,
      le_fencing_token = ex_fencing_token e + 1\<rparr>)"
proof -
  have i: "ex_id e = i" using execution_row_SomeD [OF e] by simp
  let ?g = "resume_waiting_attempt ws w now (ex_fencing_token e + 1)"
  from run obtain a t where a: "scalar (\<lambda>a. at_execution_id a = ex_id e \<and> at_status a = AS_WAITING) (db_attempts d) = Some a"
    and d': "d' = start_operation q (at_id a) now (set_execution (ex_id e) (claimed_execution ws w now)
      (set_attempt (at_id a) ?g d))"
    and c: "claim_result d' (ex_id e) t (at_id a) w (ex_fencing_token e + 1) = Some c"
    unfolding claim_waiting_def Let_def by (auto split: option.splits if_splits)
  have "attempt_row d' (at_id a) = Some (?g a)"
    using attempt_row_unique [OF ids] scalar_SomeD [OF a]
    by (simp add: d' attempt_row_set_attempt resume_waiting_attempt_def)
  moreover have "execution_row d' i = Some (claimed_execution ws w now e)"
    by (simp add: d' execution_row_set_other set_execution_row claimed_execution_def i e)
  ultimately have "granted ws w now i (at_id a) (ex_fencing_token e + 1) d'"
    using scalar_SomeD [OF a] i
    by (simp add: granted_def claimed_execution_def resume_waiting_attempt_def)
  moreover have "distinct (map at_id (db_attempts d'))"
    using ids by (simp add: d' set_attempt_def map_key_update_where resume_waiting_attempt_def)
  ultimately show ?thesis using c that unfolding i claim_result_Some by blast
qed

lemma claim_on_target_grants:
  assumes wf: "db_wf d" and ids: "distinct (map at_id (db_attempts d))"
    and e: "execution_row d i = Some e" and run: "claim_on_target ws w now ai q e t d = Inr (d', Some c)"
  obtains x where "granted ws w now i ai (ex_fencing_token e + 1) d'"
    and "repo_get d' i = Some x" and "distinct (map at_id (db_attempts d'))"
    and "c = (x, t, \<lparr>le_execution_id = i, le_attempt_id = ai, le_owner = w,
      le_fencing_token = ex_fencing_token e + 1\<rparr>)"
proof -
  have i: "ex_id e = i" using execution_row_SomeD [OF e] by simp
  from run obtain d1 a where
    a: "a = new_attempt ws w now ai (int (rowcount (\<lambda>a. at_execution_id a = ex_id e) (db_attempts d)) + 1) (rt_id t) e"
    and ins: "insert_attempt a d = Inr d1"
    and d': "d' = set_execution (ex_id e) (started_execution ws w now (is_resume e) (rt_id t))
      (start_operation q ai now d1)"
    and c: "Some c = claim_result d' (ex_id e) t ai w (ex_fencing_token e + 1)"
    by (rule claim_on_targetD)
  have row: "execution_row d1 i = Some e"
    using quiet_insert_attempt [OF ins] e by (simp add: quiet_step_def)
  have "attempt_row d' (at_id a) = Some a"
    using attempt_row_inserted [OF ins] by (simp add: d')
  then have "attempt_row d' ai = Some a" by (simp add: a new_attempt_def)
  moreover have "execution_row d' i = Some (started_execution ws w now (is_resume e) (rt_id t) e)"
    by (simp add: d' execution_row_set_other set_execution_row started_execution_def
        claimed_execution_def i row)
  ultimately have "granted ws w now i ai (ex_fencing_token e + 1) d'"
    using i by (simp add: granted_def started_execution_def claimed_execution_def a new_attempt_def)
  moreover have "distinct (map at_id (db_attempts d'))"
    using ids ins by (simp add: d' insert_attempt_Inr)
  ultimately show ?thesis using c [symmetric] that unfolding i claim_result_Some by blast
qed

lemma claim_cases:
  assumes "claim mint ws w now u l ai i d = Inr (d', Some c)"
  obtains e q where "execution_row d i = Some e" and "ex_status e \<in> {ES_QUEUED, ES_FINALIZING}"
    and "ex_runtime_session_id e = None \<Longrightarrow> admission_is_active d"
    and "q = claimable_operation e d" and "q \<noteq> NotClaimable"
    and "(\<exists>t. ex_operation_mode e = OM_MULTI \<and> ex_runtime_session_id e \<noteq> None \<and>
          ex_runtime_target_id e = Some t \<and> claim_waiting ws w now q e t d = Inr (d', Some c)) \<or>
      (\<exists>t. is_resume e \<and> ex_operation_mode e = OM_SINGLE \<and> gt_now (ex_retained_runtime_session_until e) now \<and>
          ex_runtime_target_id e = Some (rt_id t) \<and> t \<in> set (db_targets d) \<and>
          claim_on_target ws w now ai q e t d = Inr (d', Some c)) \<or>
      (\<exists>t. \<not> is_resume e \<and> select_target ws (fst u) (snd u) now d e = Some t \<and>
          claim_on_target ws w now ai q e t d = Inr (d', Some c))"
proof -
  from assms obtain e where l: "\<not> l" and e: "execution_row d i = Some e"
    by (auto simp: claim_def split: if_splits option.splits)
  let ?q = "claimable_operation e d"
  have guards: "ex_status e \<in> {ES_QUEUED, ES_FINALIZING}" "ex_runtime_session_id e = None \<Longrightarrow> admission_is_active d"
    "?q \<noteq> NotClaimable"
    using assms e l by (auto simp: claim_def Let_def split: if_splits)
  have resume: "\<exists>t. gt_now (ex_retained_runtime_session_until e) now \<and> ex_runtime_target_id e = Some (rt_id t) \<and>
      t \<in> set (db_targets d) \<and> claim_on_target ws w now ai ?q e t d = Inr (d', Some c)"
    if "claim_resume mint ws w now ai ?q e d = Inr (d', Some c)"
    using that unfolding claim_resume_def Let_def
    by (auto simp: bind_res_eq_Inr split: if_splits option.splits dest!: scalar_SomeD) metis
  show ?thesis
  proof (rule that [OF e guards(1,2) refl guards(3)])
    show "(\<exists>t. ex_operation_mode e = OM_MULTI \<and> ex_runtime_session_id e \<noteq> None \<and>
          ex_runtime_target_id e = Some t \<and> claim_waiting ws w now ?q e t d = Inr (d', Some c)) \<or>
      (\<exists>t. is_resume e \<and> ex_operation_mode e = OM_SINGLE \<and> gt_now (ex_retained_runtime_session_until e) now \<and>
          ex_runtime_target_id e = Some (rt_id t) \<and> t \<in> set (db_targets d) \<and>
          claim_on_target ws w now ai ?q e t d = Inr (d', Some c)) \<or>
      (\<exists>t. \<not> is_resume e \<and> select_target ws (fst u) (snd u) now d e = Some t \<and>
          claim_on_target ws w now ai ?q e t d = Inr (d', Some c))"
    proof (cases "ex_operation_mode e = OM_MULTI \<and> ex_runtime_session_id e \<noteq> None \<and> ex_runtime_target_id e \<noteq> None")
      case True
      then show ?thesis using assms e l guards by (auto simp: claim_def Let_def split: if_splits)
    next
      case False
      then have "(if is_resume e then claim_resume mint ws w now ai ?q e d
          else (case select_target ws (fst u) (snd u) now d e of None \<Rightarrow> Inr (d, None)
            | Some t \<Rightarrow> claim_on_target ws w now ai ?q e t d)) = Inr (d', Some c)"
        using assms e l guards unfolding claim_def Let_def
        by (auto split: if_split_asm operation_mode.splits option.splits)
      moreover have "is_resume e \<Longrightarrow> ex_operation_mode e = OM_SINGLE"
        using False by (cases "ex_operation_mode e") (auto simp: is_resume_def)
      ultimately show ?thesis using resume by (auto split: if_split_asm option.splits)
    qed
  qed
qed

lemma claim_grants:
  assumes wf: "db_wf d" and ids: "distinct (map at_id (db_attempts d))"
    and run: "claim mint ws w now u l ai i d = Inr (d', Some (x, t, lease))"
  obtains e k where "execution_row d i = Some e"
    and "lease = \<lparr>le_execution_id = i, le_attempt_id = k, le_owner = w,
      le_fencing_token = ex_fencing_token e + 1\<rparr>"
    and "granted ws w now i k (ex_fencing_token e + 1) d'" and "repo_get d' i = Some x"
    and "distinct (map at_id (db_attempts d'))"
proof -
  from run obtain e q where e: "execution_row d i = Some e"
    and run: "(\<exists>t0. claim_waiting ws w now q e t0 d = Inr (d', Some (x, t, lease))) \<or>
      (\<exists>t0. claim_on_target ws w now ai q e t0 d = Inr (d', Some (x, t, lease)))"
    by (rule claim_cases) blast
  from run show ?thesis
  proof (elim disjE exE)
    fix t0 assume "claim_waiting ws w now q e t0 d = Inr (d', Some (x, t, lease))"
    then show ?thesis by (rule claim_waiting_grants [OF wf ids e]) (auto intro!: that [OF e])
  next
    fix t0 assume "claim_on_target ws w now ai q e t0 d = Inr (d', Some (x, t, lease))"
    then show ?thesis by (rule claim_on_target_grants [OF wf ids e]) (auto intro!: that [OF e])
  qed
qed


text \<open>
  While the service drains, only an Execution that already has a Runtime
  session can be claimed.
\<close>

lemma claim_when_draining:
  assumes "\<not> admission_is_active d" and "claim mint ws w now u l ai i d = Inr (d', Some c)"
  shows "\<exists>e. execution_row d i = Some e \<and> ex_runtime_session_id e \<noteq> None"
  using assms(2) by (rule claim_cases) (use assms(1) in auto)

subsection \<open>Capacity\<close>

definition reserved_by :: "uuid \<Rightarrow> datetime \<Rightarrow> db \<Rightarrow> uuid set" where
  "reserved_by target now d = set (reservation_ids target now d)"

lemma count_reserved: "count_runtime_reservations target now d = int (card (reserved_by target now d))"
  by (simp add: count_runtime_reservations_def reserved_by_def reservation_ids_def
      length_remdups_card_conv del: length_remdups_card_conv [symmetric])

lemma in_reserved_by:
  "j \<in> reserved_by target now d \<longleftrightarrow>
     (\<exists>a\<in>set (db_attempts d). attempt_reserves target a \<and> at_execution_id a = j) \<or>
     (\<exists>e\<in>set (db_executions d). (retained_reserves target now e \<or> cleanup_reserves target e) \<and> ex_id e = j)"
  by (auto simp: reserved_by_def reservation_ids_def)

lemma finite_reserved [simp]: "finite (reserved_by target now d)"
  by (simp add: reserved_by_def)

text \<open>The reservations change only through the changed Execution row and the Attempts.\<close>

definition row_reserves :: "uuid \<Rightarrow> datetime \<Rightarrow> execution_orm \<Rightarrow> bool" where
  "row_reserves target now e \<longleftrightarrow> retained_reserves target now e \<or> cleanup_reserves target e"

lemma reserved_by_rows:
  assumes "db_wf d"
  shows "reserved_by target now d =
    {at_execution_id a |a. a \<in> set (db_attempts d) \<and> attempt_reserves target a} \<union>
    {j. \<exists>e. execution_row d j = Some e \<and> row_reserves target now e}"
  using execution_row_unique [OF assms] execution_row_SomeD
  by (fastforce simp: in_reserved_by row_reserves_def)

lemma reserved_by_claim:
  assumes wf: "db_wf d" "db_wf d'" and i: "execution_row d' i = Some e'" "\<not> row_reserves target now e'"
    and frame: "\<And>j. j \<noteq> i \<Longrightarrow> execution_row d' j = execution_row d j"
    and att: "{at_execution_id a |a. a \<in> set (db_attempts d') \<and> attempt_reserves target a} \<subseteq>
      {at_execution_id a |a. a \<in> set (db_attempts d) \<and> attempt_reserves target a} \<union> A"
  shows "reserved_by target now d' \<subseteq> reserved_by target now d \<union> A"
proof
  fix j assume "j \<in> reserved_by target now d'"
  then consider (attempt) "j \<in> {at_execution_id a |a. a \<in> set (db_attempts d') \<and> attempt_reserves target a}"
    | (row) e where "execution_row d' j = Some e" "row_reserves target now e"
    by (auto simp: reserved_by_rows [OF wf(2)])
  then show "j \<in> reserved_by target now d \<union> A"
  proof cases
    case attempt
    then show ?thesis using att by (auto simp: reserved_by_rows [OF wf(1)])
  next
    case (row e)
    then have "j \<noteq> i" using i by auto
    then show ?thesis using row frame by (auto simp: reserved_by_rows [OF wf(1)])
  qed
qed

lemma claimed_not_reserving [simp]:
  "\<not> row_reserves target now (claimed_execution ws w now e)"
  "\<not> row_reserves target now (started_execution ws w now b t e)"
  by (simp_all add: row_reserves_def retained_reserves_def cleanup_reserves_def claimed_execution_def
      started_execution_def)

lemma claim_waiting_reserved:
  assumes wf: "db_wf d" and ids: "distinct (map at_id (db_attempts d))" and e: "execution_row d i = Some e"
    and run: "claim_waiting ws w now q e t0 d = Inr (d', Some c)"
  shows "reserved_by target now d' \<subseteq> reserved_by target now d" and "db_targets d' = db_targets d"
proof -
  have i: "ex_id e = i" using execution_row_SomeD [OF e] by simp
  let ?g = "resume_waiting_attempt ws w now (ex_fencing_token e + 1)"
  from run obtain a t where a: "scalar (\<lambda>a. at_execution_id a = ex_id e \<and> at_status a = AS_WAITING) (db_attempts d) = Some a"
    and d': "d' = start_operation q (at_id a) now (set_execution (ex_id e) (claimed_execution ws w now)
      (set_attempt (at_id a) ?g d))"
    unfolding claim_waiting_def Let_def by (auto split: option.splits if_splits)
  show "db_targets d' = db_targets d" by (cases q) (simp_all add: d' set_row_defs)
  have wf': "db_wf d'" using claim_waiting_step [OF e run] wf by (simp add: worker_step_def log_kept_def)
  show "reserved_by target now d' \<subseteq> reserved_by target now d"
  proof (rule subset_trans [OF reserved_by_claim [OF wf wf', where i = i and A = "{}"]])
    show "execution_row d' i = Some (claimed_execution ws w now e)"
      by (simp add: d' execution_row_set_other set_execution_row claimed_execution_def i e)
    show "execution_row d' j = execution_row d j" if "j \<noteq> i" for j
      using that by (simp add: d' execution_row_set_other set_execution_row claimed_execution_def i)
    show "{at_execution_id a |a. a \<in> set (db_attempts d') \<and> attempt_reserves target a} \<subseteq>
      {at_execution_id a |a. a \<in> set (db_attempts d) \<and> attempt_reserves target a} \<union> {}"
    proof -
      have "x = a" if "x \<in> set (db_attempts d)" "at_id x = at_id a" for x
        using that scalar_SomeD [OF a] ids by (auto simp: distinct_map dest: inj_onD)
      then have "\<exists>x\<in>set (db_attempts d). at_execution_id x = at_execution_id b \<and> attempt_reserves target x"
        if "b \<in> set (db_attempts d')" "attempt_reserves target b" for b
        using that scalar_SomeD [OF a]
        by (auto simp: d' set_attempt_def set_update_where attempt_reserves_def resume_waiting_attempt_def
            split: if_splits) metis
      then show ?thesis by (auto, metis)
    qed
  qed simp_all
qed

lemma claim_on_target_reserved:
  assumes wf: "db_wf d" and e: "execution_row d i = Some e"
    and run: "claim_on_target ws w now ai q e t d = Inr (d', r)"
  shows "reserved_by target now d' \<subseteq> reserved_by target now d \<union> (if target = rt_id t then {i} else {})"
    and "db_targets d' = db_targets d"
proof -
  have i: "ex_id e = i" using execution_row_SomeD [OF e] by simp
  from run obtain d1 a where
    a: "a = new_attempt ws w now ai (int (rowcount (\<lambda>a. at_execution_id a = ex_id e) (db_attempts d)) + 1) (rt_id t) e"
    and ins: "insert_attempt a d = Inr d1"
    and d': "d' = set_execution (ex_id e) (started_execution ws w now (is_resume e) (rt_id t))
      (start_operation q ai now d1)" by (rule claim_on_targetD)
  show "db_targets d' = db_targets d"
    using ins by (cases q) (simp_all add: d' set_row_defs insert_attempt_Inr)
  have wf': "db_wf d'" using claim_on_target_step [OF e run] wf by (simp add: worker_step_def log_kept_def)
  have rows: "execution_row d1 j = execution_row d j" for j
    using quiet_insert_attempt [OF ins] by (simp add: quiet_step_def)
  show "reserved_by target now d' \<subseteq> reserved_by target now d \<union> (if target = rt_id t then {i} else {})"
  proof (rule reserved_by_claim [OF wf wf'])
    show "execution_row d' i = Some (started_execution ws w now (is_resume e) (rt_id t) e)"
      by (simp add: d' execution_row_set_other set_execution_row started_execution_def
          claimed_execution_def i rows e)
    show "execution_row d' j = execution_row d j" if "j \<noteq> i" for j
      using that by (simp add: d' execution_row_set_other set_execution_row started_execution_def
          claimed_execution_def i rows)
    show "{at_execution_id a |a. a \<in> set (db_attempts d') \<and> attempt_reserves target a} \<subseteq>
      {at_execution_id a |a. a \<in> set (db_attempts d) \<and> attempt_reserves target a} \<union>
      (if target = rt_id t then {i} else {})"
      using ins i by (auto simp: d' insert_attempt_Inr a new_attempt_def attempt_reserves_def)
  qed simp
qed

text \<open>
  C25. If no Runtime Target is over its limit of concurrent Executions, then
  none is after a successful claim: a fresh claim takes a free slot of the Target it selects under
  the Target's lock, a resumed retry and a continued MULTI session keep the slot they hold. Only
  MULTI Executions are ever FINALIZING.
\<close>

theorem claim_respects_capacity:
  assumes wf: "db_wf d" and ids: "distinct (map at_id (db_attempts d))"
    and tids: "distinct (map rt_id (db_targets d))"
    and fin: "\<forall>e\<in>set (db_executions d). ex_status e = ES_FINALIZING \<longrightarrow> ex_operation_mode e = OM_MULTI"
    and cap: "\<forall>t\<in>set (db_targets d). count_runtime_reservations (rt_id t) now d \<le> rt_max_concurrent_executions t"
    and run: "claim mint ws w now u l ai i d = Inr (d', Some c)"
  shows "\<forall>t\<in>set (db_targets d'). count_runtime_reservations (rt_id t) now d' \<le> rt_max_concurrent_executions t"
proof -
  from run obtain e q where e: "execution_row d i = Some e"
    and st: "ex_status e \<in> {ES_QUEUED, ES_FINALIZING}"
    and run: "(\<exists>t. ex_operation_mode e = OM_MULTI \<and> ex_runtime_session_id e \<noteq> None \<and>
          ex_runtime_target_id e = Some t \<and> claim_waiting ws w now q e t d = Inr (d', Some c)) \<or>
      (\<exists>t. is_resume e \<and> ex_operation_mode e = OM_SINGLE \<and> gt_now (ex_retained_runtime_session_until e) now \<and>
          ex_runtime_target_id e = Some (rt_id t) \<and> t \<in> set (db_targets d) \<and>
          claim_on_target ws w now ai q e t d = Inr (d', Some c)) \<or>
      (\<exists>t. \<not> is_resume e \<and> select_target ws (fst u) (snd u) now d e = Some t \<and>
          claim_on_target ws w now ai q e t d = Inr (d', Some c))"
    by (rule claim_cases)
  have shrink: "count_runtime_reservations target now d' \<le> count_runtime_reservations target now d"
    if "reserved_by target now d' \<subseteq> reserved_by target now d" for target
    using card_mono [OF finite_reserved that] by (simp add: count_reserved)
  have grow: "count_runtime_reservations target now d' \<le> count_runtime_reservations target now d + 1"
    if "reserved_by target now d' \<subseteq> reserved_by target now d \<union> {i}" for target
    using card_mono [OF _ that] card_insert_le_m1 [of "Suc (card (reserved_by target now d))" _ i]
    by (simp add: count_reserved card_insert_if split: if_split_asm)
  from run show ?thesis
  proof (elim disjE exE conjE)
    fix t0 assume "claim_waiting ws w now q e t0 d = Inr (d', Some c)"
    from claim_waiting_reserved [OF wf ids e this] show ?thesis using cap shrink order_trans by metis
  next
    fix t assume res: "is_resume e" "ex_operation_mode e = OM_SINGLE" "gt_now (ex_retained_runtime_session_until e) now"
      "ex_runtime_target_id e = Some (rt_id t)"
      and run: "claim_on_target ws w now ai q e t d = Inr (d', Some c)"
    have "ex_status e = ES_QUEUED" using st fin res(2) execution_row_SomeD [OF e] by auto
    then have "row_reserves (rt_id t) now e"
      using res by (simp add: row_reserves_def retained_reserves_def is_resume_def)
    then have "i \<in> reserved_by (rt_id t) now d" using e by (auto simp: reserved_by_rows [OF wf])
    then have "reserved_by target now d' \<subseteq> reserved_by target now d" for target
      using claim_on_target_reserved(1) [OF wf e run, of target] by (auto split: if_splits)
    then show ?thesis
      using cap shrink order_trans unfolding claim_on_target_reserved(2) [OF wf e run] by metis
  next
    fix t assume sel: "select_target ws (fst u) (snd u) now d e = Some t"
      and run: "claim_on_target ws w now ai q e t d = Inr (d', Some c)"
    note tg = select_target_SomeD [OF sel]
    show ?thesis unfolding claim_on_target_reserved(2) [OF wf e run]
    proof
      fix s assume s: "s \<in> set (db_targets d)"
      show "count_runtime_reservations (rt_id s) now d' \<le> rt_max_concurrent_executions s"
      proof (cases "rt_id s = rt_id t")
        case True
        then have "s = t" using s tg(1) tids by (auto simp: distinct_map dest: inj_onD)
        then show ?thesis
          using grow [of "rt_id t"] claim_on_target_reserved(1) [OF wf e run, of "rt_id t"] tg(4) by simp
      next
        case False
        then have "reserved_by (rt_id s) now d' \<subseteq> reserved_by (rt_id s) now d"
          using claim_on_target_reserved(1) [OF wf e run, of "rt_id s"] by simp
        then show ?thesis using shrink cap s order_trans by metis
      qed
    qed
  qed
qed

subsection \<open>Witnesses\<close>

fun is_claimed :: "worker_error + (db \<times> 'a option) \<Rightarrow> bool" where
  "is_claimed (Inr (d, Some c)) = True"
| "is_claimed _ = False"

lemma is_claimedE:
  assumes "is_claimed r"
  obtains d' c where "r = Inr (d', Some c)"
  using assms by (cases r rule: is_claimed.cases) auto

abbreviation demo_claim :: "db \<Rightarrow> worker_error + (db \<times> claimed option)" where
  "demo_claim d \<equiv> claim demo_mint demo_settings ''w1'' 7 (7, d) False 60 10 d"

lemma demo_queue_wf [simp]: "db_wf (demo_queue m)"
  unfolding demo_queue_def by (rule db_wf_cong [OF demo_base_wf]) simp_all

lemma demo_queue_attempts [simp]: "db_attempts (demo_queue m) = []"
  by (simp add: demo_queue_def demo_base_def submitted_db_def empty_db_def)

lemma demo_claimed: "is_claimed (demo_claim (demo_queue OM_SINGLE))"
  by code_simp


lemma demo_queue_limits:
  "\<forall>t\<in>set (db_targets (demo_queue OM_SINGLE)).
     count_runtime_reservations (rt_id t) 7 (demo_queue OM_SINGLE) \<le> rt_max_concurrent_executions t"
  "\<forall>e\<in>set (db_executions (demo_queue OM_SINGLE)). ex_status e = ES_FINALIZING \<longrightarrow> ex_operation_mode e = OM_MULTI"
  by code_simp+

theorem claim_respects_capacity_witness:
  "\<exists>d' c. demo_claim (demo_queue OM_SINGLE) = Inr (d', Some c) \<and>
     (\<forall>t\<in>set (db_targets d'). count_runtime_reservations (rt_id t) 7 d' \<le> rt_max_concurrent_executions t)"
proof -
  obtain d' c where r: "demo_claim (demo_queue OM_SINGLE) = Inr (d', Some c)"
    by (rule is_claimedE [OF demo_claimed])
  moreover have "distinct (map rt_id (db_targets (demo_queue OM_SINGLE)))"
    by (simp add: demo_queue_def demo_target_def)
  ultimately show ?thesis
    using claim_respects_capacity [OF demo_queue_wf _ _ demo_queue_limits(2,1) r]
    by (intro exI [of _ d'] exI [of _ c] conjI) simp_all
qed

text \<open>A draining service with an Execution that kept its session.\<close>

definition demo_draining :: db where
  "demo_draining = (set_execution 10 (\<lambda>e. e\<lparr>ex_runtime_session_id := Some ''kernel-7''\<rparr>)
     (demo_queue OM_SINGLE))\<lparr>db_admission := Some EA_DRAINING\<rparr>"

lemma claim_when_draining_witness:
  "\<exists>e. execution_row demo_draining 10 = Some e \<and> ex_runtime_session_id e \<noteq> None"
proof -
  have "is_claimed (demo_claim demo_draining)" by code_simp
  then obtain d' c where r: "demo_claim demo_draining = Inr (d', Some c)" by (rule is_claimedE)
  have "\<not> admission_is_active demo_draining" by code_simp
  then show ?thesis using r by (rule claim_when_draining)
qed

text \<open>The lease of the demo claim can be renewed.\<close>

theorem renewal_extends_lease_witness:
  "\<exists>d' x t lease d''. demo_claim (demo_queue OM_SINGLE) = Inr (d', Some (x, t, lease)) \<and>
     renew_execution 60 8 lease d' = Inr (d'', ()) \<and> owns_execution 9 lease d''"
proof -
  obtain d' c where r: "demo_claim (demo_queue OM_SINGLE) = Inr (d', Some c)"
    by (rule is_claimedE [OF demo_claimed])
  obtain x t lease where c: "c = (x, t, lease)" by (cases c)
  obtain n k where lease: "lease = \<lparr>le_execution_id = 10, le_attempt_id = k, le_owner = ''w1'',
      le_fencing_token = n\<rparr>"
    and g: "granted demo_settings ''w1'' 7 10 k n d'"
    and ids: "distinct (map at_id (db_attempts d'))"
    by (rule claim_grants [OF demo_queue_wf _ r [unfolded c]]) simp_all
  have wf: "db_wf d'" by (rule claim.run_wf [OF demo_queue_wf r])
  have owns: "owns_execution 8 lease d'"
    using granted_held [OF g, of 8] owns_execution_iff [OF wf ids] lease
    by (simp add: demo_settings_def seconds_def)
  have "at_execution_id a = le_execution_id lease" if "attempt_row d' (le_attempt_id lease) = Some a" for a
    using that g lease by (auto simp: granted_def)
  from renewal_extends_lease [OF wf ids this, where n = 60 and now = 8] owns
  obtain d'' where "renew_execution 60 8 lease d' = Inr (d'', ())" "owns_execution 9 lease d''"
    by (auto split: sum.splits simp: seconds_def)
  then show ?thesis using r c by blast
qed

end
