(* ===== verification/Run_Properties.thy ===== *)
theory Run_Properties
  imports Run_Completion Claim_Properties
begin

text \<open>
  What the endings of \<open>Run_Completion\<close> guarantee: success is only recorded over complete results,
  an ending leaves nothing of the run open and no lease behind, and the deadline a MULTI Execution
  waits for never passes its maximum runtime.
\<close>

lemma ball_update_where: "(\<forall>r\<in>set (update_where P f t). Q r) \<longleftrightarrow> (\<forall>r\<in>set t. Q (if P r then f r else r))"
  by (induction t) simp_all

definition steps_closed :: "uuid \<Rightarrow> db \<Rightarrow> bool" where
  "steps_closed i d \<longleftrightarrow>
     (\<forall>s\<in>set (db_steps d). st_execution_id s = i \<longrightarrow> st_status s \<notin> {SS_RUNNING, SS_PENDING})"

lemma steps_closed_fail_skip:
  assumes "db_steps d1 = db_steps (fail_running_steps now i m d)"
  shows "steps_closed i (skip_pending_steps now' i d1)"
  using assms
  by (simp add: steps_closed_def skip_pending_steps_def fail_running_steps_def set_steps_def
      ball_update_where)

lemma fail_steps_closed:
  assumes "fail_steps mint now lease r running d = Inr d'"
  shows "steps_closed (le_execution_id lease) d'"
proof -
  from assms obtain d1 where h: "step_history_events mint now (le_execution_id lease)
         (map (\<lambda>s. (s, le_attempt_id lease)) running) SS_FAILED
         (str_or_else (fr_error_message r) ''Step execution failed.'')
         (effective_retry_strategy r \<noteq> RS_NOT_RETRYABLE)
         (fail_running_steps now (le_execution_id lease) (fr_error_message r) d) = Inr d1"
    and d': "db_steps d' = db_steps (skip_pending_steps now (le_execution_id lease) d1)"
    unfolding fail_steps_def bind_res_eq_Inr by (auto simp: set_step_attempts_def)
  have "db_steps d1 = db_steps (fail_running_steps now (le_execution_id lease) (fr_error_message r) d)"
    using step_history_same [OF h] by (simp add: same_tables_def)
  from steps_closed_fail_skip [OF this, of now] show ?thesis by (simp add: steps_closed_def d')
qed

lemma fail_steps_operations:
  "fail_steps mint now lease r running d = Inr d' \<Longrightarrow> db_operations d' = db_operations d"
  unfolding fail_steps_def bind_res_eq_Inr
  by (auto simp: set_row_defs skip_pending_steps_def fail_running_steps_def same_tables_def
      dest!: step_history_same)

definition operation_closed :: "uuid option \<Rightarrow> db \<Rightarrow> bool" where
  "operation_closed active d \<longleftrightarrow> (\<forall>q\<in>set (db_operations d). Some (op_id q) = active \<longrightarrow>
     op_status q \<notin> {OS_QUEUED, OS_RUNNING})"

lemma finalize_operation_closed:
  assumes "finalize_operation now lease r active d = (d', c)"
  shows "operation_closed active d'"
proof (cases active)
  case None
  then show ?thesis by (simp add: operation_closed_def)
next
  case (Some i)
  have "db_operations d' = update_where (operation_open i) (\<lambda>q. q\<lparr>
      op_status := (if fr_status r = ES_SUCCEEDED then OS_SUCCEEDED else OS_FAILED),
      op_execution_attempt_id := Some (le_attempt_id lease), op_error_message := failed_message r,
      op_finished_at := Some now, op_updated_at := now\<rparr>) (db_operations d)"
    using assms Some by (auto simp: finalize_operation_def set_operations_def)
  then show ?thesis
    by (simp add: operation_closed_def ball_update_where operation_open_def Some)
qed

text \<open>The state after a committed ending.\<close>

lemma finalize_state:
  assumes wf: "db_wf d" and run: "finalize mint ws now lease r d = Inr (d', u)"
  obtains e where "execution_row d (le_execution_id lease) = Some e" and "ex_status e = ES_RUNNING"
    and "execution_row d' (le_execution_id lease) = Some (finalized_execution ws now r e)"
    and "fr_status r \<in> {ES_SUCCEEDED, ES_FAILED}"
    and "fr_status r = ES_SUCCEEDED \<longrightarrow>
      require_completed_results d e (ex_active_operation_id e) (ex_finalization_requested e) True = Inr ()"
    and "fr_status r = ES_FAILED \<longrightarrow> steps_closed (le_execution_id lease) d'"
    and "operation_closed (ex_active_operation_id e) d'"
proof -
  let ?i = "le_execution_id lease"
  from run obtain e a s d3 c d4 d5 where act: "require_active_lease now lease [ES_RUNNING] d = Inr (e, a)"
    and chk: "fr_status r = ES_SUCCEEDED \<longrightarrow>
      require_completed_results d e (ex_active_operation_id e) (ex_finalization_requested e) True = Inr ()"
    and s: "attempt_status_of_execution (fr_status r) = Some s" and ok: "allowed_transition (ex_status e) (fr_status r)"
    and d3: "finalize_operation now lease r (ex_active_operation_id e)
      (set_attempt (at_id a) (finalized_attempt now e r s) (set_execution (ex_id e) (finalized_execution ws now r) d)) = (d3, c)"
    and d4: "(if fr_status r = ES_FAILED then fail_steps mint now lease r (running_steps d (le_attempt_id lease)) d3
      else Inr d3) = Inr d4"
    and d5: "(case c of None \<Rightarrow> Inr d4 | Some q \<Rightarrow> add_operation_completed_event mint now ?i q d4) = Inr d5"
    and d': "add_execution_completed_event mint now ?i d5 = Inr d'"
    by (rule finalizeD)
  from require_active_leaseD [OF wf act] have e: "execution_row d ?i = Some e" and i: "ex_id e = ?i"
    and st: "ex_status e = ES_RUNNING" by (simp_all add: lease_row_active_def)
  have "same_tables d4 d5" using d5 operation_completed.emit_same by (auto split: option.splits)
  then have same: "same_tables d4 d'" using execution_completed.emit_same [OF d'] by (rule same_tables_trans)
  have q4: "quiet_step d3 d4" using d4 quiet_fail_steps by (auto split: if_split_asm)
  have "execution_row d3 ?i = Some (finalized_execution ws now r e)"
    using quiet_finalize_operation [OF d3] e i
    by (simp add: quiet_step_def set_execution_row finalized_execution_def Let_def)
  then have row: "execution_row d' ?i = Some (finalized_execution ws now r e)"
    using q4 same_tables_row [OF same] by (simp add: quiet_step_def)
  have fr: "fr_status r \<in> {ES_SUCCEEDED, ES_FAILED}"
    using ok s unfolding st by (cases "fr_status r") simp_all
  have "steps_closed ?i d4" if "fr_status r = ES_FAILED" using d4 that fail_steps_closed by auto
  then have steps: "fr_status r = ES_FAILED \<longrightarrow> steps_closed ?i d'"
    using same by (simp add: steps_closed_def same_tables_def)
  have "db_operations d' = db_operations d3"
    using d4 same fail_steps_operations by (auto simp: same_tables_def split: if_split_asm)
  then have "operation_closed (ex_active_operation_id e) d'"
    using finalize_operation_closed [OF d3] by (simp add: operation_closed_def)
  then show ?thesis by (rule that [OF e st row fr chk steps])
qed

text \<open>
  C26. A run that ends - SUCCEEDED or FAILED are the only endings a worker can
  record - gives the Execution that status and releases the lease, so that no lease on it is valid
  any more; its active Operation is closed, and after a failure none of its Steps is left RUNNING or
  PENDING.
\<close>

theorem finalize_outcome:
  assumes "db_wf d" and "finalize mint ws now lease r d = Inr (d', u)"
  shows "fr_status r \<in> {ES_SUCCEEDED, ES_FAILED} \<and>
    (\<exists>e e'. execution_row d (le_execution_id lease) = Some e \<and>
       execution_row d' (le_execution_id lease) = Some e' \<and> ex_status e' = fr_status r \<and>
       ex_version e' = ex_version e + 1 \<and> ex_fencing_token e' = ex_fencing_token e \<and>
       operation_closed (ex_active_operation_id e) d') \<and>
    (fr_status r = ES_FAILED \<longrightarrow> steps_closed (le_execution_id lease) d') \<and>
    (\<forall>now' lease'. le_execution_id lease' = le_execution_id lease \<longrightarrow> \<not> owns_execution now' lease' d')"
proof -
  obtain e where e: "execution_row d (le_execution_id lease) = Some e"
    and row: "execution_row d' (le_execution_id lease) = Some (finalized_execution ws now r e)"
    and fr: "fr_status r \<in> {ES_SUCCEEDED, ES_FAILED}"
    and steps: "fr_status r = ES_FAILED \<longrightarrow> steps_closed (le_execution_id lease) d'"
    and op: "operation_closed (ex_active_operation_id e) d'"
    by (rule finalize_state [OF assms]) blast
  have wf': "db_wf d'" by (rule finalize.run_wf [OF assms])
  have "\<not> owns_execution now' lease' d'" if "le_execution_id lease' = le_execution_id lease" for now' lease'
  proof
    assume "owns_execution now' lease' d'"
    then obtain x a where "require_active_lease now' lease' [ES_RUNNING] d' = Inr (x, a)"
      by (auto simp: owns_execution_def split: sum.splits)
    from require_active_leaseD(1,2) [OF wf' this] row that show False
      by (auto simp: lease_row_active_def finalized_execution_def Let_def)
  qed
  then show ?thesis using e row fr steps op by (simp add: finalized_execution_def Let_def)
qed

text \<open>
  C27. A run is only recorded as SUCCEEDED if its active Operation
  belongs to the Execution and is running or done, every one of its Steps succeeded with a complete
  stored result under a known Attempt and fence, the notebook was projected, and the notebook
  artifact is available.
\<close>

theorem success_over_complete_results:
  assumes "db_wf d" and "fr_status r = ES_SUCCEEDED" and "finalize mint ws now lease r d = Inr (d', u)"
  shows "\<exists>e q. execution_row d (le_execution_id lease) = Some e \<and>
    ex_active_operation_id e = Some (op_id q) \<and> q \<in> set (db_operations d) \<and>
    op_execution_id q = le_execution_id lease \<and> op_status q \<in> {OS_RUNNING, OS_SUCCEEDED} \<and>
    operation_steps d (op_id q) \<noteq> [] \<and>
    (\<forall>s\<in>set (operation_steps d (op_id q)). st_status s = SS_SUCCEEDED \<and> st_result_complete s = Some True \<and>
       str_truthy (st_result_manifest_path s) \<and> str_truthy (st_result_manifest_checksum_sha256 s) \<and>
       int_truthy (st_result_manifest_size_bytes s) \<and> st_result_execution_attempt_id s \<noteq> None \<and>
       st_result_fencing_token s \<noteq> None) \<and>
    ex_notebook_projection_status e = NP_SUCCEEDED \<and> notebook_available d e"
proof -
  obtain e where e: "execution_row d (le_execution_id lease) = Some e"
    and chk: "require_completed_results d e (ex_active_operation_id e) (ex_finalization_requested e) True = Inr ()"
    by (rule finalize_state [OF assms(1,3)]) (use assms(2) in blast)
  have i: "ex_id e = le_execution_id lease" using execution_row_SomeD [OF e] by simp
  from chk obtain q where q: "Option.bind (ex_active_operation_id e) (operation_row d) = Some q"
    by (auto simp: require_completed_results_def split: option.splits)
  then have "ex_active_operation_id e = Some (op_id q)" "q \<in> set (db_operations d)"
    by (auto simp: operation_row_def bind_eq_Some_conv dest: scalar_SomeD)
  moreover have "op_execution_id q = ex_id e" "op_status q \<in> {OS_RUNNING, OS_SUCCEEDED}"
    "operation_steps d (op_id q) \<noteq> []" "\<not> (\<exists>s\<in>set (operation_steps d (op_id q)). step_result_incomplete s)"
    "ex_notebook_projection_status e = NP_SUCCEEDED" "notebook_available d e"
    using chk q by (auto simp: require_completed_results_def Let_def bind_raise_if split: if_split_asm)
  ultimately show ?thesis
    using e i by (intro exI [of _ e] exI [of _ q]) (simp add: step_result_incomplete_def)
qed

subsection \<open>Waiting for the next Operation\<close>

text \<open>
  C28. When a MULTI Operation ends, the Execution waits for the next one with
  its version advanced and its lease released, and the deadline it waits for is at most the
  configured time away and never after the Execution's maximum runtime.
\<close>

theorem operation_wait_bounded:
  assumes wf: "db_wf d" and run: "complete_operation mint now lease q s m ft d = Inr (d', u)"
    and changed: "d' \<noteq> d"
  shows "\<exists>e e' t deadline. execution_row d (le_execution_id lease) = Some e \<and>
    execution_row d' (le_execution_id lease) = Some e' \<and> ex_status e' = ES_WAITING_FOR_OPERATION \<and>
    ex_version e' = ex_version e + 1 \<and> ex_lease_owner e' = None \<and>
    ex_operation_wait_timeout_seconds e = Some t \<and> ex_operation_wait_expires_at e' = Some deadline \<and>
    deadline \<le> now + seconds t \<and>
    (\<forall>x. ex_execution_expires_at e' = Some x \<longrightarrow> deadline \<le> x)"
proof -
  from run changed obtain e a t g h where act: "require_active_lease now lease [ES_RUNNING] d = Inr (e, a)"
    and t: "ex_operation_wait_timeout_seconds e = Some t"
    and ev: "add_operation_completed_event mint now (le_execution_id lease) q
      (set_attempt (at_id a) h (set_operations (\<lambda>x. op_id x = q) g
        (set_execution (ex_id e) (waiting_execution now t) d))) = Inr d'"
    by (rule complete_operationD)
  from require_active_leaseD [OF wf act] have e: "execution_row d (le_execution_id lease) = Some e"
    and i: "ex_id e = le_execution_id lease" by (simp_all add: lease_row_active_def)
  have "execution_row d' (le_execution_id lease) = Some (waiting_execution now t e)"
    unfolding operation_completed.emit_row [OF ev] using e i
    by (simp add: set_execution_row waiting_execution_def)
  then show ?thesis using e t by (simp add: waiting_execution_def wait_deadline_def)
qed

subsection \<open>Witnesses\<close>

definition demo_running :: "operation_mode \<Rightarrow> db" where
  "demo_running m = (case demo_claim (demo_queue m) of Inl _ \<Rightarrow> empty_db | Inr (d, _) \<Rightarrow> d)"

definition demo_lease :: execution_lease where
  "demo_lease = \<lparr>le_execution_id = 10, le_attempt_id = 60, le_owner = ''w1'', le_fencing_token = 1\<rparr>"

lemma demo_running_wf: "db_wf (demo_running m)"
  using claim.run_wf [OF demo_queue_wf]
  by (auto simp: demo_running_def split: sum.splits)

definition demo_failure :: finalize_request where
  "demo_failure = \<lparr>fr_status = ES_FAILED, fr_error_message = Some ''boom'', fr_retain_session = True,
     fr_retry_from_sequence = Some 0, fr_failure_type = Some FT_TOOL_ERROR,
     fr_retry_strategy = RS_FROM_FAILED_STEP, fr_cleanup_status = RC_NOT_REQUIRED\<rparr>"

fun is_ok :: "worker_error + 'a \<Rightarrow> bool" where
  "is_ok (Inr x) = True"
| "is_ok (Inl e) = False"

lemma is_okE:
  assumes "is_ok r" obtains d' u where "r = Inr (d', u)"
  using assms by (cases r) auto

theorem finalize_outcome_witness:
  "\<exists>d' e'. finalize demo_mint demo_settings 8 demo_lease demo_failure (demo_running OM_SINGLE) = Inr (d', ()) \<and>
     execution_row d' 10 = Some e' \<and> ex_status e' = ES_FAILED \<and> steps_closed 10 d'"
proof -
  have "is_ok (finalize demo_mint demo_settings 8 demo_lease demo_failure (demo_running OM_SINGLE))" by code_simp
  then obtain d' u where r: "finalize demo_mint demo_settings 8 demo_lease demo_failure (demo_running OM_SINGLE) = Inr (d', u)"
    by (rule is_okE)
  show ?thesis
    using finalize_outcome [OF demo_running_wf r] r by (auto simp: demo_failure_def demo_lease_def)
qed

definition demo_finished :: db where
  "demo_finished = (set_steps (\<lambda>s. True) (\<lambda>s. s\<lparr>st_status := SS_SUCCEEDED, st_result_complete := Some True,
       st_result_manifest_path := Some ''m'', st_result_manifest_checksum_sha256 := Some ''c'',
       st_result_manifest_size_bytes := Some 5, st_result_execution_attempt_id := Some 60,
       st_result_fencing_token := Some 1\<rparr>)
     (set_execution 10 (\<lambda>e. e\<lparr>ex_notebook_projection_status := NP_SUCCEEDED,
       ex_notebook_path := Some ''n.ipynb''\<rparr>) (demo_running OM_SINGLE)))
     \<lparr>db_artifacts := [\<lparr>ar_id = 70, ar_execution_id = 10, ar_execution_attempt_id = None,
        ar_execution_step_id = None, ar_execution_step_attempt_id = None, ar_parent_artifact_id = None,
        ar_external_parent_asset_id = None, ar_artifact_type = AT_NOTEBOOK, ar_storage_type = ST_PV,
        ar_status = AR_AVAILABLE, ar_name = ''n'', ar_description = None, ar_uri = ''u'',
        ar_relative_path = Some ''n.ipynb'', ar_media_type = None, ar_size_bytes = None,
        ar_checksum_sha256 = None, ar_artifact_metadata = JObj [], ar_identity_hash = ''h'',
        ar_created_by_client = None, ar_created_by = None, ar_updated_by_client = None,
        ar_updated_by = None, ar_created_at = 0, ar_updated_at = 0\<rparr>]\<rparr>"

lemma demo_finished_wf: "db_wf demo_finished"
  unfolding demo_finished_def
  by (rule db_wf_cong [OF set_steps_wf [OF set_execution_wf [OF demo_running_wf]]])
    (simp_all add: execution_keys_kept_def)

definition demo_success :: finalize_request where
  "demo_success = \<lparr>fr_status = ES_SUCCEEDED, fr_error_message = None, fr_retain_session = False,
     fr_retry_from_sequence = None, fr_failure_type = None,
     fr_retry_strategy = RS_NOT_RETRYABLE, fr_cleanup_status = RC_SUCCEEDED\<rparr>"

theorem success_over_complete_results_witness:
  "\<exists>d' e. finalize demo_mint demo_settings 8 demo_lease demo_success demo_finished = Inr (d', ()) \<and>
     execution_row demo_finished 10 = Some e \<and> notebook_available demo_finished e"
proof -
  have "is_ok (finalize demo_mint demo_settings 8 demo_lease demo_success demo_finished)" by code_simp
  then obtain d' u where r: "finalize demo_mint demo_settings 8 demo_lease demo_success demo_finished = Inr (d', u)"
    by (rule is_okE)
  show ?thesis
    using success_over_complete_results [OF demo_finished_wf _ r] r
    by (auto simp: demo_success_def demo_lease_def)
qed

theorem operation_wait_bounded_witness:
  "\<exists>d' e'. complete_operation demo_mint 8 demo_lease 20 OS_FAILED (Some ''boom'') None (demo_running OM_MULTI) = Inr (d', ()) \<and>
     execution_row d' 10 = Some e' \<and> ex_status e' = ES_WAITING_FOR_OPERATION"
proof -
  let ?r = "complete_operation demo_mint 8 demo_lease 20 OS_FAILED (Some ''boom'') None (demo_running OM_MULTI)"
  have ok: "is_ok ?r" by code_simp
  then obtain d' u where r: "?r = Inr (d', u)" by (rule is_okE)
  have "case ?r of Inr (x, _) \<Rightarrow> length (db_events x) \<noteq> length (db_events (demo_running OM_MULTI)) | _ \<Rightarrow> False"
    by code_simp
  then have "d' \<noteq> demo_running OM_MULTI" using r by auto
  from operation_wait_bounded [OF demo_running_wf r this] r show ?thesis by (auto simp: demo_lease_def)
qed

end
