(* ===== verification/Ending_Properties.thy ===== *)
theory Ending_Properties
  imports Multi_Lifecycle Run_Properties
begin

text \<open>
  What the endings outside a run guarantee: a cancellation, the recovery of expired leases, the
  cleanup of abandoned Runtime sessions and the deadlines of a waiting MULTI Execution.
\<close>

subsection \<open>Cancellation\<close>

definition attempts_ended :: "uuid \<Rightarrow> db \<Rightarrow> bool" where
  "attempts_ended i d \<longleftrightarrow>
     (\<forall>a\<in>set (db_attempts d). at_execution_id a = i \<longrightarrow> at_status a \<notin> {AS_RUNNING, AS_WAITING})"

definition operations_ended :: "uuid \<Rightarrow> db \<Rightarrow> bool" where
  "operations_ended i d \<longleftrightarrow>
     (\<forall>q\<in>set (db_operations d). op_execution_id q = i \<longrightarrow> op_status q \<notin> {OS_QUEUED, OS_RUNNING})"

lemma cancelled_tables_ended:
  "steps_closed i (cancelled_tables now i cleanup e d)"
  "attempts_ended i (cancelled_tables now i cleanup e d)"
  "ex_id e = i \<Longrightarrow> operations_ended i (cancelled_tables now i cleanup e d)"
  by (simp_all add: cancelled_tables_def steps_closed_def attempts_ended_def operations_ended_def
      end_operations_def end_running_steps_def end_attempts_def skip_pending_steps_def
      cancelled_attempt_def ended_step_def set_row_defs ball_update_where)

lemma finalize_cancellation_state:
  assumes wf: "db_wf d" and run: "finalize_cancellation mint now lease cleanup d = Inr (d', u)"
  obtains e where "execution_row d (cn_execution_id lease) = Some e" and "ex_status e = ES_CANCEL_REQUESTED"
    and "execution_row d' (cn_execution_id lease) = Some (cancelled_execution now cleanup e)"
    and "steps_closed (cn_execution_id lease) d'" and "attempts_ended (cn_execution_id lease) d'"
    and "operations_ended (cn_execution_id lease) d'"
proof -
  let ?i = "cn_execution_id lease"
  from run obtain e d6 d7 where act: "require_active_cancellation_lease now lease d = Inr e"
    and d6: "step_history_events mint now ?i (running_attempt_pairs d ?i)
      (ended_step e) (cancel_reason e) False (cancelled_tables now ?i cleanup e d) = Inr d6"
    and d7: "(case ex_active_operation_id e of None \<Rightarrow> Inr d6
      | Some q \<Rightarrow> add_operation_completed_event mint now ?i q d6) = Inr d7"
    and d': "add_execution_completed_event mint now ?i d7 = Inr d'"
    by (rule finalize_cancellationD)
  from require_active_cancellationD [OF wf act] have e: "execution_row d ?i = Some e" and i: "ex_id e = ?i"
    and st: "ex_status e = ES_CANCEL_REQUESTED" by (simp_all add: cancellation_row_active_def)
  have "same_tables d6 d7" using d7 operation_completed.emit_same by (auto split: option.splits)
  then have same: "same_tables (cancelled_tables now ?i cleanup e d) d'"
    using step_history_same [OF d6] execution_completed.emit_same [OF d'] by (metis same_tables_trans)
  have "execution_row (cancelled_tables now ?i cleanup e d) ?i = Some (cancelled_execution now cleanup e)"
    using quiet_cancelled_tables [of ?i now cleanup d e] e
    by (simp add: quiet_step_def set_execution_row cancelled_execution_def)
  then have row: "execution_row d' ?i = Some (cancelled_execution now cleanup e)"
    using same_tables_row [OF same] by simp
  show ?thesis
    using that [OF e st row] cancelled_tables_ended [where e = e] i same
    by (simp add: steps_closed_def attempts_ended_def operations_ended_def same_tables_def)
qed

lemma ended_not_leased:
  assumes wf: "db_wf d" and row: "execution_row d i = Some e" and st: "execution_status_is_terminal (ex_status e)"
  shows "le_execution_id lease = i \<Longrightarrow> \<not> owns_execution now lease d"
    and "cn_execution_id work = i \<Longrightarrow> require_active_cancellation_lease now work d = Inl ExecutionLeaseLostError"
proof -
  show "\<not> owns_execution now lease d" if i: "le_execution_id lease = i"
  proof
    assume "owns_execution now lease d"
    then obtain x a where "require_active_lease now lease [ES_RUNNING] d = Inr (x, a)"
      by (auto simp: owns_execution_def split: sum.splits)
    from require_active_leaseD(1,2) [OF wf this] row st i show False
      by (auto simp: lease_row_active_def execution_status_is_terminal_def)
  qed
  show "require_active_cancellation_lease now work d = Inl ExecutionLeaseLostError" if i: "cn_execution_id work = i"
  proof (cases "require_active_cancellation_lease now work d")
    case (Inl err)
    then show ?thesis by (auto simp: require_active_cancellation_lease_def split: option.splits)
  next
    case (Inr x)
    from require_active_cancellationD [OF wf this] row st i show ?thesis
      by (auto simp: cancellation_row_active_def execution_status_is_terminal_def)
  qed
qed

text \<open>
  C29. A cancellation that commits ends the Execution as CANCELLED, or as FAILED
  with EXECUTION_TIMEOUT exactly if it was finalized for its maximum runtime. Either way no Attempt,
  Operation or Step of it is left open, it can no longer be retried, its Runtime session is forgotten
  only if it was deleted, and neither an execution lease nor a cancellation lease on it is valid.
\<close>

theorem cancellation_outcome:
  assumes "db_wf d" and "finalize_cancellation mint now lease cleanup d = Inr (d', u)"
  shows "\<exists>e e'. execution_row d (cn_execution_id lease) = Some e \<and>
    execution_row d' (cn_execution_id lease) = Some e' \<and> ex_version e' = ex_version e + 1 \<and>
    (ex_status e', ex_failure_type e') =
      (if ex_finalized_by e = Some FB_MAX_RUNTIME then (ES_FAILED, Some FT_EXECUTION_TIMEOUT)
       else (ES_CANCELLED, None)) \<and>
    ex_retry_strategy e' = RS_NOT_RETRYABLE \<and>
    ex_runtime_session_id e' = (if cleanup = RC_SUCCEEDED then None else ex_runtime_session_id e) \<and>
    steps_closed (cn_execution_id lease) d' \<and> attempts_ended (cn_execution_id lease) d' \<and>
    operations_ended (cn_execution_id lease) d' \<and>
    (\<forall>now' l. le_execution_id l = cn_execution_id lease \<longrightarrow> \<not> owns_execution now' l d') \<and>
    (\<forall>now' l. cn_execution_id l = cn_execution_id lease \<longrightarrow>
       require_active_cancellation_lease now' l d' = Inl ExecutionLeaseLostError)"
proof -
  obtain e where e: "execution_row d (cn_execution_id lease) = Some e"
    and row: "execution_row d' (cn_execution_id lease) = Some (cancelled_execution now cleanup e)"
    and ends: "steps_closed (cn_execution_id lease) d'" "attempts_ended (cn_execution_id lease) d'"
      "operations_ended (cn_execution_id lease) d'"
    by (rule finalize_cancellation_state [OF assms]) blast
  have "execution_status_is_terminal (ex_status (cancelled_execution now cleanup e))"
    by (simp add: cancelled_execution_def execution_status_is_terminal_def)
  note gone = ended_not_leased [OF cancellation.run_wf [OF assms] row this]
  show ?thesis
    using e row ends gone
    by (simp add: cancelled_execution_def timed_out_def cancel_failure_type_def)
qed

text \<open>
  A caller's cancel keeps the reason an Execution was finalized for. So the cancel of an Execution
  that the audit moved to FINALIZING at its maximum runtime ends as FAILED with EXECUTION_TIMEOUT,
  the same as if the audit had asked for the stop itself.
\<close>

lemma cancel_keeps_finalized_by:
  assumes wf: "db_wf d" and run: "cancel_execution now d d dr c = Inr (Committed d' x)"
    and row: "execution_row d (cc_execution_id c) = Some r"
  shows "\<exists>r'. execution_row d' (cc_execution_id c) = Some r' \<and> ex_status r' = ES_CANCEL_REQUESTED \<and>
    ex_finalized_by r' = ex_finalized_by r"
proof -
  have "cancel_locked now d c = Inr (Committed d' x)"
    using run by (auto simp: cancel_execution_def Let_def split: option.splits if_split_asm)
  then obtain e1 where ne: "ex_status r \<noteq> ES_CANCEL_REQUESTED"
    and req: "request_cancel (cc_idempotency_key c) (cc_reason c) now (execution_to_domain d r) = Inr e1"
    and save: "repo_save (apply_actor (cc_actor_client c) (cc_actor_id c) e1) d = Inr d'"
    using row by (auto simp: cancel_locked_def bind_res_eq_Inr Let_def required_execution_Inr split: if_split_asm)
  from req ne have e1: "ex_status e1 = ES_CANCEL_REQUESTED" "ex_finalized_by e1 = ex_finalized_by r" "ex_id e1 = ex_id r"
    by (simp_all add: request_cancel_Inr_iff row_simps)
  have "ex_finalized_by (apply_actor a b e1) = ex_finalized_by e1" for a b by (simp add: apply_actor_def)
  then show ?thesis
    using repo_save_row [OF wf save, of "cc_execution_id c"] row execution_row_SomeD [OF row] e1
    by (simp add: save_execution_values_def)
qed

lemma claim_cancellation_keeps_finalized_by:
  assumes "claim_cancellation ws w now locked i d = Inr (d', Some work)" and "execution_row d i = Some r"
  shows "cn_execution_id (cw_lease work) = i \<and>
    (\<exists>r'. execution_row d' i = Some r' \<and> ex_finalized_by r' = ex_finalized_by r)"
  using assms
  by (auto simp: claim_cancellation_def Let_def set_execution_row split: if_split_asm)

lemma caller_cancel_reported_as_timeout:
  assumes wf: "db_wf d" and row: "execution_row d (cc_execution_id c) = Some r"
    and over: "ex_finalized_by r = Some FB_MAX_RUNTIME"
    and cancel: "cancel_execution now1 d d dr c = Inr (Committed d1 x)"
    and claim: "claim_cancellation ws w now2 locked (cc_execution_id c) d1 = Inr (d2, Some work)"
    and end': "finalize_cancellation mint now3 (cw_lease work) cleanup d2 = Inr (d3, u)"
  shows "\<exists>e'. execution_row d3 (cc_execution_id c) = Some e' \<and> ex_status e' = ES_FAILED \<and>
    ex_failure_type e' = Some FT_EXECUTION_TIMEOUT"
proof -
  let ?i = "cc_execution_id c"
  obtain r1 where r1: "execution_row d1 ?i = Some r1" "ex_finalized_by r1 = Some FB_MAX_RUNTIME"
    using cancel_keeps_finalized_by [OF wf cancel row] over by auto
  obtain r2 where i: "cn_execution_id (cw_lease work) = ?i"
    and r2: "execution_row d2 ?i = Some r2" "ex_finalized_by r2 = Some FB_MAX_RUNTIME"
    using claim_cancellation_keeps_finalized_by [OF claim r1(1)] r1(2) by auto
  have "db_wf d1" using handler_step(1) [OF wf cancel] by (rule command_step_wf)
  from claim_cancellation.run_wf [OF this claim] have wf2: "db_wf d2" .
  obtain e where "execution_row d2 ?i = Some e" "execution_row d3 ?i = Some (cancelled_execution now3 cleanup e)"
    by (rule finalize_cancellation_state [OF wf2 end']) (simp add: i)
  then show ?thesis
    using r2 by (simp add: cancelled_execution_def timed_out_def cancel_failure_type_def)
qed

subsection \<open>Expired leases\<close>


subsection \<open>Deadlines of a waiting Execution\<close>

text \<open>The lengths the schema of the Execution table guarantees for what its completion event carries.\<close>

definition execution_schema_ok :: "execution_orm \<Rightarrow> bool" where
  "execution_schema_ok e \<longleftrightarrow>
     str_len 1 255 (ex_user_id e) \<and> opt_str_len 255 (ex_project_id e) \<and> opt_str_len 255 (ex_session_id e) \<and>
     message_bounded (ex_cancellation_reason e)"

lemma completion_event_total:
  assumes row: "execution_row d i = Some e" and "execution_schema_ok e"
    and "execution_status_is_terminal (ex_status e)" and "message_bounded (ex_error_message e)"
  shows "\<exists>d'. add_execution_completed_event mint now i d = Inr d'"
proof -
  have "payload_ok (ExecutionCompleted (execution_completed_payload_of d e))"
    by (rule execution_completed_payload_valid) (use assms in \<open>simp_all add: execution_schema_ok_def\<close>)
  from persist_execution_event_total [OF row this] show ?thesis
    using row by (simp add: add_execution_completed_event_def)
qed

lemma end_failure_bounded: "message_bounded (Some (snd (end_failure fb q)))"
  by (auto simp: end_failure_def message_bounded_def str_len_def split: option.splits)

lemma fail_locked_waiting_total:
  assumes row: "execution_row d (ex_id e) = Some e" and "execution_schema_ok e"
    and st: "ex_status e = ES_WAITING_FOR_OPERATION" and "message_bounded (Some message)"
  shows "\<exists>d'. fail_locked_waiting_execution mint now ft message fb e d = Inr (d',
      if ft \<noteq> FT_RUNTIME_SESSION_LOST \<and> ex_runtime_session_id e \<noteq> None
      then Some (capture (failed_waiting_execution now ft message fb e)) else None) \<and>
    execution_row d' (ex_id e) = Some (failed_waiting_execution now ft message fb e)"
proof -
  let ?f = "failed_waiting_execution now ft message fb"
  let ?d = "fail_waiting_attempt now ft message (ex_runtime_session_cleanup_status (?f e))
    (waiting_attempt d (ex_id e)) (set_execution (ex_id e) ?f d)"
  have "execution_row (set_execution (ex_id e) ?f d) (ex_id e) = Some (?f e)"
    using row by (simp add: set_execution_row failed_waiting_execution_def Let_def)
  then have r: "execution_row ?d (ex_id e) = Some (?f e)"
    using quiet_fail_waiting_attempt by (simp add: quiet_step_def)
  have "\<exists>d'. add_execution_completed_event mint now (ex_id e) ?d = Inr d'"
    by (rule completion_event_total [OF r])
      (use assms in \<open>simp_all add: failed_waiting_execution_def Let_def execution_schema_ok_def
          execution_status_is_terminal_def\<close>)
  then obtain d' where d': "add_execution_completed_event mint now (ex_id e) ?d = Inr d'" by blast
  show ?thesis
    using d' execution_completed.emit_row [OF d'] r st
    by (simp add: fail_locked_waiting_execution_def Let_def failed_waiting_execution_def)
qed

lemma observation_of_row:
  assumes "db_wf d" and "execution_row d (ex_id e) = Some e"
  shows "observation_current (capture e) d = Some e"
  unfolding observation_current_def capture_def
  using assms(2) scalar_key_cond [OF db_wf_executions [OF assms(1)]] by (simp add: execution_row_def)

lemma end_waiting_outcome:
  assumes wf: "db_wf d" and row: "execution_row d (ex_id e) = Some e" and ok: "execution_schema_ok e"
    and st: "ex_status e = ES_WAITING_FOR_OPERATION"
  shows "\<exists>d' r e'. end_waiting_execution mint later (capture e) fb d = Inr (d', r) \<and>
    execution_row d' (ex_id e) = Some e' \<and> ex_version e' = ex_version e + 1 \<and> ex_finalized_by e' = Some fb \<and>
    (if map_option op_status (Option.bind (ex_active_operation_id e) (operation_row d)) = Some OS_SUCCEEDED
     then ex_status e' = ES_FINALIZING \<and> ex_finalization_requested e' \<and> r = None
     else ex_status e' = ES_FAILED \<and> ex_retry_strategy e' = RS_NOT_RETRYABLE \<and>
       ex_failure_type e' =
         Some (fst (end_failure fb (Option.bind (ex_active_operation_id e) (operation_row d)))) \<and>
       (ex_runtime_session_id e' \<noteq> None \<longrightarrow> r = Some (capture e')))"
proof -
  let ?q = "Option.bind (ex_active_operation_id e) (operation_row d)"
  obtain ft message where f: "end_failure fb ?q = (ft, message)" by fastforce
  have bounded: "message_bounded (Some message)" using end_failure_bounded [of fb ?q] f by simp
  show ?thesis
  proof (cases "map_option op_status ?q = Some OS_SUCCEEDED")
    case True
    then have "end_waiting_execution mint later (capture e) fb d =
        Inr (set_execution (ex_id e) (finalizing_execution later fb) d, None)"
      using st unfolding end_waiting_execution_def observation_of_row [OF wf row] by (auto simp: Let_def)
    then show ?thesis
      using True row by (simp add: set_execution_row finalizing_execution_def)
  next
    case False
    then have "end_waiting_execution mint later (capture e) fb d =
        fail_locked_waiting_execution mint later ft message (Some fb) e d"
      using st unfolding end_waiting_execution_def observation_of_row [OF wf row]
      by (simp only: Let_def f if_False option.case prod.case) simp
    then show ?thesis
      using False f fail_locked_waiting_total [OF row ok st bounded, of mint later ft "Some fb"]
      by (auto simp: failed_waiting_execution_def Let_def)
  qed
qed

text \<open>
  C31. The audit of a waiting MULTI Execution that passed its maximum runtime
  or its wait deadline always commits and always ends the wait: if the last Operation succeeded the
  Execution goes to FINALIZING for a worker to complete, otherwise it is FAILED with the type of the
  last Operation's failure, or a timeout type if no Operation completed. The maximum runtime takes
  precedence, and a session that may still exist is returned for cleanup.
\<close>

theorem waiting_deadline_enforced:
  assumes wf: "db_wf d" and row: "execution_row d (ex_id e) = Some e" and ok: "execution_schema_ok e"
    and st: "ex_status e = ES_WAITING_FOR_OPERATION"
    and due: "past (ex_execution_expires_at e) now \<or> past (ex_operation_wait_expires_at e) now"
  shows "\<exists>d' r e'. audit_waiting mint now later e target probe d = Inr (d', r) \<and>
    execution_row d' (ex_id e) = Some e' \<and> ex_version e' = ex_version e + 1 \<and>
    ex_finalized_by e' = Some (if past (ex_execution_expires_at e) now then FB_MAX_RUNTIME else FB_WAIT_TIMEOUT) \<and>
    (if map_option op_status (Option.bind (ex_active_operation_id e) (operation_row d)) = Some OS_SUCCEEDED
     then ex_status e' = ES_FINALIZING \<and> ex_finalization_requested e' \<and> r = None
     else ex_status e' = ES_FAILED \<and> ex_retry_strategy e' = RS_NOT_RETRYABLE \<and>
       ex_failure_type e' = Some (fst (end_failure
         (if past (ex_execution_expires_at e) now then FB_MAX_RUNTIME else FB_WAIT_TIMEOUT)
         (Option.bind (ex_active_operation_id e) (operation_row d)))) \<and>
       (ex_runtime_session_id e' \<noteq> None \<longrightarrow> r = Some (capture e')))"
proof -
  let ?fb = "if past (ex_execution_expires_at e) now then FB_MAX_RUNTIME else FB_WAIT_TIMEOUT"
  have "audit_waiting mint now later e target probe d = end_waiting_execution mint later (capture e) ?fb d"
    using due unfolding audit_waiting_def Let_def by (cases "past (ex_execution_expires_at e) now") simp_all
  then show ?thesis using end_waiting_outcome [OF wf row ok st, of mint later ?fb] by (simp only:)
qed

subsection \<open>Session cleanup\<close>

text \<open>
  The result of cleaning up a Runtime session is recorded only if
  the Execution is exactly as it was observed - same status, version, fencing token, Operation,
  Target and session - and ended; then the session is forgotten if and only if it was deleted, and
  the status never changes. In every other case the pass leaves the database alone.
\<close>

lemma cleanup_guarded_by_observation:
  assumes wf: "db_wf d" and run: "record_result now ob cleanup d = Inr (d', u)"
  shows "d' = d \<or> (\<exists>e e'. execution_row d (ro_execution_id ob) = Some e \<and> capture e = ob \<and>
    ex_status e \<in> {ES_FAILED, ES_CANCELLED} \<and> execution_row d' (ro_execution_id ob) = Some e' \<and>
    ex_status e' = ex_status e \<and> ex_version e' = ex_version e + 1 \<and>
    ex_runtime_session_cleanup_status e' = cleanup \<and>
    ex_runtime_session_id e' = (if cleanup = RC_SUCCEEDED then None else ex_runtime_session_id e))"
proof (cases "observation_current ob d")
  case (Some e)
  note e = observation_row [OF wf Some]
  show ?thesis
  proof (cases "ex_status e \<in> {ES_FAILED, ES_CANCELLED}")
    case True
    then have "execution_row d' (ro_execution_id ob) = Some (cleaned_execution now cleanup e)"
      using run Some True e(1,2)
      by (auto simp: record_result_def Let_def set_execution_row cleaned_execution_def split: option.splits)
    then show ?thesis using True e by - (rule disjI2, rule exI [of _ e],
        rule exI [of _ "cleaned_execution now cleanup e"], simp add: cleaned_execution_def)
  qed (use run Some in \<open>simp add: record_result_def\<close>)
qed (use run in \<open>simp add: record_result_def\<close>)

subsection \<open>Concrete endings\<close>

definition ok_db :: "worker_error + (db \<times> 'a) \<Rightarrow> db" where
  "ok_db r = (case r of Inl _ \<Rightarrow> empty_db | Inr (d, _) \<Rightarrow> d)"

lemma ok_db_eq: "is_ok r \<Longrightarrow> \<exists>u. r = Inr (ok_db r, u)"
  by (cases r) (auto simp: ok_db_def)

definition demo_cancelling :: db where
  "demo_cancelling = set_execution 10 (\<lambda>e. e\<lparr>ex_status := ES_CANCEL_REQUESTED, ex_cancellation_lease_owner := Some ''w2'',
     ex_cancellation_lease_expires_at := Some 900, ex_fencing_token := 2\<rparr>) (demo_running OM_SINGLE)"

definition demo_stop_lease :: cancellation_lease where
  "demo_stop_lease = \<lparr>cn_execution_id = 10, cn_owner = ''w2'', cn_fencing_token = 2\<rparr>"

lemma demo_cancelling_wf: "db_wf demo_cancelling"
  unfolding demo_cancelling_def by (rule set_execution_wf [OF demo_running_wf]) (simp add: execution_keys_kept_def)

theorem cancellation_outcome_witness:
  "\<exists>d' e'. finalize_cancellation demo_mint 8 demo_stop_lease RC_SUCCEEDED demo_cancelling = Inr (d', ()) \<and>
     execution_row d' 10 = Some e' \<and> ex_status e' \<in> {ES_FAILED, ES_CANCELLED} \<and> steps_closed 10 d'"
proof -
  have "is_ok (finalize_cancellation demo_mint 8 demo_stop_lease RC_SUCCEEDED demo_cancelling)" by code_simp
  then obtain d' u where r: "finalize_cancellation demo_mint 8 demo_stop_lease RC_SUCCEEDED demo_cancelling = Inr (d', u)"
    by (rule is_okE)
  show ?thesis
    using cancellation_outcome [OF demo_cancelling_wf r] r by (auto simp: demo_stop_lease_def split: if_split_asm)
qed

abbreviation demo_recovery :: "worker_error + (db \<times> runtime_observation option list)" where
  "demo_recovery \<equiv> fence_expired_leases demo_mint id 100000000 (\<lambda>_. False) (demo_running OM_SINGLE)"


definition demo_waiting :: "operation_status \<Rightarrow> db" where
  "demo_waiting os = ok_db (complete_operation demo_mint 8 demo_lease 20 os (Some ''boom'') None
     (set_execution 10 (\<lambda>e. e\<lparr>ex_runtime_session_id := Some ''k''\<rparr>) (demo_running OM_MULTI)))"

lemma demo_waiting_wf: "db_wf (demo_waiting os)"
proof -
  have "db_wf (set_execution 10 (\<lambda>e. e\<lparr>ex_runtime_session_id := Some ''k''\<rparr>) (demo_running OM_MULTI))"
    by (rule set_execution_wf [OF demo_running_wf]) (simp add: execution_keys_kept_def)
  then show ?thesis
    using complete_operation.run_wf by (auto simp: demo_waiting_def ok_db_def split: sum.splits)
qed

definition demo_wait_row :: "operation_status \<Rightarrow> execution_orm" where
  "demo_wait_row os = the (execution_row (demo_waiting os) 10)"

theorem waiting_deadline_enforced_witness:
  "\<exists>d' r e'. audit_waiting demo_mint 1000000000000 1000000000001 (demo_wait_row OS_FAILED) None ProbeFailed
       (demo_waiting OS_FAILED) = Inr (d', r) \<and>
     execution_row d' 10 = Some e' \<and> ex_status e' \<in> {ES_FINALIZING, ES_FAILED}"
proof -
  have id: "ex_id (demo_wait_row OS_FAILED) = 10" and ok: "execution_schema_ok (demo_wait_row OS_FAILED)"
    and st: "ex_status (demo_wait_row OS_FAILED) = ES_WAITING_FOR_OPERATION"
    and due: "past (ex_execution_expires_at (demo_wait_row OS_FAILED)) 1000000000000" by code_simp+
  have "execution_row (demo_waiting OS_FAILED) 10 \<noteq> None" by code_simp
  then have row: "execution_row (demo_waiting OS_FAILED) (ex_id (demo_wait_row OS_FAILED)) = Some (demo_wait_row OS_FAILED)"
    by (simp only: id) (auto simp: demo_wait_row_def)
  show ?thesis
    using waiting_deadline_enforced [OF demo_waiting_wf row ok st disjI1 [OF due]] unfolding id
    by (metis insertCI)
qed

lemma cleanup_guarded_by_observation_witness:
  "\<exists>d'. record_result 9 (capture (demo_wait_row OS_FAILED)) RC_SUCCEEDED (demo_waiting OS_FAILED) = Inr (d', ()) \<and>
     d' = demo_waiting OS_FAILED"
proof -
  have "is_ok (record_result 9 (capture (demo_wait_row OS_FAILED)) RC_SUCCEEDED (demo_waiting OS_FAILED))"
    by code_simp
  then obtain d' u where r: "record_result 9 (capture (demo_wait_row OS_FAILED)) RC_SUCCEEDED (demo_waiting OS_FAILED) = Inr (d', u)"
    by (rule is_okE)
  have "ro_status (capture (demo_wait_row OS_FAILED)) = ES_WAITING_FOR_OPERATION" by code_simp
  with cleanup_guarded_by_observation [OF demo_waiting_wf r] have "d' = demo_waiting OS_FAILED"
    by (auto simp: capture_def)
  then show ?thesis using r by simp
qed

end
