(* ===== verification/Step_Executor.thy ===== *)
theory Step_Executor
  imports Run_Completion Source_Store
begin

text \<open>
  \<open>execution_worker/step_executor.py\<close>: the transactions around one Step. A Step is marked as
  started together with the journal request that names its run, the code is submitted at most once,
  and the stored result is attached when the Step ends. Each transaction is fenced by the lease.

  The calls to the Runtime driver and to the result store between these transactions are not part of
  this theory; the deadlines \<open>execute\<close> derives from the Step and its Operation are
  (\<open>step_timeouts\<close>). Timeouts are in seconds in the source; here the remaining times are exact
  durations.
\<close>

subsection \<open>Identity and source of a Step\<close>

definition result_identity :: "execution_step \<Rightarrow> execution_lease \<Rightarrow> worker_error + step_result_identity" where
  "result_identity s lease =
     (case st_operation_id s of
        None \<Rightarrow> Inl WorkerValueError
      | Some q \<Rightarrow>
          Inr \<lparr>ri_execution_id = le_execution_id lease, ri_operation_id = q, ri_step_id = st_id s,
               ri_sequence = st_sequence s, ri_execution_attempt_id = le_attempt_id lease,
               ri_fencing_token = le_fencing_token lease\<rparr>)"

definition source_reference :: "execution_step \<Rightarrow> worker_error + execution_source_reference" where
  "source_reference s =
     (case (st_source_snapshot_path s, st_source_size_bytes s) of
        (Some path, Some n) \<Rightarrow>
          if st_source_sha256 s = [] then Inl WorkerRuntimeError
          else Inr \<lparr>sf_relative_path = path, sf_checksum_sha256 = st_source_sha256 s, sf_size_bytes = n\<rparr>
      | _ \<Rightarrow> Inl WorkerRuntimeError)"

definition step_at :: "db \<Rightarrow> uuid \<Rightarrow> int \<Rightarrow> step_orm option" where
  "step_at d execution_id sequence =
     scalar (\<lambda>s. st_execution_id s = execution_id \<and> st_sequence s = sequence) (db_steps d)"

subsection \<open>Before a Step\<close>

definition ensure_count :: "datetime \<Rightarrow> execution_lease \<Rightarrow> int \<Rightarrow> db \<Rightarrow> worker_error + (db \<times> unit)" where
  "ensure_count now lease cell_count d =
     bind_res (require_active_lease now lease [ES_RUNNING] d) (\<lambda>_.
       if int (rowcount (\<lambda>s. st_execution_id s = le_execution_id lease) (db_steps d)) \<noteq> cell_count
       then Inl WorkerValueError else Inr (d, ()))"

definition record_runtime_session ::
    "minter \<Rightarrow> datetime \<Rightarrow> execution_lease \<Rightarrow> string \<Rightarrow> string \<Rightarrow> string \<Rightarrow> db \<Rightarrow>
       worker_error + (db \<times> unit)" where
  "record_runtime_session mint now lease session_id workspace_path notebook_path d =
     bind_res (require_active_lease now lease [ES_RUNNING] d) (\<lambda>(e, a).
     bind_res (add_start_events mint now (le_execution_id lease)
         (set_attempt (at_id a) (\<lambda>a. a\<lparr>at_runtime_session_id := Some session_id\<rparr>)
           (set_execution (ex_id e) (\<lambda>e. e\<lparr>ex_runtime_session_id := Some session_id,
               ex_workspace_path := Some workspace_path, ex_notebook_path := Some notebook_path,
               ex_updated_at := now\<rparr>) d))) (\<lambda>d'. Inr (d', ())))"

subsection \<open>Starting a Step\<close>

definition started_step :: "datetime \<Rightarrow> step_orm \<Rightarrow> step_orm" where
  "started_step now s =
     s\<lparr>st_status := SS_RUNNING, st_output_summary := empty_output_summary,
       st_result_execution_attempt_id := None, st_result_manifest_path := None,
       st_result_manifest_checksum_sha256 := None, st_result_manifest_size_bytes := None,
       st_result_fencing_token := None, st_result_complete := None,
       st_result_representation_count := 0, st_result_total_size_bytes := 0,
       st_started_at := Some now, st_updated_at := now\<rparr>"

definition new_step_attempt ::
    "uuid \<Rightarrow> datetime \<Rightarrow> execution_lease \<Rightarrow> step_orm \<Rightarrow> step_attempt_orm" where
  "new_step_attempt history_id now lease s =
     \<lparr>sa_id = history_id, sa_execution_id = le_execution_id lease,
      sa_execution_attempt_id = le_attempt_id lease, sa_execution_step_id = st_id s,
      sa_sequence = st_sequence s, sa_skill_name = st_skill_name s, sa_tool_name = st_tool_name s,
      sa_input_parameters = st_input_parameters s, sa_status = SS_RUNNING,
      sa_output_summary = empty_output_summary, sa_result_manifest_path = None,
      sa_result_manifest_checksum_sha256 = None, sa_result_manifest_size_bytes = None,
      sa_result_fencing_token = None, sa_result_complete = None, sa_result_representation_count = 0,
      sa_result_total_size_bytes = 0, sa_error_message = None,
      sa_created_by_client = str_or (st_updated_by_client s) (st_created_by_client s),
      sa_created_by = str_or (st_updated_by s) (st_created_by s),
      sa_updated_by_client = str_or (st_updated_by_client s) (st_created_by_client s),
      sa_updated_by = str_or (st_updated_by s) (st_created_by s),
      sa_created_at = now, sa_updated_at = now, sa_started_at = now, sa_finished_at = None\<rparr>"

definition restarted_step_attempt :: "datetime \<Rightarrow> step_attempt_orm \<Rightarrow> step_attempt_orm" where
  "restarted_step_attempt now h =
     h\<lparr>sa_status := SS_RUNNING, sa_started_at := now, sa_finished_at := None,
       sa_error_message := None, sa_output_summary := empty_output_summary,
       sa_result_manifest_path := None, sa_result_manifest_checksum_sha256 := None,
       sa_result_manifest_size_bytes := None, sa_result_fencing_token := None,
       sa_result_complete := None, sa_result_representation_count := 0,
       sa_result_total_size_bytes := 0\<rparr>"

definition history_at :: "uuid \<Rightarrow> int \<Rightarrow> step_attempt_orm \<Rightarrow> bool" where
  "history_at attempt_id sequence h \<longleftrightarrow>
     sa_execution_attempt_id h = attempt_id \<and> sa_sequence h = sequence"

text \<open>The history row of this Attempt, inserted or reset; the result is its key.\<close>

definition start_history ::
    "uuid \<Rightarrow> datetime \<Rightarrow> execution_lease \<Rightarrow> step_orm \<Rightarrow> db \<Rightarrow> worker_error + (db \<times> uuid)" where
  "start_history history_id now lease s d =
     (case scalar (history_at (le_attempt_id lease) (st_sequence s)) (db_step_attempts d) of
        Some h \<Rightarrow> Inr (set_step_attempts (\<lambda>x. sa_id x = sa_id h) (restarted_step_attempt now) d, sa_id h)
      | None \<Rightarrow>
          if history_id \<in> sa_id ` set (db_step_attempts d) \<or> st_sequence s < 0 then Inl WorkerIntegrityError
          else Inr (d\<lparr>db_step_attempts := db_step_attempts d @ [new_step_attempt history_id now lease s]\<rparr>,
                    history_id))"

text \<open>\<open>session.merge\<close>: the row with this key is overwritten, or inserted.\<close>

definition merge_step_run :: "step_run_orm \<Rightarrow> db \<Rightarrow> worker_error + db" where
  "merge_step_run r d =
     (let other = (\<lambda>x. sr_execution_step_attempt_id x \<noteq> sr_execution_step_attempt_id r) in
      if \<exists>x\<in>set (db_step_runs d). other x \<and> sr_request_id x = sr_request_id r then Inl WorkerIntegrityError
      else if \<exists>x\<in>set (db_step_runs d). \<not> other x
      then Inr (d\<lparr>db_step_runs := update_where (\<lambda>x. \<not> other x)
             (\<lambda>x. r\<lparr>sr_created_at := sr_created_at x\<rparr>) (db_step_runs d)\<rparr>)
      else Inr (d\<lparr>db_step_runs := db_step_runs d @ [r]\<rparr>))"

definition mark_started ::
    "minter \<Rightarrow> uuid \<Rightarrow> uuid \<Rightarrow> datetime \<Rightarrow> execution_lease \<Rightarrow> int \<Rightarrow> runtime_storage_snapshot \<Rightarrow> db \<Rightarrow>
       worker_error + (db \<times> step_run)" where
  "mark_started mint history_id request_id now lease sequence baseline d =
     bind_res (require_active_lease now lease [ES_RUNNING] d) (\<lambda>_.
     case step_at d (le_execution_id lease) sequence of
       None \<Rightarrow> Inl WorkerValueError
     | Some s \<Rightarrow>
         bind_res (start_history history_id now lease s
             (set_steps (\<lambda>x. st_id x = st_id s) (started_step now) d)) (\<lambda>(d1, h).
         bind_res (merge_step_run \<lparr>sr_execution_step_attempt_id = h,
             sr_execution_id = le_execution_id lease, sr_request_id = request_id,
             sr_artifact_baseline = snapshot_to_json baseline, sr_submitted_at = None,
             sr_created_at = now\<rparr> d1) (\<lambda>d2.
         if st_operation_id s = None then Inl WorkerValueError
         else bind_res (add_step_started_event mint now lease s d2) (\<lambda>d3.
           Inr (d3, \<lparr>sn_sequence = sequence, sn_request_id = request_id, sn_submitted = False,
                     sn_artifact_baseline = baseline\<rparr>)))))"

subsection \<open>Following a run\<close>

definition load_run :: "datetime \<Rightarrow> execution_lease \<Rightarrow> db \<Rightarrow> worker_error + step_run" where
  "load_run now lease d =
     bind_res (require_active_lease now lease [ES_RUNNING] d) (\<lambda>_.
     case List.map_filter (\<lambda>h.
            if sa_execution_attempt_id h = le_attempt_id lease \<and> sa_status h = SS_RUNNING
            then map_option (Pair h) (scalar (\<lambda>r. sr_execution_step_attempt_id r = sa_id h) (db_step_runs d))
            else None) (db_step_attempts d) of
       [] \<Rightarrow> Inl WorkerValueError
     | (h, r) # _ \<Rightarrow>
         (case snapshot_from_json (sr_artifact_baseline r) of
            None \<Rightarrow> Inl WorkerRuntimeError
          | Some baseline \<Rightarrow>
              Inr \<lparr>sn_sequence = sa_sequence h, sn_request_id = sr_request_id r,
                   sn_submitted = (sr_submitted_at r \<noteq> None), sn_artifact_baseline = baseline\<rparr>))"

definition mark_submitted :: "datetime \<Rightarrow> execution_lease \<Rightarrow> step_run \<Rightarrow> db \<Rightarrow> worker_error + (db \<times> unit)" where
  "mark_submitted now lease run d =
     bind_res (require_active_lease now lease [ES_RUNNING] d) (\<lambda>_.
       Inr (d\<lparr>db_step_runs := update_where (\<lambda>r. sr_request_id r = sn_request_id run)
             (\<lambda>r. r\<lparr>sr_submitted_at := Some now\<rparr>) (db_step_runs d)\<rparr>, ()))"

definition record_handover_completed ::
    "minter \<Rightarrow> datetime \<Rightarrow> execution_lease \<Rightarrow> step_run \<Rightarrow> step_handover \<Rightarrow> bool \<Rightarrow> db \<Rightarrow>
       worker_error + (db \<times> unit)" where
  "record_handover_completed mint now lease run handover finished d =
     bind_res (require_active_lease now lease [ES_RUNNING] d) (\<lambda>_.
     case step_at d (le_execution_id lease) (sn_sequence run) of
       None \<Rightarrow> Inl WorkerValueError
     | Some s \<Rightarrow>
         bind_res (add_handover_completed_event mint now (le_execution_id lease) (le_attempt_id lease) s
             (of_int (now - sh_paused_since handover) / 1000000) finished d) (\<lambda>d'. Inr (d', ())))"

subsection \<open>Ending a Step\<close>

definition assign_step_result :: "step_result_descriptor \<Rightarrow> step_orm \<Rightarrow> step_orm" where
  "assign_step_result r s =
     s\<lparr>st_result_manifest_path := Some (sy_relative_path (rd_reference r)),
       st_result_manifest_checksum_sha256 := Some (sy_checksum_sha256 (rd_reference r)),
       st_result_manifest_size_bytes := Some (sy_size_bytes (rd_reference r)),
       st_result_fencing_token := Some (sy_fencing_token (rd_reference r)),
       st_result_complete := Some (rd_complete r),
       st_result_representation_count := rd_representation_count r,
       st_result_total_size_bytes := rd_total_size_bytes r\<rparr>"

definition assign_history_result :: "step_result_descriptor \<Rightarrow> step_attempt_orm \<Rightarrow> step_attempt_orm" where
  "assign_history_result r h =
     h\<lparr>sa_output_summary := rd_output_summary r,
       sa_result_manifest_path := Some (sy_relative_path (rd_reference r)),
       sa_result_manifest_checksum_sha256 := Some (sy_checksum_sha256 (rd_reference r)),
       sa_result_manifest_size_bytes := Some (sy_size_bytes (rd_reference r)),
       sa_result_fencing_token := Some (sy_fencing_token (rd_reference r)),
       sa_result_complete := Some (rd_complete r),
       sa_result_representation_count := rd_representation_count r,
       sa_result_total_size_bytes := rd_total_size_bytes r\<rparr>"

definition ended_step_row ::
    "datetime \<Rightarrow> execution_lease \<Rightarrow> step_status \<Rightarrow> step_result_descriptor \<Rightarrow> string option \<Rightarrow> step_orm \<Rightarrow> step_orm" where
  "ended_step_row now lease status r message s =
     (assign_step_result r s)\<lparr>st_status := status, st_output_summary := rd_output_summary r,
       st_result_execution_attempt_id := Some (le_attempt_id lease),
       st_error_message := (case message of None \<Rightarrow> st_error_message s | Some m \<Rightarrow> Some m),
       st_finished_at := Some now, st_updated_at := now\<rparr>"

definition end_step ::
    "minter \<Rightarrow> datetime \<Rightarrow> execution_lease \<Rightarrow> int \<Rightarrow> step_status \<Rightarrow> step_result_descriptor \<Rightarrow>
       string option \<Rightarrow> bool \<Rightarrow> db \<Rightarrow> worker_error + (db \<times> unit)" where
  "end_step mint now lease sequence status r message retryable d =
     bind_res (require_active_lease now lease [ES_RUNNING] d) (\<lambda>_.
     case step_at d (le_execution_id lease) sequence of
       None \<Rightarrow> Inl WorkerValueError
     | Some s \<Rightarrow>
         if st_operation_id s = None then Inl WorkerValueError
         else
           let d1 = set_steps (\<lambda>x. st_id x = st_id s) (ended_step_row now lease status r message) d;
               d2 = set_step_attempts (history_at (le_attempt_id lease) sequence)
                      (\<lambda>h. (assign_history_result r h)\<lparr>sa_status := status,
                         sa_error_message := (case message of None \<Rightarrow> sa_error_message h | Some m \<Rightarrow> Some m),
                         sa_finished_at := Some now\<rparr>) d1
           in bind_res (add_step_completed_event mint now lease s status (Some r) message retryable d2)
                (\<lambda>d3. Inr (d3, ())))"

definition mark_succeeded ::
    "minter \<Rightarrow> datetime \<Rightarrow> execution_lease \<Rightarrow> int \<Rightarrow> step_result_descriptor \<Rightarrow> db \<Rightarrow>
       worker_error + (db \<times> unit)" where
  "mark_succeeded mint now lease sequence r d =
     (case end_step mint now lease sequence SS_SUCCEEDED r None False d of
        Inl ExecutionLeaseLostError \<Rightarrow> Inl ExecutionLeaseLostError
      | Inl _ \<Rightarrow> Inl (ExecutionCompletionError ''RESULT_REFERENCE_PERSIST'')
      | Inr x \<Rightarrow> Inr x)"

definition mark_failed ::
    "minter \<Rightarrow> datetime \<Rightarrow> execution_lease \<Rightarrow> int \<Rightarrow> step_result_descriptor \<Rightarrow> string \<Rightarrow> bool \<Rightarrow> db \<Rightarrow>
       worker_error + (db \<times> unit)" where
  "mark_failed mint now lease sequence r message retryable d =
     end_step mint now lease sequence SS_FAILED r (Some (take 2000 message)) retryable d"

subsection \<open>Deadlines\<close>

text \<open>
  \<open>None\<close> for no limit. The remaining time of a limit counts from the start of the Step or the
  Operation, which a worker that takes a Step over inherits.
\<close>

definition timeout_entry ::
    "datetime \<Rightarrow> bool \<Rightarrow> int option \<times> datetime option \<times> string \<Rightarrow>
       (string \<times> int) + (timedelta \<times> int \<times> string) option" where
  "timeout_entry now submitted x =
     (case x of (limit, started_at, scope) \<Rightarrow>
        (case limit of
           None \<Rightarrow> Inr None
         | Some n \<Rightarrow>
             let remaining = seconds n - (now - opt_or started_at now) in
             if remaining \<le> 0 \<and> \<not> submitted then Inl (scope, n)
             else Inr (Some (max remaining 0, n, scope))))"

fun timeout_entries ::
    "datetime \<Rightarrow> bool \<Rightarrow> (int option \<times> datetime option \<times> string) list \<Rightarrow>
       (string \<times> int) + (timedelta \<times> int \<times> string) list" where
  "timeout_entries now submitted [] = Inr []"
| "timeout_entries now submitted (x # xs) =
     bind_res (timeout_entry now submitted x) (\<lambda>t.
     bind_res (timeout_entries now submitted xs) (\<lambda>ts.
     Inr (case t of None \<Rightarrow> ts | Some y \<Rightarrow> y # ts)))"

text \<open>The limit that ends the call first: its time left, its seconds and its scope.\<close>

definition step_timeouts ::
    "datetime \<Rightarrow> bool \<Rightarrow> step_orm \<Rightarrow> operation_orm \<Rightarrow> (string \<times> int) + (timedelta \<times> int \<times> string) option" where
  "step_timeouts now submitted s q =
     bind_res (timeout_entries now submitted
         [(st_step_timeout_seconds s, st_started_at s, ''Step''),
          (op_operation_timeout_seconds q, op_started_at q, ''Operation'')]) (\<lambda>ts.
     Inr (if ts = [] then None else Some (Min (set ts))))"

subsection \<open>An interrupted Step\<close>

definition step_interrupted_message :: string where
  "step_interrupted_message = ''Notebook projection was not refreshed after Step interruption. The notebook may be stale; inspect the Step result reference for any preserved output.''"

definition running_pairs :: "db \<Rightarrow> execution_lease \<Rightarrow> int \<Rightarrow> (step_orm \<times> step_attempt_orm) list" where
  "running_pairs d lease sequence =
     concat (map (\<lambda>s. map (Pair s) (filter (\<lambda>h. sa_execution_step_id h = st_id s \<and>
         sa_execution_attempt_id h = le_attempt_id lease \<and> sa_status h = SS_RUNNING) (db_step_attempts d)))
       (filter (\<lambda>s. st_execution_id s = le_execution_id lease \<and> st_sequence s = sequence \<and>
         st_status s = SS_RUNNING) (db_steps d)))"

definition attach_interrupted ::
    "datetime \<Rightarrow> execution_lease \<Rightarrow> step_result_descriptor option \<Rightarrow> step_orm \<Rightarrow> step_attempt_orm \<Rightarrow> db \<Rightarrow> db" where
  "attach_interrupted now lease stored s h d =
     (case stored of
        None \<Rightarrow> d
      | Some r \<Rightarrow>
          set_step_attempts (\<lambda>x. sa_id x = sa_id h) (assign_history_result r)
            (set_steps (\<lambda>x. st_id x = st_id s) (\<lambda>x. (assign_step_result r x)
               \<lparr>st_output_summary := rd_output_summary r,
                st_result_execution_attempt_id := Some (le_attempt_id lease),
                st_updated_at := now\<rparr>) d))"

definition interrupted_execution :: "datetime \<Rightarrow> execution_orm \<Rightarrow> execution_orm" where
  "interrupted_execution now e =
     e\<lparr>ex_notebook_projection_status := NP_FAILED,
       ex_notebook_projection_error := Some step_interrupted_message,
       ex_notebook_projected_at := None, ex_updated_at := now\<rparr>"

definition foreign_result :: "execution_lease \<Rightarrow> step_result_descriptor option \<Rightarrow> bool" where
  "foreign_result lease stored =
     (case stored of
        None \<Rightarrow> False
      | Some r \<Rightarrow> sy_execution_attempt_id (rd_reference r) \<noteq> le_attempt_id lease \<or>
          sy_fencing_token (rd_reference r) \<noteq> le_fencing_token lease)"

definition record_interrupted_result ::
    "datetime \<Rightarrow> execution_lease \<Rightarrow> int \<Rightarrow> step_result_descriptor option \<Rightarrow> db \<Rightarrow>
       worker_error + (db \<times> bool)" where
  "record_interrupted_result now lease sequence stored d =
     bind_res (require_active_lease now lease [ES_RUNNING, ES_CANCEL_REQUESTED] d) (\<lambda>(e, _).
     if foreign_result lease stored then Inl WorkerValueError
     else (case running_pairs d lease sequence of
             [(s, h)] \<Rightarrow>
               (let d1 = attach_interrupted now lease stored s h d;
                    stale = (ex_notebook_path e \<noteq> None \<and> ex_notebook_projection_status e \<noteq> NP_FAILED)
                in Inr (if stale then set_execution (ex_id e) (interrupted_execution now) d1 else d1, stale))
           | _ \<Rightarrow> Inl WorkerRuntimeError))"

subsection \<open>Every Step transaction is a worker transaction\<close>

lemma quiet_start_history [quiet]: "start_history i now lease s d = Inr (d', h) \<Longrightarrow> quiet_step d d'"
  unfolding start_history_def by (auto simp: quiet_set_rows quiet_update split: option.splits if_split_asm)

lemma quiet_merge_step_run [quiet]: "merge_step_run r d = Inr d' \<Longrightarrow> quiet_step d d'"
  unfolding merge_step_run_def Let_def by (auto simp: quiet_update split: if_split_asm)

lemma quiet_started_steps [quiet]: "quiet_step d (set_steps P (started_step now) d)"
  by (rule quiet_set_steps) (simp_all add: started_step_def)

lemma quiet_ended_steps [quiet]: "quiet_step d (set_steps P (ended_step_row now lease st r m) d)"
  by (rule quiet_set_steps) (simp_all add: ended_step_row_def assign_step_result_def)

interpretation ensure_count: worker_transaction "ensure_count now lease n" "le_execution_id lease"
  by unfold_locales (auto simp: ensure_count_def bind_res_eq_Inr split: if_split_asm)

interpretation runtime_session: worker_transaction
  "record_runtime_session mint now lease s w n" "le_execution_id lease"
proof
  fix d d' r
  assume wf: "db_wf d" and run: "record_runtime_session mint now lease s w n d = Inr (d', r)"
  let ?f = "\<lambda>e. e\<lparr>ex_runtime_session_id := Some s, ex_workspace_path := Some w, ex_notebook_path := Some n,
               ex_updated_at := now\<rparr> :: execution_orm"
  from run obtain e a where act: "require_active_lease now lease [ES_RUNNING] d = Inr (e, a)"
    and ev: "add_start_events mint now (le_execution_id lease)
      (set_attempt (at_id a) (\<lambda>a. a\<lparr>at_runtime_session_id := Some s\<rparr>) (set_execution (ex_id e) ?f d)) = Inr d'"
    unfolding record_runtime_session_def by (auto simp: bind_res_eq_Inr)
  show "worker_step (le_execution_id lease) d d'"
    by (rule fenced_step [OF wf act _ _ starts.emit_after [OF ev quiet_set_rows(1)]])
      (simp_all add: exec_step_def execution_keys_kept_def)
qed

lemma mark_startedD:
  assumes "mark_started mint h q now lease n b d = Inr (d', run)"
  obtains e a s d1 k d2 where "require_active_lease now lease [ES_RUNNING] d = Inr (e, a)"
    and "step_at d (le_execution_id lease) n = Some s" and "st_operation_id s \<noteq> None"
    and "start_history h now lease s (set_steps (\<lambda>x. st_id x = st_id s) (started_step now) d) = Inr (d1, k)"
    and "merge_step_run \<lparr>sr_execution_step_attempt_id = k, sr_execution_id = le_execution_id lease,
      sr_request_id = q, sr_artifact_baseline = snapshot_to_json b, sr_submitted_at = None,
      sr_created_at = now\<rparr> d1 = Inr d2"
    and "add_step_started_event mint now lease s d2 = Inr d'"
    and "run = \<lparr>sn_sequence = n, sn_request_id = q, sn_submitted = False, sn_artifact_baseline = b\<rparr>"
  using assms unfolding mark_started_def
  by (auto simp: bind_res_eq_Inr split: option.splits if_split_asm)

interpretation mark_started: worker_transaction "mark_started mint h q now lease n b" "le_execution_id lease"
proof
  fix d d' r
  assume "mark_started mint h q now lease n b d = Inr (d', r)"
  then obtain e a s d1 k d2 where
    1: "start_history h now lease s (set_steps (\<lambda>x. st_id x = st_id s) (started_step now) d) = Inr (d1, k)"
    and 2: "merge_step_run \<lparr>sr_execution_step_attempt_id = k, sr_execution_id = le_execution_id lease,
      sr_request_id = q, sr_artifact_baseline = snapshot_to_json b, sr_submitted_at = None,
      sr_created_at = now\<rparr> d1 = Inr d2"
    and 3: "add_step_started_event mint now lease s d2 = Inr d'"
    by (rule mark_startedD)
  from quiet_started_steps quiet_start_history [OF 1] quiet_merge_step_run [OF 2] step_started.emit_quiet [OF 3]
  have "quiet_step d d'" by (meson quiet_step_trans)
  then show "worker_step (le_execution_id lease) d d'" by (rule worker_step_quiet)
qed

interpretation mark_submitted: worker_transaction "mark_submitted now lease run" "le_execution_id lease"
  by unfold_locales
    (auto simp: mark_submitted_def bind_res_eq_Inr quiet_update intro!: worker_step_quiet)

interpretation record_handover_completed: worker_transaction
  "record_handover_completed mint now lease run h b" "le_execution_id lease"
  by unfold_locales
    (auto simp: record_handover_completed_def bind_res_eq_Inr split: option.splits
      intro!: worker_step_quiet dest: handover_completed.emit_quiet)

lemma end_stepD:
  assumes "end_step mint now lease n st r m b d = Inr (d', u)"
  obtains e a s d2 where "require_active_lease now lease [ES_RUNNING] d = Inr (e, a)"
    and "step_at d (le_execution_id lease) n = Some s" and "st_operation_id s \<noteq> None"
    and "d2 = set_step_attempts (history_at (le_attempt_id lease) n)
      (\<lambda>h. (assign_history_result r h)\<lparr>sa_status := st,
         sa_error_message := (case m of None \<Rightarrow> sa_error_message h | Some m \<Rightarrow> Some m), sa_finished_at := Some now\<rparr>)
      (set_steps (\<lambda>x. st_id x = st_id s) (ended_step_row now lease st r m) d)"
    and "add_step_completed_event mint now lease s st (Some r) m b d2 = Inr d'"
  using assms unfolding end_step_def Let_def
  by (auto simp: bind_res_eq_Inr split: option.splits if_split_asm)

interpretation end_step: worker_transaction "end_step mint now lease n st r m b" "le_execution_id lease"
proof
  fix d d' u
  assume "end_step mint now lease n st r m b d = Inr (d', u)"
  then obtain s d2 where
    2: "d2 = set_step_attempts (history_at (le_attempt_id lease) n)
      (\<lambda>h. (assign_history_result r h)\<lparr>sa_status := st,
         sa_error_message := (case m of None \<Rightarrow> sa_error_message h | Some m \<Rightarrow> Some m), sa_finished_at := Some now\<rparr>)
      (set_steps (\<lambda>x. st_id x = st_id s) (ended_step_row now lease st r m) d)"
    and 3: "add_step_completed_event mint now lease s st (Some r) m b d2 = Inr d'"
    by (rule end_stepD)
  have "quiet_step d d2" unfolding 2 by (rule quiet_step_trans [OF quiet_ended_steps quiet_set_rows(2)])
  then show "worker_step (le_execution_id lease) d d'"
    using step_completed.emit_quiet [OF 3] by (meson quiet_step_trans worker_step_quiet)
qed

interpretation mark_succeeded: worker_transaction "mark_succeeded mint now lease n r" "le_execution_id lease"
  by unfold_locales
    (auto simp: mark_succeeded_def split: sum.splits worker_error.splits intro: end_step.run_step)

interpretation mark_failed: worker_transaction "mark_failed mint now lease n r m b" "le_execution_id lease"
  by unfold_locales (auto simp: mark_failed_def intro: end_step.run_step)

lemma quiet_attach_interrupted [quiet]: "quiet_step d (attach_interrupted now lease stored s h d)"
proof (cases stored)
  case (Some r)
  show ?thesis
    unfolding attach_interrupted_def Some option.case
    by (rule quiet_step_trans [OF quiet_set_steps quiet_set_rows(2)]) (simp_all add: assign_step_result_def)
qed (simp add: attach_interrupted_def)

interpretation interrupted: worker_transaction
  "record_interrupted_result now lease n stored" "le_execution_id lease"
proof
  fix d d' u
  assume wf: "db_wf d" and run: "record_interrupted_result now lease n stored d = Inr (d', u)"
  from run obtain e a where act: "require_active_lease now lease [ES_RUNNING, ES_CANCEL_REQUESTED] d = Inr (e, a)"
    unfolding record_interrupted_result_def by (auto simp: bind_res_eq_Inr)
  from require_active_leaseD [OF wf act] have i: "ex_id e = le_execution_id lease"
    and e: "execution_row d (le_execution_id lease) = Some e" by (simp_all add: lease_row_active_def)
  from run act obtain s h where sh: "running_pairs d lease n = [(s, h)]"
    unfolding record_interrupted_result_def by (auto split: list.splits if_split_asm)
  let ?d1 = "attach_interrupted now lease stored s h d"
  have "execution_row ?d1 (le_execution_id lease) = Some e"
    using quiet_attach_interrupted e by (simp add: quiet_step_def)
  then have "worker_step (le_execution_id lease) ?d1 (set_execution (ex_id e) (interrupted_execution now) ?d1)"
    unfolding i by (rule worker_step_set_execution)
      (simp_all add: interrupted_execution_def exec_step_def execution_keys_kept_def)
  moreover have "d' = ?d1 \<or> d' = set_execution (ex_id e) (interrupted_execution now) ?d1"
    using run act unfolding record_interrupted_result_def
    by (auto simp: sh Let_def split: if_split_asm)
  ultimately show "worker_step (le_execution_id lease) d d'"
    using quiet_attach_interrupted quiet_then_worker_step worker_step_quiet by metis
qed

end
