(* ===== verification/Step_Properties.thy ===== *)
theory Step_Properties
  imports Step_Executor Run_Properties
begin

text \<open>
  What the Step transactions guarantee: the run a start records is the run a replacement worker
  finds, the deadline of a call is the nearest of its limits, and a success leaves a Step that the
  completion check accepts.
\<close>

subsection \<open>A run survives its worker\<close>

lemma map_filter_first:
  "x \<in> set t \<Longrightarrow> f x \<noteq> None \<Longrightarrow> \<forall>z\<in>set t. \<forall>v. f z = Some v \<longrightarrow> Q v \<Longrightarrow>
    \<exists>v vs. List.map_filter f t = v # vs \<and> Q v"
  by (induction t) (auto simp: List.map_filter_simps split: option.splits)

text \<open>What a worker reads when one history row of its Attempt is running.\<close>

lemma load_run_reads:
  assumes act: "require_active_lease now lease [ES_RUNNING] d = Inr x"
    and h: "h \<in> set (db_step_attempts d)" "sa_execution_attempt_id h = le_attempt_id lease" "sa_status h = SS_RUNNING"
    and only: "\<forall>z\<in>set (db_step_attempts d). sa_execution_attempt_id z = le_attempt_id lease \<and> sa_status z = SS_RUNNING \<longrightarrow>
      sa_id z = sa_id h \<and> sa_sequence z = sa_sequence h"
    and y: "scalar (\<lambda>r. sr_execution_step_attempt_id r = sa_id h) (db_step_runs d) = Some y"
    and b: "snapshot_from_json (sr_artifact_baseline y) = Some b"
  shows "load_run now lease d = Inr \<lparr>sn_sequence = sa_sequence h, sn_request_id = sr_request_id y,
    sn_submitted = (sr_submitted_at y \<noteq> None), sn_artifact_baseline = b\<rparr>"
proof -
  let ?f = "\<lambda>h. if sa_execution_attempt_id h = le_attempt_id lease \<and> sa_status h = SS_RUNNING
    then map_option (Pair h) (scalar (\<lambda>r. sr_execution_step_attempt_id r = sa_id h) (db_step_runs d)) else None"
  have "\<forall>z\<in>set (db_step_attempts d). \<forall>v. ?f z = Some v \<longrightarrow> sa_sequence (fst v) = sa_sequence h \<and> snd v = y"
    using only y by (auto split: if_split_asm)
  moreover have "?f h \<noteq> None" using h(2,3) y by simp
  ultimately have "\<exists>z zs. List.map_filter ?f (db_step_attempts d) = z # zs \<and>
      sa_sequence (fst z) = sa_sequence h \<and> snd z = y"
    by (intro map_filter_first [OF h(1)])
  then obtain z zs where "List.map_filter ?f (db_step_attempts d) = z # zs" "sa_sequence (fst z) = sa_sequence h" "snd z = y"
    by blast
  then show ?thesis using act b by (cases z) (simp add: load_run_def)
qed

lemma merge_step_run_lookup:
  assumes "merge_step_run r d = Inr d'"
  shows "\<exists>c. scalar (\<lambda>x. sr_execution_step_attempt_id x = sr_execution_step_attempt_id r) (db_step_runs d') =
    Some (r\<lparr>sr_created_at := c\<rparr>)"
proof -
  let ?P = "\<lambda>x. sr_execution_step_attempt_id x = sr_execution_step_attempt_id r"
  let ?f = "\<lambda>x. r\<lparr>sr_created_at := sr_created_at x\<rparr> :: step_run_orm"
  show ?thesis
  proof (cases "scalar ?P (db_step_runs d)")
    case (Some y)
    then have "\<exists>x\<in>set (db_step_runs d). ?P x" using scalar_SomeD [OF Some] by blast
    then have "db_step_runs d' = update_where ?P ?f (db_step_runs d)"
      using assms by (auto simp: merge_step_run_def Let_def split: if_split_asm)
    then have "scalar ?P (db_step_runs d') = map_option (\<lambda>x. if ?P x then ?f x else x) (scalar ?P (db_step_runs d))"
      by (simp only:) (rule scalar_key_update_where, simp)
    then show ?thesis using Some scalar_SomeD [OF Some] by auto
  next
    case None
    then have "\<not> (\<exists>x\<in>set (db_step_runs d). ?P x)" by (simp add: scalar_None_iff)
    then have "db_step_runs d' = db_step_runs d @ [r]"
      using assms by (auto simp: merge_step_run_def Let_def split: if_split_asm)
    then have "scalar ?P (db_step_runs d') = Some (?f r)" using None by (simp add: scalar_append)
    then show ?thesis by (rule exI)
  qed
qed

text \<open>
  The history a start leaves: one running row of this Attempt, for this Step. The Attempt runs one
  Step at a time, and the table has one row per Attempt and Step number.
\<close>

definition one_at_a_time :: "uuid \<Rightarrow> int \<Rightarrow> db \<Rightarrow> bool" where
  "one_at_a_time attempt_id n d \<longleftrightarrow>
     distinct (map sa_id (db_step_attempts d)) \<and>
     distinct (map (\<lambda>h. (sa_execution_attempt_id h, sa_sequence h)) (db_step_attempts d)) \<and>
     list_all (\<lambda>h. sa_execution_attempt_id h = attempt_id \<and> sa_status h = SS_RUNNING \<longrightarrow> sa_sequence h = n)
       (db_step_attempts d)"

lemma start_history_running:
  assumes one: "one_at_a_time (le_attempt_id lease) (st_sequence s) d"
    and run: "start_history i now lease s d = Inr (d1, k)"
  shows "\<exists>h\<in>set (db_step_attempts d1). sa_id h = k \<and> history_at (le_attempt_id lease) (st_sequence s) h \<and>
      sa_status h = SS_RUNNING"
    and "h \<in> set (db_step_attempts d1) \<Longrightarrow> sa_execution_attempt_id h = le_attempt_id lease \<Longrightarrow>
      sa_status h = SS_RUNNING \<Longrightarrow> sa_id h = k \<and> sa_sequence h = st_sequence s"
proof -
  let ?P = "history_at (le_attempt_id lease) (st_sequence s)"
  have only: "\<forall>h\<in>set (db_step_attempts d). sa_execution_attempt_id h = le_attempt_id lease \<and> sa_status h = SS_RUNNING
      \<longrightarrow> ?P h"
    and uniq: "distinct (map (\<lambda>h. (sa_execution_attempt_id h, sa_sequence h)) (db_step_attempts d))"
    using one by (auto simp: one_at_a_time_def list_all_iff history_at_def)
  have same: "x = y" if "x \<in> set (db_step_attempts d)" "y \<in> set (db_step_attempts d)" "?P x" "?P y" for x y
    using that inj_onD [OF conjunct2 [OF uniq [unfolded distinct_map]], of x y] by (simp add: history_at_def)
  have "(\<exists>h\<in>set (db_step_attempts d1). sa_id h = k \<and> ?P h \<and> sa_status h = SS_RUNNING) \<and>
      (\<forall>h\<in>set (db_step_attempts d1). sa_execution_attempt_id h = le_attempt_id lease \<and> sa_status h = SS_RUNNING \<longrightarrow>
        sa_id h = k \<and> sa_sequence h = st_sequence s)"
  proof (cases "scalar ?P (db_step_attempts d)")
    case None
    then have t: "db_step_attempts d1 = db_step_attempts d @ [new_step_attempt i now lease s]" and k: "k = i"
      using run by (auto simp: start_history_def split: if_split_asm)
    have none: "\<forall>h\<in>set (db_step_attempts d). \<not> ?P h" using None by (simp add: scalar_None_iff)
    show ?thesis
      unfolding t k using only none by (auto simp: new_step_attempt_def history_at_def)
  next
    case (Some h)
    from scalar_SomeD [OF Some] have h: "?P h" "h \<in> set (db_step_attempts d)" by simp_all
    have t: "db_step_attempts d1 = update_where (\<lambda>x. sa_id x = sa_id h) (restarted_step_attempt now) (db_step_attempts d)"
      and k: "k = sa_id h"
      using run Some by (auto simp: start_history_def set_step_attempts_def)
    have "restarted_step_attempt now h \<in> set (db_step_attempts d1)"
      unfolding t set_update_where by (rule image_eqI [OF _ h(2)]) simp
    moreover have "sa_id x = sa_id h \<and> sa_sequence x = st_sequence s"
      if x: "x \<in> set (db_step_attempts d1)" "sa_execution_attempt_id x = le_attempt_id lease" "sa_status x = SS_RUNNING" for x
    proof -
      obtain y where y: "y \<in> set (db_step_attempts d)"
        and xy: "x = (if sa_id y = sa_id h then restarted_step_attempt now y else y)"
        using x(1) unfolding t set_update_where by auto
      show ?thesis
      proof (cases "sa_id y = sa_id h")
        case True
        have "inj_on sa_id (set (db_step_attempts d))" using one by (simp add: one_at_a_time_def distinct_map)
        then have "y = h" using True y h(2) by (rule inj_onD)
        then show ?thesis using xy h(1) True by (simp add: restarted_step_attempt_def history_at_def)
      next
        case False
        then have "x = y" using xy by simp
        then show ?thesis using only y x(2,3) same [OF y h(2) _ h(1)] False by blast
      qed
    qed
    moreover have "sa_id (restarted_step_attempt now h) = k" "?P (restarted_step_attempt now h)"
      "sa_status (restarted_step_attempt now h) = SS_RUNNING"
      using h k by (simp_all add: restarted_step_attempt_def history_at_def)
    ultimately show ?thesis unfolding k by blast
  qed
  then show "\<exists>h\<in>set (db_step_attempts d1). sa_id h = k \<and> ?P h \<and> sa_status h = SS_RUNNING"
    and "h \<in> set (db_step_attempts d1) \<Longrightarrow> sa_execution_attempt_id h = le_attempt_id lease \<Longrightarrow>
      sa_status h = SS_RUNNING \<Longrightarrow> sa_id h = k \<and> sa_sequence h = st_sequence s" by blast+
qed


subsection \<open>Deadlines\<close>

definition time_left :: "datetime \<Rightarrow> int \<Rightarrow> datetime option \<Rightarrow> timedelta" where
  "time_left now limit started_at = seconds limit - (now - opt_or started_at now)"

text \<open>
  The deadline of a Step's call: with no limit there is none; otherwise it is the
  nearest of the Step's and the Operation's limits, counted from the recorded start and never
  negative, so a worker that takes the Step over only waits for what remains. Code that was not
  submitted yet is refused exactly when one of the limits has already passed.
\<close>

lemma step_deadline:
  "case step_timeouts now submitted s q of
     Inl (scope, n) \<Rightarrow> \<not> submitted \<and>
       (scope = ''Step'' \<and> st_step_timeout_seconds s = Some n \<and> time_left now n (st_started_at s) \<le> 0 \<or>
        scope = ''Operation'' \<and> op_operation_timeout_seconds q = Some n \<and> time_left now n (op_started_at q) \<le> 0)
   | Inr None \<Rightarrow> st_step_timeout_seconds s = None \<and> op_operation_timeout_seconds q = None
   | Inr (Some (remaining, n, scope)) \<Rightarrow> 0 \<le> remaining \<and> (submitted \<or> 0 < remaining) \<and>
       (scope = ''Step'' \<and> st_step_timeout_seconds s = Some n \<and> remaining = max (time_left now n (st_started_at s)) 0 \<or>
        scope = ''Operation'' \<and> op_operation_timeout_seconds q = Some n \<and>
          remaining = max (time_left now n (op_started_at q)) 0) \<and>
       (\<forall>m. st_step_timeout_seconds s = Some m \<longrightarrow> remaining \<le> max (time_left now m (st_started_at s)) 0) \<and>
       (\<forall>m. op_operation_timeout_seconds q = Some m \<longrightarrow> remaining \<le> max (time_left now m (op_started_at q)) 0)"
  by (cases "st_step_timeout_seconds s"; cases "op_operation_timeout_seconds q")
    (auto simp: step_timeouts_def timeout_entry_def time_left_def [symmetric] Let_def min_def less_eq_prod_def
      less_prod_def split: prod.splits)

subsection \<open>A Step that succeeded\<close>

definition descriptor_ok :: "step_result_descriptor \<Rightarrow> bool" where
  "descriptor_ok r \<longleftrightarrow>
     rd_complete r \<and> sy_relative_path (rd_reference r) \<noteq> [] \<and> sy_checksum_sha256 (rd_reference r) \<noteq> [] \<and>
     sy_size_bytes (rd_reference r) \<noteq> 0"

text \<open>
  A committed Step success needs a valid lease, marks the Step as
  SUCCEEDED under the worker's Attempt with the stored result's reference and fence, and leaves every
  other Step alone; with a complete stored result the Step then passes the check that allows the run
  to succeed. Whatever else goes wrong is reported as a completion error, which never runs the code
  again.
\<close>

lemma step_success_completes:
  assumes wf: "db_wf d"
  shows "case mark_succeeded mint now lease n r d of
      Inl err \<Rightarrow> err \<in> {ExecutionLeaseLostError, ExecutionCompletionError ''RESULT_REFERENCE_PERSIST''}
    | Inr (d', _) \<Rightarrow> owns_execution now lease d \<and>
        (\<exists>s s'. step_at d (le_execution_id lease) n = Some s \<and> step_row d' (st_id s) = Some s' \<and>
           st_status s' = SS_SUCCEEDED \<and> st_result_execution_attempt_id s' = Some (le_attempt_id lease) \<and>
           st_result_manifest_path s' = Some (sy_relative_path (rd_reference r)) \<and>
           st_result_fencing_token s' = Some (sy_fencing_token (rd_reference r)) \<and>
           (step_result_incomplete s' \<longleftrightarrow> \<not> descriptor_ok r) \<and>
           (\<forall>j. j \<noteq> st_id s \<longrightarrow> step_row d' j = step_row d j))"
proof (cases "mark_succeeded mint now lease n r d")
  case (Inl err)
  then show ?thesis
    by (auto simp: mark_succeeded_def split: sum.splits worker_error.splits)
next
  case (Inr p)
  then obtain d' u where run: "end_step mint now lease n SS_SUCCEEDED r None False d = Inr (d', u)" and p: "p = (d', u)"
    by (cases p) (auto simp: mark_succeeded_def split: sum.splits worker_error.splits)
  from run obtain e a s d2 where act: "require_active_lease now lease [ES_RUNNING] d = Inr (e, a)"
    and s: "step_at d (le_execution_id lease) n = Some s"
    and d2: "d2 = set_step_attempts (history_at (le_attempt_id lease) n)
      (\<lambda>h. (assign_history_result r h)\<lparr>sa_status := SS_SUCCEEDED,
         sa_error_message := (case None of None \<Rightarrow> sa_error_message h | Some m \<Rightarrow> Some m), sa_finished_at := Some now\<rparr>)
      (set_steps (\<lambda>x. st_id x = st_id s) (ended_step_row now lease SS_SUCCEEDED r None) d)"
    and ev: "add_step_completed_event mint now lease s SS_SUCCEEDED (Some r) None False d2 = Inr d'"
    by (rule end_stepD)
  have id: "st_id (ended_step_row now lease SS_SUCCEEDED r None x) = st_id x" for x
    by (simp add: ended_step_row_def assign_step_result_def)
  have "db_steps d' = db_steps d2" using step_completed.emit_same [OF ev] by (simp add: same_tables_def)
  then have rows: "step_row d' j = map_option (\<lambda>x. if st_id x = st_id s then ended_step_row now lease SS_SUCCEEDED r None x else x)
      (step_row d j)" for j
    by (simp add: step_row_def d2 set_row_defs scalar_key_update_where id)
  have "s \<in> set (db_steps d)" using scalar_SomeD [OF s [unfolded step_at_def]] by simp
  then have row: "step_row d (st_id s) = Some s"
    using scalar_key_unique [OF db_wf_step_ids [OF wf]] by (simp add: step_row_def)
  then have s': "step_row d' (st_id s) = Some (ended_step_row now lease SS_SUCCEEDED r None s)" by (simp add: rows)
  have "step_row d' j = step_row d j" if "j \<noteq> st_id s" for j
    using that unfolding rows by (cases "step_row d j") (auto simp: step_row_def dest: scalar_SomeD)
  moreover have "owns_execution now lease d" using act by (simp add: owns_execution_def)
  ultimately show ?thesis
    using s s' Inr p
    by (simp add: ended_step_row_def assign_step_result_def step_result_incomplete_def descriptor_ok_def) blast
qed

subsection \<open>Witnesses\<close>

definition demo_baseline :: runtime_storage_snapshot where
  "demo_baseline = \<lparr>ss_files = [\<lparr>fs_path = ''a.csv'', fs_size_bytes = 3, fs_modified_ns = 4\<rparr>], ss_manifest_size = 1\<rparr>"

abbreviation demo_start :: "worker_error + (db \<times> step_run)" where
  "demo_start \<equiv> mark_started demo_mint 80 90 8 demo_lease 0 demo_baseline (demo_running OM_SINGLE)"

definition demo_started :: db where
  "demo_started = (case demo_start of Inl _ \<Rightarrow> empty_db | Inr (d, _) \<Rightarrow> d)"

lemma demo_start_ok: "is_ok demo_start"
  by code_simp

lemma demo_started_wf: "db_wf demo_started"
  using mark_started.run_wf [OF demo_running_wf] by (auto simp: demo_started_def split: sum.splits)


lemma step_deadline_witness:
  "case step_timeouts 5000000 False
      (the (step_at demo_started 10 0)\<lparr>st_step_timeout_seconds := Some 30, st_started_at := Some 0\<rparr>)
      (the (operation_row demo_started 20)\<lparr>op_operation_timeout_seconds := Some 20, op_started_at := Some 0\<rparr>) of
     Inr (Some (remaining, n, scope)) \<Rightarrow> remaining \<le> 15000000 \<and> 0 < remaining | _ \<Rightarrow> False"
  using step_deadline [where now = 5000000 and submitted = False and
      s = "the (step_at demo_started 10 0)\<lparr>st_step_timeout_seconds := Some 30, st_started_at := Some 0\<rparr>" and
      q = "the (operation_row demo_started 20)\<lparr>op_operation_timeout_seconds := Some 20, op_started_at := Some 0\<rparr>"]
  by (auto simp: time_left_def seconds_def split: sum.splits option.splits)

definition demo_descriptor :: step_result_descriptor where
  "demo_descriptor = \<lparr>rd_state = ''complete'', rd_complete = True,
     rd_reference = \<lparr>sy_relative_path = ''r/manifest.json'', sy_checksum_sha256 = replicate 64 CHR ''a'', sy_size_bytes = 5,
       sy_execution_attempt_id = 60, sy_fencing_token = 1\<rparr>,
     rd_source = \<lparr>sf_relative_path = ''s.py'', sf_checksum_sha256 = replicate 64 CHR ''b'', sf_size_bytes = 3\<rparr>, rd_output_count = 0, rd_representation_count = 0,
     rd_total_size_bytes = 0, rd_output_summary = empty_output_summary, rd_execution_count = Some 1, rd_error_message = None\<rparr>"

lemma step_success_completes_witness:
  "\<exists>d' s'. mark_succeeded demo_mint 9 demo_lease 0 demo_descriptor demo_started = Inr (d', ()) \<and>
     step_row d' 30 = Some s' \<and> st_status s' = SS_SUCCEEDED \<and> \<not> step_result_incomplete s'"
proof -
  have "is_ok (mark_succeeded demo_mint 9 demo_lease 0 demo_descriptor demo_started)" by code_simp
  then obtain d' u where r: "mark_succeeded demo_mint 9 demo_lease 0 demo_descriptor demo_started = Inr (d', u)"
    by (rule is_okE)
  have "map_option st_id (step_at demo_started (le_execution_id demo_lease) 0) = Some 30" by code_simp
  moreover have "descriptor_ok demo_descriptor" by code_simp
  ultimately show ?thesis
    using step_success_completes [OF demo_started_wf, where mint = demo_mint and now = 9 and
        lease = demo_lease and n = 0 and r = demo_descriptor] r by auto
qed

end
