(* ===== verification/System.thy ===== *)
theory System
  imports Ending_Properties Step_Properties
begin

text \<open>
  The whole service as a transition system on the database. A step is a committed command of the
  application services or a committed transaction of a worker or of a background pass; a call that
  raises or answers without writing changes nothing and is not a step. Transactions of different
  processes interleave in any order, each with its own clock, identifiers and read snapshots. Rows a
  command looked at before it took its lock are the arguments \<open>dl\<close> and \<open>dr\<close>, which may be
  any database.

  The theorems hold for every reachable state: the well-formedness invariant, the fencing of leases
  (the interpretation of \<open>fenced_store\<close>), and the refinement of the abstract status machine.
\<close>

subsection \<open>The transition relation\<close>

inductive command_transition :: "db \<Rightarrow> db \<Rightarrow> bool" where
  submitted: "submit sha cl off now ids dl d dr fs c = (fs', Inr (Committed d' r)) \<Longrightarrow>
    length (ni_steps ids) = length (sc_steps c) \<Longrightarrow> command_transition d d'"
| cancelled: "cancel_execution now dl d dr cc = Inr (Committed d' x) \<Longrightarrow> command_transition d d'"
| finalized: "finalize_execution sha now ids dl d dr fc = Inr (Committed d' x) \<Longrightarrow> command_transition d d'"
| retried: "retry_execution now ids dl d dr rc = Inr (Committed d' r) \<Longrightarrow> command_transition d d'"
| operation_created: "create_operation sha cl now ids dl d dr fs oc = (fs', Inr (Committed d' r)) \<Longrightarrow>
    length (ni_steps ids) = length (oc_steps oc) \<Longrightarrow> command_transition d d'"

inductive worker_transition :: "db \<Rightarrow> db \<Rightarrow> bool" where
  lease_renewed: "renew_execution n now lease d = Inr (d', u) \<Longrightarrow> worker_transition d d'"
| cancellation_renewed: "renew_cancellation n now stop d = Inr (d', u) \<Longrightarrow> worker_transition d d'"
| claimed: "claim mint ws w now (now', dt) locked k i d = Inr (d', c) \<Longrightarrow> worker_transition d d'"
| cancellation_claimed: "claim_cancellation ws w now locked i d = Inr (d', cw) \<Longrightarrow> worker_transition d d'"
| handover_claimed: "claim_handover ws w now locked i d = Inr (d', ch) \<Longrightarrow> worker_transition d d'"
| retry_deferred: "defer_retained_retry now lease t m d = Inr (d', u) \<Longrightarrow> worker_transition d d'"
| session_recorded: "record_runtime_session mint now lease s p b d = Inr (d', u) \<Longrightarrow> worker_transition d d'"
| step_started: "mark_started mint h q now lease n bl d = Inr (d', run) \<Longrightarrow> worker_transition d d'"
| step_submitted: "mark_submitted now lease run d = Inr (d', u) \<Longrightarrow> worker_transition d d'"
| handover_completed: "record_handover_completed mint now lease run sh b d = Inr (d', u) \<Longrightarrow> worker_transition d d'"
| step_succeeded: "mark_succeeded mint now lease n r d = Inr (d', u) \<Longrightarrow> worker_transition d d'"
| step_failed: "mark_failed mint now lease n r m b d = Inr (d', u) \<Longrightarrow> worker_transition d d'"
| step_interrupted: "record_interrupted_result now lease n stored d = Inr (d', b) \<Longrightarrow> worker_transition d d'"
| steps_skipped: "skip_steps_after now lease q n d = Inr (d', u) \<Longrightarrow> worker_transition d d'"
| operation_ended: "complete_operation mint now lease q os m ft d = Inr (d', u) \<Longrightarrow> worker_transition d d'"
| abort_recorded: "record_runtime_abort now lease ab cs f d = Inr (d', u) \<Longrightarrow> worker_transition d d'"
| released_to_cancellation: "release_for_cancellation now lease d = Inr (d', u) \<Longrightarrow> worker_transition d d'"
| released_to_handover: "release_for_handover mint now lease d = Inr (d', b) \<Longrightarrow> worker_transition d d'"
| run_ended: "finalize mint ws now lease fr d = Inr (d', u) \<Longrightarrow> worker_transition d d'"
| cancellation_ended: "finalize_cancellation mint now stop cs d = Inr (d', u) \<Longrightarrow> worker_transition d d'"
| cleanup_recorded: "record_result now ob cs d = Inr (d', u) \<Longrightarrow> worker_transition d d'"
| waiting_audited: "audit_waiting mint now later e t pr d = Inr (d', ro) \<Longrightarrow> worker_transition d d'"

inductive pass_transition :: "db \<Rightarrow> db \<Rightarrow> bool" where
  leases_fenced: "fence_expired_leases mint di now skipped d = Inr (d', out) \<Longrightarrow> pass_transition d d'"
| cleanups_retried: "retry_unresolved ws now skipped d = Inr (d', obs) \<Longrightarrow> pass_transition d d'"
| retentions_expired: "cleanup_expired mint now skipped d = Inr (d', obs) \<Longrightarrow> pass_transition d d'"
| queue_timeouts_failed: "fail_queue_timeouts mint ws now skipped d = Inr (d', us) \<Longrightarrow> pass_transition d d'"
| overdue_stopped: "request_expired_execution_cancellations ws now skipped d = Inr (d', is) \<Longrightarrow> pass_transition d d'"

text \<open>
  The parts outside this transition system may write the tables it only reads, at any time and with
  any contents: registered Runtime Targets, the admission state, artifacts, diagnostics and the
  outbox.
\<close>

inductive environment_transition :: "db \<Rightarrow> db \<Rightarrow> bool" where
  targets_written: "environment_transition d (d\<lparr>db_targets := ts\<rparr>)"
| admission_written: "environment_transition d (d\<lparr>db_admission := a\<rparr>)"
| artifacts_written: "environment_transition d (d\<lparr>db_artifacts := fs\<rparr>)"
| diagnostics_written: "environment_transition d (d\<lparr>db_diagnostics := gs\<rparr>)"
| outbox_written: "environment_transition d (d\<lparr>db_outbox := bs\<rparr>)"

inductive system_step :: "db \<Rightarrow> db \<Rightarrow> bool" where
  command: "command_transition d d' \<Longrightarrow> system_step d d'"
| worker: "worker_transition d d' \<Longrightarrow> system_step d d'"
| background: "pass_transition d d' \<Longrightarrow> system_step d d'"
| environment: "environment_transition d d' \<Longrightarrow> system_step d d'"

inductive_cases command_transitionE: "command_transition d d'"
inductive_cases worker_transitionE: "worker_transition d d'"
inductive_cases pass_transitionE: "pass_transition d d'"
inductive_cases environment_transitionE: "environment_transition d d'"
inductive_cases system_stepE: "system_step d d'"

definition reachable :: "db \<Rightarrow> bool" where
  "reachable d \<longleftrightarrow> system_step\<^sup>*\<^sup>* empty_db d"

subsection \<open>Every worker transition is one worker step, every pass a sequence of them\<close>

lemma worker_transition_step:
  assumes "db_wf d" and "worker_transition d d'"
  shows "\<exists>i. worker_step i d d'"
  using assms(2)
  by (elim worker_transitionE)
    (blast intro: renewal.run_step [OF assms(1)] cancellation_renewal.run_step [OF assms(1)]
      claim.run_step [OF assms(1)] claim_cancellation.run_step [OF assms(1)] claim_handover.run_step [OF assms(1)]
      defer_retry.run_step [OF assms(1)] runtime_session.run_step [OF assms(1)] mark_started.run_step [OF assms(1)]
      mark_submitted.run_step [OF assms(1)] record_handover_completed.run_step [OF assms(1)]
      mark_succeeded.run_step [OF assms(1)] mark_failed.run_step [OF assms(1)] interrupted.run_step [OF assms(1)]
      skip_steps_after.run_step [OF assms(1)] complete_operation.run_step [OF assms(1)]
      record_runtime_abort.run_step [OF assms(1)] release_for_cancellation.run_step [OF assms(1)]
      release_for_handover.run_step [OF assms(1)] finalize.run_step [OF assms(1)] cancellation.run_step [OF assms(1)]
      record_result.run_step [OF assms(1)] audit_waiting.run_step [OF assms(1)])+

lemma environment_transition_quiet: "environment_transition d d' \<Longrightarrow> quiet_step d d'"
  by (erule environment_transitionE) (simp_all add: quiet_update)

lemma pass_transition_steps:
  assumes "db_wf d" and "pass_transition d d'"
  shows "worker_steps d d'"
  using assms(2) select_rows_ok [OF assms(1)] first_rows_ok [OF assms(1)]
  by (elim pass_transitionE)
    (auto simp: fence_expired_leases_def retry_unresolved_def cleanup_expired_def fail_queue_timeouts_def
      request_expired_execution_cancellations_def
      intro: recovery_batch.run_batch_frame(1) unresolved_batch.run_batch_frame(1) expiry_batch.run_batch_frame(1)
        queue_timeout_batch.run_batch_frame(1) max_runtime_batch.run_batch_frame(1))

subsection \<open>Progress of the rows\<close>

definition exec_progress :: "execution_orm \<Rightarrow> execution_orm \<Rightarrow> bool" where
  "exec_progress e e' \<longleftrightarrow>
     ex_id e' = ex_id e \<and> ex_tenant_id e' = ex_tenant_id e \<and> ex_user_id e' = ex_user_id e \<and>
     ex_idempotency_key e' = ex_idempotency_key e \<and> ex_fencing_token e \<le> ex_fencing_token e' \<and> ex_version e \<le> ex_version e'"

definition db_progress :: "db \<Rightarrow> db \<Rightarrow> bool" where
  "db_progress d d' \<longleftrightarrow>
     db_wf d' \<and> (steps_contiguous d \<longrightarrow> steps_contiguous d') \<and> (events_wf d \<longrightarrow> events_wf d') \<and>
     (\<forall>i e. execution_row d i = Some e \<longrightarrow> (\<exists>e'. execution_row d' i = Some e' \<and> exec_progress e e'))"

lemma exec_progress_refl [simp]: "exec_progress e e"
  by (simp add: exec_progress_def)

lemma exec_progress_trans: "exec_progress e e1 \<Longrightarrow> exec_progress e1 e2 \<Longrightarrow> exec_progress e e2"
  by (auto simp: exec_progress_def)

lemma db_progress_refl: "db_wf d \<Longrightarrow> db_progress d d"
  by (simp add: db_progress_def)

lemma db_progress_trans:
  assumes "db_progress d d1" and "db_progress d1 d2"
  shows "db_progress d d2"
proof -
  have "\<exists>e2. execution_row d2 i = Some e2 \<and> exec_progress e e2" if "execution_row d i = Some e" for i e
    using assms that exec_progress_trans unfolding db_progress_def by metis
  then show ?thesis using assms by (auto simp: db_progress_def)
qed

lemma exec_step_progress: "exec_step e e' \<Longrightarrow> exec_progress e e'"
  by (auto simp: exec_step_def exec_progress_def)

lemma worker_step_progress:
  assumes "db_wf d" and "worker_step i d d'"
  shows "db_progress d d'"
proof -
  have "\<exists>e'. execution_row d' j = Some e' \<and> exec_progress e e'" if "execution_row d j = Some e" for j e
    using assms(2) that exec_step_progress by (cases "j = i") (auto simp: worker_step_def)
  then show ?thesis using assms by (simp add: db_progress_def worker_step_def log_kept_def)
qed

lemma worker_steps_progress: "worker_steps d d' \<Longrightarrow> db_wf d \<Longrightarrow> db_progress d d'"
proof (induction rule: rtranclp_induct)
  case (step d1 d2)
  then have p: "db_progress d d1" by blast
  then have "db_wf d1" by (simp add: db_progress_def)
  with step(2) p show ?case using worker_step_progress db_progress_trans by blast
qed (rule db_progress_refl)

lemma command_step_progress:
  assumes "command_step i d d'" and "steps_contiguous d \<Longrightarrow> steps_contiguous d'"
  shows "db_progress d d'"
proof -
  have "\<exists>e'. execution_row d' j = Some e' \<and> exec_progress e e'" if "execution_row d j = Some e" for j e
    using assms(1) that by (cases "j = i") (auto simp: command_step_def exec_progress_def)
  then show ?thesis
    using assms events_wf_cong [of d' d] by (simp add: db_progress_def command_step_def)
qed

lemma submit_effect:
  assumes wf: "db_wf d" and len: "length (ni_steps ids) = length (sc_steps c)"
    and com: "submit sha cl off now ids dl d dr fs c = (fs', Inr (Committed d' r))"
  shows "db_progress d d'" and "execution_row d (ni_execution ids) = None"
    and "\<exists>e. execution_row d' (ni_execution ids) = Some e \<and> ex_status e = ES_QUEUED"
    and "j \<noteq> ni_execution ids \<Longrightarrow> execution_row d' j = execution_row d j"
proof -
  let ?fp = "canonical_sha256 sha (submit_payload c)"
  note D = submit_commitD [OF com]
  note ins = submit_insert_SomeD [OF D(3)]
  have num: "steps_numbered 0 (sc_steps c)" using D(1) by (simp add: submit_acceptable_def)
  show new: "execution_row d (ni_execution ids) = None"
    using not_key_imageD [OF ins(2)] by (simp add: execution_row_def scalar_None_iff)
  let ?e = "execution_from_domain (submitted_execution sha now ids ?fp c)"
  have e: "ex_id ?e = ni_execution ids" "ex_status ?e = ES_QUEUED"
    by (simp_all add: submitted_execution_def new_execution_def row_simps)
  have "db_executions d' = db_executions d @ [?e]" unfolding ins(1) by (simp add: submitted_db_def)
  then have row: "execution_row d' j = (case execution_row d j of
      None \<Rightarrow> if j = ni_execution ids then Some ?e else None | Some e \<Rightarrow> Some e)" for j
    by (simp add: execution_row_def scalar_append e eq_commute split: option.split)
  then show "\<exists>e. execution_row d' (ni_execution ids) = Some e \<and> ex_status e = ES_QUEUED"
    and "j \<noteq> ni_execution ids \<Longrightarrow> execution_row d' j = execution_row d j"
    using new e(2) by (simp_all split: option.splits)
  have "steps_contiguous d \<Longrightarrow> steps_contiguous d'"
    unfolding ins(1) by (rule submitted_steps_of(3) [OF wf num len ins(2)])
  moreover have "db_events d' = db_events d" "db_event_sequences d' = db_event_sequences d"
    unfolding ins(1) by (simp_all add: submitted_db_def)
  ultimately show "db_progress d d'"
    using ins(4) [OF wf] row events_wf_cong [of d' d] by (simp add: db_progress_def)
qed

lemma command_transition_progress:
  assumes wf: "db_wf d" and "command_transition d d'"
  shows "db_progress d d'"
  using assms(2)
proof cases
  case submitted
  then show ?thesis using submit_effect(1) [OF wf] by blast
next
  case cancelled
  show ?thesis
    by (rule command_step_progress [OF handler_step(1) [OF wf cancelled]])
      (simp add: locked_contiguous(1) [OF wf handler_locked(1) [OF cancelled]])
next
  case (finalized sha now ids dl dr fc x)
  from handler_locked(2) [OF finalized] obtain ty fp where "finalize_locked now ids d ty fp fc = Inr (Committed d' x)"
    by blast
  from locked_contiguous(2) [OF wf this] show ?thesis
    by (intro command_step_progress [OF handler_step(2) [OF wf finalized]]) simp
next
  case retried
  show ?thesis
    by (rule command_step_progress [OF handler_step(3) [OF wf retried]])
      (simp add: locked_contiguous(3) [OF wf handler_locked(3) [OF retried]])
next
  case (operation_created sha cl now ids dl dr fs oc fs' r)
  show ?thesis
    by (rule command_step_progress [OF handler_step(4) [OF wf operation_created(1)]])
      (rule create_contiguous(1) [OF wf _ operation_created(2,1)])
qed

lemma system_step_progress:
  assumes "db_wf d" and "system_step d d'"
  shows "db_progress d d'"
  using assms(2)
proof cases
  case command
  then show ?thesis by (rule command_transition_progress [OF assms(1)])
next
  case worker
  then show ?thesis using worker_transition_step [OF assms(1)] worker_step_progress [OF assms(1)] by blast
next
  case background
  then show ?thesis using pass_transition_steps [OF assms(1)] worker_steps_progress assms(1) by blast
next
  case environment
  then show ?thesis
    using worker_step_progress [OF assms(1) worker_step_quiet [OF environment_transition_quiet]] by blast
qed

lemma system_steps_progress: "system_step\<^sup>*\<^sup>* d d' \<Longrightarrow> db_wf d \<Longrightarrow> db_progress d d'"
proof (induction rule: rtranclp_induct)
  case (step d1 d2)
  then have p: "db_progress d d1" by blast
  then have "db_wf d1" by (simp add: db_progress_def)
  then show ?case using system_step_progress [OF _ step(2)] p db_progress_trans by blast
qed (rule db_progress_refl)

subsection \<open>The invariant\<close>

lemma empty_db_ok: "db_wf empty_db" "steps_contiguous empty_db" "events_wf empty_db"
proof -
  show "events_wf empty_db"
    by (simp add: events_wf_def event_numbers_def last_event_number_def empty_db_def)
      (rule exI [of _ 0], simp)
qed (rule db_wf_empty, simp add: steps_contiguous_def empty_db_def)

lemma reachable_wf: "reachable d \<Longrightarrow> db_wf d"
  using system_steps_progress [OF _ empty_db_ok(1)] by (auto simp: reachable_def db_progress_def)


text \<open>
  C5. Between any two states of a run of the service, an Execution keeps its identity,
  tenant, user and submission key, and its version and its fencing token never decrease.
\<close>

theorem rows_progress:
  assumes "reachable d" and "system_step\<^sup>*\<^sup>* d d'" and "execution_row d i = Some e"
  shows "\<exists>e'. execution_row d' i = Some e' \<and> ex_id e' = ex_id e \<and> ex_tenant_id e' = ex_tenant_id e \<and>
      ex_user_id e' = ex_user_id e \<and> ex_idempotency_key e' = ex_idempotency_key e \<and> ex_fencing_token e \<le> ex_fencing_token e' \<and>
      ex_version e \<le> ex_version e'"
  using system_steps_progress [OF assms(2) reachable_wf [OF assms(1)]] assms(3)
  by (auto simp: db_progress_def exec_progress_def)

subsection \<open>Fencing\<close>

definition token_of :: "db \<Rightarrow> uuid \<Rightarrow> int option" where
  "token_of d i = map_option ex_fencing_token (execution_row d i)"

lemma token_of_step:
  assumes "db_wf d" and "system_step d d'" and "token_of d i = Some t"
  shows "\<exists>t'\<ge>t. token_of d' i = Some t'"
proof -
  obtain e where e: "execution_row d i = Some e" "t = ex_fencing_token e"
    using assms(3) by (auto simp: token_of_def)
  obtain e' where "execution_row d' i = Some e'" "exec_progress e e'"
    using system_step_progress [OF assms(1,2)] e(1) unfolding db_progress_def by blast
  then show ?thesis using e(2) by (simp add: token_of_def exec_progress_def)
qed

interpretation fencing: fenced_store system_step db_wf token_of
  "\<lambda>now d lease. owns_execution now lease d" le_execution_id le_fencing_token
proof
  fix d d' :: db
  assume "db_wf d" "system_step d d'"
  then show "db_wf d'" using system_step_progress by (auto simp: db_progress_def)
next
  fix now d and lease :: execution_lease
  assume wf: "db_wf d" and "owns_execution now lease d"
  then obtain e a where "require_active_lease now lease [ES_RUNNING] d = Inr (e, a)"
    by (auto simp: owns_execution_def split: sum.splits)
  from require_active_leaseD [OF wf this] show "token_of d (le_execution_id lease) = Some (le_fencing_token lease)"
    by (simp add: token_of_def lease_row_active_def)
qed (rule token_of_step)

interpretation stop_fencing: fenced_store system_step db_wf token_of
  "\<lambda>now d lease. require_active_cancellation_lease now lease d \<noteq> Inl ExecutionLeaseLostError"
  cn_execution_id cn_fencing_token
proof
  fix now d and lease :: cancellation_lease
  assume wf: "db_wf d" and "require_active_cancellation_lease now lease d \<noteq> Inl ExecutionLeaseLostError"
  then obtain e where "require_active_cancellation_lease now lease d = Inr e"
    by (auto simp: require_active_cancellation_lease_def split: option.splits)
  from require_active_cancellationD [OF wf this]
  show "token_of d (cn_execution_id lease) = Some (cn_fencing_token lease)"
    by (simp add: token_of_def cancellation_row_active_def)
qed (rule fencing.inv_step token_of_step; assumption)+

text \<open>
  C2. Once the fencing token of an Execution has passed a lease, that lease is
  rejected for ever: whatever the service does afterwards and whatever the clock says, neither an
  execution lease nor a cancellation lease with the smaller token is accepted again, so a worker that
  was paused or cut off can no longer change the Execution.
\<close>

theorem stale_lease_rejected:
  assumes "reachable d" and "execution_row d i = Some e" and "system_step\<^sup>*\<^sup>* d d'"
  shows "(\<forall>now lease. le_execution_id lease = i \<and> le_fencing_token lease < ex_fencing_token e \<longrightarrow>
      \<not> owns_execution now lease d') \<and>
    (\<forall>now lease. cn_execution_id lease = i \<and> cn_fencing_token lease < ex_fencing_token e \<longrightarrow>
      require_active_cancellation_lease now lease d' = Inl ExecutionLeaseLostError)"
proof -
  note wf = reachable_wf [OF assms(1)]
  have t: "token_of d i = Some (ex_fencing_token e)" using assms(2) by (simp add: token_of_def)
  then show ?thesis
    using fencing.stale_for_ever [OF wf _ _ assms(3)] stop_fencing.stale_for_ever [OF wf _ _ assms(3)] by blast
qed

subsection \<open>The status machine\<close>

text \<open>
  The abstract specification: a map from Executions to their status, in which an Execution appears as
  QUEUED and then only makes transitions of the table.
\<close>

type_synonym statuses = "uuid \<rightharpoonup> execution_status"

inductive status_step :: "statuses \<Rightarrow> statuses \<Rightarrow> bool" where
  created: "m i = None \<Longrightarrow> status_step m (m(i \<mapsto> ES_QUEUED))"
| changed: "m i = Some s \<Longrightarrow> allowed_transition s t \<Longrightarrow> status_step m (m(i \<mapsto> t))"

inductive_cases status_stepE: "status_step m m'"

definition statuses_of :: "db \<Rightarrow> statuses" where
  "statuses_of d = (\<lambda>i. map_option ex_status (execution_row d i))"

lemma worker_step_refines:
  assumes "worker_step i d d'"
  shows "status_step\<^sup>*\<^sup>* (statuses_of d) (statuses_of d')"
proof (cases "execution_row d i")
  case None
  then have "execution_row d' j = execution_row d j" for j
    using assms by (cases "j = i") (simp_all add: worker_step_def)
  then show ?thesis by (simp add: statuses_of_def)
next
  case (Some e)
  then obtain e' where e': "execution_row d' i = Some e'" "exec_step e e'"
    and rest: "\<forall>j. j \<noteq> i \<longrightarrow> execution_row d' j = execution_row d j"
    using assms by (auto simp: worker_step_def)
  have eq: "statuses_of d' = (statuses_of d)(i \<mapsto> ex_status e')"
    using e'(1) rest by (auto simp: statuses_of_def fun_eq_iff)
  show ?thesis
  proof (cases "ex_status e' = ex_status e")
    case True
    then have "(statuses_of d)(i \<mapsto> ex_status e') = statuses_of d"
      using Some by (auto simp: statuses_of_def fun_eq_iff)
    then show ?thesis by (simp add: eq)
  next
    case False
    then have "status_step (statuses_of d) (statuses_of d')"
      unfolding eq using Some e'(2) by (intro changed) (auto simp: statuses_of_def exec_step_def)
    then show ?thesis by blast
  qed
qed

lemma worker_steps_refine: "worker_steps d d' \<Longrightarrow> status_step\<^sup>*\<^sup>* (statuses_of d) (statuses_of d')"
  by (induction rule: rtranclp_induct) (auto dest: worker_step_refines)

lemma command_step_refines:
  assumes "command_step i d d'"
  shows "status_step (statuses_of d) (statuses_of d')"
proof -
  obtain r r' where r: "execution_row d i = Some r" "execution_row d' i = Some r'"
    "allowed_transition (ex_status r) (ex_status r')"
    and rest: "\<forall>j. j \<noteq> i \<longrightarrow> execution_row d' j = execution_row d j"
    using assms by (auto simp: command_step_def)
  have "statuses_of d' = (statuses_of d)(i \<mapsto> ex_status r')"
    using r(2) rest by (auto simp: statuses_of_def fun_eq_iff)
  then show ?thesis using r(1,3) by (auto simp: statuses_of_def intro: changed)
qed

lemma command_transition_refines:
  assumes wf: "db_wf d" and "command_transition d d'"
  shows "status_step (statuses_of d) (statuses_of d')"
  using assms(2)
proof cases
  case (submitted sha cl off now ids dl dr fs c fs' r)
  note eff = submit_effect [OF wf submitted(2,1)]
  have "statuses_of d' = (statuses_of d)(ni_execution ids \<mapsto> ES_QUEUED)"
    using eff(3,4) by (auto simp: statuses_of_def fun_eq_iff)
  then show ?thesis using eff(2) by (auto simp: statuses_of_def intro: created)
qed (blast intro: command_step_refines handler_step [OF wf])+

lemma system_step_refines:
  assumes "db_wf d" and "system_step d d'"
  shows "status_step\<^sup>*\<^sup>* (statuses_of d) (statuses_of d')"
  using assms(2)
proof cases
  case command
  then show ?thesis using command_transition_refines [OF assms(1)] by blast
next
  case worker
  then show ?thesis using worker_transition_step [OF assms(1)] worker_step_refines by blast
next
  case background
  then show ?thesis using pass_transition_steps [OF assms(1)] worker_steps_refine by blast
next
  case environment
  then show ?thesis using worker_step_refines [OF worker_step_quiet [OF environment_transition_quiet]] by blast
qed

lemma system_steps_refine:
  "system_step\<^sup>*\<^sup>* d d' \<Longrightarrow> db_wf d \<Longrightarrow> status_step\<^sup>*\<^sup>* (statuses_of d) (statuses_of d')"
proof (induction rule: rtranclp_induct)
  case (step d1 d2)
  then have "db_wf d1" using system_steps_progress by (auto simp: db_progress_def)
  then show ?case using step system_step_refines by (meson rtranclp_trans)
qed simp

text \<open>
  C3. Refinement: every run of the service is a run of the abstract status machine.
  So an Execution is only ever created QUEUED, only moves along the transition table, one transition
  at a time, and its status can be followed without knowing leases, Operations or Steps.
\<close>

theorem status_refinement:
  assumes "reachable d" and "system_step\<^sup>*\<^sup>* d d'"
  shows "status_step\<^sup>*\<^sup>* Map.empty (statuses_of d) \<and> status_step\<^sup>*\<^sup>* (statuses_of d) (statuses_of d')"
proof -
  have "statuses_of empty_db = Map.empty" by (simp add: statuses_of_def execution_row_def empty_db_def)
  then show ?thesis
    using system_steps_refine [OF assms(1) [unfolded reachable_def] empty_db_ok(1)]
      system_steps_refine [OF assms(2) reachable_wf [OF assms(1)]] by simp
qed

lemma status_steps_walk:
  assumes "status_step\<^sup>*\<^sup>* m m'" and "m i = Some s"
  shows "\<exists>ts. status_walk s ts \<and> m' i = Some (last (s # ts))"
  using assms
proof (induction rule: rtranclp_induct)
  case base
  then show ?case by (intro exI [of _ "[]"]) simp
next
  case (step m1 m2)
  then obtain ts where ts: "status_walk s ts" "m1 i = Some (last (s # ts))" by blast
  show ?case
    using step(2)
  proof cases
    case (changed j t u)
    show ?thesis
    proof (cases "j = i")
      case True
      then have "status_walk s (ts @ [u])" using ts changed by (simp add: status_walk_append)
      then show ?thesis using changed True by (intro exI [of _ "ts @ [u]"]) simp
    next
      case False
      then have "m2 i = m1 i" using changed by simp
      then show ?thesis using ts by (intro exI [of _ ts]) simp
    qed
  next
    case (created j)
    then have "j \<noteq> i" using ts(2) by (metis option.distinct(1))
    then have "m2 i = m1 i" using created by simp
    then show ?thesis using ts by (intro exI [of _ ts]) simp
  qed
qed


subsection \<open>A run of the service\<close>

text \<open>A submission, two registered Targets, then a claim or a cancel request.\<close>

definition demo_service :: db where
  "demo_service = (demo_db OM_SINGLE)\<lparr>db_targets := [demo_target 50 ''b'', demo_target 51 ''a'']\<rparr>"

lemma demo_service_reachable: "reachable demo_service"
proof -
  obtain fs' r where r: "submit demo_sha demo_limits demo_offerings 5 demo_ids empty_db empty_db empty_db []
     (demo_submit OM_SINGLE ''python'') = (fs', Inr (Committed (demo_db OM_SINGLE) r))"
    using demo_commit by auto
  have "length (ni_steps demo_ids) = length (sc_steps (demo_submit OM_SINGLE ''python''))" by code_simp
  from submitted [OF r this] have "system_step empty_db (demo_db OM_SINGLE)" by (rule command)
  moreover have "system_step (demo_db OM_SINGLE) demo_service"
    unfolding demo_service_def by (intro environment targets_written)
  ultimately show ?thesis unfolding reachable_def by (meson rtranclp.simps)
qed

lemma demo_service_row: "\<exists>e. execution_row demo_service 10 = Some e \<and> ex_status e = ES_QUEUED"
proof -
  have "map_option ex_status (execution_row demo_service 10) = Some ES_QUEUED" by code_simp
  then show ?thesis by (cases "execution_row demo_service 10") simp_all
qed

lemma demo_service_claim: "\<exists>d' c. demo_claim demo_service = Inr (d', Some c) \<and> system_step\<^sup>*\<^sup>* demo_service d'"
proof -
  have "is_claimed (demo_claim demo_service)" by code_simp
  then obtain d' c where r: "demo_claim demo_service = Inr (d', Some c)" by (rule is_claimedE)
  then have "system_step demo_service d'" by (blast intro: worker claimed)
  then show ?thesis using r by blast
qed


theorem rows_progress_witness:
  "\<exists>d' c e. demo_claim demo_service = Inr (d', Some c) \<and> execution_row d' 10 = Some e"
proof -
  obtain d' c where r: "demo_claim demo_service = Inr (d', Some c)" "system_step\<^sup>*\<^sup>* demo_service d'"
    using demo_service_claim by blast
  obtain e where "execution_row demo_service 10 = Some e" using demo_service_row by blast
  from rows_progress [OF demo_service_reachable r(2) this] r(1)
  show ?thesis by blast
qed

theorem stale_lease_rejected_witness:
  "\<exists>d' c. demo_claim demo_service = Inr (d', Some c) \<and>
     \<not> owns_execution 8 \<lparr>le_execution_id = 10, le_attempt_id = 60, le_owner = ''w1'', le_fencing_token = - 1\<rparr> d'"
proof -
  obtain d' c where r: "demo_claim demo_service = Inr (d', Some c)" "system_step\<^sup>*\<^sup>* demo_service d'"
    using demo_service_claim by blast
  have "map_option ex_fencing_token (execution_row demo_service 10) = Some 0" by code_simp
  then obtain e where e: "execution_row demo_service 10 = Some e" "ex_fencing_token e = 0"
    by (cases "execution_row demo_service 10") simp_all
  from stale_lease_rejected [OF demo_service_reachable e(1) r(2)] r(1) e(2)
  show ?thesis by (cases c) simp
qed

theorem status_refinement_witness:
  "\<exists>d' c. demo_claim demo_service = Inr (d', Some c) \<and>
     status_step\<^sup>*\<^sup>* (statuses_of demo_service) (statuses_of d')"
proof -
  obtain d' c where r: "demo_claim demo_service = Inr (d', Some c)" "system_step\<^sup>*\<^sup>* demo_service d'"
    using demo_service_claim by blast
  from status_refinement [OF demo_service_reachable r(2)] r(1)
  show ?thesis by blast
qed

fun committed_status :: "domain_error + 'a execution_scheme outcome \<Rightarrow> execution_status option" where
  "committed_status (Inr (Committed d e)) = map_option ex_status (execution_row d 10)"
| "committed_status _ = None"


end
