(* ===== verification/Outbox.thy ===== *)
theory Outbox
  imports Event_Writer
begin

text \<open>
  The transactional outbox (\<open>infrastructure/outbox.py\<close>): a publisher takes the pending rows that may be
  sent, in order per Execution, adds them to the Redis Stream of their tenant and marks them as
  published in the same transaction it selected them in. The Stream is not part of that transaction: when
  it rolls back, or when Redis applied a command whose answer was lost, the entry is there and the row is
  still pending, and the event is sent again.

  The life of the outbox under every interleaving of event writers, publishers, crashes and retention is in
  \<open>Event_Delivery\<close>.
\<close>

subsection \<open>Data\<close>

text \<open>
  The fields of one Stream entry, before they are rendered as text, with the Stream they go to.
\<close>

record stream_entry =
  se_stream :: string
  se_event_id :: uuid
  se_event_type :: string
  se_schema_version :: string
  se_execution_id :: uuid
  se_event_sequence :: int
  se_payload :: event_payload
  se_occurred_at :: datetime
  se_tenant_id :: string

text \<open>
  What \<open>xadd\<close> does: it adds the entry; it fails with a network error, before or after the server applied
  the command; or it raises something else. Beside it the time at which the row is written.
\<close>

datatype xadd_outcome = XAdded | XNetworkError string bool | XRaised string

record xadd_answer =
  xa_outcome :: xadd_outcome
  xa_now :: datetime

record outbox_publisher =
  pb_event_stream_name :: string
  pb_batch_size :: nat

subsection \<open>Selecting a batch\<close>

definition aggregate_key :: "outbox_event_orm \<Rightarrow> string \<times> uuid" where
  "aggregate_key r = (ob_aggregate_type r, ob_aggregate_id r)"

definition is_pending :: "outbox_event_orm \<Rightarrow> bool" where
  "is_pending r \<longleftrightarrow> ob_status r = OB_PENDING"

text \<open>A pending predecessor of a row in its aggregate.\<close>

definition precedes :: "outbox_event_orm \<Rightarrow> outbox_event_orm \<Rightarrow> bool" where
  "precedes q r \<longleftrightarrow> aggregate_key q = aggregate_key r \<and> ob_event_sequence q < ob_event_sequence r \<and> is_pending q"

definition sendable :: "datetime \<Rightarrow> outbox_event_orm \<Rightarrow> bool" where
  "sendable now r \<longleftrightarrow> is_pending r \<and> ob_available_at r \<le> now"

definition head_events :: "nat \<Rightarrow> datetime \<Rightarrow> uuid set \<Rightarrow> outbox_event_orm list \<Rightarrow> outbox_event_orm list" where
  "head_events batch_size now locked rows =
     take batch_size (filter (\<lambda>r. ob_id r \<notin> locked)
       (sort_key ob_created_at (filter (\<lambda>r. sendable now r \<and> \<not> (\<exists>q\<in>set rows. precedes q r)) rows)))"

definition append_contiguous_execution_events ::
    "nat \<Rightarrow> datetime \<Rightarrow> uuid set \<Rightarrow> outbox_event_orm list \<Rightarrow> outbox_event_orm list \<Rightarrow> outbox_event_orm list" where
  "append_contiguous_execution_events batch_size now locked rows events =
     (let remaining = batch_size - length events;
          aggregate_keys = set (map aggregate_key events);
          head_ids = set (map ob_id events)
      in if remaining = 0 \<or> events = [] then events
         else events @
           take remaining (filter (\<lambda>r. ob_id r \<notin> locked)
             (sort_key (\<lambda>r. (ob_aggregate_type r, ob_aggregate_id r, ob_event_sequence r))
               (filter (\<lambda>r. sendable now r \<and> aggregate_key r \<in> aggregate_keys \<and> ob_id r \<notin> head_ids \<and>
                  \<not> (\<exists>q\<in>set rows. precedes q r \<and> ob_id q \<notin> head_ids \<and> now < ob_available_at q)) rows))))"

definition batch_events :: "nat \<Rightarrow> datetime \<Rightarrow> uuid set \<Rightarrow> outbox_event_orm list \<Rightarrow> outbox_event_orm list" where
  "batch_events batch_size now locked rows =
     append_contiguous_execution_events batch_size now locked rows (head_events batch_size now locked rows)"

subsection \<open>Sending a batch\<close>

definition event_row :: "db \<Rightarrow> uuid \<Rightarrow> execution_event option" where
  "event_row d i = scalar (\<lambda>e. ev_id e = i) (db_events d)"

definition execution_tenant :: "db \<Rightarrow> uuid \<Rightarrow> string option" where
  "execution_tenant d i = map_option ex_tenant_id (execution_row d i)"

text \<open>
  The entry of an event, or the name of the exception that building it raises. A stored event keeps the type
  of its payload, so a payload is only ever validated against the model of its own type.
\<close>

definition entry_of :: "outbox_publisher \<Rightarrow> db \<Rightarrow> execution_event \<Rightarrow> string + stream_entry" where
  "entry_of pb d event =
     (case (if ev_event_type event = event_type_of (ev_payload event)
            then validate_execution_event_payload (ev_payload event) else None) of
        None \<Rightarrow> Inl ''ValidationError''
      | Some payload \<Rightarrow>
          (case execution_tenant d (ev_execution_id event) of
             None \<Rightarrow> Inl ''KeyError''
           | Some tenant_id \<Rightarrow>
               Inr \<lparr>se_stream = tenant_event_stream (pb_event_stream_name pb) tenant_id, se_event_id = ev_id event,
                    se_event_type = ev_event_type event, se_schema_version = ev_schema_version event,
                    se_execution_id = ev_execution_id event, se_event_sequence = ev_event_sequence event,
                    se_payload = payload, se_occurred_at = ev_created_at event, se_tenant_id = tenant_id\<rparr>))"

definition published_row :: "datetime \<Rightarrow> outbox_event_orm \<Rightarrow> outbox_event_orm" where
  "published_row now r =
     r\<lparr>ob_status := OB_PUBLISHED, ob_published_at := Some now, ob_last_error := None, ob_updated_at := now\<rparr>"

definition delay_seconds :: "int \<Rightarrow> int" where
  "delay_seconds attempt_count = min (2 ^ nat (min attempt_count 6)) 60"

definition failed_row :: "datetime \<Rightarrow> string \<Rightarrow> outbox_event_orm \<Rightarrow> outbox_event_orm" where
  "failed_row now exc r =
     (let attempt_count = ob_attempt_count r + 1 in
      r\<lparr>ob_attempt_count := attempt_count, ob_available_at := now + seconds (delay_seconds attempt_count),
        ob_last_error := Some (exc @ '': Redis publish failed''), ob_updated_at := now\<rparr>)"

text \<open>
  The loop: the rows it changed, the entries it added to Streams, and the number of rows it published. After a
  network error the rest of the batch is left alone.
\<close>

fun send_events ::
    "(outbox_event_orm \<Rightarrow> string + stream_entry) \<Rightarrow> (outbox_event_orm \<Rightarrow> xadd_answer) \<Rightarrow> (string \<times> uuid) set \<Rightarrow>
       outbox_event_orm list \<Rightarrow> outbox_event_orm list \<times> stream_entry list \<times> nat" where
  "send_events entry answer blocked [] = ([], [], 0)"
| "send_events entry answer blocked (event # events) =
     (if aggregate_key event \<in> blocked then send_events entry answer blocked events
      else
        (case entry event of
           Inl exc \<Rightarrow>
             (let (rows, entries, n) = send_events entry answer (insert (aggregate_key event) blocked) events
              in (failed_row (xa_now (answer event)) exc event # rows, entries, n))
         | Inr e \<Rightarrow>
             (case xa_outcome (answer event) of
                XAdded \<Rightarrow>
                  (let (rows, entries, n) = send_events entry answer blocked events
                   in (published_row (xa_now (answer event)) event # rows, e # entries, Suc n))
              | XRaised exc \<Rightarrow>
                  (let (rows, entries, n) = send_events entry answer (insert (aggregate_key event) blocked) events
                   in (failed_row (xa_now (answer event)) exc event # rows, entries, n))
              | XNetworkError exc applied \<Rightarrow>
                  ([failed_row (xa_now (answer event)) exc event], (if applied then [e] else []), 0))))"

definition write_rows :: "outbox_event_orm list \<Rightarrow> outbox_event_orm list \<Rightarrow> outbox_event_orm list" where
  "write_rows changed rows =
     map (\<lambda>r. case scalar (\<lambda>c. ob_id c = ob_id r) changed of Some c \<Rightarrow> c | None \<Rightarrow> r) rows"

definition publish_batch ::
    "outbox_publisher \<Rightarrow> datetime \<Rightarrow> uuid set \<Rightarrow> (outbox_event_orm \<Rightarrow> xadd_answer) \<Rightarrow> db \<Rightarrow>
       worker_error + (db \<times> stream_entry list \<times> nat)" where
  "publish_batch pb now locked answer d =
     (let events = batch_events (pb_batch_size pb) now locked (db_outbox d) in
      if list_ex (\<lambda>r. event_row d (ob_execution_event_id r) = None) events then Inl WorkerValueError
      else
        (let (changed, entries, n) =
           send_events (\<lambda>r. entry_of pb d (the (event_row d (ob_execution_event_id r)))) answer {} events
         in Inr (d\<lparr>db_outbox := write_rows changed (db_outbox d)\<rparr>, entries, n)))"

subsection \<open>The order of a batch\<close>

text \<open>
  Rows other publishers hold are skipped. A publisher locks the pending rows of an aggregate from the
  first on, so when it holds a row it holds every pending predecessor of that row as well.
\<close>

definition locks_ok :: "uuid set \<Rightarrow> outbox_event_orm list \<Rightarrow> bool" where
  "locks_ok locked rows \<longleftrightarrow> (\<forall>r\<in>set rows. \<forall>q\<in>set rows. ob_id r \<in> locked \<and> precedes q r \<longrightarrow> ob_id q \<in> locked)"

text \<open>In a batch every pending predecessor of a row comes before it.\<close>

definition batch_ordered :: "outbox_event_orm list \<Rightarrow> outbox_event_orm list \<Rightarrow> bool" where
  "batch_ordered rows events \<longleftrightarrow>
     (\<forall>xs r ys. events = xs @ r # ys \<longrightarrow> (\<forall>q\<in>set rows. precedes q r \<longrightarrow> q \<in> set xs))"

lemma head_events_no_pred: "r \<in> set (head_events k now locked rows) \<Longrightarrow> q \<in> set rows \<Longrightarrow> \<not> precedes q r"
  unfolding head_events_def by (auto dest!: in_set_takeD)

lemma head_events_rows: "r \<in> set (head_events k now locked rows) \<Longrightarrow> r \<in> set rows \<and> sendable now r \<and> ob_id r \<notin> locked"
  unfolding head_events_def by (auto dest!: in_set_takeD)

lemma sorted_pred:
  assumes "sorted (map f zs)" and "zs = xs @ r # ys" and "q \<in> set zs" and "f q < f r"
  shows "q \<in> set xs"
proof -
  have "f r \<le> f y" if "y \<in> set ys" for y using assms(1,2) that by (auto simp: sorted_append)
  then show ?thesis using assms(2-4) by force
qed

lemma take_split:
  assumes "take n zs = xs @ r # ys"
  shows "\<exists>ys'. zs = xs @ r # ys'"
  using assms by (metis append_Cons append_assoc append_take_drop_id)

lemma precedes_trans: "precedes q r \<Longrightarrow> precedes r s \<Longrightarrow> precedes q s"
  by (auto simp: precedes_def)

lemma sorted_filter_key: "sorted (map f zs) \<Longrightarrow> sorted (map f (filter P zs))"
  by (induction zs) auto

text \<open>The two keys of the table.\<close>

definition outbox_keys :: "outbox_event_orm list \<Rightarrow> bool" where
  "outbox_keys rows \<longleftrightarrow> distinct (map ob_id rows) \<and> distinct (map (\<lambda>r. (aggregate_key r, ob_event_sequence r)) rows)"

lemma outbox_keys_id: "outbox_keys rows \<Longrightarrow> q \<in> set rows \<Longrightarrow> r \<in> set rows \<Longrightarrow> ob_id q = ob_id r \<Longrightarrow> q = r"
  unfolding outbox_keys_def distinct_map inj_on_def by blast

lemma outbox_keys_seq:
  "outbox_keys rows \<Longrightarrow> q \<in> set rows \<Longrightarrow> r \<in> set rows \<Longrightarrow> aggregate_key q = aggregate_key r \<Longrightarrow>
     ob_event_sequence q = ob_event_sequence r \<Longrightarrow> q = r"
  unfolding outbox_keys_def distinct_map inj_on_def by blast

lemma head_is_first:
  assumes "outbox_keys rows" and "h \<in> set (head_events k now locked rows)" and "q \<in> set rows" and "is_pending q"
    and "aggregate_key q = aggregate_key h" and "q \<noteq> h"
  shows "precedes h q"
proof -
  have h: "h \<in> set rows" "is_pending h" using head_events_rows [OF assms(2)] by (auto simp: sendable_def)
  have "\<not> precedes q h" by (rule head_events_no_pred [OF assms(2,3)])
  then have "ob_event_sequence h \<le> ob_event_sequence q" using assms(4,5) by (simp add: precedes_def)
  moreover have "ob_event_sequence h \<noteq> ob_event_sequence q"
    using outbox_keys_seq [OF assms(1) assms(3) h(1) assms(5)] assms(6) by auto
  ultimately show ?thesis using h(2) assms(5) by (simp add: precedes_def)
qed

lemma batch_ordered_batch:
  assumes keys: "outbox_keys rows" and locks: "locks_ok locked rows"
  shows "batch_ordered rows (batch_events k now locked rows)"
  unfolding batch_ordered_def
proof (intro allI impI ballI)
  fix xs r ys q
  let ?heads = "head_events k now locked rows"
  let ?rem = "k - length ?heads"
  define fs where "fs = sort_key (\<lambda>r. (ob_aggregate_type r, ob_aggregate_id r, ob_event_sequence r))
    (filter (\<lambda>r. sendable now r \<and> aggregate_key r \<in> set (map aggregate_key ?heads) \<and> ob_id r \<notin> set (map ob_id ?heads) \<and>
        \<not> (\<exists>q\<in>set rows. precedes q r \<and> ob_id q \<notin> set (map ob_id ?heads) \<and> now < ob_available_at q)) rows)"
  define zs where "zs = filter (\<lambda>r. ob_id r \<notin> locked) fs"
  assume ev: "batch_events k now locked rows = xs @ r # ys" and q: "q \<in> set rows" "precedes q r"
  have "batch_events k now locked rows \<in> {?heads, ?heads @ take ?rem zs}"
    by (simp add: batch_events_def append_contiguous_execution_events_def Let_def zs_def fs_def)
  then obtain n where split: "?heads @ take n zs = xs @ r # ys"
    using ev by (metis append_Nil2 insertE singletonD take0)
  have "r \<notin> set ?heads" using head_events_no_pred q by blast
  then obtain xs' where xs': "xs = ?heads @ xs'" "take n zs = xs' @ r # ys"
    using split by (auto simp: append_eq_append_conv2 append_eq_Cons_conv Cons_eq_append_conv)
  obtain ys' where zs: "zs = xs' @ r # ys'" using take_split [OF xs'(2)] by blast
  then have r: "r \<in> set zs" by simp
  show "q \<in> set xs"
  proof (cases "q \<in> set ?heads")
    case False
    have rf: "sendable now r" "aggregate_key r \<in> set (map aggregate_key ?heads)"
      "\<not> (\<exists>p\<in>set rows. precedes p r \<and> ob_id p \<notin> set (map ob_id ?heads) \<and> now < ob_available_at p)"
      using r by (auto simp: zs_def fs_def)
    have id: "ob_id q \<notin> set (map ob_id ?heads)"
      using False outbox_keys_id [OF keys q(1)] head_events_rows by fastforce
    have pend: "is_pending q" "aggregate_key q = aggregate_key r" using q(2) by (simp_all add: precedes_def)
    then have "sendable now q" using rf(3) q id by (force simp: sendable_def)
    moreover have "\<not> (\<exists>p\<in>set rows. precedes p q \<and> ob_id p \<notin> set (map ob_id ?heads) \<and> now < ob_available_at p)"
      using rf(3) precedes_trans [OF _ q(2)] by blast
    ultimately have "q \<in> set fs" unfolding fs_def using q(1) id pend(2) rf(2) by simp
    moreover have "ob_id q \<notin> locked"
    proof
      assume l: "ob_id q \<in> locked"
      obtain h where h: "h \<in> set ?heads" "aggregate_key q = aggregate_key h" using rf(2) pend(2) by auto
      then have "precedes h q" using head_is_first [OF keys h(1) q(1) pend(1) h(2)] False by blast
      then show False using locks l q(1) head_events_rows [OF h(1)] by (auto simp: locks_ok_def)
    qed
    ultimately have "q \<in> set zs" by (simp add: zs_def)
    moreover have "sorted (map (\<lambda>r. (ob_aggregate_type r, ob_aggregate_id r, ob_event_sequence r)) zs)"
      unfolding zs_def fs_def by (intro sorted_filter_key sorted_sort_key)
    ultimately have "q \<in> set xs'"
      using sorted_pred [OF _ zs] q(2) by (fastforce simp: precedes_def aggregate_key_def)
    then show ?thesis by (simp add: xs'(1))
  qed (simp add: xs'(1))
qed

lemma batch_rows:
  assumes "r \<in> set (batch_events k now locked rows)"
  shows "r \<in> set rows" and "sendable now r" and "ob_id r \<notin> locked"
proof -
  have "r \<in> set (head_events k now locked rows) \<or> r \<in> set rows \<and> sendable now r \<and> ob_id r \<notin> locked"
    using assms
    by (auto simp: batch_events_def append_contiguous_execution_events_def Let_def split: if_split_asm dest!: in_set_takeD)
  then show "r \<in> set rows" "sendable now r" "ob_id r \<notin> locked" using head_events_rows [of r k now locked rows] by auto
qed

subsection \<open>What sending a batch does\<close>

definition delivered :: "stream_entry list \<Rightarrow> uuid \<Rightarrow> int \<Rightarrow> bool" where
  "delivered s i n \<longleftrightarrow> (\<exists>x\<in>set s. se_execution_id x = i \<and> se_event_sequence x = n)"

text \<open>No entry before its predecessor.\<close>

definition in_order :: "stream_entry list \<Rightarrow> bool" where
  "in_order s \<longleftrightarrow>
     (\<forall>p x q. s = p @ x # q \<longrightarrow> se_event_sequence x \<le> 1 \<or> delivered p (se_execution_id x) (se_event_sequence x - 1))"

lemma delivered_append [simp]: "delivered (s @ t) i n \<longleftrightarrow> delivered s i n \<or> delivered t i n"
  by (auto simp: delivered_def)

lemma delivered_Cons [simp]:
  "delivered (x # t) i n \<longleftrightarrow> se_execution_id x = i \<and> se_event_sequence x = n \<or> delivered t i n" "\<not> delivered [] i n"
  by (auto simp: delivered_def)

lemma in_order_snoc:
  assumes "in_order s" and "se_event_sequence x \<le> 1 \<or> delivered s (se_execution_id x) (se_event_sequence x - 1)"
  shows "in_order (s @ [x])"
  unfolding in_order_def
proof (intro allI impI)
  fix p y q
  assume "s @ [x] = p @ y # q"
  then consider "p = s" "y = x" | q' where "s = p @ y # q'" by (cases q rule: rev_cases) auto
  then show "se_event_sequence y \<le> 1 \<or> delivered p (se_execution_id y) (se_event_sequence y - 1)"
    using assms by cases (auto simp: in_order_def)
qed

lemma in_order_prefix: "in_order (s @ t) \<Longrightarrow> in_order s"
  by (auto simp: in_order_def)

lemma in_order_Nil [simp]: "in_order []"
  by (simp add: in_order_def)

text \<open>
  Every row of the rest of a batch is the first event of its Execution, or its predecessor was delivered, or
  comes before it in the rest, or its aggregate is blocked.
\<close>

definition ready :: "stream_entry list \<Rightarrow> (string \<times> uuid) set \<Rightarrow> outbox_event_orm list \<Rightarrow> bool" where
  "ready s blocked events \<longleftrightarrow>
     (\<forall>xs r ys. events = xs @ r # ys \<longrightarrow>
        ob_event_sequence r \<le> 1 \<or> delivered s (ob_aggregate_id r) (ob_event_sequence r - 1) \<or> aggregate_key r \<in> blocked \<or>
        (\<exists>q\<in>set xs. aggregate_key q = aggregate_key r \<and> ob_event_sequence q = ob_event_sequence r - 1))"

lemma ready_tl:
  assumes "ready s blocked (event # events)" and "blocked \<subseteq> blocked'"
    and "aggregate_key event \<in> blocked' \<or> delivered (s @ t) (ob_aggregate_id event) (ob_event_sequence event)"
  shows "ready (s @ t) blocked' events"
  unfolding ready_def
proof (intro allI impI)
  fix xs r ys
  assume "events = xs @ r # ys"
  then have "event # events = (event # xs) @ r # ys" by simp
  with assms(1) have "ob_event_sequence r \<le> 1 \<or> delivered s (ob_aggregate_id r) (ob_event_sequence r - 1) \<or> aggregate_key r \<in> blocked \<or>
      (\<exists>q\<in>set (event # xs). aggregate_key q = aggregate_key r \<and> ob_event_sequence q = ob_event_sequence r - 1)"
    unfolding ready_def by blast
  then show "ob_event_sequence r \<le> 1 \<or> delivered (s @ t) (ob_aggregate_id r) (ob_event_sequence r - 1) \<or> aggregate_key r \<in> blocked' \<or>
      (\<exists>q\<in>set xs. aggregate_key q = aggregate_key r \<and> ob_event_sequence q = ob_event_sequence r - 1)"
    using assms(2,3) by (auto simp: aggregate_key_def)
qed

lemma ready_hd: "ready s blocked (event # events) \<Longrightarrow> aggregate_key event \<notin> blocked \<Longrightarrow>
   ob_event_sequence event \<le> 1 \<or> delivered s (ob_aggregate_id event) (ob_event_sequence event - 1)"
  unfolding ready_def by (metis append_Nil empty_iff list.set(1))

lemma send_in_order:
  assumes "in_order s" and "ready s blocked events"
    and "\<And>r e. r \<in> set events \<Longrightarrow> entry r = Inr e \<Longrightarrow> se_execution_id e = ob_aggregate_id r \<and> se_event_sequence e = ob_event_sequence r"
  shows "in_order (s @ fst (snd (send_events entry answer blocked events)))"
  using assms
proof (induction events arbitrary: s blocked)
  case (Cons event events)
  let ?b = "insert (aggregate_key event) blocked"
  have entries: "\<And>r e. r \<in> set events \<Longrightarrow> entry r = Inr e \<Longrightarrow> se_execution_id e = ob_aggregate_id r \<and> se_event_sequence e = ob_event_sequence r"
    using Cons.prems(3) by simp
  have rest: "in_order (s @ fst (snd (send_events entry answer ?b events)))"
    using ready_tl [OF Cons.prems(2), of ?b "[]"] by (intro Cons.IH [OF Cons.prems(1) _ entries]) auto
  show ?case
  proof (cases "aggregate_key event \<in> blocked")
    case True
    then show ?thesis using rest by (simp add: insert_absorb)
  next
    case False
    show ?thesis
    proof (cases "entry event")
      case (Inl exc)
      then show ?thesis using rest False by (simp add: Let_def case_prod_beta)
    next
      case (Inr e)
      have e: "se_execution_id e = ob_aggregate_id event" "se_event_sequence e = ob_event_sequence event"
        using Cons.prems(3) [OF _ Inr] by simp_all
      have s1: "in_order (s @ [e])"
        using ready_hd [OF Cons.prems(2) False] by (intro in_order_snoc Cons.prems(1)) (simp add: e)
      have "ready (s @ [e]) blocked events" by (rule ready_tl [OF Cons.prems(2)]) (simp_all add: e)
      then have "in_order ((s @ [e]) @ fst (snd (send_events entry answer blocked events)))"
        by (intro Cons.IH [OF s1 _ entries])
      then show ?thesis using rest s1 False Inr Cons.prems(1)
        by (cases "xa_outcome (answer event)") (simp_all add: Let_def case_prod_beta)
    qed
  qed
qed simp

text \<open>A row the loop wrote: published with its entry in a Stream, or put back for later.\<close>

definition written_from ::
    "(outbox_event_orm \<Rightarrow> string + stream_entry) \<Rightarrow> stream_entry list \<Rightarrow> outbox_event_orm list \<Rightarrow> outbox_event_orm \<Rightarrow> bool" where
  "written_from entry entries events c \<longleftrightarrow>
     (\<exists>r\<in>set events. (\<exists>t e. c = published_row t r \<and> entry r = Inr e \<and> e \<in> set entries) \<or> (\<exists>t exc. c = failed_row t exc r))"

lemma written_fromI:
  "entry r = Inr e \<Longrightarrow> e \<in> set entries \<Longrightarrow> r \<in> set events \<Longrightarrow> written_from entry entries events (published_row t r)"
  "r \<in> set events \<Longrightarrow> written_from entry entries events (failed_row t exc r)"
  by (auto simp: written_from_def)

lemma written_from_mono:
  "written_from entry entries events c \<Longrightarrow> set entries \<subseteq> set entries' \<Longrightarrow> written_from entry entries' (r # events) c"
  unfolding written_from_def by (meson list.set_intros(2) subsetD)

lemma send_rows:
  "\<forall>c\<in>set (fst (send_events entry answer blocked events)).
     written_from entry (fst (snd (send_events entry answer blocked events))) events c"
proof (induction events arbitrary: blocked)
  case (Cons event events)
  note ih = Cons.IH [THEN bspec, THEN written_from_mono, OF _ order_refl]
  note ih' = Cons.IH [THEN bspec, THEN written_from_mono, OF _ set_subset_Cons]
  show ?case
  proof (cases "aggregate_key event \<in> blocked")
    case False
    then show ?thesis
      by (cases "entry event"; cases "xa_outcome (answer event)")
        (auto simp: Let_def case_prod_beta intro: ih ih' written_fromI)
  qed (auto intro: ih)
qed simp

lemma send_entries:
  "e \<in> set (fst (snd (send_events entry answer blocked events))) \<Longrightarrow> \<exists>r\<in>set events. entry r = Inr e"
proof (induction events arbitrary: blocked)
  case (Cons event events)
  then show ?case
    by (auto simp: Let_def case_prod_beta split: if_split_asm sum.splits xadd_outcome.splits)
qed simp

end
