(* ===== verification/Event_Retention.thy ===== *)
theory Event_Retention
  imports Outbox
begin

text \<open>
  Event retention (\<open>infrastructure/event_retention.py\<close>): published outbox rows and the events of ended
  Executions are deleted in batches, each in a transaction of its own, until a batch comes out short or the
  time of the pass is over. The loop has no bound in the code; it is defined as a partial function, and that
  it returns is a theorem.
\<close>

subsection \<open>Deleting batches\<close>

record retention_settings =
  rs_batch_size :: nat
  rs_published_outbox_retention_seconds :: int
  rs_execution_event_retention_seconds :: int

definition delete_rows :: "('a \<Rightarrow> uuid) \<Rightarrow> uuid list \<Rightarrow> 'a list \<Rightarrow> 'a list" where
  "delete_rows key ids rows = filter (\<lambda>r. key r \<notin> set ids) rows"

definition expired_outbox :: "retention_settings \<Rightarrow> datetime \<Rightarrow> outbox_event_orm \<Rightarrow> bool" where
  "expired_outbox rs now r \<longleftrightarrow>
     ob_status r = OB_PUBLISHED \<and>
     (case ob_published_at r of None \<Rightarrow> False | Some t \<Rightarrow> t < now - seconds (rs_published_outbox_retention_seconds rs))"

definition delete_published_outbox :: "retention_settings \<Rightarrow> datetime \<Rightarrow> db \<Rightarrow> db \<times> nat" where
  "delete_published_outbox rs now d =
     (let ids = map ob_id (take (rs_batch_size rs)
            (sort_key (\<lambda>r. (the (ob_published_at r), ob_id r)) (filter (expired_outbox rs now) (db_outbox d))))
      in (d\<lparr>db_outbox := delete_rows ob_id ids (db_outbox d)\<rparr>, length ids))"

definition TERMINAL_EXECUTION_STATUSES :: "execution_status set" where
  "TERMINAL_EXECUTION_STATUSES = {ES_SUCCEEDED, ES_FAILED, ES_CANCELLED}"

definition expired_event :: "retention_settings \<Rightarrow> datetime \<Rightarrow> db \<Rightarrow> execution_event \<Rightarrow> bool" where
  "expired_event rs now d event \<longleftrightarrow>
     (case execution_row d (ev_execution_id event) of
        None \<Rightarrow> False
      | Some e \<Rightarrow>
          ex_status e \<in> TERMINAL_EXECUTION_STATUSES \<and>
          (case ex_finished_at e of None \<Rightarrow> False
           | Some t \<Rightarrow> t < now - seconds (rs_execution_event_retention_seconds rs))) \<and>
     \<not> list_ex (\<lambda>r. ob_execution_event_id r = ev_id event) (db_outbox d)"

definition delete_execution_events :: "retention_settings \<Rightarrow> datetime \<Rightarrow> db \<Rightarrow> db \<times> nat" where
  "delete_execution_events rs now d =
     (let ids = map ev_id (take (rs_batch_size rs)
            (sort_key (\<lambda>e. (ev_created_at e, ev_id e)) (filter (expired_event rs now d) (db_events d))))
      in (d\<lparr>db_events := delete_rows ev_id ids (db_events d)\<rparr>, length ids))"

text \<open>
  \<open>_drain\<close>: the \<open>k\<close>-th call of \<open>delete_batch\<close> reads the clock itself, and so does the test of the deadline.
\<close>

partial_function (option) drain ::
    "(nat \<Rightarrow> 's \<Rightarrow> 's \<times> nat) \<Rightarrow> nat \<Rightarrow> (nat \<Rightarrow> bool) \<Rightarrow> nat \<Rightarrow> 's \<Rightarrow> ('s \<times> nat) option" where
  "drain delete_batch batch_size late k st =
     (let (st', count) = delete_batch k st in
      if count < batch_size \<or> late k then Some (st', count)
      else Option.bind (drain delete_batch batch_size late (Suc k) st') (\<lambda>(st'', deleted). Some (st'', count + deleted)))"

definition drain_outbox :: "retention_settings \<Rightarrow> (nat \<Rightarrow> datetime) \<Rightarrow> (nat \<Rightarrow> bool) \<Rightarrow> db \<Rightarrow> (db \<times> nat) option" where
  "drain_outbox rs clock late d = drain (\<lambda>k. delete_published_outbox rs (clock k)) (rs_batch_size rs) late 0 d"

definition drain_events :: "retention_settings \<Rightarrow> (nat \<Rightarrow> datetime) \<Rightarrow> (nat \<Rightarrow> bool) \<Rightarrow> db \<Rightarrow> (db \<times> nat) option" where
  "drain_events rs clock late d = drain (\<lambda>k. delete_execution_events rs (clock k)) (rs_batch_size rs) late 0 d"

subsection \<open>The loop returns\<close>

text \<open>What a deletion of batches has to promise: a full batch shrinks the table by its size.\<close>

locale batch_deletion =
  fixes delete_batch :: "nat \<Rightarrow> 's \<Rightarrow> 's \<times> nat" and stored :: "'s \<Rightarrow> nat" and ok :: "'s \<Rightarrow> bool"
  assumes shrinks: "ok st \<Longrightarrow> stored (fst (delete_batch k st)) + snd (delete_batch k st) = stored st"
    and keeps: "ok st \<Longrightarrow> ok (fst (delete_batch k st))"
begin

lemma drain_returns:
  assumes "0 < batch_size" and "ok st"
  shows "\<exists>st' n. drain delete_batch batch_size late k st = Some (st', n) \<and> stored st' + n = stored st \<and> ok st'"
  using assms(2)
proof (induction "stored st" arbitrary: st k rule: less_induct)
  case less
  obtain st1 c where b: "delete_batch k st = (st1, c)" by (cases "delete_batch k st")
  have s: "stored st1 + c = stored st" "ok st1" using shrinks [OF less.prems, of k] keeps [OF less.prems, of k] by (simp_all add: b)
  show ?case
  proof (cases "c < batch_size \<or> late k")
    case True
    then show ?thesis using b s by (subst drain.simps) simp
  next
    case False
    then have "stored st1 < stored st" using s(1) assms(1) by simp
    from less.hyps [OF this s(2), of "Suc k"] show ?thesis
      using b s(1) False by (subst drain.simps) auto
  qed
qed

lemma drain_invariant:
  assumes "0 < batch_size" and "ok st" and "drain delete_batch batch_size late k st = Some (st', n)"
    and "I st" and "\<And>j s. I s \<Longrightarrow> I (fst (delete_batch j s))"
  shows "I st'"
  using assms(2,3,4)
proof (induction "stored st" arbitrary: st k n rule: less_induct)
  case less
  obtain st1 c where b: "delete_batch k st = (st1, c)" by (cases "delete_batch k st")
  have s: "stored st1 + c = stored st" "ok st1"
    using shrinks [OF less.prems(1), of k] keeps [OF less.prems(1), of k] by (simp_all add: b)
  have i: "I st1" using assms(5) [OF less.prems(3), of k] by (simp add: b)
  show ?case
  proof (cases "c < batch_size \<or> late k")
    case True
    then have "st' = st1" using less.prems(2) b by (subst (asm) drain.simps) simp
    then show ?thesis using i by simp
  next
    case False
    then have lt: "stored st1 < stored st" using s(1) assms(1) by simp
    obtain m where "drain delete_batch batch_size late (Suc k) st1 = Some (st', m)"
      using less.prems(2) b False by (subst (asm) drain.simps) (auto split: option.splits simp: bind_eq_Some_conv)
    from less.hyps [OF lt s(2) this i] show ?thesis .
  qed
qed

text \<open>Unless the time was over, the last batch was short.\<close>

lemma drain_last:
  assumes "0 < batch_size" and "ok st" and "drain delete_batch batch_size late k st = Some (st', n)"
  shows "\<exists>j st1. k \<le> j \<and> ok st1 \<and> delete_batch j st1 = (st', snd (delete_batch j st1)) \<and>
    (snd (delete_batch j st1) < batch_size \<or> late j)"
  using assms(2,3)
proof (induction "stored st" arbitrary: st k n rule: less_induct)
  case less
  obtain st1 c where b: "delete_batch k st = (st1, c)" by (cases "delete_batch k st")
  have s: "stored st1 + c = stored st" "ok st1"
    using shrinks [OF less.prems(1), of k] keeps [OF less.prems(1), of k] by (simp_all add: b)
  show ?case
  proof (cases "c < batch_size \<or> late k")
    case True
    then have "st' = st1" using less.prems(2) b by (subst (asm) drain.simps) simp
    then show ?thesis using True b less.prems(1) by (intro exI [of _ k] exI [of _ st]) simp
  next
    case False
    then have lt: "stored st1 < stored st" using s(1) assms(1) by simp
    obtain m where "drain delete_batch batch_size late (Suc k) st1 = Some (st', m)"
      using less.prems(2) b False by (subst (asm) drain.simps) (auto split: option.splits simp: bind_eq_Some_conv)
    from less.hyps [OF lt s(2) this] show ?thesis by (meson Suc_leD)
  qed
qed

end

lemma distinct_keyD: "distinct (map f xs) \<Longrightarrow> distinct xs"
  by (simp add: distinct_map)

lemma length_delete_rows:
  assumes "distinct (map key rows)" and "distinct sel" and "set sel \<subseteq> set rows"
  shows "length (delete_rows key (map key sel) rows) + length sel = length rows"
proof -
  have "filter (\<lambda>r. key r \<in> set (map key sel)) rows = filter (\<lambda>r. r \<in> set sel) rows"
    using assms by (intro filter_cong) (auto simp: distinct_map inj_on_def)
  moreover have "length (filter (\<lambda>r. r \<in> set sel) rows) = length sel"
  proof -
    have "distinct rows" by (rule distinct_keyD [OF assms(1)])
    then have "length (filter (\<lambda>r. r \<in> set sel) rows) = card (set rows \<inter> set sel)"
      by (simp add: distinct_length_filter Int_commute)
    also have "set rows \<inter> set sel = set sel" using assms(3) by blast
    finally show ?thesis by (simp add: distinct_card assms(2))
  qed
  ultimately show ?thesis
    using sum_length_filter_compl [of "\<lambda>r. key r \<in> set (map key sel)" rows]
    by (simp add: delete_rows_def)
qed

lemma distinct_selected: "distinct xs \<Longrightarrow> distinct (take n (sort_key f (filter P xs)))"
  by simp

lemma set_selected: "set (take n (sort_key f (filter P xs))) \<subseteq> set xs"
  by (auto dest: in_set_takeD)

lemma distinct_delete_rows: "distinct (map f rows) \<Longrightarrow> distinct (map f (delete_rows key ids rows))"
  by (simp add: delete_rows_def distinct_map_filter)

interpretation outbox_deletion: batch_deletion "\<lambda>k. delete_published_outbox rs (clock k)"
    "\<lambda>d. length (db_outbox d)" "\<lambda>d. distinct (map ob_id (db_outbox d))"
  by unfold_locales
    (simp_all add: delete_published_outbox_def Let_def length_delete_rows distinct_delete_rows distinct_keyD
      set_selected del: length_take)

interpretation event_deletion: batch_deletion "\<lambda>k. delete_execution_events rs (clock k)"
    "\<lambda>d. length (db_events d)" "\<lambda>d. distinct (map ev_id (db_events d))"
  by unfold_locales
    (simp_all add: delete_execution_events_def Let_def length_delete_rows distinct_delete_rows distinct_keyD
      set_selected del: length_take)

lemma short_take: "length (take n xs) < n \<Longrightarrow> take n xs = xs"
  by simp

lemma short_selection:
  assumes "length (take n (sort_key f (filter P rows))) < n" and "r \<in> set rows" and "P r"
  shows "key r \<in> set (map key (take n (sort_key f (filter P rows))))"
  unfolding short_take [OF assms(1)] using assms(2,3) by simp

lemma outbox_short:
  assumes "snd (delete_published_outbox rs now d) < rs_batch_size rs"
    and "r \<in> set (db_outbox (fst (delete_published_outbox rs now d)))"
  shows "\<not> expired_outbox rs now r"
  using assms short_selection [where key = ob_id and P = "expired_outbox rs now" and rows = "db_outbox d"]
  by (auto simp: delete_published_outbox_def delete_rows_def Let_def)

lemma events_short:
  assumes "snd (delete_execution_events rs now d) < rs_batch_size rs"
    and "e \<in> set (db_events (fst (delete_execution_events rs now d)))"
  shows "\<not> expired_event rs now d e"
  using assms short_selection [where key = ev_id and P = "expired_event rs now d" and rows = "db_events d"]
  by (auto simp: delete_execution_events_def delete_rows_def Let_def)

text \<open>What one batch deletes has expired.\<close>

lemma deleted_selected:
  assumes "distinct (map key rows)" and "r \<in> set rows" and "r \<notin> set (delete_rows key (map key (take n (sort_key f (filter P rows)))) rows)"
  shows "P r"
proof -
  obtain s where s: "s \<in> set (take n (sort_key f (filter P rows)))" "key s = key r"
    using assms(2,3) by (auto simp: delete_rows_def)
  then have "s \<in> set rows" "P s" by (auto dest!: in_set_takeD)
  moreover have "s = r" using assms(1,2) s(2) \<open>s \<in> set rows\<close> by (auto simp: distinct_map inj_on_def)
  ultimately show ?thesis by simp
qed

definition outbox_since :: "retention_settings \<Rightarrow> (nat \<Rightarrow> datetime) \<Rightarrow> db \<Rightarrow> db \<Rightarrow> bool" where
  "outbox_since rs clock d d' \<longleftrightarrow>
     d' = d\<lparr>db_outbox := db_outbox d'\<rparr> \<and> set (db_outbox d') \<subseteq> set (db_outbox d) \<and>
     (\<forall>r\<in>set (db_outbox d). r \<notin> set (db_outbox d') \<longrightarrow> (\<exists>k. expired_outbox rs (clock k) r))"

definition events_since :: "retention_settings \<Rightarrow> (nat \<Rightarrow> datetime) \<Rightarrow> db \<Rightarrow> db \<Rightarrow> bool" where
  "events_since rs clock d d' \<longleftrightarrow>
     d' = d\<lparr>db_events := db_events d'\<rparr> \<and> set (db_events d') \<subseteq> set (db_events d) \<and>
     (\<forall>e\<in>set (db_events d). e \<notin> set (db_events d') \<longrightarrow> (\<exists>k. expired_event rs (clock k) d e))"

lemma outbox_since_step:
  assumes "distinct (map ob_id (db_outbox d'))" and "outbox_since rs clock d d'"
  shows "outbox_since rs clock d (fst (delete_published_outbox rs (clock k) d'))"
proof -
  let ?ids = "map ob_id (take (rs_batch_size rs) (sort_key (\<lambda>r. (the (ob_published_at r), ob_id r))
    (filter (expired_outbox rs (clock k)) (db_outbox d'))))"
  have w: "fst (delete_published_outbox rs (clock k) d') = d'\<lparr>db_outbox := delete_rows ob_id ?ids (db_outbox d')\<rparr>"
    by (simp add: delete_published_outbox_def Let_def)
  have frame: "d'\<lparr>db_outbox := x\<rparr> = d\<lparr>db_outbox := x\<rparr>" for x
    using assms(2) unfolding outbox_since_def by (metis db.surjective db.update_convs(13))
  have "\<exists>k. expired_outbox rs (clock k) r" if "r \<in> set (db_outbox d)" "r \<notin> set (delete_rows ob_id ?ids (db_outbox d'))" for r
    using that assms(2) deleted_selected [OF assms(1)] unfolding outbox_since_def by blast
  moreover have "set (delete_rows ob_id ?ids (db_outbox d')) \<subseteq> set (db_outbox d)"
    using assms(2) by (auto simp: outbox_since_def delete_rows_def)
  ultimately show ?thesis unfolding w frame outbox_since_def by simp
qed

lemma events_since_step:
  assumes "distinct (map ev_id (db_events d'))" and "events_since rs clock d d'"
  shows "events_since rs clock d (fst (delete_execution_events rs (clock k) d'))"
proof -
  let ?ids = "map ev_id (take (rs_batch_size rs) (sort_key (\<lambda>e. (ev_created_at e, ev_id e))
    (filter (expired_event rs (clock k) d') (db_events d'))))"
  have w: "fst (delete_execution_events rs (clock k) d') = d'\<lparr>db_events := delete_rows ev_id ?ids (db_events d')\<rparr>"
    by (simp add: delete_execution_events_def Let_def)
  have d': "d' = d\<lparr>db_events := db_events d'\<rparr>" using assms(2) by (simp only: events_since_def)
  have frame: "d'\<lparr>db_events := x\<rparr> = d\<lparr>db_events := x\<rparr>" for x
    using d' by (metis db.surjective db.update_convs(12))
  have same: "expired_event rs t d' e = expired_event rs t d e" for t e
    by (subst d') (simp add: expired_event_def execution_row_def)
  have "\<exists>k. expired_event rs (clock k) d e" if "e \<in> set (db_events d)" "e \<notin> set (delete_rows ev_id ?ids (db_events d'))" for e
    using that assms(2) deleted_selected [OF assms(1)] same unfolding events_since_def by blast
  moreover have "set (delete_rows ev_id ?ids (db_events d')) \<subseteq> set (db_events d)"
    using assms(2) by (auto simp: events_since_def delete_rows_def)
  ultimately show ?thesis unfolding w frame events_since_def by simp
qed

text \<open>
  C40. The deletion loops of a retention pass return whatever the clock does, because a full
  batch shrinks the table: they delete exactly as many rows as they report, only rows that had expired, never an
  event that still has an outbox row, and when the time of the pass did not run out nothing that had expired
  at the last reading of the clock is left.
\<close>

theorem retention_returns:
  assumes "0 < rs_batch_size rs" and "distinct (map ob_id (db_outbox d))" and "distinct (map ev_id (db_events d))"
  shows "(\<exists>d' n. drain_outbox rs clock late d = Some (d', n) \<and> length (db_outbox d') + n = length (db_outbox d) \<and>
      outbox_since rs clock d d' \<and>
      ((\<forall>k. \<not> late k) \<longrightarrow> (\<exists>k. \<forall>r\<in>set (db_outbox d'). \<not> expired_outbox rs (clock k) r))) \<and>
    (\<exists>d' n. drain_events rs clock late d = Some (d', n) \<and> length (db_events d') + n = length (db_events d) \<and>
      events_since rs clock d d' \<and>
      ((\<forall>k. \<not> late k) \<longrightarrow> (\<exists>k. \<forall>e\<in>set (db_events d'). \<not> expired_event rs (clock k) d e)))"
    (is "?outbox \<and> ?events")
proof
  let ?del = "\<lambda>k. delete_published_outbox rs (clock k)"
  obtain d' n where r: "drain ?del (rs_batch_size rs) late 0 d = Some (d', n)"
      "length (db_outbox d') + n = length (db_outbox d)"
    using outbox_deletion.drain_returns [OF assms(1,2)] by blast
  have s: "distinct (map ob_id (db_outbox d')) \<and> outbox_since rs clock d d'"
    by (rule outbox_deletion.drain_invariant [OF assms(1,2) r(1)])
      (use assms(2) outbox_since_step outbox_deletion.keeps in \<open>auto simp: outbox_since_def [of rs clock d d]\<close>)
  obtain j d1 where "?del j d1 = (d', snd (?del j d1))" "snd (?del j d1) < rs_batch_size rs \<or> late j"
    using outbox_deletion.drain_last [OF assms(1,2) r(1)] by blast
  moreover from this have "fst (?del j d1) = d'" by (metis fst_conv)
  ultimately have "(\<forall>k. \<not> late k) \<longrightarrow> (\<forall>r\<in>set (db_outbox d'). \<not> expired_outbox rs (clock j) r)"
    using outbox_short [of rs "clock j" d1] by auto
  then show ?outbox using r s by (auto simp: drain_outbox_def)
next
  let ?del = "\<lambda>k. delete_execution_events rs (clock k)"
  obtain d' n where r: "drain ?del (rs_batch_size rs) late 0 d = Some (d', n)"
      "length (db_events d') + n = length (db_events d)"
    using event_deletion.drain_returns [OF assms(1,3)] by blast
  have s: "distinct (map ev_id (db_events d')) \<and> events_since rs clock d d'"
    by (rule event_deletion.drain_invariant [OF assms(1,3) r(1)])
      (use assms(3) events_since_step event_deletion.keeps in \<open>auto simp: events_since_def [of rs clock d d]\<close>)
  obtain j d1 where l: "?del j d1 = (d', snd (?del j d1))" "snd (?del j d1) < rs_batch_size rs \<or> late j"
    using event_deletion.drain_last [OF assms(1,3) r(1)] by blast
  have d1: "fst (?del j d1) = d'" using l(1) by (metis fst_conv)
  have d': "d' = d\<lparr>db_events := db_events d'\<rparr>" using s by (simp only: events_since_def)
  have "db_executions d' = db_executions d" "db_outbox d' = db_outbox d" by (subst d', simp)+
  then have "db_executions d1 = db_executions d" "db_outbox d1 = db_outbox d"
    unfolding d1 [symmetric] by (simp_all add: delete_execution_events_def Let_def)
  then have same: "expired_event rs t d1 e = expired_event rs t d e" for t e
    by (simp add: expired_event_def execution_row_def)
  have "(\<forall>k. \<not> late k) \<longrightarrow> (\<forall>e\<in>set (db_events d'). \<not> expired_event rs (clock j) d e)"
    using l(2) events_short [of rs "clock j" d1] unfolding d1 same by blast
  then show ?events using r s by (auto simp: drain_events_def)
qed

end
