(* ===== verification/Event_Delivery.thy ===== *)
theory Event_Delivery
  imports Event_Retention Event_Log
begin

text \<open>
  The outbox over time. Event writers append events with their outbox rows, publishers send batches and commit,
  or die after some of the entries went out, retention deletes what is old, and everything else leaves the
  three event tables alone and never moves an Execution to another tenant. The Stream is the sequence of all
  entries ever added; trimming it hides old entries from a consumer but adds none.
\<close>

inductive relay_step :: "string \<Rightarrow> db \<times> stream_entry list \<Rightarrow> db \<times> stream_entry list \<Rightarrow> bool" for stream_name where
  emitted: "persist_execution_event mint now i p d = Inr d' \<Longrightarrow> distinct (map ev_id (db_events d')) \<Longrightarrow>
    distinct (map ob_id (db_outbox d')) \<Longrightarrow> relay_step stream_name (d, s) (d', s)"
| published: "publish_batch pb now locked answer d = Inr (d', entries, n) \<Longrightarrow> pb_event_stream_name pb = stream_name \<Longrightarrow>
    locks_ok locked (db_outbox d) \<Longrightarrow> relay_step stream_name (d, s) (d', s @ entries)"
| rolled_back: "publish_batch pb now locked answer d = Inr (d', entries @ rest, n) \<Longrightarrow> pb_event_stream_name pb = stream_name \<Longrightarrow>
    locks_ok locked (db_outbox d) \<Longrightarrow> relay_step stream_name (d, s) (d, s @ entries)"
| outbox_deleted: "delete_published_outbox rs now d = (d', n) \<Longrightarrow> relay_step stream_name (d, s) (d', s)"
| events_deleted: "delete_execution_events rs now d = (d', n) \<Longrightarrow> relay_step stream_name (d, s) (d', s)"
| unrelated: "db_events d' = db_events d \<Longrightarrow> db_outbox d' = db_outbox d \<Longrightarrow> db_event_sequences d' = db_event_sequences d \<Longrightarrow>
    (\<forall>i t. execution_tenant d i = Some t \<longrightarrow> execution_tenant d' i = Some t) \<Longrightarrow> relay_step stream_name (d, s) (d', s)"

definition relayed :: "string \<Rightarrow> db \<Rightarrow> stream_entry list \<Rightarrow> bool" where
  "relayed stream_name d s \<longleftrightarrow> (relay_step stream_name)\<^sup>*\<^sup>* (empty_db, []) (d, s)"

subsection \<open>The invariant\<close>

text \<open>A row belongs to an event of its Execution with its number.\<close>

definition row_ok :: "db \<Rightarrow> outbox_event_orm \<Rightarrow> bool" where
  "row_ok d r \<longleftrightarrow>
     ob_aggregate_type r = ''Execution'' \<and> 1 \<le> ob_event_sequence r \<and>
     ob_event_sequence r \<le> last_event_number d (ob_aggregate_id r) \<and>
     (\<exists>event\<in>set (db_events d). ev_id event = ob_execution_event_id r \<and> ev_execution_id event = ob_aggregate_id r \<and>
        ev_event_sequence event = ob_event_sequence r)"

definition entry_ok :: "string \<Rightarrow> db \<Rightarrow> stream_entry \<Rightarrow> bool" where
  "entry_ok stream_name d x \<longleftrightarrow>
     1 \<le> se_event_sequence x \<and> se_event_sequence x \<le> last_event_number d (se_execution_id x) \<and>
     execution_tenant d (se_execution_id x) = Some (se_tenant_id x) \<and>
     se_stream x = tenant_event_stream stream_name (se_tenant_id x)"

text \<open>Every number given out is delivered or still pending.\<close>

definition accounted :: "db \<Rightarrow> stream_entry list \<Rightarrow> bool" where
  "accounted d s \<longleftrightarrow>
     (\<forall>i n. 1 \<le> n \<and> n \<le> last_event_number d i \<longrightarrow>
        delivered s i n \<or> (\<exists>r\<in>set (db_outbox d). is_pending r \<and> ob_aggregate_id r = i \<and> ob_event_sequence r = n))"

definition relay_inv :: "string \<Rightarrow> db \<Rightarrow> stream_entry list \<Rightarrow> bool" where
  "relay_inv stream_name d s \<longleftrightarrow>
     outbox_keys (db_outbox d) \<and> distinct (map ev_id (db_events d)) \<and> (\<forall>r\<in>set (db_outbox d). row_ok d r) \<and>
     (\<forall>i. 0 \<le> last_event_number d i) \<and> accounted d s \<and> in_order s \<and> (\<forall>x\<in>set s. entry_ok stream_name d x)"

lemma relay_invD:
  assumes "relay_inv stream_name d s"
  shows "outbox_keys (db_outbox d)" and "distinct (map ev_id (db_events d))" and "\<forall>r\<in>set (db_outbox d). row_ok d r"
    and "\<forall>i. 0 \<le> last_event_number d i" and "accounted d s" and "in_order s" and "\<forall>x\<in>set s. entry_ok stream_name d x"
  using assms by (simp_all add: relay_inv_def)

lemma event_row_found:
  assumes "distinct (map ev_id (db_events d))" and "event \<in> set (db_events d)"
  shows "event_row d (ev_id event) = Some event"
  using assms unfolding event_row_def by (intro scalar_key_unique) simp_all

lemma row_event:
  assumes "distinct (map ev_id (db_events d))" and "row_ok d r"
  obtains event where "event_row d (ob_execution_event_id r) = Some event" and "ev_execution_id event = ob_aggregate_id r"
    and "ev_event_sequence event = ob_event_sequence r"
proof -
  obtain event where "event \<in> set (db_events d)" "ev_id event = ob_execution_event_id r"
      "ev_execution_id event = ob_aggregate_id r" "ev_event_sequence event = ob_event_sequence r"
    using assms(2) by (auto simp: row_ok_def)
  then show ?thesis using that event_row_found [OF assms(1)] by metis
qed

lemma entry_of_fields:
  assumes "entry_of pb d event = Inr x"
  shows "se_execution_id x = ev_execution_id event" and "se_event_sequence x = ev_event_sequence event"
    and "execution_tenant d (ev_execution_id event) = Some (se_tenant_id x)"
    and "se_stream x = tenant_event_stream (pb_event_stream_name pb) (se_tenant_id x)"
  using assms by (auto simp: entry_of_def split: option.splits if_split_asm)

subsection \<open>Sending keeps it\<close>

lemma batch_ready:
  assumes inv: "relay_inv stream_name d s" and locks: "locks_ok locked (db_outbox d)"
  shows "ready s {} (batch_events k now locked (db_outbox d))"
  unfolding ready_def
proof (intro allI impI)
  fix xs r ys
  assume split: "batch_events k now locked (db_outbox d) = xs @ r # ys"
  note keys = relay_invD(1) [OF inv]
  have r: "r \<in> set (db_outbox d)" by (rule batch_rows(1) [of r k now locked]) (simp add: split)
  then have ok: "row_ok d r" using relay_invD(3) [OF inv] by blast
  show "ob_event_sequence r \<le> 1 \<or> delivered s (ob_aggregate_id r) (ob_event_sequence r - 1) \<or> aggregate_key r \<in> {} \<or>
      (\<exists>q\<in>set xs. aggregate_key q = aggregate_key r \<and> ob_event_sequence q = ob_event_sequence r - 1)"
  proof (cases "ob_event_sequence r \<le> 1 \<or> delivered s (ob_aggregate_id r) (ob_event_sequence r - 1)")
    case False
    have "1 \<le> ob_event_sequence r - 1" "ob_event_sequence r - 1 \<le> last_event_number d (ob_aggregate_id r)"
      using False ok by (auto simp: row_ok_def)
    then obtain q where q: "q \<in> set (db_outbox d)" "is_pending q" "ob_aggregate_id q = ob_aggregate_id r"
        "ob_event_sequence q = ob_event_sequence r - 1"
      using relay_invD(5) [OF inv] False unfolding accounted_def by blast
    have "row_ok d q" using q(1) relay_invD(3) [OF inv] by blast
    then have key: "aggregate_key q = aggregate_key r" using ok q(3) by (simp add: aggregate_key_def row_ok_def)
    then have "precedes q r" using q by (simp add: precedes_def)
    then have "q \<in> set xs"
      using batch_ordered_batch [OF keys locks, of k now] split q(1) unfolding batch_ordered_def by blast
    then show ?thesis using key q(4) by blast
  qed blast
qed

text \<open>What a batch adds to the Streams, committed or not.\<close>

lemma batch_sends:
  assumes inv: "relay_inv stream_name d s" and locks: "locks_ok locked (db_outbox d)"
    and p: "publish_batch pb now locked answer d = Inr (d', entries, n)" and name: "pb_event_stream_name pb = stream_name"
  obtains changed where "d' = d\<lparr>db_outbox := write_rows changed (db_outbox d)\<rparr>" and "in_order (s @ entries)"
    and "\<forall>x\<in>set entries. entry_ok stream_name d x"
    and "\<forall>c\<in>set changed. \<exists>r\<in>set (db_outbox d). is_pending r \<and>
      ((\<exists>t. c = published_row t r) \<and> delivered entries (ob_aggregate_id r) (ob_event_sequence r) \<or> (\<exists>t exc. c = failed_row t exc r))"
proof -
  let ?events = "batch_events (pb_batch_size pb) now locked (db_outbox d)"
  let ?entry = "\<lambda>r. entry_of pb d (the (event_row d (ob_execution_event_id r)))"
  let ?w = "send_events ?entry answer {} ?events"
  have w: "d' = d\<lparr>db_outbox := write_rows (fst ?w) (db_outbox d)\<rparr>" "entries = fst (snd ?w)"
    using p by (auto simp: publish_batch_def Let_def case_prod_beta split: if_split_asm)
  have rows: "r \<in> set (db_outbox d) \<and> is_pending r" if "r \<in> set ?events" for r
    using batch_rows [OF that] by (simp add: sendable_def)
  have fields: "se_execution_id e = ob_aggregate_id r \<and> se_event_sequence e = ob_event_sequence r \<and> entry_ok stream_name d e"
    if "r \<in> set ?events" "?entry r = Inr e" for r e
  proof -
    have ok: "row_ok d r" using rows [OF that(1)] relay_invD(3) [OF inv] by blast
    obtain event where "event_row d (ob_execution_event_id r) = Some event" "ev_execution_id event = ob_aggregate_id r"
        "ev_event_sequence event = ob_event_sequence r"
      by (rule row_event [OF relay_invD(2) [OF inv] ok])
    then show ?thesis using entry_of_fields [of pb d event e] that(2) ok name by (simp add: entry_ok_def row_ok_def)
  qed
  have order: "in_order (s @ entries)"
    unfolding w(2) by (rule send_in_order [OF relay_invD(6) [OF inv] batch_ready [OF inv locks]]) (use fields in blast)
  have entries: "\<forall>x\<in>set entries. entry_ok stream_name d x"
  proof
    fix x assume "x \<in> set entries"
    then obtain r where "r \<in> set ?events" "?entry r = Inr x" using send_entries unfolding w(2) by blast
    then show "entry_ok stream_name d x" using fields by blast
  qed
  have "\<forall>c\<in>set (fst ?w). \<exists>r\<in>set (db_outbox d). is_pending r \<and>
      ((\<exists>t. c = published_row t r) \<and> delivered entries (ob_aggregate_id r) (ob_event_sequence r) \<or> (\<exists>t exc. c = failed_row t exc r))"
  proof
    fix c assume "c \<in> set (fst ?w)"
    then have "written_from ?entry entries ?events c" unfolding w(2) by (rule bspec [OF send_rows])
    then obtain r where r: "r \<in> set ?events"
      "(\<exists>t e. c = published_row t r \<and> ?entry r = Inr e \<and> e \<in> set entries) \<or> (\<exists>t exc. c = failed_row t exc r)"
      unfolding written_from_def by blast
    moreover have "delivered entries (ob_aggregate_id r) (ob_event_sequence r)" if "?entry r = Inr e" "e \<in> set entries" for e
      using fields [OF r(1) that(1)] that(2) unfolding delivered_def by blast
    ultimately show "\<exists>r\<in>set (db_outbox d). is_pending r \<and>
      ((\<exists>t. c = published_row t r) \<and> delivered entries (ob_aggregate_id r) (ob_event_sequence r) \<or> (\<exists>t exc. c = failed_row t exc r))"
      using rows [OF r(1)] by blast
  qed
  then show ?thesis by (rule that [OF w(1) order entries])
qed

lemma written_keys [simp]:
  "ob_id (published_row t r) = ob_id r" "aggregate_key (published_row t r) = aggregate_key r"
  "ob_aggregate_type (published_row t r) = ob_aggregate_type r" "ob_aggregate_id (published_row t r) = ob_aggregate_id r"
  "ob_event_sequence (published_row t r) = ob_event_sequence r"
  "ob_execution_event_id (published_row t r) = ob_execution_event_id r"
  "ob_id (failed_row t exc r) = ob_id r" "aggregate_key (failed_row t exc r) = aggregate_key r"
  "ob_aggregate_type (failed_row t exc r) = ob_aggregate_type r" "ob_aggregate_id (failed_row t exc r) = ob_aggregate_id r"
  "ob_event_sequence (failed_row t exc r) = ob_event_sequence r"
  "ob_execution_event_id (failed_row t exc r) = ob_execution_event_id r" "is_pending (failed_row t exc r) = is_pending r"
  by (simp_all add: published_row_def failed_row_def aggregate_key_def is_pending_def Let_def)

lemma write_rows_each:
  assumes keys: "outbox_keys rows" and r: "r \<in> set rows"
    and ch: "\<forall>c\<in>set changed. \<exists>r\<in>set rows. is_pending r \<and>
      ((\<exists>t. c = published_row t r) \<and> delivered entries (ob_aggregate_id r) (ob_event_sequence r) \<or> (\<exists>t exc. c = failed_row t exc r))"
  defines "r' \<equiv> (case scalar (\<lambda>c. ob_id c = ob_id r) changed of Some c \<Rightarrow> c | None \<Rightarrow> r)"
  shows "r' = r \<or> (\<exists>t. r' = published_row t r) \<and> delivered entries (ob_aggregate_id r) (ob_event_sequence r) \<or>
    (\<exists>t exc. r' = failed_row t exc r)"
proof (cases "scalar (\<lambda>c. ob_id c = ob_id r) changed")
  case (Some c)
  then have c: "c \<in> set changed" "ob_id c = ob_id r" by (auto dest: scalar_SomeD)
  then obtain r0 where r0: "r0 \<in> set rows" "(\<exists>t. c = published_row t r0) \<and> delivered entries (ob_aggregate_id r0) (ob_event_sequence r0) \<or>
      (\<exists>t exc. c = failed_row t exc r0)" using ch by blast
  have "ob_id r0 = ob_id r" using r0(2) c(2) by auto
  then have "r0 = r" by (rule outbox_keys_id [OF keys r0(1) r])
  then show ?thesis using r0(2) Some by (simp add: r'_def)
qed (simp add: r'_def)

lemma relay_inv_cong:
  assumes inv: "relay_inv stream_name d s" and rows: "\<forall>r\<in>set (db_outbox d'). row_ok d' r" and keys: "outbox_keys (db_outbox d')"
    and ev: "distinct (map ev_id (db_events d'))" and acc: "accounted d' s'" and ord: "in_order s'"
    and last: "\<forall>i. last_event_number d i \<le> last_event_number d' i"
    and ten: "\<forall>i t. execution_tenant d i = Some t \<longrightarrow> execution_tenant d' i = Some t"
    and new: "\<forall>x\<in>set s'. x \<in> set s \<or> entry_ok stream_name d x"
  shows "relay_inv stream_name d' s'"
proof -
  have "entry_ok stream_name d' x" if "entry_ok stream_name d x" for x
    using that last ten unfolding entry_ok_def by (meson order_trans)
  moreover have "\<forall>i. 0 \<le> last_event_number d' i" using last relay_invD(4) [OF inv] by (meson order_trans)
  ultimately show ?thesis using assms relay_invD(7) [OF inv] unfolding relay_inv_def by blast
qed

lemma published_inv:
  assumes inv: "relay_inv stream_name d s" and locks: "locks_ok locked (db_outbox d)"
    and p: "publish_batch pb now locked answer d = Inr (d', entries, n)" and name: "pb_event_stream_name pb = stream_name"
  shows "relay_inv stream_name d' (s @ entries)"
proof -
  obtain changed where d': "d' = d\<lparr>db_outbox := write_rows changed (db_outbox d)\<rparr>" and order: "in_order (s @ entries)"
    and entries: "\<forall>x\<in>set entries. entry_ok stream_name d x"
    and ch: "\<forall>c\<in>set changed. \<exists>r\<in>set (db_outbox d). is_pending r \<and>
      ((\<exists>t. c = published_row t r) \<and> delivered entries (ob_aggregate_id r) (ob_event_sequence r) \<or> (\<exists>t exc. c = failed_row t exc r))"
    by (rule batch_sends [OF assms])
  define f where "f r = (case scalar (\<lambda>c. ob_id c = ob_id r) changed of Some c \<Rightarrow> c | None \<Rightarrow> r)" for r
  note keys = relay_invD(1) [OF inv]
  have each: "f r = r \<or> (\<exists>t. f r = published_row t r) \<and> delivered entries (ob_aggregate_id r) (ob_event_sequence r) \<or>
      (\<exists>t exc. f r = failed_row t exc r)" if "r \<in> set (db_outbox d)" for r
    using write_rows_each [OF keys that ch] by (simp add: f_def)
  have out: "db_outbox d' = map f (db_outbox d)" by (simp add: d' write_rows_def f_def)
  have same: "ob_id (f r) = ob_id r" "aggregate_key (f r) = aggregate_key r" "ob_event_sequence (f r) = ob_event_sequence r"
      "ob_aggregate_type (f r) = ob_aggregate_type r" "ob_aggregate_id (f r) = ob_aggregate_id r"
      "ob_execution_event_id (f r) = ob_execution_event_id r" if "r \<in> set (db_outbox d)" for r
    using each [OF that] by auto
  have last: "last_event_number d' = last_event_number d" by (simp add: fun_eq_iff last_event_number_def d')
  show ?thesis
  proof (rule relay_inv_cong [OF inv _ _ _ _ order])
    show "\<forall>r\<in>set (db_outbox d'). row_ok d' r"
      using relay_invD(3) [OF inv] same by (auto simp: out row_ok_def last) (simp_all add: d')
    have "map ob_id (map f (db_outbox d)) = map ob_id (db_outbox d)"
      "map (\<lambda>r. (aggregate_key r, ob_event_sequence r)) (map f (db_outbox d)) = map (\<lambda>r. (aggregate_key r, ob_event_sequence r)) (db_outbox d)"
      using same by simp_all
    then show "outbox_keys (db_outbox d')" using keys unfolding out outbox_keys_def by metis
    show "distinct (map ev_id (db_events d'))" using relay_invD(2) [OF inv] by (simp add: d')
    show "accounted d' (s @ entries)"
      unfolding accounted_def last
    proof (intro allI impI)
      fix i n
      assume n: "1 \<le> n \<and> n \<le> last_event_number d i"
      show "delivered (s @ entries) i n \<or> (\<exists>r\<in>set (db_outbox d'). is_pending r \<and> ob_aggregate_id r = i \<and> ob_event_sequence r = n)"
      proof (cases "delivered s i n")
        case False
        then obtain r where r: "r \<in> set (db_outbox d)" "is_pending r" "ob_aggregate_id r = i" "ob_event_sequence r = n"
          using relay_invD(5) [OF inv] n unfolding accounted_def by blast
        then show ?thesis using each [OF r(1)] same [OF r(1)] unfolding out by fastforce
      qed simp
    qed
    show "\<forall>i. last_event_number d i \<le> last_event_number d' i" by (simp add: last)
    show "\<forall>i t. execution_tenant d i = Some t \<longrightarrow> execution_tenant d' i = Some t"
      by (simp add: execution_tenant_def execution_row_def d')
    show "\<forall>x\<in>set (s @ entries). x \<in> set s \<or> entry_ok stream_name d x" using entries by auto
  qed
qed

lemma rolled_back_inv:
  assumes inv: "relay_inv stream_name d s" and locks: "locks_ok locked (db_outbox d)"
    and p: "publish_batch pb now locked answer d = Inr (d', entries @ rest, n)" and name: "pb_event_stream_name pb = stream_name"
  shows "relay_inv stream_name d (s @ entries)"
proof -
  have order: "in_order (s @ entries @ rest)" and entries: "\<forall>x\<in>set (entries @ rest). entry_ok stream_name d x"
    by (rule batch_sends [OF assms]; assumption)+
  have "in_order ((s @ entries) @ rest)" using order by simp
  from in_order_prefix [OF this] show ?thesis
    using inv entries by (auto simp: relay_inv_def accounted_def)
qed

subsection \<open>Writing events and deleting rows keep it\<close>

lemma emitted_inv:
  assumes inv: "relay_inv stream_name d s" and p: "persist_execution_event mint now i p d = Inr d'"
    and ids: "distinct (map ev_id (db_events d'))" "distinct (map ob_id (db_outbox d'))"
  shows "relay_inv stream_name d' s"
proof -
  obtain event j where ev: "ev_execution_id event = i" "ev_event_sequence event = last_event_number d i + 1"
    and d': "d' = (fst (next_execution_event_sequence i d))
      \<lparr>db_events := db_events d @ [event], db_outbox := db_outbox d @ [outbox_from_execution_event j event]\<rparr>"
    using p by (rule persist_execution_event_Inr)
  let ?row = "outbox_from_execution_event j event"
  have last: "last_event_number d' x = (if x = i then last_event_number d i + 1 else last_event_number d x)" for x
    using next_sequence_eq(2) [of i d x] by (simp add: d' last_event_number_def)
  have row: "ob_aggregate_type ?row = ''Execution''" "ob_aggregate_id ?row = i" "ob_event_sequence ?row = last_event_number d i + 1"
      "ob_execution_event_id ?row = ev_id event" "is_pending ?row"
    by (simp_all add: outbox_from_execution_event_def ev is_pending_def)
  have tables: "db_events d' = db_events d @ [event]" "db_outbox d' = db_outbox d @ [?row]" by (simp_all add: d')
  have old: "row_ok d r" if "r \<in> set (db_outbox d)" for r using relay_invD(3) [OF inv] that by blast
  show ?thesis
  proof (rule relay_inv_cong [OF inv _ _ ids(1) _ relay_invD(6) [OF inv]])
    have "row_ok d' r" if "r \<in> set (db_outbox d)" for r
      using old [OF that] by (auto simp: row_ok_def tables last)
    moreover have "row_ok d' ?row" using relay_invD(4) [OF inv] by (simp add: row_ok_def row tables last ev)
    ultimately show "\<forall>r\<in>set (db_outbox d'). row_ok d' r" by (simp add: tables)
    have "(aggregate_key ?row, ob_event_sequence ?row) \<notin> (\<lambda>r. (aggregate_key r, ob_event_sequence r)) ` set (db_outbox d)"
      using old by (force simp: aggregate_key_def row row_ok_def)
    then show "outbox_keys (db_outbox d')"
      using relay_invD(1) [OF inv] ids(2) by (simp add: outbox_keys_def tables)
    show "accounted d' s"
      using relay_invD(5) [OF inv] row unfolding accounted_def tables last
      by (auto split: if_split_asm) (metis add.commute zle_iff_zadd zless_add1_eq zle_add1_eq_le order_le_less)
    show "\<forall>x. last_event_number d x \<le> last_event_number d' x" by (simp add: last)
    show "\<forall>x t. execution_tenant d x = Some t \<longrightarrow> execution_tenant d' x = Some t"
      using next_sequence_eq(3) [of d i] by (simp add: execution_tenant_def execution_row_def d' same_tables_def)
  qed simp
qed

lemma outbox_deleted_inv:
  assumes inv: "relay_inv stream_name d s" and p: "delete_published_outbox rs now d = (d', n)"
  shows "relay_inv stream_name d' s"
proof -
  have ids: "distinct (map ob_id (db_outbox d))" using relay_invD(1) [OF inv] by (simp add: outbox_keys_def)
  obtain sel where sel: "d' = d\<lparr>db_outbox := delete_rows ob_id (map ob_id sel) (db_outbox d)\<rparr>"
      "sel = take (rs_batch_size rs) (sort_key (\<lambda>r. (the (ob_published_at r), ob_id r)) (filter (expired_outbox rs now) (db_outbox d)))"
    using p by (auto simp: delete_published_outbox_def Let_def)
  have out: "db_outbox d' = delete_rows ob_id (map ob_id sel) (db_outbox d)" and last: "last_event_number d' = last_event_number d"
    by (simp_all add: sel(1) fun_eq_iff last_event_number_def)
  have kept: "r \<in> set (db_outbox d')" if "r \<in> set (db_outbox d)" "is_pending r" for r
  proof (rule ccontr)
    assume "r \<notin> set (db_outbox d')"
    then have "expired_outbox rs now r" unfolding out sel(2) by (rule deleted_selected [OF ids that(1)])
    then show False using that(2) by (simp add: expired_outbox_def is_pending_def)
  qed
  have sub: "set (db_outbox d') \<subseteq> set (db_outbox d)" by (auto simp: out delete_rows_def)
  show ?thesis
  proof (rule relay_inv_cong [OF inv _ _ _ _ relay_invD(6) [OF inv]])
    show "\<forall>r\<in>set (db_outbox d'). row_ok d' r"
      using relay_invD(3) [OF inv] sub by (auto simp: row_ok_def last) (simp_all add: sel(1) subset_iff)
    show "outbox_keys (db_outbox d')"
      using relay_invD(1) [OF inv] by (simp add: outbox_keys_def out distinct_delete_rows)
    show "distinct (map ev_id (db_events d'))" using relay_invD(2) [OF inv] by (simp add: sel(1))
    show "accounted d' s" using relay_invD(5) [OF inv] kept unfolding accounted_def last by blast
    show "\<forall>x t. execution_tenant d x = Some t \<longrightarrow> execution_tenant d' x = Some t"
      by (simp add: execution_tenant_def execution_row_def sel(1))
  qed (simp_all add: last)
qed

lemma events_deleted_inv:
  assumes inv: "relay_inv stream_name d s" and p: "delete_execution_events rs now d = (d', n)"
  shows "relay_inv stream_name d' s"
proof -
  note ids = relay_invD(2) [OF inv]
  obtain sel where sel: "d' = d\<lparr>db_events := delete_rows ev_id (map ev_id sel) (db_events d)\<rparr>"
      "sel = take (rs_batch_size rs) (sort_key (\<lambda>e. (ev_created_at e, ev_id e)) (filter (expired_event rs now d) (db_events d)))"
    using p by (auto simp: delete_execution_events_def Let_def)
  have ev: "db_events d' = delete_rows ev_id (map ev_id sel) (db_events d)" and out: "db_outbox d' = db_outbox d"
    and last: "last_event_number d' = last_event_number d"
    by (simp_all add: sel(1) fun_eq_iff last_event_number_def)
  have kept: "e \<in> set (db_events d')" if "e \<in> set (db_events d)" "r \<in> set (db_outbox d)" "ob_execution_event_id r = ev_id e" for e r
  proof (rule ccontr)
    assume "e \<notin> set (db_events d')"
    then have "expired_event rs now d e" unfolding ev sel(2) by (rule deleted_selected [OF ids that(1)])
    then show False using that(2,3) by (auto simp: expired_event_def list_ex_iff)
  qed
  show ?thesis
  proof (rule relay_inv_cong [OF inv _ _ _ _ relay_invD(6) [OF inv]])
    show "\<forall>r\<in>set (db_outbox d'). row_ok d' r"
      using relay_invD(3) [OF inv] kept unfolding row_ok_def last out by metis
    show "outbox_keys (db_outbox d')" using relay_invD(1) [OF inv] by (simp add: out)
    show "distinct (map ev_id (db_events d'))" using ids by (simp add: ev distinct_delete_rows)
    show "accounted d' s" using relay_invD(5) [OF inv] unfolding accounted_def last out .
    show "\<forall>x t. execution_tenant d x = Some t \<longrightarrow> execution_tenant d' x = Some t"
      by (simp add: execution_tenant_def execution_row_def sel(1))
  qed (simp_all add: last)
qed

lemma unrelated_inv:
  assumes inv: "relay_inv stream_name d s" and same: "db_events d' = db_events d" "db_outbox d' = db_outbox d"
      "db_event_sequences d' = db_event_sequences d"
    and ten: "\<forall>i t. execution_tenant d i = Some t \<longrightarrow> execution_tenant d' i = Some t"
  shows "relay_inv stream_name d' s"
proof -
  have last: "last_event_number d' = last_event_number d" by (simp add: fun_eq_iff last_event_number_def same)
  have "\<forall>r\<in>set (db_outbox d'). row_ok d' r" using relay_invD(3) [OF inv] by (simp add: row_ok_def last same)
  moreover have "accounted d' s" using relay_invD(5) [OF inv] by (simp add: accounted_def last same)
  ultimately show ?thesis
    using inv by (intro relay_inv_cong [OF inv _ _ _ _ relay_invD(6) [OF inv] _ ten]) (simp_all add: last same relay_inv_def)
qed

lemma relay_step_inv:
  assumes "relay_step stream_name (d, s) (d', s')" and inv: "relay_inv stream_name d s"
  shows "relay_inv stream_name d' s'"
  using assms(1)
proof cases
  case (emitted mint now i p)
  then show ?thesis using emitted_inv [OF inv] by simp
next
  case (published pb now locked answer entries n)
  then show ?thesis using published_inv [OF inv] by simp
next
  case (rolled_back pb now locked answer d1 entries rest n)
  then show ?thesis using rolled_back_inv [OF inv] by simp
next
  case (outbox_deleted rs now n)
  then show ?thesis using outbox_deleted_inv [OF inv] by simp
next
  case (events_deleted rs now n)
  then show ?thesis using events_deleted_inv [OF inv] by simp
next
  case unrelated
  then show ?thesis using unrelated_inv [OF inv] by simp
qed

lemma relay_inv_empty: "relay_inv stream_name empty_db []"
  by (simp add: relay_inv_def empty_db_def outbox_keys_def last_event_number_def accounted_def)

lemma relayed_inv:
  assumes "relayed stream_name d s"
  shows "relay_inv stream_name d s"
proof -
  have "relay_inv stream_name (fst x) (snd x)" if "(relay_step stream_name)\<^sup>*\<^sup>* (empty_db, []) x" for x
    using that
  proof (induction rule: rtranclp_induct)
    case (step x y)
    then show ?case using relay_step_inv [of stream_name "fst x" "snd x" "fst y" "snd y"] by simp
  qed (simp add: relay_inv_empty)
  from this [of "(d, s)"] show ?thesis using assms by (simp add: relayed_def)
qed

subsection \<open>What a consumer sees\<close>

text \<open>The numbers of the events of one Execution, in the order in which a consumer sees each for the first time.\<close>

definition first_deliveries :: "stream_entry list \<Rightarrow> uuid \<Rightarrow> int list" where
  "first_deliveries s i =
     rev (remdups (rev (map se_event_sequence (filter (\<lambda>x. se_execution_id x = i) s))))"

lemma set_first_deliveries: "n \<in> set (first_deliveries s i) \<longleftrightarrow> delivered s i n"
  by (auto simp: first_deliveries_def delivered_def)

lemma first_deliveries_snoc:
  "first_deliveries (s @ [x]) i =
     (if se_execution_id x = i \<and> \<not> delivered s i (se_event_sequence x) then first_deliveries s i @ [se_event_sequence x]
      else first_deliveries s i)"
  by (auto simp: first_deliveries_def delivered_def image_iff)

lemma first_deliveries_upto:
  assumes "in_order s" and "\<forall>x\<in>set s. 1 \<le> se_event_sequence x"
  shows "\<exists>k\<ge>0. first_deliveries s i = [1..k]"
  using assms
proof (induction s rule: rev_induct)
  case Nil
  then show ?case by (intro exI [of _ 0]) (simp add: first_deliveries_def)
next
  case (snoc x s)
  obtain k where k: "0 \<le> k" "first_deliveries s i = [1..k]"
    using snoc.IH in_order_prefix [OF snoc.prems(1)] snoc.prems(2) by auto
  have del: "delivered s i n \<longleftrightarrow> 1 \<le> n \<and> n \<le> k" for n
    using set_first_deliveries [of n s i] by (simp add: k(2))
  show ?case
  proof (cases "se_execution_id x = i \<and> \<not> delivered s i (se_event_sequence x)")
    case True
    have "se_event_sequence x \<le> 1 \<or> delivered s i (se_event_sequence x - 1)"
      using snoc.prems(1) True unfolding in_order_def by blast
    then have "se_event_sequence x = k + 1" using True snoc.prems(2) k(1) by (auto simp: del)
    then show ?thesis using k True by (intro exI [of _ "k + 1"]) (simp add: first_deliveries_snoc upto_snoc)
  next
    case False
    then show ?thesis using k by (intro exI [of _ k]) (auto simp: first_deliveries_snoc)
  qed
qed


subsection \<open>One event, from its writer to a consumer\<close>

definition demo_event :: "worker_error + db" where
  "demo_event = persist_execution_event demo_mint 6 10 (OperationStarted \<lparr>or_id = 20, or_number = 1, or_step_count = 1\<rparr>)
     (demo_base OM_SINGLE)"

definition demo_with_event :: db where
  "demo_with_event = (case demo_event of Inl _ \<Rightarrow> empty_db | Inr d \<Rightarrow> d)"

definition demo_publish :: "worker_error + (db \<times> stream_entry list \<times> nat)" where
  "demo_publish = publish_batch \<lparr>pb_event_stream_name = ''executor.events'', pb_batch_size = 10\<rparr> 7 {}
     (\<lambda>_. \<lparr>xa_outcome = XAdded, xa_now = 8\<rparr>) demo_with_event"

lemma demo_event_ok: "demo_event = Inr demo_with_event"
proof -
  have "\<not> isl demo_event" by code_simp
  then show ?thesis unfolding demo_with_event_def by (auto simp: isl_def split: sum.split)
qed

lemma demo_with_event_keys: "distinct (map ev_id (db_events demo_with_event)) \<and> distinct (map ob_id (db_outbox demo_with_event))"
  by code_simp

lemma demo_publish_ok:
  "(case demo_publish of Inr (d, entries, n) \<Rightarrow> n = 1 \<and> first_deliveries entries 10 = [1] \<and> map ob_status (db_outbox d) = [OB_PUBLISHED]
    | Inl _ \<Rightarrow> False)"
  by code_simp

lemma demo_base_events: "db_events (demo_base m) = []" "db_outbox (demo_base m) = []" "db_event_sequences (demo_base m) = []"
  by (simp_all add: demo_base_def submitted_db_def empty_db_def)

lemma demo_relayed:
  obtains d entries n where "demo_publish = Inr (d, entries, n)" and "relayed ''executor.events'' d entries"
proof -
  obtain d entries n where p: "demo_publish = Inr (d, entries, n)" using demo_publish_ok by (auto split: sum.splits)
  have "relay_step ''executor.events'' (empty_db, []) (demo_base OM_SINGLE, [])"
    by (rule relay_step.unrelated) (simp_all add: demo_base_events, simp_all add: empty_db_def execution_tenant_def execution_row_def)
  moreover have "relay_step ''executor.events'' (demo_base OM_SINGLE, []) (demo_with_event, [])"
    using demo_with_event_keys by (intro relay_step.emitted [OF demo_event_ok [unfolded demo_event_def]]) simp_all
  moreover have "relay_step ''executor.events'' (demo_with_event, []) (d, [] @ entries)"
    by (rule relay_step.published [OF p [unfolded demo_publish_def]]) (simp_all add: locks_ok_def)
  ultimately have "(relay_step ''executor.events'')\<^sup>*\<^sup>* (empty_db, []) (d, [] @ entries)"
    by (intro rtranclp.rtrancl_into_rtrancl [OF rtranclp.rtrancl_into_rtrancl [OF r_into_rtranclp]])
  then show ?thesis using that p by (simp only: relayed_def append_Nil)
qed


theorem retention_returns_witness:
  "\<exists>d' n. drain_outbox \<lparr>rs_batch_size = 2, rs_published_outbox_retention_seconds = 3600, rs_execution_event_retention_seconds = 3600\<rparr>
      (\<lambda>_. 7) (\<lambda>_. False) demo_with_event = Some (d', n) \<and> length (db_outbox d') + n = length (db_outbox demo_with_event)"
proof -
  have "0 < rs_batch_size \<lparr>rs_batch_size = 2, rs_published_outbox_retention_seconds = 3600, rs_execution_event_retention_seconds = 3600\<rparr>"
    by simp
  from retention_returns [OF this conjunct2 [OF demo_with_event_keys] conjunct1 [OF demo_with_event_keys], of "\<lambda>_. 7" "\<lambda>_. False"]
  show ?thesis by blast
qed

end
