(* ===== verification/Maintenance.thy ===== *)
theory Maintenance
  imports Execution_Service Claiming
begin

text \<open>
  Executor-wide maintenance: the admission switch every worker reads before it claims
  (\<open>infrastructure/maintenance.py\<close>), and the durable Maintenance Runs that stop the active Executions
  (\<open>infrastructure/maintenance_runs\<close>). A Run snapshots its targets when it is created; workers
  take it over under an expiring lease with a fencing token, send every target through the cancellation of the
  execution service, and end the Run when all targets are stopped.
\<close>

subsection \<open>Tables\<close>

record executor_maintenance_orm =
  em_admission_state :: executor_admission_state
  em_version :: int
  em_created_by_client :: "string option"
  em_created_by :: "string option"
  em_updated_by_client :: "string option"
  em_updated_by :: "string option"
  em_created_at :: datetime
  em_updated_at :: datetime

datatype maintenance_run_action = MA_STOP_ACTIVE_EXECUTIONS

record maintenance_run_orm =
  mr_id :: uuid
  mr_idempotency_key :: string
  mr_request_fingerprint :: string
  mr_action :: maintenance_run_action
  mr_status :: maintenance_run_status
  mr_lease_owner :: "string option"
  mr_lease_expires_at :: "datetime option"
  mr_heartbeat_at :: "datetime option"
  mr_fencing_token :: int
  mr_error_message :: "string option"
  mr_created_by_client :: "string option"
  mr_created_by :: "string option"
  mr_updated_by_client :: "string option"
  mr_updated_by :: "string option"
  mr_created_at :: datetime
  mr_updated_at :: datetime
  mr_started_at :: "datetime option"
  mr_finished_at :: "datetime option"

datatype maintenance_run_target_status = MT_PENDING | MT_STOP_REQUESTED | MT_STOPPED | MT_FAILED

record maintenance_run_target_orm =
  mg_id :: uuid
  mg_maintenance_run_id :: uuid
  mg_execution_id :: uuid
  mg_selected_execution_status :: execution_status
  mg_status :: maintenance_run_target_status
  mg_error_message :: "string option"
  mg_stop_requested_at :: "datetime option"
  mg_completed_at :: "datetime option"
  mg_created_by_client :: "string option"
  mg_created_by :: "string option"
  mg_updated_by_client :: "string option"
  mg_updated_by :: "string option"
  mg_created_at :: datetime
  mg_updated_at :: datetime

text \<open>The maintenance tables beside those of the Executions; the claim reads the admission column.\<close>

record maintenance_db =
  md_db :: db
  md_state :: "executor_maintenance_orm option"
  md_runs :: "maintenance_run_orm list"
  md_targets :: "maintenance_run_target_orm list"

definition write_state :: "executor_maintenance_orm \<Rightarrow> maintenance_db \<Rightarrow> maintenance_db" where
  "write_state s m = m\<lparr>md_state := Some s, md_db := (md_db m)\<lparr>db_admission := Some (em_admission_state s)\<rparr>\<rparr>"

subsection \<open>The admission switch\<close>

record set_executor_admission_command =
  ac_idempotency_key :: string
  ac_desired_state :: executor_admission_state
  ac_actor_client :: string
  ac_actor_id :: string

fun admission_value :: "executor_admission_state \<Rightarrow> string" where
  "admission_value EA_ACTIVE = ''ACTIVE''"
| "admission_value EA_DRAINING = ''DRAINING''"

definition required_state :: "datetime \<Rightarrow> maintenance_db \<Rightarrow> maintenance_db \<times> executor_maintenance_orm" where
  "required_state now m =
     (case md_state m of
        Some s \<Rightarrow> (m, s)
      | None \<Rightarrow>
          (let s = \<lparr>em_admission_state = EA_ACTIVE, em_version = 0, em_created_by_client = None, em_created_by = None,
                    em_updated_by_client = None, em_updated_by = None, em_created_at = now, em_updated_at = now\<rparr>
           in (write_state s m, s)))"

definition with_admission ::
    "datetime \<Rightarrow> string \<Rightarrow> string \<Rightarrow> executor_admission_state \<Rightarrow> executor_maintenance_orm \<Rightarrow> executor_maintenance_orm" where
  "with_admission now actor_client actor_id desired s =
     (if em_admission_state s \<noteq> desired then s\<lparr>em_admission_state := desired, em_version := em_version s + 1\<rparr> else s)
       \<lparr>em_updated_by_client := Some actor_client, em_updated_by := Some actor_id, em_updated_at := now\<rparr>"

record executor_maintenance_view =
  mv_admission_state :: executor_admission_state
  mv_version :: int
  mv_queued_execution_count :: nat
  mv_active_execution_count :: nat
  mv_cancel_requested_count :: nat
  mv_unresolved_cleanup_count :: nat
  mv_active_runtime_session_count :: nat
  mv_active_run :: "(uuid \<times> maintenance_run_action \<times> maintenance_run_status) option"
  mv_created_by_client :: "string option"
  mv_created_by :: "string option"
  mv_updated_by_client :: "string option"
  mv_updated_by :: "string option"
  mv_created_at :: datetime
  mv_updated_at :: datetime

definition VIEW_ACTIVE_STATUSES :: "execution_status set" where
  "VIEW_ACTIVE_STATUSES = {ES_RUNNING, ES_WAITING_FOR_OPERATION, ES_FINALIZING}"

definition UNRESOLVED_CLEANUP_STATUSES :: "runtime_session_cleanup_status set" where
  "UNRESOLVED_CLEANUP_STATUSES = {RC_PENDING, RC_FAILED}"

definition RUNNABLE_STATUSES :: "maintenance_run_status set" where
  "RUNNABLE_STATUSES = {MR_REQUESTED, MR_RUNNING}"

definition is_runnable :: "maintenance_run_orm \<Rightarrow> bool" where
  "is_runnable r \<longleftrightarrow> mr_status r \<in> RUNNABLE_STATUSES"

text \<open>\<open>order_by(created_at.desc()).limit(1)\<close>.\<close>

definition latest_runnable :: "maintenance_run_orm list \<Rightarrow> maintenance_run_orm option" where
  "latest_runnable runs =
     (case sort_key (\<lambda>r. - mr_created_at r) (filter is_runnable runs) of [] \<Rightarrow> None | r # _ \<Rightarrow> Some r)"

definition to_view :: "maintenance_db \<Rightarrow> executor_maintenance_orm \<Rightarrow> executor_maintenance_view" where
  "to_view m s =
     (let n = \<lambda>P. length (filter P (db_executions (md_db m))) in
      \<lparr>mv_admission_state = em_admission_state s, mv_version = em_version s,
       mv_queued_execution_count = n (\<lambda>e. ex_status e = ES_QUEUED),
       mv_active_execution_count = n (\<lambda>e. ex_status e \<in> VIEW_ACTIVE_STATUSES),
       mv_cancel_requested_count = n (\<lambda>e. ex_status e = ES_CANCEL_REQUESTED),
       mv_unresolved_cleanup_count = n (\<lambda>e. ex_runtime_session_cleanup_status e \<in> UNRESOLVED_CLEANUP_STATUSES),
       mv_active_runtime_session_count = n (\<lambda>e. ex_runtime_session_id e \<noteq> None),
       mv_active_run = map_option (\<lambda>r. (mr_id r, mr_action r, mr_status r)) (latest_runnable (md_runs m)),
       mv_created_by_client = em_created_by_client s, mv_created_by = em_created_by s,
       mv_updated_by_client = em_updated_by_client s, mv_updated_by = em_updated_by s,
       mv_created_at = em_created_at s, mv_updated_at = em_updated_at s\<rparr>)"

definition safe_to_shutdown :: "executor_maintenance_view \<Rightarrow> bool" where
  "safe_to_shutdown v \<longleftrightarrow>
     mv_active_execution_count v = 0 \<and> mv_cancel_requested_count v = 0 \<and> mv_unresolved_cleanup_count v = 0 \<and>
     mv_active_runtime_session_count v = 0"

definition GLOBAL_RECEIPT_SCOPE :: string where
  "GLOBAL_RECEIPT_SCOPE = ''''"

definition admission_command_type :: "set_executor_admission_command \<Rightarrow> string" where
  "admission_command_type c =
     ''executor_maintenance.'' @ (case ac_desired_state c of EA_ACTIVE \<Rightarrow> ''active'' | EA_DRAINING \<Rightarrow> ''draining'')"

definition admission_payload :: "set_executor_admission_command \<Rightarrow> json" where
  "admission_payload c =
     JObj [(''desired_state'', JStr (admission_value (ac_desired_state c))), (''actor_client'', JStr (ac_actor_client c)),
           (''actor_id'', JStr (ac_actor_id c))]"

definition set_state ::
    "(string \<Rightarrow> string) \<Rightarrow> datetime \<Rightarrow> uuid \<Rightarrow> set_executor_admission_command \<Rightarrow> maintenance_db \<Rightarrow>
       domain_error + (maintenance_db \<times> executor_maintenance_view)" where
  "set_state sha256 now receipt_id c m =
     (let fingerprint = canonical_sha256 sha256 (admission_payload c) in
      case scalar (\<lambda>r. cr_scope r = GLOBAL_RECEIPT_SCOPE \<and> cr_idempotency_key r = ac_idempotency_key c) (db_receipts (md_db m)) of
        Some receipt \<Rightarrow>
          if cr_command_type receipt \<noteq> admission_command_type c \<or> cr_request_fingerprint receipt \<noteq> fingerprint
          then Inl IdempotencyConflictError
          else (let (m1, s) = required_state now m in Inr (m1, to_view m1 s))
      | None \<Rightarrow>
          (let (m1, s) = required_state now m;
               s' = with_admission now (ac_actor_client c) (ac_actor_id c) (ac_desired_state c) s;
               m2 = write_state s' m1
           in case insert_command_receipt
                     \<lparr>cr_id = receipt_id, cr_scope = GLOBAL_RECEIPT_SCOPE, cr_idempotency_key = ac_idempotency_key c,
                      cr_command_type = admission_command_type c, cr_request_fingerprint = fingerprint,
                      cr_result = JObj [(''singleton_key'', JStr ''executor'')], cr_created_at = now\<rparr> (md_db m2) of
                None \<Rightarrow> Inl IntegrityError
              | Some d \<Rightarrow> Inr (m2\<lparr>md_db := d\<rparr>, to_view m2 s')))"

subsection \<open>Creating a Run\<close>

record create_maintenance_run_command =
  mc_idempotency_key :: string
  mc_action :: maintenance_run_action
  mc_actor_client :: string
  mc_actor_id :: string

record maintenance_run_counts =
  mk_total :: nat
  mk_pending :: nat
  mk_stop_requested :: nat
  mk_stopped :: nat
  mk_failed :: nat

definition counts_remaining :: "maintenance_run_counts \<Rightarrow> nat" where
  "counts_remaining k = mk_pending k + mk_stop_requested k"

definition run_counts :: "maintenance_db \<Rightarrow> uuid \<Rightarrow> maintenance_run_counts" where
  "run_counts m run_id =
     (let ts = filter (\<lambda>t. mg_maintenance_run_id t = run_id) (md_targets m);
          n = \<lambda>s. length (filter (\<lambda>t. mg_status t = s) ts)
      in \<lparr>mk_total = length ts, mk_pending = n MT_PENDING, mk_stop_requested = n MT_STOP_REQUESTED,
          mk_stopped = n MT_STOPPED, mk_failed = n MT_FAILED\<rparr>)"

record maintenance_run_view =
  mw_id :: uuid
  mw_action :: maintenance_run_action
  mw_status :: maintenance_run_status
  mw_counts :: maintenance_run_counts
  mw_error_message :: "string option"
  mw_created_by_client :: "string option"
  mw_created_by :: "string option"
  mw_updated_by_client :: "string option"
  mw_updated_by :: "string option"
  mw_created_at :: datetime
  mw_updated_at :: datetime
  mw_started_at :: "datetime option"
  mw_finished_at :: "datetime option"

definition run_view :: "maintenance_db \<Rightarrow> maintenance_run_orm \<Rightarrow> maintenance_run_view" where
  "run_view m r =
     \<lparr>mw_id = mr_id r, mw_action = mr_action r, mw_status = mr_status r, mw_counts = run_counts m (mr_id r),
      mw_error_message = mr_error_message r, mw_created_by_client = mr_created_by_client r, mw_created_by = mr_created_by r,
      mw_updated_by_client = mr_updated_by_client r, mw_updated_by = mr_updated_by r, mw_created_at = mr_created_at r,
      mw_updated_at = mr_updated_at r, mw_started_at = mr_started_at r, mw_finished_at = mr_finished_at r\<rparr>"

definition required_run :: "maintenance_db \<Rightarrow> uuid \<Rightarrow> domain_error + maintenance_run_orm" where
  "required_run m run_id =
     (case scalar (\<lambda>r. mr_id r = run_id) (md_runs m) of
        None \<Rightarrow> Inl MaintenanceRunNotFoundError
      | Some r \<Rightarrow> Inr r)"

definition get_run :: "maintenance_db \<Rightarrow> uuid \<Rightarrow> domain_error + maintenance_run_view" where
  "get_run m run_id = map_sum id (run_view m) (required_run m run_id)"

definition ACTIVE_EXECUTION_STATUSES :: "execution_status set" where
  "ACTIVE_EXECUTION_STATUSES = {ES_RUNNING, ES_WAITING_FOR_OPERATION, ES_FINALIZING, ES_CANCEL_REQUESTED}"

definition selected_for_stop :: "execution_orm \<Rightarrow> bool" where
  "selected_for_stop e \<longleftrightarrow> ex_status e \<in> ACTIVE_EXECUTION_STATUSES \<or> ex_runtime_session_id e \<noteq> None"

definition select_targets :: "db \<Rightarrow> execution_orm list" where
  "select_targets d = sort_key (\<lambda>e. (ex_created_at e, ex_id e)) (filter selected_for_stop (db_executions d))"

definition run_payload :: "create_maintenance_run_command \<Rightarrow> json" where
  "run_payload c =
     JObj [(''action'', JStr ''STOP_ACTIVE_EXECUTIONS''), (''actor_client'', JStr (mc_actor_client c)),
           (''actor_id'', JStr (mc_actor_id c))]"

definition new_run ::
    "datetime \<Rightarrow> uuid \<Rightarrow> string \<Rightarrow> create_maintenance_run_command \<Rightarrow> bool \<Rightarrow> maintenance_run_orm" where
  "new_run now run_id fingerprint c any_selected =
     \<lparr>mr_id = run_id, mr_idempotency_key = mc_idempotency_key c, mr_request_fingerprint = fingerprint,
      mr_action = mc_action c, mr_status = (if any_selected then MR_REQUESTED else MR_SUCCEEDED),
      mr_lease_owner = None, mr_lease_expires_at = None, mr_heartbeat_at = None, mr_fencing_token = 0,
      mr_error_message = None, mr_created_by_client = Some (mc_actor_client c), mr_created_by = Some (mc_actor_id c),
      mr_updated_by_client = Some (mc_actor_client c), mr_updated_by = Some (mc_actor_id c), mr_created_at = now,
      mr_updated_at = now, mr_started_at = (if any_selected then None else Some now),
      mr_finished_at = (if any_selected then None else Some now)\<rparr>"

definition new_target ::
    "datetime \<Rightarrow> uuid \<Rightarrow> create_maintenance_run_command \<Rightarrow> uuid \<Rightarrow> execution_orm \<Rightarrow> maintenance_run_target_orm" where
  "new_target now run_id c target_id e =
     \<lparr>mg_id = target_id, mg_maintenance_run_id = run_id, mg_execution_id = ex_id e,
      mg_selected_execution_status = ex_status e, mg_status = MT_PENDING, mg_error_message = None,
      mg_stop_requested_at = None, mg_completed_at = None, mg_created_by_client = Some (mc_actor_client c),
      mg_created_by = Some (mc_actor_id c), mg_updated_by_client = Some (mc_actor_client c),
      mg_updated_by = Some (mc_actor_id c), mg_created_at = now, mg_updated_at = now\<rparr>"

text \<open>The keys of the two tables: a row with a key that is taken is an integrity error.\<close>

definition insert_run ::
    "maintenance_run_orm \<Rightarrow> maintenance_run_target_orm list \<Rightarrow> maintenance_db \<Rightarrow> maintenance_db option" where
  "insert_run r ts m =
     (if list_ex (\<lambda>x. mr_id x = mr_id r \<or> mr_idempotency_key x = mr_idempotency_key r) (md_runs m) \<or>
         \<not> distinct (map mg_id (md_targets m @ ts)) \<or>
         \<not> distinct (map (\<lambda>t. (mg_maintenance_run_id t, mg_execution_id t)) (md_targets m @ ts))
      then None else Some (m\<lparr>md_runs := md_runs m @ [r], md_targets := md_targets m @ ts\<rparr>))"

definition create_run ::
    "(string \<Rightarrow> string) \<Rightarrow> datetime \<Rightarrow> uuid \<Rightarrow> (nat \<Rightarrow> uuid) \<Rightarrow> create_maintenance_run_command \<Rightarrow> maintenance_db \<Rightarrow>
       domain_error + (maintenance_db \<times> maintenance_run_view)" where
  "create_run sha256 now run_id target_id c m =
     (let fingerprint = canonical_sha256 sha256 (run_payload c) in
      case scalar (\<lambda>r. mr_idempotency_key r = mc_idempotency_key c) (md_runs m) of
        Some repeated \<Rightarrow>
          if mr_request_fingerprint repeated \<noteq> fingerprint then Inl IdempotencyConflictError
          else Inr (m, run_view m repeated)
      | None \<Rightarrow>
          (let (m1, s) = required_state now m in
           if list_ex is_runnable (md_runs m1) then Inl MaintenanceRunConflictError
           else
             (let m2 = write_state (with_admission now (mc_actor_client c) (mc_actor_id c) EA_DRAINING s) m1;
                  selected = select_targets (md_db m2);
                  run = new_run now run_id fingerprint c (selected \<noteq> []);
                  targets = map (\<lambda>(n, e). new_target now run_id c (target_id n) e) (enumerate 0 selected)
              in case insert_run run targets m2 of
                   None \<Rightarrow> Inl IntegrityError
                 | Some m3 \<Rightarrow> Inr (m3, run_view m3 run))))"

subsection \<open>Reconciling a Run\<close>

record maintenance_run_lease =
  ml_run_id :: uuid
  ml_owner :: string
  ml_fencing_token :: int
  ml_actor_client :: "string option"
  ml_actor_id :: "string option"

definition PROCESS_BATCH_SIZE :: nat where
  "PROCESS_BATCH_SIZE = 50"

definition update_run :: "uuid \<Rightarrow> (maintenance_run_orm \<Rightarrow> maintenance_run_orm) \<Rightarrow> maintenance_db \<Rightarrow> maintenance_db" where
  "update_run i f m = m\<lparr>md_runs := update_where (\<lambda>r. mr_id r = i) f (md_runs m)\<rparr>"

definition update_target ::
    "uuid \<Rightarrow> (maintenance_run_target_orm \<Rightarrow> maintenance_run_target_orm) \<Rightarrow> maintenance_db \<Rightarrow> maintenance_db" where
  "update_target i f m = m\<lparr>md_targets := update_where (\<lambda>t. mg_id t = i) f (md_targets m)\<rparr>"

definition claimable_run :: "datetime \<Rightarrow> string \<Rightarrow> maintenance_run_orm \<Rightarrow> bool" where
  "claimable_run now owner r \<longleftrightarrow>
     is_runnable r \<and>
     (mr_lease_owner r = None \<or> mr_lease_owner r = Some owner \<or>
      (case mr_lease_expires_at r of None \<Rightarrow> True | Some t \<Rightarrow> t \<le> now))"

definition claimed_run :: "int \<Rightarrow> datetime \<Rightarrow> string \<Rightarrow> maintenance_run_orm \<Rightarrow> maintenance_run_orm" where
  "claimed_run lease_seconds now owner r =
     (let active_owner = (mr_lease_owner r \<noteq> None \<and> (case mr_lease_expires_at r of None \<Rightarrow> False | Some t \<Rightarrow> now < t)) in
      r\<lparr>mr_fencing_token := (if active_owner then mr_fencing_token r else mr_fencing_token r + 1),
        mr_lease_owner := Some owner, mr_lease_expires_at := Some (now + seconds lease_seconds), mr_heartbeat_at := Some now,
        mr_status := MR_RUNNING, mr_started_at := Some (opt_or (mr_started_at r) now), mr_updated_at := now\<rparr>)"

text \<open>Rows another worker has locked are skipped.\<close>

definition claim_run ::
    "int \<Rightarrow> datetime \<Rightarrow> uuid set \<Rightarrow> string \<Rightarrow> maintenance_db \<Rightarrow> (maintenance_db \<times> maintenance_run_lease) option" where
  "claim_run lease_seconds now locked owner m =
     (case filter (\<lambda>r. mr_id r \<notin> locked) (sort_key mr_created_at (filter (claimable_run now owner) (md_runs m))) of
        [] \<Rightarrow> None
      | r # _ \<Rightarrow>
          (let r' = claimed_run lease_seconds now owner r in
           Some (update_run (mr_id r) (\<lambda>_. r') m,
             \<lparr>ml_run_id = mr_id r, ml_owner = owner, ml_fencing_token = mr_fencing_token r',
              ml_actor_client = mr_created_by_client r, ml_actor_id = mr_created_by r\<rparr>)))"

definition owned_run :: "datetime \<Rightarrow> maintenance_run_lease \<Rightarrow> maintenance_db \<Rightarrow> maintenance_run_orm option" where
  "owned_run now l m =
     scalar (\<lambda>r. mr_id r = ml_run_id l \<and> mr_status r = MR_RUNNING \<and> mr_lease_owner r = Some (ml_owner l) \<and>
       mr_fencing_token r = ml_fencing_token l \<and> (case mr_lease_expires_at r of None \<Rightarrow> False | Some t \<Rightarrow> now < t)) (md_runs m)"

definition pending_target_ids :: "maintenance_db \<Rightarrow> uuid \<Rightarrow> (uuid \<times> uuid) list" where
  "pending_target_ids m run_id =
     map (\<lambda>t. (mg_id t, mg_execution_id t))
       (take PROCESS_BATCH_SIZE (sort_key mg_created_at
         (filter (\<lambda>t. mg_maintenance_run_id t = run_id \<and> mg_status t = MT_PENDING) (md_targets m))))"

definition renewed_run :: "int \<Rightarrow> datetime \<Rightarrow> maintenance_run_orm \<Rightarrow> maintenance_run_orm" where
  "renewed_run lease_seconds now r =
     r\<lparr>mr_lease_expires_at := Some (now + seconds lease_seconds), mr_heartbeat_at := Some now, mr_updated_at := now\<rparr>"

definition renew_run :: "int \<Rightarrow> datetime \<Rightarrow> maintenance_run_lease \<Rightarrow> maintenance_db \<Rightarrow> maintenance_db \<times> bool" where
  "renew_run lease_seconds now l m =
     (case owned_run now l m of
        None \<Rightarrow> (m, False)
      | Some r \<Rightarrow> (update_run (mr_id r) (renewed_run lease_seconds now) m, True))"

definition mark_stop_requested :: "datetime \<Rightarrow> maintenance_run_lease \<Rightarrow> uuid \<Rightarrow> maintenance_db \<Rightarrow> maintenance_db" where
  "mark_stop_requested now l target_id m =
     (case owned_run now l m of
        None \<Rightarrow> m
      | Some _ \<Rightarrow>
          (case scalar (\<lambda>t. mg_id t = target_id) (md_targets m) of
             None \<Rightarrow> m
           | Some t \<Rightarrow>
               if mg_status t \<noteq> MT_PENDING then m
               else update_target target_id (\<lambda>t. t\<lparr>mg_status := MT_STOP_REQUESTED, mg_stop_requested_at := Some now,
                      mg_error_message := None, mg_updated_at := now\<rparr>) m))"

definition record_target_error ::
    "datetime \<Rightarrow> maintenance_run_lease \<Rightarrow> uuid \<Rightarrow> string \<Rightarrow> maintenance_db \<Rightarrow> maintenance_db" where
  "record_target_error now l target_id err m =
     (case owned_run now l m of
        None \<Rightarrow> m
      | Some _ \<Rightarrow> update_target target_id (\<lambda>t. t\<lparr>mg_error_message := Some (take 2000 err), mg_updated_at := now\<rparr>) m)"

definition execution_stopped :: "execution_orm \<Rightarrow> bool" where
  "execution_stopped e \<longleftrightarrow>
     execution_status_is_terminal (ex_status e) \<and> ex_runtime_session_id e = None \<and>
     ex_runtime_session_cleanup_status e \<notin> UNRESOLVED_CLEANUP_STATUSES"

definition refreshed_target :: "datetime \<Rightarrow> db \<Rightarrow> uuid \<Rightarrow> maintenance_run_target_orm \<Rightarrow> maintenance_run_target_orm" where
  "refreshed_target now d run_id t =
     (if mg_maintenance_run_id t = run_id \<and> mg_status t \<in> {MT_PENDING, MT_STOP_REQUESTED} then
        (case execution_row d (mg_execution_id t) of
           None \<Rightarrow> t
         | Some e \<Rightarrow>
             if execution_stopped e then
               t\<lparr>mg_status := MT_STOPPED, mg_completed_at := Some now, mg_error_message := None, mg_updated_at := now\<rparr>
             else if ex_status e = ES_CANCEL_REQUESTED then
               t\<lparr>mg_status := MT_STOP_REQUESTED, mg_stop_requested_at := Some (opt_or (mg_stop_requested_at t) now), mg_updated_at := now\<rparr>
             else t)
      else t)"

definition finalized_run :: "int \<Rightarrow> datetime \<Rightarrow> maintenance_run_counts \<Rightarrow> maintenance_run_orm \<Rightarrow> maintenance_run_orm" where
  "finalized_run lease_seconds now k r =
     (if counts_remaining k = 0 then
        r\<lparr>mr_status := (if 0 < mk_failed k then MR_FAILED else MR_SUCCEEDED), mr_finished_at := Some now, mr_lease_owner := None,
          mr_lease_expires_at := None, mr_heartbeat_at := None, mr_updated_at := now\<rparr>
      else r\<lparr>mr_lease_expires_at := Some (now + seconds lease_seconds), mr_heartbeat_at := Some now, mr_updated_at := now\<rparr>)"

definition refresh_and_finalize :: "int \<Rightarrow> datetime \<Rightarrow> maintenance_run_lease \<Rightarrow> maintenance_db \<Rightarrow> maintenance_db" where
  "refresh_and_finalize lease_seconds now l m =
     (case owned_run now l m of
        None \<Rightarrow> m
      | Some r \<Rightarrow>
          (let m1 = m\<lparr>md_targets := map (refreshed_target now (md_db m) (ml_run_id l)) (md_targets m)\<rparr>
           in update_run (mr_id r) (finalized_run lease_seconds now (run_counts m1 (ml_run_id l))) m1))"

text \<open>
  One pass over a Run, with no other transaction in between; the clock is read by every transaction. The loop
  answers whether it reached its end or lost the lease.
\<close>

definition stop_command :: "maintenance_run_lease \<Rightarrow> uuid \<Rightarrow> cancel_command" where
  "stop_command l execution_id =
     \<lparr>cc_execution_id = execution_id,
      cc_idempotency_key = ''maintenance-run:'' @ uuid_str (ml_run_id l) @ '':'' @ uuid_str execution_id,
      cc_reason = Some (''Stopped by Executor Maintenance Run '' @ uuid_str (ml_run_id l) @ ''.''),
      cc_actor_client = ml_actor_client l, cc_actor_id = ml_actor_id l\<rparr>"

definition stop_target ::
    "(domain_error \<Rightarrow> string) \<Rightarrow> (nat \<Rightarrow> datetime) \<Rightarrow> nat \<Rightarrow> maintenance_run_lease \<Rightarrow> uuid \<times> uuid \<Rightarrow> maintenance_db \<Rightarrow> maintenance_db" where
  "stop_target str_of clock k l target m =
     (let d = md_db m in
      case cancel_execution (clock k) d d d (stop_command l (snd target)) of
        Inr (Committed d' _) \<Rightarrow> mark_stop_requested (clock (Suc k)) l (fst target) (m\<lparr>md_db := d'\<rparr>)
      | Inr (Replayed _) \<Rightarrow> mark_stop_requested (clock (Suc k)) l (fst target) m
      | Inl err \<Rightarrow>
          if err \<in> {ExecutionNotFoundError, InvalidStateTransitionError}
          then mark_stop_requested (clock (Suc k)) l (fst target) m
          else record_target_error (clock (Suc k)) l (fst target) (str_of err) m)"

fun stop_targets ::
    "(domain_error \<Rightarrow> string) \<Rightarrow> int \<Rightarrow> (nat \<Rightarrow> datetime) \<Rightarrow> nat \<Rightarrow> maintenance_run_lease \<Rightarrow> (uuid \<times> uuid) list \<Rightarrow> maintenance_db \<Rightarrow>
       maintenance_db \<times> bool" where
  "stop_targets str_of lease_seconds clock k l [] m = (m, True)"
| "stop_targets str_of lease_seconds clock k l (target # targets) m =
     (case renew_run lease_seconds (clock k) l m of
        (m1, False) \<Rightarrow> (m1, False)
      | (m1, True) \<Rightarrow>
          stop_targets str_of lease_seconds clock (k + 3) l targets (stop_target str_of clock (Suc k) l target m1))"

definition reconcile_once ::
    "(domain_error \<Rightarrow> string) \<Rightarrow> int \<Rightarrow> (nat \<Rightarrow> datetime) \<Rightarrow> uuid set \<Rightarrow> string \<Rightarrow> maintenance_db \<Rightarrow> maintenance_db \<times> bool" where
  "reconcile_once str_of lease_seconds clock locked owner m =
     (case claim_run lease_seconds (clock 0) locked owner m of
        None \<Rightarrow> (m, False)
      | Some (m1, l) \<Rightarrow>
          (let targets = pending_target_ids m1 (ml_run_id l) in
           case stop_targets str_of lease_seconds clock 1 l targets m1 of
             (m2, False) \<Rightarrow> (m2, True)
           | (m2, True) \<Rightarrow> (refresh_and_finalize lease_seconds (clock (3 * length targets + 1)) l m2, True)))"

subsection \<open>Every interleaving\<close>

inductive maintenance_step :: "maintenance_db \<Rightarrow> maintenance_db \<Rightarrow> bool" where
  state_set: "set_state sha now i c m = Inr (m', v) \<Longrightarrow> maintenance_step m m'"
| run_created: "create_run sha now i ti rc m = Inr (m', w) \<Longrightarrow> maintenance_step m m'"
| run_claimed: "claim_run ls now locked owner m = Some (m', l) \<Longrightarrow> maintenance_step m m'"
| run_renewed: "renew_run ls now l m = (m', b) \<Longrightarrow> maintenance_step m m'"
| stop_marked: "maintenance_step m (mark_stop_requested now l i m)"
| error_recorded: "maintenance_step m (record_target_error now l i err m)"
| run_refreshed: "maintenance_step m (refresh_and_finalize ls now l m)"
| executions_changed: "db_admission d = db_admission (md_db m) \<Longrightarrow> maintenance_step m (m\<lparr>md_db := d\<rparr>)"

definition empty_maintenance :: maintenance_db where
  "empty_maintenance = \<lparr>md_db = empty_db, md_state = None, md_runs = [], md_targets = []\<rparr>"

definition maintenance_reachable :: "maintenance_db \<Rightarrow> bool" where
  "maintenance_reachable m \<longleftrightarrow> maintenance_step\<^sup>*\<^sup>* empty_maintenance m"

definition run_done :: "maintenance_db \<Rightarrow> maintenance_run_orm \<Rightarrow> bool" where
  "run_done m r \<longleftrightarrow>
     mr_status r = MR_SUCCEEDED \<and> (\<forall>t\<in>set (md_targets m). mg_maintenance_run_id t = mr_id r \<longrightarrow> mg_status t = MT_STOPPED)"

definition maintenance_inv :: "maintenance_db \<Rightarrow> bool" where
  "maintenance_inv m \<longleftrightarrow>
     distinct (map mr_id (md_runs m)) \<and> length (filter is_runnable (md_runs m)) \<le> 1 \<and>
     (\<forall>t\<in>set (md_targets m). mg_maintenance_run_id t \<in> mr_id ` set (md_runs m)) \<and>
     (\<forall>r\<in>set (md_runs m). \<not> is_runnable r \<longrightarrow> run_done m r) \<and>
     (\<forall>t\<in>set (md_targets m). mg_status t \<noteq> MT_FAILED) \<and>
     db_admission (md_db m) = map_option em_admission_state (md_state m) \<and> distinct (map mg_id (md_targets m))"

lemma maintenance_invD:
  assumes "maintenance_inv m"
  shows "distinct (map mr_id (md_runs m))" and "length (filter is_runnable (md_runs m)) \<le> 1"
    and "\<forall>t\<in>set (md_targets m). mg_maintenance_run_id t \<in> mr_id ` set (md_runs m)"
    and "\<forall>r\<in>set (md_runs m). \<not> is_runnable r \<longrightarrow> run_done m r" and "\<forall>t\<in>set (md_targets m). mg_status t \<noteq> MT_FAILED"
    and "db_admission (md_db m) = map_option em_admission_state (md_state m)" and "distinct (map mg_id (md_targets m))"
  using assms by (simp_all add: maintenance_inv_def)

text \<open>Steps that touch the admission state and the receipts only.\<close>

lemma maintenance_inv_cong:
  assumes "maintenance_inv m" and "md_runs m' = md_runs m" and "md_targets m' = md_targets m"
    and "db_admission (md_db m') = map_option em_admission_state (md_state m')"
  shows "maintenance_inv m'"
  using assms unfolding maintenance_inv_def run_done_def by simp

lemma required_state_frame:
  assumes "required_state now m = (m1, s)" and "maintenance_inv m"
  shows "md_runs m1 = md_runs m" and "md_targets m1 = md_targets m" and "md_state m1 = Some s" and "maintenance_inv m1"
    and "db_executions (md_db m1) = db_executions (md_db m)"
proof -
  have "md_runs m1 = md_runs m \<and> md_targets m1 = md_targets m \<and> md_state m1 = Some s \<and>
      db_admission (md_db m1) = map_option em_admission_state (md_state m1) \<and> db_executions (md_db m1) = db_executions (md_db m)"
    using assms(1) maintenance_invD(6) [OF assms(2)]
    by (auto simp: required_state_def write_state_def Let_def split: option.splits)
  then show "md_runs m1 = md_runs m" "md_targets m1 = md_targets m" "md_state m1 = Some s" "maintenance_inv m1"
    "db_executions (md_db m1) = db_executions (md_db m)"
    using maintenance_inv_cong [OF assms(2)] by simp_all
qed

lemma set_state_inv:
  assumes "maintenance_inv m" and "set_state sha now i c m = Inr (m', v)"
  shows "maintenance_inv m'"
proof -
  obtain m1 s where m1: "required_state now m = (m1, s)" by (cases "required_state now m")
  note f = required_state_frame [OF m1 assms(1)]
  consider "m' = m1" | s' r d where "insert_command_receipt r (md_db (write_state s' m1)) = Some d" "m' = (write_state s' m1)\<lparr>md_db := d\<rparr>"
  proof (cases "scalar (\<lambda>r. cr_scope r = GLOBAL_RECEIPT_SCOPE \<and> cr_idempotency_key r = ac_idempotency_key c) (db_receipts (md_db m))")
    case None
    then show ?thesis using assms(2) that(2) unfolding set_state_def Let_def m1 by (force split: option.splits)
  next
    case (Some receipt)
    then show ?thesis using assms(2) that(1) unfolding set_state_def Let_def m1 by (simp split: if_split_asm)
  qed
  then show ?thesis
  proof cases
    case 1
    then show ?thesis using f(4) by simp
  next
    case 2
    then show ?thesis using insert_receipt_SomeD(1) [OF 2(1)] f
      by (intro maintenance_inv_cong [OF f(4)]) (simp_all add: write_state_def)
  qed
qed

lemma map_enumerate_snd: "map (\<lambda>(n, e). f e) (enumerate k xs) = map f xs"
  by (induction xs arbitrary: k) simp_all

text \<open>What a Run captures when it is created.\<close>

lemma create_run_fresh:
  assumes inv: "maintenance_inv m" and c: "create_run sha now i ti c m = Inr (m', w)"
    and new: "scalar (\<lambda>r. mr_idempotency_key r = mc_idempotency_key c) (md_runs m) = None"
  obtains r ts where "md_runs m' = md_runs m @ [r]" and "md_targets m' = md_targets m @ ts" and "mr_id r = i"
    and "i \<notin> mr_id ` set (md_runs m)" and "\<not> list_ex is_runnable (md_runs m)"
    and "mr_status r = (if ts = [] then MR_SUCCEEDED else MR_REQUESTED)"
    and "map mg_execution_id ts = map ex_id (select_targets (md_db m))"
    and "\<forall>t\<in>set ts. mg_maintenance_run_id t = i \<and> mg_status t = MT_PENDING"
    and "db_admission (md_db m') = Some EA_DRAINING" and "map_option em_admission_state (md_state m') = Some EA_DRAINING"
    and "distinct (map mg_id (md_targets m'))"
proof -
  obtain m1 s where m1: "required_state now m = (m1, s)" by (cases "required_state now m")
  note f = required_state_frame [OF m1 inv]
  let ?m2 = "write_state (with_admission now (mc_actor_client c) (mc_actor_id c) EA_DRAINING s) m1"
  let ?sel = "select_targets (md_db ?m2)"
  let ?ts = "map (\<lambda>(n, e). new_target now i c (ti n) e) (enumerate 0 ?sel)"
  obtain r where r: "r = new_run now i (canonical_sha256 sha (run_payload c)) c (?sel \<noteq> [])" by blast
  have ins: "insert_run r ?ts ?m2 = Some m'" and no: "\<not> list_ex is_runnable (md_runs m)"
    using c new m1 f(1) unfolding r create_run_def by (auto simp: Let_def split: if_split_asm option.splits)
  have m': "m' = ?m2\<lparr>md_runs := md_runs ?m2 @ [r], md_targets := md_targets ?m2 @ ?ts\<rparr>"
    and fresh: "\<not> list_ex (\<lambda>x. mr_id x = mr_id r \<or> mr_idempotency_key x = mr_idempotency_key r) (md_runs ?m2)"
    using ins by (auto simp: insert_run_def split: if_split_asm)
  have adm: "em_admission_state (with_admission now a b EA_DRAINING s) = EA_DRAINING" for a b
    by (simp add: with_admission_def)
  have sel: "?sel = select_targets (md_db m)" using f(5) by (simp add: select_targets_def write_state_def)
  have ids: "map mg_execution_id ?ts = map ex_id ?sel"
  proof -
    have "map mg_execution_id ?ts = map (\<lambda>(n, e). ex_id e) (enumerate 0 ?sel)"
      by (simp add: case_prod_beta new_target_def)
    then show ?thesis by (simp only: map_enumerate_snd)
  qed
  show ?thesis
  proof (rule that [of r ?ts])
    show "md_runs m' = md_runs m @ [r]" "md_targets m' = md_targets m @ ?ts" using f(1,2) by (simp_all add: m' write_state_def)
    show "mr_id r = i" by (simp add: r new_run_def)
    then show "i \<notin> mr_id ` set (md_runs m)" using fresh f(1) by (auto simp: write_state_def list_ex_iff)
    show "\<not> list_ex is_runnable (md_runs m)" by (rule no)
    show "mr_status r = (if ?ts = [] then MR_SUCCEEDED else MR_REQUESTED)"
      by (simp add: r new_run_def) (metis length_0_conv length_enumerate)
    show "map mg_execution_id ?ts = map ex_id (select_targets (md_db m))" using ids sel by simp
    show "\<forall>t\<in>set ?ts. mg_maintenance_run_id t = i \<and> mg_status t = MT_PENDING" by (auto simp: new_target_def)
    show "db_admission (md_db m') = Some EA_DRAINING" "map_option em_admission_state (md_state m') = Some EA_DRAINING"
      using adm by (simp_all add: m' write_state_def)
    show "distinct (map mg_id (md_targets m'))" using ins by (auto simp: m' insert_run_def split: if_split_asm)
  qed
qed

lemma create_run_inv:
  assumes inv: "maintenance_inv m" and c: "create_run sha now i ti c m = Inr (m', w)"
  shows "maintenance_inv m'"
proof (cases "scalar (\<lambda>r. mr_idempotency_key r = mc_idempotency_key c) (md_runs m)")
  case (Some r)
  then show ?thesis using inv c by (simp add: create_run_def Let_def split: if_split_asm)
next
  case None
  obtain r ts where r: "md_runs m' = md_runs m @ [r]" "md_targets m' = md_targets m @ ts" "mr_id r = i"
      "i \<notin> mr_id ` set (md_runs m)" "\<not> list_ex is_runnable (md_runs m)" "mr_status r = (if ts = [] then MR_SUCCEEDED else MR_REQUESTED)"
      "\<forall>t\<in>set ts. mg_maintenance_run_id t = i \<and> mg_status t = MT_PENDING"
    and adm: "db_admission (md_db m') = Some EA_DRAINING" "map_option em_admission_state (md_state m') = Some EA_DRAINING"
      "distinct (map mg_id (md_targets m'))"
    by (rule create_run_fresh [OF inv c None])
  have old: "mg_maintenance_run_id t \<noteq> i" if "t \<in> set (md_targets m)" for t
    using maintenance_invD(3) [OF inv] that r(4) by auto
  have none: "filter is_runnable (md_runs m) = []" using r(5) by (simp add: filter_empty_conv list_ex_iff)
  have "run_done m' x" if "x \<in> set (md_runs m)" "\<not> is_runnable x" for x
  proof -
    have "run_done m x" using that maintenance_invD(4) [OF inv] by blast
    moreover have "mr_id x \<noteq> i" using that(1) r(4) by auto
    ultimately show ?thesis using r(7) by (auto simp: run_done_def r(2))
  qed
  moreover have "run_done m' r" if "\<not> is_runnable r"
  proof -
    have "ts = []" using that r(6) by (auto simp: is_runnable_def RUNNABLE_STATUSES_def split: if_split_asm)
    then show ?thesis using r(6) old by (auto simp: run_done_def r(2,3))
  qed
  moreover have "distinct (map mr_id (md_runs m'))" using maintenance_invD(1) [OF inv] r(3,4) by (simp add: r(1))
  ultimately show ?thesis
    using maintenance_invD(3,5) [OF inv] r(3,4,7) none adm by (auto simp: maintenance_inv_def r(1,2) simp del: map_append)
qed

text \<open>Updating a Run and its targets without ending another one.\<close>

lemma update_run_inv:
  assumes inv: "maintenance_inv m" and f: "\<And>r. r \<in> set (md_runs m) \<Longrightarrow> mr_id r = i \<Longrightarrow> mr_id (f r) = i \<and> is_runnable r \<and> is_runnable (f r)"
  shows "maintenance_inv (update_run i f m)"
proof -
  let ?runs = "update_where (\<lambda>r. mr_id r = i) f (md_runs m)"
  have runs: "?runs = map (\<lambda>r. if mr_id r = i then f r else r) (md_runs m)" by (simp add: update_where_def)
  have ids: "map mr_id ?runs = map mr_id (md_runs m)" unfolding runs using f by (auto intro: map_cong)
  have len: "length (filter is_runnable ?runs) = length (filter is_runnable (md_runs m))"
    unfolding runs filter_map length_map using f by (intro arg_cong [where f = length] filter_cong) auto
  have "run_done (update_run i f m) r" if "r \<in> set ?runs" "\<not> is_runnable r" for r
  proof -
    have "r \<in> set (md_runs m)" using that f unfolding runs by (auto split: if_split_asm)
    then show ?thesis using that(2) maintenance_invD(4) [OF inv] by (simp add: run_done_def update_run_def)
  qed
  moreover have "mr_id ` set ?runs = mr_id ` set (md_runs m)" using ids by (metis set_map)
  ultimately show ?thesis
    using maintenance_invD [OF inv] ids len by (simp add: maintenance_inv_def update_run_def)
qed

lemma update_target_inv:
  assumes inv: "maintenance_inv m"
    and f: "\<And>t. t \<in> set (md_targets m) \<Longrightarrow> mg_id t = i \<Longrightarrow> mg_id (f t) = i \<and> mg_maintenance_run_id (f t) = mg_maintenance_run_id t \<and>
      mg_status (f t) \<noteq> MT_FAILED \<and> (mg_status t = MT_STOPPED \<longrightarrow> mg_status (f t) = MT_STOPPED)"
  shows "maintenance_inv (update_target i f m)"
proof -
  let ?ts = "update_where (\<lambda>t. mg_id t = i) f (md_targets m)"
  have each: "\<exists>t0\<in>set (md_targets m). mg_maintenance_run_id t = mg_maintenance_run_id t0 \<and> mg_status t \<noteq> MT_FAILED \<and>
      (mg_status t0 = MT_STOPPED \<longrightarrow> mg_status t = MT_STOPPED)" if "t \<in> set ?ts" for t
    using that f maintenance_invD(5) [OF inv] by (fastforce simp: update_where_def split: if_split_asm)
  have "run_done (update_target i f m) r" if "run_done m r" for r
    using that each by (fastforce simp: run_done_def update_target_def)
  moreover have "\<forall>t\<in>set ?ts. mg_maintenance_run_id t \<in> mr_id ` set (md_runs m)"
    using each maintenance_invD(3) [OF inv] by metis
  moreover have "\<forall>t\<in>set ?ts. mg_status t \<noteq> MT_FAILED" using each by blast
  moreover have "map mg_id ?ts = map mg_id (md_targets m)" using f by (auto simp: update_where_def)
  ultimately show ?thesis using maintenance_invD [OF inv] by (simp add: maintenance_inv_def update_target_def)
qed

lemma owned_runD:
  assumes "owned_run now l m = Some r"
  shows "r \<in> set (md_runs m)" and "mr_id r = ml_run_id l" and "mr_status r = MR_RUNNING" and "mr_fencing_token r = ml_fencing_token l"
  using scalar_SomeD [OF assms [unfolded owned_run_def]] by simp_all

lemma run_unique: "maintenance_inv m \<Longrightarrow> r \<in> set (md_runs m) \<Longrightarrow> r' \<in> set (md_runs m) \<Longrightarrow> mr_id r' = mr_id r \<Longrightarrow> r' = r"
  using maintenance_invD(1) [of m] by (auto simp: distinct_map inj_on_def)

lemma claim_run_inv:
  assumes inv: "maintenance_inv m" and c: "claim_run ls now locked owner m = Some (m', l)"
  shows "maintenance_inv m'"
proof -
  obtain r rest where r: "filter (\<lambda>r. mr_id r \<notin> locked) (sort_key mr_created_at (filter (claimable_run now owner) (md_runs m))) = r # rest"
      "m' = update_run (mr_id r) (\<lambda>_. claimed_run ls now owner r) m"
    using c by (auto simp: claim_run_def Let_def split: list.splits)
  then have "r \<in> set (filter (\<lambda>r. mr_id r \<notin> locked) (sort_key mr_created_at (filter (claimable_run now owner) (md_runs m))))" by simp
  then have mem: "r \<in> set (md_runs m)" "is_runnable r" by (auto simp: claimable_run_def)
  have "is_runnable (claimed_run ls now owner r)" "mr_id (claimed_run ls now owner r) = mr_id r"
    by (simp_all add: claimed_run_def Let_def is_runnable_def RUNNABLE_STATUSES_def)
  then show ?thesis unfolding r(2) using mem run_unique [OF inv mem(1)]
    by (intro update_run_inv [OF inv]) auto
qed

lemma renew_run_inv:
  assumes inv: "maintenance_inv m" and r: "renew_run ls now l m = (m', b)"
  shows "maintenance_inv m'"
proof (cases "owned_run now l m")
  case (Some x)
  note o = owned_runD [OF Some]
  have "maintenance_inv (update_run (mr_id x) (renewed_run ls now) m)"
  proof (rule update_run_inv [OF inv])
    fix y assume "y \<in> set (md_runs m)" "mr_id y = mr_id x"
    then have "y = x" by (rule run_unique [OF inv o(1)])
    then show "mr_id (renewed_run ls now y) = mr_id x \<and> is_runnable y \<and> is_runnable (renewed_run ls now y)"
      using o(3) by (simp add: renewed_run_def is_runnable_def RUNNABLE_STATUSES_def)
  qed
  then show ?thesis using r Some by (simp add: renew_run_def)
qed (use inv r in \<open>simp add: renew_run_def\<close>)

lemma mark_stop_requested_inv:
  assumes inv: "maintenance_inv m"
  shows "maintenance_inv (mark_stop_requested now l i m)"
proof (cases "owned_run now l m = None \<or> (case scalar (\<lambda>t. mg_id t = i) (md_targets m) of None \<Rightarrow> True | Some t \<Rightarrow> mg_status t \<noteq> MT_PENDING)")
  case True
  then show ?thesis using inv by (auto simp: mark_stop_requested_def split: option.splits)
next
  case False
  then obtain r t where "owned_run now l m = Some r" "scalar (\<lambda>t. mg_id t = i) (md_targets m) = Some t" "mg_status t = MT_PENDING"
    by (auto split: option.splits)
  then have "mark_stop_requested now l i m = update_target i (\<lambda>t. t\<lparr>mg_status := MT_STOP_REQUESTED,
      mg_stop_requested_at := Some now, mg_error_message := None, mg_updated_at := now\<rparr>) m"
    by (simp add: mark_stop_requested_def)
  moreover have "mg_status x = MT_PENDING" if "x \<in> set (md_targets m)" "mg_id x = i" for x
    using scalar_key_unique [OF maintenance_invD(7) [OF inv] that] \<open>scalar _ _ = Some t\<close> \<open>mg_status t = MT_PENDING\<close> by simp
  ultimately show ?thesis by (auto intro!: update_target_inv [OF inv])
qed

lemma record_target_error_inv:
  assumes inv: "maintenance_inv m"
  shows "maintenance_inv (record_target_error now l i err m)"
  using inv maintenance_invD(5) [OF inv]
  by (auto simp: record_target_error_def intro!: update_target_inv [OF inv] split: option.splits)

lemma refreshed_target_sel:
  "mg_id (refreshed_target now d i t) = mg_id t"
  "mg_maintenance_run_id (refreshed_target now d i t) = mg_maintenance_run_id t"
  "mg_status t = MT_STOPPED \<Longrightarrow> mg_status (refreshed_target now d i t) = MT_STOPPED"
  "mg_status t \<noteq> MT_FAILED \<Longrightarrow> mg_status (refreshed_target now d i t) \<noteq> MT_FAILED"
  by (auto simp: refreshed_target_def split: option.splits)

lemma refreshed_stopped:
  assumes "mg_status (refreshed_target now d i t) = MT_STOPPED" and "mg_status t \<noteq> MT_STOPPED"
  shows "\<exists>e. execution_row d (mg_execution_id t) = Some e \<and> execution_stopped e"
  using assms by (auto simp: refreshed_target_def split: option.splits if_split_asm)

lemma refreshed_targets_inv:
  assumes inv: "maintenance_inv m"
  shows "maintenance_inv (m\<lparr>md_targets := map (refreshed_target now d i) (md_targets m)\<rparr>)"
proof -
  have ids: "map mg_id (map (refreshed_target now d i) (md_targets m)) = map mg_id (md_targets m)"
    by (simp add: refreshed_target_sel)
  have "run_done (m\<lparr>md_targets := map (refreshed_target now d i) (md_targets m)\<rparr>) r" if "run_done m r" for r
    using that by (auto simp: run_done_def refreshed_target_sel)
  then show ?thesis using maintenance_invD [OF inv] ids
    by (auto simp: maintenance_inv_def refreshed_target_sel simp del: map_map)
qed

lemma counts_zero: "length (filter P xs) = 0 \<longleftrightarrow> (\<forall>x\<in>set xs. \<not> P x)"
  by (auto simp: filter_empty_conv)

lemma counts_done:
  assumes "maintenance_inv m" and "counts_remaining (run_counts m i) = 0"
  shows "mk_failed (run_counts m i) = 0" and "\<forall>t\<in>set (md_targets m). mg_maintenance_run_id t = i \<longrightarrow> mg_status t = MT_STOPPED"
proof -
  have n: "mg_status t \<notin> {MT_PENDING, MT_STOP_REQUESTED, MT_FAILED}" if "t \<in> set (md_targets m)" "mg_maintenance_run_id t = i" for t
    using assms that maintenance_invD(5) [OF assms(1)]
    by (auto simp: counts_remaining_def run_counts_def Let_def filter_empty_conv)
  then show "mk_failed (run_counts m i) = 0" by (auto simp: run_counts_def Let_def filter_empty_conv)
  show "\<forall>t\<in>set (md_targets m). mg_maintenance_run_id t = i \<longrightarrow> mg_status t = MT_STOPPED"
    using n by (metis insertCI maintenance_run_target_status.exhaust)
qed

lemma filter_replaced: "\<not> P y \<Longrightarrow> length (filter P (map (\<lambda>x. if x = r then y else x) xs)) \<le> length (filter P xs)"
  by (induction xs) auto

lemma finalized_run_inv:
  assumes inv: "maintenance_inv m" and r: "r \<in> set (md_runs m)" "mr_status r = MR_RUNNING"
  shows "maintenance_inv (update_run (mr_id r) (finalized_run ls now (run_counts m (mr_id r))) m)"
proof (cases "counts_remaining (run_counts m (mr_id r)) = 0")
  case False
  then show ?thesis using r run_unique [OF inv r(1)]
    by (intro update_run_inv [OF inv]) (auto simp: finalized_run_def is_runnable_def RUNNABLE_STATUSES_def)
next
  case True
  let ?f = "finalized_run ls now (run_counts m (mr_id r))"
  note d = counts_done [OF inv True]
  have f: "mr_status (?f r) = MR_SUCCEEDED" "mr_id (?f r) = mr_id r" using True d(1) by (simp_all add: finalized_run_def)
  have runs: "md_runs (update_run (mr_id r) ?f m) = map (\<lambda>x. if x = r then ?f r else x) (md_runs m)"
    using run_unique [OF inv r(1)] by (auto simp: update_run_def update_where_def)
  have ids: "map mr_id (map (\<lambda>x. if x = r then ?f r else x) (md_runs m)) = map mr_id (md_runs m)"
    using f(2) by auto
  have ended: "\<not> is_runnable (?f r)" using f(1) by (simp add: is_runnable_def RUNNABLE_STATUSES_def)
  let ?m = "update_run (mr_id r) ?f m"
  have "run_done ?m x" if "x \<in> set (md_runs ?m)" "\<not> is_runnable x" for x
  proof (cases "x = ?f r")
    case True
    then show ?thesis using d(2) f by (simp add: run_done_def update_run_def)
  next
    case False
    then have "x \<in> set (md_runs m)" using that(1) by (auto simp: runs split: if_split_asm)
    then show ?thesis using that(2) maintenance_invD(4) [OF inv] by (simp add: run_done_def update_run_def)
  qed
  moreover have "length (filter is_runnable (md_runs ?m)) \<le> 1"
    using filter_replaced [of is_runnable, OF ended, of r "md_runs m"] maintenance_invD(2) [OF inv] unfolding runs by linarith
  moreover have same: "map mr_id (md_runs ?m) = map mr_id (md_runs m)" unfolding runs by (rule ids)
  moreover have "mr_id ` set (md_runs ?m) = mr_id ` set (md_runs m)"
    using arg_cong [OF same, of set] by (simp only: set_map)
  moreover have "md_targets ?m = md_targets m" "md_db ?m = md_db m" "md_state ?m = md_state m" by (simp_all add: update_run_def)
  ultimately show ?thesis using maintenance_invD(1,3,5,6,7) [OF inv] unfolding maintenance_inv_def by simp
qed

lemma refresh_inv:
  assumes inv: "maintenance_inv m"
  shows "maintenance_inv (refresh_and_finalize ls now l m)"
proof (cases "owned_run now l m")
  case (Some r)
  let ?m1 = "m\<lparr>md_targets := map (refreshed_target now (md_db m) (ml_run_id l)) (md_targets m)\<rparr>"
  note o = owned_runD [OF Some]
  have "maintenance_inv (update_run (mr_id r) (finalized_run ls now (run_counts ?m1 (mr_id r))) ?m1)"
    by (rule finalized_run_inv [OF refreshed_targets_inv [OF inv]]) (use o in simp_all)
  then show ?thesis using Some o(2) by (simp add: refresh_and_finalize_def Let_def)
qed (use inv in \<open>simp add: refresh_and_finalize_def\<close>)

lemma maintenance_step_inv:
  assumes "maintenance_step m m'" and inv: "maintenance_inv m"
  shows "maintenance_inv m'"
  using assms(1)
proof cases
  case state_set
  then show ?thesis by (rule set_state_inv [OF inv])
next
  case run_created
  then show ?thesis by (rule create_run_inv [OF inv])
next
  case run_claimed
  then show ?thesis by (rule claim_run_inv [OF inv])
next
  case run_renewed
  then show ?thesis by (rule renew_run_inv [OF inv])
next
  case stop_marked
  then show ?thesis using mark_stop_requested_inv [OF inv] by simp
next
  case error_recorded
  then show ?thesis using record_target_error_inv [OF inv] by simp
next
  case run_refreshed
  then show ?thesis using refresh_inv [OF inv] by simp
next
  case (executions_changed d)
  then show ?thesis using maintenance_invD(6) [OF inv] by (intro maintenance_inv_cong [OF inv]) simp_all
qed

lemma maintenance_inv_empty: "maintenance_inv empty_maintenance"
  by (simp add: maintenance_inv_def empty_maintenance_def empty_db_def)

lemma maintenance_reachable_inv: "maintenance_reachable m \<Longrightarrow> maintenance_inv m"
  unfolding maintenance_reachable_def
  by (induction rule: rtranclp_induct) (auto simp: maintenance_inv_empty intro: maintenance_step_inv)

text \<open>One pass of a worker is a sequence of these steps.\<close>

lemma cancel_keeps_admission:
  assumes "cancel_execution now d d d c = Inr (Committed d' e)"
  shows "db_admission d' = db_admission d"
  using assms
  by (auto simp: cancel_execution_def cancel_locked_def repo_save_def Let_def bind_res_eq_Inr
      split: option.splits if_split_asm sum.splits)

lemma stop_target_steps: "maintenance_step\<^sup>*\<^sup>* m (stop_target str_of clock k l target m)"
proof -
  have mark: "maintenance_step\<^sup>*\<^sup>* m (mark_stop_requested t l i m)" for t i m
    by (intro r_into_rtranclp maintenance_step.stop_marked)
  have err: "maintenance_step\<^sup>*\<^sup>* m (record_target_error t l i e m)" for t i e
    by (intro r_into_rtranclp maintenance_step.error_recorded)
  show ?thesis
  proof (cases "cancel_execution (clock k) (md_db m) (md_db m) (md_db m) (stop_command l (snd target))")
    case (Inl e)
    then show ?thesis using mark err by (simp add: stop_target_def)
  next
    case (Inr w)
    show ?thesis
    proof (cases w)
      case (Replayed e)
      then show ?thesis using Inr mark by (simp add: stop_target_def)
    next
      case (Committed d' e)
      then have "maintenance_step m (m\<lparr>md_db := d'\<rparr>)"
        using cancel_keeps_admission Inr by (intro maintenance_step.executions_changed) blast
      then show ?thesis using Inr Committed mark [of "m\<lparr>md_db := d'\<rparr>"] by (simp add: stop_target_def)
        (meson converse_rtranclp_into_rtranclp)
    qed
  qed
qed

lemma stop_targets_steps: "maintenance_step\<^sup>*\<^sup>* m (fst (stop_targets str_of ls clock k l targets m))"
proof (induction targets arbitrary: k m)
  case (Cons target targets)
  obtain m1 b where r: "renew_run ls (clock k) l m = (m1, b)" by (cases "renew_run ls (clock k) l m")
  then have s: "maintenance_step\<^sup>*\<^sup>* m m1" by (intro r_into_rtranclp maintenance_step.run_renewed)
  show ?case
  proof (cases b)
    case True
    have "maintenance_step\<^sup>*\<^sup>* m1 (fst (stop_targets str_of ls clock (k + 3) l targets (stop_target str_of clock (Suc k) l target m1)))"
      by (rule rtranclp_trans [OF stop_target_steps Cons.IH])
    then have "maintenance_step\<^sup>*\<^sup>* m (fst (stop_targets str_of ls clock (k + 3) l targets (stop_target str_of clock (Suc k) l target m1)))"
      by (rule rtranclp_trans [OF s])
    then show ?thesis using r True by simp
  qed (use s r in simp)
qed simp

lemma reconcile_once_steps: "maintenance_step\<^sup>*\<^sup>* m (fst (reconcile_once str_of ls clock locked owner m))"
proof (cases "claim_run ls (clock 0) locked owner m")
  case (Some w)
  obtain m1 l where w: "w = (m1, l)" by (cases w)
  have s: "maintenance_step m m1" using Some w by (intro maintenance_step.run_claimed) simp
  let ?ts = "pending_target_ids m1 (ml_run_id l)"
  obtain m2 b where b: "stop_targets str_of ls clock 1 l ?ts m1 = (m2, b)" by (cases "stop_targets str_of ls clock 1 l ?ts m1")
  have "maintenance_step\<^sup>*\<^sup>* m1 m2" using stop_targets_steps [of m1 str_of ls clock 1 l ?ts] b by simp
  then have m2: "maintenance_step\<^sup>*\<^sup>* m m2" by (rule converse_rtranclp_into_rtranclp [of maintenance_step, OF s])
  show ?thesis
  proof (cases b)
    case True
    then have "fst (reconcile_once str_of ls clock locked owner m) = refresh_and_finalize ls (clock (3 * length ?ts + 1)) l m2"
      using Some w b by (simp add: reconcile_once_def Let_def)
    moreover have "maintenance_step m2 (refresh_and_finalize ls (clock (3 * length ?ts + 1)) l m2)"
      by (rule maintenance_step.run_refreshed)
    ultimately show ?thesis using m2 by (metis rtranclp.rtrancl_into_rtrancl)
  next
    case False
    then show ?thesis using Some w b m2 by (simp add: reconcile_once_def Let_def)
  qed
qed (simp add: reconcile_once_def)

text \<open>
  C9. In every state of the maintenance tables at most one Run is unfinished, and a Run that has
  ended has SUCCEEDED with all its targets stopped. A Run that is created anew closes admission and targets exactly the
  Executions that are active or own a Runtime session, and refreshing a Run ends it only when every target that was not
  stopped before belongs to an Execution that has ended, owns no session and needs no cleanup.
\<close>

theorem maintenance_runs_stop:
  assumes "maintenance_reachable m"
  shows "length (filter is_runnable (md_runs m)) \<le> 1 \<and>
    (\<forall>r\<in>set (md_runs m). \<not> is_runnable r \<longrightarrow> run_done m r) \<and>
    (\<forall>sha now i ti c m' w. create_run sha now i ti c m = Inr (m', w) \<and>
        scalar (\<lambda>r. mr_idempotency_key r = mc_idempotency_key c) (md_runs m) = None \<longrightarrow>
      \<not> admission_is_active (md_db m') \<and>
      mg_execution_id ` {t \<in> set (md_targets m'). mg_maintenance_run_id t = i} =
        ex_id ` {e \<in> set (db_executions (md_db m)). selected_for_stop e}) \<and>
    (\<forall>ls now l t. owned_run now l m \<noteq> None \<and> counts_remaining (run_counts (refresh_and_finalize ls now l m) (ml_run_id l)) = 0 \<and>
        t \<in> set (md_targets m) \<and> mg_maintenance_run_id t = ml_run_id l \<and> mg_status t \<noteq> MT_STOPPED \<longrightarrow>
      (\<exists>e. execution_row (md_db m) (mg_execution_id t) = Some e \<and> execution_status_is_terminal (ex_status e) \<and>
        ex_runtime_session_id e = None \<and> ex_runtime_session_cleanup_status e \<notin> {RC_PENDING, RC_FAILED}))"
proof -
  note inv = maintenance_reachable_inv [OF assms]
  have "\<not> admission_is_active (md_db m') \<and>
      mg_execution_id ` {t \<in> set (md_targets m'). mg_maintenance_run_id t = i} =
        ex_id ` {e \<in> set (db_executions (md_db m)). selected_for_stop e}"
    if c: "create_run sha now i ti c m = Inr (m', w)" "scalar (\<lambda>r. mr_idempotency_key r = mc_idempotency_key c) (md_runs m) = None"
    for sha now i ti c m' w
  proof -
    obtain ts where ts: "md_targets m' = md_targets m @ ts" "i \<notin> mr_id ` set (md_runs m)"
        "map mg_execution_id ts = map ex_id (select_targets (md_db m))"
        "\<forall>t\<in>set ts. mg_maintenance_run_id t = i \<and> mg_status t = MT_PENDING" "db_admission (md_db m') = Some EA_DRAINING"
      by (rule create_run_fresh [OF inv c])
    have "{t \<in> set (md_targets m'). mg_maintenance_run_id t = i} = set ts"
      using ts(1,2,4) maintenance_invD(3) [OF inv] by auto
    moreover have "mg_execution_id ` set ts = ex_id ` set (select_targets (md_db m))" using ts(3) by (metis set_map)
    ultimately show ?thesis using ts(5) by (simp add: select_targets_def admission_is_active_def)
  qed
  moreover have "\<exists>e. execution_row (md_db m) (mg_execution_id t) = Some e \<and> execution_status_is_terminal (ex_status e) \<and>
      ex_runtime_session_id e = None \<and> ex_runtime_session_cleanup_status e \<notin> {RC_PENDING, RC_FAILED}"
    if "owned_run now l m \<noteq> None" and zero: "counts_remaining (run_counts (refresh_and_finalize ls now l m) (ml_run_id l)) = 0"
      and t: "t \<in> set (md_targets m)" "mg_maintenance_run_id t = ml_run_id l" "mg_status t \<noteq> MT_STOPPED" for ls now l t
  proof -
    let ?t = "refreshed_target now (md_db m) (ml_run_id l) t"
    have "md_targets (refresh_and_finalize ls now l m) = map (refreshed_target now (md_db m) (ml_run_id l)) (md_targets m)"
      using that(1) by (auto simp: refresh_and_finalize_def Let_def update_run_def)
    then have "mg_status ?t = MT_STOPPED"
      using counts_done(2) [OF refresh_inv [OF inv] zero] t by (auto simp: refreshed_target_sel)
    then obtain e where "execution_row (md_db m) (mg_execution_id t) = Some e" "execution_stopped e"
      using refreshed_stopped [OF _ t(3)] by blast
    then show ?thesis by (simp add: execution_stopped_def UNRESOLVED_CLEANUP_STATUSES_def)
  qed
  ultimately show ?thesis using maintenance_invD(2,4) [OF inv] by blast
qed

subsection \<open>A Run over one active Execution\<close>

text \<open>
  A Run is created while one Execution is RUNNING; after that Execution was CANCELLED a worker claims the Run
  and ends it.
\<close>

definition demo_active :: "execution_status \<Rightarrow> db" where
  "demo_active s =
     (demo_db OM_SINGLE)\<lparr>db_executions := map (\<lambda>e. e\<lparr>ex_status := s\<rparr>) (db_executions (demo_db OM_SINGLE))\<rparr>"

definition demo_stop :: create_maintenance_run_command where
  "demo_stop = \<lparr>mc_idempotency_key = ''k'', mc_action = MA_STOP_ACTIVE_EXECUTIONS, mc_actor_client = ''ops'', mc_actor_id = ''me''\<rparr>"

definition demo_created :: "domain_error + (maintenance_db \<times> maintenance_run_view)" where
  "demo_created = create_run demo_sha 5 1 (\<lambda>n. n) demo_stop (empty_maintenance\<lparr>md_db := demo_active ES_RUNNING\<rparr>)"

definition demo_cancelled :: "maintenance_db \<Rightarrow> maintenance_db" where
  "demo_cancelled m = m\<lparr>md_db := (md_db m)\<lparr>db_executions := map (\<lambda>e. e\<lparr>ex_status := ES_CANCELLED\<rparr>) (db_executions (md_db m))\<rparr>\<rparr>"

definition demo_run_ended :: "maintenance_db option" where
  "demo_run_ended =
     (case demo_created of
        Inl _ \<Rightarrow> None
      | Inr (m, w) \<Rightarrow> map_option (\<lambda>(m', l). refresh_and_finalize 30 7 l m') (claim_run 30 6 {} ''w'' (demo_cancelled m)))"

lemma demo_run_results:
  "map_option (\<lambda>m. (map mr_status (md_runs m), map mg_status (md_targets m))) demo_run_ended = Some ([MR_SUCCEEDED], [MT_STOPPED])"
  by code_simp

lemma demo_run_reached:
  assumes "demo_run_ended = Some m"
  shows "maintenance_reachable m"
proof -
  let ?m0 = "empty_maintenance\<lparr>md_db := demo_active ES_RUNNING\<rparr>"
  obtain m1 w where 1: "demo_created = Inr (m1, w)" using assms by (auto simp: demo_run_ended_def split: sum.splits)
  then obtain m2 l where 2: "claim_run 30 6 {} ''w'' (demo_cancelled m1) = Some (m2, l)" "m = refresh_and_finalize 30 7 l m2"
    using assms by (auto simp: demo_run_ended_def 1)
  have "db_admission (demo_active ES_RUNNING) = None" by code_simp
  then have "maintenance_step empty_maintenance ?m0"
    by (intro maintenance_step.executions_changed) (simp add: empty_maintenance_def empty_db_def)
  moreover have "maintenance_step ?m0 m1" using 1 unfolding demo_created_def by (rule maintenance_step.run_created)
  moreover have "maintenance_step m1 (demo_cancelled m1)"
    unfolding demo_cancelled_def by (rule maintenance_step.executions_changed) simp
  moreover have "maintenance_step (demo_cancelled m1) m2" by (rule maintenance_step.run_claimed [OF 2(1)])
  moreover have "maintenance_step m2 m" unfolding 2(2) by (rule maintenance_step.run_refreshed)
  ultimately show ?thesis unfolding maintenance_reachable_def by (meson rtranclp.intros)
qed

theorem maintenance_runs_stop_witness:
  "\<exists>m. demo_run_ended = Some m \<and> length (md_targets m) = 1 \<and> length (md_runs m) = 1 \<and> (\<forall>r\<in>set (md_runs m). run_done m r)"
proof -
  obtain m where m: "demo_run_ended = Some m" "map mr_status (md_runs m) = [MR_SUCCEEDED]" "map mg_status (md_targets m) = [MT_STOPPED]"
    using demo_run_results by auto
  have "\<not> is_runnable r" if "r \<in> set (md_runs m)" for r
    using that m(2) by (auto simp: map_eq_Cons_conv is_runnable_def RUNNABLE_STATUSES_def)
  then have "\<forall>r\<in>set (md_runs m). run_done m r" using maintenance_runs_stop [OF demo_run_reached [OF m(1)]] by simp
  moreover have "length (md_runs m) = 1" "length (md_targets m) = 1"
    using arg_cong [OF m(2), of length] arg_cong [OF m(3), of length] by simp_all
  ultimately show ?thesis using m(1) by blast
qed

end
