(* ===== verification/Execution_Queries.thy ===== *)
theory Execution_Queries
  imports Pagination Query_Views System Event_Delivery Maintenance
begin

text \<open>
  The read side of the service: \<open>infrastructure/execution_queries\<close>. A query reads one state of the
  database; it never changes it. Every listing is a keyset listing of \<open>Pagination\<close> with a cursor kind of
  its own, either over an integer column or over the creation time and the identifier.

  The lemmas below interpret \<open>keyset_listing\<close> for every listing. The two properties at the end state it for
  the listing of all Executions and for the events of an Execution that is still running.
\<close>

subsection \<open>Guards\<close>

definition require_execution :: "db \<Rightarrow> uuid \<Rightarrow> domain_error + unit" where
  "require_execution d execution_id =
     raise_if (execution_row d execution_id = None) ExecutionNotFoundError"

definition require_attempt :: "db \<Rightarrow> uuid \<Rightarrow> uuid \<Rightarrow> domain_error + unit" where
  "require_attempt d execution_id attempt_id =
     bind_res (require_execution d execution_id) (\<lambda>_.
       raise_if (scalar (\<lambda>a. at_id a = attempt_id \<and> at_execution_id a = execution_id) (db_attempts d) = None)
         ExecutionAttemptNotFoundError)"

definition require_operation :: "db \<Rightarrow> uuid \<Rightarrow> uuid \<Rightarrow> domain_error + unit" where
  "require_operation d execution_id operation_id =
     bind_res (require_execution d execution_id) (\<lambda>_.
       raise_if (scalar (\<lambda>q. op_id q = operation_id \<and> op_execution_id q = execution_id) (db_operations d) = None)
         ExecutionOperationNotFoundError)"

subsection \<open>The two kinds of listings\<close>

definition position :: "(string \<Rightarrow> domain_error + 'p) \<Rightarrow> string option \<Rightarrow> domain_error + 'p option" where
  "position decode cursor = (case cursor of None \<Rightarrow> Inr None | Some c \<Rightarrow> bind_res (decode c) (\<lambda>p. Inr (Some p)))"

definition integer_listing ::
    "string \<Rightarrow> ('r \<Rightarrow> int) \<Rightarrow> ('r \<Rightarrow> 'v) \<Rightarrow> 'r list \<Rightarrow> string option \<Rightarrow> nat \<Rightarrow> domain_error + 'v page" where
  "integer_listing kind key view table cursor limit =
     bind_res (position (\<lambda>c. decode_integer_cursor c kind) cursor) (\<lambda>after.
       Inr (make_page view (\<lambda>r. encode_integer_cursor kind (key r)) limit (keyset_rows key after limit table)))"

text \<open>Oldest first, and newest first: the order of the negated pair.\<close>

definition oldest_first :: "datetime \<times> uuid \<Rightarrow> int \<times> int" where
  "oldest_first = (\<lambda>(t, i). (t, int i))"

definition newest_first :: "datetime \<times> uuid \<Rightarrow> int \<times> int" where
  "newest_first = (\<lambda>(t, i). (- t, - int i))"

definition time_listing ::
    "(datetime \<times> uuid \<Rightarrow> int \<times> int) \<Rightarrow> string \<Rightarrow> ('r \<Rightarrow> datetime) \<Rightarrow> ('r \<Rightarrow> uuid) \<Rightarrow> ('r \<Rightarrow> 'v) \<Rightarrow> 'r list \<Rightarrow>
       string option \<Rightarrow> nat \<Rightarrow> domain_error + 'v page" where
  "time_listing order kind created_at item_id view table cursor limit =
     bind_res (position (\<lambda>c. decode_time_cursor c kind) cursor) (\<lambda>after.
       Inr (make_page view (\<lambda>r. encode_time_cursor kind (created_at r) (item_id r)) limit
         (keyset_rows (\<lambda>r. order (created_at r, item_id r)) (map_option order after) limit table)))"

subsection \<open>Executions and Steps\<close>

record execution_filter =
  ef_user_id :: "string option"
  ef_project_id :: "string option"
  ef_session_id :: "string option"
  ef_tenant_id :: "string option"
  ef_trigger_type :: "trigger_type option"
  ef_status :: "execution_status option"

definition execution_matches :: "execution_filter \<Rightarrow> execution_orm \<Rightarrow> bool" where
  "execution_matches f e \<longleftrightarrow>
     (ef_user_id f = None \<or> ef_user_id f = Some (ex_user_id e)) \<and>
     (ef_project_id f = None \<or> ef_project_id f = ex_project_id e) \<and>
     (ef_session_id f = None \<or> ef_session_id f = ex_session_id e) \<and>
     (ef_tenant_id f = None \<or> ef_tenant_id f = Some (ex_tenant_id e)) \<and>
     (ef_trigger_type f = None \<or> ef_trigger_type f = Some (ex_trigger_type e)) \<and>
     (ef_status f = None \<or> ef_status f = Some (ex_status e))"

definition step_count :: "db \<Rightarrow> uuid \<Rightarrow> nat" where
  "step_count d execution_id = length (filter (\<lambda>s. st_execution_id s = execution_id) (db_steps d))"

definition executions :: "execution_filter \<Rightarrow> db \<Rightarrow> string option \<Rightarrow> nat \<Rightarrow> domain_error + execution_summary_view page" where
  "executions f d cursor limit =
     time_listing newest_first ''executions'' ex_created_at ex_id (\<lambda>e. summary_view e (step_count d (ex_id e)))
       (filter (execution_matches f) (db_executions d)) cursor limit"

definition execution_query :: "db \<Rightarrow> uuid \<Rightarrow> domain_error + execution_detail_view" where
  "execution_query d execution_id =
     (case execution_row d execution_id of
        None \<Rightarrow> Inl ExecutionNotFoundError
      | Some row \<Rightarrow> Inr (detail_view row))"

definition steps_page :: "uuid \<Rightarrow> db \<Rightarrow> string option \<Rightarrow> nat \<Rightarrow> domain_error + execution_step page" where
  "steps_page execution_id d cursor limit =
     bind_res (require_execution d execution_id) (\<lambda>_.
       integer_listing ''execution_steps'' st_sequence step_to_domain
         (filter (\<lambda>s. st_execution_id s = execution_id) (db_steps d)) cursor limit)"

definition step_query :: "db \<Rightarrow> uuid \<Rightarrow> uuid \<Rightarrow> domain_error + execution_step" where
  "step_query d execution_id step_id =
     bind_res (require_execution d execution_id) (\<lambda>_.
       case scalar (\<lambda>s. st_id s = step_id \<and> st_execution_id s = execution_id) (db_steps d) of
         None \<Rightarrow> Inl ExecutionNotFoundError
       | Some row \<Rightarrow> Inr (step_to_domain row))"

subsection \<open>Operations\<close>

definition operations_page :: "uuid \<Rightarrow> db \<Rightarrow> string option \<Rightarrow> nat \<Rightarrow> domain_error + execution_operation_view page" where
  "operations_page execution_id d cursor limit =
     bind_res (require_execution d execution_id) (\<lambda>_.
       integer_listing ''execution_operations'' op_operation_number operation_view
         (filter (\<lambda>q. op_execution_id q = execution_id) (db_operations d)) cursor limit)"

definition operation_query :: "db \<Rightarrow> uuid \<Rightarrow> uuid \<Rightarrow> domain_error + execution_operation_view" where
  "operation_query d execution_id operation_id =
     bind_res (require_execution d execution_id) (\<lambda>_.
       case scalar (\<lambda>q. op_id q = operation_id \<and> op_execution_id q = execution_id) (db_operations d) of
         None \<Rightarrow> Inl ExecutionOperationNotFoundError
       | Some row \<Rightarrow> Inr (operation_view row))"

definition operation_steps_page ::
    "uuid \<Rightarrow> uuid \<Rightarrow> db \<Rightarrow> string option \<Rightarrow> nat \<Rightarrow> domain_error + execution_step page" where
  "operation_steps_page execution_id operation_id d cursor limit =
     bind_res (require_operation d execution_id operation_id) (\<lambda>_.
       integer_listing ''execution_operation_steps'' st_sequence step_to_domain
         (filter (\<lambda>s. st_execution_id s = execution_id \<and> st_operation_id s = Some operation_id) (db_steps d)) cursor limit)"

subsection \<open>Attempts\<close>

definition step_attempt_count :: "db \<Rightarrow> uuid \<Rightarrow> nat" where
  "step_attempt_count d attempt_id = length (filter (\<lambda>s. sa_execution_attempt_id s = attempt_id) (db_step_attempts d))"

definition attempts_page :: "uuid \<Rightarrow> db \<Rightarrow> string option \<Rightarrow> nat \<Rightarrow> domain_error + execution_attempt_view page" where
  "attempts_page execution_id d cursor limit =
     bind_res (require_execution d execution_id) (\<lambda>_.
       integer_listing ''execution_attempts'' at_attempt_number (\<lambda>a. attempt_view a (step_attempt_count d (at_id a)))
         (filter (\<lambda>a. at_execution_id a = execution_id) (db_attempts d)) cursor limit)"

definition attempt_query :: "db \<Rightarrow> uuid \<Rightarrow> uuid \<Rightarrow> domain_error + execution_attempt_view" where
  "attempt_query d execution_id attempt_id =
     bind_res (require_execution d execution_id) (\<lambda>_.
       case scalar (\<lambda>a. at_id a = attempt_id \<and> at_execution_id a = execution_id) (db_attempts d) of
         None \<Rightarrow> Inl ExecutionAttemptNotFoundError
       | Some row \<Rightarrow> Inr (attempt_view row (step_attempt_count d attempt_id)))"

definition attempt_steps_page ::
    "uuid \<Rightarrow> uuid \<Rightarrow> db \<Rightarrow> string option \<Rightarrow> nat \<Rightarrow> domain_error + execution_step_attempt_view page" where
  "attempt_steps_page execution_id attempt_id d cursor limit =
     bind_res (require_attempt d execution_id attempt_id) (\<lambda>_.
       integer_listing ''execution_step_attempts'' sa_sequence step_attempt_view
         (filter (\<lambda>s. sa_execution_attempt_id s = attempt_id) (db_step_attempts d)) cursor limit)"

subsection \<open>Events and artifacts\<close>

definition outbox_of :: "db \<Rightarrow> execution_event \<Rightarrow> outbox_event_orm option" where
  "outbox_of d event = scalar (\<lambda>r. ob_execution_event_id r = ev_id event) (db_outbox d)"

definition events_page ::
    "uuid \<Rightarrow> int \<Rightarrow> db \<Rightarrow> string option \<Rightarrow> nat \<Rightarrow> domain_error + execution_event_view page" where
  "events_page execution_id after_sequence d cursor limit =
     bind_res (require_execution d execution_id) (\<lambda>_.
     bind_res (case cursor of None \<Rightarrow> Inr after_sequence | Some c \<Rightarrow> decode_integer_cursor c ''execution_events'') (\<lambda>sequence_cursor.
       Inr (make_page (\<lambda>e. event_view e (outbox_of d e)) (\<lambda>e. encode_integer_cursor ''execution_events'' (ev_event_sequence e)) limit
         (keyset_rows ev_event_sequence (Some sequence_cursor) limit
           (filter (\<lambda>e. ev_execution_id e = execution_id) (db_events d))))))"

definition artifacts_page :: "uuid \<Rightarrow> db \<Rightarrow> string option \<Rightarrow> nat \<Rightarrow> domain_error + execution_artifact_view page" where
  "artifacts_page execution_id d cursor limit =
     bind_res (require_execution d execution_id) (\<lambda>_.
       time_listing oldest_first ''execution_artifacts'' ar_created_at ar_id artifact_view
         (filter (\<lambda>a. ar_execution_id a = execution_id) (db_artifacts d)) cursor limit)"

definition artifact_query :: "db \<Rightarrow> uuid \<Rightarrow> domain_error + execution_artifact_view" where
  "artifact_query d artifact_id =
     (case scalar (\<lambda>a. ar_id a = artifact_id) (db_artifacts d) of
        None \<Rightarrow> Inl ExecutionArtifactNotFoundError
      | Some row \<Rightarrow> Inr (artifact_view row))"

subsection \<open>The targets of a Maintenance Run\<close>

text \<open>The view of a target has exactly the columns of its row.\<close>

definition target_view :: "maintenance_run_target_orm \<Rightarrow> maintenance_run_target_orm" where
  "target_view target = target"

definition list_targets ::
    "uuid \<Rightarrow> maintenance_db \<Rightarrow> string option \<Rightarrow> nat \<Rightarrow> domain_error + maintenance_run_target_orm page" where
  "list_targets run_id m cursor limit =
     bind_res (required_run m run_id) (\<lambda>_.
       time_listing oldest_first ''maintenance_run_targets'' mg_created_at mg_id target_view
         (filter (\<lambda>t. mg_maintenance_run_id t = run_id) (md_targets m)) cursor limit)"

subsection \<open>Result snapshots\<close>

definition read_operation_snapshot :: "db \<Rightarrow> uuid \<Rightarrow> uuid \<Rightarrow> domain_error + operation_result_snapshot" where
  "read_operation_snapshot d execution_id operation_id =
     (case execution_row d execution_id of
        None \<Rightarrow> Inl ExecutionNotFoundError
      | Some e \<Rightarrow>
          (case scalar (\<lambda>q. op_id q = operation_id \<and> op_execution_id q = execution_id) (db_operations d) of
             None \<Rightarrow> Inl ExecutionOperationNotFoundError
           | Some q \<Rightarrow>
               Inr \<lparr>or_execution = detail_view e, or_operation = operation_view q,
                    or_steps = map step_to_domain (sort_key st_sequence
                      (filter (\<lambda>s. st_execution_id s = execution_id \<and> st_operation_id s = Some operation_id) (db_steps d)))\<rparr>))"

definition read_execution_snapshot :: "db \<Rightarrow> uuid \<Rightarrow> domain_error + execution_result_snapshot" where
  "read_execution_snapshot d execution_id =
     (case execution_row d execution_id of
        None \<Rightarrow> Inl ExecutionNotFoundError
      | Some e \<Rightarrow>
          Inr \<lparr>xr_execution = detail_view e,
               xr_operations = map operation_view (sort_key op_operation_number
                 (filter (\<lambda>q. op_execution_id q = execution_id) (db_operations d))),
               xr_steps = map step_to_domain (sort_key st_sequence
                 (filter (\<lambda>s. st_execution_id s = execution_id) (db_steps d))),
               xr_attempts = map (\<lambda>a. attempt_view a (length (filter (\<lambda>s. sa_execution_id s = execution_id \<and>
                   sa_execution_attempt_id s = at_id a) (db_step_attempts d))))
                 (sort_key at_attempt_number (filter (\<lambda>a. at_execution_id a = execution_id) (db_attempts d))),
               xr_artifacts = map artifact_view (sort_key (\<lambda>a. oldest_first (ar_created_at a, ar_id a))
                 (filter (\<lambda>a. ar_execution_id a = execution_id) (db_artifacts d)))\<rparr>)"

subsection \<open>Every listing is a keyset listing\<close>

lemma target_view_sel: "mg_id (target_view t) = mg_id t" "mg_created_at (target_view t) = mg_created_at t"
  by (simp_all add: target_view_def)

lemma view_keys [simp]:
  "xv_id (summary_view e n) = ex_id e" "xv_created_at (summary_view e n) = ex_created_at e"
  "av_id (artifact_view a) = ar_id a" "av_created_at (artifact_view a) = ar_created_at a"
  "tv_attempt_number (attempt_view t n) = at_attempt_number t" "ov_operation_number (operation_view q) = op_operation_number q"
  "sv_sequence (step_attempt_view s) = sa_sequence s" "ew_event_sequence (event_view ev ob) = ev_event_sequence ev"
  "st_sequence (step_to_domain row) = st_sequence row"
  by (simp_all add: view_sel)

lemma position_simps [simp]:
  "position decode None = Inr None" "position decode (Some c) = bind_res (decode c) (\<lambda>p. Inr (Some p))"
  by (simp_all add: position_def)

definition sequences_ok :: "('r \<Rightarrow> int) \<Rightarrow> 'r list \<Rightarrow> bool" where
  "sequences_ok key table \<longleftrightarrow> distinct (map key table) \<and> (\<forall>r\<in>set table. 0 \<le> key r \<and> key r < 10 ^ 100)"

definition instants_ok :: "('r \<Rightarrow> datetime) \<Rightarrow> ('r \<Rightarrow> uuid) \<Rightarrow> 'r list \<Rightarrow> bool" where
  "instants_ok created_at item_id table \<longleftrightarrow>
     distinct (map item_id table) \<and> (\<forall>r\<in>set table. valid_instant (created_at r) \<and> item_id r < 2 ^ 128)"

lemma integer_listing_first:
  "integer_listing kind key view table None n =
    Inr (make_page view (\<lambda>r. encode_integer_cursor kind (key r)) n (keyset_rows key None n table))"
  by (simp add: integer_listing_def)

lemma integer_listing_next:
  assumes "sequences_ok key t" and "r \<in> set t" and "length kind \<le> 40"
  shows "integer_listing kind key view table (Some (encode_integer_cursor kind (key r))) n =
    Inr (make_page view (\<lambda>r. encode_integer_cursor kind (key r)) n (keyset_rows key (Some (key r)) n table))"
  using assms by (simp add: integer_listing_def sequences_ok_def decode_encode_integer)

lemma time_listing_first:
  "time_listing order kind created_at item_id view table None n =
    Inr (make_page view (\<lambda>r. encode_time_cursor kind (created_at r) (item_id r)) n
      (keyset_rows (\<lambda>r. order (created_at r, item_id r)) None n table))"
  by (simp add: time_listing_def)

lemma time_listing_next:
  assumes "instants_ok created_at item_id t" and "r \<in> set t" and "length kind \<le> 40"
  shows "time_listing order kind created_at item_id view table (Some (encode_time_cursor kind (created_at r) (item_id r))) n =
    Inr (make_page view (\<lambda>r. encode_time_cursor kind (created_at r) (item_id r)) n
      (keyset_rows (\<lambda>r. order (created_at r, item_id r)) (Some (order (created_at r, item_id r))) n table))"
  using assms by (simp add: time_listing_def instants_ok_def decode_encode_time)

lemma instants_keys:
  assumes "instants_ok created_at item_id table" and "order \<in> {oldest_first, newest_first}"
  shows "distinct (map (\<lambda>r. order (created_at r, item_id r)) table)"
proof -
  have "inj_on item_id (set table)" "distinct table" using assms(1) by (simp_all add: instants_ok_def distinct_map)
  then show ?thesis using assms(2) by (auto simp: distinct_map inj_on_def oldest_first_def newest_first_def)
qed

lemma require_execution_ok: "execution_row d i \<noteq> None \<Longrightarrow> require_execution d i = Inr ()"
  by (simp add: require_execution_def)

lemma instants_ok_filter: "instants_ok created_at item_id t \<Longrightarrow> instants_ok created_at item_id (filter P t)"
  by (auto simp: instants_ok_def distinct_map_filter)

text \<open>A listing behind a guard that holds, over creation times and over an integer column.\<close>

lemma time_keyset:
  assumes rows: "\<And>d. ok d \<Longrightarrow> instants_ok created_at item_id (table d)"
    and reads: "\<And>d c n. ok d \<Longrightarrow> read d c n = time_listing order kind created_at item_id (view d) (table d) c n"
    and "\<And>d r. vkey (view d r) = order (created_at r, item_id r)" and "length kind \<le> 40"
    and order: "order \<in> {oldest_first, newest_first}"
  shows "keyset_listing ok read table (\<lambda>r. order (created_at r, item_id r)) view vkey
    (\<lambda>r. encode_time_cursor kind (created_at r) (item_id r))"
proof unfold_locales
  show "distinct (map (\<lambda>r. order (created_at r, item_id r)) (table d))" if "ok d" for d
    by (rule instants_keys [OF rows [OF that] order])
  show "read d (Some (encode_time_cursor kind (created_at r) (item_id r))) n =
      Inr (make_page (view d) (\<lambda>r. encode_time_cursor kind (created_at r) (item_id r)) n
        (keyset_rows (\<lambda>r. order (created_at r, item_id r)) (Some (order (created_at r, item_id r))) n (table d)))"
    if "ok d" "ok d'" "r \<in> set (table d')" for d d' r n
    unfolding reads [OF that(1)] by (rule time_listing_next [OF rows [OF that(2)] that(3) assms(4)])
qed (use assms in \<open>simp_all add: time_listing_first\<close>)

lemma integer_keyset:
  assumes rows: "\<And>d. ok d \<Longrightarrow> sequences_ok key (table d)"
    and reads: "\<And>d c n. ok d \<Longrightarrow> read d c n = integer_listing kind key (view d) (table d) c n"
    and "\<And>d r. vkey (view d r) = key r" and "length kind \<le> 40"
  shows "keyset_listing ok read table key view vkey (\<lambda>r. encode_integer_cursor kind (key r))"
proof unfold_locales
  show "distinct (map key (table d))" if "ok d" for d using rows [OF that] by (simp add: sequences_ok_def)
  show "read d (Some (encode_integer_cursor kind (key r))) n =
      Inr (make_page (view d) (\<lambda>r. encode_integer_cursor kind (key r)) n (keyset_rows key (Some (key r)) n (table d)))"
    if "ok d" "ok d'" "r \<in> set (table d')" for d d' r n
    unfolding reads [OF that(1)] by (rule integer_listing_next [OF rows [OF that(2)] that(3) assms(4)])
qed (use assms in \<open>simp_all add: integer_listing_first\<close>)

interpretation execution_listing: keyset_listing
  "\<lambda>d. instants_ok ex_created_at ex_id (db_executions d)" "executions f" "\<lambda>d. filter (execution_matches f) (db_executions d)"
  "\<lambda>e. newest_first (ex_created_at e, ex_id e)" "\<lambda>d e. summary_view e (step_count d (ex_id e))"
  "\<lambda>v. newest_first (xv_created_at v, xv_id v)" "\<lambda>e. encode_time_cursor ''executions'' (ex_created_at e) (ex_id e)"
  by (rule time_keyset) (simp_all add: instants_ok_filter executions_def)

interpretation artifact_listing: keyset_listing
  "\<lambda>d. execution_row d i \<noteq> None \<and> instants_ok ar_created_at ar_id (db_artifacts d)" "artifacts_page i"
  "\<lambda>d. filter (\<lambda>a. ar_execution_id a = i) (db_artifacts d)" "\<lambda>a. oldest_first (ar_created_at a, ar_id a)" "\<lambda>d. artifact_view"
  "\<lambda>v. oldest_first (av_created_at v, av_id v)" "\<lambda>a. encode_time_cursor ''execution_artifacts'' (ar_created_at a) (ar_id a)"
  by (rule time_keyset) (simp_all add: instants_ok_filter artifacts_page_def require_execution_ok)

interpretation target_listing: keyset_listing
  "\<lambda>m. required_run m i = Inr r \<and> instants_ok mg_created_at mg_id (md_targets m)" "list_targets i"
  "\<lambda>m. filter (\<lambda>t. mg_maintenance_run_id t = i) (md_targets m)" "\<lambda>t. oldest_first (mg_created_at t, mg_id t)" "\<lambda>m. target_view"
  "\<lambda>t. oldest_first (mg_created_at t, mg_id t)" "\<lambda>t. encode_time_cursor ''maintenance_run_targets'' (mg_created_at t) (mg_id t)"
  by (rule time_keyset) (simp_all add: instants_ok_filter list_targets_def target_view_sel)

interpretation step_listing: keyset_listing
  "\<lambda>d. execution_row d i \<noteq> None \<and> sequences_ok st_sequence (filter (\<lambda>s. st_execution_id s = i) (db_steps d))"
  "steps_page i" "\<lambda>d. filter (\<lambda>s. st_execution_id s = i) (db_steps d)" st_sequence "\<lambda>d. step_to_domain" st_sequence
  "\<lambda>s. encode_integer_cursor ''execution_steps'' (st_sequence s)"
  by (rule integer_keyset) (simp_all add: steps_page_def require_execution_ok)

interpretation operation_listing: keyset_listing
  "\<lambda>d. execution_row d i \<noteq> None \<and> sequences_ok op_operation_number (filter (\<lambda>q. op_execution_id q = i) (db_operations d))"
  "operations_page i" "\<lambda>d. filter (\<lambda>q. op_execution_id q = i) (db_operations d)" op_operation_number "\<lambda>d. operation_view"
  ov_operation_number "\<lambda>q. encode_integer_cursor ''execution_operations'' (op_operation_number q)"
  by (rule integer_keyset) (simp_all add: operations_page_def require_execution_ok)

interpretation operation_step_listing: keyset_listing
  "\<lambda>d. require_operation d i q = Inr () \<and>
    sequences_ok st_sequence (filter (\<lambda>s. st_execution_id s = i \<and> st_operation_id s = Some q) (db_steps d))"
  "operation_steps_page i q" "\<lambda>d. filter (\<lambda>s. st_execution_id s = i \<and> st_operation_id s = Some q) (db_steps d)" st_sequence
  "\<lambda>d. step_to_domain" st_sequence "\<lambda>s. encode_integer_cursor ''execution_operation_steps'' (st_sequence s)"
  by (rule integer_keyset) (simp_all add: operation_steps_page_def)

interpretation attempt_listing: keyset_listing
  "\<lambda>d. execution_row d i \<noteq> None \<and> sequences_ok at_attempt_number (filter (\<lambda>a. at_execution_id a = i) (db_attempts d))"
  "attempts_page i" "\<lambda>d. filter (\<lambda>a. at_execution_id a = i) (db_attempts d)" at_attempt_number
  "\<lambda>d a. attempt_view a (step_attempt_count d (at_id a))" tv_attempt_number
  "\<lambda>a. encode_integer_cursor ''execution_attempts'' (at_attempt_number a)"
  by (rule integer_keyset) (simp_all add: attempts_page_def require_execution_ok)

interpretation step_attempt_listing: keyset_listing
  "\<lambda>d. require_attempt d i t = Inr () \<and> sequences_ok sa_sequence (filter (\<lambda>s. sa_execution_attempt_id s = t) (db_step_attempts d))"
  "attempt_steps_page i t" "\<lambda>d. filter (\<lambda>s. sa_execution_attempt_id s = t) (db_step_attempts d)" sa_sequence
  "\<lambda>d. step_attempt_view" sv_sequence "\<lambda>s. encode_integer_cursor ''execution_step_attempts'' (sa_sequence s)"
  by (rule integer_keyset) (simp_all add: attempt_steps_page_def)

text \<open>The events behind \<open>after_sequence\<close>: the first page starts at that number.\<close>

lemma keyset_rows_behind:
  "b \<le> k \<Longrightarrow> keyset_rows key (Some k) n (filter (\<lambda>r. b < key r) table) = keyset_rows key (Some k) n table"
  "keyset_rows key None n (filter (\<lambda>r. b < key r) table) = keyset_rows key (Some b) n table"
  by (auto simp: keyset_rows_def intro!: arg_cong [of _ _ "sort_key key"] arg_cong [of _ _ "take (Suc n)"] filter_cong)

interpretation event_listing: keyset_listing
  "\<lambda>d. execution_row d i \<noteq> None \<and> sequences_ok ev_event_sequence (filter (\<lambda>e. ev_execution_id e = i) (db_events d))"
  "events_page i b" "\<lambda>d. filter (\<lambda>e. b < ev_event_sequence e) (filter (\<lambda>e. ev_execution_id e = i) (db_events d))" ev_event_sequence
  "\<lambda>d e. event_view e (outbox_of d e)" ew_event_sequence "\<lambda>e. encode_integer_cursor ''execution_events'' (ev_event_sequence e)"
proof unfold_locales
  fix d d' :: db and r n
  assume ok: "execution_row d i \<noteq> None \<and> sequences_ok ev_event_sequence (filter (\<lambda>e. ev_execution_id e = i) (db_events d))"
  show "distinct (map ev_event_sequence (filter (\<lambda>e. b < ev_event_sequence e) (filter (\<lambda>e. ev_execution_id e = i) (db_events d))))"
    by (rule distinct_map_filter) (use ok in \<open>simp add: sequences_ok_def\<close>)
  show "events_page i b d None n = Inr (make_page (\<lambda>e. event_view e (outbox_of d e))
      (\<lambda>e. encode_integer_cursor ''execution_events'' (ev_event_sequence e)) n
      (keyset_rows ev_event_sequence None n (filter (\<lambda>e. b < ev_event_sequence e) (filter (\<lambda>e. ev_execution_id e = i) (db_events d)))))"
    using ok by (simp add: events_page_def require_execution_ok keyset_rows_behind(2) del: filter_filter)
  assume "execution_row d' i \<noteq> None \<and> sequences_ok ev_event_sequence (filter (\<lambda>e. ev_execution_id e = i) (db_events d'))"
    "r \<in> set (filter (\<lambda>e. b < ev_event_sequence e) (filter (\<lambda>e. ev_execution_id e = i) (db_events d')))"
  then show "events_page i b d (Some (encode_integer_cursor ''execution_events'' (ev_event_sequence r))) n =
      Inr (make_page (\<lambda>e. event_view e (outbox_of d e)) (\<lambda>e. encode_integer_cursor ''execution_events'' (ev_event_sequence e)) n
        (keyset_rows ev_event_sequence (Some (ev_event_sequence r)) n
          (filter (\<lambda>e. b < ev_event_sequence e) (filter (\<lambda>e. ev_execution_id e = i) (db_events d)))))"
    using ok by (simp add: events_page_def require_execution_ok keyset_rows_behind(1) sequences_ok_def decode_encode_integer del: filter_filter)
qed simp

subsection \<open>What a client sees\<close>

lemma reachable_events: "reachable d \<Longrightarrow> events_wf d"
  using system_steps_progress [of empty_db d] empty_db_ok unfolding reachable_def db_progress_def by blast

lemma event_numbers_distinct: "reachable d \<Longrightarrow> distinct (event_numbers d i)"
  using reachable_events unfolding events_wf_def by (metis distinct_upto)

text \<open>
  C33. Following the cursors of the listing of Executions with any positive page size returns, in a state
  that does not change meanwhile, exactly the Executions that pass the filter, newest first and each once, whatever the
  page size is.
\<close>

theorem executions_listing:
  assumes "reachable d" and "\<forall>e\<in>set (db_executions d). valid_instant (ex_created_at e) \<and> ex_id e < 2 ^ 128"
    and "0 < limit" and "length (db_executions d) < m"
  shows "walk (executions f) limit None (replicate m d) =
    Inr (map (\<lambda>e. summary_view e (step_count d (ex_id e)))
      (sort_key (\<lambda>e. newest_first (ex_created_at e, ex_id e)) (filter (execution_matches f) (db_executions d))), True)"
proof (rule execution_listing.walk_all)
  show "instants_ok ex_created_at ex_id (db_executions d)"
    using db_wf_executions [OF reachable_wf [OF assms(1)]] assms(2) by (simp add: instants_ok_def)
  show "length (filter (execution_matches f) (db_executions d)) < m"
    using assms(4) length_filter_le [of "execution_matches f" "db_executions d"] by linarith
qed (rule assms(3))

text \<open>
  C34. Following the cursors of the events of an Execution while the database changes between the requests
  never fails and never repeats an event: the numbers only grow, and every event shown is one behind
  the requested number that some request found. When the last page was reached, no event that was there at every
  request is missing.
\<close>

theorem events_listing_stable:
  assumes "\<forall>d\<in>set ds. execution_row d i \<noteq> None \<and> distinct (event_numbers d i) \<and> set (event_numbers d i) \<subseteq> {0..<10 ^ 100}"
    and "0 < limit"
  shows "\<exists>vs complete. walk (events_page i b) limit None ds = Inr (vs, complete) \<and>
    sorted_wrt (<) (map ew_event_sequence vs) \<and>
    (\<forall>v\<in>set vs. \<exists>d\<in>set ds. \<exists>e\<in>set (db_events d). ev_execution_id e = i \<and> b < ev_event_sequence e \<and> v = event_view e (outbox_of d e)) \<and>
    (complete \<longrightarrow> (\<forall>q. b < q \<and> (\<forall>d\<in>set ds. q \<in> set (event_numbers d i)) \<longrightarrow> q \<in> ew_event_sequence ` set vs))"
proof -
  let ?es = "\<lambda>d. filter (\<lambda>e. b < ev_event_sequence e) (filter (\<lambda>e. ev_execution_id e = i) (db_events d))"
  have ok: "\<forall>d\<in>set ds. execution_row d i \<noteq> None \<and> sequences_ok ev_event_sequence (filter (\<lambda>e. ev_execution_id e = i) (db_events d))"
    using assms(1) by (force simp: sequences_ok_def event_numbers_def)
  obtain vs complete where w: "walk (events_page i b) limit None ds = Inr (vs, complete)" "sorted_wrt (<) (map ew_event_sequence vs)"
      "\<forall>v\<in>set vs. \<exists>d\<in>set ds. v \<in> (\<lambda>e. event_view e (outbox_of d e)) ` set (?es d)"
      "complete \<longrightarrow> (\<forall>q. (\<forall>d\<in>set ds. q \<in> ev_event_sequence ` set (?es d)) \<longrightarrow> q \<in> ew_event_sequence ` set vs)"
    using event_listing.walk_stable [OF assms(2) ok, where b = b] by blast
  have "\<exists>d\<in>set ds. \<exists>e\<in>set (db_events d). ev_execution_id e = i \<and> b < ev_event_sequence e \<and> v = event_view e (outbox_of d e)"
    if "v \<in> set vs" for v using w(3) that by fastforce
  moreover have "q \<in> ew_event_sequence ` set vs" if "complete" "b < q" "\<forall>d\<in>set ds. q \<in> set (event_numbers d i)" for q
  proof -
    have "q \<in> ev_event_sequence ` set (?es d)" if "d \<in> set ds" for d
      using \<open>\<forall>d\<in>set ds. q \<in> set (event_numbers d i)\<close> \<open>b < q\<close> that by (force simp: event_numbers_def)
    then show ?thesis using w(4) \<open>complete\<close> by blast
  qed
  ultimately show ?thesis using w(1,2) by blast
qed

subsection \<open>Listings of the demo service\<close>

lemma demo_service_rows:
  "map (\<lambda>e. (ex_id e, ex_created_at e)) (db_executions demo_service) = [(10, 5)]" "map ex_user_id (db_executions demo_service) = [''u'']"
  by code_simp+

theorem executions_listing_witness:
  "\<exists>vs. walk (executions \<lparr>ef_user_id = Some ''u'', ef_project_id = None, ef_session_id = None, ef_tenant_id = None,
     ef_trigger_type = None, ef_status = None\<rparr>) 1 None (replicate 2 demo_service) = Inr (vs, True) \<and> map xv_id vs = [10]"
proof -
  obtain e where e: "db_executions demo_service = [e]" "ex_id e = 10" "ex_created_at e = 5" "ex_user_id e = ''u''"
    using demo_service_rows by (auto simp: map_eq_Cons_conv)
  have "\<forall>x\<in>set (db_executions demo_service). valid_instant (ex_created_at x) \<and> ex_id x < 2 ^ 128"
    by (simp add: e valid_instant_def EPOCH_DAYS_def DAY_def)
  from executions_listing [OF demo_service_reachable this, of 1 2] e show ?thesis by (simp add: execution_matches_def)
qed

text \<open>The first request finds one event; before the second another one is written.\<close>

definition demo_two_events :: "worker_error + db" where
  "demo_two_events = persist_execution_event demo_mint 8 10 (OperationStarted \<lparr>or_id = 20, or_number = 1, or_step_count = 1\<rparr>) demo_with_event"

lemma demo_event_numbers:
  "execution_row demo_with_event 10 \<noteq> None \<and> event_numbers demo_with_event 10 = [1]"
  "(case demo_two_events of Inr d \<Rightarrow> execution_row d 10 \<noteq> None \<and> event_numbers d 10 = [1, 2] | Inl _ \<Rightarrow> False)"
  by code_simp+

theorem events_listing_stable_witness:
  "\<exists>d vs complete. demo_two_events = Inr d \<and> walk (events_page 10 0) 1 None [d, demo_with_event, d] = Inr (vs, complete) \<and>
     sorted_wrt (<) (map ew_event_sequence vs) \<and> (complete \<longrightarrow> 1 \<in> ew_event_sequence ` set vs)"
proof -
  obtain d where d: "demo_two_events = Inr d" "execution_row d 10 \<noteq> None" "event_numbers d 10 = [1, 2]"
    using demo_event_numbers(2) by (auto split: sum.splits)
  have "\<forall>x\<in>set [d, demo_with_event, d]. execution_row x 10 \<noteq> None \<and> distinct (event_numbers x 10) \<and>
      set (event_numbers x 10) \<subseteq> {0..<10 ^ 100}"
    using d(2,3) demo_event_numbers(1) by simp
  from events_listing_stable [OF this, of 1 0] obtain vs complete
    where w: "walk (events_page 10 0) 1 None [d, demo_with_event, d] = Inr (vs, complete)" "sorted_wrt (<) (map ew_event_sequence vs)"
      "complete \<longrightarrow> (\<forall>q. 0 < q \<and> (\<forall>d\<in>set [d, demo_with_event, d]. q \<in> set (event_numbers d 10)) \<longrightarrow> q \<in> ew_event_sequence ` set vs)"
    by auto
  have "complete \<longrightarrow> 1 \<in> ew_event_sequence ` set vs" using w(3) d(3) demo_event_numbers(1) by auto
  then show ?thesis using d(1) w(1,2) by blast
qed

end
