(* ===== verification/Runtime_Registry.thy ===== *)
theory Runtime_Registry
  imports Execution_Queries
begin

text \<open>
  The registry of Runtime Targets (\<open>infrastructure/runtime_registry\<close>, \<open>infrastructure/runtime_adapters.py\<close>):
  registering and changing a Target, disabling and draining it, the health probe, and the purge that leaves a
  tombstone. Every command is one transaction with a receipt; a probe reads the Target, asks its driver outside
  of any transaction and records the answers in a second one, unless the Target changed meanwhile.

  Arguments that stand for code outside the service: the URL parser (\<open>urlsplit\<close>, with the port it
  parsed), the digest, the cipher, and the answers of the driver. The wording of a failed probe
  (\<open>failure_message\<close>, the list of profiles) is part of those answers.

  The theorems say which rows the registry can contain, that a Target in use keeps its identity and cannot be
  purged, and that a probe never overrules the operator.
\<close>

subsection \<open>Endpoints\<close>

record url_parts =
  up_scheme :: string
  up_hostname :: "string option"
  up_username :: "string option"
  up_password :: "string option"
  up_port :: "nat option"
  up_path :: string
  up_query :: string
  up_fragment :: string

type_synonym url_parser = "string \<Rightarrow> url_parts option"

fun default_port :: "string \<Rightarrow> nat option" where
  "default_port s = (if s = ''http'' then Some 80 else if s = ''https'' then Some 443 else None)"

definition MAX_CONNECTION_KEY_LENGTH :: nat where
  "MAX_CONNECTION_KEY_LENGTH = 2048"

definition rstrip_slash :: "string \<Rightarrow> string" where
  "rstrip_slash s = rev (dropWhile (\<lambda>c. c = CHR ''/'') (rev s))"

definition normalize_endpoint :: "url_parser \<Rightarrow> string \<Rightarrow> domain_error + string" where
  "normalize_endpoint urlsplit endpoint =
     (case urlsplit (strip endpoint) of
        None \<Rightarrow> Inl RuntimeTargetConfigurationError
      | Some parts \<Rightarrow>
          (case (default_port (up_scheme parts), up_hostname parts) of
             (Some standard, Some hostname) \<Rightarrow>
               if hostname = [] \<or> up_username parts \<noteq> None \<or> up_password parts \<noteq> None \<or> up_query parts \<noteq> [] \<or>
                  up_fragment parts \<noteq> [] then Inl RuntimeTargetConfigurationError
               else
                 (let host = (if CHR '':'' \<in> set hostname then ''['' @ hostname @ '']'' else hostname);
                      host = (case up_port parts of
                                None \<Rightarrow> host
                              | Some port \<Rightarrow> if port \<noteq> standard then host @ '':'' @ nat_str port else host);
                      normalized = up_scheme parts @ ''://'' @ host @ rstrip_slash (up_path parts)
                  in if MAX_CONNECTION_KEY_LENGTH < length normalized then Inl RuntimeTargetConfigurationError
                     else Inr normalized)
           | _ \<Rightarrow> Inl RuntimeTargetConfigurationError))"

definition endpoint_config :: "string \<Rightarrow> json" where
  "endpoint_config endpoint = JObj [(''endpoint'', JStr endpoint)]"

definition normalize_connection_config :: "url_parser \<Rightarrow> json \<Rightarrow> domain_error + string" where
  "normalize_connection_config urlsplit config =
     (case config of
        JObj kvs \<Rightarrow>
          (case map_of kvs ''endpoint'' of
             Some (JStr endpoint) \<Rightarrow>
               if list_all (\<lambda>(k, v). k = ''endpoint'') kvs then normalize_endpoint urlsplit endpoint
               else Inl RuntimeTargetConfigurationError
           | _ \<Rightarrow> Inl RuntimeTargetConfigurationError)
      | _ \<Rightarrow> Inl RuntimeTargetConfigurationError)"

subsection \<open>Rows, commands and views\<close>

record purge_orm =
  pu_id :: uuid
  pu_target_id :: uuid
  pu_target_name :: string
  pu_runtime_type :: runtime_type
  pu_connection_config :: json
  pu_pool :: runtime_pool
  pu_created_by_client :: "string option"
  pu_created_by :: "string option"
  pu_updated_by_client :: "string option"
  pu_updated_by :: "string option"
  pu_created_at :: datetime
  pu_updated_at :: datetime

record registry_db =
  rg_db :: db
  rg_purges :: "purge_orm list"

record upsert_target_command =
  uc_idempotency_key :: string
  uc_name :: string
  uc_connection_config :: json
  uc_credential :: "string option"
  uc_pool :: runtime_pool
  uc_runtime_type :: runtime_type
  uc_actor_client :: "string option"
  uc_actor_id :: "string option"
  uc_max_concurrent_executions :: "int option"

record disable_target_command =
  dc_idempotency_key :: string
  dc_target_id :: uuid
  dc_actor_client :: "string option"
  dc_actor_id :: "string option"

record set_target_state_command = disable_target_command +
  dc_desired_state :: runtime_target_status

record purge_target_command =
  pc_target_id :: uuid
  pc_actor_client :: "string option"
  pc_actor_id :: "string option"

record runtime_target_view =
  rv_id :: uuid
  rv_name :: string
  rv_runtime_type :: runtime_type
  rv_connection_config :: json
  rv_pool :: runtime_pool
  rv_status :: runtime_target_status
  rv_enabled :: bool
  rv_max_concurrent_executions :: int
  rv_supported_profiles :: "string list"
  rv_active_execution_count :: int
  rv_active_session_count :: "int option"
  rv_admission_used_count :: int
  rv_session_count_observed_at :: "datetime option"
  rv_session_count_fresh :: bool
  rv_last_health_check_at :: "datetime option"
  rv_last_health_error :: "string option"
  rv_resource_observed_at :: "datetime option"
  rv_resource_last_check_at :: "datetime option"
  rv_resource_last_error :: "string option"
  rv_resource_fresh :: bool
  rv_resource_source :: "string option"
  rv_resource_estimated :: "bool option"
  rv_resource_process_count :: "int option"
  rv_cpu_used_cores :: "rat option"
  rv_cpu_capacity_cores :: "rat option"
  rv_cpu_utilization :: "rat option"
  rv_memory_used_bytes :: "int option"
  rv_memory_capacity_bytes :: "int option"
  rv_memory_utilization :: "rat option"
  rv_resource_pressure_score :: "rat option"
  rv_resource_errors :: "string list"
  rv_created_by_client :: "string option"
  rv_created_by :: "string option"
  rv_updated_by_client :: "string option"
  rv_updated_by :: "string option"
  rv_created_at :: datetime
  rv_updated_at :: datetime

definition target_view_of :: "worker_settings \<Rightarrow> datetime \<Rightarrow> db \<Rightarrow> runtime_target_orm \<Rightarrow> runtime_target_view" where
  "target_view_of ws now d target =
     (let reserved = count_runtime_reservations (rt_id target) now d;
          used = admission_used_count (ws_runtime_session_count_max_age ws) target reserved now;
          fresh = has_fresh_resource_observation ws target now in
        \<lparr>rv_id = rt_id target, rv_name = rt_name target, rv_runtime_type = rt_runtime_type target,
         rv_connection_config = rt_connection_config target, rv_pool = rt_pool target, rv_status = rt_status target,
         rv_enabled = rt_enabled target, rv_max_concurrent_executions = rt_max_concurrent_executions target,
         rv_supported_profiles = rt_supported_profiles target, rv_active_execution_count = reserved,
         rv_active_session_count = rt_active_session_count target, rv_admission_used_count = used,
         rv_session_count_observed_at = rt_session_count_observed_at target,
         rv_session_count_fresh = session_count_is_fresh (ws_runtime_session_count_max_age ws) target now,
         rv_last_health_check_at = rt_last_health_check_at target,
         rv_last_health_error = rt_last_health_error target,
         rv_resource_observed_at = rt_resource_observed_at target,
         rv_resource_last_check_at = rt_resource_last_check_at target,
         rv_resource_last_error = rt_resource_last_error target, rv_resource_fresh = fresh,
         rv_resource_source = rt_resource_source target, rv_resource_estimated = rt_resource_estimated target,
         rv_resource_process_count = rt_resource_process_count target, rv_cpu_used_cores = rt_cpu_used_cores target,
         rv_cpu_capacity_cores = rt_cpu_capacity_cores target, rv_cpu_utilization = rt_cpu_utilization target,
         rv_memory_used_bytes = rt_memory_used_bytes target,
         rv_memory_capacity_bytes = rt_memory_capacity_bytes target,
         rv_memory_utilization = rt_memory_utilization target,
         rv_resource_pressure_score = (if fresh then Some (max_with (max_with (of_int used / of_int (rt_max_concurrent_executions target)) (rt_cpu_utilization target)) (rt_memory_utilization target)) else None),
         rv_resource_errors = rt_resource_errors target, rv_created_by_client = rt_created_by_client target,
         rv_created_by = rt_created_by target, rv_updated_by_client = rt_updated_by_client target,
         rv_updated_by = rt_updated_by target, rv_created_at = rt_created_at target,
         rv_updated_at = rt_updated_at target\<rparr>)"

definition admission_blocked :: "runtime_target_view \<Rightarrow> bool" where
  "admission_blocked v \<longleftrightarrow> rv_max_concurrent_executions v \<le> rv_admission_used_count v"

definition accepting_new_executions :: "runtime_target_view \<Rightarrow> bool" where
  "accepting_new_executions v \<longleftrightarrow> rv_enabled v \<and> rv_status v = TS_ACTIVE \<and> \<not> admission_blocked v"

definition drain_complete :: "runtime_target_view \<Rightarrow> bool" where
  "drain_complete v \<longleftrightarrow> rv_status v = TS_DRAINING \<and> rv_admission_used_count v = 0"

definition available_capacity :: "runtime_target_view \<Rightarrow> int" where
  "available_capacity v =
     (if accepting_new_executions v then max 0 (rv_max_concurrent_executions v - rv_admission_used_count v) else 0)"

record runtime_pool_view =
  pv_runtime_type :: runtime_type
  pv_pool :: runtime_pool
  pv_target_count :: nat
  pv_enabled_target_count :: nat
  pv_active_target_count :: nat
  pv_draining_target_count :: nat
  pv_offline_target_count :: nat
  pv_configured_capacity :: int
  pv_schedulable_capacity :: int
  pv_active_execution_count :: int
  pv_available_capacity :: int
  pv_last_health_check_at :: "datetime option"

definition pool_summary :: "runtime_type \<Rightarrow> runtime_pool \<Rightarrow> runtime_target_view list \<Rightarrow> runtime_pool_view" where
  "pool_summary runtime_type pool vs =
     (let enabled = filter rv_enabled vs; active = filter (\<lambda>v. rv_status v = TS_ACTIVE) enabled;
          checks = List.map_filter rv_last_health_check_at vs
      in \<lparr>pv_runtime_type = runtime_type, pv_pool = pool, pv_target_count = length vs,
          pv_enabled_target_count = length enabled, pv_active_target_count = length active,
          pv_draining_target_count = length (filter (\<lambda>v. rv_status v = TS_DRAINING) vs),
          pv_offline_target_count = length (filter (\<lambda>v. rv_status v = TS_OFFLINE) vs),
          pv_configured_capacity = sum_list (map rv_max_concurrent_executions enabled),
          pv_schedulable_capacity = sum_list (map rv_max_concurrent_executions active),
          pv_active_execution_count = sum_list (map rv_active_execution_count vs),
          pv_available_capacity = sum_list (map available_capacity active),
          pv_last_health_check_at = (if checks = [] then None else Some (foldl max (hd checks) (tl checks)))\<rparr>)"

definition pool_accepting :: "runtime_pool_view \<Rightarrow> bool" where
  "pool_accepting p \<longleftrightarrow> 0 < pv_available_capacity p"

definition pool_saturated :: "runtime_pool_view \<Rightarrow> bool" where
  "pool_saturated p \<longleftrightarrow> 0 < pv_active_target_count p \<and> pv_available_capacity p = 0"

definition required_target :: "db \<Rightarrow> uuid \<Rightarrow> domain_error + runtime_target_orm" where
  "required_target d target_id =
     (case scalar (\<lambda>t. rt_id t = target_id) (db_targets d) of
        None \<Rightarrow> Inl RuntimeTargetNotFoundError
      | Some t \<Rightarrow> Inr t)"

record target_filter =
  tf_pool :: "runtime_pool option"
  tf_runtime_type :: "runtime_type option"
  tf_status :: "runtime_target_status option"
  tf_enabled :: "bool option"

definition target_matches :: "target_filter \<Rightarrow> runtime_target_orm \<Rightarrow> bool" where
  "target_matches f t \<longleftrightarrow>
     (tf_pool f = None \<or> tf_pool f = Some (rt_pool t)) \<and> (tf_runtime_type f = None \<or> tf_runtime_type f = Some (rt_runtime_type t)) \<and>
     (tf_status f = None \<or> tf_status f = Some (rt_status t)) \<and> (tf_enabled f = None \<or> tf_enabled f = Some (rt_enabled t))"

definition runtime_targets ::
    "worker_settings \<Rightarrow> datetime \<Rightarrow> target_filter \<Rightarrow> db \<Rightarrow> string option \<Rightarrow> nat \<Rightarrow> domain_error + runtime_target_view page" where
  "runtime_targets ws now f d cursor limit =
     time_listing oldest_first ''runtime_targets'' rt_created_at rt_id (target_view_of ws now d)
       (filter (target_matches f) (db_targets d)) cursor limit"

lemma target_view_of_key [simp]: "rv_created_at (target_view_of ws now d t) = rt_created_at t" "rv_id (target_view_of ws now d t) = rt_id t"
  by (simp_all add: target_view_of_def Let_def)

interpretation runtime_target_listing: keyset_listing
  "\<lambda>d. instants_ok rt_created_at rt_id (db_targets d)" "runtime_targets ws now f" "\<lambda>d. filter (target_matches f) (db_targets d)"
  "\<lambda>t. oldest_first (rt_created_at t, rt_id t)" "\<lambda>d. target_view_of ws now d"
  "\<lambda>v. oldest_first (rv_created_at v, rv_id v)" "\<lambda>t. encode_time_cursor ''runtime_targets'' (rt_created_at t) (rt_id t)"
  by (rule time_keyset) (simp_all add: instants_ok_filter runtime_targets_def)

definition pool_summaries :: "worker_settings \<Rightarrow> datetime \<Rightarrow> db \<Rightarrow> runtime_pool_view list" where
  "pool_summaries ws now d =
     (let views = map (target_view_of ws now d) (sort_key rt_created_at (db_targets d)) in
      [pool_summary ty pool (filter (\<lambda>v. rv_runtime_type v = ty \<and> rv_pool v = pool) views).
         ty \<leftarrow> [RT_JUPYTER], pool \<leftarrow> [RP_INTERACTIVE, RP_BATCH]])"

subsection \<open>Receipts\<close>

definition repeated_result :: "db \<Rightarrow> string \<Rightarrow> string \<Rightarrow> string \<Rightarrow> domain_error + uuid option" where
  "repeated_result d idempotency_key command_type fingerprint =
     (case scalar (\<lambda>r. cr_scope r = GLOBAL_RECEIPT_SCOPE \<and> cr_idempotency_key r = idempotency_key) (db_receipts d) of
        None \<Rightarrow> Inr None
      | Some receipt \<Rightarrow>
          if cr_command_type receipt \<noteq> command_type \<or> cr_request_fingerprint receipt \<noteq> fingerprint
          then Inl IdempotencyConflictError
          else
            (case json_get ''target_id'' (cr_result receipt) of
               Some (JStr s) \<Rightarrow> (case uuid_parse s of None \<Rightarrow> Inl RuntimeValueError | Some i \<Rightarrow> Inr (Some i))
             | _ \<Rightarrow> Inl RuntimeValueError))"

definition add_receipt :: "datetime \<Rightarrow> uuid \<Rightarrow> string \<Rightarrow> string \<Rightarrow> string \<Rightarrow> uuid \<Rightarrow> db \<Rightarrow> domain_error + db" where
  "add_receipt now receipt_id idempotency_key command_type fingerprint target_id d =
     (case insert_command_receipt
             \<lparr>cr_id = receipt_id, cr_scope = GLOBAL_RECEIPT_SCOPE, cr_idempotency_key = idempotency_key,
              cr_command_type = command_type, cr_request_fingerprint = fingerprint,
              cr_result = JObj [(''target_id'', JStr (uuid_str target_id))], cr_created_at = now\<rparr> d of
        None \<Rightarrow> Inl IntegrityError
      | Some d' \<Rightarrow> Inr d')"

definition secret_hash :: "(string \<Rightarrow> string) \<Rightarrow> string option \<Rightarrow> string option" where
  "secret_hash sha256 secret = map_option (\<lambda>s. sha256 (utf8_encode s)) secret"

subsection \<open>Registering and changing a Target\<close>

text \<open>The constraints of \<open>runtime_targets\<close>, checked when the session flushes.\<close>

definition target_row_ok :: "runtime_target_orm \<Rightarrow> bool" where
  "target_row_ok t \<longleftrightarrow>
     0 < rt_max_concurrent_executions t \<and> (case rt_active_session_count t of None \<Rightarrow> True | Some n \<Rightarrow> 0 \<le> n)"

definition target_keys_ok :: "runtime_target_orm list \<Rightarrow> bool" where
  "target_keys_ok ts \<longleftrightarrow> distinct (map rt_id ts) \<and> distinct (map rt_name ts) \<and> distinct (map rt_connection_key ts)"

definition flush_targets :: "domain_error \<Rightarrow> runtime_target_orm list \<Rightarrow> db \<Rightarrow> domain_error + db" where
  "flush_targets err ts d = (if list_all target_row_ok ts \<and> target_keys_ok ts then Inr (d\<lparr>db_targets := ts\<rparr>) else Inl err)"

definition upsert_payload :: "(string \<Rightarrow> string) \<Rightarrow> string \<Rightarrow> upsert_target_command \<Rightarrow> json" where
  "upsert_payload sha256 endpoint c =
     JObj [(''name'', JStr (uc_name c)), (''runtime_type'', JStr (runtime_type_value (uc_runtime_type c))),
           (''connection_config'', endpoint_config endpoint),
           (''credential_sha256'', json_opt_str (secret_hash sha256 (uc_credential c))),
           (''pool'', JStr (runtime_pool_value (uc_pool c))),
           (''max_concurrent_executions'', json_opt_int (uc_max_concurrent_executions c)),
           (''actor_client'', json_opt_str (uc_actor_client c)), (''actor_id'', json_opt_str (uc_actor_id c))]"

definition new_target_row ::
    "(string \<Rightarrow> string) \<Rightarrow> int \<Rightarrow> datetime \<Rightarrow> uuid \<Rightarrow> string \<Rightarrow> upsert_target_command \<Rightarrow> string \<Rightarrow> runtime_target_orm" where
  "new_target_row encrypt default_max now target_id endpoint c credential =
     \<lparr>rt_id = target_id, rt_name = uc_name c, rt_runtime_type = uc_runtime_type c,
      rt_connection_config = endpoint_config endpoint, rt_connection_key = endpoint,
      rt_credential_ref = ''encrypted:database'', rt_credential_ciphertext = Some (encrypt credential),
      rt_pool = uc_pool c, rt_status = TS_OFFLINE,
      rt_max_concurrent_executions =
        (case uc_max_concurrent_executions c of None \<Rightarrow> default_max | Some n \<Rightarrow> if n = 0 then default_max else n),
      rt_supported_profiles = [], rt_enabled = True, rt_last_health_check_at = None, rt_last_health_error = None,
      rt_active_session_count = None, rt_session_count_observed_at = None, rt_resource_observed_at = None,
      rt_resource_last_check_at = None, rt_resource_last_error = None, rt_resource_source = None,
      rt_resource_estimated = None, rt_resource_process_count = None, rt_cpu_used_cores = None,
      rt_cpu_capacity_cores = None, rt_cpu_utilization = None, rt_memory_used_bytes = None,
      rt_memory_capacity_bytes = None, rt_memory_utilization = None, rt_resource_errors = [],
      rt_created_by_client = uc_actor_client c, rt_created_by = uc_actor_id c,
      rt_updated_by_client = uc_actor_client c, rt_updated_by = uc_actor_id c, rt_created_at = now, rt_updated_at = now\<rparr>"

definition identity_changed :: "string \<Rightarrow> upsert_target_command \<Rightarrow> runtime_target_orm \<Rightarrow> bool" where
  "identity_changed endpoint c t \<longleftrightarrow> rt_connection_config t \<noteq> endpoint_config endpoint \<or> rt_pool t \<noteq> uc_pool c"

definition forget_observations :: "runtime_target_orm \<Rightarrow> runtime_target_orm" where
  "forget_observations t =
     t\<lparr>rt_supported_profiles := [], rt_active_session_count := None, rt_session_count_observed_at := None,
       rt_resource_observed_at := None, rt_last_health_check_at := None,
       rt_last_health_error := Some ''RUNTIME_CONFIGURATION_CHANGED: Health probe required.'',
       rt_status := (if rt_status t \<noteq> TS_DRAINING then TS_OFFLINE else rt_status t)\<rparr>"

definition set_actor :: "string option \<Rightarrow> string option \<Rightarrow> runtime_target_orm \<Rightarrow> runtime_target_orm" where
  "set_actor actor_client actor_id t =
     (if actor_client \<noteq> None then t\<lparr>rt_updated_by_client := actor_client, rt_updated_by := actor_id\<rparr> else t)"

definition changed_target ::
    "(string \<Rightarrow> string) \<Rightarrow> datetime \<Rightarrow> string \<Rightarrow> upsert_target_command \<Rightarrow> runtime_target_orm \<Rightarrow> runtime_target_orm" where
  "changed_target encrypt now endpoint c t =
     (let t1 = (if identity_changed endpoint c t then forget_observations t else t);
          t2 = t1\<lparr>rt_connection_config := endpoint_config endpoint, rt_connection_key := endpoint,
                  rt_pool := uc_pool c, rt_enabled := True\<rparr>;
          t3 = (case uc_max_concurrent_executions c of
                  None \<Rightarrow> t2 | Some n \<Rightarrow> t2\<lparr>rt_max_concurrent_executions := n\<rparr>);
          t4 = (case uc_credential c of
                  None \<Rightarrow> t3
                | Some s \<Rightarrow> t3\<lparr>rt_credential_ref := ''encrypted:database'', rt_credential_ciphertext := Some (encrypt s)\<rparr>)
      in set_actor (uc_actor_client c) (uc_actor_id c) (t4\<lparr>rt_updated_at := now\<rparr>))"

datatype registration = Repeated runtime_target_view | Registered uuid

definition write_target :: "runtime_target_orm \<Rightarrow> runtime_target_orm list \<Rightarrow> runtime_target_orm list" where
  "write_target t ts = update_where (\<lambda>x. rt_id x = rt_id t) (\<lambda>_. t) ts"

text \<open>The Targets after a registration under a name that is new, or taken.\<close>

definition registered_rows ::
    "(string \<Rightarrow> string) \<Rightarrow> int \<Rightarrow> datetime \<Rightarrow> uuid \<Rightarrow> string \<Rightarrow> upsert_target_command \<Rightarrow> db \<Rightarrow>
       domain_error + (uuid \<times> runtime_target_orm list)" where
  "registered_rows encrypt default_max now new_id endpoint c d =
     (case scalar (\<lambda>t. rt_name t = uc_name c) (db_targets d) of
        None \<Rightarrow>
          (case uc_credential c of
             None \<Rightarrow> Inl RuntimeTargetConfigurationError
           | Some credential \<Rightarrow>
               if credential = [] then Inl RuntimeTargetConfigurationError
               else Inr (new_id, db_targets d @ [new_target_row encrypt default_max now new_id endpoint c credential]))
      | Some t \<Rightarrow>
          if rt_runtime_type t \<noteq> uc_runtime_type c then Inl RuntimeTargetConfigurationError
          else if identity_changed endpoint c t \<and> count_runtime_reservations (rt_id t) now d \<noteq> 0
          then Inl RuntimeTargetConfigurationError
          else Inr (rt_id t, write_target (changed_target encrypt now endpoint c t) (db_targets d)))"

text \<open>The transaction of \<open>upsert\<close>; a new registration is probed after it committed.\<close>

definition register_target ::
    "url_parser \<Rightarrow> (string \<Rightarrow> string) \<Rightarrow> (string \<Rightarrow> string) \<Rightarrow> worker_settings \<Rightarrow> int \<Rightarrow> datetime \<Rightarrow> uuid \<Rightarrow> uuid \<Rightarrow>
       upsert_target_command \<Rightarrow> registry_db \<Rightarrow> domain_error + (registry_db \<times> registration)" where
  "register_target urlsplit sha256 encrypt ws default_max now new_id receipt_id c m =
     bind_res (normalize_connection_config urlsplit (uc_connection_config c)) (\<lambda>endpoint.
     let d = rg_db m; fingerprint = canonical_sha256 sha256 (upsert_payload sha256 endpoint c) in
     bind_res (repeated_result d (uc_idempotency_key c) ''runtime_target.upsert'' fingerprint) (\<lambda>repeated.
     case repeated of
       Some i \<Rightarrow>
         (case scalar (\<lambda>t. rt_id t = i) (db_targets d) of
            None \<Rightarrow> Inl IdempotencyConflictError
          | Some t \<Rightarrow> Inr (m, Repeated (target_view_of ws now d t)))
     | None \<Rightarrow>
         bind_res (raise_if (list_ex (\<lambda>t. rt_connection_key t = endpoint \<and> rt_name t \<noteq> uc_name c) (db_targets d))
           RuntimeTargetEndpointConflictError) (\<lambda>_.
         bind_res (registered_rows encrypt default_max now new_id endpoint c d)
           (\<lambda>(target_id, ts).
         bind_res (flush_targets PersistenceConflictError ts d) (\<lambda>d1.
         bind_res (add_receipt now receipt_id (uc_idempotency_key c) ''runtime_target.upsert'' fingerprint target_id d1) (\<lambda>d2.
           Inr (m\<lparr>rg_db := d2\<rparr>, Registered target_id)))))))"

subsection \<open>Disabling and draining\<close>

definition disable_payload :: "disable_target_command \<Rightarrow> json" where
  "disable_payload c =
     JObj [(''target_id'', JStr (uuid_str (dc_target_id c))), (''actor_client'', json_opt_str (dc_actor_client c)),
           (''actor_id'', json_opt_str (dc_actor_id c))]"

definition disable_target ::
    "(string \<Rightarrow> string) \<Rightarrow> worker_settings \<Rightarrow> datetime \<Rightarrow> uuid \<Rightarrow> disable_target_command \<Rightarrow> registry_db \<Rightarrow>
       domain_error + (registry_db \<times> runtime_target_view)" where
  "disable_target sha256 ws now receipt_id c m =
     (let d = rg_db m; fingerprint = canonical_sha256 sha256 (disable_payload c) in
      bind_res (repeated_result d (dc_idempotency_key c) ''runtime_target.disable'' fingerprint) (\<lambda>repeated.
      case repeated of
        Some i \<Rightarrow> bind_res (required_target d i) (\<lambda>t. Inr (m, target_view_of ws now d t))
      | None \<Rightarrow>
          bind_res (required_target d (dc_target_id c)) (\<lambda>t.
          let t' = set_actor (dc_actor_client c) (dc_actor_id c) (t\<lparr>rt_enabled := False, rt_status := TS_OFFLINE, rt_updated_at := now\<rparr>) in
          bind_res (add_receipt now receipt_id (dc_idempotency_key c) ''runtime_target.disable'' fingerprint (rt_id t)
            (d\<lparr>db_targets := write_target t' (db_targets d)\<rparr>)) (\<lambda>d1.
            Inr (m\<lparr>rg_db := d1\<rparr>, target_view_of ws now d t')))))"

fun target_status_value :: "runtime_target_status \<Rightarrow> string" where
  "target_status_value TS_ACTIVE = ''ACTIVE''"
| "target_status_value TS_DRAINING = ''DRAINING''"
| "target_status_value TS_OFFLINE = ''OFFLINE''"

definition set_state_payload :: "set_target_state_command \<Rightarrow> json" where
  "set_state_payload c =
     JObj [(''target_id'', JStr (uuid_str (dc_target_id c))), (''desired_state'', JStr (target_status_value (dc_desired_state c))),
           (''actor_client'', json_opt_str (dc_actor_client c)), (''actor_id'', json_opt_str (dc_actor_id c))]"

text \<open>The transaction of \<open>set_state\<close>; a Target that shall be ACTIVE is probed after it committed.\<close>

definition set_target_state ::
    "(string \<Rightarrow> string) \<Rightarrow> worker_settings \<Rightarrow> datetime \<Rightarrow> uuid \<Rightarrow> set_target_state_command \<Rightarrow> registry_db \<Rightarrow>
       domain_error + (registry_db \<times> registration)" where
  "set_target_state sha256 ws now receipt_id c m =
     (let d = rg_db m; fingerprint = canonical_sha256 sha256 (set_state_payload c) in
      if dc_desired_state c \<notin> {TS_ACTIVE, TS_DRAINING} then Inl RuntimeTargetConfigurationError else
      bind_res (repeated_result d (dc_idempotency_key c) ''runtime_target.set_state'' fingerprint) (\<lambda>repeated.
      case repeated of
        Some i \<Rightarrow> bind_res (required_target d i) (\<lambda>t. Inr (m, Repeated (target_view_of ws now d t)))
      | None \<Rightarrow>
          bind_res (required_target d (dc_target_id c)) (\<lambda>t.
          let t' = set_actor (dc_actor_client c) (dc_actor_id c)
                (t\<lparr>rt_enabled := True, rt_status := (if dc_desired_state c = TS_ACTIVE then TS_OFFLINE else TS_DRAINING), rt_updated_at := now\<rparr>) in
          bind_res (add_receipt now receipt_id (dc_idempotency_key c) ''runtime_target.set_state'' fingerprint (rt_id t)
            (d\<lparr>db_targets := write_target t' (db_targets d)\<rparr>)) (\<lambda>d1.
            Inr (m\<lparr>rg_db := d1\<rparr>, Registered (rt_id t))))))"

subsection \<open>The health probe\<close>

datatype 'a answer = Answer 'a | Failure string

record resource_metric =
  rm_used :: "rat option"
  rm_capacity :: "rat option"
  rm_utilization :: "rat option"
  rm_source :: "string option"
  rm_estimated :: "bool option"
  rm_errors :: "string list"

record resource_observation =
  rb_observed_at :: datetime
  rb_process_count :: "int option"
  rb_cpu :: resource_metric
  rb_memory :: resource_metric

record probe_answers =
  pa_status :: "json answer"
  pa_profiles :: "string list answer"
  pa_resource :: "resource_observation answer"
  pa_mismatch_text :: string

record probe_result =
  pr_profiles :: "string list"
  pr_active_session_count :: "int option"
  pr_error :: "string option"
  pr_resource :: "resource_observation option"
  pr_resource_error :: "string option"

text \<open>\<open>" ".join(message.split())\<close>.\<close>

function words :: "string \<Rightarrow> string list" where
  "words s =
     (case dropWhile is_space s of
        [] \<Rightarrow> []
      | c # cs \<Rightarrow> (c # takeWhile (\<lambda>x. \<not> is_space x) cs) # words (dropWhile (\<lambda>x. \<not> is_space x) cs))"
  by pat_completeness auto
termination
proof (relation "measure length")
  fix s c cs
  assume "dropWhile is_space s = c # cs"
  then have "Suc (length cs) \<le> length s" using length_dropWhile_le [of is_space s] by simp
  then show "(dropWhile (\<lambda>x. \<not> is_space x) cs, s) \<in> measure length"
    using length_dropWhile_le [of "\<lambda>x. \<not> is_space x" cs] by simp
qed simp

declare words.simps [simp del]

definition MAX_PERSISTED_ERROR_LENGTH :: nat where
  "MAX_PERSISTED_ERROR_LENGTH = 500"

definition bounded_error :: "string \<Rightarrow> string \<Rightarrow> string" where
  "bounded_error code message = take MAX_PERSISTED_ERROR_LENGTH (code @ '': '' @ join '' '' (words message))"

definition probed_sessions :: "probe_answers \<Rightarrow> string + int" where
  "probed_sessions a =
     (case pa_status a of
        Failure msg \<Rightarrow> Inl (bounded_error ''RUNTIME_STATUS_UNAVAILABLE'' msg)
      | Answer status \<Rightarrow>
          (case json_get ''active_session_count'' status of
             Some (JInt n) \<Rightarrow>
               if n < 0 then Inl (bounded_error ''RUNTIME_STATUS_INVALID'' ''Runtime Target did not return a non-negative active_session_count.'')
               else Inr n
           | _ \<Rightarrow> Inl (bounded_error ''RUNTIME_STATUS_INVALID'' ''Runtime Target did not return a non-negative active_session_count.'')))"

definition probed_profiles :: "string list \<Rightarrow> probe_answers \<Rightarrow> string + string list" where
  "probed_profiles allowed a =
     (case pa_profiles a of
        Failure msg \<Rightarrow> Inl (bounded_error ''RUNTIME_PROFILES_UNAVAILABLE'' msg)
      | Answer reported \<Rightarrow>
          (let profiles = filter (\<lambda>p. p \<in> set allowed) reported in
           if profiles = [] then Inl (bounded_error ''RUNTIME_PROFILE_MISMATCH'' (pa_mismatch_text a)) else Inr profiles))"

definition evaluate_probe :: "string list \<Rightarrow> probe_answers \<Rightarrow> probe_result" where
  "evaluate_probe allowed a =
     (let failed = \<lambda>n e. \<lparr>pr_profiles = [], pr_active_session_count = n, pr_error = Some e, pr_resource = None,
            pr_resource_error = Some (bounded_error ''RUNTIME_RESOURCE_SKIPPED'' ''Resource probe skipped because health probe failed.'')\<rparr> in
      case probed_sessions a of
        Inl e \<Rightarrow> failed None e
      | Inr n \<Rightarrow>
          (case probed_profiles allowed a of
             Inl e \<Rightarrow> failed (Some n) e
           | Inr profiles \<Rightarrow>
               (case pa_resource a of
                  Answer resource \<Rightarrow>
                    \<lparr>pr_profiles = profiles, pr_active_session_count = Some n, pr_error = None, pr_resource = Some resource,
                     pr_resource_error = None\<rparr>
                | Failure msg \<Rightarrow>
                    \<lparr>pr_profiles = profiles, pr_active_session_count = Some n, pr_error = None, pr_resource = None,
                     pr_resource_error = Some (bounded_error ''RUNTIME_RESOURCE_UNAVAILABLE'' msg)\<rparr>)))"

definition as_int :: "rat option \<Rightarrow> int option" where
  "as_int v = map_option (\<lambda>x. if 0 \<le> x then floor x else ceiling x) v"

definition resource_source :: "resource_observation \<Rightarrow> string option" where
  "resource_source r =
     (let sources = sort (remdups (filter (\<lambda>s. s \<noteq> []) (List.map_filter rm_source [rb_cpu r, rb_memory r]))) in
      if sources = [] then None else Some (join '','' sources))"

definition apply_resource :: "resource_observation \<Rightarrow> runtime_target_orm \<Rightarrow> runtime_target_orm" where
  "apply_resource r t =
     t\<lparr>rt_resource_observed_at := Some (rb_observed_at r), rt_resource_source := resource_source r,
       rt_resource_estimated := Some (rm_estimated (rb_cpu r) = Some True \<or> rm_estimated (rb_memory r) = Some True),
       rt_resource_process_count := rb_process_count r, rt_cpu_used_cores := rm_used (rb_cpu r),
       rt_cpu_capacity_cores := rm_capacity (rb_cpu r), rt_cpu_utilization := rm_utilization (rb_cpu r),
       rt_memory_used_bytes := as_int (rm_used (rb_memory r)), rt_memory_capacity_bytes := as_int (rm_capacity (rb_memory r)),
       rt_memory_utilization := rm_utilization (rb_memory r),
       rt_resource_errors := rm_errors (rb_cpu r) @ rm_errors (rb_memory r)\<rparr>"

definition probed_target ::
    "datetime \<Rightarrow> probe_result \<Rightarrow> string option \<Rightarrow> string option \<Rightarrow> runtime_target_orm \<Rightarrow> runtime_target_orm" where
  "probed_target now r actor_client actor_id t =
     (let t1 = (case pr_error r of
            None \<Rightarrow> t\<lparr>rt_status := (if rt_status t \<noteq> TS_DRAINING then TS_ACTIVE else TS_DRAINING), rt_supported_profiles := pr_profiles r\<rparr>
          | Some _ \<Rightarrow> t\<lparr>rt_status := (if rt_status t \<noteq> TS_DRAINING then TS_OFFLINE else TS_DRAINING)\<rparr>);
          t2 = t1\<lparr>rt_last_health_check_at := Some now, rt_last_health_error := pr_error r\<rparr>;
          t3 = (if pr_error r = None \<and> pr_active_session_count r \<noteq> None
                then t2\<lparr>rt_active_session_count := pr_active_session_count r, rt_session_count_observed_at := Some now\<rparr> else t2);
          t4 = t3\<lparr>rt_resource_last_check_at := Some now, rt_resource_last_error := pr_resource_error r\<rparr>;
          t5 = (case pr_resource r of None \<Rightarrow> t4 | Some o' \<Rightarrow> apply_resource o' t4)
      in set_actor actor_client actor_id (t5\<lparr>rt_updated_at := now\<rparr>))"

text \<open>\<open>RuntimeCredentialCipher.resolve\<close>: a stored credential that can be decrypted.\<close>

definition resolve_credential :: "(string \<Rightarrow> string option) \<Rightarrow> runtime_target_orm \<Rightarrow> domain_error + string" where
  "resolve_credential decrypt t =
     (case rt_credential_ciphertext t of
        Some ciphertext \<Rightarrow>
          if rt_credential_ref t = ''encrypted:database'' \<and> ciphertext \<noteq> [] then
            (case decrypt ciphertext of None \<Rightarrow> Inl RuntimeTargetConfigurationError | Some s \<Rightarrow> Inr s)
          else Inl RuntimeTargetConfigurationError
      | None \<Rightarrow> Inl RuntimeTargetConfigurationError)"

definition record_probe ::
    "worker_settings \<Rightarrow> datetime \<Rightarrow> runtime_target_orm \<Rightarrow> probe_result \<Rightarrow> string option \<Rightarrow> string option \<Rightarrow> registry_db \<Rightarrow>
       domain_error + (registry_db \<times> runtime_target_view)" where
  "record_probe ws now observed r actor_client actor_id m =
     (let d = rg_db m in
      bind_res (required_target d (rt_id observed)) (\<lambda>t.
      if rt_connection_config t \<noteq> rt_connection_config observed \<or>
         rt_credential_ciphertext t \<noteq> rt_credential_ciphertext observed \<or> rt_pool t \<noteq> rt_pool observed
      then Inr (m, target_view_of ws now d t)
      else
        (let t' = (if rt_enabled t then probed_target now r actor_client actor_id t else t) in
         Inr (m\<lparr>rg_db := d\<lparr>db_targets := write_target t' (db_targets d)\<rparr>\<rparr>, target_view_of ws now d t'))))"

text \<open>A whole probe: \<open>m0\<close> is the state it reads, \<open>m1\<close> the state its second transaction finds.\<close>

definition probe ::
    "(string \<Rightarrow> string option) \<Rightarrow> worker_settings \<Rightarrow> string list \<Rightarrow> datetime \<Rightarrow> (string \<Rightarrow> string \<Rightarrow> probe_answers) \<Rightarrow> uuid \<Rightarrow>
       string option \<Rightarrow> string option \<Rightarrow> registry_db \<Rightarrow> registry_db \<Rightarrow> domain_error + (registry_db \<times> runtime_target_view)" where
  "probe decrypt ws allowed now driver target_id actor_client actor_id m0 m1 =
     bind_res (required_target (rg_db m0) target_id) (\<lambda>observed.
     bind_res (resolve_credential decrypt observed) (\<lambda>credential.
       if \<not> rt_enabled observed then
         bind_res (required_target (rg_db m1) target_id) (\<lambda>t. Inr (m1, target_view_of ws now (rg_db m1) t))
       else
         (case json_get ''endpoint'' (rt_connection_config observed) of
            Some (JStr endpoint) \<Rightarrow>
              if endpoint = [] then Inl UnexpectedRuntimeError
              else record_probe ws now observed (evaluate_probe allowed (driver endpoint credential)) actor_client actor_id m1
          | _ \<Rightarrow> Inl UnexpectedRuntimeError)))"

text \<open>
  The whole commands \<open>upsert\<close> and \<open>set_state\<close>: after their transaction committed other transactions may run,
  \<open>read\<close> and \<open>later\<close> give the states that the two transactions of the probe find.
\<close>

definition upsert ::
    "url_parser \<Rightarrow> (string \<Rightarrow> string) \<Rightarrow> (string \<Rightarrow> string) \<Rightarrow> (string \<Rightarrow> string option) \<Rightarrow> worker_settings \<Rightarrow> int \<Rightarrow> string list \<Rightarrow>
       (string \<Rightarrow> string \<Rightarrow> probe_answers) \<Rightarrow> (registry_db \<Rightarrow> registry_db) \<Rightarrow> (registry_db \<Rightarrow> registry_db) \<Rightarrow> datetime \<Rightarrow> datetime \<Rightarrow>
       uuid \<Rightarrow> uuid \<Rightarrow> upsert_target_command \<Rightarrow> registry_db \<Rightarrow> domain_error + (registry_db \<times> runtime_target_view)" where
  "upsert urlsplit sha256 encrypt decrypt ws default_max allowed driver read later now probed_at new_id receipt_id c m =
     bind_res (register_target urlsplit sha256 encrypt ws default_max now new_id receipt_id c m) (\<lambda>(m1, out).
       case out of
         Repeated v \<Rightarrow> Inr (m1, v)
       | Registered target_id \<Rightarrow>
           probe decrypt ws allowed probed_at driver target_id (uc_actor_client c) (uc_actor_id c) (read m1) (later m1))"

definition set_state_command ::
    "(string \<Rightarrow> string) \<Rightarrow> (string \<Rightarrow> string option) \<Rightarrow> worker_settings \<Rightarrow> string list \<Rightarrow> (string \<Rightarrow> string \<Rightarrow> probe_answers) \<Rightarrow>
       (registry_db \<Rightarrow> registry_db) \<Rightarrow> (registry_db \<Rightarrow> registry_db) \<Rightarrow> datetime \<Rightarrow> datetime \<Rightarrow> uuid \<Rightarrow> set_target_state_command \<Rightarrow>
       registry_db \<Rightarrow> domain_error + (registry_db \<times> runtime_target_view)" where
  "set_state_command sha256 decrypt ws allowed driver read later now probed_at receipt_id c m =
     bind_res (set_target_state sha256 ws now receipt_id c m) (\<lambda>(m1, out).
       case out of
         Repeated v \<Rightarrow> Inr (m1, v)
       | Registered target_id \<Rightarrow>
           if dc_desired_state c = TS_ACTIVE then
             probe decrypt ws allowed probed_at driver target_id (dc_actor_client c) (dc_actor_id c) (read m1) (later m1)
           else bind_res (required_target (rg_db (read m1)) target_id) (\<lambda>t.
             Inr (read m1, target_view_of ws probed_at (rg_db (read m1)) t)))"

text \<open>The Targets a health pass probes: those not checked lately, unless a probe of theirs is still running.\<close>

definition due_target_ids :: "timedelta \<Rightarrow> datetime \<Rightarrow> db \<Rightarrow> uuid list" where
  "due_target_ids half_interval now d =
     map rt_id (filter (\<lambda>t. rt_enabled t \<and>
       (case rt_last_health_check_at t of None \<Rightarrow> True | Some c \<Rightarrow> c < now - half_interval)) (db_targets d))"

definition probe_all :: "timedelta \<Rightarrow> datetime \<Rightarrow> db \<Rightarrow> uuid list \<Rightarrow> uuid list" where
  "probe_all half_interval now d probes =
     foldl (\<lambda>running i. if i \<in> set running then running else running @ [i]) probes (due_target_ids half_interval now d)"

subsection \<open>Purging\<close>

record runtime_target_purge_view =
  gv_target_id :: uuid
  gv_name :: string
  gv_runtime_type :: runtime_type
  gv_connection_config :: json
  gv_pool :: runtime_pool
  gv_created_by_client :: "string option"
  gv_created_by :: "string option"
  gv_updated_by_client :: "string option"
  gv_updated_by :: "string option"
  gv_created_at :: datetime
  gv_updated_at :: datetime

definition purge_view :: "purge_orm \<Rightarrow> runtime_target_purge_view" where
  "purge_view tombstone =
     \<lparr>gv_target_id = pu_target_id tombstone, gv_name = pu_target_name tombstone, gv_runtime_type = pu_runtime_type tombstone,
      gv_connection_config = pu_connection_config tombstone, gv_pool = pu_pool tombstone,
      gv_created_by_client = pu_created_by_client tombstone, gv_created_by = pu_created_by tombstone,
      gv_updated_by_client = pu_updated_by_client tombstone, gv_updated_by = pu_updated_by tombstone,
      gv_created_at = pu_created_at tombstone, gv_updated_at = pu_updated_at tombstone\<rparr>"

definition pending_execution :: "uuid \<Rightarrow> execution_orm \<Rightarrow> bool" where
  "pending_execution target_id e \<longleftrightarrow>
     ex_runtime_target_id e = Some target_id \<and>
     (ex_status e \<notin> {ES_SUCCEEDED, ES_FAILED, ES_CANCELLED} \<or>
      (ex_runtime_session_id e \<noteq> None \<and> ex_runtime_session_cleanup_status e \<noteq> RC_SUCCEEDED))"

definition session_was_cleaned :: "db \<Rightarrow> attempt_orm \<Rightarrow> bool" where
  "session_was_cleaned d a \<longleftrightarrow>
     list_ex (\<lambda>b. at_execution_id b = at_execution_id a \<and> at_runtime_target_id b = at_runtime_target_id a \<and>
       at_runtime_session_id b = at_runtime_session_id a \<and> at_attempt_number a \<le> at_attempt_number b \<and>
       at_runtime_session_cleanup_status b = RC_SUCCEEDED) (db_attempts d)"

definition execution_was_cleaned :: "db \<Rightarrow> attempt_orm \<Rightarrow> bool" where
  "execution_was_cleaned d a \<longleftrightarrow>
     list_ex (\<lambda>e. ex_id e = at_execution_id a \<and> ex_runtime_target_id e = Some (at_runtime_target_id a) \<and>
       ex_runtime_session_id e = None \<and> ex_runtime_session_cleanup_status e = RC_SUCCEEDED) (db_executions d) \<and>
     \<not> list_ex (\<lambda>b. at_execution_id b = at_execution_id a \<and> at_attempt_number a < at_attempt_number b) (db_attempts d)"

definition pending_attempt :: "uuid \<Rightarrow> db \<Rightarrow> attempt_orm \<Rightarrow> bool" where
  "pending_attempt target_id d a \<longleftrightarrow>
     at_runtime_target_id a = target_id \<and> at_runtime_session_id a \<noteq> None \<and>
     at_runtime_session_cleanup_status a \<noteq> RC_SUCCEEDED \<and> \<not> session_was_cleaned d a \<and> \<not> execution_was_cleaned d a"

definition tombstone_of :: "datetime \<Rightarrow> uuid \<Rightarrow> purge_target_command \<Rightarrow> runtime_target_orm \<Rightarrow> purge_orm" where
  "tombstone_of now purge_id c t =
     \<lparr>pu_id = purge_id, pu_target_id = rt_id t, pu_target_name = rt_name t, pu_runtime_type = rt_runtime_type t,
      pu_connection_config = rt_connection_config t, pu_pool = rt_pool t, pu_created_by_client = pc_actor_client c,
      pu_created_by = pc_actor_id c, pu_updated_by_client = pc_actor_client c, pu_updated_by = pc_actor_id c,
      pu_created_at = now, pu_updated_at = now\<rparr>"

definition purge_target ::
    "datetime \<Rightarrow> uuid \<Rightarrow> purge_target_command \<Rightarrow> registry_db \<Rightarrow> domain_error + (registry_db \<times> runtime_target_purge_view)" where
  "purge_target now purge_id c m =
     (let d = rg_db m in
      case scalar (\<lambda>t. rt_id t = pc_target_id c) (db_targets d) of
        None \<Rightarrow>
          (case scalar (\<lambda>p. pu_target_id p = pc_target_id c) (rg_purges m) of
             Some tombstone \<Rightarrow> Inr (m, purge_view tombstone)
           | None \<Rightarrow> Inl RuntimeTargetNotFoundError)
      | Some t \<Rightarrow>
          if rt_enabled t \<or> rt_status t \<noteq> TS_OFFLINE then Inl RuntimeTargetPurgeConflictError
          else if count_runtime_reservations (rt_id t) now d \<noteq> 0 then Inl RuntimeTargetPurgeConflictError
          else if list_ex (pending_execution (rt_id t)) (db_executions d) \<or> list_ex (pending_attempt (rt_id t) d) (db_attempts d)
          then Inl RuntimeTargetPurgeConflictError
          else if list_ex (\<lambda>p. pu_id p = purge_id \<or> pu_target_id p = rt_id t) (rg_purges m) then Inl IntegrityError
          else (let tombstone = tombstone_of now purge_id c t in
                Inr (\<lparr>rg_db = d\<lparr>db_targets := filter (\<lambda>x. rt_id x \<noteq> rt_id t) (db_targets d)\<rparr>,
                      rg_purges = rg_purges m @ [tombstone]\<rparr>, purge_view tombstone)))"

end
