(* ===== verification/Registry_Properties.thy ===== *)
theory Registry_Properties
  imports Runtime_Registry
begin

text \<open>
  What the registry of Runtime Targets guarantees, for every sequence of its transactions while Executions come and
  go: the rows it can contain, that a Target in use keeps its identity, and what a probe may change.
\<close>

subsection \<open>Every interleaving\<close>

text \<open>An identifier drawn for a new Target was not used before.\<close>

inductive registry_step :: "datetime \<Rightarrow> registry_db \<Rightarrow> registry_db \<Rightarrow> bool" where
  registered: "register_target urlsplit sha encrypt ws dm now new_id i uc m = Inr (m', out) \<Longrightarrow>
    new_id \<notin> pu_target_id ` set (rg_purges m) \<Longrightarrow> registry_step now m m'"
| disabled: "disable_target sha ws now i dc m = Inr (m', v) \<Longrightarrow> registry_step now m m'"
| state_changed: "set_target_state sha ws now i sc m = Inr (m', out) \<Longrightarrow> registry_step now m m'"
| probed: "probe decrypt ws allowed now driver i ac ai m0 m = Inr (m', v) \<Longrightarrow> registry_step now m m'"
| purged: "purge_target now i pc m = Inr (m', p) \<Longrightarrow> registry_step now m m'"
| work_changed: "db_targets d = db_targets (rg_db m) \<Longrightarrow> registry_step now m (m\<lparr>rg_db := d\<rparr>)"

inductive_cases registry_stepE: "registry_step now m m'"

definition empty_registry :: registry_db where
  "empty_registry = \<lparr>rg_db = empty_db, rg_purges = []\<rparr>"

definition registry_reachable :: "registry_db \<Rightarrow> bool" where
  "registry_reachable m \<longleftrightarrow> (\<lambda>m m'. \<exists>now. registry_step now m m')\<^sup>*\<^sup>* empty_registry m"

subsection \<open>Rows\<close>

text \<open>
  The type of a row: the constraints of the table, a configuration that is exactly its normalised endpoint, a session
  count exactly when it was observed, and ACTIVE only for an enabled Target whose last probe found a profile.
\<close>

definition target_typed :: "runtime_target_orm \<Rightarrow> bool" where
  "target_typed t \<longleftrightarrow>
     target_row_ok t \<and> rt_connection_config t = endpoint_config (rt_connection_key t) \<and>
     (rt_active_session_count t = None \<longleftrightarrow> rt_session_count_observed_at t = None) \<and>
     (rt_status t = TS_ACTIVE \<longrightarrow> rt_enabled t \<and> rt_last_health_error t = None \<and> rt_supported_profiles t \<noteq> [])"

definition registry_typed :: "registry_db \<Rightarrow> bool" where
  "registry_typed m \<longleftrightarrow>
     (\<forall>t\<in>set (db_targets (rg_db m)). target_typed t) \<and> target_keys_ok (db_targets (rg_db m)) \<and>
     distinct (map pu_target_id (rg_purges m)) \<and>
     (\<forall>t\<in>set (db_targets (rg_db m)). rt_id t \<notin> pu_target_id ` set (rg_purges m))"

lemma set_write_target:
  "x \<in> set (write_target t ts) \<Longrightarrow> x = t \<or> x \<in> set ts \<and> rt_id x \<noteq> rt_id t"
  by (auto simp: write_target_def update_where_def split: if_split_asm)

lemma write_target_in: "\<exists>x\<in>set ts. rt_id x = rt_id t \<Longrightarrow> t \<in> set (write_target t ts)"
  by (force simp: write_target_def update_where_def)

lemma write_target_others: "x \<in> set ts \<Longrightarrow> rt_id x \<noteq> rt_id t \<Longrightarrow> x \<in> set (write_target t ts)"
  by (force simp: write_target_def update_where_def)

lemma map_write_target:
  assumes "t \<in> set ts" and "distinct (map rt_id ts)" and "rt_id t' = rt_id t" and "f t' = f t"
  shows "map f (write_target t' ts) = map f ts"
proof -
  have "x = t" if "x \<in> set ts" "rt_id x = rt_id t" for x
    using that assms(1,2) by (meson distinct_map inj_onD)
  then show ?thesis using assms(3,4) by (auto simp: write_target_def update_where_def)
qed

lemma required_target_Inr: "required_target d i = Inr t \<longleftrightarrow> scalar (\<lambda>t. rt_id t = i) (db_targets d) = Some t"
  by (auto simp: required_target_def split: option.splits)

lemma scalar_targetD: "scalar P (db_targets d) = Some t \<Longrightarrow> t \<in> set (db_targets d) \<and> P t"
  by (auto dest: scalar_SomeD)

lemma add_receipt_targets: "add_receipt now i k ty fp tid d = Inr d' \<Longrightarrow> db_targets d' = db_targets d"
  by (auto simp: add_receipt_def dest!: insert_receipt_SomeD(1) split: option.splits)

lemma set_actor_sel [simp]:
  "rt_id (set_actor a b t) = rt_id t" "rt_name (set_actor a b t) = rt_name t" "rt_connection_key (set_actor a b t) = rt_connection_key t"
  "rt_connection_config (set_actor a b t) = rt_connection_config t" "rt_pool (set_actor a b t) = rt_pool t"
  "rt_runtime_type (set_actor a b t) = rt_runtime_type t" "rt_status (set_actor a b t) = rt_status t"
  "rt_enabled (set_actor a b t) = rt_enabled t" "rt_supported_profiles (set_actor a b t) = rt_supported_profiles t"
  "rt_last_health_error (set_actor a b t) = rt_last_health_error t" "rt_active_session_count (set_actor a b t) = rt_active_session_count t"
  "rt_session_count_observed_at (set_actor a b t) = rt_session_count_observed_at t"
  "rt_max_concurrent_executions (set_actor a b t) = rt_max_concurrent_executions t"
  by (simp_all add: set_actor_def)

lemma apply_resource_sel [simp]:
  "rt_id (apply_resource r t) = rt_id t" "rt_name (apply_resource r t) = rt_name t"
  "rt_connection_key (apply_resource r t) = rt_connection_key t" "rt_connection_config (apply_resource r t) = rt_connection_config t"
  "rt_pool (apply_resource r t) = rt_pool t" "rt_runtime_type (apply_resource r t) = rt_runtime_type t"
  "rt_status (apply_resource r t) = rt_status t" "rt_enabled (apply_resource r t) = rt_enabled t"
  "rt_supported_profiles (apply_resource r t) = rt_supported_profiles t" "rt_last_health_error (apply_resource r t) = rt_last_health_error t"
  "rt_active_session_count (apply_resource r t) = rt_active_session_count t"
  "rt_session_count_observed_at (apply_resource r t) = rt_session_count_observed_at t"
  "rt_max_concurrent_executions (apply_resource r t) = rt_max_concurrent_executions t"
  by (simp_all add: apply_resource_def)

lemma probed_target_sel:
  "rt_id (probed_target now r a b t) = rt_id t" "rt_name (probed_target now r a b t) = rt_name t"
  "rt_connection_key (probed_target now r a b t) = rt_connection_key t"
  "rt_connection_config (probed_target now r a b t) = rt_connection_config t"
  "rt_pool (probed_target now r a b t) = rt_pool t" "rt_runtime_type (probed_target now r a b t) = rt_runtime_type t"
  "rt_enabled (probed_target now r a b t) = rt_enabled t"
  "rt_max_concurrent_executions (probed_target now r a b t) = rt_max_concurrent_executions t"
  "rt_last_health_error (probed_target now r a b t) = pr_error r"
  "rt_status (probed_target now r a b t) =
     (if rt_status t = TS_DRAINING then TS_DRAINING else if pr_error r = None then TS_ACTIVE else TS_OFFLINE)"
  "rt_supported_profiles (probed_target now r a b t) = (if pr_error r = None then pr_profiles r else rt_supported_profiles t)"
  "rt_active_session_count (probed_target now r a b t) =
     (if pr_error r = None \<and> pr_active_session_count r \<noteq> None then pr_active_session_count r else rt_active_session_count t)"
  "rt_session_count_observed_at (probed_target now r a b t) =
     (if pr_error r = None \<and> pr_active_session_count r \<noteq> None then Some now else rt_session_count_observed_at t)"
  by (cases "pr_error r"; cases "pr_resource r"; simp add: probed_target_def Let_def)+

lemma evaluate_probe_ok:
  "pr_error (evaluate_probe allowed a) = None \<Longrightarrow> pr_profiles (evaluate_probe allowed a) \<noteq> []"
  "pr_active_session_count (evaluate_probe allowed a) = Some n \<Longrightarrow> 0 \<le> n"
  "set (pr_profiles (evaluate_probe allowed a)) \<subseteq> set allowed"
  by (auto simp: evaluate_probe_def probed_sessions_def probed_profiles_def Let_def
      split: answer.splits sum.splits option.splits json.splits if_split_asm)

subsection \<open>One transaction, one row\<close>

text \<open>
  What a transaction may do to the rows: nothing, add a Target, change one Target in place, or replace one that is
  disabled and unused by its tombstone. Every command of the registry is an instance of it.
\<close>

inductive row_change :: "datetime \<Rightarrow> registry_db \<Rightarrow> registry_db \<Rightarrow> bool" where
  same: "db_targets (rg_db m') = db_targets (rg_db m) \<Longrightarrow> rg_purges m' = rg_purges m \<Longrightarrow> row_change now m m'"
| added: "db_targets (rg_db m') = db_targets (rg_db m) @ [t'] \<Longrightarrow> rg_purges m' = rg_purges m \<Longrightarrow>
    rt_id t' \<notin> pu_target_id ` set (rg_purges m) \<Longrightarrow> target_typed t' \<Longrightarrow>
    target_keys_ok (db_targets (rg_db m')) \<Longrightarrow> row_change now m m'"
| written: "t \<in> set (db_targets (rg_db m)) \<Longrightarrow> db_targets (rg_db m') = write_target t' (db_targets (rg_db m)) \<Longrightarrow>
    rg_purges m' = rg_purges m \<Longrightarrow> rt_id t' = rt_id t \<Longrightarrow> rt_name t' = rt_name t \<Longrightarrow>
    rt_runtime_type t' = rt_runtime_type t \<Longrightarrow> (target_typed t \<Longrightarrow> target_typed t') \<Longrightarrow>
    rt_connection_key t' = rt_connection_key t \<or> target_keys_ok (db_targets (rg_db m')) \<Longrightarrow>
    rt_connection_config t' = rt_connection_config t \<and> rt_pool t' = rt_pool t \<or>
      count_runtime_reservations (rt_id t) now (rg_db m) = 0 \<Longrightarrow> row_change now m m'"
| removed: "t \<in> set (db_targets (rg_db m)) \<Longrightarrow> \<not> rt_enabled t \<Longrightarrow> count_runtime_reservations (rt_id t) now (rg_db m) = 0 \<Longrightarrow>
    db_targets (rg_db m') = filter (\<lambda>x. rt_id x \<noteq> rt_id t) (db_targets (rg_db m)) \<Longrightarrow>
    rg_purges m' = rg_purges m @ [p] \<Longrightarrow> pu_target_id p = rt_id t \<Longrightarrow>
    rt_id t \<notin> pu_target_id ` set (rg_purges m) \<Longrightarrow> row_change now m m'"

lemma row_change_typed:
  assumes "row_change now m m'" and "registry_typed m"
  shows "registry_typed m'"
  using assms
proof cases
  case same
  then show ?thesis using assms(2) by (simp add: registry_typed_def)
next
  case (added t')
  then show ?thesis using assms(2) by (auto simp: registry_typed_def)
next
  case (written t t')
  have keys: "target_keys_ok (db_targets (rg_db m'))"
  proof (cases "rt_connection_key t' = rt_connection_key t")
    case True
    have "distinct (map rt_id (db_targets (rg_db m)))"
      using assms(2) by (simp add: registry_typed_def target_keys_ok_def)
    note eq = map_write_target [OF written(1) this written(4)]
    show ?thesis
      using assms(2) eq [of rt_id] eq [of rt_name] eq [of rt_connection_key] True written(2,4,5)
      by (simp add: registry_typed_def target_keys_ok_def)
  next
    case False
    then show ?thesis using written(8) by blast
  qed
  have in_old: "x = t' \<or> x \<in> set (db_targets (rg_db m))" if "x \<in> set (db_targets (rg_db m'))" for x
    using that set_write_target [of x t' "db_targets (rg_db m)"] unfolding written(2) by blast
  show ?thesis
    using assms(2) keys in_old written(1,3,4,7) by (metis (no_types, lifting) registry_typed_def)
next
  case (removed t p)
  then show ?thesis using assms(2)
    by (auto simp: registry_typed_def target_keys_ok_def distinct_map_filter)
qed

text \<open>A row rewritten without touching its identity, as an operator command or a probe does.\<close>

lemma row_rewritten:
  assumes "t \<in> set (db_targets (rg_db m))" and "db_targets d' = write_target t' (db_targets (rg_db m))"
    and "rt_id t' = rt_id t" "rt_name t' = rt_name t" "rt_runtime_type t' = rt_runtime_type t"
    and "rt_connection_key t' = rt_connection_key t" "rt_connection_config t' = rt_connection_config t" "rt_pool t' = rt_pool t"
    and "target_typed t \<Longrightarrow> target_typed t'"
  shows "row_change now m (m\<lparr>rg_db := d'\<rparr>)"
  by (rule row_change.written [of t _ _ t']) (simp_all add: assms)

lemma disable_row_change:
  assumes "disable_target sha ws now i c m = Inr (m', v)"
  shows "row_change now m m'"
proof (cases "m' = m")
  case True
  then show ?thesis by (simp add: row_change.same)
next
  case False
  then obtain t t' d' where t: "required_target (rg_db m) (dc_target_id c) = Inr t"
    and t': "t' = set_actor (dc_actor_client c) (dc_actor_id c) (t\<lparr>rt_enabled := False, rt_status := TS_OFFLINE, rt_updated_at := now\<rparr>)"
    and m': "m' = m\<lparr>rg_db := d'\<rparr>" and d': "db_targets d' = write_target t' (db_targets (rg_db m))"
    using assms
    by (auto simp: disable_target_def Let_def bind_res_eq_Inr dest!: add_receipt_targets split: option.splits)
  show ?thesis
    unfolding m' by (rule row_rewritten [OF _ d']) (use scalar_targetD t in \<open>auto simp: required_target_Inr t' target_typed_def target_row_ok_def\<close>)
qed

lemma set_state_row_change:
  assumes "set_target_state sha ws now i c m = Inr (m', v)"
  shows "row_change now m m'"
proof (cases "m' = m")
  case True
  then show ?thesis by (simp add: row_change.same)
next
  case False
  then obtain t t' d' where t: "required_target (rg_db m) (dc_target_id c) = Inr t"
    and t': "t' = set_actor (dc_actor_client c) (dc_actor_id c) (t\<lparr>rt_enabled := True,
      rt_status := (if dc_desired_state c = TS_ACTIVE then TS_OFFLINE else TS_DRAINING), rt_updated_at := now\<rparr>)"
    and m': "m' = m\<lparr>rg_db := d'\<rparr>" and d': "db_targets d' = write_target t' (db_targets (rg_db m))"
    using assms
    by (auto simp: set_target_state_def Let_def bind_res_eq_Inr dest!: add_receipt_targets split: option.splits if_split_asm)
  show ?thesis
    unfolding m' by (rule row_rewritten [OF _ d']) (use scalar_targetD t in \<open>auto simp: required_target_Inr t' target_typed_def target_row_ok_def\<close>)
qed

lemma probed_target_typed:
  assumes "target_typed t" and "rt_enabled t"
  shows "target_typed (probed_target now (evaluate_probe allowed a) ac ai t)"
  using assms evaluate_probe_ok [of allowed a]
  by (auto simp: target_typed_def target_row_ok_def probed_target_sel split: option.splits)

text \<open>
  A probe writes nothing, or the answers for the endpoint and credential it read, into a Target that still has
  both and is still in its pool.
\<close>

definition still_observed :: "runtime_target_orm \<Rightarrow> runtime_target_orm \<Rightarrow> bool" where
  "still_observed seen t \<longleftrightarrow>
     rt_connection_config t = rt_connection_config seen \<and> rt_credential_ciphertext t = rt_credential_ciphertext seen \<and>
     rt_pool t = rt_pool seen"

lemma record_probe_Inr:
  "record_probe ws now seen r ac ai m = Inr (m', v) \<longleftrightarrow>
     (\<exists>t. required_target (rg_db m) (rt_id seen) = Inr t \<and>
        (if still_observed seen t then
           (let t' = (if rt_enabled t then probed_target now r ac ai t else t) in
            m' = m\<lparr>rg_db := (rg_db m)\<lparr>db_targets := write_target t' (db_targets (rg_db m))\<rparr>\<rparr> \<and> v = target_view_of ws now (rg_db m) t')
         else m' = m \<and> v = target_view_of ws now (rg_db m) t))"
  unfolding record_probe_def Let_def bind_res_eq_Inr still_observed_def by (rule ex_cong1) auto

lemma record_probe_rows:
  assumes "record_probe ws now seen r ac ai m = Inr (m', v)"
  obtains t where "t \<in> set (db_targets (rg_db m))" and "rt_id t = rt_id seen"
    and "if still_observed seen t then m' = m\<lparr>rg_db := (rg_db m)\<lparr>db_targets :=
      write_target (if rt_enabled t then probed_target now r ac ai t else t) (db_targets (rg_db m))\<rparr>\<rparr> else m' = m"
proof -
  obtain t where t: "required_target (rg_db m) (rt_id seen) = Inr t"
    and m': "if still_observed seen t then m' = m\<lparr>rg_db := (rg_db m)\<lparr>db_targets :=
      write_target (if rt_enabled t then probed_target now r ac ai t else t) (db_targets (rg_db m))\<rparr>\<rparr> else m' = m"
    using assms unfolding record_probe_Inr Let_def by (metis (full_types))
  have "t \<in> set (db_targets (rg_db m)) \<and> rt_id t = rt_id seen" using t unfolding required_target_Inr by (rule scalar_targetD)
  with m' show thesis using that by blast
qed

lemma probe_cases:
  assumes "probe decrypt ws allowed now driver i ac ai m0 m = Inr (m', v)"
    and "scalar (\<lambda>t. rt_id t = i) (db_targets (rg_db m0)) = Some seen"
  obtains (idle) "\<not> rt_enabled seen" and "m' = m"
  | (asked) endpoint credential where "rt_enabled seen" and "resolve_credential decrypt seen = Inr credential"
      and "json_get ''endpoint'' (rt_connection_config seen) = Some (JStr endpoint)"
      and "record_probe ws now seen (evaluate_probe allowed (driver endpoint credential)) ac ai m = Inr (m', v)"
proof -
  have "required_target (rg_db m0) i = Inr seen" using assms(2) by (simp add: required_target_Inr)
  with assms(1) show thesis using that
    by (auto simp: probe_def bind_res_eq_Inr split: if_split_asm option.split_asm json.split_asm)
qed

lemma probe_seen:
  assumes "probe decrypt ws allowed now driver i ac ai m0 m = Inr (m', v)"
  obtains seen where "scalar (\<lambda>t. rt_id t = i) (db_targets (rg_db m0)) = Some seen"
  using assms unfolding probe_def bind_res_eq_Inr required_target_Inr by blast

lemma probe_row_change:
  assumes "probe decrypt ws allowed now driver i ac ai m0 m = Inr (m', v)"
  shows "row_change now m m'"
proof -
  obtain seen where seen: "scalar (\<lambda>t. rt_id t = i) (db_targets (rg_db m0)) = Some seen" using assms by (rule probe_seen)
  from assms seen show ?thesis
  proof (cases rule: probe_cases)
    case idle
    then show ?thesis by (simp add: row_change.same)
  next
    case (asked endpoint credential)
    let ?r = "evaluate_probe allowed (driver endpoint credential)"
    obtain t where t: "t \<in> set (db_targets (rg_db m))"
      and m': "if still_observed seen t then m' = m\<lparr>rg_db := (rg_db m)\<lparr>db_targets :=
          write_target (if rt_enabled t then probed_target now ?r ac ai t else t) (db_targets (rg_db m))\<rparr>\<rparr> else m' = m"
      using asked(4) by (rule record_probe_rows)
    from row_rewritten [OF t, where t' = "if rt_enabled t then probed_target now ?r ac ai t else t"]
    show ?thesis using m' by (cases "still_observed seen t") (simp_all add: probed_target_sel probed_target_typed row_change.same)
  qed
qed

lemma purge_row_change:
  assumes "purge_target now i c m = Inr (m', p)"
  shows "row_change now m m'"
proof (cases "scalar (\<lambda>t. rt_id t = pc_target_id c) (db_targets (rg_db m))")
  case None
  then show ?thesis using assms by (auto simp: purge_target_def row_change.same split: option.splits)
next
  case (Some t)
  have t: "t \<in> set (db_targets (rg_db m))" using scalar_targetD [OF Some] by blast
  show ?thesis
    using assms Some
    by (intro row_change.removed [OF t, where p = "tombstone_of now i c t"])
      (auto simp: purge_target_def Let_def tombstone_of_def list_ex_iff split: if_split_asm)
qed

lemma changed_target_sel:
  "rt_id (changed_target en now e c t) = rt_id t" "rt_name (changed_target en now e c t) = rt_name t"
  "rt_runtime_type (changed_target en now e c t) = rt_runtime_type t"
  "rt_connection_key (changed_target en now e c t) = e"
  "rt_connection_config (changed_target en now e c t) = endpoint_config e"
  "rt_pool (changed_target en now e c t) = uc_pool c"
  "rt_enabled (changed_target en now e c t)"
  by (simp_all add: changed_target_def forget_observations_def Let_def split: option.splits)

lemma changed_target_typed:
  assumes "target_typed t" and "target_row_ok (changed_target en now e c t)"
  shows "target_typed (changed_target en now e c t)"
  using assms
  by (simp add: target_typed_def changed_target_sel)
    (auto simp: changed_target_def forget_observations_def Let_def split: option.splits)

lemma new_target_typed:
  "target_row_ok (new_target_row en dm now i e c cr) \<Longrightarrow> target_typed (new_target_row en dm now i e c cr)"
  by (simp add: target_typed_def new_target_row_def)

lemma flush_targets_Inr:
  "flush_targets err ts d = Inr d' \<longleftrightarrow> list_all target_row_ok ts \<and> target_keys_ok ts \<and> d' = d\<lparr>db_targets := ts\<rparr>"
  by (auto simp: flush_targets_def)

text \<open>What a registration that is not a repetition did: it added a Target, or changed one whose identity it may change.\<close>

lemma register_cases:
  assumes "register_target urlsplit sha en ws dm now new_id i c m = Inr (m', out)"
  obtains (repeated) "m' = m"
  | (new) e cr d' where "m' = m\<lparr>rg_db := d'\<rparr>" and "db_targets d' = db_targets (rg_db m) @ [new_target_row en dm now new_id e c cr]"
      and "list_all target_row_ok (db_targets d')" and "target_keys_ok (db_targets d')"
  | (changed) e t d' where "m' = m\<lparr>rg_db := d'\<rparr>" and "t \<in> set (db_targets (rg_db m))"
      and "identity_changed e c t \<Longrightarrow> count_runtime_reservations (rt_id t) now (rg_db m) = 0"
      and "db_targets d' = write_target (changed_target en now e c t) (db_targets (rg_db m))"
      and "list_all target_row_ok (db_targets d')" and "target_keys_ok (db_targets d')"
proof (cases "m' = m")
  case True
  then show ?thesis by (rule repeated)
next
  case False
  let ?ts = "db_targets (rg_db m)"
  obtain e tid ts d1 d2 fp where
    rows: "registered_rows en dm now new_id e c (rg_db m) = Inr (tid, ts)"
    and fl: "flush_targets PersistenceConflictError ts (rg_db m) = Inr d1"
    and rec: "add_receipt now i (uc_idempotency_key c) ''runtime_target.upsert'' fp tid d1 = Inr d2"
    and m': "m' = m\<lparr>rg_db := d2\<rparr>"
    using assms False
    by (auto simp: register_target_def Let_def bind_res_eq_Inr split: option.split_asm) (metis option.distinct(1))
  have d2: "db_targets d2 = ts" "list_all target_row_ok (db_targets d2)" "target_keys_ok (db_targets d2)"
    using fl add_receipt_targets [OF rec] by (simp_all add: flush_targets_Inr)
  show ?thesis
  proof (cases "scalar (\<lambda>t. rt_name t = uc_name c) ?ts")
    case None
    then obtain cr where ts: "ts = ?ts @ [new_target_row en dm now new_id e c cr]"
      using rows by (auto simp: registered_rows_def split: option.splits if_split_asm)
    show ?thesis by (rule new [OF m' d2(1) [unfolded ts] d2(2,3)])
  next
    case (Some t)
    then have ts: "ts = write_target (changed_target en now e c t) ?ts"
      and free: "identity_changed e c t \<Longrightarrow> count_runtime_reservations (rt_id t) now (rg_db m) = 0"
      using rows by (auto simp: registered_rows_def split: if_split_asm)
    show ?thesis
      by (rule changed [OF m' conjunct1 [OF scalar_targetD [OF Some]] free d2(1) [unfolded ts] d2(2,3)])
  qed
qed

lemma register_row_change:
  assumes "register_target urlsplit sha en ws dm now new_id i c m = Inr (m', out)"
    and "new_id \<notin> pu_target_id ` set (rg_purges m)"
  shows "row_change now m m'"
  using assms(1)
proof (cases rule: register_cases)
  case repeated
  then show ?thesis by (simp add: row_change.same)
next
  case (new e cr d')
  have "target_typed (new_target_row en dm now new_id e c cr)" using new(2,3) by (intro new_target_typed) simp
  moreover have "rt_id (new_target_row en dm now new_id e c cr) = new_id" by (simp add: new_target_row_def)
  ultimately show ?thesis using assms(2) new by (intro row_change.added) simp_all
next
  case (changed e t d')
  let ?t = "changed_target en now e c t"
  have "?t \<in> set (db_targets d')" unfolding changed(4) by (rule write_target_in) (use changed(2) in \<open>auto simp: changed_target_sel\<close>)
  then have ok: "target_row_ok ?t" using changed(5) by (simp add: list_all_iff)
  have "rt_connection_config ?t = rt_connection_config t \<and> rt_pool ?t = rt_pool t \<or>
      count_runtime_reservations (rt_id t) now (rg_db m) = 0"
    using changed(3) unfolding identity_changed_def changed_target_sel by metis
  with changed ok show ?thesis
    by (intro row_change.written [OF changed(2), where t' = ?t]) (simp_all add: changed_target_sel changed_target_typed)
qed

lemma registry_row_change: "registry_step now m m' \<Longrightarrow> row_change now m m'"
  by (erule registry_stepE)
    (simp_all add: register_row_change disable_row_change set_state_row_change probe_row_change purge_row_change row_change.same)

lemma reachable_typed: "registry_reachable m \<Longrightarrow> registry_typed m"
  unfolding registry_reachable_def
proof (induction rule: rtranclp_induct)
  case base
  show ?case by (simp add: registry_typed_def empty_registry_def empty_db_def target_keys_ok_def)
next
  case (step m m')
  then show ?case using registry_row_change row_change_typed by blast
qed

subsection \<open>Guarantees\<close>

text \<open>
  C32: every registry that its transactions can produce, interleaved in any way with the Executions'
  own, is well typed: capacities are positive, the stored configuration is exactly the normalised endpoint, a session
  count is present exactly when the time of its observation is and is not negative, an ACTIVE Target is enabled, its
  last probe succeeded and found a profile; identifiers, names and endpoints are unique, and no purged identifier is in use.
\<close>

theorem registry_rows:
  assumes "registry_reachable m"
  shows "(\<forall>t\<in>set (db_targets (rg_db m)).
      0 < rt_max_concurrent_executions t \<and> rt_connection_config t = endpoint_config (rt_connection_key t) \<and>
      (rt_active_session_count t = None \<longleftrightarrow> rt_session_count_observed_at t = None) \<and>
      (case rt_active_session_count t of None \<Rightarrow> True | Some n \<Rightarrow> 0 \<le> n) \<and>
      (rt_status t = TS_ACTIVE \<longrightarrow> rt_enabled t \<and> rt_last_health_error t = None \<and> rt_supported_profiles t \<noteq> [])) \<and>
    distinct (map rt_id (db_targets (rg_db m))) \<and> distinct (map rt_name (db_targets (rg_db m))) \<and>
    distinct (map rt_connection_key (db_targets (rg_db m))) \<and> distinct (map pu_target_id (rg_purges m)) \<and>
    rt_id ` set (db_targets (rg_db m)) \<inter> pu_target_id ` set (rg_purges m) = {}"
  using reachable_typed [OF assms]
  unfolding registry_typed_def target_typed_def target_row_ok_def target_keys_ok_def by blast

text \<open>A row is determined by its identifier.\<close>

lemma typed_row_unique:
  "registry_typed m \<Longrightarrow> s \<in> set (db_targets (rg_db m)) \<Longrightarrow> t \<in> set (db_targets (rg_db m)) \<Longrightarrow> rt_id s = rt_id t \<Longrightarrow> s = t"
  unfolding registry_typed_def target_keys_ok_def by (meson distinct_map inj_onD)

definition same_identity :: "runtime_target_orm \<Rightarrow> runtime_target_orm \<Rightarrow> bool" where
  "same_identity t t' \<longleftrightarrow>
     rt_id t' = rt_id t \<and> rt_name t' = rt_name t \<and> rt_runtime_type t' = rt_runtime_type t \<and>
     rt_connection_config t' = rt_connection_config t \<and> rt_pool t' = rt_pool t"

text \<open>
  C12: no transaction of the registry removes a Target that has an active, retained or cleanup
  reservation, nor changes its name, Runtime type, endpoint or pool. A purge and a change of identity both wait
  until the last reservation is gone; the operator may still disable or drain the Target.
\<close>

theorem reserved_target_kept:
  assumes "registry_reachable m" and "registry_step now m m'" and "t \<in> set (db_targets (rg_db m))"
    and "count_runtime_reservations (rt_id t) now (rg_db m) \<noteq> 0"
  shows "\<exists>t'\<in>set (db_targets (rg_db m')). same_identity t t'"
  using registry_row_change [OF assms(2)]
proof cases
  case same
  then show ?thesis using assms(3) by (auto simp: same_identity_def)
next
  case (added t')
  then show ?thesis using assms(3) by (auto simp: same_identity_def)
next
  case (written s s')
  show ?thesis
  proof (cases "rt_id t = rt_id s")
    case True
    then have t: "t = s" using typed_row_unique [OF reachable_typed [OF assms(1)] assms(3) written(1)] by blast
    have "s' \<in> set (db_targets (rg_db m'))"
      unfolding written(2) by (rule write_target_in) (use written(1,4) in auto)
    moreover have "same_identity t s'" using written(4-6,9) assms(4) by (simp add: same_identity_def t)
    ultimately show ?thesis by blast
  next
    case False
    then have "t \<in> set (db_targets (rg_db m'))"
      unfolding written(2) using assms(3) written(4) by (intro write_target_others) simp_all
    then show ?thesis by (auto simp: same_identity_def)
  qed
next
  case (removed s p)
  then have "rt_id t \<noteq> rt_id s" using assms(4) by metis
  then have "t \<in> set (db_targets (rg_db m'))" using removed(4) assms(3) by simp
  then show ?thesis by (auto simp: same_identity_def)
qed

text \<open>
  A probe that read the Target \<open>seen\<close> and finds the Target \<open>t\<close> when it records its
  answers leaves every other Target as it was, and this one too when it was disabled or reconfigured meanwhile.
  Otherwise the answers are those of the endpoint and credential the Target still has, and decide its state: a
  DRAINING Target stays DRAINING, any other becomes ACTIVE when the probe succeeded and OFFLINE when it did not;
  a successful probe leaves at least one of the profiles the service allows.
\<close>

lemma probe_respects_operator:
  assumes "registry_reachable m" and "probe decrypt ws allowed now driver i ac ai m0 m = Inr (m', v)"
    and "scalar (\<lambda>t. rt_id t = i) (db_targets (rg_db m0)) = Some seen" and "t \<in> set (db_targets (rg_db m))"
  shows "(rt_id t \<noteq> i \<or> \<not> rt_enabled t \<or> \<not> rt_enabled seen \<or> \<not> still_observed seen t \<longrightarrow> t \<in> set (db_targets (rg_db m'))) \<and>
    (rt_id t = i \<and> rt_enabled t \<and> rt_enabled seen \<and> still_observed seen t \<longrightarrow>
       (\<exists>credential r. \<exists>t'\<in>set (db_targets (rg_db m')).
          resolve_credential decrypt seen = Inr credential \<and>
          r = evaluate_probe allowed (driver (rt_connection_key t) credential) \<and> same_identity t t' \<and> rt_enabled t' \<and>
          rt_last_health_error t' = pr_error r \<and>
          rt_status t' = (if rt_status t = TS_DRAINING then TS_DRAINING else if pr_error r = None then TS_ACTIVE else TS_OFFLINE) \<and>
          (pr_error r = None \<longrightarrow> rt_supported_profiles t' \<noteq> [] \<and> set (rt_supported_profiles t') \<subseteq> set allowed)))"
  using assms(2,3)
proof (cases rule: probe_cases)
  case idle
  then show ?thesis using assms(4) by simp
next
  case (asked endpoint credential)
  let ?r = "evaluate_probe allowed (driver endpoint credential)"
  note typed = reachable_typed [OF assms(1)]
  have i: "rt_id seen = i" using scalar_targetD [OF assms(3)] by blast
  obtain s where s: "s \<in> set (db_targets (rg_db m))" "rt_id s = rt_id seen"
    and m': "if still_observed seen s then m' = m\<lparr>rg_db := (rg_db m)\<lparr>db_targets :=
        write_target (if rt_enabled s then probed_target now ?r ac ai s else s) (db_targets (rg_db m))\<rparr>\<rparr> else m' = m"
    using asked(4) by (rule record_probe_rows)
  show ?thesis
  proof (cases "rt_id t = i \<and> rt_enabled t \<and> rt_enabled seen \<and> still_observed seen t")
    case True
    then have t: "t = s" using typed_row_unique [OF typed assms(4) s(1)] s(2) i by simp
    let ?t = "probed_target now ?r ac ai t"
    have "rt_connection_config seen = endpoint_config (rt_connection_key t)"
      using True typed assms(4) by (auto simp: still_observed_def registry_typed_def target_typed_def)
    then have endpoint: "endpoint = rt_connection_key t" using asked(3) by (simp add: endpoint_config_def)
    have "?t \<in> set (db_targets (rg_db m'))"
      using True m' s unfolding t [symmetric] by (auto simp: probed_target_sel intro!: write_target_in)
    moreover have "same_identity t ?t" by (simp add: same_identity_def probed_target_sel)
    ultimately show ?thesis
      using True asked(2) evaluate_probe_ok(1,3) [of allowed "driver endpoint credential"] unfolding endpoint
      by (intro conjI impI exI [of _ credential] exI [of _ "evaluate_probe allowed (driver (rt_connection_key t) credential)"]
          bexI [of _ "probed_target now (evaluate_probe allowed (driver (rt_connection_key t) credential)) ac ai t"])
        (simp_all add: probed_target_sel)
  next
    case False
    have "t \<in> set (db_targets (rg_db m'))"
    proof (cases "rt_id t = i")
      case True
      then have t: "t = s" using typed_row_unique [OF typed assms(4) s(1)] s(2) i by simp
      have "t \<in> set (write_target t (db_targets (rg_db m)))" by (rule write_target_in) (use assms(4) in auto)
      then show ?thesis using False True asked(1) m' assms(4) unfolding t by (auto split: if_split_asm)
    next
      case other: False
      have "t \<in> set (write_target (if rt_enabled s then probed_target now ?r ac ai s else s) (db_targets (rg_db m)))"
        by (rule write_target_others) (use other s i assms(4) in \<open>simp_all add: probed_target_sel\<close>)
      then show ?thesis using m' assms(4) by (auto split: if_split_asm)
    qed
    with False show ?thesis by blast
  qed
qed

subsection \<open>Witnesses\<close>

definition demo_urlsplit :: url_parser where
  "demo_urlsplit s = Some \<lparr>up_scheme = ''http'', up_hostname = Some ''runtime'', up_username = None, up_password = None,
     up_port = Some 80, up_path = ''/'', up_query = [], up_fragment = []\<rparr>"

definition demo_upsert :: upsert_target_command where
  "demo_upsert = \<lparr>uc_idempotency_key = ''k'', uc_name = ''a'', uc_connection_config = endpoint_config ''http://runtime/'',
     uc_credential = Some ''token'', uc_pool = RP_INTERACTIVE, uc_runtime_type = RT_JUPYTER, uc_actor_client = None,
     uc_actor_id = None, uc_max_concurrent_executions = Some 2\<rparr>"

definition demo_registration :: "domain_error + (registry_db \<times> registration)" where
  "demo_registration = register_target demo_urlsplit (\<lambda>s. s) (\<lambda>s. s) demo_settings 5 7 51 80 demo_upsert empty_registry"

definition demo_registry :: registry_db where
  "demo_registry = (case demo_registration of Inl _ \<Rightarrow> empty_registry | Inr (m, _) \<Rightarrow> m)"

definition demo_answers :: probe_answers where
  "demo_answers = \<lparr>pa_status = Answer (JObj [(''active_session_count'', JInt 1)]), pa_profiles = Answer [''python'', ''r''],
     pa_resource = Failure ''timeout'', pa_mismatch_text = ''none''\<rparr>"

definition demo_probe :: "domain_error + (registry_db \<times> runtime_target_view)" where
  "demo_probe = probe Some demo_settings [''python''] 8 (\<lambda>_ _. demo_answers) 51 None None demo_registry demo_registry"

definition demo_row :: runtime_target_orm where
  "demo_row = new_target_row (\<lambda>s. s) 5 7 51 ''http://runtime'' demo_upsert ''token''"

lemma demo_endpoint: "normalize_connection_config demo_urlsplit (uc_connection_config demo_upsert) = Inr ''http://runtime''"
  by code_simp

lemma demo_rows: "registered_rows (\<lambda>s. s) 5 7 51 ''http://runtime'' demo_upsert empty_db = Inr (51, [demo_row])"
  by (simp add: registered_rows_def empty_db_def demo_upsert_def demo_row_def)

lemma demo_row_typed: "target_row_ok demo_row" "target_keys_ok [demo_row]"
  by (simp_all add: target_row_ok_def target_keys_ok_def demo_row_def new_target_row_def demo_upsert_def)

lemma demo_registration_ok: "\<exists>d. demo_registration = Inr (\<lparr>rg_db = d, rg_purges = []\<rparr>, Registered 51) \<and> db_targets d = [demo_row]"
  by (simp add: demo_registration_def register_target_def Let_def demo_endpoint demo_rows demo_row_typed flush_targets_def
      empty_registry_def repeated_result_def add_receipt_def insert_command_receipt_def bind_raise_if)
    (simp add: empty_db_def)

lemma demo_registry_targets [simp]: "db_targets (rg_db demo_registry) = [demo_row]" "rg_purges demo_registry = []"
proof -
  obtain d where r: "demo_registration = Inr (\<lparr>rg_db = d, rg_purges = []\<rparr>, Registered 51)" and d: "db_targets d = [demo_row]"
    using demo_registration_ok by blast
  show "db_targets (rg_db demo_registry) = [demo_row]" "rg_purges demo_registry = []" by (simp_all add: demo_registry_def r d)
qed

lemma demo_row_sel [simp]: "rt_id demo_row = 51" "rt_status demo_row = TS_OFFLINE" "rt_enabled demo_row"
  "rt_connection_key demo_row = ''http://runtime''" "rt_connection_config demo_row = endpoint_config ''http://runtime''"
  "rt_credential_ciphertext demo_row = Some ''token''" "rt_credential_ref demo_row = ''encrypted:database''"
  by (simp_all add: demo_row_def new_target_row_def)

lemma demo_probe_ok: "\<exists>m v. demo_probe = Inr (m, v)"
  by (simp add: demo_probe_def probe_def required_target_def resolve_credential_def endpoint_config_def record_probe_def Let_def)

text \<open>The registered Target, once an Execution runs on it.\<close>

definition demo_busy :: registry_db where
  "demo_busy = demo_registry\<lparr>rg_db := (demo_running OM_SINGLE)\<lparr>db_targets := db_targets (rg_db demo_registry)\<rparr>\<rparr>"

definition demo_disable :: disable_target_command where
  "demo_disable = \<lparr>dc_idempotency_key = ''off'', dc_target_id = 51, dc_actor_client = None, dc_actor_id = None\<rparr>"

lemma demo_busy_reserved: "count_runtime_reservations 51 9 (demo_running OM_SINGLE) = 1" by code_simp

lemma demo_busy_receipts:
  "list_all (\<lambda>x. cr_id x \<noteq> 81 \<and> cr_idempotency_key x \<noteq> ''off'') (db_receipts (demo_running OM_SINGLE))"
  by code_simp

lemma demo_busy_count: "count_runtime_reservations 51 9 (rg_db demo_busy) = 1"
  using demo_busy_reserved by (simp add: demo_busy_def count_runtime_reservations_def reservation_ids_def)

lemma demo_disable_ok: "\<exists>m v. disable_target (\<lambda>s. s) demo_settings 9 81 demo_disable demo_busy = Inr (m, v)"
proof -
  have "scalar (\<lambda>r. cr_scope r = GLOBAL_RECEIPT_SCOPE \<and> cr_idempotency_key r = ''off'') (db_receipts (demo_running OM_SINGLE)) = None"
    using demo_busy_receipts by (auto simp: scalar_None_iff list_all_iff)
  moreover have "list_all (\<lambda>x. cr_id x \<noteq> 81 \<and> (cr_scope x = GLOBAL_RECEIPT_SCOPE \<longrightarrow> cr_idempotency_key x \<noteq> ''off''))
      (db_receipts (demo_running OM_SINGLE))"
    using demo_busy_receipts by (auto simp: list_all_iff)
  ultimately show ?thesis
    by (simp add: disable_target_def Let_def repeated_result_def demo_busy_def demo_disable_def required_target_def
        add_receipt_def insert_command_receipt_def)
qed

lemma registry_reachable_empty: "registry_reachable empty_registry"
  by (simp add: registry_reachable_def)

lemma registry_reachable_step: "registry_reachable m \<Longrightarrow> registry_step now m m' \<Longrightarrow> registry_reachable m'"
  unfolding registry_reachable_def by (erule rtranclp.rtrancl_into_rtrancl) blast

lemma demo_registry_reachable: "registry_reachable demo_registry"
proof -
  obtain d where r: "demo_registration = Inr (\<lparr>rg_db = d, rg_purges = []\<rparr>, Registered 51)" using demo_registration_ok by blast
  have "demo_registry = \<lparr>rg_db = d, rg_purges = []\<rparr>" by (simp add: demo_registry_def r)
  then have "registry_step 7 empty_registry demo_registry"
    using registered [OF r [unfolded demo_registration_def]] by (simp add: empty_registry_def)
  then show ?thesis using registry_reachable_empty registry_reachable_step by blast
qed

lemma demo_busy_reachable: "registry_reachable demo_busy"
  unfolding demo_busy_def
  by (rule registry_reachable_step [OF demo_registry_reachable work_changed [of _ _ 8]]) simp

theorem registry_rows_witness:
  "0 < rt_max_concurrent_executions demo_row \<and> rt_connection_config demo_row = endpoint_config (rt_connection_key demo_row)"
  using registry_rows [OF demo_registry_reachable] by simp

theorem reserved_target_kept_witness:
  "\<exists>m' v. disable_target (\<lambda>s. s) demo_settings 9 81 demo_disable demo_busy = Inr (m', v) \<and>
     (\<exists>t'\<in>set (db_targets (rg_db m')). same_identity demo_row t')"
proof -
  obtain m' v where r: "disable_target (\<lambda>s. s) demo_settings 9 81 demo_disable demo_busy = Inr (m', v)"
    using demo_disable_ok by blast
  have "demo_row \<in> set (db_targets (rg_db demo_busy))" by (simp add: demo_busy_def)
  from reserved_target_kept [OF demo_busy_reachable disabled [OF r] this]
  show ?thesis using r by (simp add: demo_busy_count)
qed

lemma probe_respects_operator_witness:
  "\<exists>m' v. demo_probe = Inr (m', v) \<and>
     (\<exists>t\<in>set (db_targets (rg_db m')). rt_status t = TS_ACTIVE \<and> set (rt_supported_profiles t) = {''python''})"
proof -
  obtain m' v where r: "demo_probe = Inr (m', v)" using demo_probe_ok by blast
  have ok: "pr_error (evaluate_probe [''python''] demo_answers) = None" by code_simp
  have seen: "still_observed demo_row demo_row" by (simp add: still_observed_def)
  obtain t' where "t' \<in> set (db_targets (rg_db m'))" "rt_status t' = TS_ACTIVE" "rt_supported_profiles t' \<noteq> []"
    "set (rt_supported_profiles t') \<subseteq> {''python''}"
    using probe_respects_operator [OF demo_registry_reachable r [unfolded demo_probe_def], of demo_row demo_row] seen ok by auto
  then show ?thesis using r by (metis (no_types, lifting) set_empty subset_singletonD)
qed

end
