(* ===== verification/Artifacts.thy ===== *)
theory Artifacts
  imports System
begin

text \<open>
  Artifacts of an Execution: the workspace a Runtime keeps its files in (\<open>infrastructure/workspace.py\<close>), the
  discovery of the files a Step left there and their registration under the Execution's lease
  (\<open>infrastructure/artifacts\<close>), and the text artifacts a caller adds to a finished Execution
  (\<open>infrastructure/materialized_artifacts\<close>).

  A path inside a Runtime is a POSIX path text, read as its root and its segments. The Runtime's storage answers
  with the metadata of a file, the manifest and the list of files; these answers are arguments. The field types of a
  manifest line are checked by a library and so is the notebook format: reading a line and a new notebook cell
  are arguments too. Characters are code points below 256.

  The theorems say that no artifact can be read from or written outside of what its Execution owns, that
  registration is idempotent, and that a materialization happens at most once.
\<close>

subsection \<open>Workspaces\<close>

record execution_workspace =
  wk_runtime_relative_path :: string
  wk_notebook_path :: string
  wk_reports_path :: string
  wk_artifacts_path :: string
  wk_manifest_path :: string
  wk_runtime_type :: runtime_type

datatype artifact_error =
    WorkspacePathError
  | RegistrationError
  | StorageAccessError
  | FlushError
  | LeaseError worker_error

definition segment :: "string \<Rightarrow> artifact_error + string" where
  "segment value = (if safe_segment value then Inr value else Inl WorkspacePathError)"

definition plan_segments :: "execution_orm \<Rightarrow> artifact_error + string list" where
  "plan_segments e =
     bind_res (segment (ex_tenant_id e)) (\<lambda>tenant.
     bind_res (segment (ex_user_id e)) (\<lambda>user.
     bind_res (segment (str_or_else (ex_project_id e) ''unscoped'')) (\<lambda>project.
     bind_res (segment (str_or_else (ex_session_id e) ''unscoped'')) (\<lambda>session.
       Inr [''tenants'', tenant, ''users'', user, ''projects'', project, ''sessions'', session, ''executions'', uuid_str (ex_id e)]))))"

definition plan :: "execution_orm \<Rightarrow> artifact_error + execution_workspace" where
  "plan e =
     bind_res (plan_segments e) (\<lambda>segments.
       let relative = join ''/'' segments in
       Inr \<lparr>wk_runtime_relative_path = relative, wk_notebook_path = relative @ ''/notebooks/execution.ipynb'',
            wk_reports_path = relative @ ''/reports'', wk_artifacts_path = relative @ ''/artifacts'',
            wk_manifest_path = relative @ ''/artifacts/manifest.jsonl'', wk_runtime_type = ex_runtime_type e\<rparr>)"

subsection \<open>Paths of artifacts\<close>

text \<open>\<open>PurePosixPath\<close>: two leading slashes are a root of their own, any other number of them is one.\<close>

definition posix_root :: "string \<Rightarrow> string" where
  "posix_root raw =
     (let n = length (takeWhile (\<lambda>c. c = CHR ''/'') raw) in if n = 0 then [] else if n = 2 then ''//'' else ''/'')"

definition ARTIFACT_DIRECTORY_TYPES :: "(string \<times> artifact_type) list" where
  "ARTIFACT_DIRECTORY_TYPES =
     [(''datasets'', AT_DATASET), (''plots'', AT_PLOT), (''models'', AT_MODEL), (''metrics'', AT_METRIC),
      (''reports'', AT_REPORT), (''logs'', AT_LOG), (''other'', AT_OTHER)]"

definition relative_to :: "string \<Rightarrow> string \<Rightarrow> string list option" where
  "relative_to p base =
     (if posix_root p = posix_root base \<and> prefix (path_parts base) (path_parts p)
      then Some (drop (length (path_parts base)) (path_parts p)) else None)"

definition infer_artifact_type :: "runtime_file_state \<Rightarrow> execution_workspace \<Rightarrow> artifact_type option" where
  "infer_artifact_type state workspace =
     (case relative_to (fs_path state) (wk_artifacts_path workspace) of
        None \<Rightarrow> None
      | Some parts \<Rightarrow> if length parts \<le> 1 then None else map_of ARTIFACT_DIRECTORY_TYPES (hd parts))"

definition is_control :: "char \<Rightarrow> bool" where
  "is_control c \<longleftrightarrow> (let n = of_char c :: nat in n < 32 \<or> (127 \<le> n \<and> n < 160))"

definition manifest_runtime_path :: "string \<Rightarrow> execution_workspace \<Rightarrow> artifact_error + string" where
  "manifest_runtime_path raw workspace =
     (if raw = [] \<or> CHR 0x5C \<in> set raw \<or> ''..'' \<in> set (split_slash raw) \<or> list_ex is_control raw then Inl RegistrationError
      else if posix_root raw \<noteq> [] \<or> (path_parts raw \<noteq> [] \<and> hd (path_parts raw) = ''tenants'') then Inr raw
      else if path_parts raw = [] \<or> list_ex (\<lambda>p. p \<in> {'''', ''.'', ''..''}) (path_parts raw) then Inl RegistrationError
      else Inr (wk_runtime_relative_path workspace @ ''/'' @ as_posix (path_parts raw)))"

text \<open>\<open>urlsplit(uri)\<close> with the network location; \<open>None\<close> is a URL it cannot split.\<close>

record split_url =
  su_scheme :: string
  su_netloc :: string
  su_path :: string
  su_query :: string
  su_fragment :: string
  su_username :: "string option"
  su_password :: "string option"

definition validate_s3_uri :: "(string \<Rightarrow> split_url option) \<Rightarrow> string \<Rightarrow> artifact_error + unit" where
  "validate_s3_uri urlsplit uri =
     (case urlsplit uri of
        None \<Rightarrow> Inl RegistrationError
      | Some u \<Rightarrow>
          if su_scheme u \<noteq> ''s3'' \<or> su_netloc u = [] \<or> dropWhile (\<lambda>c. c = CHR ''/'') (su_path u) = [] then Inl RegistrationError
          else if str_truthy (su_username u) \<or> str_truthy (su_password u) \<or> su_query u \<noteq> [] \<or> su_fragment u \<noteq> []
          then Inl RegistrationError else Inr ())"

subsection \<open>Descriptors\<close>

record artifact_descriptor =
  ad_artifact_type :: artifact_type
  ad_storage_type :: artifact_storage_type
  ad_status :: artifact_status
  ad_name :: string
  ad_description :: "string option"
  ad_uri :: string
  ad_relative_path :: "string option"
  ad_media_type :: "string option"
  ad_size_bytes :: "int option"
  ad_checksum_sha256 :: "string option"
  ad_parent_artifact_id :: "uuid option"
  ad_external_parent_asset_id :: "string option"
  ad_metadata :: json

record artifact_manifest_entry =
  me_storage_type :: artifact_storage_type
  me_artifact_type :: artifact_type
  me_path :: "string option"
  me_uri :: "string option"
  me_name :: "string option"
  me_description :: "string option"
  me_media_type :: "string option"
  me_size_bytes :: "int option"
  me_checksum_sha256 :: "string option"
  me_parent_artifact_id :: "uuid option"
  me_external_parent_asset_id :: "string option"
  me_metadata :: "(string \<times> json) list"

definition validate_location :: "artifact_manifest_entry \<Rightarrow> bool" where
  "validate_location entry =
     (if me_storage_type entry = ST_PV then me_path entry \<noteq> None \<and> me_uri entry = None
      else me_uri entry \<noteq> None \<and> me_path entry = None \<and> me_size_bytes entry \<noteq> None \<and> me_checksum_sha256 entry \<noteq> None)"

record runtime_file_metadata =
  fm_path :: string
  fm_name :: string
  fm_size_bytes :: int
  fm_modified_ns :: int
  fm_media_type :: "string option"
  fm_checksum_sha256 :: string

definition artifact_uri :: "runtime_type \<Rightarrow> string \<Rightarrow> string" where
  "artifact_uri runtime_type p = (case runtime_type of RT_JUPYTER \<Rightarrow> ''jupyter-pv'') @ '':///'' @ p"

text \<open>\<open>{**metadata, key: value}\<close>: an existing key keeps its place.\<close>

definition with_key :: "string \<Rightarrow> json \<Rightarrow> (string \<times> json) list \<Rightarrow> (string \<times> json) list" where
  "with_key k v kvs =
     (if k \<in> fst ` set kvs then map (\<lambda>(k', v'). (k', if k' = k then v else v')) kvs else kvs @ [(k, v)])"

definition str_or_none :: "string option \<Rightarrow> string option \<Rightarrow> string option" where
  "str_or_none a b = (if str_truthy a then a else b)"

definition runtime_file_descriptor ::
    "runtime_file_metadata \<Rightarrow> artifact_type \<Rightarrow> artifact_status \<Rightarrow> runtime_type \<Rightarrow> string option \<Rightarrow> string option \<Rightarrow>
       string option \<Rightarrow> (string \<times> json) list \<Rightarrow> uuid option \<Rightarrow> string option \<Rightarrow> artifact_descriptor" where
  "runtime_file_descriptor f artifact_type status runtime_type name description media_type metadata parent external_parent =
     \<lparr>ad_artifact_type = artifact_type, ad_storage_type = ST_PV, ad_status = status,
      ad_name = str_or_else name (fm_name f), ad_description = description, ad_uri = artifact_uri runtime_type (fm_path f),
      ad_relative_path = Some (fm_path f), ad_media_type = str_or_none media_type (fm_media_type f),
      ad_size_bytes = Some (fm_size_bytes f), ad_checksum_sha256 = Some (fm_checksum_sha256 f),
      ad_parent_artifact_id = parent, ad_external_parent_asset_id = external_parent,
      ad_metadata = redact (JObj (with_key ''verification'' (JStr ''runtime-computed'') metadata))\<rparr>"

text \<open>\<open>PurePosixPath(urlsplit(uri).path).name\<close>: the last segment, empty for the root.\<close>

definition posix_name :: "string \<Rightarrow> string" where
  "posix_name p = (if path_parts p = [] then [] else last (path_parts p))"

type_synonym storage_answers = "string \<Rightarrow> runtime_file_metadata option"

definition manifest_descriptor ::
    "(string \<Rightarrow> split_url option) \<Rightarrow> storage_answers \<Rightarrow> execution_workspace \<Rightarrow> artifact_manifest_entry \<Rightarrow> artifact_status \<Rightarrow>
       artifact_error + artifact_descriptor" where
  "manifest_descriptor urlsplit file_metadata workspace entry status =
     (if me_storage_type entry = ST_PV then
        (case me_path entry of
           None \<Rightarrow> Inl RegistrationError
         | Some p \<Rightarrow>
             bind_res (manifest_runtime_path p workspace) (\<lambda>runtime_path.
             case file_metadata runtime_path of
               None \<Rightarrow> Inl StorageAccessError
             | Some metadata \<Rightarrow>
                 Inr (runtime_file_descriptor metadata (me_artifact_type entry) status (wk_runtime_type workspace)
                   (me_name entry) (me_description entry) (me_media_type entry) (me_metadata entry)
                   (me_parent_artifact_id entry) (me_external_parent_asset_id entry))))
      else
        (case me_uri entry of
           None \<Rightarrow> Inl RegistrationError
         | Some uri \<Rightarrow>
             bind_res (validate_s3_uri urlsplit uri) (\<lambda>_.
             case urlsplit uri of
               None \<Rightarrow> Inl RegistrationError
             | Some u \<Rightarrow>
                 Inr \<lparr>ad_artifact_type = me_artifact_type entry, ad_storage_type = ST_S3, ad_status = status,
                      ad_name = str_or_else (me_name entry) (if posix_name (su_path u) \<noteq> [] then posix_name (su_path u) else ''s3-artifact''),
                      ad_description = me_description entry, ad_uri = uri, ad_relative_path = None,
                      ad_media_type = me_media_type entry, ad_size_bytes = me_size_bytes entry,
                      ad_checksum_sha256 = (if str_truthy (me_checksum_sha256 entry) then map_option lower (me_checksum_sha256 entry) else None),
                      ad_parent_artifact_id = me_parent_artifact_id entry,
                      ad_external_parent_asset_id = me_external_parent_asset_id entry,
                      ad_metadata = redact (JObj (with_key ''verification'' (JStr ''manifest-declared'') (me_metadata entry)))\<rparr>)))"

subsection \<open>Discovery\<close>

definition is_line_break :: "char \<Rightarrow> bool" where
  "is_line_break c \<longleftrightarrow> (let n = of_char c :: nat in (10 \<le> n \<and> n \<le> 13) \<or> (28 \<le> n \<and> n \<le> 30) \<or> n = 133)"

text \<open>\<open>str.splitlines\<close>: a carriage return and a line feed are one break.\<close>

function splitlines :: "string \<Rightarrow> string list" where
  "splitlines s =
     (if s = [] then []
      else
        (case dropWhile (\<lambda>c. \<not> is_line_break c) s of
           [] \<Rightarrow> [s]
         | b # rest \<Rightarrow>
             takeWhile (\<lambda>c. \<not> is_line_break c) s #
               splitlines (if b = CHR 0x0D \<and> take 1 rest = [CHR 0x0A] then tl rest else rest)))"
  by pat_completeness auto
termination
proof (relation "measure length")
  fix s b rest
  assume "dropWhile (\<lambda>c. \<not> is_line_break c) s = b # rest"
  then have "Suc (length rest) \<le> length s" using length_dropWhile_le [of "\<lambda>c. \<not> is_line_break c" s] by simp
  then show "(if b = CHR 0x0D \<and> take 1 rest = [CHR 0x0A] then tl rest else rest, s) \<in> measure length"
    by (cases rest) auto
qed simp

declare splitlines.simps [simp del]

definition manifest_line ::
    "(string \<Rightarrow> split_url option) \<Rightarrow> (string \<Rightarrow> artifact_manifest_entry option) \<Rightarrow> storage_answers \<Rightarrow> execution_workspace \<Rightarrow>
       artifact_status \<Rightarrow> artifact_descriptor list \<Rightarrow> string \<Rightarrow> artifact_error + artifact_descriptor list" where
  "manifest_line urlsplit read_entry file_metadata workspace status descriptors raw =
     (if strip raw = [] then Inr descriptors
      else
        (case read_entry raw of
           None \<Rightarrow> Inl RegistrationError
         | Some entry \<Rightarrow>
             if \<not> validate_location entry then Inl RegistrationError
             else
               (case manifest_descriptor urlsplit file_metadata workspace entry status of
                  Inl _ \<Rightarrow> Inl RegistrationError
                | Inr descriptor \<Rightarrow> Inr (descriptors @ [descriptor]))))"

definition manifest_descriptors ::
    "(string \<Rightarrow> split_url option) \<Rightarrow> (string \<Rightarrow> artifact_manifest_entry option) \<Rightarrow> storage_answers \<Rightarrow> execution_workspace \<Rightarrow>
       string \<Rightarrow> artifact_status \<Rightarrow> artifact_error + artifact_descriptor list" where
  "manifest_descriptors urlsplit read_entry file_metadata workspace content status =
     (case utf8_decode content of
        None \<Rightarrow> Inl RegistrationError
      | Some text \<Rightarrow> foldM_res (manifest_line urlsplit read_entry file_metadata workspace status) [] (splitlines text))"

definition automatic_descriptor ::
    "storage_answers \<Rightarrow> execution_workspace \<Rightarrow> (string \<Rightarrow> runtime_file_state option) \<Rightarrow> string list \<Rightarrow> artifact_status \<Rightarrow>
       artifact_descriptor list \<Rightarrow> runtime_file_state \<Rightarrow> artifact_error + artifact_descriptor list" where
  "automatic_descriptor file_metadata workspace previous manifest_uris status automatic state =
     (if previous (fs_path state) = Some state then Inr automatic
      else
        (case infer_artifact_type state workspace of
           None \<Rightarrow> Inr automatic
         | Some artifact_type \<Rightarrow>
             (case file_metadata (fs_path state) of
                None \<Rightarrow> Inl StorageAccessError
              | Some metadata \<Rightarrow>
                  (let descriptor = runtime_file_descriptor metadata artifact_type status (wk_runtime_type workspace) None None None
                         [(''discovery'', JStr ''runtime-workspace-diff'')] None None
                   in Inr (if ad_uri descriptor \<in> set manifest_uris then automatic else automatic @ [descriptor])))))"

text \<open>\<open>manifest\<close> and \<open>current\<close> are the answers of the Runtime, \<open>None\<close> when the request failed.\<close>

definition discover ::
    "(string \<Rightarrow> split_url option) \<Rightarrow> (string \<Rightarrow> artifact_manifest_entry option) \<Rightarrow> storage_answers \<Rightarrow> string option \<Rightarrow>
       runtime_storage_snapshot option \<Rightarrow> execution_workspace \<Rightarrow> runtime_storage_snapshot \<Rightarrow> artifact_status \<Rightarrow>
       artifact_error + artifact_descriptor list" where
  "discover urlsplit read_entry file_metadata manifest current workspace before status =
     (case manifest of
        None \<Rightarrow> Inl StorageAccessError
      | Some content \<Rightarrow>
          bind_res (manifest_descriptors urlsplit read_entry file_metadata workspace content status) (\<lambda>declared.
          case current of
            None \<Rightarrow> Inl StorageAccessError
          | Some now_there \<Rightarrow>
              bind_res (foldM_res (automatic_descriptor file_metadata workspace
                  (map_of (rev (map (\<lambda>state. (fs_path state, state)) (ss_files before)))) (map ad_uri declared) status)
                [] (ss_files now_there)) (\<lambda>automatic. Inr (declared @ automatic))))"

subsection \<open>Registration under a lease\<close>

fun artifact_status_value :: "artifact_status \<Rightarrow> string" where
  "artifact_status_value AR_AVAILABLE = ''AVAILABLE''"
| "artifact_status_value AR_INCOMPLETE = ''INCOMPLETE''"
| "artifact_status_value AR_DELETED = ''DELETED''"

definition artifact_identity_hash :: "(string \<Rightarrow> string) \<Rightarrow> uuid \<Rightarrow> uuid \<Rightarrow> uuid \<Rightarrow> artifact_descriptor \<Rightarrow> string" where
  "artifact_identity_hash sha256 execution_id attempt_id step_attempt_id descriptor =
     sha256 (utf8_encode (json_dumps (JObj
       [(''execution_id'', JStr (uuid_str execution_id)), (''attempt_id'', JStr (uuid_str attempt_id)),
        (''step_attempt_id'', JStr (uuid_str step_attempt_id)), (''uri'', JStr (ad_uri descriptor)),
        (''checksum_sha256'', json_opt_str (ad_checksum_sha256 descriptor)),
        (''status'', JStr (artifact_status_value (ad_status descriptor)))])))"

text \<open>The constraints of \<open>execution_artifacts\<close>, checked when the session flushes.\<close>

definition insert_artifact :: "artifact_orm \<Rightarrow> db \<Rightarrow> db option" where
  "insert_artifact r d =
     (if list_all (\<lambda>x. ar_id x \<noteq> ar_id r \<and> ar_identity_hash x \<noteq> ar_identity_hash r) (db_artifacts d) \<and>
         (case ar_size_bytes r of None \<Rightarrow> True | Some n \<Rightarrow> 0 \<le> n) \<and>
         (case ar_parent_artifact_id r of None \<Rightarrow> True | Some p \<Rightarrow> list_ex (\<lambda>x. ar_id x = p) (db_artifacts d) \<or> p = ar_id r)
      then Some (d\<lparr>db_artifacts := db_artifacts d @ [r]\<rparr>) else None)"

definition artifact_row ::
    "uuid \<Rightarrow> datetime \<Rightarrow> execution_lease \<Rightarrow> step_orm \<Rightarrow> uuid \<Rightarrow> artifact_descriptor \<Rightarrow> string \<Rightarrow> artifact_orm" where
  "artifact_row new_id now lease step step_attempt_id descriptor identity_hash =
     \<lparr>ar_id = new_id, ar_execution_id = le_execution_id lease, ar_execution_attempt_id = Some (le_attempt_id lease),
      ar_execution_step_id = Some (st_id step), ar_execution_step_attempt_id = Some step_attempt_id,
      ar_parent_artifact_id = ad_parent_artifact_id descriptor,
      ar_external_parent_asset_id = ad_external_parent_asset_id descriptor,
      ar_artifact_type = ad_artifact_type descriptor, ar_storage_type = ad_storage_type descriptor,
      ar_status = ad_status descriptor, ar_name = ad_name descriptor, ar_description = ad_description descriptor,
      ar_uri = ad_uri descriptor, ar_relative_path = ad_relative_path descriptor,
      ar_media_type = ad_media_type descriptor, ar_size_bytes = ad_size_bytes descriptor,
      ar_checksum_sha256 = ad_checksum_sha256 descriptor, ar_artifact_metadata = ad_metadata descriptor,
      ar_identity_hash = identity_hash,
      ar_created_by_client = str_or_none (st_updated_by_client step) (st_created_by_client step),
      ar_created_by = str_or_none (st_updated_by step) (st_created_by step),
      ar_updated_by_client = str_or_none (st_updated_by_client step) (st_created_by_client step),
      ar_updated_by = str_or_none (st_updated_by step) (st_created_by step), ar_created_at = now, ar_updated_at = now\<rparr>"

definition persist_one ::
    "(string \<Rightarrow> string) \<Rightarrow> datetime \<Rightarrow> execution_lease \<Rightarrow> step_orm \<Rightarrow> uuid \<Rightarrow> db \<times> uuid list \<Rightarrow> uuid \<times> artifact_descriptor \<Rightarrow>
       artifact_error + (db \<times> uuid list)" where
  "persist_one sha256 now lease step step_attempt_id s x =
     (case (s, x) of ((d, artifact_ids), (new_id, descriptor)) \<Rightarrow>
       (let identity_hash = artifact_identity_hash sha256 (le_execution_id lease) (le_attempt_id lease) step_attempt_id descriptor in
        case scalar (\<lambda>r. ar_identity_hash r = identity_hash) (db_artifacts d) of
          Some existing \<Rightarrow> Inr (d, artifact_ids @ [ar_id existing])
        | None \<Rightarrow>
            (case insert_artifact (artifact_row new_id now lease step step_attempt_id descriptor identity_hash) d of
               None \<Rightarrow> Inl FlushError
             | Some d' \<Rightarrow> Inr (d', artifact_ids @ [new_id]))))"

definition leased :: "worker_error + 'a \<Rightarrow> artifact_error + 'a" where
  "leased r = (case r of Inl e \<Rightarrow> Inl (LeaseError e) | Inr x \<Rightarrow> Inr x)"

text \<open>The identifiers drawn for new rows are \<open>fresh 0\<close>, \<open>fresh 1\<close>, and so on.\<close>

definition persist ::
    "(string \<Rightarrow> string) \<Rightarrow> datetime \<Rightarrow> (nat \<Rightarrow> uuid) \<Rightarrow> artifact_descriptor list \<Rightarrow> execution_lease \<Rightarrow> int \<Rightarrow> bool \<Rightarrow> db \<Rightarrow>
       artifact_error + (db \<times> uuid list)" where
  "persist sha256 now fresh descriptors lease sequence allow_cancel_requested d =
     (if descriptors = [] then Inr (d, [])
      else
        bind_res (leased (require_active_lease now lease
            (if allow_cancel_requested then [ES_RUNNING, ES_CANCEL_REQUESTED] else [ES_RUNNING]) d)) (\<lambda>_.
        case (scalar (\<lambda>s. st_execution_id s = le_execution_id lease \<and> st_sequence s = sequence) (db_steps d),
              scalar (\<lambda>s. sa_execution_attempt_id s = le_attempt_id lease \<and> sa_sequence s = sequence) (db_step_attempts d)) of
          (Some step, Some step_attempt) \<Rightarrow>
            foldM_res (persist_one sha256 now lease step (sa_id step_attempt)) (d, [])
              (map (\<lambda>(n, descriptor). (fresh n, descriptor)) (enumerate 0 descriptors))
        | _ \<Rightarrow> Inl RegistrationError))"

definition live_notebook_identity :: "execution_lease \<Rightarrow> artifact_descriptor \<Rightarrow> string" where
  "live_notebook_identity lease descriptor =
     ''['' @ join '', '' (map (\<lambda>s. json_dumps (JStr s)) [uuid_str (le_execution_id lease), ''live-notebook'', ad_uri descriptor]) @ '']''"

definition live_notebook :: "execution_lease \<Rightarrow> artifact_descriptor \<Rightarrow> artifact_orm \<Rightarrow> bool" where
  "live_notebook lease descriptor r \<longleftrightarrow>
     ar_execution_id r = le_execution_id lease \<and> ar_artifact_type r = AT_NOTEBOOK \<and>
     ar_storage_type r = ad_storage_type descriptor \<and> ar_relative_path r = ad_relative_path descriptor"

definition refreshed_notebook :: "datetime \<Rightarrow> execution_orm \<Rightarrow> artifact_descriptor \<Rightarrow> artifact_orm \<Rightarrow> artifact_orm" where
  "refreshed_notebook now e descriptor r =
     r\<lparr>ar_status := ad_status descriptor, ar_media_type := ad_media_type descriptor, ar_size_bytes := ad_size_bytes descriptor,
       ar_checksum_sha256 := ad_checksum_sha256 descriptor, ar_artifact_metadata := ad_metadata descriptor,
       ar_updated_by_client := ex_updated_by_client e, ar_updated_by := ex_updated_by e, ar_updated_at := now\<rparr>"

definition new_notebook_row ::
    "(string \<Rightarrow> string) \<Rightarrow> datetime \<Rightarrow> uuid \<Rightarrow> execution_lease \<Rightarrow> execution_orm \<Rightarrow> artifact_descriptor \<Rightarrow> artifact_orm" where
  "new_notebook_row sha256 now new_id lease e descriptor =
     \<lparr>ar_id = new_id, ar_execution_id = le_execution_id lease, ar_execution_attempt_id = None, ar_execution_step_id = None,
      ar_execution_step_attempt_id = None, ar_parent_artifact_id = None, ar_external_parent_asset_id = None,
      ar_artifact_type = AT_NOTEBOOK, ar_storage_type = ad_storage_type descriptor, ar_status = ad_status descriptor,
      ar_name = ad_name descriptor, ar_description = None, ar_uri = ad_uri descriptor,
      ar_relative_path = ad_relative_path descriptor, ar_media_type = None, ar_size_bytes = None, ar_checksum_sha256 = None,
      ar_artifact_metadata = JObj [], ar_identity_hash = sha256 (utf8_encode (live_notebook_identity lease descriptor)),
      ar_created_by_client = ex_created_by_client e, ar_created_by = ex_created_by e, ar_updated_by_client = None,
      ar_updated_by = None, ar_created_at = now, ar_updated_at = now\<rparr>"

definition persist_notebook ::
    "(string \<Rightarrow> string) \<Rightarrow> datetime \<Rightarrow> uuid \<Rightarrow> artifact_descriptor \<Rightarrow> execution_lease \<Rightarrow> db \<Rightarrow> artifact_error + (db \<times> uuid list)" where
  "persist_notebook sha256 now new_id descriptor lease d =
     bind_res (leased (require_active_lease now lease [ES_RUNNING, ES_CANCEL_REQUESTED] d)) (\<lambda>(e, _).
     case sort_key (\<lambda>r. (ar_created_at r, ar_id r)) (filter (live_notebook lease descriptor) (db_artifacts d)) of
       [] \<Rightarrow>
         (case insert_artifact (refreshed_notebook now e descriptor (new_notebook_row sha256 now new_id lease e descriptor)) d of
            None \<Rightarrow> Inl FlushError
          | Some d' \<Rightarrow> Inr (d', [new_id]))
     | row # _ \<Rightarrow>
         if (case ad_size_bytes descriptor of None \<Rightarrow> False | Some n \<Rightarrow> n < 0) then Inl FlushError
         else Inr (d\<lparr>db_artifacts := update_where (\<lambda>r. ar_id r = ar_id row) (refreshed_notebook now e descriptor) (db_artifacts d)\<rparr>,
                   [ar_id row]))"

text \<open>\<open>discover_and_register\<close> and \<open>register_notebook\<close>: the answers of the Runtime, then one transaction.\<close>

definition discover_and_register where
  "discover_and_register sha256 urlsplit read_entry file_metadata manifest current now fresh workspace before lease sequence status
     allow_cancel_requested d =
     bind_res (discover urlsplit read_entry file_metadata manifest current workspace before status) (\<lambda>descriptors.
       persist sha256 now fresh descriptors lease sequence allow_cancel_requested d)"

definition register_notebook where
  "register_notebook sha256 file_metadata now new_id workspace lease d =
     (case file_metadata (wk_notebook_path workspace) of
        None \<Rightarrow> Inl StorageAccessError
      | Some metadata \<Rightarrow>
          persist_notebook sha256 now new_id
            (runtime_file_descriptor metadata AT_NOTEBOOK AR_AVAILABLE (wk_runtime_type workspace) None None None
              [(''content_semantics'', JStr ''CURRENT_FILE'')] None None) lease d)"

subsection \<open>Text artifacts of a finished Execution\<close>

record materialize_command =
  mz_execution_id :: uuid
  mz_idempotency_key :: string
  mz_artifact_type :: artifact_type
  mz_source_type :: code_source_type
  mz_source_content :: "string option"
  mz_source_path :: "string option"
  mz_source_sha256 :: "string option"
  mz_name :: "string option"
  mz_description :: "string option"
  mz_media_type :: "string option"
  mz_append_to_notebook :: bool
  mz_metadata :: "(string \<times> json) list"
  mz_actor_client :: "string option"
  mz_actor_id :: "string option"

fun artifact_type_value :: "artifact_type \<Rightarrow> string" where
  "artifact_type_value AT_DATASET = ''DATASET''"
| "artifact_type_value AT_NOTEBOOK = ''NOTEBOOK''"
| "artifact_type_value AT_REPORT = ''REPORT''"
| "artifact_type_value AT_PLOT = ''PLOT''"
| "artifact_type_value AT_MODEL = ''MODEL''"
| "artifact_type_value AT_METRIC = ''METRIC''"
| "artifact_type_value AT_LOG = ''LOG''"
| "artifact_type_value AT_OTHER = ''OTHER''"

definition command_fingerprint :: "(string \<Rightarrow> string) \<Rightarrow> materialize_command \<Rightarrow> string" where
  "command_fingerprint sha256 c =
     canonical_sha256 sha256 (JObj
       [(''execution_id'', JStr (uuid_str (mz_execution_id c))), (''artifact_type'', JStr (artifact_type_value (mz_artifact_type c))),
        (''source_type'', JStr (code_source_type_value (mz_source_type c))), (''source_content'', json_opt_str (mz_source_content c)),
        (''source_path'', json_opt_str (mz_source_path c)), (''source_sha256'', json_opt_str (mz_source_sha256 c)),
        (''name'', json_opt_str (mz_name c)), (''description'', json_opt_str (mz_description c)),
        (''media_type'', json_opt_str (mz_media_type c)), (''append_to_notebook'', JBool (mz_append_to_notebook c)),
        (''metadata'', JObj (mz_metadata c)), (''actor_client'', json_opt_str (mz_actor_client c)),
        (''actor_id'', json_opt_str (mz_actor_id c))])"

text \<open>\<open>UUID(bytes=digest[:16])\<close> from the first 32 digits of the digest.\<close>

definition artifact_id :: "(string \<Rightarrow> string) \<Rightarrow> string \<Rightarrow> uuid" where
  "artifact_id sha256 fingerprint = opt_or (hex_fold 0 (take 32 (sha256 (utf8_encode fingerprint)))) 0"

definition materialized_identity_hash :: "(string \<Rightarrow> string) \<Rightarrow> uuid \<Rightarrow> string \<Rightarrow> string \<Rightarrow> string" where
  "materialized_identity_hash sha256 execution_id target checksum =
     sha256 (utf8_encode (uuid_str execution_id @ '':'' @ target @ '':'' @ checksum))"

definition artifact_name :: "materialize_command \<Rightarrow> domain_error + string" where
  "artifact_name c =
     (let default_name = (if mz_artifact_type c = AT_REPORT then ''final-report.md'' else ''artifact.txt'');
          name = str_or_else (mz_name c) default_name
      in if \<not> safe_segment name then Inl ArtifactRegistrationError
         else Inr (if mz_artifact_type c = AT_REPORT \<and> \<not> suffix ''.md'' (lower name) then name @ ''.md'' else name))"

fun artifact_directory :: "artifact_type \<Rightarrow> string" where
  "artifact_directory AT_DATASET = ''datasets''"
| "artifact_directory AT_PLOT = ''plots''"
| "artifact_directory AT_MODEL = ''models''"
| "artifact_directory AT_METRIC = ''metrics''"
| "artifact_directory AT_LOG = ''logs''"
| "artifact_directory _ = ''other''"

definition target_path :: "string \<Rightarrow> artifact_type \<Rightarrow> string \<Rightarrow> string" where
  "target_path workspace artifact_type name =
     posix_root workspace @ as_posix (path_parts workspace @
       (if artifact_type = AT_REPORT then [''reports'', name] else [''artifacts'', artifact_directory artifact_type, name]))"

definition media_type_of :: "materialize_command \<Rightarrow> string option \<Rightarrow> string" where
  "media_type_of c runtime_media_type =
     (case mz_media_type c of
        Some m \<Rightarrow> m
      | None \<Rightarrow> if mz_artifact_type c = AT_REPORT then ''text/markdown'' else str_or_else runtime_media_type ''text/plain'')"

text \<open>\<open>(root / path).resolve()\<close> without symbolic links; \<open>..\<close> above the file system's root stays there.\<close>

fun resolve_dots :: "path \<Rightarrow> path \<Rightarrow> path" where
  "resolve_dots acc [] = rev acc"
| "resolve_dots acc (p # ps) = (if p = ''..'' then resolve_dots (tl acc) ps else resolve_dots (p # acc) ps)"

definition read_input ::
    "(string \<Rightarrow> string) \<Rightarrow> path \<Rightarrow> (path \<Rightarrow> string option) \<Rightarrow> nat \<Rightarrow> string \<Rightarrow> string option \<Rightarrow> domain_error + string" where
  "read_input sha256 input_root input_files max_bytes source_path source_sha256 =
     (if path_is_absolute source_path then Inl ArtifactRegistrationError
      else
        (let resolved = resolve_dots (rev input_root) (path_parts source_path) in
         if \<not> prefix input_root resolved then Inl ArtifactRegistrationError
         else
           (case input_files resolved of
              None \<Rightarrow> Inl ArtifactRegistrationError
            | Some raw \<Rightarrow>
                if max_bytes < length raw then Inl ArtifactRegistrationError
                else if (case source_sha256 of None \<Rightarrow> False | Some expected \<Rightarrow> sha256 raw \<noteq> lower expected)
                then Inl ArtifactRegistrationError
                else (case utf8_decode raw of None \<Rightarrow> Inl ArtifactRegistrationError | Some content \<Rightarrow> Inr content))))"

definition resolve_content ::
    "(string \<Rightarrow> string) \<Rightarrow> path \<Rightarrow> (path \<Rightarrow> string option) \<Rightarrow> nat \<Rightarrow> materialize_command \<Rightarrow> domain_error + string" where
  "resolve_content sha256 input_root input_files max_bytes c =
     bind_res
       (case (mz_source_type c, mz_source_content c, mz_source_path c) of
          (CS_INLINE, Some content, None) \<Rightarrow> Inr content
        | (CS_PATH, None, Some p) \<Rightarrow> read_input sha256 input_root input_files max_bytes p (mz_source_sha256 c)
        | _ \<Rightarrow> Inl ArtifactRegistrationError) (\<lambda>content.
     if strip content = [] \<or> max_bytes < length (utf8_encode content) then Inl ArtifactRegistrationError
     else Inr content)"

subsection \<open>Reserving the key and writing\<close>

definition receipt_of :: "db \<Rightarrow> uuid \<Rightarrow> string \<Rightarrow> command_receipt_orm option" where
  "receipt_of d execution_id idempotency_key =
     scalar (\<lambda>r. cr_scope r = execution_receipt_scope execution_id \<and> cr_idempotency_key r = idempotency_key) (db_receipts d)"

definition validate_receipt :: "command_receipt_orm \<Rightarrow> string \<Rightarrow> domain_error + uuid option" where
  "validate_receipt receipt fingerprint =
     (if cr_command_type receipt \<noteq> ''execution_artifact_materialize'' \<or> cr_request_fingerprint receipt \<noteq> fingerprint
      then Inl IdempotencyConflictError
      else if json_get ''materialization_status'' (cr_result receipt) = Some (JStr ''PENDING'') then Inr None
      else
        (case json_get ''artifact_id'' (cr_result receipt) of
           Some (JStr value) \<Rightarrow> (case uuid_parse value of None \<Rightarrow> Inl RuntimeValueError | Some i \<Rightarrow> Inr (Some i))
         | _ \<Rightarrow> Inl ArtifactRegistrationError))"

definition pending_receipt :: "datetime \<Rightarrow> uuid \<Rightarrow> materialize_command \<Rightarrow> string \<Rightarrow> command_receipt_orm" where
  "pending_receipt now receipt_id c fingerprint =
     \<lparr>cr_id = receipt_id, cr_scope = execution_receipt_scope (mz_execution_id c), cr_idempotency_key = mz_idempotency_key c,
      cr_command_type = ''execution_artifact_materialize'', cr_request_fingerprint = fingerprint,
      cr_result = JObj [(''materialization_status'', JStr ''PENDING'')], cr_created_at = now\<rparr>"

definition reserve :: "datetime \<Rightarrow> uuid \<Rightarrow> materialize_command \<Rightarrow> string \<Rightarrow> db \<Rightarrow> domain_error + db" where
  "reserve now receipt_id c fingerprint d =
     (case insert_command_receipt (pending_receipt now receipt_id c fingerprint) d of
        Some d' \<Rightarrow> Inr d'
      | None \<Rightarrow>
          (case receipt_of d (mz_execution_id c) (mz_idempotency_key c) of
             None \<Rightarrow> Inl IntegrityError
           | Some receipt \<Rightarrow> bind_res (validate_receipt receipt fingerprint) (\<lambda>_. Inr d)))"

text \<open>What a handler asks of the storage of the Runtime, in order.\<close>

datatype storage_request = Write_Text string string | Write_Notebook string json

text \<open>
  The Runtime's answers: to the write of a text, to the read of the notebook, and whether the notebook was written.
  \<open>an_new_cell\<close> builds a Markdown cell with the given text and key.
\<close>

record materialize_answers =
  an_write_text :: "string \<Rightarrow> string \<Rightarrow> runtime_file_metadata option"
  an_notebook :: "json option"
  an_written :: bool
  an_new_cell :: "string \<Rightarrow> string \<Rightarrow> json"

definition cell_key :: "json \<Rightarrow> json option" where
  "cell_key cell = Option.bind (json_get ''metadata'' cell) (\<lambda>m. Option.bind (json_get ''executor'' m) (json_get ''idempotency_key''))"

definition append_notebook_markdown ::
    "materialize_answers \<Rightarrow> execution_orm \<Rightarrow> string \<Rightarrow> string \<Rightarrow> storage_request list \<times> (domain_error + unit)" where
  "append_notebook_markdown answers e idempotency_key content =
     (case ex_notebook_path e of
        None \<Rightarrow> ([], Inl ArtifactRegistrationError)
      | Some notebook_path \<Rightarrow>
          (case an_notebook answers of
             Some (JObj kvs) \<Rightarrow>
               (case map_of kvs ''cells'' of
                  Some (JList cells) \<Rightarrow>
                    if list_ex (\<lambda>cell. cell_key cell = Some (JStr idempotency_key)) cells then ([], Inr ())
                    else
                      ([Write_Notebook notebook_path
                          (JObj (with_key ''cells'' (JList (cells @ [an_new_cell answers content idempotency_key])) kvs))],
                       if an_written answers then Inr () else Inl UnexpectedRuntimeError)
                | _ \<Rightarrow> ([], Inl UnexpectedRuntimeError))
           | _ \<Rightarrow> ([], Inl UnexpectedRuntimeError)))"

definition materialized_row ::
    "datetime \<Rightarrow> uuid \<Rightarrow> materialize_command \<Rightarrow> execution_orm \<Rightarrow> string \<Rightarrow> string \<Rightarrow> string \<Rightarrow> runtime_file_metadata \<Rightarrow> artifact_orm" where
  "materialized_row now new_id c e identity_hash name media_type f =
     \<lparr>ar_id = new_id, ar_execution_id = mz_execution_id c, ar_execution_attempt_id = None, ar_execution_step_id = None,
      ar_execution_step_attempt_id = None, ar_parent_artifact_id = None, ar_external_parent_asset_id = None,
      ar_artifact_type = mz_artifact_type c, ar_storage_type = ST_PV, ar_status = AR_AVAILABLE, ar_name = name,
      ar_description = mz_description c, ar_uri = artifact_uri (ex_runtime_type e) (fm_path f),
      ar_relative_path = Some (fm_path f), ar_media_type = Some media_type, ar_size_bytes = Some (fm_size_bytes f),
      ar_checksum_sha256 = Some (fm_checksum_sha256 f),
      ar_artifact_metadata = JObj (with_key ''source_type'' (JStr (code_source_type_value (mz_source_type c)))
        (with_key ''materialization'' (JStr ''agent-authored-text'') (mz_metadata c))),
      ar_identity_hash = identity_hash, ar_created_by_client = mz_actor_client c, ar_created_by = mz_actor_id c,
      ar_updated_by_client = mz_actor_client c, ar_updated_by = mz_actor_id c, ar_created_at = now, ar_updated_at = now\<rparr>"

definition completed_result :: "uuid \<Rightarrow> json" where
  "completed_result i = JObj [(''artifact_id'', JStr (uuid_str i)), (''materialization_status'', JStr ''COMPLETED'')]"

definition complete_receipt :: "command_receipt_orm \<Rightarrow> uuid \<Rightarrow> db \<Rightarrow> db" where
  "complete_receipt receipt i d =
     d\<lparr>db_receipts := update_where (\<lambda>r. cr_id r = cr_id receipt) (\<lambda>r. r\<lparr>cr_result := completed_result i\<rparr>) (db_receipts d)\<rparr>"

definition persist_materialized ::
    "datetime \<Rightarrow> materialize_command \<Rightarrow> string \<Rightarrow> uuid \<Rightarrow> string \<Rightarrow> string \<Rightarrow> string \<Rightarrow> runtime_file_metadata \<Rightarrow> db \<Rightarrow>
       domain_error + (db \<times> uuid)" where
  "persist_materialized now c fingerprint new_id identity_hash name media_type f d =
     (case receipt_of d (mz_execution_id c) (mz_idempotency_key c) of
        None \<Rightarrow> Inl ArtifactRegistrationError
      | Some receipt \<Rightarrow>
          bind_res (validate_receipt receipt fingerprint) (\<lambda>completed.
          case completed of
            Some i \<Rightarrow> Inr (d, i)
          | None \<Rightarrow>
              (case scalar (\<lambda>r. ar_identity_hash r = identity_hash) (db_artifacts d) of
                 Some artifact \<Rightarrow> Inr (complete_receipt receipt (ar_id artifact) d, ar_id artifact)
               | None \<Rightarrow>
                   (case execution_row d (mz_execution_id c) of
                      None \<Rightarrow> Inl ArtifactRegistrationError
                    | Some e \<Rightarrow>
                        (case insert_artifact (materialized_row now new_id c e identity_hash name media_type f) d of
                           None \<Rightarrow> Inl IntegrityError
                         | Some d' \<Rightarrow> Inr (complete_receipt receipt new_id d', new_id))))))"

text \<open>The transaction that holds the lock of the Execution, with what it asked of the storage meanwhile.\<close>

definition write_artifact ::
    "(string \<Rightarrow> string) \<Rightarrow> materialize_answers \<Rightarrow> datetime \<Rightarrow> materialize_command \<Rightarrow> string \<Rightarrow> string \<Rightarrow> string \<Rightarrow> string \<Rightarrow>
       execution_orm \<Rightarrow> db \<Rightarrow> storage_request list \<times> (domain_error + (db \<times> uuid))" where
  "write_artifact sha256 answers now c fingerprint content name workspace_path e d =
     (let destination = target_path workspace_path (mz_artifact_type c) name in
      case an_write_text answers destination content of
        None \<Rightarrow> ([Write_Text destination content], Inl UnexpectedRuntimeError)
      | Some f \<Rightarrow>
          (let (requests, appended) =
             (if mz_append_to_notebook c then append_notebook_markdown answers e (mz_idempotency_key c) content else ([], Inr ()))
           in (Write_Text destination content # requests,
               bind_res appended (\<lambda>_.
                 persist_materialized now c fingerprint (artifact_id sha256 fingerprint)
                   (materialized_identity_hash sha256 (mz_execution_id c) destination (fm_checksum_sha256 f)) name
                   (media_type_of c (fm_media_type f)) f d))))"

definition materialize_locked ::
    "(string \<Rightarrow> string) \<Rightarrow> materialize_answers \<Rightarrow> datetime \<Rightarrow> materialize_command \<Rightarrow> string \<Rightarrow> string \<Rightarrow> string \<Rightarrow> db \<Rightarrow>
       storage_request list \<times> (domain_error + (db \<times> uuid))" where
  "materialize_locked sha256 answers now c fingerprint content name d =
     (case execution_row d (mz_execution_id c) of
        None \<Rightarrow> ([], Inl ExecutionNotFoundError)
      | Some e \<Rightarrow>
          (case receipt_of d (mz_execution_id c) (mz_idempotency_key c) of
             None \<Rightarrow> ([], Inl ArtifactRegistrationError)
           | Some receipt \<Rightarrow>
               (case validate_receipt receipt fingerprint of
                  Inl err \<Rightarrow> ([], Inl err)
                | Inr (Some i) \<Rightarrow> ([], Inr (d, i))
                | Inr None \<Rightarrow>
                    if ex_status e \<noteq> ES_SUCCEEDED then ([], Inl InvalidStateTransitionError)
                    else
                      (case ex_workspace_path e of
                         None \<Rightarrow> ([], Inl ArtifactRegistrationError)
                       | Some workspace_path \<Rightarrow>
                           write_artifact sha256 answers now c fingerprint content name workspace_path e d))))"

text \<open>What \<open>materialize\<close> checks before it reserves the key; \<open>Inr (Inl i)\<close> is the answer to a repetition.\<close>

definition materialize_checks ::
    "(string \<Rightarrow> string) \<Rightarrow> path \<Rightarrow> (path \<Rightarrow> string option) \<Rightarrow> nat \<Rightarrow> materialize_command \<Rightarrow> db \<Rightarrow> db \<Rightarrow>
       domain_error + (uuid + string \<times> string)" where
  "materialize_checks sha256 input_root input_files max_bytes c d0 d1 =
     bind_res
       (case receipt_of d0 (mz_execution_id c) (mz_idempotency_key c) of
          None \<Rightarrow> Inr None
        | Some receipt \<Rightarrow> validate_receipt receipt (command_fingerprint sha256 c)) (\<lambda>existing.
     case existing of
       Some i \<Rightarrow> Inr (Inl i)
     | None \<Rightarrow>
         bind_res (resolve_content sha256 input_root input_files max_bytes c) (\<lambda>content.
         case execution_row d1 (mz_execution_id c) of
           None \<Rightarrow> Inl ExecutionNotFoundError
         | Some e \<Rightarrow>
             bind_res (raise_if (ex_status e \<noteq> ES_SUCCEEDED) InvalidStateTransitionError) (\<lambda>_.
             bind_res (raise_if (ex_workspace_path e = None) ArtifactRegistrationError) (\<lambda>_.
             bind_res (artifact_name c) (\<lambda>name. Inr (Inr (content, name)))))))"

text \<open>
  The whole handler. It reads the states \<open>d0\<close> and \<open>d1\<close>, commits the reservation to \<open>d2\<close>, and its last transaction
  finds what other transactions made of that (\<open>later\<close>). A failure after the reservation leaves it behind.
\<close>

definition materialize ::
    "(string \<Rightarrow> string) \<Rightarrow> path \<Rightarrow> (path \<Rightarrow> string option) \<Rightarrow> nat \<Rightarrow> materialize_answers \<Rightarrow> (db \<Rightarrow> db) \<Rightarrow> datetime \<Rightarrow> uuid \<Rightarrow>
       materialize_command \<Rightarrow> db \<Rightarrow> db \<Rightarrow> db \<Rightarrow> storage_request list \<times> db \<times> (domain_error + uuid)" where
  "materialize sha256 input_root input_files max_bytes answers later now receipt_id c d0 d1 d2 =
     (let fingerprint = command_fingerprint sha256 c in
      case materialize_checks sha256 input_root input_files max_bytes c d0 d1 of
        Inl err \<Rightarrow> ([], d2, Inl err)
      | Inr (Inl i) \<Rightarrow> ([], d2, Inr i)
      | Inr (Inr (content, name)) \<Rightarrow>
          (case reserve now receipt_id c fingerprint d2 of
             Inl err \<Rightarrow> ([], d2, Inl err)
           | Inr d3 \<Rightarrow>
               (case materialize_locked sha256 answers now c fingerprint content name (later d3) of
                  (requests, Inl err) \<Rightarrow> (requests, later d3, Inl err)
                | (requests, Inr (d4, i)) \<Rightarrow> (requests, d4, Inr i))))"

end
