(* ===== verification/Artifact_Properties.thy ===== *)
theory Artifact_Properties
  imports Artifacts
begin

text \<open>
  What the artifact code guarantees: every path stays in the workspace of its Execution and no two Executions share
  one, files are registered once per Step attempt, and a text artifact is materialized by one request only.
\<close>

subsection \<open>Paths\<close>

lemma split_slash_nonempty [simp]: "split_slash s \<noteq> []"
  by (induction s) (simp_all split: list.splits)

lemma split_slash_append: "split_slash (a @ CHR ''/'' # b) = split_slash a @ split_slash b"
  by (induction a) (auto split: list.splits)

lemma path_parts_append: "path_parts (a @ CHR ''/'' # b) = path_parts a @ path_parts b"
  by (simp add: path_parts_def split_slash_append)

definition plain_segment :: "string \<Rightarrow> bool" where
  "plain_segment s \<longleftrightarrow> s \<noteq> [] \<and> s \<noteq> ''.'' \<and> s \<noteq> ''..'' \<and> CHR ''/'' \<notin> set s"

lemma path_parts_plain: "ps \<noteq> [] \<Longrightarrow> \<forall>p\<in>set ps. plain_segment p \<Longrightarrow> path_parts (join ''/'' ps) = ps"
  by (simp add: path_parts_def split_join plain_segment_def filter_id_conv)

lemma safe_plain: "safe_segment s \<Longrightarrow> plain_segment s"
  using safe_segment_no_slash [of s] not_safe_dots by (auto simp: plain_segment_def safe_segment_def)

lemma plain_parts: "p \<in> set (path_parts s) \<Longrightarrow> p \<noteq> [] \<and> p \<noteq> ''.'' \<and> CHR ''/'' \<notin> set p"
proof -
  have "\<forall>p\<in>set (split_slash s). CHR ''/'' \<notin> set p" by (induction s) (auto split: list.splits)
  then show "p \<in> set (path_parts s) \<Longrightarrow> p \<noteq> [] \<and> p \<noteq> ''.'' \<and> CHR ''/'' \<notin> set p" by (auto simp: path_parts_def)
qed

lemma plan_segments_safe:
  "plan_segments e = Inr ps \<Longrightarrow> \<exists>t u p s. ps = [''tenants'', t, ''users'', u, ''projects'', p, ''sessions'', s, ''executions'', uuid_str (ex_id e)] \<and>
     safe_segment t \<and> safe_segment u \<and> safe_segment p \<and> safe_segment s"
  by (auto simp: plan_segments_def segment_def bind_res_eq_Inr split: if_split_asm)

lemma plan_parts:
  assumes "plan e = Inr w"
  obtains ps where "plan_segments e = Inr ps" and "path_parts (wk_runtime_relative_path w) = ps" and "\<forall>p\<in>set ps. plain_segment p"
    and "length ps = 10" and "last ps = uuid_str (ex_id e)" and "hd ps = ''tenants''"
proof -
  obtain ps where ps: "plan_segments e = Inr ps" and w: "wk_runtime_relative_path w = join ''/'' ps"
    using assms by (auto simp: plan_def bind_res_eq_Inr Let_def)
  obtain t u p s where eq: "ps = [''tenants'', t, ''users'', u, ''projects'', p, ''sessions'', s, ''executions'', uuid_str (ex_id e)]"
    and safe: "safe_segment t" "safe_segment u" "safe_segment p" "safe_segment s" using plan_segments_safe [OF ps] by blast
  have all: "\<forall>p\<in>set ps. plain_segment p" using safe by (auto simp: eq safe_plain safe_segment_uuid) (simp_all add: plain_segment_def)
  then have "path_parts (wk_runtime_relative_path w) = ps" unfolding w by (intro path_parts_plain) (simp_all add: eq)
  with ps all show thesis using that by (simp add: eq)
qed

lemma manifest_path_cases:
  assumes "manifest_runtime_path raw w = Inr p"
  shows "''..'' \<notin> set (path_parts p) \<or> ''..'' \<in> set (path_parts (wk_runtime_relative_path w))"
    and "posix_root raw = [] \<Longrightarrow> hd (path_parts raw) \<noteq> ''tenants'' \<Longrightarrow>
      strict_prefix (path_parts (wk_runtime_relative_path w)) (path_parts p)"
proof -
  have no_dots: "''..'' \<notin> set (path_parts raw)" using assms by (auto simp: manifest_runtime_path_def path_parts_def split: if_split_asm)
  have plain: "\<forall>q\<in>set (path_parts raw). plain_segment q" using no_dots plain_parts [of _ raw] by (auto simp: plain_segment_def)
  have parts: "path_parts p = path_parts (wk_runtime_relative_path w) @ path_parts raw \<and> path_parts raw \<noteq> []" if "p \<noteq> raw"
  proof -
    have raw: "path_parts raw \<noteq> []" and p: "p = wk_runtime_relative_path w @ CHR ''/'' # as_posix (path_parts raw)"
      using assms that by (auto simp: manifest_runtime_path_def split: if_split_asm)
    show ?thesis using raw path_parts_plain [OF raw plain] by (simp add: p path_parts_append as_posix_def)
  qed
  show "''..'' \<notin> set (path_parts p) \<or> ''..'' \<in> set (path_parts (wk_runtime_relative_path w))"
    using parts no_dots by (cases "p = raw") auto
  show "strict_prefix (path_parts (wk_runtime_relative_path w)) (path_parts p)"
    if "posix_root raw = []" "hd (path_parts raw) \<noteq> ''tenants''"
  proof -
    have "path_parts raw \<noteq> []" and p: "p = wk_runtime_relative_path w @ CHR ''/'' # as_posix (path_parts raw)"
      using assms that by (auto simp: manifest_runtime_path_def split: if_split_asm)
    then show ?thesis using path_parts_plain [OF _ plain] by (simp add: path_parts_append as_posix_def strict_prefix_def)
  qed
qed

lemma artifact_name_plain: "artifact_name c = Inr name \<Longrightarrow> plain_segment name"
proof -
  assume "artifact_name c = Inr name"
  then obtain n where n: "safe_segment n" and "name = n \<or> name = n @ ''.md''"
    by (auto simp: artifact_name_def Let_def split: if_split_asm)
  then show ?thesis using safe_plain [OF n] by (auto simp: plain_segment_def append_eq_Cons_conv)
qed

lemma posix_root_parts: "path_parts (posix_root raw @ s) = path_parts s"
proof -
  have "path_parts (CHR ''/'' # s) = path_parts s" for s by (simp add: path_parts_def)
  then show ?thesis by (simp add: posix_root_def Let_def)
qed

lemma target_path_parts:
  assumes "\<forall>p\<in>set (path_parts workspace). plain_segment p" and "plain_segment name"
  shows "path_parts (target_path workspace ty name) = path_parts workspace @
    (if ty = AT_REPORT then [''reports'', name] else [''artifacts'', artifact_directory ty, name])"
proof -
  have "plain_segment (artifact_directory ty)" by (cases ty) (simp_all add: plain_segment_def)
  moreover have "plain_segment ''reports''" "plain_segment ''artifacts''" by (simp_all add: plain_segment_def)
  ultimately show ?thesis
    unfolding target_path_def as_posix_def posix_root_parts using assms by (intro path_parts_plain) auto
qed


subsection \<open>Registration\<close>

text \<open>The identity of a file has a row, and \<open>i\<close> is the identifier of the row.\<close>

definition registered_as :: "(string \<Rightarrow> string) \<Rightarrow> execution_lease \<Rightarrow> uuid \<Rightarrow> db \<Rightarrow> artifact_descriptor \<Rightarrow> uuid \<Rightarrow> bool" where
  "registered_as sha lease sa d x i \<longleftrightarrow>
     map_option ar_id (scalar (\<lambda>r. ar_identity_hash r = artifact_identity_hash sha (le_execution_id lease) (le_attempt_id lease) sa x)
       (db_artifacts d)) = Some i"

lemma registered_later: "registered_as sha lease sa d x i \<Longrightarrow> registered_as sha lease sa (d\<lparr>db_artifacts := db_artifacts d @ rows\<rparr>) x i"
  by (auto simp: registered_as_def scalar_append)

lemma persist_one_Inr:
  assumes "persist_one sha now lease step sa (d, ids) (n, x) = Inr (d', ids')"
  shows "\<exists>rows i. d' = d\<lparr>db_artifacts := db_artifacts d @ rows\<rparr> \<and> ids' = ids @ [i] \<and> registered_as sha lease sa d' x i"
proof (cases "scalar (\<lambda>r. ar_identity_hash r = artifact_identity_hash sha (le_execution_id lease) (le_attempt_id lease) sa x) (db_artifacts d)")
  case None
  let ?r = "artifact_row n now lease step sa x (artifact_identity_hash sha (le_execution_id lease) (le_attempt_id lease) sa x)"
  have "insert_artifact ?r d = Some d'" and ids: "ids' = ids @ [n]"
    using assms None by (auto simp: persist_one_def Let_def split: option.splits)
  then have d': "d' = d\<lparr>db_artifacts := db_artifacts d @ [?r]\<rparr>" by (simp add: insert_artifact_def split: if_split_asm)
  have "registered_as sha lease sa d' x n" by (simp add: registered_as_def d' scalar_append None artifact_row_def)
  with d' ids show ?thesis by blast
next
  case (Some row)
  then have "d' = d" "ids' = ids @ [ar_id row]" using assms by (auto simp: persist_one_def Let_def)
  then show ?thesis using Some by (intro exI [of _ "[]"] exI [of _ "ar_id row"]) (simp add: registered_as_def)
qed

lemma persist_one_again:
  "registered_as sha lease sa d x i \<Longrightarrow> persist_one sha now lease step sa (d, ids) (n, x) = Inr (d, ids @ [i])"
  by (auto simp: persist_one_def registered_as_def Let_def)

lemma persist_all:
  assumes "foldM_res (persist_one sha now lease step sa) (d, ids) xs = Inr (d', ids')"
  shows "\<exists>rows new. d' = d\<lparr>db_artifacts := db_artifacts d @ rows\<rparr> \<and> ids' = ids @ new \<and>
    list_all2 (\<lambda>nx i. registered_as sha lease sa d' (snd nx) i) xs new"
  using assms
proof (induction xs arbitrary: d ids)
  case Nil
  then show ?case by (intro exI [of _ "[]"]) simp
next
  case (Cons nx xs)
  obtain n x where nx: "nx = (n, x)" by (cases nx)
  obtain d1 ids1 where one: "persist_one sha now lease step sa (d, ids) (n, x) = Inr (d1, ids1)"
    and rest: "foldM_res (persist_one sha now lease step sa) (d1, ids1) xs = Inr (d', ids')"
    using Cons.prems by (auto simp: nx bind_res_eq_Inr)
  obtain rows1 i where r1: "d1 = d\<lparr>db_artifacts := db_artifacts d @ rows1\<rparr>" "ids1 = ids @ [i]" "registered_as sha lease sa d1 x i"
    using persist_one_Inr [OF one] by blast
  obtain rows new where r: "d' = d1\<lparr>db_artifacts := db_artifacts d1 @ rows\<rparr>" "ids' = ids1 @ new"
    "list_all2 (\<lambda>nx i. registered_as sha lease sa d' (snd nx) i) xs new" using Cons.IH [OF rest] by blast
  have "registered_as sha lease sa d' x i" unfolding r(1) by (rule registered_later [OF r1(3)])
  then show ?case using r r1(1,2)
    by (intro exI [of _ "rows1 @ rows"] exI [of _ "i # new"]) (simp add: nx)
qed

lemma persist_all_again:
  assumes "list_all2 (\<lambda>nx i. registered_as sha lease sa d (snd nx) i) xs new" and "map snd ys = map snd xs"
  shows "foldM_res (persist_one sha now lease step sa) (d, ids) ys = Inr (d, ids @ new)"
  using assms
proof (induction xs new arbitrary: ys ids rule: list_all2_induct)
  case Nil
  then show ?case by simp
next
  case (Cons nx xs i new)
  then obtain m ys' where ys: "ys = (m, snd nx) # ys'" "map snd ys' = map snd xs" by (cases ys) auto
  show ?case using Cons.IH [OF ys(2)] persist_one_again [OF Cons.hyps(1)] by (simp add: ys)
qed

lemma persist_count:
  assumes "foldM_res (persist_one sha now lease step sa) s xs = Inr s'"
  shows "length (db_artifacts (fst s')) \<le> length (db_artifacts (fst s)) + length xs"
  using assms
proof (induction xs arbitrary: s)
  case (Cons x xs)
  obtain s1 where one: "persist_one sha now lease step sa s x = Inr s1"
    and rest: "foldM_res (persist_one sha now lease step sa) s1 xs = Inr s'" using Cons.prems by (auto simp: bind_res_eq_Inr)
  have "length (db_artifacts (fst s1)) \<le> Suc (length (db_artifacts (fst s)))"
    using one by (cases s; cases x) (auto simp: persist_one_def insert_artifact_def Let_def split: option.splits if_split_asm)
  then show ?case using Cons.IH [OF rest] by simp
qed simp

text \<open>
  Registering the files of a Step only adds rows, one at most for each file, and names a
  row for every file. A worker that repeats the registration, because it did not see the answer, gets the same
  rows and adds none, whatever identifiers it draws.
\<close>

lemma artifacts_registered_once:
  assumes "persist sha now fresh xs lease sequence allow d = Inr (d', ids)"
    and "require_active_lease now' lease (if allow then [ES_RUNNING, ES_CANCEL_REQUESTED] else [ES_RUNNING]) d = Inr (e, a)"
  shows "persist sha now' fresh' xs lease sequence allow d' = Inr (d', ids) \<and> length ids = length xs \<and>
    (\<exists>rows. d' = d\<lparr>db_artifacts := db_artifacts d @ rows\<rparr> \<and> length rows \<le> length xs)"
proof (cases "xs = []")
  case True
  then show ?thesis using assms(1) by (auto simp: persist_def intro: exI [of _ "[]"])
next
  case False
  let ?xs = "\<lambda>f. map (\<lambda>(n, x). (f n, x)) (enumerate 0 xs)"
  obtain step sa where step: "scalar (\<lambda>s. st_execution_id s = le_execution_id lease \<and> st_sequence s = sequence) (db_steps d) = Some step"
    and sa: "scalar (\<lambda>s. sa_execution_attempt_id s = le_attempt_id lease \<and> sa_sequence s = sequence) (db_step_attempts d) = Some sa"
    and all: "foldM_res (persist_one sha now lease step (sa_id sa)) (d, []) (?xs fresh) = Inr (d', ids)"
    using assms(1) False by (auto simp: persist_def bind_res_eq_Inr split: option.splits)
  obtain rows where d': "d' = d\<lparr>db_artifacts := db_artifacts d @ rows\<rparr>"
    and reg: "list_all2 (\<lambda>nx i. registered_as sha lease (sa_id sa) d' (snd nx) i) (?xs fresh) ids"
    using persist_all [OF all] by auto
  have "map snd (?xs fresh') = map snd (?xs fresh)" by (simp add: case_prod_unfold comp_def)
  from persist_all_again [OF reg this, of now' step "[]"]
  have again: "foldM_res (persist_one sha now' lease step (sa_id sa)) (d', []) (?xs fresh') = Inr (d', ids)" by simp
  have "require_active_lease now' lease l d' = require_active_lease now' lease l d" for l
    by (simp add: require_active_lease_def d' cong: option.case_cong)
  then have "persist sha now' fresh' xs lease sequence allow d' = Inr (d', ids)"
    using again step sa assms(2) False by (simp add: persist_def leased_def d')
  moreover have "length ids = length xs" using list_all2_lengthD [OF reg] by simp
  moreover have "length rows \<le> length xs"
    using persist_count [OF all] by (simp add: d')
  ultimately show ?thesis using d' by blast
qed

subsection \<open>Materialization\<close>

lemma hex_value_less: "hex_value c = Some x \<Longrightarrow> x < 16"
  by (auto simp: hex_value_def Let_def split: if_split_asm)

lemma hex_fold_bound: "hex_fold acc s = Some v \<Longrightarrow> v < (acc + 1) * 16 ^ length s"
proof (induction s arbitrary: acc)
  case (Cons c s)
  obtain x where x: "hex_value c = Some x" and v: "hex_fold (16 * acc + x) s = Some v"
    using Cons.prems by (auto split: option.splits)
  have "x < 16" using x by (rule hex_value_less)
  then have "16 * acc + x + 1 \<le> (acc + 1) * 16" by simp
  then have le: "(16 * acc + x + 1) * 16 ^ length s \<le> (acc + 1) * 16 * 16 ^ length s" by (rule mult_le_mono1)
  have "v < (16 * acc + x + 1) * 16 ^ length s" by (rule Cons.IH [OF v])
  also note le
  also have "(acc + 1) * 16 * 16 ^ length s = (acc + 1) * 16 ^ length (c # s)" by (simp only: length_Cons power_Suc mult.assoc)
  finally show ?case .
qed simp

lemma artifact_id_bound: "artifact_id sha fp < 2 ^ 128"
proof -
  have "v < 2 ^ 128" if "hex_fold 0 (take 32 s) = Some v" for s v
  proof -
    have "v < 16 ^ length (take 32 s)" using hex_fold_bound [OF that] by simp
    also have "(16 :: nat) ^ length (take 32 s) \<le> 16 ^ 32" by (rule power_increasing) simp_all
    finally show ?thesis by simp
  qed
  then show ?thesis by (cases "hex_fold 0 (take 32 (sha (utf8_encode fp)))") (auto simp: artifact_id_def)
qed

text \<open>The key of a command is taken by a completed materialization that answered \<open>i\<close>.\<close>

definition completed_as :: "(string \<Rightarrow> string) \<Rightarrow> materialize_command \<Rightarrow> command_receipt_orm option \<Rightarrow> uuid \<Rightarrow> bool" where
  "completed_as sha c r i \<longleftrightarrow> (\<exists>receipt. r = Some receipt \<and> validate_receipt receipt (command_fingerprint sha c) = Inr (Some i))"

lemma scalar_update_where:
  "(\<And>r. P (f r) = P r) \<Longrightarrow> scalar P (update_where Q f t) = map_option (\<lambda>r. if Q r then f r else r) (scalar P t)"
  by (induction t) auto

lemma complete_receipt_of:
  "receipt_of d i k = Some receipt \<Longrightarrow>
     receipt_of (complete_receipt receipt a d) i k = Some (receipt\<lparr>cr_result := completed_result a\<rparr>)"
  by (simp add: receipt_of_def complete_receipt_def scalar_update_where)

lemma validate_completed:
  "validate_receipt r fp = Inr None \<Longrightarrow> i < 2 ^ 128 \<Longrightarrow> validate_receipt (r\<lparr>cr_result := completed_result i\<rparr>) fp = Inr (Some i)"
  by (auto simp: validate_receipt_def completed_result_def uuid_parse_str split: if_split_asm)

lemma persist_materialized_completes:
  assumes "persist_materialized now c (command_fingerprint sha c) (artifact_id sha fp) h name mt f d = Inr (d', i)"
    and "\<forall>r\<in>set (db_artifacts d'). ar_id r < 2 ^ 128"
  shows "completed_as sha c (receipt_of d' (mz_execution_id c) (mz_idempotency_key c)) i"
proof -
  let ?fp = "command_fingerprint sha c"
  obtain receipt where r: "receipt_of d (mz_execution_id c) (mz_idempotency_key c) = Some receipt"
    and v: "bind_res (validate_receipt receipt ?fp) (\<lambda>completed. case completed of Some i \<Rightarrow> Inr (d, i) | None \<Rightarrow>
      (case scalar (\<lambda>r. ar_identity_hash r = h) (db_artifacts d) of
         Some artifact \<Rightarrow> Inr (complete_receipt receipt (ar_id artifact) d, ar_id artifact)
       | None \<Rightarrow> (case execution_row d (mz_execution_id c) of None \<Rightarrow> Inl ArtifactRegistrationError
          | Some e \<Rightarrow> (case insert_artifact (materialized_row now (artifact_id sha fp) c e h name mt f) d of
              None \<Rightarrow> Inl IntegrityError | Some d' \<Rightarrow> Inr (complete_receipt receipt (artifact_id sha fp) d', artifact_id sha fp))))) = Inr (d', i)"
    using assms(1) by (auto simp: persist_materialized_def split: option.splits)
  consider "validate_receipt receipt ?fp = Inr (Some i)" "d' = d"
    | d1 where "validate_receipt receipt ?fp = Inr None" "d' = complete_receipt receipt i d1" "db_receipts d1 = db_receipts d"
        "i = artifact_id sha fp \<or> (\<exists>r\<in>set (db_artifacts d1). ar_id r = i)"
    using v scalar_SomeD by (fastforce simp: bind_res_eq_Inr insert_artifact_def split: option.splits if_split_asm)
  then show ?thesis
  proof cases
    case 1
    then show ?thesis using r by (auto simp: completed_as_def)
  next
    case (2 d1)
    then have "i < 2 ^ 128" using assms(2) artifact_id_bound [of sha fp] by (auto simp: complete_receipt_def)
    moreover have "receipt_of d1 (mz_execution_id c) (mz_idempotency_key c) = Some receipt" using r 2(3) by (simp add: receipt_of_def)
    ultimately show ?thesis
      using validate_completed [OF 2(1)] complete_receipt_of 2(2) by (auto simp: completed_as_def)
  qed
qed

lemma write_artifact_completes:
  assumes "write_artifact sha ans now c (command_fingerprint sha c) content name wp e d = (reqs, Inr (d', i))"
    and "\<forall>r\<in>set (db_artifacts d'). ar_id r < 2 ^ 128"
  shows "completed_as sha c (receipt_of d' (mz_execution_id c) (mz_idempotency_key c)) i"
  using assms(1)
  by (auto simp: write_artifact_def Let_def bind_res_eq_Inr case_prod_unfold split: option.splits
      intro!: persist_materialized_completes [OF _ assms(2)])

lemma materialize_locked_completes:
  assumes "materialize_locked sha ans now c (command_fingerprint sha c) content name d = (reqs, Inr (d', i))"
    and "\<forall>r\<in>set (db_artifacts d'). ar_id r < 2 ^ 128"
  shows "completed_as sha c (receipt_of d' (mz_execution_id c) (mz_idempotency_key c)) i"
  using assms(1) write_artifact_completes [OF _ assms(2)]
  by (auto simp: materialize_locked_def completed_as_def split: option.splits sum.splits if_split_asm)

lemma materialize_completes:
  assumes "materialize sha r fs mx ans later now rid c d d1 d = (ops, d', Inr i)"
    and "\<forall>r\<in>set (db_artifacts d'). ar_id r < 2 ^ 128"
  shows "completed_as sha c (receipt_of d' (mz_execution_id c) (mz_idempotency_key c)) i"
proof -
  consider "materialize_checks sha r fs mx c d d1 = Inr (Inl i)" "d' = d"
    | content name d3 where "materialize_locked sha ans now c (command_fingerprint sha c) content name (later d3) = (ops, Inr (d', i))"
    using assms(1) by (auto simp: materialize_def Let_def split: sum.splits prod.splits)
  then show ?thesis
  proof cases
    case 1
    then show ?thesis
      by (auto simp: materialize_checks_def completed_as_def bind_res_eq_Inr split: option.split_asm)
  next
    case 2
    then show ?thesis by (rule materialize_locked_completes [OF _ assms(2)])
  qed
qed

lemma materialize_replay:
  "completed_as sha c (receipt_of d0 (mz_execution_id c) (mz_idempotency_key c)) i \<Longrightarrow>
     materialize sha r fs mx ans later now rid c d0 d1 d2 = ([], d2, Inr i)"
  by (auto simp: completed_as_def materialize_def materialize_checks_def Let_def)

lemma materialize_conflict:
  assumes "receipt_of d2 (mz_execution_id c) (mz_idempotency_key c) = Some receipt"
    and "cr_request_fingerprint receipt \<noteq> command_fingerprint sha c"
  shows "\<exists>out. materialize sha r fs mx ans later now rid c d0 d1 d2 = ([], d2, out)"
proof -
  have "receipt \<in> set (db_receipts d2)" "cr_scope receipt = execution_receipt_scope (mz_execution_id c)"
    "cr_idempotency_key receipt = mz_idempotency_key c"
    using assms(1) by (auto simp: receipt_of_def dest: scalar_SomeD)
  then have "insert_command_receipt (pending_receipt now rid c (command_fingerprint sha c)) d2 = None"
    by (auto simp: insert_command_receipt_def list_all_iff pending_receipt_def)
  then have "reserve now rid c (command_fingerprint sha c) d2 = Inl IdempotencyConflictError"
    using assms by (simp add: reserve_def validate_receipt_def)
  then show ?thesis by (auto simp: materialize_def Let_def split: sum.splits prod.splits)
qed

text \<open>
  C35: once a request has materialized a text artifact, its key is spent, whatever other
  transactions ran between its reservation and its write. The same command sent again gets the same artifact, and
  a different command under that key, even one that looked before the key was taken, asks nothing of the
  storage and changes nothing.
\<close>

theorem materialize_once:
  assumes "materialize sha r fs mx ans later now rid c d d d = (ops, d', Inr i)"
    and "\<forall>r\<in>set (db_artifacts d'). ar_id r < 2 ^ 128"
    and "receipt_of d2 (mz_execution_id c) (mz_idempotency_key c) = receipt_of d' (mz_execution_id c) (mz_idempotency_key c)"
  shows "materialize sha r' fs' mx' ans' later' now' rid' c d2 d2 d2 = ([], d2, Inr i) \<and>
    (\<forall>c' d0 d1. mz_execution_id c' = mz_execution_id c \<and> mz_idempotency_key c' = mz_idempotency_key c \<and>
       command_fingerprint sha c' \<noteq> command_fingerprint sha c \<longrightarrow>
       (\<exists>out. materialize sha r' fs' mx' ans' later' now' rid' c' d0 d1 d2 = ([], d2, out)))"
proof -
  have spent: "completed_as sha c (receipt_of d2 (mz_execution_id c) (mz_idempotency_key c)) i"
    unfolding assms(3) by (rule materialize_completes [OF assms(1,2)])
  then obtain receipt where "receipt_of d2 (mz_execution_id c) (mz_idempotency_key c) = Some receipt"
    and "cr_request_fingerprint receipt = command_fingerprint sha c"
    by (auto simp: completed_as_def validate_receipt_def split: if_split_asm)
  then show ?thesis using materialize_replay [OF spent] materialize_conflict by metis
qed

subsection \<open>Witnesses\<close>

definition demo_report :: materialize_command where
  "demo_report = \<lparr>mz_execution_id = 10, mz_idempotency_key = ''r'', mz_artifact_type = AT_REPORT, mz_source_type = CS_INLINE,
     mz_source_content = Some ''done'', mz_source_path = None, mz_source_sha256 = None, mz_name = None, mz_description = None,
     mz_media_type = None, mz_append_to_notebook = False, mz_metadata = [], mz_actor_client = None, mz_actor_id = None\<rparr>"

definition demo_storage :: materialize_answers where
  "demo_storage = \<lparr>an_write_text = (\<lambda>p c. Some \<lparr>fm_path = p, fm_name = ''final-report.md'', fm_size_bytes = 4, fm_modified_ns = 1,
     fm_media_type = None, fm_checksum_sha256 = ''c''\<rparr>), an_notebook = None, an_written = False, an_new_cell = (\<lambda>_ _. JNull)\<rparr>"

definition demo_succeeded :: db where
  "demo_succeeded = set_execution 10 (\<lambda>e. e\<lparr>ex_status := ES_SUCCEEDED, ex_workspace_path := Some ''tenants/acme''\<rparr>) (demo_running OM_SINGLE)"

definition demo_materialized :: "storage_request list \<times> db \<times> (domain_error + uuid)" where
  "demo_materialized = materialize (\<lambda>_. ''ab'') [] (\<lambda>_. None) 100 demo_storage (\<lambda>d. d) 9 82 demo_report demo_succeeded demo_succeeded demo_succeeded"

lemma demo_materialized_eval:
  "snd (snd demo_materialized) = Inr 171" "map ar_id (db_artifacts (fst (snd demo_materialized))) = [171]"
  "fst demo_materialized = [Write_Text ''tenants/acme/reports/final-report.md'' ''done'']"
  by code_simp+

theorem materialize_once_witness:
  "let d = fst (snd demo_materialized) in
     materialize (\<lambda>_. ''ab'') [] (\<lambda>_. None) 100 demo_storage (\<lambda>d. d) 10 83 demo_report d d d = ([], d, Inr 171)"
proof -
  have run: "materialize (\<lambda>_. ''ab'') [] (\<lambda>_. None) 100 demo_storage (\<lambda>d. d) 9 82 demo_report demo_succeeded demo_succeeded demo_succeeded =
      (fst demo_materialized, fst (snd demo_materialized), Inr 171)"
    using demo_materialized_eval(1) by (metis demo_materialized_def prod.collapse)
  have "\<forall>r\<in>set (db_artifacts (fst (snd demo_materialized))). ar_id r = 171"
    using demo_materialized_eval(2) by (metis (no_types) empty_iff imageI insertE list.set(1) list.set(2) list.set_map)
  then have "\<forall>r\<in>set (db_artifacts (fst (snd demo_materialized))). ar_id r < 2 ^ 128" by simp
  from materialize_once [OF run this refl] show ?thesis by (simp add: Let_def)
qed

lemma demo_plan: "\<not> isl (plan (demo_execution OM_SINGLE))"
  by code_simp


definition demo_plot :: artifact_descriptor where
  "demo_plot = runtime_file_descriptor \<lparr>fm_path = ''plots/a.png'', fm_name = ''a.png'', fm_size_bytes = 4, fm_modified_ns = 1,
     fm_media_type = None, fm_checksum_sha256 = ''c''\<rparr> AT_PLOT AR_AVAILABLE RT_JUPYTER None None None [] None None"

definition demo_registered :: "artifact_error + (db \<times> uuid list)" where
  "demo_registered = persist (\<lambda>s. s) 9 (\<lambda>n. 90 + n) [demo_plot] demo_lease 0 False demo_started"

lemma demo_registered_ok: "\<not> isl demo_registered" by code_simp

lemma artifacts_registered_once_witness:
  "\<exists>d' ids. demo_registered = Inr (d', ids) \<and> length ids = 1 \<and> persist (\<lambda>s. s) 9 (\<lambda>n. 95 + n) [demo_plot] demo_lease 0 False d' = Inr (d', ids)"
proof -
  obtain d' ids where r: "demo_registered = Inr (d', ids)" using demo_registered_ok by (metis prod.collapse sum.collapse(2))
  have "owns_execution 9 demo_lease demo_started" by code_simp
  then obtain e a where "require_active_lease 9 demo_lease [ES_RUNNING] demo_started = Inr (e, a)"
    by (auto simp: owns_execution_def split: sum.splits)
  from artifacts_registered_once [OF r [unfolded demo_registered_def], of 9 e a "\<lambda>n. 95 + n"] this
  have "persist (\<lambda>s. s) 9 (\<lambda>n. 95 + n) [demo_plot] demo_lease 0 False d' = Inr (d', ids) \<and> length ids = 1" by simp
  with r show ?thesis by blast
qed

end
