(* ===== verification/Caller_Auth.thy ===== *)
theory Caller_Auth
  imports Execution_Queries
begin

text \<open>
  Who a request acts for: the clients of \<open>settings.py\<close> and the authentication of
  \<open>interfaces/auth.py\<close> with the rule that \<open>interfaces/http/executions/common.py\<close> applies to the
  Execution or the Artifact in the path.

  Headers are a function from names to values, as \<open>starlette\<close> answers \<open>headers.get\<close>. The digest is an
  argument. The lemmas show that a Caller comes from exactly one configured client, acts only for a tenant
  that client is configured for, and that its identifiers are safe path segments.
\<close>

subsection \<open>Configured clients\<close>

record auth_client =
  ac_name :: string
  ac_key_sha256 :: "string list"
  ac_tenant :: "string option"
  ac_relay :: bool
  ac_allowed_tenants :: "string list"
  ac_admin :: bool

definition ANY_TENANT :: string where
  "ANY_TENANT = ''*''"

text \<open>The field patterns of \<open>AuthClient\<close>.\<close>

definition key_sha256_ok :: "string \<Rightarrow> bool" where
  "key_sha256_ok k \<longleftrightarrow>
     length k = 64 \<and> list_all (\<lambda>c. is_digit c \<or> (CHR ''a'' \<le> c \<and> c \<le> CHR ''f'')) k"

definition client_fields_ok :: "auth_client \<Rightarrow> bool" where
  "client_fields_ok c \<longleftrightarrow>
     ac_name c \<noteq> [] \<and> length (ac_name c) \<le> 64 \<and>
     ac_key_sha256 c \<noteq> [] \<and> list_all key_sha256_ok (ac_key_sha256 c) \<and>
     (case ac_tenant c of None \<Rightarrow> True | Some t \<Rightarrow> is_valid_tenant_id t) \<and>
     list_all (\<lambda>t. is_valid_tenant_id t \<or> t = ANY_TENANT) (ac_allowed_tenants c)"

definition validate_tenants :: "auth_client \<Rightarrow> bool" where
  "validate_tenants c \<longleftrightarrow>
     \<not> list_ex (\<lambda>t. ac_tenant c = Some t \<or> t \<in> set (ac_allowed_tenants c)) RESERVED_TENANT_IDS \<and>
     (ac_allowed_tenants c \<noteq> [] \<longrightarrow> ac_relay c) \<and>
     \<not> (ANY_TENANT \<in> set (ac_allowed_tenants c) \<and> 1 < length (ac_allowed_tenants c))"

definition allows_tenant :: "auth_client \<Rightarrow> string \<Rightarrow> bool" where
  "allows_tenant c tenant_id \<longleftrightarrow>
     ac_relay c \<and> (ANY_TENANT \<in> set (ac_allowed_tenants c) \<or> tenant_id \<in> set (ac_allowed_tenants c))"

text \<open>The checks of \<open>Settings\<close> on the whole list.\<close>

definition auth_clients_ok :: "auth_client list \<Rightarrow> bool" where
  "auth_clients_ok clients \<longleftrightarrow>
     list_all (\<lambda>c. client_fields_ok c \<and> validate_tenants c) clients \<and>
     distinct (map ac_name clients) \<and> distinct (concat (map ac_key_sha256 clients))"

subsection \<open>The caller of a request\<close>

record caller =
  ca_client :: string
  ca_admin :: bool
  ca_tenant_id :: "string option"
  ca_user_id :: "string option"
  ca_project_id :: "string option"
  ca_session_id :: "string option"

record http_scope =
  sp_type :: string
  sp_path :: string
  sp_method :: string
  sp_headers :: "string \<Rightarrow> string option"

definition PUBLIC_PATHS :: "string list" where
  "PUBLIC_PATHS = [''/healthz'', ''/readyz'', ''/docs'', ''/docs/oauth2-redirect'', ''/redoc'', ''/openapi'']"

definition ADMIN_PATH_PREFIXES :: "string list" where
  "ADMIN_PATH_PREFIXES = [''/workerz'', ''/api/v1/runtime-pools'', ''/api/v1/runtime-targets'', ''/api/v1/maintenance'']"

definition READ_METHODS :: "string list" where
  "READ_METHODS = [''GET'', ''HEAD'']"

text \<open>\<open>fullmatch\<close> of \<^verbatim>\<open>^[a-z0-9][a-z0-9._-]{0,63}$\<close> and \<^verbatim>\<open>^[A-Za-z0-9][A-Za-z0-9._-]{0,254}$\<close>.\<close>

definition USER_ID :: "string \<Rightarrow> bool" where
  "USER_ID v \<longleftrightarrow>
     v \<noteq> [] \<and> length v \<le> 64 \<and> (is_lower (hd v) \<or> is_digit (hd v)) \<and>
     list_all (\<lambda>c. is_lower c \<or> is_digit c \<or> c \<in> set ''._-'') (tl v)"

definition SCOPE_ID :: "string \<Rightarrow> bool" where
  "SCOPE_ID v \<longleftrightarrow>
     v \<noteq> [] \<and> length v \<le> 255 \<and> is_alnum (hd v) \<and> list_all (\<lambda>c. is_alnum c \<or> c \<in> set ''._-'') (tl v)"

definition require_admin :: "caller \<Rightarrow> domain_error + unit" where
  "require_admin caller = (if ca_admin caller then Inr () else Inl ForbiddenError)"

definition require_tenant :: "caller \<Rightarrow> domain_error + string" where
  "require_tenant caller = (case ca_tenant_id caller of None \<Rightarrow> Inl InvalidIdentityError | Some t \<Rightarrow> Inr t)"

definition require_user :: "caller \<Rightarrow> domain_error + string" where
  "require_user caller = (case ca_user_id caller of None \<Rightarrow> Inl InvalidIdentityError | Some u \<Rightarrow> Inr u)"

definition scope_id :: "(string \<Rightarrow> string option) \<Rightarrow> string \<Rightarrow> domain_error + string option" where
  "scope_id headers name =
     (case headers name of
        None \<Rightarrow> Inr None
      | Some v \<Rightarrow> if \<not> SCOPE_ID v \<or> v = ''unscoped'' then Inl InvalidIdentityError else Inr (Some v))"

text \<open>\<open>_client\<close> compares every hash; the last match is the one it keeps.\<close>

definition client_of_key :: "(string \<Rightarrow> string) \<Rightarrow> auth_client list \<Rightarrow> string \<Rightarrow> auth_client option" where
  "client_of_key sha256 clients key =
     (let digest = sha256 (utf8_encode key) in
      foldl (\<lambda>matched client.
        foldl (\<lambda>m expected. if digest = expected then Some client else m) matched (ac_key_sha256 client)) None clients)"

definition requested_tenant :: "auth_client \<Rightarrow> string option \<Rightarrow> domain_error + string option" where
  "requested_tenant client requested =
     (case requested of
        None \<Rightarrow> Inr (ac_tenant client)
      | Some t \<Rightarrow>
          if \<not> is_valid_tenant_id t \<or> t \<in> set RESERVED_TENANT_IDS then Inl InvalidIdentityError
          else if allows_tenant client t then Inr (Some t)
          else Inl ForbiddenError)"

definition acting_user :: "string option \<Rightarrow> domain_error + string option" where
  "acting_user header =
     (case header of
        None \<Rightarrow> Inr None
      | Some v \<Rightarrow> if USER_ID (lower v) then Inr (Some (lower v)) else Inl InvalidIdentityError)"

definition caller_of :: "(string \<Rightarrow> string) \<Rightarrow> auth_client list \<Rightarrow> (string \<Rightarrow> string option) \<Rightarrow> domain_error + caller" where
  "caller_of sha256 clients headers =
     (case Option.bind (headers ''X-Api-Key'') (client_of_key sha256 clients) of
        None \<Rightarrow> Inl UnauthenticatedError
      | Some client \<Rightarrow>
          bind_res (requested_tenant client (headers ''X-Tenant-Id'')) (\<lambda>tenant_id.
          bind_res (acting_user (headers ''X-User-Id'')) (\<lambda>user_id.
          bind_res (scope_id headers ''X-Project-Id'') (\<lambda>project_id.
          bind_res (scope_id headers ''X-Session-Id'') (\<lambda>session_id.
          if session_id \<noteq> None \<and> project_id = None then Inl InvalidIdentityError
          else Inr \<lparr>ca_client = ac_name client, ca_admin = ac_admin client, ca_tenant_id = tenant_id,
                    ca_user_id = user_id, ca_project_id = project_id, ca_session_id = session_id\<rparr>)))))"

text \<open>
  The middleware: what it does before it hands the request to the application. \<open>None\<close> is a request that
  needs no key, for which no Caller is set.
\<close>

definition authenticate ::
    "(string \<Rightarrow> string) \<Rightarrow> auth_client list \<Rightarrow> http_scope \<Rightarrow> domain_error + caller option" where
  "authenticate sha256 clients scope =
     (if sp_type scope \<noteq> ''http'' \<or> sp_path scope \<in> set PUBLIC_PATHS then Inr None
      else
        bind_res (caller_of sha256 clients (sp_headers scope)) (\<lambda>caller.
        bind_res (if list_ex (\<lambda>p. prefix p (sp_path scope)) ADMIN_PATH_PREFIXES then require_admin caller else Inr ())
          (\<lambda>_. Inr (Some caller))))"

definition middleware ::
    "(string \<Rightarrow> string) \<Rightarrow> auth_client list \<Rightarrow> (domain_error \<Rightarrow> 'a) \<Rightarrow> (caller option \<Rightarrow> 'a) \<Rightarrow> http_scope \<Rightarrow> 'a" where
  "middleware sha256 clients rejected app scope =
     (case authenticate sha256 clients scope of Inl e \<Rightarrow> rejected e | Inr caller \<Rightarrow> app caller)"

text \<open>\<open>current_caller\<close> raises \<open>LookupError\<close> where no Caller was set.\<close>

definition current_caller :: "caller option \<Rightarrow> domain_error + caller" where
  "current_caller caller = (case caller of None \<Rightarrow> Inl UnexpectedRuntimeError | Some c \<Rightarrow> Inr c)"

subsection \<open>The rule for Executions and Artifacts\<close>

definition authorize_execution :: "db \<Rightarrow> caller \<Rightarrow> uuid \<Rightarrow> bool \<Rightarrow> domain_error + unit" where
  "authorize_execution d caller execution_id writing =
     bind_res (require_tenant caller) (\<lambda>tenant_id.
     bind_res (if writing then map_sum id Some (require_user caller) else Inr (ca_user_id caller)) (\<lambda>user_id.
     bind_res (execution_query d execution_id) (\<lambda>execution.
     if xv_tenant_id execution \<noteq> tenant_id \<or> (user_id \<noteq> None \<and> user_id \<noteq> Some (xv_user_id execution))
     then Inl ExecutionNotFoundError
     else Inr ())))"

record path_params =
  pp_execution_id :: "string option"
  pp_artifact_id :: "string option"

text \<open>
  \<open>UUID(value)\<close>: the text without \<open>urn:\<close> and \<open>uuid:\<close>, without braces at its ends and without
  hyphens must have 32 characters that \<open>int(_, 16)\<close> reads: blanks around it, a sign, a \<open>0x\<close> and single
  underscores between digits are all accepted. No minus sign is left by then.
\<close>

function remove_all :: "string \<Rightarrow> string \<Rightarrow> string" where
  "remove_all pat [] = []"
| "remove_all pat (c # cs) =
     (if prefix pat (c # cs) then remove_all pat (drop (length pat - 1) cs) else c # remove_all pat cs)"
  by pat_completeness auto
termination
  by (relation "measure (\<lambda>(_, s). length s)") auto

fun int_digits :: "nat \<Rightarrow> string \<Rightarrow> nat option" where
  "int_digits acc [] = Some acc"
| "int_digits acc (c # cs) =
     (if c = CHR ''_'' then
        (case cs of
           [] \<Rightarrow> None
         | d # ds \<Rightarrow> (case hex_value d of None \<Rightarrow> None | Some v \<Rightarrow> int_digits (16 * acc + v) ds))
      else (case hex_value c of None \<Rightarrow> None | Some v \<Rightarrow> int_digits (16 * acc + v) cs))"

definition int_body :: "string \<Rightarrow> nat option" where
  "int_body s = (case s of [] \<Rightarrow> None | c # cs \<Rightarrow> Option.bind (hex_value c) (\<lambda>v. int_digits v cs))"

definition int_16 :: "string \<Rightarrow> nat option" where
  "int_16 s =
     (let t = strip s;
          u = (if prefix ''+'' t then tl t else t)
      in if prefix ''0x'' u \<or> prefix ''0X'' u
         then (let r = drop 2 u in int_body (if prefix ''_'' r then tl r else r))
         else int_body u)"

definition strip_braces :: "string \<Rightarrow> string" where
  "strip_braces s =
     (let brace = (\<lambda>c. c = CHR ''{'' \<or> c = CHR ''}'') in rev (dropWhile brace (rev (dropWhile brace s))))"

definition python_uuid :: "string \<Rightarrow> uuid option" where
  "python_uuid value =
     (let h = remove_all ''-'' (strip_braces (remove_all ''uuid:'' (remove_all ''urn:'' value))) in
      if length h = 32 then int_16 h else None)"

text \<open>A malformed identifier counts as none: the validation of the route rejects it later.\<close>

definition path_uuid :: "string option \<Rightarrow> uuid option" where
  "path_uuid v = Option.bind v python_uuid"

definition authorized_caller :: "db \<Rightarrow> caller option \<Rightarrow> string \<Rightarrow> path_params \<Rightarrow> domain_error + caller" where
  "authorized_caller d current method params =
     bind_res (current_caller current) (\<lambda>caller.
     let writing = method \<notin> set READ_METHODS in
     bind_res
       (case (path_uuid (pp_execution_id params), path_uuid (pp_artifact_id params)) of
          (Some execution_id, _) \<Rightarrow> authorize_execution d caller execution_id writing
        | (None, Some artifact_id) \<Rightarrow>
            bind_res (artifact_query d artifact_id) (\<lambda>artifact.
              let r = authorize_execution d caller (av_execution_id artifact) writing in
              if r = Inl ExecutionNotFoundError then Inl ExecutionArtifactNotFoundError else r)
        | (None, None) \<Rightarrow>
            bind_res (require_tenant caller) (\<lambda>_.
              if writing then bind_res (require_user caller) (\<lambda>_. Inr ()) else Inr ()))
       (\<lambda>_. Inr caller))"

subsection \<open>What a Caller was allowed\<close>

text \<open>The client whose key the request carries, and the tenants that client may act for.\<close>

definition holds_key :: "(string \<Rightarrow> string) \<Rightarrow> auth_client list \<Rightarrow> (string \<Rightarrow> string option) \<Rightarrow> auth_client \<Rightarrow> bool" where
  "holds_key sha256 clients headers client \<longleftrightarrow>
     client \<in> set clients \<and>
     (\<exists>key. headers ''X-Api-Key'' = Some key \<and> sha256 (utf8_encode key) \<in> set (ac_key_sha256 client))"

definition tenant_granted :: "auth_client \<Rightarrow> (string \<Rightarrow> string option) \<Rightarrow> string \<Rightarrow> bool" where
  "tenant_granted client headers t \<longleftrightarrow>
     headers ''X-Tenant-Id'' = None \<and> ac_tenant client = Some t \<or>
     headers ''X-Tenant-Id'' = Some t \<and> allows_tenant client t \<and> is_valid_tenant_id t \<and> t \<notin> set RESERVED_TENANT_IDS"

definition acts_for :: "(string \<Rightarrow> string) \<Rightarrow> auth_client list \<Rightarrow> (string \<Rightarrow> string option) \<Rightarrow> string \<Rightarrow> bool" where
  "acts_for sha256 clients headers t \<longleftrightarrow>
     (\<exists>client. holds_key sha256 clients headers client \<and> tenant_granted client headers t)"

lemma last_match:
  "foldl (\<lambda>m e. if x = e then Some c else m) m0 es = (if x \<in> set es then Some c else m0)"
  by (induction es arbitrary: m0) auto

lemma client_of_key_snoc:
  "client_of_key sha256 (cs @ [c]) key =
     (if sha256 (utf8_encode key) \<in> set (ac_key_sha256 c) then Some c else client_of_key sha256 cs key)"
  by (simp add: client_of_key_def last_match)

lemma client_of_key_SomeD:
  "client_of_key sha256 cs key = Some c \<Longrightarrow> c \<in> set cs \<and> sha256 (utf8_encode key) \<in> set (ac_key_sha256 c)"
  by (induction cs rule: rev_induct) (auto simp: client_of_key_snoc client_of_key_def [of sha256 "[]"] split: if_splits)

text \<open>With the configuration checked at start-up the client of a key is the only one that has it.\<close>

lemma client_of_key_unique:
  assumes "auth_clients_ok cs"
  shows "client_of_key sha256 cs key = Some c \<longleftrightarrow> c \<in> set cs \<and> sha256 (utf8_encode key) \<in> set (ac_key_sha256 c)"
proof -
  have "distinct (concat (map ac_key_sha256 cs))" using assms by (simp add: auth_clients_ok_def)
  then show ?thesis
    by (induction cs rule: rev_induct) (auto simp: client_of_key_snoc client_of_key_def [of sha256 "[]"])
qed

lemma requested_tenant_Inr:
  "requested_tenant client requested = Inr t \<longleftrightarrow>
     (requested = None \<and> t = ac_tenant client) \<or>
     (\<exists>r. requested = Some r \<and> t = Some r \<and> is_valid_tenant_id r \<and> r \<notin> set RESERVED_TENANT_IDS \<and> allows_tenant client r)"
  by (auto simp: requested_tenant_def split: option.splits)

lemma caller_ofD:
  assumes "caller_of sha256 clients headers = Inr c"
  shows "ca_tenant_id c = Some t \<Longrightarrow> acts_for sha256 clients headers t"
    and "ca_user_id c = map_option lower (headers ''X-User-Id'')"
    and "ca_user_id c = Some u \<Longrightarrow> USER_ID u"
    and "ca_session_id c \<noteq> None \<Longrightarrow> ca_project_id c \<noteq> None"
proof -
  obtain key client where k: "headers ''X-Api-Key'' = Some key" "client_of_key sha256 clients key = Some client"
    using assms by (auto simp: caller_of_def bind_eq_Some_conv split: option.splits)
  have own: "holds_key sha256 clients headers client"
    using k client_of_key_SomeD [OF k(2)] by (auto simp: holds_key_def)
  have fields: "requested_tenant client (headers ''X-Tenant-Id'') = Inr (ca_tenant_id c)"
      "acting_user (headers ''X-User-Id'') = Inr (ca_user_id c)"
      "ca_session_id c \<noteq> None \<longrightarrow> ca_project_id c \<noteq> None"
    using assms k by (auto simp: caller_of_def bind_res_eq_Inr split: if_splits)
  show "acts_for sha256 clients headers t" if "ca_tenant_id c = Some t"
    using own fields(1) that by (auto simp: acts_for_def tenant_granted_def requested_tenant_Inr)
  show "ca_user_id c = map_option lower (headers ''X-User-Id'')" and "ca_user_id c = Some u \<Longrightarrow> USER_ID u"
    using fields(2) by (auto simp: acting_user_def split: option.splits if_splits)
  show "ca_session_id c \<noteq> None \<Longrightarrow> ca_project_id c \<noteq> None" using fields(3) by simp
qed

lemma scope_id_Inr: "scope_id headers name = Inr v \<Longrightarrow> v = headers name"
  by (auto simp: scope_id_def split: option.splits if_splits)

lemma caller_scope:
  "caller_of sha256 clients headers = Inr c \<Longrightarrow>
     ca_project_id c = headers ''X-Project-Id'' \<and> ca_session_id c = headers ''X-Session-Id''"
  by (auto simp: caller_of_def bind_res_eq_Inr dest!: scope_id_Inr split: option.splits if_splits)

lemma acts_for_valid:
  assumes "auth_clients_ok clients" and "acts_for sha256 clients headers t"
  shows "is_valid_tenant_id t" and "t \<notin> set RESERVED_TENANT_IDS"
  using assms
  by (auto simp: acts_for_def holds_key_def tenant_granted_def auth_clients_ok_def list_all_iff list_ex_iff
      client_fields_ok_def validate_tenants_def)

lemma authenticate_SomeD: "authenticate sha256 clients scope = Inr (Some c) \<Longrightarrow> caller_of sha256 clients (sp_headers scope) = Inr c"
  by (auto simp: authenticate_def bind_res_eq_Inr split: if_splits)

lemma admin_paths_guarded:
  "authenticate sha256 clients scope = Inr (Some c) \<Longrightarrow> list_ex (\<lambda>p. prefix p (sp_path scope)) ADMIN_PATH_PREFIXES \<Longrightarrow> ca_admin c"
  by (auto simp: authenticate_def bind_res_eq_Inr require_admin_def split: if_splits)

lemma detail_view_owner [simp]:
  "xv_tenant_id (detail_view e) = ex_tenant_id e" "xv_user_id (detail_view e) = ex_user_id e"
  by (simp_all add: detail_view_def)

lemma authorize_execution_Inr:
  "authorize_execution d c i writing = Inr x \<longleftrightarrow>
     (\<exists>e. execution_row d i = Some e \<and> ca_tenant_id c = Some (ex_tenant_id e) \<and>
        (ca_user_id c = Some (ex_user_id e) \<or> \<not> writing \<and> ca_user_id c = None))"
  by (cases "ca_tenant_id c"; cases "ca_user_id c"; cases "execution_row d i")
    (auto simp: authorize_execution_def require_tenant_def require_user_def execution_query_def)

text \<open>An Execution of another tenant and one that does not exist get the same answer.\<close>

lemma foreign_execution_hidden:
  assumes "ca_tenant_id c = Some t" and "writing \<Longrightarrow> ca_user_id c \<noteq> None"
    and "execution_row d i = Some e" and "ex_tenant_id e \<noteq> t" and "execution_row d j = None"
  shows "authorize_execution d c i writing = authorize_execution d c j writing"
  using assms by (cases writing; cases "ca_user_id c")
    (simp_all add: authorize_execution_def require_tenant_def require_user_def execution_query_def)

end
