(* ===== verification/Execution_Specs.thy ===== *)
theory Execution_Specs
  imports Artifacts
begin

text \<open>
  The ExecutionSpec a caller sends: \<open>interfaces/execution_specs.py\<close> with the size limits of
  \<open>interfaces/bounded_mappings.py\<close>. A Step carries its source or names a file of the shared storage; the
  resolver reads it, within limits, and checks its digest.

  What the file system answers is three arguments: how it resolves a path to the place it names, links
  included (\<open>None\<close> where Python raises \<open>ValueError\<close>), the size \<open>stat\<close> reports for a regular file, and the
  bytes a later \<open>read\<close> returns, which need not be those \<open>stat\<close> saw.

  The lemmas show what a resolved spec guarantees to the service, which file a PATH Step can come from, and
  that every rejection names a field of the request.
\<close>

subsection \<open>Bounded mappings\<close>

definition MAPPING_MAX_KEYS :: nat where
  "MAPPING_MAX_KEYS = 32"

definition MAPPING_MAX_BYTES :: nat where
  "MAPPING_MAX_BYTES = 4096"

text \<open>\<open>json.dumps(value, ensure_ascii=False, separators=(",", ":"))\<close>.\<close>

definition raw_quote :: "string \<Rightarrow> string" where
  "raw_quote s = [CHR 0x22] @ concat (map utf8_escape s) @ [CHR 0x22]"

fun raw_dumps :: "json \<Rightarrow> string" where
  "raw_dumps JNull = ''null''"
| "raw_dumps (JBool b) = (if b then ''true'' else ''false'')"
| "raw_dumps (JInt i) = int_str i"
| "raw_dumps (JFloat t) = t"
| "raw_dumps (JStr s) = raw_quote s"
| "raw_dumps (JList vs) = ''['' @ join '','' (map raw_dumps vs) @ '']''"
| "raw_dumps (JObj kvs) =
     ''{'' @ join '','' (map (\<lambda>(k, t). raw_quote k @ '':'' @ t) (map (\<lambda>(k, v). (k, raw_dumps v)) kvs)) @ ''}''"

definition bounded :: "(string \<times> json) list \<Rightarrow> bool" where
  "bounded value \<longleftrightarrow>
     length value \<le> MAPPING_MAX_KEYS \<and> length (utf8_encode (raw_dumps (JObj value))) \<le> MAPPING_MAX_BYTES"

text \<open>
  \<open>METADATA_KEY_PATTERN.match\<close> of \<^verbatim>\<open>^[a-z][a-z0-9_]{0,63}$\<close>: as \<open>match\<close> does not ask for the whole
  text, the \<open>$\<close> also accepts one line feed after the key.
\<close>

definition key_shape :: "string \<Rightarrow> bool" where
  "key_shape k \<longleftrightarrow>
     k \<noteq> [] \<and> length k \<le> 64 \<and> is_lower (hd k) \<and>
     list_all (\<lambda>c. is_lower c \<or> is_digit c \<or> c = CHR ''_'') (tl k)"

definition metadata_key :: "string \<Rightarrow> bool" where
  "metadata_key k \<longleftrightarrow> key_shape k \<or> (k \<noteq> [] \<and> last k = CHR 0x0A \<and> key_shape (butlast k))"

definition metadata_ok :: "(string \<times> json) list \<Rightarrow> bool" where
  "metadata_ok value \<longleftrightarrow> list_all (\<lambda>(k, _). metadata_key k) value \<and> bounded value"

subsection \<open>The spec\<close>

record step_lineage =
  ln_skill_name :: "string option"
  ln_tool_name :: "string option"
  ln_input_parameters :: "(string \<times> json) list"

datatype step_source =
    InlineStepSource string
  | PathStepSource string string

record execution_step_input =
  si_sequence :: int
  si_source :: step_source
  si_step_timeout_seconds :: "int option"
  si_lineage :: "step_lineage option"

record execution_spec =
  sx_schema_version :: string
  sx_steps :: "execution_step_input list"

definition short_text :: "string option \<Rightarrow> bool" where
  "short_text v \<longleftrightarrow> (case v of None \<Rightarrow> True | Some s \<Rightarrow> length s \<le> 255)"

definition lineage_ok :: "step_lineage \<Rightarrow> bool" where
  "lineage_ok l \<longleftrightarrow> short_text (ln_skill_name l) \<and> short_text (ln_tool_name l) \<and> bounded (ln_input_parameters l)"

fun source_ok :: "step_source \<Rightarrow> bool" where
  "source_ok (InlineStepSource content) \<longleftrightarrow> content \<noteq> []"
| "source_ok (PathStepSource p sha) \<longleftrightarrow>
     p \<noteq> [] \<and> length p \<le> 4096 \<and> length sha = 64 \<and> list_all (\<lambda>c. hex_value c \<noteq> None) sha"

definition step_input_ok :: "execution_step_input \<Rightarrow> bool" where
  "step_input_ok s \<longleftrightarrow>
     0 \<le> si_sequence s \<and> source_ok (si_source s) \<and> opt_ge 1 (si_step_timeout_seconds s) \<and>
     (case si_lineage s of None \<Rightarrow> True | Some l \<Rightarrow> lineage_ok l)"

definition validate_steps :: "execution_step_input list \<Rightarrow> bool" where
  "validate_steps steps \<longleftrightarrow>
     (let sequences = map si_sequence steps in
      sequences = map (\<lambda>i. hd sequences + int i) [0..<length sequences])"

definition execution_spec_ok :: "execution_spec \<Rightarrow> bool" where
  "execution_spec_ok spec \<longleftrightarrow>
     sx_schema_version spec = ''1.0'' \<and> sx_steps spec \<noteq> [] \<and> list_all step_input_ok (sx_steps spec) \<and>
     validate_steps (sx_steps spec)"

subsection \<open>Resolving\<close>

record resolved_step =
  rs_sequence :: int
  rs_content :: string
  rs_source_type :: code_source_type
  rs_source_path :: "string option"
  rs_source_sha256 :: string
  rs_step_timeout_seconds :: "int option"
  rs_skill_name :: "string option"
  rs_tool_name :: "string option"
  rs_input_parameters :: "(string \<times> json) list"

record resolved_spec =
  rx_spec :: execution_spec
  rx_steps :: "resolved_step list"

record spec_resolver =
  sr_input_root :: path
  sr_inline_max_bytes :: nat
  sr_file_max_bytes :: nat
  sr_max_steps :: nat

record input_storage =
  is_resolve :: "path \<Rightarrow> path option"
  is_stat :: "path \<Rightarrow> nat option"
  is_read :: "path \<Rightarrow> string option"

text \<open>\<open>Path.suffix\<close>: from the last dot of the name, unless it opens or ends it.\<close>

definition path_suffix :: "path \<Rightarrow> string" where
  "path_suffix p =
     (let name = (if p = [] then [] else last p);
          stem_rev = dropWhile (\<lambda>c. c \<noteq> CHR ''.'') (rev name);
          extension = rev (takeWhile (\<lambda>c. c \<noteq> CHR ''.'') (rev name))
      in if length stem_rev \<le> 1 \<or> extension = [] then [] else CHR ''.'' # extension)"

definition path_error ::
    "location \<Rightarrow> string \<Rightarrow> int \<Rightarrow> string \<Rightarrow> (string \<times> context_value) list \<Rightarrow> domain_error" where
  "path_error location source_path sequence ty context =
     spec_error_at (location @ [LStr ''path'']) ty
       ([(''path'', CStr source_path), (''sequence'', CInt sequence)] @ context)"

definition read_encoded ::
    "spec_resolver \<Rightarrow> input_storage \<Rightarrow> location \<Rightarrow> string \<Rightarrow> int \<Rightarrow> path \<Rightarrow> domain_error + string" where
  "read_encoded cfg st location source_path sequence resolved =
     (case is_read st resolved of
        None \<Rightarrow> Inl UnexpectedRuntimeError
      | Some bytes \<Rightarrow>
          (let encoded = take (sr_file_max_bytes cfg + 1) bytes in
           if sr_file_max_bytes cfg < length encoded
           then Inl (path_error location source_path sequence ''path_source_too_large''
                  [(''limit_bytes'', CInt (int (sr_file_max_bytes cfg)))])
           else Inr encoded))"

definition read_path ::
    "(string \<Rightarrow> string) \<Rightarrow> spec_resolver \<Rightarrow> input_storage \<Rightarrow> location \<Rightarrow> string \<Rightarrow> string \<Rightarrow> int \<Rightarrow>
       domain_error + (string \<times> string)" where
  "read_path sha256 cfg st location source_path source_sha256 sequence =
     (let invalid = path_error location source_path sequence in
      if path_is_absolute source_path then Inl (invalid ''path_not_relative'' [])
      else
        (case is_resolve st (sr_input_root cfg @ path_parts source_path) of
           None \<Rightarrow> Inl (invalid ''path_outside_root'' [])
         | Some resolved \<Rightarrow>
             if \<not> prefix (sr_input_root cfg) resolved then Inl (invalid ''path_outside_root'' [])
             else if lower (path_suffix resolved) \<noteq> ''.py'' then Inl (invalid ''path_not_python'' [])
             else
               (case is_stat st resolved of
                  None \<Rightarrow> Inl (invalid ''path_not_found'' [])
                | Some file_size \<Rightarrow>
                    if sr_file_max_bytes cfg < file_size
                    then Inl (invalid ''path_source_too_large''
                           [(''limit_bytes'', CInt (int (sr_file_max_bytes cfg))), (''actual_bytes'', CInt (int file_size))])
                    else
                      bind_res (read_encoded cfg st location source_path sequence resolved) (\<lambda>encoded.
                      case utf8_decode encoded of
                        None \<Rightarrow> Inl (invalid ''path_not_utf8'' [])
                      | Some content \<Rightarrow>
                          if sha256 encoded \<noteq> lower source_sha256
                          then Inl (spec_error_at (location @ [LStr ''sha256'']) ''sha256_mismatch''
                                 [(''path'', CStr source_path), (''sequence'', CInt sequence),
                                  (''expected'', CStr (lower source_sha256)), (''actual'', CStr (sha256 encoded))])
                          else Inr (content, sha256 encoded)))))"

definition resolve_source ::
    "(string \<Rightarrow> string) \<Rightarrow> spec_resolver \<Rightarrow> input_storage \<Rightarrow> location \<Rightarrow> execution_step_input \<Rightarrow>
       domain_error + (string \<times> code_source_type \<times> string option \<times> string)" where
  "resolve_source sha256 cfg st location step =
     (case si_source step of
        InlineStepSource content \<Rightarrow>
          (let encoded = utf8_encode content in
           if sr_inline_max_bytes cfg < length encoded
           then Inl (spec_error_at (location @ [LStr ''content'']) ''inline_source_too_large''
                  [(''limit_bytes'', CInt (int (sr_inline_max_bytes cfg))), (''actual_bytes'', CInt (int (length encoded))),
                   (''sequence'', CInt (si_sequence step))])
           else Inr (content, CS_INLINE, None, sha256 encoded))
      | PathStepSource p sha \<Rightarrow>
          bind_res (read_path sha256 cfg st location p sha (si_sequence step)) (\<lambda>(content, checksum).
            Inr (content, CS_PATH, Some p, checksum)))"

definition resolve_step ::
    "(string \<Rightarrow> string) \<Rightarrow> spec_resolver \<Rightarrow> input_storage \<Rightarrow> location \<Rightarrow> execution_step_input \<Rightarrow>
       domain_error + resolved_step" where
  "resolve_step sha256 cfg st location step =
     (let source_location = location @ [LStr ''payload'', LStr ''source''] in
      bind_res (resolve_source sha256 cfg st source_location step) (\<lambda>(content, source_type, source_path, checksum).
      if strip content = []
      then Inl (spec_error_at source_location ''source_blank'' [(''sequence'', CInt (si_sequence step))])
      else Inr \<lparr>rs_sequence = si_sequence step, rs_content = content, rs_source_type = source_type,
                rs_source_path = source_path, rs_source_sha256 = checksum,
                rs_step_timeout_seconds = si_step_timeout_seconds step,
                rs_skill_name = Option.bind (si_lineage step) ln_skill_name,
                rs_tool_name = Option.bind (si_lineage step) ln_tool_name,
                rs_input_parameters = (case si_lineage step of None \<Rightarrow> [] | Some l \<Rightarrow> ln_input_parameters l)\<rparr>))"

fun resolve_from ::
    "(string \<Rightarrow> string) \<Rightarrow> spec_resolver \<Rightarrow> input_storage \<Rightarrow> location \<Rightarrow> nat \<Rightarrow> execution_step_input list \<Rightarrow>
       domain_error + resolved_step list" where
  "resolve_from sha256 cfg st location index [] = Inr []"
| "resolve_from sha256 cfg st location index (step # steps) =
     bind_res (resolve_step sha256 cfg st (location @ [LStr ''steps'', LInt (int index)]) step) (\<lambda>r.
     bind_res (resolve_from sha256 cfg st location (index + 1) steps) (\<lambda>rs. Inr (r # rs)))"

definition resolve ::
    "(string \<Rightarrow> string) \<Rightarrow> spec_resolver \<Rightarrow> input_storage \<Rightarrow> location \<Rightarrow> execution_spec \<Rightarrow>
       domain_error + resolved_spec" where
  "resolve sha256 cfg st location spec =
     (if sr_max_steps cfg < length (sx_steps spec)
      then Inl (spec_error_at (location @ [LStr ''steps'']) ''too_many_steps''
             [(''limit'', CInt (int (sr_max_steps cfg))), (''actual'', CInt (int (length (sx_steps spec))))])
      else
        bind_res (resolve_from sha256 cfg st location 0 (sx_steps spec)) (\<lambda>steps.
          Inr \<lparr>rx_spec = spec, rx_steps = steps\<rparr>))"

definition SUBMIT_SPEC_LOCATION :: location where
  "SUBMIT_SPEC_LOCATION = [LStr ''body'', LStr ''operation'', LStr ''spec'']"

definition CREATE_SPEC_LOCATION :: location where
  "CREATE_SPEC_LOCATION = [LStr ''body'', LStr ''spec'']"

definition require_submit_starts_at_zero :: "resolved_spec \<Rightarrow> domain_error + unit" where
  "require_submit_starts_at_zero resolved =
     (case sx_steps (rx_spec resolved) of
        [] \<Rightarrow> Inl UnexpectedRuntimeError
      | step # _ \<Rightarrow>
          if si_sequence step \<noteq> 0
          then Inl (spec_error_at (SUBMIT_SPEC_LOCATION @ [LStr ''steps'', LInt 0, LStr ''sequence'']) ''first_sequence_not_zero''
                 [(''expected'', CInt 0), (''actual'', CInt (si_sequence step))])
          else Inr ())"

subsection \<open>Bytes and text\<close>

lemma utf8_encode_Cons:
  "utf8_encode (c # cs) =
     (if (of_char c :: nat) < 128 then [c]
      else [char_of (192 + of_char c div 64 :: nat), char_of (128 + of_char c mod 64 :: nat)]) @ utf8_encode cs"
  by (simp add: utf8_encode_def Let_def)

text \<open>A text is the only one its bytes decode to, and its bytes the only ones that decode to it.\<close>

lemma utf8_encode_decode: "utf8_decode b = Some s \<Longrightarrow> utf8_encode s = b"
proof (induction b arbitrary: s rule: utf8_decode.induct)
  case (2 c cs)
  show ?case
  proof (cases "(of_char c :: nat) < 128")
    case True
    then obtain t where "utf8_decode cs = Some t" "s = c # t" using "2.prems" by (auto simp: map_option_case split: option.splits)
    then show ?thesis using "2.IH"(1) [OF True] True by (simp add: utf8_encode_Cons)
  next
    case False
    then obtain d ds t where cs: "cs = d # ds" and lead: "of_char c \<in> {194, 195 :: nat}"
      and next_byte: "128 \<le> (of_char d :: nat)" "(of_char d :: nat) < 192" and t: "utf8_decode ds = Some t"
      and s: "s = char_of ((of_char c - 192) * 64 + (of_char d - 128 :: nat)) # t"
      using "2.prems" by (auto split: list.splits if_splits)
    define n where "n = (of_char c - 192) * 64 + (of_char d - 128 :: nat)"
    have "n mod 64 = of_char d - 128" unfolding n_def mod_mult_self3 using next_byte by simp
    then have n: "128 \<le> n" "n < 256" "n div 64 = of_char c - 192" "n mod 64 = of_char d - 128"
      using lead next_byte by (auto simp: n_def)
    have "utf8_encode t = ds" using "2.IH"(2) [OF False cs _ t] lead next_byte by simp
    then show ?thesis using n lead next_byte unfolding s cs n_def [symmetric]
      by (auto simp: utf8_encode_Cons char_of_nat)
  qed
qed (simp add: utf8_encode_def)

subsection \<open>What a resolved spec guarantees\<close>

text \<open>
  Where the source of a Step came from: the request itself, or a Python file that the path resolves to
  inside the root, with the bytes the caller's digest names, within the limits.
\<close>

definition source_of ::
    "(string \<Rightarrow> string) \<Rightarrow> spec_resolver \<Rightarrow> input_storage \<Rightarrow> step_source \<Rightarrow> string \<Rightarrow> bool" where
  "source_of sha256 cfg st source content \<longleftrightarrow>
     (case source of
        InlineStepSource text \<Rightarrow> content = text \<and> length (utf8_encode content) \<le> sr_inline_max_bytes cfg
      | PathStepSource p digest \<Rightarrow>
          \<not> path_is_absolute p \<and>
          (\<exists>place. is_resolve st (sr_input_root cfg @ path_parts p) = Some place \<and> prefix (sr_input_root cfg) place \<and>
             lower (path_suffix place) = ''.py'' \<and> is_stat st place \<noteq> None \<and>
             is_read st place = Some (utf8_encode content)) \<and>
          length (utf8_encode content) \<le> sr_file_max_bytes cfg \<and> sha256 (utf8_encode content) = lower digest)"

definition resolved_ok ::
    "(string \<Rightarrow> string) \<Rightarrow> spec_resolver \<Rightarrow> input_storage \<Rightarrow> execution_step_input \<Rightarrow> resolved_step \<Rightarrow> bool" where
  "resolved_ok sha256 cfg st s r \<longleftrightarrow>
     rs_sequence r = si_sequence s \<and> rs_step_timeout_seconds r = si_step_timeout_seconds s \<and>
     source_of sha256 cfg st (si_source s) (rs_content r) \<and> strip (rs_content r) \<noteq> [] \<and>
     rs_source_sha256 r = sha256 (utf8_encode (rs_content r)) \<and>
     (rs_source_path r = None \<longleftrightarrow> rs_source_type r = CS_INLINE)"

lemma read_encoded_Inr:
  "read_encoded cfg st loc p n place = Inr bytes \<longleftrightarrow> is_read st place = Some bytes \<and> length bytes \<le> sr_file_max_bytes cfg"
  by (auto simp: read_encoded_def Let_def split: option.splits)

lemma read_path_InrD:
  assumes "read_path sha256 cfg st loc p digest n = Inr (content, checksum)"
  shows "source_of sha256 cfg st (PathStepSource p digest) content" and "checksum = sha256 (utf8_encode content)"
proof -
  obtain place bytes where "\<not> path_is_absolute p" "is_resolve st (sr_input_root cfg @ path_parts p) = Some place"
      "prefix (sr_input_root cfg) place" "lower (path_suffix place) = ''.py''" "is_stat st place \<noteq> None"
      "is_read st place = Some bytes" "length bytes \<le> sr_file_max_bytes cfg" "utf8_decode bytes = Some content"
      "sha256 bytes = lower digest" "checksum = sha256 bytes"
    using assms by (auto simp: read_path_def Let_def bind_res_eq_Inr read_encoded_Inr split: option.splits if_splits)
  moreover from this have "utf8_encode content = bytes" by (simp add: utf8_encode_decode)
  ultimately show "source_of sha256 cfg st (PathStepSource p digest) content" and "checksum = sha256 (utf8_encode content)"
    by (auto simp: source_of_def)
qed

lemma resolve_step_ok: "resolve_step sha256 cfg st loc s = Inr r \<Longrightarrow> resolved_ok sha256 cfg st s r"
  by (cases "si_source s")
    (auto simp: resolve_step_def resolve_source_def resolved_ok_def Let_def bind_res_eq_Inr source_of_def [of _ _ _ "InlineStepSource _"]
      dest: read_path_InrD split: if_splits)

lemma resolve_from_ok:
  "resolve_from sha256 cfg st loc i steps = Inr rs \<Longrightarrow> list_all2 (resolved_ok sha256 cfg st) steps rs"
  by (induction steps arbitrary: i rs) (auto simp: bind_res_eq_Inr resolve_step_ok)

lemma resolve_ok:
  assumes "resolve sha256 cfg st loc spec = Inr r"
  shows "rx_spec r = spec" and "length (sx_steps spec) \<le> sr_max_steps cfg"
    and "list_all2 (resolved_ok sha256 cfg st) (sx_steps spec) (rx_steps r)"
  using assms by (auto simp: resolve_def bind_res_eq_Inr resolve_from_ok split: if_splits)

text \<open>Every rejection is an HTTP 422 that names a field of the request, unless a file vanished after its \<open>stat\<close>.\<close>

definition file_vanished :: "input_storage \<Rightarrow> bool" where
  "file_vanished st \<longleftrightarrow> (\<exists>p. is_stat st p \<noteq> None \<and> is_read st p = None)"

lemma path_error_rejects [simp]: "request_location loc \<Longrightarrow> spec_rejection (path_error loc p n ty ctx)"
  by (simp add: path_error_def spec_rejection_iff del: spec_rejection_at)

lemma read_path_rejects:
  "read_path sha256 cfg st loc p digest n = Inl e \<Longrightarrow> request_location loc \<Longrightarrow> spec_rejection e \<or> file_vanished st"
  by (auto simp: read_path_def read_encoded_def file_vanished_def Let_def bind_res_eq_Inl spec_rejection_iff simp del: spec_rejection_at
      split: option.splits if_splits)

lemma resolve_step_rejects:
  "resolve_step sha256 cfg st loc s = Inl e \<Longrightarrow> request_location loc \<Longrightarrow> spec_rejection e \<or> file_vanished st"
  by (auto simp: resolve_step_def resolve_source_def Let_def bind_res_eq_Inl spec_rejection_iff simp del: spec_rejection_at
      dest!: read_path_rejects split: step_source.splits if_splits)

lemma resolve_from_rejects:
  "resolve_from sha256 cfg st loc i steps = Inl e \<Longrightarrow> request_location loc \<Longrightarrow> spec_rejection e \<or> file_vanished st"
  by (induction steps arbitrary: i) (auto simp: bind_res_eq_Inl dest!: resolve_step_rejects)

lemma resolve_rejects:
  "resolve sha256 cfg st loc spec = Inl e \<Longrightarrow> request_location loc \<Longrightarrow> spec_rejection e \<or> file_vanished st"
  by (auto simp: resolve_def bind_res_eq_Inl spec_rejection_iff simp del: spec_rejection_at dest: resolve_from_rejects split: if_splits)

text \<open>A metadata key may end in a line feed, which the documented pattern does not allow.\<close>

lemma metadata_key_line_feed: "metadata_ok [(''batch'' @ [CHR 0x0A], JNull)]" "\<not> key_shape (''batch'' @ [CHR 0x0A])"
  by code_simp+

end
