(* ===== verification/Execution_Routes.thy ===== *)
theory Execution_Routes
  imports System Caller_Auth Execution_Specs
begin

text \<open>
  The REST routes of Executions: \<open>interfaces/http/executions/commands.py\<close> and \<open>queries.py\<close> over the
  request contracts of \<open>contracts/execution_inputs.py\<close> and \<open>http/schemas.py\<close>, and the consolidated result of
  \<open>application/execution_results.py\<close>.

  A request passes the authentication middleware, then the dependency that authorizes its caller, then the
  validation of its path and body, then the handler. The parser of an identifier in the path (\<open>uuid_field\<close>) is
  an argument, as it belongs to the web framework. The database the authorization reads (\<open>da\<close>) and those the
  command sees later are different arguments.

  The properties at the end state what a caller can do to and read of the Executions of others.
\<close>

subsection \<open>Requests\<close>

datatype http_error = DomainFailure domain_error | RequestValidationError | MethodNotAllowed

definition key_field :: "string \<Rightarrow> bool" where
  "key_field key \<longleftrightarrow> key \<noteq> [] \<and> length key \<le> 255"

record submit_request =
  sq_idempotency_key :: string
  sq_operation_mode :: operation_mode
  sq_operation_wait_timeout_seconds :: "int option"
  sq_trigger_type :: trigger_type
  sq_runtime_type :: runtime_type
  sq_runtime_profile :: string
  sq_operation_timeout_seconds :: "int option"
  sq_spec :: execution_spec
  sq_operation_metadata :: "(string \<times> json) list"
  sq_metadata :: "(string \<times> json) list"

definition validate_wait_timeout :: "submit_request \<Rightarrow> bool" where
  "validate_wait_timeout r \<longleftrightarrow>
     (if sq_operation_mode r = OM_MULTI then sq_operation_wait_timeout_seconds r \<noteq> None
      else sq_operation_wait_timeout_seconds r = None)"

definition submit_request_ok :: "submit_request \<Rightarrow> bool" where
  "submit_request_ok r \<longleftrightarrow>
     key_field (sq_idempotency_key r) \<and> opt_ge 30 (sq_operation_wait_timeout_seconds r) \<and> validate_wait_timeout r \<and>
     sq_runtime_profile r \<noteq> [] \<and> length (sq_runtime_profile r) \<le> 128 \<and>
     opt_ge 1 (sq_operation_timeout_seconds r) \<and> execution_spec_ok (sq_spec r) \<and>
     metadata_ok (sq_operation_metadata r) \<and> metadata_ok (sq_metadata r)"

datatype command_body =
    CancelBody string "string option"
  | RetryBody string
  | CreateBody string int "int option" execution_spec "(string \<times> json) list"
  | FinalizeBody string int

fun command_body_ok :: "command_body \<Rightarrow> bool" where
  "command_body_ok (CancelBody key reason) \<longleftrightarrow>
     key_field key \<and> (case reason of None \<Rightarrow> True | Some t \<Rightarrow> length t \<le> 2000)"
| "command_body_ok (RetryBody key) \<longleftrightarrow> key_field key"
| "command_body_ok (CreateBody key version timeout spec metadata) \<longleftrightarrow>
     key_field key \<and> 0 \<le> version \<and> opt_ge 1 timeout \<and> execution_spec_ok spec \<and> metadata_ok metadata"
| "command_body_ok (FinalizeBody key version) \<longleftrightarrow> key_field key \<and> 0 \<le> version"

definition step_spec_of :: "resolved_step \<Rightarrow> step_spec" where
  "step_spec_of s =
     \<lparr>ss_sequence = rs_sequence s, ss_code = rs_content s, ss_source_type = rs_source_type s,
      ss_source_path = rs_source_path s, ss_source_sha256 = rs_source_sha256 s,
      ss_step_timeout_seconds = rs_step_timeout_seconds s, ss_skill_name = rs_skill_name s,
      ss_tool_name = rs_tool_name s, ss_input_parameters = JObj (rs_input_parameters s)\<rparr>"

text \<open>The caller's headers, never the body, name the tenant and context.\<close>

definition to_command :: "submit_request \<Rightarrow> resolved_spec \<Rightarrow> caller \<Rightarrow> domain_error + submit_command" where
  "to_command r resolved caller =
     bind_res (require_user caller) (\<lambda>user_id.
     bind_res (require_tenant caller) (\<lambda>tenant_id.
     Inr \<lparr>sc_idempotency_key = sq_idempotency_key r, sc_operation_mode = sq_operation_mode r,
          sc_trigger_type = sq_trigger_type r, sc_runtime_profile = sq_runtime_profile r,
          sc_user_id = user_id, sc_project_id = ca_project_id caller, sc_session_id = ca_session_id caller,
          sc_tenant_id = tenant_id, sc_spec_schema_version = sx_schema_version (rx_spec resolved),
          sc_operation_wait_timeout_seconds = sq_operation_wait_timeout_seconds r,
          sc_operation_timeout_seconds = sq_operation_timeout_seconds r, sc_runtime_type = sq_runtime_type r,
          sc_actor_client = Some (ca_client caller), sc_actor_id = Some user_id,
          sc_metadata = JObj (sq_metadata r), sc_operation_metadata = JObj (sq_operation_metadata r),
          sc_steps = map step_spec_of (rx_steps resolved)\<rparr>))"

subsection \<open>Responses\<close>

record command_response =
  ce_execution_id :: uuid
  ce_operation :: "(uuid \<times> (int \<times> uuid) list) option"
  ce_status :: execution_status
  ce_version :: int
  ce_created_by_client :: "string option"
  ce_created_by :: "string option"
  ce_updated_by_client :: "string option"
  ce_updated_by :: "string option"
  ce_created_at :: datetime
  ce_updated_at :: datetime

definition from_domain :: "execution \<Rightarrow> uuid option \<Rightarrow> command_response" where
  "from_domain e operation_id =
     \<lparr>ce_execution_id = ex_id e,
      ce_operation = map_option (\<lambda>i. (i, map (\<lambda>s. (st_sequence s, st_id s))
        (filter (\<lambda>s. st_operation_id s = Some i) (ex_steps e)))) operation_id,
      ce_status = ex_status e, ce_version = ex_version e,
      ce_created_by_client = ex_created_by_client e, ce_created_by = ex_created_by e,
      ce_updated_by_client = ex_updated_by_client e, ce_updated_by = ex_updated_by e,
      ce_created_at = ex_created_at e, ce_updated_at = ex_updated_at e\<rparr>"

definition result_response :: "domain_error + command_result outcome \<Rightarrow> domain_error + command_response outcome" where
  "result_response r =
     map_sum id (map_outcome (\<lambda>res. from_domain (cmd_execution res) (Some (cmd_operation_id res)))) r"

definition execution_response :: "domain_error + execution outcome \<Rightarrow> domain_error + command_response outcome" where
  "execution_response r = map_sum id (map_outcome (\<lambda>e. from_domain e None)) r"

subsection \<open>Command handlers\<close>

text \<open>What a handler runs with: its configuration, the clock, fresh identifiers and the states it meets.\<close>

record moment =
  mo_sha256 :: "string \<Rightarrow> string"
  mo_limits :: command_limits
  mo_offerings :: "runtime_type \<Rightarrow> runtime_offering option"
  mo_resolver :: spec_resolver
  mo_storage :: input_storage
  mo_now :: datetime
  mo_ids :: new_ids
  mo_lookup :: db
  mo_locked :: db
  mo_recheck :: db
  mo_files :: files

definition submit_execution_route ::
    "moment \<Rightarrow> caller \<Rightarrow> submit_request \<Rightarrow> files \<times> (domain_error + command_response outcome)" where
  "submit_execution_route m caller request =
     (case bind_res (resolve (mo_sha256 m) (mo_resolver m) (mo_storage m) SUBMIT_SPEC_LOCATION (sq_spec request)) (\<lambda>resolved.
           bind_res (require_submit_starts_at_zero resolved) (\<lambda>_. to_command request resolved caller)) of
        Inl err \<Rightarrow> (mo_files m, Inl err)
      | Inr c \<Rightarrow>
          apsnd result_response
            (submit (mo_sha256 m) (mo_limits m) (mo_offerings m) (mo_now m) (mo_ids m) (mo_lookup m) (mo_locked m)
              (mo_recheck m) (mo_files m) c))"

definition cancel_execution_route ::
    "moment \<Rightarrow> caller \<Rightarrow> uuid \<Rightarrow> string \<Rightarrow> string option \<Rightarrow> domain_error + command_response outcome" where
  "cancel_execution_route m caller execution_id key reason =
     bind_res (require_user caller) (\<lambda>actor.
       execution_response (cancel_execution (mo_now m) (mo_lookup m) (mo_locked m) (mo_recheck m)
         \<lparr>cc_execution_id = execution_id, cc_idempotency_key = key, cc_reason = reason,
          cc_actor_client = Some (ca_client caller), cc_actor_id = Some actor\<rparr>))"

definition retry_execution_route ::
    "moment \<Rightarrow> caller \<Rightarrow> uuid \<Rightarrow> string \<Rightarrow> domain_error + command_response outcome" where
  "retry_execution_route m caller execution_id key =
     bind_res (require_user caller) (\<lambda>actor.
       result_response (retry_execution (mo_now m) (mo_ids m) (mo_lookup m) (mo_locked m) (mo_recheck m)
         \<lparr>rc_execution_id = execution_id, rc_idempotency_key = key,
          rc_actor_client = Some (ca_client caller), rc_actor_id = Some actor\<rparr>))"

definition create_operation_route ::
    "moment \<Rightarrow> caller \<Rightarrow> uuid \<Rightarrow> string \<Rightarrow> int \<Rightarrow> int option \<Rightarrow> execution_spec \<Rightarrow> (string \<times> json) list \<Rightarrow>
       files \<times> (domain_error + command_response outcome)" where
  "create_operation_route m caller execution_id key version timeout spec metadata =
     (case bind_res (resolve (mo_sha256 m) (mo_resolver m) (mo_storage m) CREATE_SPEC_LOCATION spec) (\<lambda>resolved.
           map_sum id (\<lambda>actor. (resolved, actor)) (require_user caller)) of
        Inl err \<Rightarrow> (mo_files m, Inl err)
      | Inr (resolved, actor) \<Rightarrow>
          apsnd result_response
            (create_operation (mo_sha256 m) (mo_limits m) (mo_now m) (mo_ids m) (mo_lookup m) (mo_locked m)
              (mo_recheck m) (mo_files m)
              \<lparr>oc_execution_id = execution_id, oc_idempotency_key = key, oc_expected_version = version,
               oc_steps = map step_spec_of (rx_steps resolved),
               oc_spec_schema_version = sx_schema_version (rx_spec resolved),
               oc_operation_timeout_seconds = timeout, oc_metadata = JObj metadata,
               oc_actor_client = Some (ca_client caller), oc_actor_id = Some actor\<rparr>))"

definition finalize_execution_route ::
    "moment \<Rightarrow> caller \<Rightarrow> uuid \<Rightarrow> string \<Rightarrow> int \<Rightarrow> domain_error + command_response outcome" where
  "finalize_execution_route m caller execution_id key version =
     bind_res (require_user caller) (\<lambda>actor.
       execution_response (finalize_execution (mo_sha256 m) (mo_now m) (mo_ids m) (mo_lookup m) (mo_locked m) (mo_recheck m)
         \<lparr>fc_execution_id = execution_id, fc_idempotency_key = key, fc_expected_version = version,
          fc_actor_client = Some (ca_client caller), fc_actor_id = Some actor\<rparr>))"

fun command_route ::
    "moment \<Rightarrow> caller \<Rightarrow> uuid \<Rightarrow> command_body \<Rightarrow> files \<times> (domain_error + command_response outcome)" where
  "command_route m caller i (CancelBody key reason) = (mo_files m, cancel_execution_route m caller i key reason)"
| "command_route m caller i (RetryBody key) = (mo_files m, retry_execution_route m caller i key)"
| "command_route m caller i (CreateBody key version timeout spec metadata) =
     create_operation_route m caller i key version timeout spec metadata"
| "command_route m caller i (FinalizeBody key version) = (mo_files m, finalize_execution_route m caller i key version)"

subsection \<open>Serving a request\<close>

text \<open>The router asks for the method before any dependency runs; a dependency that raises ends the request.\<close>

definition serve ::
    "(string \<Rightarrow> string) \<Rightarrow> auth_client list \<Rightarrow> db \<Rightarrow> bool \<Rightarrow> http_scope \<Rightarrow> path_params \<Rightarrow>
       (http_error \<Rightarrow> 'a) \<Rightarrow> (caller \<Rightarrow> 'a) \<Rightarrow> 'a" where
  "serve sha256 clients da allowed scope params rejected handler =
     middleware sha256 clients (\<lambda>e. rejected (DomainFailure e))
       (\<lambda>current.
          if \<not> allowed then rejected MethodNotAllowed
          else
            (case authorized_caller da current (sp_method scope) params of
               Inl e \<Rightarrow> rejected (DomainFailure e)
             | Inr caller \<Rightarrow> handler caller)) scope"

definition no_params :: path_params where
  "no_params = \<lparr>pp_execution_id = None, pp_artifact_id = None\<rparr>"

definition execution_params :: "string \<Rightarrow> path_params" where
  "execution_params raw = \<lparr>pp_execution_id = Some raw, pp_artifact_id = None\<rparr>"

definition artifact_params :: "string \<Rightarrow> path_params" where
  "artifact_params raw = \<lparr>pp_execution_id = None, pp_artifact_id = Some raw\<rparr>"

definition serve_submit ::
    "auth_client list \<Rightarrow> db \<Rightarrow> moment \<Rightarrow> http_scope \<Rightarrow> submit_request \<Rightarrow> files \<times> (http_error + command_response outcome)" where
  "serve_submit clients da m scope request =
     (let rejected = (\<lambda>e. (mo_files m, Inl e)) in
      serve (mo_sha256 m) clients da (sp_method scope = ''POST'') scope no_params rejected (\<lambda>caller.
        if submit_request_ok request
        then apsnd (map_sum DomainFailure id) (submit_execution_route m caller request)
        else rejected RequestValidationError))"

definition serve_command ::
    "auth_client list \<Rightarrow> (string \<Rightarrow> uuid option) \<Rightarrow> db \<Rightarrow> moment \<Rightarrow> http_scope \<Rightarrow> string \<Rightarrow> command_body \<Rightarrow>
       files \<times> (http_error + command_response outcome)" where
  "serve_command clients uuid_field da m scope raw body =
     (let rejected = (\<lambda>e. (mo_files m, Inl e)) in
      serve (mo_sha256 m) clients da (sp_method scope = ''POST'') scope (execution_params raw) rejected (\<lambda>caller.
        case uuid_field raw of
          None \<Rightarrow> rejected RequestValidationError
        | Some execution_id \<Rightarrow>
            if command_body_ok body
            then apsnd (map_sum DomainFailure id) (command_route m caller execution_id body)
            else rejected RequestValidationError))"

subsection \<open>Query routes\<close>

record operation_result_bundle =
  ob_execution :: execution_detail_view
  ob_operation :: execution_operation_view
  ob_steps :: "execution_step list"

record execution_result_bundle =
  eb_execution :: execution_detail_view
  eb_operations :: "operation_result_bundle list"
  eb_attempts :: "execution_attempt_view list"
  eb_artifacts :: "execution_artifact_view list"

definition operation_result :: "db \<Rightarrow> uuid \<Rightarrow> uuid \<Rightarrow> domain_error + operation_result_bundle" where
  "operation_result d execution_id operation_id =
     bind_res (read_operation_snapshot d execution_id operation_id) (\<lambda>s.
       Inr \<lparr>ob_execution = or_execution s, ob_operation = or_operation s, ob_steps = or_steps s\<rparr>)"

text \<open>The dictionary of lists by Operation, filled in the order of the Steps.\<close>

fun steps_by_operation :: "execution_step list \<Rightarrow> (uuid \<Rightarrow> execution_step list) \<Rightarrow> domain_error + (uuid \<Rightarrow> execution_step list)" where
  "steps_by_operation [] groups = Inr groups"
| "steps_by_operation (s # ss) groups =
     (case st_operation_id s of
        None \<Rightarrow> Inl UnexpectedRuntimeError
      | Some i \<Rightarrow> steps_by_operation ss (groups(i := groups i @ [s])))"

definition execution_result :: "db \<Rightarrow> uuid \<Rightarrow> domain_error + execution_result_bundle" where
  "execution_result d execution_id =
     bind_res (read_execution_snapshot d execution_id) (\<lambda>s.
     bind_res (steps_by_operation (xr_steps s) (\<lambda>_. [])) (\<lambda>groups.
       Inr \<lparr>eb_execution = xr_execution s,
            eb_operations = map (\<lambda>q. \<lparr>ob_execution = xr_execution s, ob_operation = q, ob_steps = groups (ov_id q)\<rparr>)
              (xr_operations s),
            eb_attempts = xr_attempts s, eb_artifacts = xr_artifacts s\<rparr>))"

record list_query =
  lq_project_id :: "string option"
  lq_session_id :: "string option"
  lq_trigger_type :: "trigger_type option"
  lq_status :: "execution_status option"
  lq_cursor :: "string option"
  lq_limit :: nat

definition scope_filter :: "string option \<Rightarrow> bool" where
  "scope_filter v \<longleftrightarrow> (case v of None \<Rightarrow> True | Some s \<Rightarrow> SCOPE_ID s)"

definition cursor_field :: "string option \<Rightarrow> bool" where
  "cursor_field v \<longleftrightarrow> (case v of None \<Rightarrow> True | Some s \<Rightarrow> length s \<le> 2048)"

definition list_query_ok :: "list_query \<Rightarrow> bool" where
  "list_query_ok q \<longleftrightarrow>
     scope_filter (lq_project_id q) \<and> scope_filter (lq_session_id q) \<and> cursor_field (lq_cursor q) \<and>
     1 \<le> lq_limit q \<and> lq_limit q \<le> 200"

definition list_executions :: "db \<Rightarrow> caller \<Rightarrow> list_query \<Rightarrow> domain_error + execution_summary_view page" where
  "list_executions d caller q =
     executions \<lparr>ef_user_id = ca_user_id caller, ef_project_id = lq_project_id q, ef_session_id = lq_session_id q,
       ef_tenant_id = ca_tenant_id caller, ef_trigger_type = lq_trigger_type q, ef_status = lq_status q\<rparr>
       d (lq_cursor q) (lq_limit q)"

definition serve_list ::
    "(string \<Rightarrow> string) \<Rightarrow> auth_client list \<Rightarrow> db \<Rightarrow> db \<Rightarrow> http_scope \<Rightarrow> list_query \<Rightarrow> http_error + execution_summary_view page" where
  "serve_list sha256 clients da d scope q =
     serve sha256 clients da (sp_method scope = ''GET'') scope no_params Inl (\<lambda>caller.
       if list_query_ok q then map_sum DomainFailure id (list_executions d caller q) else Inl RequestValidationError)"

text \<open>
  A read of something of one Execution: the detail, its result, its histories and its artifacts are all
  registered on the router that authorizes the Execution of the path.
\<close>

definition serve_read ::
    "(string \<Rightarrow> string) \<Rightarrow> auth_client list \<Rightarrow> (string \<Rightarrow> uuid option) \<Rightarrow> db \<Rightarrow> http_scope \<Rightarrow> string \<Rightarrow>
       (uuid \<Rightarrow> domain_error + 'a) \<Rightarrow> http_error + 'a" where
  "serve_read sha256 clients uuid_field da scope raw query =
     serve sha256 clients da (sp_method scope = ''GET'') scope (execution_params raw) Inl (\<lambda>_.
       case uuid_field raw of
         None \<Rightarrow> Inl RequestValidationError
       | Some execution_id \<Rightarrow> map_sum DomainFailure id (query execution_id))"

definition serve_artifact ::
    "(string \<Rightarrow> string) \<Rightarrow> auth_client list \<Rightarrow> (string \<Rightarrow> uuid option) \<Rightarrow> db \<Rightarrow> db \<Rightarrow> http_scope \<Rightarrow> string \<Rightarrow>
       http_error + execution_artifact_view" where
  "serve_artifact sha256 clients uuid_field da d scope raw =
     serve sha256 clients da (sp_method scope = ''GET'') scope (artifact_params raw) Inl (\<lambda>_.
       case uuid_field raw of
         None \<Rightarrow> Inl RequestValidationError
       | Some i \<Rightarrow> map_sum DomainFailure id (artifact_query d i))"

subsection \<open>What a served request went through\<close>

lemma serve_handled:
  assumes "serve sha256 clients da allowed scope params rejected handler = x" and "\<And>e. rejected e \<noteq> x"
  obtains c where "handler c = x" and "allowed" and "caller_of sha256 clients (sp_headers scope) = Inr c"
    and "authorized_caller da (Some c) (sp_method scope) params = Inr c"
proof -
  obtain current where cur: "authenticate sha256 clients scope = Inr current" and a: "allowed"
    using assms by (auto simp: serve_def middleware_def split: sum.splits if_splits)
  obtain c where c: "authorized_caller da current (sp_method scope) params = Inr c" "handler c = x"
    using assms by (auto simp: serve_def middleware_def cur a split: sum.splits)
  then have "current = Some c" by (auto simp: authorized_caller_def current_caller_def bind_res_eq_Inr Let_def split: option.splits)
  then show thesis using that [OF c(2) a authenticate_SomeD] c(1) cur by simp
qed

lemma authorized_execution:
  assumes "authorized_caller da (Some c) method (execution_params raw) = Inr x" and "python_uuid raw = Some i"
  shows "\<exists>e. execution_row da i = Some e \<and> ca_tenant_id c = Some (ex_tenant_id e) \<and>
    (ca_user_id c = Some (ex_user_id e) \<or> method \<in> set READ_METHODS \<and> ca_user_id c = None)"
  using assms
  by (auto simp: authorized_caller_def current_caller_def execution_params_def path_uuid_def Let_def bind_res_eq_Inr
      authorize_execution_Inr)

lemma authorized_artifact:
  assumes "authorized_caller da (Some c) method (artifact_params raw) = Inr x" and "python_uuid raw = Some i"
  shows "\<exists>a e. scalar (\<lambda>a. ar_id a = i) (db_artifacts da) = Some a \<and> execution_row da (ar_execution_id a) = Some e \<and>
    ca_tenant_id c = Some (ex_tenant_id e) \<and>
    (ca_user_id c = Some (ex_user_id e) \<or> method \<in> set READ_METHODS \<and> ca_user_id c = None)"
proof -
  obtain a where a: "artifact_query da i = Inr a"
    and auth: "authorize_execution da c (av_execution_id a) (method \<notin> set READ_METHODS) = Inr ()"
    using assms
    by (auto simp: authorized_caller_def current_caller_def artifact_params_def path_uuid_def Let_def bind_res_eq_Inr
        split: if_splits)
  then show ?thesis
    by (auto simp: artifact_query_def artifact_view_def authorize_execution_Inr split: option.splits)
qed

lemma authorized_tenant:
  assumes "authorized_caller da (Some c) method no_params = Inr x"
  obtains t where "ca_tenant_id c = Some t"
  using assms
  by (auto simp: authorized_caller_def current_caller_def no_params_def path_uuid_def bind_res_eq_Inr require_tenant_def
      split: option.splits)

lemma post_is_no_read [simp]: "''POST'' \<notin> set READ_METHODS"
  by (simp add: READ_METHODS_def)

subsection \<open>Commands answer with the Execution they name\<close>

lemma required_execution_id: "required_execution d i = Inr e \<Longrightarrow> ex_id e = i"
  by (auto simp: required_execution_Inr dest: execution_row_SomeD)

lemma request_keeps_id:
  "request_cancel k r now e = Inr e' \<Longrightarrow> ex_id e' = ex_id e"
  "request_retry now e = Inr e' \<Longrightarrow> ex_id e' = ex_id e"
  "request_operation v now e = Inr e' \<Longrightarrow> ex_id e' = ex_id e"
  "request_finalization v now e = Inr e' \<Longrightarrow> ex_id e' = ex_id e"
  using cancel.request_identity retry.request_identity operation.request_identity finalization.request_identity
  by (simp_all add: execution_identity_def)

lemma cancel_answers:
  assumes "cancel_execution now dl dk dr c = Inr out"
  shows "ex_id (outcome_value out) = cc_execution_id c"
proof -
  have key: "ex_id e = cc_execution_id c" if "get_by_cancel_key d (cc_execution_id c) k = Some e" for d e k
    using that by (auto simp: get_by_cancel_key_def dest: scalar_SomeD)
  have "ex_id (outcome_value out) = cc_execution_id c" if "cancel_locked now dk c = Inr out" for out
    using that
    by (auto simp: cancel_locked_def bind_res_eq_Inr Let_def dest!: required_execution_id request_keeps_id split: if_splits)
  then show ?thesis
    using assms key by (auto simp: cancel_execution_def Let_def split: option.splits if_splits)
qed

lemma finalize_answers:
  assumes "finalize_execution sha now ids dl dk dr c = Inr out"
  shows "ex_id (outcome_value out) = fc_execution_id c"
  using assms
  by (auto simp: finalize_execution_def finalize_replay_def finalize_locked_def resolve_repeated_command_def Let_def
      bind_res_eq_Inr dest!: required_execution_id request_keeps_id split: option.splits if_splits)

lemma retry_answers:
  assumes "retry_execution now ids dl dk dr c = Inr out"
  shows "ex_id (cmd_execution (outcome_value out)) = rc_execution_id c"
proof -
  have key: "ex_id e = rc_execution_id c" if "get_by_retry_key d (rc_execution_id c) k = Some e" for d e k
    using that by (auto simp: get_by_retry_key_def repo_get_def dest!: scalar_SomeD execution_row_SomeD split: option.splits)
  show ?thesis
    using assms key
    by (auto simp: retry_execution_def retry_locked_def retry_replay_def Let_def bind_res_eq_Inr
        dest!: required_execution_id request_keeps_id split: option.splits if_splits)
qed

lemma create_answers:
  assumes "create_operation sha cl now ids dl dk dr fs c = (fs', Inr out)"
  shows "ex_id (cmd_execution (outcome_value out)) = oc_execution_id c"
proof -
  have rep: "ex_id (cmd_execution (outcome_value out)) = oc_execution_id c" if "create_replay d ty fp c x = Inr out" for d ty fp x
    using that by (auto simp: create_replay_def bind_res_eq_Inr dest!: required_execution_id)
  have "ex_id (cmd_execution (outcome_value out)) = oc_execution_id c"
    if "create_locked sha cl now ids dk fs ty fp c = (fs', Inr out)" for ty fp fs'
    using that
    by (auto simp: create_locked_def bind_res_eq_Inr Let_def dest!: required_execution_id request_keeps_id
        split: sum.splits prod.splits)
  then show ?thesis
    using assms rep
    by (auto simp: create_operation_def create_recheck_def Let_def split: sum.splits option.splits prod.splits if_splits)
qed

lemma map_sum_Inr_iff [simp]: "map_sum f id r = Inr x \<longleftrightarrow> r = Inr x"
  by (cases r) simp_all

lemma response_Inr:
  "result_response r = Inr out \<longleftrightarrow>
     (\<exists>w. r = Inr w \<and> out = map_outcome (\<lambda>res. from_domain (cmd_execution res) (Some (cmd_operation_id res))) w)"
  "execution_response q = Inr out \<longleftrightarrow> (\<exists>w. q = Inr w \<and> out = map_outcome (\<lambda>e. from_domain e None) w)"
  by (cases r; cases q; auto simp: result_response_def execution_response_def)+

lemma outcome_value_map [simp]: "outcome_value (map_outcome f w) = f (outcome_value w)"
  by (cases w) simp_all

lemma map_outcome_Committed: "Committed d x = map_outcome f w \<longleftrightarrow> (\<exists>y. w = Committed d y \<and> x = f y)"
  by (cases w) auto

lemma from_domain_id [simp]: "ce_execution_id (from_domain e q) = ex_id e"
  by (simp add: from_domain_def)

lemma command_route_answers:
  assumes "command_route m c i body = (fs', Inr out)"
  shows "ce_execution_id (outcome_value out) = i"
proof (cases body)
  case (CreateBody key v timeout spec metadata)
  then show ?thesis using assms
    by (auto simp: create_operation_route_def response_Inr create_answers apsnd_def map_prod_def split: sum.splits prod.splits)
qed (use assms in \<open>auto simp: cancel_execution_route_def retry_execution_route_def finalize_execution_route_def bind_res_eq_Inr
    response_Inr cancel_answers retry_answers finalize_answers\<close>)

lemma command_route_step:
  assumes wf: "db_wf (mo_locked m)" and "command_route m c i body = (fs', Inr (Committed d' x))"
  shows "command_step i (mo_locked m) d'"
proof (cases body)
  case (CreateBody key v timeout spec metadata)
  then show ?thesis using assms(2)
    by (auto simp: create_operation_route_def response_Inr map_outcome_Committed apsnd_def map_prod_def
        dest!: handler_step(4) [OF wf] split: sum.splits prod.splits)
qed (use assms(2) in \<open>auto simp: cancel_execution_route_def retry_execution_route_def finalize_execution_route_def bind_res_eq_Inr
    response_Inr map_outcome_Committed dest!: handler_step(1-3) [OF wf]\<close>)

lemma serve_command_owner:
  assumes field: "\<And>s i. uuid_field s = Some i \<Longrightarrow> python_uuid s = Some i"
    and served: "serve_command clients uuid_field da m scope raw body = (fs', Inr out)"
  obtains c i e where "uuid_field raw = Some i" and "command_route m c i body = (fs', Inr out)"
    and "execution_row da i = Some e" and "acts_for (mo_sha256 m) clients (sp_headers scope) (ex_tenant_id e)"
    and "map_option lower (sp_headers scope ''X-User-Id'') = Some (ex_user_id e)"
proof -
  obtain c where c: "caller_of (mo_sha256 m) clients (sp_headers scope) = Inr c" "sp_method scope = ''POST''"
      "authorized_caller da (Some c) (sp_method scope) (execution_params raw) = Inr c"
    and h: "(case uuid_field raw of None \<Rightarrow> (mo_files m, Inl RequestValidationError)
      | Some i \<Rightarrow> if command_body_ok body then apsnd (map_sum DomainFailure id) (command_route m c i body)
          else (mo_files m, Inl RequestValidationError)) = (fs', Inr out)"
    by (rule serve_handled [OF served [unfolded serve_command_def Let_def]]) auto
  then obtain i where i: "uuid_field raw = Some i"
    and "apsnd (map_sum DomainFailure id) (command_route m c i body) = (fs', Inr out)"
    by (auto split: option.splits if_splits)
  then have route: "command_route m c i body = (fs', Inr out)"
    by (cases "command_route m c i body"; cases "snd (command_route m c i body)") auto
  obtain e where "execution_row da i = Some e" "ca_tenant_id c = Some (ex_tenant_id e)" "ca_user_id c = Some (ex_user_id e)"
    using authorized_execution [OF c(3) field [OF i]] c(2) by auto
  then show thesis using that [OF i route] caller_ofD(1,2) [OF c(1)] by auto
qed

end
