(* ===== verification/Route_Properties.thy ===== *)
theory Route_Properties
  imports Execution_Routes
begin

text \<open>
  What the routes of \<open>Execution_Routes\<close> let a caller do: it changes only Executions of its own tenant and user,
  reads only those, submits only in its own name, and the sources of its Steps are those it sent or named.
  Each property comes with a request that is served.
\<close>

subsection \<open>Writing\<close>

text \<open>
  C10. A cancel, retry, finalize or new Operation that is served was sent with the key of a configured client,
  for a tenant that client may act for, by the user the Execution belongs to, both when the caller was
  authorized and when the row is locked, whatever the service did in between. It answers with that
  Execution, and no other Execution changes.
\<close>

theorem writes_isolated:
  assumes field: "\<And>s i. uuid_field s = Some i \<Longrightarrow> python_uuid s = Some i"
    and "reachable da" and "system_step\<^sup>*\<^sup>* da (mo_locked m)"
    and served: "serve_command clients uuid_field da m scope raw body = (fs', Inr out)"
  shows "\<exists>i e. uuid_field raw = Some i \<and> execution_row (mo_locked m) i = Some e \<and>
      acts_for (mo_sha256 m) clients (sp_headers scope) (ex_tenant_id e) \<and>
      map_option lower (sp_headers scope ''X-User-Id'') = Some (ex_user_id e) \<and>
      ce_execution_id (outcome_value out) = i \<and>
      (\<forall>d' x. out = Committed d' x \<longrightarrow>
         (\<exists>e'. execution_row d' i = Some e' \<and> ex_tenant_id e' = ex_tenant_id e \<and> ex_user_id e' = ex_user_id e) \<and>
         (\<forall>j. j \<noteq> i \<longrightarrow> execution_row d' j = execution_row (mo_locked m) j))"
proof -
  obtain c i e0 where i: "uuid_field raw = Some i" and route: "command_route m c i body = (fs', Inr out)"
    and e0: "execution_row da i = Some e0" "acts_for (mo_sha256 m) clients (sp_headers scope) (ex_tenant_id e0)"
      "map_option lower (sp_headers scope ''X-User-Id'') = Some (ex_user_id e0)"
    using serve_command_owner [OF field served] by metis
  have progress: "db_progress da (mo_locked m)"
    using system_steps_progress [OF assms(3) reachable_wf [OF assms(2)]] .
  then obtain e where e: "execution_row (mo_locked m) i = Some e" "ex_tenant_id e = ex_tenant_id e0" "ex_user_id e = ex_user_id e0"
    using e0(1) unfolding db_progress_def exec_progress_def by metis
  have "(\<exists>e'. execution_row d' i = Some e' \<and> ex_tenant_id e' = ex_tenant_id e \<and> ex_user_id e' = ex_user_id e) \<and>
      (\<forall>j. j \<noteq> i \<longrightarrow> execution_row d' j = execution_row (mo_locked m) j)" if "out = Committed d' x" for d' x
    using command_route_step [OF _ route [unfolded that]] progress e(1) by (auto simp: command_step_def db_progress_def)
  then show ?thesis using i e e0 command_route_answers [OF route] by auto
qed

subsection \<open>Reading\<close>

definition may_read :: "(string \<Rightarrow> string) \<Rightarrow> auth_client list \<Rightarrow> http_scope \<Rightarrow> string \<Rightarrow> string \<Rightarrow> bool" where
  "may_read sha256 clients scope tenant user \<longleftrightarrow>
     acts_for sha256 clients (sp_headers scope) tenant \<and>
     (sp_headers scope ''X-User-Id'' = None \<or> map_option lower (sp_headers scope ''X-User-Id'') = Some user)"

lemma page_of_matches:
  assumes "executions f d cursor limit = Inr page" and "v \<in> set (pg_items page)"
  shows "\<exists>e\<in>set (db_executions d). execution_matches f e \<and> xv_tenant_id v = ex_tenant_id e \<and> xv_user_id v = ex_user_id e"
proof -
  have sub: "set (keyset_rows key after n t) \<subseteq> set t" for key :: "execution_orm \<Rightarrow> int \<times> int" and after n t
    by (auto simp: keyset_rows_def dest: in_set_takeD)
  obtain e where "v = summary_view e (step_count d (ex_id e))" "e \<in> set (filter (execution_matches f) (db_executions d))"
    using assms sub by (fastforce simp: executions_def time_listing_def bind_res_eq_Inr make_page_def Let_def dest: in_set_takeD)
  then show ?thesis by (auto simp: summary_view_def)
qed

lemma caller_may_read:
  assumes "caller_of sha256 clients (sp_headers scope) = Inr c" and "ca_tenant_id c = Some t"
    and "ca_user_id c = Some u \<or> ca_user_id c = None"
  shows "may_read sha256 clients scope t u"
  using caller_ofD(1,2) [OF assms(1)] assms(2,3) by (auto simp: may_read_def)


text \<open>
  The consolidated result groups the Steps by Operation in their order, and each group is the result the
  Operation has of its own.
\<close>

lemma steps_by_operation_Inr:
  "steps_by_operation ss g = Inr h \<Longrightarrow> h i = g i @ filter (\<lambda>s. st_operation_id s = Some i) ss"
  by (induction ss arbitrary: g) (auto split: option.splits)

lemma steps_by_operation_defined:
  "(\<exists>h. steps_by_operation ss g = Inr h) \<longleftrightarrow> (\<forall>s\<in>set ss. st_operation_id s \<noteq> None)"
  by (induction ss arbitrary: g) (auto split: option.splits)

lemma result_bundles_agree:
  assumes wf: "db_wf d" and b: "execution_result d i = Inr b" and q: "q \<in> set (eb_operations b)"
  shows "operation_result d i (ov_id (ob_operation q)) = Inr q"
proof -
  let ?steps = "filter (\<lambda>s. st_execution_id s = i) (db_steps d)"
  obtain e h where e: "execution_row d i = Some e"
    and h: "steps_by_operation (map step_to_domain (sort_key st_sequence ?steps)) (\<lambda>_. []) = Inr h"
    and ops: "eb_operations b = map (\<lambda>q. \<lparr>ob_execution = detail_view e, ob_operation = q, ob_steps = h (ov_id q)\<rparr>)
      (map operation_view (sort_key op_operation_number (filter (\<lambda>q. op_execution_id q = i) (db_operations d))))"
    using b by (auto simp: execution_result_def read_execution_snapshot_def bind_res_eq_Inr split: option.splits)
  obtain r where r: "r \<in> set (db_operations d)" "op_execution_id r = i"
    and q': "q = \<lparr>ob_execution = detail_view e, ob_operation = operation_view r, ob_steps = h (op_id r)\<rparr>"
    using q unfolding ops by (auto simp: operation_view_def)
  have "h (op_id r) = map step_to_domain (sort_key st_sequence
      (filter (\<lambda>s. st_execution_id s = i \<and> st_operation_id s = Some (op_id r)) (db_steps d)))"
    using steps_by_operation_Inr [OF h, of "op_id r"]
    by (simp add: filter_map comp_def filter_sort conj_commute)
  moreover have inj: "inj_on op_id (set (db_operations d))" using wf by (simp add: db_wf_def distinct_map)
  have "scalar (\<lambda>q. op_id q = op_id r \<and> op_execution_id q = i) (db_operations d) = Some r"
    using r inj by (intro scalar_unique_cond) (auto dest: inj_onD)
  ultimately show ?thesis
    by (simp add: operation_result_def read_operation_snapshot_def e q' operation_view_def)
qed

subsection \<open>Submitting\<close>

lemma submit_replayed:
  assumes "submit sha cl off now ids dl dk dr fs c = (fs', Inr (Replayed r))"
  shows "\<exists>d\<in>{dl, dr}. \<exists>e\<in>set (db_executions d). ex_id e = ex_id (cmd_execution r) \<and> ex_tenant_id e = sc_tenant_id c"
proof -
  have rep: "\<exists>e\<in>set (db_executions d). ex_id e = ex_id (cmd_execution r) \<and> ex_tenant_id e = sc_tenant_id c"
    if key: "get_by_submit_key d (sc_tenant_id c) k = Some x" and replay: "submit_replay d fp c x = Inr (Replayed r)" for d k fp x
  proof -
    obtain e where e: "scalar (\<lambda>r. ex_tenant_id r = sc_tenant_id c \<and> ex_idempotency_key r = k) (db_executions d) = Some e"
        "x = execution_to_domain d e"
      using key by (auto simp: get_by_submit_key_def)
    moreover have "cmd_execution r = x" using replay by (auto simp: submit_replay_def bind_res_eq_Inr)
    ultimately show ?thesis using scalar_SomeD [OF e(1)] by auto
  qed
  have "submit_new sha now ids dk fs fp c \<noteq> (fs', Inr (Replayed r))" for fp fs'
    by (auto simp: submit_new_def Let_def bind_res_eq_Inr split: prod.splits sum.splits)
  then show ?thesis
    using assms rep
    by (auto simp: submit_def submit_recheck_def Let_def split: sum.splits option.splits prod.splits if_splits)
qed

lemma submit_committed_rows:
  assumes "submit sha cl off now ids dl dk dr fs c = (fs', Inr (Committed d' r))"
  defines "new \<equiv> execution_from_domain (submitted_execution sha now ids (canonical_sha256 sha (submit_payload c)) c)"
  shows "ex_id (cmd_execution r) = ex_id new" and "execution_row dk (ex_id new) = None"
    and "execution_row d' (ex_id new) = Some new" and "j \<noteq> ex_id new \<Longrightarrow> execution_row d' j = execution_row dk j"
proof -
  note D = submit_commitD [OF assms(1)]
  note ins = submit_insert_SomeD [OF D(3)]
  have id: "ex_id new = ni_execution ids" by (simp add: new_def)
  then show "ex_id (cmd_execution r) = ex_id new" by (simp add: D(4))
  show none: "execution_row dk (ex_id new) = None"
    using not_key_imageD [OF ins(2)] id by (simp add: execution_row_def scalar_None_iff)
  have "db_executions d' = db_executions dk @ [new]" unfolding ins(1) by (simp add: submitted_db_def new_def)
  then show "execution_row d' (ex_id new) = Some new" and "j \<noteq> ex_id new \<Longrightarrow> execution_row d' j = execution_row dk j"
    using none by (auto simp: execution_row_def scalar_append split: option.split)
qed

lemma serve_submit_command:
  assumes "serve_submit clients da m scope request = (fs', Inr out)"
  obtains caller resolved c w where "caller_of (mo_sha256 m) clients (sp_headers scope) = Inr caller"
    and "resolve (mo_sha256 m) (mo_resolver m) (mo_storage m) SUBMIT_SPEC_LOCATION (sq_spec request) = Inr resolved"
    and "to_command request resolved caller = Inr c"
    and "submit (mo_sha256 m) (mo_limits m) (mo_offerings m) (mo_now m) (mo_ids m) (mo_lookup m) (mo_locked m)
      (mo_recheck m) (mo_files m) c = (fs', Inr w)"
    and "out = map_outcome (\<lambda>res. from_domain (cmd_execution res) (Some (cmd_operation_id res))) w"
proof -
  obtain caller where c: "caller_of (mo_sha256 m) clients (sp_headers scope) = Inr caller"
    and h: "(if submit_request_ok request then apsnd (map_sum DomainFailure id) (submit_execution_route m caller request)
      else (mo_files m, Inl RequestValidationError)) = (fs', Inr out)"
    by (rule serve_handled [OF assms [unfolded serve_submit_def Let_def]]) auto
  then have "submit_execution_route m caller request = (fs', Inr out)"
    by (cases "submit_execution_route m caller request") (auto split: if_splits)
  then show thesis using that [OF c]
    by (auto simp: submit_execution_route_def bind_res_eq_Inr response_Inr apsnd_def map_prod_def
        split: sum.splits prod.splits)
qed

text \<open>
  C16. A submission that is served belongs to its caller: a new Execution gets the tenant the caller's key may act
  for, the user, project and session of the headers and no other Execution changes; a repeated one answers
  with an Execution of that tenant.
\<close>

theorem submission_owned:
  assumes "serve_submit clients da m scope request = (fs', Inr out)"
  shows "\<exists>t u. acts_for (mo_sha256 m) clients (sp_headers scope) t \<and> map_option lower (sp_headers scope ''X-User-Id'') = Some u \<and>
      (case out of
         Committed d' x \<Rightarrow>
           execution_row (mo_locked m) (ce_execution_id x) = None \<and>
           (\<exists>e. execution_row d' (ce_execution_id x) = Some e \<and> ex_tenant_id e = t \<and> ex_user_id e = u \<and>
              ex_project_id e = sp_headers scope ''X-Project-Id'' \<and> ex_session_id e = sp_headers scope ''X-Session-Id'') \<and>
           (\<forall>j. j \<noteq> ce_execution_id x \<longrightarrow> execution_row d' j = execution_row (mo_locked m) j)
       | Replayed x \<Rightarrow>
           (\<exists>d\<in>{mo_lookup m, mo_recheck m}. \<exists>e\<in>set (db_executions d). ex_id e = ce_execution_id x \<and> ex_tenant_id e = t))"
proof -
  obtain caller resolved c w where caller: "caller_of (mo_sha256 m) clients (sp_headers scope) = Inr caller"
    and c: "to_command request resolved caller = Inr c"
    and sub: "submit (mo_sha256 m) (mo_limits m) (mo_offerings m) (mo_now m) (mo_ids m) (mo_lookup m) (mo_locked m)
      (mo_recheck m) (mo_files m) c = (fs', Inr w)"
    and out: "out = map_outcome (\<lambda>res. from_domain (cmd_execution res) (Some (cmd_operation_id res))) w"
    by (rule serve_submit_command [OF assms])
  have t: "ca_tenant_id caller = Some (sc_tenant_id c)" and u: "ca_user_id caller = Some (sc_user_id c)"
    and scope_ids: "sc_project_id c = ca_project_id caller" "sc_session_id c = ca_session_id caller"
    using c by (auto simp: to_command_def bind_res_eq_Inr require_user_def require_tenant_def split: option.splits)
  have who: "acts_for (mo_sha256 m) clients (sp_headers scope) (sc_tenant_id c)"
      "map_option lower (sp_headers scope ''X-User-Id'') = Some (sc_user_id c)"
    using caller_ofD(1,2) [OF caller] t u by auto
  show ?thesis
  proof (cases w)
    case (Replayed r)
    then show ?thesis using who submit_replayed [of "mo_sha256 m"] sub out by fastforce
  next
    case (Committed d' r)
    note rows = submit_committed_rows [OF sub [unfolded Committed]]
    show ?thesis
      using rows who scope_ids caller_scope [OF caller]
      by (intro exI [of _ "sc_tenant_id c"] exI [of _ "sc_user_id c"])
        (simp add: out Committed submitted_execution_def new_execution_def row_simps)
  qed
qed

subsection \<open>Sources\<close>

lemma validate_steps_nth:
  assumes "validate_steps steps" and "i < length steps"
  shows "si_sequence (steps ! i) = si_sequence (hd steps) + int i"
proof -
  have "map si_sequence steps = map (\<lambda>i. hd (map si_sequence steps) + int i) [0..<length (map si_sequence steps)]"
    using assms(1) unfolding validate_steps_def Let_def .
  from arg_cong [OF this, of "\<lambda>l. l ! i"] have "si_sequence (steps ! i) = hd (map si_sequence steps) + int i"
    using assms(2) by simp
  moreover have "steps \<noteq> []" using assms(2) by auto
  ultimately show ?thesis by (simp add: hd_map)
qed

lemma resolved_step_spec:
  assumes "resolved_ok sha256 cfg st s r" and "step_input_ok s"
  shows "step_spec_ok (step_spec_of r)" and "ss_source_sha256 (step_spec_of r) = sha256 (utf8_encode (ss_code (step_spec_of r)))"
    and "ss_sequence (step_spec_of r) = si_sequence s" and "strip (ss_code (step_spec_of r)) \<noteq> []"
  using assms by (auto simp: resolved_ok_def step_input_ok_def step_spec_ok_def step_spec_of_def)


subsection \<open>Requests that are served\<close>

text \<open>One client with the key \<open>key\<close>, acting for user \<open>u\<close>; the digest of the examples reverses its input.\<close>

definition demo_clients :: "auth_client list" where
  "demo_clients = [\<lparr>ac_name = ''agent'', ac_key_sha256 = [''yek''], ac_tenant = Some ''acme'', ac_relay = False,
     ac_allowed_tenants = [], ac_admin = False\<rparr>]"

definition demo_scope :: "string \<Rightarrow> http_scope" where
  "demo_scope method = \<lparr>sp_type = ''http'', sp_path = ''/api/v1/executions'', sp_method = method,
     sp_headers = (\<lambda>name. map_of [(''X-Api-Key'', ''key''), (''X-User-Id'', ''U'')] name)\<rparr>"

definition demo_storage :: input_storage where
  "demo_storage = \<lparr>is_resolve = (\<lambda>p. Some (resolve_dots [] p)),
     is_stat = (\<lambda>p. if p = [''data'', ''jobs'', ''a.py''] then Some 5 else None),
     is_read = (\<lambda>p. if p = [''data'', ''jobs'', ''a.py''] then Some ''y = 2'' else None)\<rparr>"

definition demo_resolver :: spec_resolver where
  "demo_resolver = \<lparr>sr_input_root = [''data''], sr_inline_max_bytes = 100, sr_file_max_bytes = 100, sr_max_steps = 4\<rparr>"

definition demo_spec :: execution_spec where
  "demo_spec = \<lparr>sx_schema_version = ''1.0'', sx_steps =
     [\<lparr>si_sequence = 0, si_source = InlineStepSource ''x = 1'', si_step_timeout_seconds = None, si_lineage = None\<rparr>,
      \<lparr>si_sequence = 1, si_source = PathStepSource ''jobs/../jobs/a.py'' (replicate 64 CHR ''a''),
       si_step_timeout_seconds = Some 9, si_lineage = None\<rparr>]\<rparr>"

definition demo_moment :: "db \<Rightarrow> moment" where
  "demo_moment d = \<lparr>mo_sha256 = demo_sha, mo_limits = demo_limits, mo_offerings = demo_offerings,
     mo_resolver = demo_resolver, mo_storage = demo_storage, mo_now = 5, mo_ids = demo_ids,
     mo_lookup = d, mo_locked = d, mo_recheck = d, mo_files = []\<rparr>"

fun is_served :: "files \<times> (http_error + 'a outcome) \<Rightarrow> bool" where
  "is_served (fs, Inr (Committed d x)) = True"
| "is_served r = False"

lemma is_servedE:
  assumes "is_served r"
  obtains fs d x where "r = (fs, Inr (Committed d x))"
  using assms by (cases r rule: is_served.cases) auto

text \<open>A cancel of the only Execution.\<close>

theorem writes_isolated_witness:
  "\<exists>fs d' x. serve_command demo_clients python_uuid demo_service (demo_moment demo_service) (demo_scope ''POST'')
     (uuid_str 10) (CancelBody ''c1'' None) = (fs, Inr (Committed d' x)) \<and>
     acts_for demo_sha demo_clients (sp_headers (demo_scope ''POST'')) ''acme'' \<and> ce_execution_id x = 10"
proof -
  have "is_served (serve_command demo_clients python_uuid demo_service (demo_moment demo_service) (demo_scope ''POST'')
     (uuid_str 10) (CancelBody ''c1'' None))" by code_simp
  then obtain fs d' x where r: "serve_command demo_clients python_uuid demo_service (demo_moment demo_service) (demo_scope ''POST'')
     (uuid_str 10) (CancelBody ''c1'' None) = (fs, Inr (Committed d' x))" by (rule is_servedE)
  have m: "mo_locked (demo_moment demo_service) = demo_service" "mo_sha256 (demo_moment demo_service) = demo_sha"
    by (simp_all add: demo_moment_def)
  have i: "python_uuid (uuid_str 10) = Some 10" by code_simp
  have t: "map_option ex_tenant_id (execution_row demo_service 10) = Some ''acme''" by code_simp
  from writes_isolated [of python_uuid demo_service "demo_moment demo_service", OF _ demo_service_reachable _ r] m i t
  show ?thesis using r by auto
qed

text \<open>The Caller of these requests, and the listing of its tenant.\<close>

definition demo_caller :: caller where
  "demo_caller = \<lparr>ca_client = ''agent'', ca_admin = False, ca_tenant_id = Some ''acme'', ca_user_id = Some ''u'',
     ca_project_id = None, ca_session_id = None\<rparr>"

lemma demo_scope_sel:
  "sp_method (demo_scope method) = method" "ca_tenant_id demo_caller = Some ''acme''" "ca_user_id demo_caller = Some ''u''"
  by (simp_all add: demo_scope_def demo_caller_def)

lemma demo_service_tenant: "map ex_tenant_id (db_executions demo_service) = [''acme'']"
  by code_simp


text \<open>A submission to an empty service.\<close>

definition demo_request :: submit_request where
  "demo_request = \<lparr>sq_idempotency_key = ''k9'', sq_operation_mode = OM_SINGLE, sq_operation_wait_timeout_seconds = None,
     sq_trigger_type = TT_INTERACTIVE, sq_runtime_type = RT_JUPYTER, sq_runtime_profile = ''python'',
     sq_operation_timeout_seconds = None, sq_spec = demo_spec\<lparr>sx_steps := take 1 (sx_steps demo_spec)\<rparr>,
     sq_operation_metadata = [], sq_metadata = [(''batch'', JInt 7)]\<rparr>"

theorem submission_owned_witness:
  "\<exists>fs d' x e. serve_submit demo_clients empty_db (demo_moment empty_db) (demo_scope ''POST'') demo_request =
     (fs, Inr (Committed d' x)) \<and> execution_row d' (ce_execution_id x) = Some e \<and> ex_tenant_id e = ''acme'' \<and> ex_user_id e = ''u''"
proof -
  have "is_served (serve_submit demo_clients empty_db (demo_moment empty_db) (demo_scope ''POST'') demo_request)" by code_simp
  then obtain fs d' x where r: "serve_submit demo_clients empty_db (demo_moment empty_db) (demo_scope ''POST'') demo_request =
     (fs, Inr (Committed d' x))" by (rule is_servedE)
  have u: "map_option lower (sp_headers (demo_scope ''POST'') ''X-User-Id'') = Some ''u''" by code_simp
  have t: "acts_for (mo_sha256 (demo_moment empty_db)) demo_clients (sp_headers (demo_scope ''POST'')) t \<Longrightarrow> t = ''acme''" for t
    by (auto simp: acts_for_def holds_key_def tenant_granted_def demo_clients_def demo_scope_def)
  from submission_owned [OF r] u t show ?thesis using r by fastforce
qed


end
