(* ===== verification/Spec2Isabelle.thy ===== *)
theory Spec2Isabelle
  imports Result_Sealing Registry_Properties Artifact_Properties Cluster_Passes Route_Properties
begin

text \<open>
  \<^bold>\<open>The Executor service.\<close>

  The Executor (\<open>src/src/executor_service\<close>) accepts Executions of user code, keeps them in PostgreSQL, lets
  workers claim them for Runtime Targets (Jupyter servers), runs their Steps there, stores every output of
  every Step on shared storage and publishes what happened as events on Redis Streams. API processes, workers
  and background passes are different processes that share only the database, the storage and Redis; what they
  may do to an Execution is decided by its status, by a version for callers and by fenced leases for workers.

  \<^bold>\<open>Parts and theories.\<close>

  \<^item> Shared vocabulary. \<open>Prelude\<close> (identifiers, instants, JSON values, \<open>scalar\<close> and \<open>update_where\<close> on
    tables, the result type of fallible code), \<open>Json_Text\<close> and \<open>Json_Parser\<close> (\<open>json.dumps\<close>,
    \<open>json.loads\<close>, UTF-8, \<open>str(uuid)\<close>, the canonical fingerprint).
  \<^item> Domain. \<open>Domain_Enums\<close> (\<open>domain/enums.py\<close>, \<open>errors.py\<close>, \<open>transitions.py\<close>,
    \<open>tenants.py\<close>), \<open>Event_Contract\<close> (\<open>infrastructure/events.py\<close>), \<open>Domain_Models\<close>
    (\<open>domain/models.py\<close>).
  \<^item> Persistence. \<open>Database\<close> (the tables of \<open>infrastructure/db/models\<close>), \<open>Repository\<close>
    (\<open>infrastructure/db/repositories.py\<close>), \<open>Source_Store\<close> (\<open>result_storage/paths.py\<close>,
    \<open>sources.py\<close>).
  \<^item> Commands. \<open>Command_Support\<close> and \<open>Execution_Service\<close> (\<open>application/services\<close>),
    \<open>Command_Effects\<close> (what they do).
  \<^item> Workers. \<open>Event_Writer\<close>, \<open>Leases\<close>, \<open>Target_Selector\<close>, \<open>Handover\<close>, \<open>Claiming\<close>,
    \<open>Step_Executor\<close>, \<open>Run_Completion\<close>, \<open>Cancel_Run\<close> (\<open>infrastructure/execution_worker\<close>,
    \<open>execution_leases.py\<close>, \<open>runtime_admission.py\<close>).
  \<^item> Background passes. \<open>Lease_Recovery\<close> (expired leases, abandoned sessions), \<open>Multi_Lifecycle\<close> (the
    deadline audit), \<open>Maintenance\<close> (the admission switch and Maintenance Runs).
  \<^item> Events on their way out. \<open>Outbox\<close> (\<open>infrastructure/outbox.py\<close>), \<open>Event_Retention\<close>
    (\<open>event_retention.py\<close>).
  \<^item> Results. \<open>Result_Codec\<close> and \<open>Step_Results\<close> (\<open>result_storage/codec.py\<close>, \<open>io.py\<close>,
    \<open>steps.py\<close>).
  \<^item> Queries. \<open>Pagination\<close> (\<open>application/pagination.py\<close>), \<open>Query_Views\<close> (the views of
    \<open>application/execution_queries.py\<close> and their mappers), \<open>Execution_Queries\<close>
    (\<open>infrastructure/execution_queries\<close>).
  \<^item> Runtime Targets. \<open>Runtime_Registry\<close> (\<open>infrastructure/runtime_registry\<close>, \<open>runtime_adapters.py\<close>):
    registration, disabling, draining, the health probe, the purge and the listings.
  \<^item> Artifacts. \<open>Artifacts\<close> (\<open>infrastructure/workspace.py\<close>, \<open>infrastructure/artifacts\<close>,
    \<open>infrastructure/materialized_artifacts\<close>): the paths of an Execution's workspace, the manifest and
    directory scan of a finished Step, registration, and the text artifacts a Runtime writes.
  \<^item> The cadence of the background passes. \<open>Cluster_Passes\<close> (\<open>infrastructure/cluster_passes.py\<close>).
  \<^item> The REST interface of Executions. \<open>Caller_Auth\<close> (\<open>interfaces/auth.py\<close>, \<open>http/executions/common.py\<close>, the
    clients of \<open>settings.py\<close>), \<open>Execution_Specs\<close> (\<open>interfaces/execution_specs.py\<close>, \<open>bounded_mappings.py\<close>),
    \<open>Execution_Routes\<close> (\<open>interfaces/http/executions\<close>, \<open>contracts/execution_inputs.py\<close>,
    \<open>application/execution_results.py\<close>).

  A row of a table is a record and a table the list of its rows; the domain entity and its row share a base
  record. A handler or worker transaction is a function from the database (as it is when the transaction has
  its locks) to an error or to the new database with its answer: an error rolls back, so nothing of it is kept.
  Where a handler looks at the database before it locks, the earlier state is an argument of its own. The
  clock, fresh identifiers, the digest, the rows other transactions hold (\<open>SKIP LOCKED\<close>), the answers of the
  Runtime driver and of Redis are arguments. Instants are integers in microseconds, so no arithmetic overflows
  before the year the database itself rejects.

  \<^bold>\<open>What is shown.\<close>

  \<^item> \<open>System\<close>: all committed commands and transactions as one transition system. Every reachable database is
    well-formed; a lease that was overtaken never writes again; every status change refines the table of
    \<open>domain/transitions.py\<close>; SUCCEEDED and CANCELLED are final; versions, numbers and clocks only grow.
  \<^item> \<open>Execution_Service\<close>, \<open>Command_Effects\<close>: submission with its idempotent replay, reuse of a key and
    the race of two submissions; the complete outcome of cancel; creation of Operations; retry.
  \<^item> \<open>Target_Selector\<close>, \<open>Claim_Properties\<close>, \<open>Leases\<close>: selection is safe under contention and minimal
    without it; a claim is exclusive, respects capacity and the admission switch; a renewal extends exactly
    valid leases.
  \<^item> \<open>Step_Properties\<close>, \<open>Run_Properties\<close>, \<open>Ending_Properties\<close>: what a Step, a run, a cancellation, a
    recovery pass, a session cleanup and the deadline audit leave behind.
  \<^item> \<open>Event_Log\<close>, \<open>Event_Delivery\<close>, \<open>Event_Retention\<close>: events are numbered without a gap and meet
    their contract; the first deliveries of an Execution's events are in that order whatever publishers
    crash or time out; the retention passes return.
  \<^item> \<open>Result_Properties\<close>, \<open>Result_Roundtrip\<close>, \<open>Result_Sealing\<close>: a batch of outputs is stored once,
    the counters in memory are those on disk, acknowledged outputs survive restarts and crashes and read
    back in order, and a sealed result never changes.
  \<^item> \<open>Maintenance\<close>: at most one unfinished Run; a Run ends only over stopped Executions.
  \<^item> \<open>Execution_Queries\<close>: following the cursors of a listing returns every row once and in order, and
    while the database changes it repeats nothing and misses nothing that was there all the time.
  \<^item> \<open>Registry_Properties\<close>: the type of every reachable registry; a Target in use is neither purged nor
    moved; a probe records only what it asked of the endpoint the Target still has, and never undoes a drain.
  \<^item> \<open>Artifact_Properties\<close>: every registered path is confined to the Execution's workspace, registration
    is idempotent, and a text artifact is materialized once.
  \<^item> \<open>Cluster_Passes\<close>: two runs of a pass, by whichever processes, are at least an interval apart.
  \<^item> \<open>Route_Properties\<close>: a caller changes, reads and submits only within a tenant its key may act for and as
    its own user, also when the service moves on between authorization and command; the source of a Step is
    what the caller sent or a file of the shared root with the caller's digest.

  The interfaces are locales: \<open>execution_request\<close>, \<open>versioned_store\<close>, \<open>event_writer\<close>,
  \<open>worker_transaction\<close>, \<open>fenced_store\<close>, \<open>batch\<close>, \<open>viewed_batch\<close>, \<open>batch_deletion\<close>,
  \<open>json_escaping\<close> and \<open>keyset_listing\<close>, each interpreted on the model's own operations; the last one ten
  times, once for every listing of the service.

  \<^bold>\<open>Bounds and fuel.\<close> The JSON parser recurses with the length of the text as fuel, which \<open>parse_dumps\<close>
  shows to be enough for every text the service writes. The loop of event retention is a partial function whose
  termination is a theorem. Names of files and of identifiers are exact for ordinals below \<open>10 ^ 100\<close> and
  identifiers below \<open>2 ^ 128\<close>. Characters are code points below 256.

  \<^bold>\<open>Not modelled.\<close> The Jupyter driver, Redis and the file system below single files are external systems;
  their answers are arguments. The MCP tools, the administrative HTTP routes, the parsing of JSON bodies,
  settings other than the configured clients, logging and process wiring carry no state of their own; the
  parser of identifiers in a path is an argument, of which only agreement with \<open>UUID(value)\<close> is assumed. The
  rendering of notebooks, the download stream of an artifact and the recording of diagnostics are
  not part of this development; what a Runtime's storage answers, the field parsing of a manifest line and the
  cells of a notebook are arguments of the artifact definitions. Symbolic links on the result storage, column widths and the
  automatic \<open>onupdate\<close> of audit columns are outside the model. The URL parser and the cipher are arguments of
  the registry; \<open>fromisoformat\<close> reads the extended form that cursors are written in.
\<close>

end
